(* ===== verification/Prelude.thy ===== *)
theory Prelude
  imports Main "HOL-Library.AList" "HOL-Library.Word" "HOL-Library.Char_ord"
    "HOL-Library.List_Lexorder"
begin

text \<open>
  What every component shares: the vocabulary of types, the control-flow combinators that
  the Go bodies are written with (a state, an error return, an early return), a predicate
  transformer for them, and the notion of the effect of a body as a preorder on states,
  stated as a locale whose lemmas follow the combinators.  Nothing here models code of the
  repository; the definitions of the other theories are built from it.
\<close>

section \<open>Types and collections of facts\<close>

type_synonym bytes = "8 word list"
type_synonym address = "160 word"
type_synonym time = int

named_theorems run_simps \<open>equations that run a body on a concrete state\<close>
named_theorems wp_simps \<open>equations of the predicate transformer\<close>
named_theorems ok_simps \<open>what a body went through when it returned a value\<close>
named_theorems eff_intros \<open>rules for the effect of a body, one per combinator\<close>

section \<open>Bodies: state, error return, early return\<close>

text \<open>
  A Go body that reads and writes a state and returns (value, error) is a function from the
  state to either the error (Inl) or the value (Inr), with the state it leaves behind.
\<close>

type_synonym ('s, 'e, 'a) go = "'s \<Rightarrow> ('e + 'a) \<times> 's"

definition ret :: "'a \<Rightarrow> ('s, 'e, 'a) go" where
  "ret x = (\<lambda>s. (Inr x, s))"

definition throw :: "'e \<Rightarrow> ('s, 'e, 'a) go" where
  "throw e = (\<lambda>s. (Inl e, s))"

definition andthen :: "('s, 'e, 'a) go \<Rightarrow> ('a \<Rightarrow> ('s, 'e, 'b) go) \<Rightarrow> ('s, 'e, 'b) go" where
  "andthen m f = (\<lambda>s. case m s of (Inl e, t) \<Rightarrow> (Inl e, t) | (Inr x, t) \<Rightarrow> f x t)"

definition seq :: "('s, 'e, 'a) go \<Rightarrow> ('s, 'e, 'b) go \<Rightarrow> ('s, 'e, 'b) go" where
  "seq m n = andthen m (\<lambda>_. n)"

text \<open>\<open>fail_if c e n\<close> is \<^verbatim>\<open>if c { return nil, e }\<close> followed by \<open>n\<close>.\<close>

definition fail_if :: "bool \<Rightarrow> 'e \<Rightarrow> ('s, 'e, 'a) go \<Rightarrow> ('s, 'e, 'a) go" where
  "fail_if c e n = (if c then throw e else n)"

text \<open>A pure fallible call, the current state, an update of it.\<close>

definition lift :: "'e + 'a \<Rightarrow> ('s, 'e, 'a) go" where
  "lift r = (\<lambda>s. (r, s))"

definition gets :: "('s \<Rightarrow> 'a) \<Rightarrow> ('s, 'e, 'a) go" where
  "gets f = (\<lambda>s. (Inr (f s), s))"

definition modify :: "('s \<Rightarrow> 's) \<Rightarrow> ('s, 'e, unit) go" where
  "modify f = (\<lambda>s. (Inr (), f s))"

text \<open>
  \<open>attempt m\<close> hands the error to the caller as a value, for code that inspects
  \<^verbatim>\<open>err\<close> instead of returning it; \<open>map_err\<close> rewrites it.
\<close>

definition attempt :: "('s, 'e, 'a) go \<Rightarrow> ('s, 'e, 'e + 'a) go" where
  "attempt m = (\<lambda>s. case m s of (r, t) \<Rightarrow> (Inr r, t))"

definition map_err :: "('e \<Rightarrow> 'e) \<Rightarrow> ('s, 'e, 'a) go \<Rightarrow> ('s, 'e, 'a) go" where
  "map_err h m = (\<lambda>s. case m s of (Inl e, t) \<Rightarrow> (Inl (h e), t) | (Inr x, t) \<Rightarrow> (Inr x, t))"

text \<open>\<open>for_each xs f a\<close> is a loop over a list that carries \<open>a\<close> and stops at an error.\<close>

primrec for_each :: "'x list \<Rightarrow> ('x \<Rightarrow> 'a \<Rightarrow> ('s, 'e, 'a) go) \<Rightarrow> 'a \<Rightarrow> ('s, 'e, 'a) go" where
  "for_each [] f a = ret a"
| "for_each (x # xs) f a = andthen (f x a) (for_each xs f)"

lemma run_ret [run_simps]: "ret x s = (Inr x, s)"
  by (simp add: ret_def)

lemma run_throw [run_simps]: "throw e s = (Inl e, s)"
  by (simp add: throw_def)

lemma run_andthen [run_simps]:
  "andthen m f s = (case m s of (Inl e, t) \<Rightarrow> (Inl e, t) | (Inr x, t) \<Rightarrow> f x t)"
  by (simp add: andthen_def)

lemma run_seq [run_simps]:
  "seq m n s = (case m s of (Inl e, t) \<Rightarrow> (Inl e, t) | (Inr x, t) \<Rightarrow> n t)"
  by (simp add: seq_def andthen_def)

lemma run_fail_if [run_simps]: "fail_if c e n s = (if c then (Inl e, s) else n s)"
  by (simp add: fail_if_def throw_def)

lemma run_lift [run_simps]: "lift r s = (r, s)"
  by (simp add: lift_def)

lemma run_gets [run_simps]: "gets f s = (Inr (f s), s)"
  by (simp add: gets_def)

lemma run_modify [run_simps]: "modify f s = (Inr (), f s)"
  by (simp add: modify_def)

lemma run_attempt [run_simps]: "attempt m s = (case m s of (r, t) \<Rightarrow> (Inr r, t))"
  by (simp add: attempt_def)

lemma run_map_err [run_simps]:
  "map_err h m s = (case m s of (Inl e, t) \<Rightarrow> (Inl (h e), t) | (Inr x, t) \<Rightarrow> (Inr x, t))"
  by (simp add: map_err_def)

lemma ok_andthen [ok_simps]:
  "andthen m f s = (Inr y, t) \<longleftrightarrow> (\<exists>x u. m s = (Inr x, u) \<and> f x u = (Inr y, t))"
  by (auto simp: andthen_def split: prod.split sum.split)

lemma ok_seq [ok_simps]:
  "seq m n s = (Inr y, t) \<longleftrightarrow> (\<exists>x u. m s = (Inr x, u) \<and> n u = (Inr y, t))"
  by (simp add: seq_def ok_andthen)

lemma ok_fail_if [ok_simps]: "fail_if c e n s = (Inr y, t) \<longleftrightarrow> \<not> c \<and> n s = (Inr y, t)"
  by (simp add: fail_if_def throw_def)

lemma ok_map_err [ok_simps]: "map_err h m s = (Inr y, t) \<longleftrightarrow> m s = (Inr y, t)"
  by (auto simp: map_err_def split: prod.split sum.split)

lemma ok_lift [ok_simps]: "lift r s = (Inr y, t) \<longleftrightarrow> r = Inr y \<and> s = t"
  by (auto simp: lift_def)

lemma ok_attempt [ok_simps]: "attempt m s = (Inr y, t) \<longleftrightarrow> m s = (y, t)"
  by (auto simp: attempt_def split: prod.split)

lemma ok_leaf [ok_simps]:
  "ret x s = (Inr y, t) \<longleftrightarrow> y = x \<and> t = s"
  "\<not> throw e s = (Inr y, t)"
  "gets f s = (Inr y, t) \<longleftrightarrow> y = f s \<and> t = s"
  "modify g s = (Inr u, t) \<longleftrightarrow> t = g s"
  by (auto simp: ret_def throw_def gets_def modify_def)

lemma throw_not_ok: "throw e s = (Inr y, t) \<Longrightarrow> P"
  by (simp add: throw_def)

lemma ok_if [ok_simps]:
  "(if c then m else n) s = (Inr y, t) \<longleftrightarrow> (if c then m s = (Inr y, t) else n s = (Inr y, t))"
  by simp

lemma ok_sum [ok_simps]:
  "(case z of Inl e \<Rightarrow> g e | Inr x \<Rightarrow> f x) s = (Inr y, t) \<longleftrightarrow>
     (\<exists>e. z = Inl e \<and> g e s = (Inr y, t)) \<or> (\<exists>x. z = Inr x \<and> f x s = (Inr y, t))"
  by (cases z) auto

lemma ok_option [ok_simps]:
  "(case z of None \<Rightarrow> g | Some x \<Rightarrow> f x) s = (Inr y, t) \<longleftrightarrow>
     z = None \<and> g s = (Inr y, t) \<or> (\<exists>x. z = Some x \<and> f x s = (Inr y, t))"
  by (cases z) auto

lemma ok_prod [ok_simps]:
  "(case z of (a, b) \<Rightarrow> f a b) s = (Inr y, t) \<longleftrightarrow> (\<exists>a b. z = (a, b) \<and> f a b s = (Inr y, t))"
  by (cases z) auto

lemma snd_attempt: "snd (attempt m s) = snd (m s)"
  by (simp add: attempt_def split: prod.split)

lemma snd_map_err: "snd (map_err h m s) = snd (m s)"
  by (simp add: map_err_def split: prod.split sum.split)

text \<open>The same sequencing for a pure fallible function.\<close>

definition ebind :: "'e + 'a \<Rightarrow> ('a \<Rightarrow> 'e + 'b) \<Rightarrow> 'e + 'b" where
  "ebind r f = (case r of Inl e \<Rightarrow> Inl e | Inr x \<Rightarrow> f x)"

lemma ebind_simps [simp]: "ebind (Inl e) f = Inl e" "ebind (Inr x) f = f x"
  by (simp_all add: ebind_def)

lemma ebind_InrE:
  assumes "ebind r f = Inr y"
  obtains x where "r = Inr x" "f x = Inr y"
  using assms by (cases r) auto

lemma ebind_eq_Inr: "ebind r f = Inr y \<longleftrightarrow> (\<exists>x. r = Inr x \<and> f x = Inr y)"
  by (cases r) auto

section \<open>A predicate transformer\<close>

text \<open>
  \<open>wp m Q E s\<close>: run on \<open>s\<close>, \<open>m\<close> either returns a value and a state in \<open>Q\<close> or an
  error and a state in \<open>E\<close>.  Every body terminates, so this is total correctness.
\<close>

definition wp :: "('s, 'e, 'a) go \<Rightarrow> ('a \<Rightarrow> 's \<Rightarrow> bool) \<Rightarrow> ('e \<Rightarrow> 's \<Rightarrow> bool) \<Rightarrow> 's \<Rightarrow> bool" where
  "wp m Q E s = (case m s of (Inl e, t) \<Rightarrow> E e t | (Inr x, t) \<Rightarrow> Q x t)"

lemma wp_ret [wp_simps]: "wp (ret x) Q E s = Q x s"
  by (simp add: wp_def ret_def)

lemma wp_throw [wp_simps]: "wp (throw e) Q E s = E e s"
  by (simp add: wp_def throw_def)

lemma wp_andthen [wp_simps]: "wp (andthen m f) Q E s = wp m (\<lambda>x. wp (f x) Q E) E s"
  by (simp add: wp_def andthen_def split: prod.split sum.split)

lemma wp_seq [wp_simps]: "wp (seq m n) Q E s = wp m (\<lambda>_. wp n Q E) E s"
  by (simp add: seq_def wp_andthen)

lemma wp_fail_if [wp_simps]:
  "wp (fail_if c e n) Q E s = ((c \<longrightarrow> E e s) \<and> (\<not> c \<longrightarrow> wp n Q E s))"
  by (simp add: fail_if_def wp_throw)

lemma wp_lift [wp_simps]:
  "wp (lift r) Q E s = (case r of Inl e \<Rightarrow> E e s | Inr x \<Rightarrow> Q x s)"
  by (simp add: wp_def lift_def)

lemma wp_gets [wp_simps]: "wp (gets f) Q E s = Q (f s) s"
  by (simp add: wp_def gets_def)

lemma wp_modify [wp_simps]: "wp (modify f) Q E s = Q () (f s)"
  by (simp add: wp_def modify_def)

lemma wp_attempt [wp_simps]:
  "wp (attempt m) Q E s = wp m (\<lambda>x. Q (Inr x)) (\<lambda>e. Q (Inl e)) s"
  by (simp add: wp_def attempt_def split: prod.split sum.split)

lemma wp_map_err [wp_simps]: "wp (map_err h m) Q E s = wp m Q (\<lambda>e. E (h e)) s"
  by (simp add: wp_def map_err_def split: prod.split sum.split)

lemma wp_mono:
  "wp m Q E s \<Longrightarrow> (\<And>x t. Q x t \<Longrightarrow> Q' x t) \<Longrightarrow> (\<And>e t. E e t \<Longrightarrow> E' e t) \<Longrightarrow> wp m Q' E' s"
  by (auto simp: wp_def split: prod.splits sum.splits)

lemma wp_conj: "wp m Q E s \<Longrightarrow> wp m Q' E' s \<Longrightarrow> wp m (\<lambda>x t. Q x t \<and> Q' x t) (\<lambda>e t. E e t \<and> E' e t) s"
  by (auto simp: wp_def split: prod.splits sum.splits)

lemma wp_runD_ok: "wp m Q E s \<Longrightarrow> m s = (Inr x, t) \<Longrightarrow> Q x t"
  by (simp add: wp_def)

lemma wp_runD_err: "wp m Q E s \<Longrightarrow> m s = (Inl e, t) \<Longrightarrow> E e t"
  by (simp add: wp_def)

lemma wp_runI:
  "(\<And>x t. m s = (Inr x, t) \<Longrightarrow> Q x t) \<Longrightarrow> (\<And>e t. m s = (Inl e, t) \<Longrightarrow> E e t) \<Longrightarrow> wp m Q E s"
  by (auto simp: wp_def split: prod.splits sum.splits)

section \<open>The effect of a body\<close>

text \<open>
  \<open>within R m\<close>: whatever \<open>m\<close> returns, the state it leaves is related by \<open>R\<close> to the one it
  started from.  For a preorder \<open>R\<close> the effect of a composed body follows from its parts;
  a state invariant is the special case of a preorder of implication.
\<close>

definition within :: "('s \<Rightarrow> 's \<Rightarrow> bool) \<Rightarrow> ('s, 'e, 'a) go \<Rightarrow> bool" where
  "within R m \<longleftrightarrow> (\<forall>s. R s (snd (m s)))"

lemma withinD: "within R m \<Longrightarrow> m s = (r, t) \<Longrightarrow> R s t"
  by (metis within_def snd_conv)

lemma within_weaken: "within R m \<Longrightarrow> (\<And>s t. R s t \<Longrightarrow> R' s t) \<Longrightarrow> within R' m"
  by (simp add: within_def)

lemma within_wp: "within R m \<Longrightarrow> wp m (\<lambda>_ t. R s t) (\<lambda>_ t. R s t) s"
  by (auto simp: wp_def dest: withinD split: prod.split sum.split)

locale effect =
  fixes R :: "'s \<Rightarrow> 's \<Rightarrow> bool"
  assumes refl_effect: "R s s"
    and trans_effect: "R s t \<Longrightarrow> R t u \<Longrightarrow> R s u"
begin

lemma eff_ret [eff_intros]: "within R (ret x)"
  by (simp add: within_def ret_def refl_effect)

lemma eff_throw [eff_intros]: "within R (throw e)"
  by (simp add: within_def throw_def refl_effect)

lemma eff_lift [eff_intros]: "within R (lift r)"
  by (simp add: within_def lift_def refl_effect)

lemma eff_gets [eff_intros]: "within R (gets f)"
  by (simp add: within_def gets_def refl_effect)

lemma eff_andthen [eff_intros]:
  assumes "within R m" and "\<And>x. within R (f x)"
  shows "within R (andthen m f)"
  unfolding within_def
proof
  fix s
  obtain r t where m: "m s = (r, t)" by force
  with assms(1) have st: "R s t" by (rule withinD)
  show "R s (snd (andthen m f s))"
  proof (cases r)
    case (Inl e)
    with m st show ?thesis by (simp add: andthen_def)
  next
    case (Inr x)
    from assms(2) have "R t (snd (f x t))" by (simp add: within_def)
    with m st Inr show ?thesis by (auto simp: andthen_def intro: trans_effect)
  qed
qed

text \<open>The same from one state, for a continuation whose effect depends on the value it is given.\<close>

lemma from_andthen:
  assumes "R s (snd (m s))" and "\<And>x u. m s = (Inr x, u) \<Longrightarrow> R u (snd (f x u))"
  shows "R s (snd (andthen m f s))"
proof -
  obtain r t where m: "m s = (r, t)" by force
  then show ?thesis
  proof (cases r)
    case (Inl e)
    with m assms(1) show ?thesis by (simp add: andthen_def)
  next
    case (Inr x)
    with m assms(1) assms(2) [of x t] show ?thesis by (auto simp: andthen_def intro: trans_effect)
  qed
qed

lemma from_within: "within R m \<Longrightarrow> R s (snd (m s))"
  by (simp add: within_def)

lemma eff_seq [eff_intros]: "within R m \<Longrightarrow> within R n \<Longrightarrow> within R (seq m n)"
  by (simp add: seq_def eff_andthen)

lemma eff_if [eff_intros]:
  "(c \<Longrightarrow> within R m) \<Longrightarrow> (\<not> c \<Longrightarrow> within R n) \<Longrightarrow> within R (if c then m else n)"
  by simp

lemma eff_fail_if [eff_intros]: "within R n \<Longrightarrow> within R (fail_if c e n)"
  by (simp add: fail_if_def eff_throw)

lemma eff_attempt [eff_intros]: "within R m \<Longrightarrow> within R (attempt m)"
  by (simp add: within_def snd_attempt)

lemma eff_map_err [eff_intros]: "within R m \<Longrightarrow> within R (map_err h m)"
  by (simp add: within_def snd_map_err)

lemma eff_option [eff_intros]:
  "within R m \<Longrightarrow> (\<And>x. within R (f x)) \<Longrightarrow> within R (case z of None \<Rightarrow> m | Some x \<Rightarrow> f x)"
  by (cases z) auto

lemma eff_sum [eff_intros]:
  "(\<And>e. within R (g e)) \<Longrightarrow> (\<And>x. within R (f x)) \<Longrightarrow> within R (case z of Inl e \<Rightarrow> g e | Inr x \<Rightarrow> f x)"
  by (cases z) auto

lemma eff_prod [eff_intros]:
  "(\<And>x y. within R (f x y)) \<Longrightarrow> within R (case z of (x, y) \<Rightarrow> f x y)"
  by (cases z) auto

lemma eff_let [eff_intros]: "(\<And>x. within R (f x)) \<Longrightarrow> within R (Let z f)"
  by (simp add: Let_def)

lemma eff_modify: "(\<And>s. R s (f s)) \<Longrightarrow> within R (modify f)"
  by (simp add: within_def modify_def)

lemma eff_for_each [eff_intros]:
  assumes "\<And>x a. within R (f x a)"
  shows "within R (for_each xs f a)"
proof (induction xs arbitrary: a)
  case Nil
  show ?case by (simp add: eff_ret)
next
  case (Cons x xs)
  then show ?case by (simp add: eff_andthen assms)
qed

end

text \<open>A body that keeps a state predicate: the preorder is implication.\<close>

definition keeps :: "('s \<Rightarrow> bool) \<Rightarrow> ('s, 'e, 'a) go \<Rightarrow> bool" where
  "keeps P m \<longleftrightarrow> within (\<lambda>s t. P s \<longrightarrow> P t) m"

locale kept =
  fixes P :: "'s \<Rightarrow> bool"

sublocale kept \<subseteq> effect "\<lambda>s t. P s \<longrightarrow> P t"
  by unfold_locales auto

lemma keepsD: "keeps P m \<Longrightarrow> P s \<Longrightarrow> m s = (r, t) \<Longrightarrow> P t"
  unfolding keeps_def by (drule withinD) auto

section \<open>Lists\<close>

lemma find_append: "List.find p (xs @ ys) = (case List.find p xs of None \<Rightarrow> List.find p ys | Some x \<Rightarrow> Some x)"
  by (induction xs) auto

lemma find_SomeD: "List.find p xs = Some x \<Longrightarrow> x \<in> set xs \<and> p x"
  by (auto simp: find_Some_iff)

lemma find_None_all: "List.find p xs = None \<longleftrightarrow> (\<forall>x\<in>set xs. \<not> p x)"
  by (auto simp: find_None_iff)

lemma find_map_eq: "(\<And>x. x \<in> set xs \<Longrightarrow> p (f x) = q x) \<Longrightarrow> List.find p (map f xs) = map_option f (List.find q xs)"
  by (induction xs) auto

lemma list_all_replicateI: "p x \<Longrightarrow> list_all p (replicate n x)"
  by (induction n) auto

text \<open>First occurrences only, in order: the Go idiom with a \<^verbatim>\<open>seen\<close> map.\<close>

fun dedup :: "'a list \<Rightarrow> 'a list \<Rightarrow> 'a list" where
  "dedup seen [] = []"
| "dedup seen (x # xs) = (if x \<in> set seen then dedup seen xs else x # dedup (x # seen) xs)"

lemma set_dedup: "set (dedup seen xs) = set xs - set seen"
  by (induction seen xs rule: dedup.induct) auto

lemma distinct_dedup: "distinct (dedup seen xs)"
  by (induction seen xs rule: dedup.induct) (auto simp: set_dedup)

lemma dedup_append: "dedup seen (xs @ ys) = dedup seen xs @ dedup (rev (dedup seen xs) @ seen) ys"
proof (induction seen xs rule: dedup.induct)
  case (1 seen)
  then show ?case by simp
next
  case (2 seen x xs)
  then show ?case by simp
qed

lemma dedup_cong: "set seen = set seen' \<Longrightarrow> dedup seen xs = dedup seen' xs"
proof (induction seen xs arbitrary: seen' rule: dedup.induct)
  case (1 seen)
  then show ?case by simp
next
  case (2 seen x xs)
  then show ?case by auto
qed

lemma dedup_distinct: "distinct xs \<Longrightarrow> set xs \<inter> set seen = {} \<Longrightarrow> dedup seen xs = xs"
  by (induction seen xs rule: dedup.induct) auto

text \<open>A set that grows inside a finite range: what a bound on a list of distinct things gives.\<close>

lemma length_filter_mono: "(\<And>x. x \<in> set xs \<Longrightarrow> p x \<Longrightarrow> q x) \<Longrightarrow> length (filter p xs) \<le> length (filter q xs)"
  by (induction xs) auto

text \<open>A pure loop that stops at the first error, and the index of the first match.\<close>

primrec emap :: "('x \<Rightarrow> 'e + 'y) \<Rightarrow> 'x list \<Rightarrow> 'e + 'y list" where
  "emap f [] = Inr []"
| "emap f (x # xs) = ebind (f x) (\<lambda>y. ebind (emap f xs) (\<lambda>ys. Inr (y # ys)))"

lemma emap_map: "(\<And>x. x \<in> set xs \<Longrightarrow> f (g x) = Inr (h x)) \<Longrightarrow> emap f (map g xs) = Inr (map h xs)"
  by (induction xs) auto

lemma emap_set: "emap f xs = Inr ys \<Longrightarrow> y \<in> set ys \<Longrightarrow> \<exists>x\<in>set xs. f x = Inr y"
  by (induction xs arbitrary: ys) (auto simp: ebind_eq_Inr)

lemma emap_length: "emap f xs = Inr ys \<Longrightarrow> length ys = length xs"
  by (induction xs arbitrary: ys) (auto simp: ebind_eq_Inr)

primrec first_index :: "('a \<Rightarrow> bool) \<Rightarrow> 'a list \<Rightarrow> nat option" where
  "first_index p [] = None"
| "first_index p (x # xs) = (if p x then Some 0 else map_option Suc (first_index p xs))"

lemma first_index_Some:
  "first_index p xs = Some i \<longleftrightarrow> i < length xs \<and> p (xs ! i) \<and> (\<forall>j<i. \<not> p (xs ! j))"
proof (induction xs arbitrary: i)
  case Nil
  show ?case by simp
next
  case (Cons x xs)
  then show ?case by (cases i) (auto simp: All_less_Suc2)
qed

lemma first_index_None: "first_index p xs = None \<longleftrightarrow> (\<forall>x\<in>set xs. \<not> p x)"
  by (induction xs) auto

end
