(* ===== verification/GoLib.thy ===== *)
theory GoLib
  imports Prelude
begin

text \<open>
  The parts of Go's standard library the modelled code computes with: strings as byte
  strings, decimal and hexadecimal text of integers, variable-length integers, and the
  RFC 3339 text of a UTC time.  A Go string is a HOL \<open>string\<close> (a list of bytes), a
  \<^verbatim>\<open>*big.Int\<close> is an \<open>int\<close> (\<open>nat\<close> where the code guarantees the sign), a
  \<^verbatim>\<open>uint64\<close> a \<open>64 word\<close>, and a \<^verbatim>\<open>time.Time\<close> the \<open>int\<close> of its Unix nanoseconds.
\<close>

section \<open>Package strings\<close>

definition is_digit :: "char \<Rightarrow> bool" where
  "is_digit c \<longleftrightarrow> c \<in> set ''0123456789''"

definition is_hex :: "char \<Rightarrow> bool" where
  "is_hex c \<longleftrightarrow> c \<in> set ''0123456789abcdefABCDEF''"

definition has_prefix :: "string \<Rightarrow> string \<Rightarrow> bool" where
  "has_prefix s p \<longleftrightarrow> take (length p) s = p"

definition has_suffix :: "string \<Rightarrow> string \<Rightarrow> bool" where
  "has_suffix s p \<longleftrightarrow> length p \<le> length s \<and> drop (length s - length p) s = p"

definition cut_at :: "char \<Rightarrow> string \<Rightarrow> string \<times> string" where
  "cut_at c s = (takeWhile (\<lambda>x. x \<noteq> c) s, drop 1 (dropWhile (\<lambda>x. x \<noteq> c) s))"

definition trim_left :: "char \<Rightarrow> string \<Rightarrow> string" where
  "trim_left c s = dropWhile (\<lambda>x. x = c) s"

definition trim_right :: "char \<Rightarrow> string \<Rightarrow> string" where
  "trim_right c s = rev (dropWhile (\<lambda>x. x = c) (rev s))"

definition lower_char :: "char \<Rightarrow> char" where
  "lower_char c = (let n = (of_char c :: nat) in if 65 \<le> n \<and> n \<le> 90 then char_of (n + 32) else c)"

definition upper_char :: "char \<Rightarrow> char" where
  "upper_char c = (let n = (of_char c :: nat) in if 97 \<le> n \<and> n \<le> 122 then char_of (n - 32) else c)"

definition to_lower :: "string \<Rightarrow> string" where
  "to_lower s = map lower_char s"

definition to_upper :: "string \<Rightarrow> string" where
  "to_upper s = map upper_char s"

definition equal_fold :: "string \<Rightarrow> string \<Rightarrow> bool" where
  "equal_fold s t \<longleftrightarrow> to_lower s = to_lower t"

section \<open>Decimal text\<close>

definition dval :: "char \<Rightarrow> nat" where
  "dval c = of_char c - 48"

definition dchr :: "nat \<Rightarrow> char" where
  "dchr d = char_of (48 + d)"

fun dec_str :: "nat \<Rightarrow> string" where
  "dec_str n = (if n < 10 then [dchr n] else dec_str (n div 10) @ [dchr (n mod 10)])"

declare dec_str.simps [simp del]

definition dec_val :: "string \<Rightarrow> nat" where
  "dec_val s = foldl (\<lambda>a c. 10 * a + dval c) 0 s"

text \<open>\<open>(*big.Int).String\<close> and \<open>(*big.Int).SetString(s, 10)\<close>.\<close>

definition int_str :: "int \<Rightarrow> string" where
  "int_str z = (if z < 0 then CHR ''-'' # dec_str (nat (- z)) else dec_str (nat z))"

definition all_digits :: "string \<Rightarrow> bool" where
  "all_digits s \<longleftrightarrow> s \<noteq> [] \<and> list_all is_digit s"

definition set_string10 :: "string \<Rightarrow> int option" where
  "set_string10 s =
     (case s of
        [] \<Rightarrow> None
      | c # cs \<Rightarrow>
          if c = CHR ''-'' then (if all_digits cs then Some (- int (dec_val cs)) else None)
          else if c = CHR ''+'' then (if all_digits cs then Some (int (dec_val cs)) else None)
          else if all_digits s then Some (int (dec_val s)) else None)"

lemma dval_dchr: "d < 10 \<Longrightarrow> dval (dchr d) = d"
  by (simp add: dval_def dchr_def)

lemma digit_cases:
  assumes "d < (10::nat)"
  shows "d = 0 \<or> d = 1 \<or> d = 2 \<or> d = 3 \<or> d = 4 \<or> d = 5 \<or> d = 6 \<or> d = 7 \<or> d = 8 \<or> d = 9"
  using assms by presburger

lemma dchr_values:
  "dchr 0 = CHR ''0''" "dchr 1 = CHR ''1''" "dchr 2 = CHR ''2''" "dchr 3 = CHR ''3''"
  "dchr 4 = CHR ''4''" "dchr 5 = CHR ''5''" "dchr 6 = CHR ''6''" "dchr 7 = CHR ''7''"
  "dchr 8 = CHR ''8''" "dchr 9 = CHR ''9''"
  by (simp_all add: dchr_def char_of_eq_iff)

lemma is_digit_dchr: "d < 10 \<Longrightarrow> is_digit (dchr d)"
  using digit_cases [of d] by (auto simp: is_digit_def dchr_values simp del: One_nat_def)

lemma dchr_dval: "is_digit c \<Longrightarrow> dchr (dval c) = c"
  by (auto simp: is_digit_def dval_def dchr_def char_of_eq_iff)

lemma dval_less: "is_digit c \<Longrightarrow> dval c < 10"
  by (auto simp: is_digit_def dval_def)

lemma dchr_zero_iff: "d < 10 \<Longrightarrow> dchr d = CHR ''0'' \<longleftrightarrow> d = 0"
  using digit_cases [of d] by (auto simp: dchr_values simp del: One_nat_def)

lemma dec_val_Nil [simp]: "dec_val [] = 0"
  by (simp add: dec_val_def)

lemma dec_val_snoc [simp]: "dec_val (s @ [c]) = 10 * dec_val s + dval c"
  by (simp add: dec_val_def)

lemma dec_val_append: "dec_val (s @ t) = dec_val s * 10 ^ length t + dec_val t"
proof (induction t rule: rev_induct)
  case Nil
  show ?case by simp
next
  case (snoc c t)
  have "dec_val (s @ t @ [c]) = 10 * dec_val (s @ t) + dval c"
    by (simp flip: append_assoc)
  with snoc show ?case by (simp add: algebra_simps)
qed

lemma dec_val_zeros [simp]: "dec_val (replicate n (CHR ''0'')) = 0"
proof (induction n)
  case (Suc n)
  have "dec_val (replicate n (CHR ''0'') @ [CHR ''0'']) = 0"
    using Suc by (simp add: dval_def)
  then show ?case by (simp add: replicate_append_same)
qed simp

lemma dec_val_Cons: "dec_val (c # s) = dval c * 10 ^ length s + dec_val s"
  using dec_val_append [of "[c]" s] by (simp add: dec_val_def)

lemma dec_val_less: "list_all is_digit s \<Longrightarrow> dec_val s < 10 ^ length s"
proof (induction s rule: rev_induct)
  case (snoc c s)
  then have "dec_val s < 10 ^ length s" and "dval c < 10" by (auto dest: dval_less)
  then show ?case by simp
qed simp

lemma dec_val_trim: "dec_val (trim_left (CHR ''0'') s) = dec_val s"
  by (induction s) (auto simp: trim_left_def dec_val_Cons dval_def)

lemma dec_str_digits: "list_all is_digit (dec_str n)"
proof (induction n rule: dec_str.induct)
  case (1 n)
  then show ?case by (subst dec_str.simps) (simp add: is_digit_dchr)
qed

lemma dec_str_nonempty [simp]: "dec_str n \<noteq> []"
  by (subst dec_str.simps) simp

lemma all_digits_dec_str [simp]: "all_digits (dec_str n)"
  by (simp add: all_digits_def dec_str_digits)

lemma dec_val_str [simp]: "dec_val (dec_str n) = n"
proof (induction n rule: dec_str.induct)
  case (1 n)
  show ?case
  proof (cases "n < 10")
    case True
    then show ?thesis by (subst dec_str.simps) (simp add: dec_val_def dval_dchr)
  next
    case False
    with 1 have "dec_val (dec_str (n div 10)) = n div 10" by simp
    with False show ?thesis by (subst dec_str.simps) (simp add: dval_dchr)
  qed
qed

lemma dec_str_inj: "dec_str m = dec_str n \<longleftrightarrow> m = n"
  by (metis dec_val_str)

lemma dec_str_hd: "0 < n \<Longrightarrow> hd (dec_str n) \<noteq> CHR ''0''"
proof (induction n rule: dec_str.induct)
  case (1 n)
  show ?case
  proof (cases "n < 10")
    case True
    with 1(2) show ?thesis by (subst dec_str.simps) (simp add: dchr_zero_iff)
  next
    case False
    with 1 have "hd (dec_str (n div 10)) \<noteq> CHR ''0''" by simp
    with False show ?thesis by (subst dec_str.simps) (simp add: hd_append)
  qed
qed

lemma dec_str_trim: "0 < n \<Longrightarrow> trim_left (CHR ''0'') (dec_str n) = dec_str n"
  by (cases "dec_str n") (use dec_str_hd [of n] in \<open>auto simp: trim_left_def\<close>)

lemma dec_str_zero [simp]: "dec_str 0 = ''0''"
  by (subst dec_str.simps) (simp add: dchr_values)

text \<open>A digit string without a leading zero is the text of its value.\<close>

lemma dec_str_dec_val:
  "list_all is_digit s \<Longrightarrow> s \<noteq> [] \<Longrightarrow> hd s \<noteq> CHR ''0'' \<Longrightarrow> dec_str (dec_val s) = s"
proof (induction s rule: rev_induct)
  case (snoc c s)
  have d: "dval c < 10" "dchr (dval c) = c" using snoc.prems by (auto dest: dval_less simp: dchr_dval)
  show ?case
  proof (cases "s = []")
    case True
    with d show ?thesis by (subst dec_str.simps) (simp add: dec_val_def)
  next
    case False
    with snoc have IH: "dec_str (dec_val s) = s" by (simp add: hd_append)
    have "0 < dec_val s"
    proof (rule ccontr)
      assume "\<not> 0 < dec_val s"
      with IH have "s = ''0''" by simp
      with snoc.prems show False by simp
    qed
    then show ?thesis using d IH by (subst dec_str.simps) simp
  qed
qed simp

lemma length_dec_str: "n < 10 ^ k \<Longrightarrow> 0 < k \<Longrightarrow> length (dec_str n) \<le> k"
proof (induction n arbitrary: k rule: dec_str.induct)
  case (1 n)
  show ?case
  proof (cases "n < 10")
    case True
    with 1(3) show ?thesis by (subst dec_str.simps) simp
  next
    case False
    then obtain j where k: "k = Suc j" and j: "0 < j"
      using 1(2,3) by (cases k; cases "k - 1") auto
    with 1(2) have "n div 10 < 10 ^ j" by (simp add: less_mult_imp_div_less mult.commute)
    with 1(1) [OF False] j have "length (dec_str (n div 10)) \<le> j" by blast
    with False k show ?thesis by (subst dec_str.simps) simp
  qed
qed

lemma set_string10_digits: "all_digits s \<Longrightarrow> set_string10 s = Some (int (dec_val s))"
  by (cases s) (auto simp: set_string10_def all_digits_def is_digit_def)

lemma set_string10_int_str [simp]: "set_string10 (int_str z) = Some z"
proof (cases "z < 0")
  case True
  then show ?thesis by (simp add: int_str_def set_string10_def)
next
  case False
  then show ?thesis by (simp add: int_str_def set_string10_digits)
qed

lemma int_str_inj: "int_str y = int_str z \<longleftrightarrow> y = z"
  by (metis option.inject set_string10_int_str)

lemma int_str_nonempty [simp]: "int_str z \<noteq> []"
  by (simp add: int_str_def)

section \<open>Hexadecimal text\<close>

definition hex_digit :: "nat \<Rightarrow> char" where
  "hex_digit d = (if d < 10 then char_of (48 + d) else char_of (87 + d))"

definition hex_value :: "char \<Rightarrow> nat" where
  "hex_value c = (let n = (of_char c :: nat) in
     if n \<le> 57 then n - 48 else if n \<le> 70 then n - 55 else n - 87)"

definition byte_hex :: "8 word \<Rightarrow> string" where
  "byte_hex b = [hex_digit (unat b div 16), hex_digit (unat b mod 16)]"

text \<open>\<open>hex.EncodeToString\<close> and \<open>hex.DecodeString\<close>.\<close>

definition hex_encode :: "bytes \<Rightarrow> string" where
  "hex_encode bs = concat (map byte_hex bs)"

fun hex_decode :: "string \<Rightarrow> bytes option" where
  "hex_decode [] = Some []"
| "hex_decode [c] = None"
| "hex_decode (c # d # s) =
     (if is_hex c \<and> is_hex d
      then map_option (\<lambda>bs. word_of_nat (16 * hex_value c + hex_value d) # bs) (hex_decode s)
      else None)"

lemma unat_byte: "unat (b :: 8 word) < 256"
  using unsigned_less [where ?w = b and ?'a = nat] by simp

lemma nibble_cases:
  assumes "d < (16::nat)"
  shows "d = 0 \<or> d = 1 \<or> d = 2 \<or> d = 3 \<or> d = 4 \<or> d = 5 \<or> d = 6 \<or> d = 7 \<or> d = 8 \<or> d = 9
    \<or> d = 10 \<or> d = 11 \<or> d = 12 \<or> d = 13 \<or> d = 14 \<or> d = 15"
  using assms by presburger

lemma hex_value_digit: "d < 16 \<Longrightarrow> hex_value (hex_digit d) = d"
  by (auto simp: hex_value_def hex_digit_def Let_def)

lemma is_hex_digit: "d < 16 \<Longrightarrow> is_hex (hex_digit d)"
  by (drule nibble_cases) (elim disjE; simp add: hex_digit_def is_hex_def char_of_eq_iff)

lemma hex_decode_encode [simp]: "hex_decode (hex_encode bs) = Some bs"
proof (induction bs)
  case Nil
  show ?case by (simp add: hex_encode_def)
next
  case (Cons b bs)
  have "unat b < 256" by (rule unat_byte)
  then have hi: "unat b div 16 < 16" by simp
  have lo: "unat b mod 16 < 16" by simp
  have "16 * (unat b div 16) + unat b mod 16 = unat b" by simp
  then have "word_of_nat (16 * (unat b div 16) + unat b mod 16) = b" by (metis of_nat_unat ucast_id unsigned_of_nat)
  with Cons show ?case
    by (simp add: hex_encode_def byte_hex_def is_hex_digit [OF hi] is_hex_digit [OF lo]
        hex_value_digit [OF hi] hex_value_digit [OF lo])
qed

lemma length_hex_encode [simp]: "length (hex_encode bs) = 2 * length bs"
  by (induction bs) (simp_all add: hex_encode_def byte_hex_def)

lemma hex_encode_hex: "list_all is_hex (hex_encode bs)"
proof (induction bs)
  case Nil
  show ?case by (simp add: hex_encode_def)
next
  case (Cons b bs)
  have "unat b < 256" by (rule unat_byte)
  then have "is_hex (hex_digit (unat b div 16))" by (intro is_hex_digit) simp
  moreover have "is_hex (hex_digit (unat b mod 16))" by (intro is_hex_digit) simp
  ultimately show ?case using Cons by (simp add: hex_encode_def byte_hex_def)
qed

lemma length_hex_decode: "hex_decode s = Some bs \<Longrightarrow> length s = 2 * length bs"
  by (induction s arbitrary: bs rule: hex_decode.induct) (auto split: if_splits)

section \<open>Big-endian bytes\<close>

text \<open>\<open>(*big.Int).SetBytes\<close> and \<open>(*big.Int).FillBytes\<close> for a buffer of \<open>n\<close> bytes.\<close>

definition be_val :: "bytes \<Rightarrow> nat" where
  "be_val bs = foldl (\<lambda>a b. 256 * a + unat b) 0 bs"

fun be_bytes :: "nat \<Rightarrow> nat \<Rightarrow> bytes" where
  "be_bytes 0 v = []"
| "be_bytes (Suc n) v = be_bytes n (v div 256) @ [word_of_nat (v mod 256)]"

lemma length_be_bytes [simp]: "length (be_bytes n v) = n"
  by (induction n arbitrary: v) auto

lemma be_val_snoc [simp]: "be_val (bs @ [b]) = 256 * be_val bs + unat b"
  by (simp add: be_val_def)

lemma be_val_Nil [simp]: "be_val [] = 0"
  by (simp add: be_val_def)

lemma be_val_be_bytes: "v < 256 ^ n \<Longrightarrow> be_val (be_bytes n v) = v"
proof (induction n arbitrary: v)
  case (Suc n)
  then have "v div 256 < 256 ^ n" by (simp add: less_mult_imp_div_less mult.commute)
  with Suc.IH show ?case by (simp add: unat_of_nat)
qed simp

lemma be_val_less: "be_val bs < 256 ^ length bs"
proof (induction bs rule: rev_induct)
  case (snoc b bs)
  have "unat b < 256" by (rule unat_byte)
  with snoc show ?case by simp
qed simp

lemma be_bytes_be_val: "be_bytes (length bs) (be_val bs) = bs"
proof (induction bs rule: rev_induct)
  case (snoc b bs)
  have "unat b < 256" by (rule unat_byte)
  with snoc show ?case by simp
qed simp

lemma be_bytes_inj: "v < 256 ^ n \<Longrightarrow> w < 256 ^ n \<Longrightarrow> be_bytes n v = be_bytes n w \<longleftrightarrow> v = w"
  by (metis be_val_be_bytes)

section \<open>Machine integers\<close>

text \<open>\<^verbatim>\<open>int64\<close> arithmetic wraps around.\<close>

definition int64 :: "int \<Rightarrow> int" where
  "int64 z = sint (word_of_int z :: 64 word)"

lemma int64_id: "- (2 ^ 63) \<le> z \<Longrightarrow> z < 2 ^ 63 \<Longrightarrow> int64 z = z"
  by (simp add: int64_def sint_sbintrunc' signed_take_bit_int_eq_self)

section \<open>Times\<close>

text \<open>Durations in nanoseconds; \<open>zero_time\<close> is the zero \<^verbatim>\<open>time.Time\<close> (year 1).\<close>

definition seconds :: "int \<Rightarrow> int" where
  "seconds n = n * 1000000000"

definition zero_time :: time where
  "zero_time = seconds (- 62135596800)"

definition pad_left :: "nat \<Rightarrow> string \<Rightarrow> string" where
  "pad_left n s = replicate (n - length s) (CHR ''0'') @ s"

text \<open>The proleptic Gregorian date of a day number counted from 1970-01-01.\<close>

definition civil :: "int \<Rightarrow> int \<times> int \<times> int" where
  "civil days =
     (let z = days + 719468; era = z div 146097; doe = z mod 146097;
          yoe = (doe - doe div 1460 + doe div 36524 - doe div 146096) div 365;
          doy = doe - (365 * yoe + yoe div 4 - yoe div 100);
          mp = (5 * doy + 2) div 153;
          d = doy - (153 * mp + 2) div 5 + 1;
          m = (if mp < 10 then mp + 3 else mp - 9)
      in (yoe + era * 400 + (if m \<le> 2 then 1 else 0), m, d))"

text \<open>\<^verbatim>\<open>t.UTC().Format(time.RFC3339)\<close>, for years 0 to 9999.\<close>

definition rfc3339 :: "time \<Rightarrow> string" where
  "rfc3339 t =
     (let secs = t div 1000000000; days = secs div 86400; r = secs mod 86400;
          two = (\<lambda>n. pad_left 2 (dec_str (nat n)))
      in case civil days of (y, m, d) \<Rightarrow>
        pad_left 4 (dec_str (nat y)) @ ''-'' @ two m @ ''-'' @ two d @ ''T'' @
        two (r div 3600) @ '':'' @ two (r mod 3600 div 60) @ '':'' @ two (r mod 60) @ ''Z'')"

lemma rfc3339_example: "rfc3339 (seconds 1700000000 + 5) = ''2023-11-14T22:13:20Z''"
  by code_simp

text \<open>
  \<^verbatim>\<open>time.Parse(time.RFC3339, s)\<close> for the UTC texts that \<open>rfc3339\<close> writes; any other text
  gives the zero time (the callers ignore the error).
\<close>

definition days_of_civil :: "int \<Rightarrow> int \<Rightarrow> int \<Rightarrow> int" where
  "days_of_civil y m d =
     (let y' = (if m \<le> 2 then y - 1 else y); era = y' div 400; yoe = y' mod 400;
          mp = (if 2 < m then m - 3 else m + 9);
          doy = (153 * mp + 2) div 5 + d - 1;
          doe = yoe * 365 + yoe div 4 - yoe div 100 + doy
      in era * 146097 + doe - 719468)"

definition digits_at :: "string \<Rightarrow> nat \<Rightarrow> nat \<Rightarrow> int" where
  "digits_at s i n = int (dec_val (take n (drop i s)))"

definition rfc3339_shape :: "string \<Rightarrow> bool" where
  "rfc3339_shape s \<longleftrightarrow>
     length s = 20 \<and> s ! 4 = CHR ''-'' \<and> s ! 7 = CHR ''-'' \<and> s ! 10 = CHR ''T'' \<and> s ! 13 = CHR '':'' \<and>
     s ! 16 = CHR '':'' \<and> s ! 19 = CHR ''Z'' \<and>
     list_all (\<lambda>i. is_digit (s ! i)) [0, 1, 2, 3, 5, 6, 8, 9, 11, 12, 14, 15, 17, 18]"

definition parse_rfc3339 :: "string \<Rightarrow> time" where
  "parse_rfc3339 s =
     (if rfc3339_shape s
      then seconds (days_of_civil (digits_at s 0 4) (digits_at s 5 2) (digits_at s 8 2) * 86400 +
             digits_at s 11 2 * 3600 + digits_at s 14 2 * 60 + digits_at s 17 2)
      else zero_time)"

lemma parse_rfc3339_example: "parse_rfc3339 ''2023-11-14T22:13:20Z'' = seconds 1700000000"
  by code_simp

end
