(* ===== verification/Errors.thy ===== *)
theory Errors
  imports GoLib
begin

text \<open>
  The error values of internal/wallet and internal/chain, and the interface of the
  go-ethereum library the wallet computes with.  The library's code is not part of the
  repository: its functions are the fields of the record \<open>ethlib\<close>, passed to every
  definition that calls them, and \<open>eth_hex_laws\<close> and \<open>eth_tx_laws\<close> name what its
  documentation promises.
\<close>

section \<open>Errors (internal/wallet/types.go, internal/chain/chain.go)\<close>

text \<open>
  Sentinel errors that callers compare with \<^verbatim>\<open>errors.Is\<close> are constructors of their
  own.  An inline \<^verbatim>\<open>errors.New("...")\<close>, which no caller can compare with anything, is
  \<open>ErrNew\<close> with a short tag for its message; an error of the operating system, of the RPC
  transport or of a library is \<open>ErrExt\<close> with its text.
\<close>

datatype err =
    ErrWalletExists | ErrWalletNotFound | ErrInvalidPassword | ErrPasswordMismatch
  | ErrInvalidMnemonic | ErrInvalidAddress | ErrZeroAddress | ErrMalformedChecksum
  | ErrWrongChain | ErrQuoteNotFound | ErrQuoteExpired | ErrQuoteStorageFull | ErrTxInFlight
  | ErrNonceMismatch | ErrInsufficientFunds | ErrNotContract | ErrApprovalRace
  | ErrUnlimitedAllowanceNotAllowed | ErrSimulationFailed | ErrJournalFull
  | ErrDecimalsTooLarge | ErrSymbolTooLong | ErrTooManyScryptRequests
  | ErrAddress | ErrHash | ErrNetwork | ErrUnavailable | ErrTimeout | ErrNotFound | ErrUnrelated
  | errActivityIndexFull | errTronRPC | errSolRPC
  | ErrNew string
  | ErrExt string
  | SendRejectedError err

text \<open>\<^verbatim>\<open>errors.Is\<close>: compare along the \<^verbatim>\<open>Unwrap\<close> chain.\<close>

primrec unwrap :: "err \<Rightarrow> err" where
  "unwrap (SendRejectedError e) = unwrap e"
| "unwrap ErrWalletExists = ErrWalletExists"
| "unwrap ErrWalletNotFound = ErrWalletNotFound"
| "unwrap ErrInvalidPassword = ErrInvalidPassword"
| "unwrap ErrPasswordMismatch = ErrPasswordMismatch"
| "unwrap ErrInvalidMnemonic = ErrInvalidMnemonic"
| "unwrap ErrInvalidAddress = ErrInvalidAddress"
| "unwrap ErrZeroAddress = ErrZeroAddress"
| "unwrap ErrMalformedChecksum = ErrMalformedChecksum"
| "unwrap ErrWrongChain = ErrWrongChain"
| "unwrap ErrQuoteNotFound = ErrQuoteNotFound"
| "unwrap ErrQuoteExpired = ErrQuoteExpired"
| "unwrap ErrQuoteStorageFull = ErrQuoteStorageFull"
| "unwrap ErrTxInFlight = ErrTxInFlight"
| "unwrap ErrNonceMismatch = ErrNonceMismatch"
| "unwrap ErrInsufficientFunds = ErrInsufficientFunds"
| "unwrap ErrNotContract = ErrNotContract"
| "unwrap ErrApprovalRace = ErrApprovalRace"
| "unwrap ErrUnlimitedAllowanceNotAllowed = ErrUnlimitedAllowanceNotAllowed"
| "unwrap ErrSimulationFailed = ErrSimulationFailed"
| "unwrap ErrJournalFull = ErrJournalFull"
| "unwrap ErrDecimalsTooLarge = ErrDecimalsTooLarge"
| "unwrap ErrSymbolTooLong = ErrSymbolTooLong"
| "unwrap ErrTooManyScryptRequests = ErrTooManyScryptRequests"
| "unwrap ErrAddress = ErrAddress"
| "unwrap ErrHash = ErrHash"
| "unwrap ErrNetwork = ErrNetwork"
| "unwrap ErrUnavailable = ErrUnavailable"
| "unwrap ErrTimeout = ErrTimeout"
| "unwrap ErrNotFound = ErrNotFound"
| "unwrap ErrUnrelated = ErrUnrelated"
| "unwrap errActivityIndexFull = errActivityIndexFull"
| "unwrap errTronRPC = errTronRPC"
| "unwrap errSolRPC = errSolRPC"
| "unwrap (ErrNew t) = ErrNew t"
| "unwrap (ErrExt t) = ErrExt t"

definition err_is :: "err \<Rightarrow> err \<Rightarrow> bool" where
  "err_is e target \<longleftrightarrow> e = target \<or> unwrap e = target"

section \<open>go-ethereum, as parameters\<close>

text \<open>
  What the wallet reads of a \<^verbatim>\<open>types.Transaction\<close>, one field per accessor
  (\<open>tx_hash\<close> is \<^verbatim>\<open>Hash().Hex()\<close>, \<open>tx_access\<close> the length of the access list).
\<close>

record eth_tx =
  tx_hash :: string
  tx_chain :: int
  tx_nonce :: "64 word"
  tx_type :: nat
  tx_to :: "address option"
  tx_value :: int
  tx_data :: bytes
  tx_gas :: "64 word"
  tx_tip :: int
  tx_fee :: int
  tx_access :: nat

text \<open>The escrow call the ABI decoder finds in calldata, and a \<^verbatim>\<open>types.DynamicFeeTx\<close>.\<close>

record dynamic_tx =
  dt_chain :: int
  dt_nonce :: "64 word"
  dt_tip :: int
  dt_fee :: int
  dt_gas :: "64 word"
  dt_to :: address
  dt_value :: int
  dt_data :: bytes

text \<open>A \<^verbatim>\<open>common.Hash\<close> or \<^verbatim>\<open>[32]byte\<close>, and decoded ABI values.\<close>

type_synonym hash32 = "256 word"

datatype abi_value =
    AbiAddress address
  | AbiUint int
  | AbiBytes32 hash32
  | AbiBool bool
  | AbiString string
  | AbiBytesList "bytes list"

text \<open>
  \<open>key\<close> is the private key; \<open>AbiPack\<close> and \<open>AbiUnpack\<close> are the ABI encoder of a call and
  the decoder of its result for a method named "contract.method" (a tuple argument is the list
  of its components); \<open>AbiInputs\<close> and \<open>AbiPackArgs\<close> are \<^verbatim>\<open>Inputs.Unpack\<close> and
  \<^verbatim>\<open>Inputs.Pack\<close>; \<open>MethodById\<close> is the escrow ABI's selector lookup.
\<close>

record 'key ethlib =
  HexToAddress :: "string \<Rightarrow> address"
  AddressHex :: "address \<Rightarrow> string"
  IsHexAddress :: "string \<Rightarrow> bool"
  HexutilDecode :: "string \<Rightarrow> bytes option"
  HexutilEncode :: "bytes \<Rightarrow> string"
  HexToHash :: "string \<Rightarrow> hash32"
  HashHex :: "hash32 \<Rightarrow> string"
  Keccak256 :: "bytes \<Rightarrow> hash32"
  TxUnmarshal :: "bytes \<Rightarrow> eth_tx option"
  TxMarshal :: "eth_tx \<Rightarrow> err + bytes"
  TxSender :: "eth_tx \<Rightarrow> address option"
  SignTx :: "dynamic_tx \<Rightarrow> 'key \<Rightarrow> err + eth_tx"
  UnsignedTx :: "dynamic_tx \<Rightarrow> eth_tx"
  PubkeyAddress :: "'key \<Rightarrow> address"
  AbiPack :: "string \<Rightarrow> abi_value list \<Rightarrow> err + bytes"
  AbiPackArgs :: "string \<Rightarrow> abi_value list \<Rightarrow> err + bytes"
  AbiUnpack :: "string \<Rightarrow> bytes \<Rightarrow> err + abi_value list"
  AbiInputs :: "string \<Rightarrow> bytes \<Rightarrow> err + abi_value list"
  MethodById :: "bytes \<Rightarrow> string option"

definition zero_address_text :: string where
  "zero_address_text = ''0x0000000000000000000000000000000000000000''"

text \<open>
  \<^verbatim>\<open>common.Address.Hex\<close> prints "0x" and 40 hexadecimal digits and
  \<^verbatim>\<open>common.HexToAddress\<close> reads them back; only forty zeros read as zero.
\<close>

definition eth_hex_laws :: "('k, 'm) ethlib_scheme \<Rightarrow> bool" where
  "eth_hex_laws E \<longleftrightarrow>
     (\<forall>a. HexToAddress E (AddressHex E a) = a) \<and>
     (\<forall>a. length (AddressHex E a) = 42 \<and> has_prefix (AddressHex E a) ''0x'' \<and>
          list_all is_hex (drop 2 (AddressHex E a))) \<and>
     HexToAddress E zero_address_text = 0 \<and>
     (\<forall>s. length s = 42 \<and> has_prefix s ''0x'' \<and> list_all is_hex (drop 2 s) \<and> HexToAddress E s = 0
        \<longrightarrow> s = zero_address_text)"

text \<open>
  A signed transaction keeps the payload, and its binary and hexadecimal forms decode to
  it.  The transaction hash prints as "0x" and 64 hexadecimal digits.
\<close>

definition eth_tx_laws :: "('k, 'm) ethlib_scheme \<Rightarrow> bool" where
  "eth_tx_laws E \<longleftrightarrow>
     (\<forall>bs. HexutilDecode E (HexutilEncode E bs) = Some bs) \<and>
     (\<forall>t bs. TxMarshal E t = Inr bs \<longrightarrow> TxUnmarshal E bs = Some t) \<and>
     (\<forall>d k t. SignTx E d k = Inr t \<longrightarrow>
        tx_chain t = dt_chain d \<and> tx_nonce t = dt_nonce d \<and> tx_data t = dt_data d \<and>
        tx_value t = dt_value d \<and> tx_to t = Some (dt_to d) \<and>
        TxSender E t = Some (PubkeyAddress E k) \<and>
        length (tx_hash t) = 66 \<and> has_prefix (tx_hash t) ''0x'' \<and>
        list_all is_hex (drop 2 (tx_hash t)))"

lemma eth_hexD:
  assumes "eth_hex_laws E"
  shows "HexToAddress E (AddressHex E a) = a"
    and "length (AddressHex E a) = 42"
    and "has_prefix (AddressHex E a) ''0x''"
    and "list_all is_hex (drop 2 (AddressHex E a))"
    and "HexToAddress E zero_address_text = 0"
    and "length s = 42 \<Longrightarrow> has_prefix s ''0x'' \<Longrightarrow> list_all is_hex (drop 2 s) \<Longrightarrow>
      HexToAddress E s = 0 \<Longrightarrow> s = zero_address_text"
  using assms unfolding eth_hex_laws_def by blast+

lemma AddressHex_inj: "eth_hex_laws E \<Longrightarrow> AddressHex E a = AddressHex E b \<longleftrightarrow> a = b"
  by (metis eth_hexD(1))

lemma AddressHex_nonempty: "eth_hex_laws E \<Longrightarrow> AddressHex E a \<noteq> []"
  using eth_hexD(2) [of E a] by auto

section \<open>Hash and identifier texts\<close>

text \<open>\<^verbatim>\<open>^0x[0-9a-fA-F]{64}$\<close> and \<^verbatim>\<open>^[0-9a-fA-F]{32}$\<close>.\<close>

definition hash_pattern :: "string \<Rightarrow> bool" where
  "hash_pattern s \<longleftrightarrow> length s = 66 \<and> has_prefix s ''0x'' \<and> list_all is_hex (drop 2 s)"

definition opaqueIDPattern :: "string \<Rightarrow> bool" where
  "opaqueIDPattern s \<longleftrightarrow> length s = 32 \<and> list_all is_hex s"

text \<open>\<^verbatim>\<open>common.Hash.Hex\<close> and \<^verbatim>\<open>common.HexToHash\<close>.\<close>

definition eth_hash_laws :: "('k, 'm) ethlib_scheme \<Rightarrow> bool" where
  "eth_hash_laws E \<longleftrightarrow>
     (\<forall>h. HexToHash E (HashHex E h) = h) \<and> (\<forall>h. hash_pattern (HashHex E h))"

lemma eth_hashD:
  assumes "eth_hash_laws E"
  shows "HexToHash E (HashHex E h) = h" and "hash_pattern (HashHex E h)"
  using assms by (simp_all add: eth_hash_laws_def)

lemma eth_txD:
  assumes "eth_tx_laws E"
  shows "HexutilDecode E (HexutilEncode E bs) = Some bs"
    and "TxMarshal E t = Inr bs \<Longrightarrow> TxUnmarshal E bs = Some t"
    and "SignTx E d k = Inr t \<Longrightarrow> tx_chain t = dt_chain d"
    and "SignTx E d k = Inr t \<Longrightarrow> tx_nonce t = dt_nonce d"
    and "SignTx E d k = Inr t \<Longrightarrow> tx_data t = dt_data d"
    and "SignTx E d k = Inr t \<Longrightarrow> tx_to t = Some (dt_to d)"
    and "SignTx E d k = Inr t \<Longrightarrow> tx_value t = dt_value d"
    and "SignTx E d k = Inr t \<Longrightarrow> TxSender E t = Some (PubkeyAddress E k)"
    and "SignTx E d k = Inr t \<Longrightarrow> hash_pattern (tx_hash t)"
  using assms unfolding eth_tx_laws_def hash_pattern_def by blast+

end
