(* ===== verification/Decimal.thy ===== *)
theory Decimal
  imports Errors
begin

text \<open>
  internal/wallet/decimal.go and \<^verbatim>\<open>FormatETH\<close> of internal/chain/chain.go: address
  validation, and the conversion between decimal amounts and integer units without floating
  point.  The lemmas show what a parsed amount is worth, that it fits a uint256, that a
  printed amount parses back to the same units, and that address parsing is canonical.
\<close>

section \<open>Addresses\<close>

definition ValidateAddress :: "('k, 'm) ethlib_scheme \<Rightarrow> string \<Rightarrow> err + address" where
  "ValidateAddress E addr =
     (if length addr \<noteq> 42 \<or> \<not> has_prefix addr ''0x'' then Inl ErrInvalidAddress
      else let hexPart = drop 2 addr in
        if \<not> list_all is_hex hexPart then Inl ErrInvalidAddress
        else if addr = zero_address_text then Inl ErrZeroAddress
        else let isLower = (hexPart = to_lower hexPart); isUpper = (hexPart = to_upper hexPart) in
          if \<not> isLower \<and> \<not> isUpper \<and> addr \<noteq> AddressHex E (HexToAddress E addr)
          then Inl ErrMalformedChecksum
          else Inr (HexToAddress E addr))"

lemma ValidateAddress_shape:
  "ValidateAddress E s = Inr a \<Longrightarrow>
     length s = 42 \<and> has_prefix s ''0x'' \<and> list_all is_hex (drop 2 s) \<and>
     s \<noteq> zero_address_text \<and> a = HexToAddress E s"
  by (auto simp: ValidateAddress_def Let_def split: if_splits)

lemma ValidateAddress_canonical:
  assumes "eth_hex_laws E" and "a \<noteq> 0"
  shows "ValidateAddress E (AddressHex E a) = Inr a"
proof -
  have "AddressHex E a \<noteq> zero_address_text"
    using assms eth_hexD(1,5) by metis
  with assms(1) show ?thesis
    by (simp add: ValidateAddress_def Let_def eth_hexD)
qed

section \<open>Amounts\<close>

definition maxUint256 :: int where
  "maxUint256 = 2 ^ 256 - 1"

text \<open>\<^verbatim>\<open>^[0-9]+(\.[0-9]+)?$\<close>\<close>

definition decimalRegex :: "string \<Rightarrow> bool" where
  "decimalRegex s \<longleftrightarrow>
     (let whole = takeWhile is_digit s; rest = dropWhile is_digit s
      in whole \<noteq> [] \<and> (rest = [] \<or> (hd rest = CHR ''.'' \<and> all_digits (tl rest))))"

definition ParseUnits :: "string \<Rightarrow> int \<Rightarrow> err + int" where
  "ParseUnits amountStr decimals =
     (if decimals < 0 \<or> decimals > 36 then Inl ErrDecimalsTooLarge
      else if \<not> decimalRegex amountStr then Inl (ErrNew ''amount format'')
      else case cut_at (CHR ''.'') amountStr of (wholeStr, fracStr) \<Rightarrow>
        if int (length fracStr) > decimals then Inl (ErrNew ''too many decimals'')
        else let fracStrPadded = fracStr @ replicate (nat decimals - length fracStr) (CHR ''0'');
                 combined = trim_left (CHR ''0'') (wholeStr @ fracStrPadded)
             in if combined = [] then Inr 0
                else case set_string10 combined of
                    None \<Rightarrow> Inl (ErrNew ''amount parse'')
                  | Some val \<Rightarrow> if val > maxUint256 then Inl (ErrNew ''above uint256'') else Inr val)"

text \<open>
  \<^verbatim>\<open>strings.Repeat\<close> panics on a negative count, which happens for a negative amount with a
  long fraction: \<open>None\<close> is the panic.  A nil amount is \<open>None\<close> as an argument.
\<close>

definition FormatUnits :: "int option \<Rightarrow> int \<Rightarrow> string option" where
  "FormatUnits raw decimals =
     (case raw of
        None \<Rightarrow> Some ''0''
      | Some v \<Rightarrow>
          if v = 0 then Some ''0''
          else if decimals = 0 then Some (int_str v)
          else let tenPower = (10::int) ^ nat decimals;
                   whole = sgn v * (\<bar>v\<bar> div tenPower);
                   frac = sgn v * (\<bar>v\<bar> mod tenPower)
               in if frac = 0 then Some (int_str whole)
                  else let digits = int_str frac in
                    if decimals - int (length digits) < 0 then None
                    else let padded = replicate (nat (decimals - int (length digits))) (CHR ''0'') @ digits;
                             trimmed = trim_right (CHR ''0'') padded
                         in Some (int_str whole @ ''.'' @ trimmed))"

text \<open>The text every caller in the wallet gets: amounts are never negative there.\<close>

definition format_units :: "nat \<Rightarrow> nat \<Rightarrow> string" where
  "format_units v d =
     (if d = 0 \<or> v mod 10 ^ d = 0 then dec_str (v div 10 ^ d)
      else dec_str (v div 10 ^ d) @ ''.'' @ trim_right (CHR ''0'') (pad_left d (dec_str (v mod 10 ^ d))))"

definition FormatETH :: "int \<Rightarrow> string option" where
  "FormatETH wei =
     (let tenPower = (10::int) ^ 18; whole = sgn wei * (\<bar>wei\<bar> div tenPower);
          fraction = sgn wei * (\<bar>wei\<bar> mod tenPower)
      in if fraction = 0 then Some (int_str whole)
         else let digits = int_str fraction in
           if 18 < length digits then None
           else Some (int_str whole @ ''.'' @
                  trim_right (CHR ''0'') (replicate (18 - length digits) (CHR ''0'') @ digits)))"

lemma length_dec_str_mod: "0 < d \<Longrightarrow> length (dec_str (v mod 10 ^ d)) \<le> d"
  by (rule length_dec_str) simp_all

lemma FormatUnits_nonneg:
  assumes "0 \<le> d"
  shows "FormatUnits (Some (int v)) d = Some (format_units v (nat d))"
proof (cases "v = 0 \<or> d = 0")
  case True
  then show ?thesis
    by (auto simp: FormatUnits_def format_units_def int_str_def)
next
  case False
  with assms obtain k where k: "d = int k" "0 < k"
    by (metis int_nat_eq of_nat_0_less_iff order_le_less)
  have div: "int v div 10 ^ k = int (v div 10 ^ k)" and mod: "int v mod 10 ^ k = int (v mod 10 ^ k)"
    by (simp_all add: zdiv_int zmod_int)
  have len: "length (dec_str (v mod 10 ^ k)) \<le> k"
    using k(2) by (rule length_dec_str_mod)
  from False k len show ?thesis
    by (auto simp: FormatUnits_def format_units_def div mod int_str_def pad_left_def Let_def
        nat_diff_distrib simp flip: of_nat_diff)
qed

lemma FormatETH_nonneg: "FormatETH (int v) = Some (format_units v 18)"
proof -
  have div: "int v div 10 ^ 18 = int (v div 10 ^ 18)" and mod: "int v mod 10 ^ 18 = int (v mod 10 ^ 18)"
    by (simp_all add: zdiv_int zmod_int)
  have len: "length (dec_str (v mod 10 ^ 18)) \<le> 18"
    by (rule length_dec_str_mod) simp
  show ?thesis
  proof (cases "v = 0")
    case True
    then show ?thesis by (simp add: FormatETH_def format_units_def int_str_def)
  next
    case False
    then have "sgn (int v) = 1" by simp
    with len show ?thesis
      unfolding FormatETH_def format_units_def Let_def abs_of_nat div mod
      by (simp add: int_str_def pad_left_def del: of_nat_div of_nat_mod)
  qed
qed

text \<open>
  The text itself, for the callers: their amounts come from unsigned quantities, and for a
  negative one the call would not return (no text).
\<close>

definition units_text :: "int \<Rightarrow> int \<Rightarrow> string" where
  "units_text v d = (case FormatUnits (Some v) d of Some t \<Rightarrow> t | None \<Rightarrow> [])"

definition eth_text :: "int \<Rightarrow> string" where
  "eth_text v = (case FormatETH v of Some t \<Rightarrow> t | None \<Rightarrow> [])"

lemma units_text_nonneg: "0 \<le> v \<Longrightarrow> 0 \<le> d \<Longrightarrow> units_text v d = format_units (nat v) (nat d)"
  using FormatUnits_nonneg [of d "nat v"] by (simp add: units_text_def)

lemma eth_text_nonneg: "0 \<le> v \<Longrightarrow> eth_text v = format_units (nat v) 18"
  using FormatETH_nonneg [of "nat v"] by (simp add: eth_text_def)


section \<open>What a parsed amount is worth\<close>

lemma is_digit_zero [simp]: "is_digit (CHR ''0'')"
  by (simp add: is_digit_def)

lemma takeWhile_all: "(\<And>x. x \<in> set xs \<Longrightarrow> p x) \<Longrightarrow> takeWhile p xs = xs"
  by (induction xs) auto

lemma takeWhile_digit_dot: "takeWhile (\<lambda>x. x \<noteq> CHR ''.'') s = takeWhile is_digit s"
  if "decimalRegex s"
proof -
  let ?w = "takeWhile is_digit s" and ?r = "dropWhile is_digit s"
  have s: "s = ?w @ ?r" by simp
  have w: "\<And>x. x \<in> set ?w \<Longrightarrow> x \<noteq> CHR ''.''"
    by (auto dest: set_takeWhileD simp: is_digit_def)
  have "takeWhile (\<lambda>x. x \<noteq> CHR ''.'') (?w @ ?r) = ?w"
  proof (cases ?r)
    case Nil
    have "takeWhile (\<lambda>x. x \<noteq> CHR ''.'') ?w = ?w" by (rule takeWhile_all) (use w in blast)
    with Nil show ?thesis by (simp only: append_Nil2)
  next
    case (Cons c cs)
    with that have "c = CHR ''.''" by (auto simp: decimalRegex_def Let_def)
    with Cons w show ?thesis by (simp add: takeWhile_append2)
  qed
  then show ?thesis by simp
qed

lemma decimalRegex_cut:
  assumes "decimalRegex s" and "cut_at (CHR ''.'') s = (w, f)"
  shows "all_digits w" and "list_all is_digit f"
proof -
  have w: "w = takeWhile is_digit s"
    using assms takeWhile_digit_dot by (auto simp: cut_at_def)
  then show "all_digits w"
    using assms(1) by (auto simp: decimalRegex_def Let_def all_digits_def list_all_iff dest: set_takeWhileD)
  have "dropWhile (\<lambda>x. x \<noteq> CHR ''.'') s = dropWhile is_digit s"
    using takeWhile_digit_dot [OF assms(1)] by (simp add: dropWhile_eq_drop)
  then have "f = drop 1 (dropWhile is_digit s)"
    using assms(2) by (auto simp: cut_at_def)
  with assms(1) show "list_all is_digit f"
    by (cases "dropWhile is_digit s") (auto simp: decimalRegex_def Let_def all_digits_def)
qed

lemma ParseUnits_cases:
  assumes "0 \<le> d" "d \<le> 36" "decimalRegex s" "cut_at (CHR ''.'') s = (w, f)" "length f \<le> nat d"
  defines "v \<equiv> int (dec_val (w @ f)) * 10 ^ (nat d - length f)"
  shows "ParseUnits s d = (if v > maxUint256 then Inl (ErrNew ''above uint256'') else Inr v)"
proof -
  let ?all = "w @ f @ replicate (nat d - length f) (CHR ''0'')"
  let ?comb = "trim_left (CHR ''0'') ?all"
  have digits: "list_all is_digit ?all"
    using decimalRegex_cut [OF assms(3,4)] by (simp add: all_digits_def list_all_replicateI)
  have v: "int (dec_val ?comb) = v"
    using dec_val_append [of "w @ f" "replicate (nat d - length f) (CHR ''0'')"]
    by (simp add: dec_val_trim v_def)
  have comb: "list_all is_digit ?comb"
    using digits by (auto simp: trim_left_def list_all_iff dest: set_dropWhileD)
  show ?thesis
  proof (cases "?comb = []")
    case True
    with v have "v = 0" by simp
    with True assms(1-5) show ?thesis by (simp add: ParseUnits_def Let_def maxUint256_def)
  next
    case False
    with comb have "set_string10 ?comb = Some v"
      using v by (simp add: all_digits_def set_string10_digits)
    with False assms(1-5) show ?thesis by (simp add: ParseUnits_def Let_def)
  qed
qed

lemma ParseUnits_InrE:
  assumes "ParseUnits s d = Inr v"
  obtains w f where "0 \<le> d" "d \<le> 36" "decimalRegex s" "cut_at (CHR ''.'') s = (w, f)"
    "length f \<le> nat d" "v = int (dec_val (w @ f)) * 10 ^ (nat d - length f)" "v \<le> maxUint256"
proof -
  obtain w f where cut: "cut_at (CHR ''.'') s = (w, f)" by force
  have *: "0 \<le> d" "d \<le> 36" "decimalRegex s" "length f \<le> nat d"
    using assms cut by (auto simp: ParseUnits_def split: if_splits)
  from ParseUnits_cases [OF *(1-3) cut *(4)] assms
  show thesis using * cut that by (auto split: if_splits)
qed

lemma ParseUnits_1_25: "ParseUnits ''1.25'' 6 = Inr 1250000"
proof -
  have "decimalRegex ''1.25''" and val: "dec_val ''125'' = 125" by code_simp+
  moreover have "cut_at (CHR ''.'') ''1.25'' = (''1'', ''25'')" by (simp add: cut_at_def)
  ultimately show ?thesis
    using ParseUnits_cases [of 6 "''1.25''" "''1''" "''25''"] by (simp add: maxUint256_def)
qed

text \<open>
  C28: A decimal amount that \<^verbatim>\<open>ParseUnits\<close> accepts is worth exactly the integer it returns:
  the text is a plain decimal number with at most \<open>decimals\<close> fractional digits, the result
  times \<open>10\<close> to the number of fractional digits is the digit string's value times \<open>10\<close> to
  \<open>decimals\<close>, and it lies between 0 and the uint256 maximum.
\<close>

theorem ParseUnits_exact:
  assumes "ParseUnits s decimals = Inr v"
  shows "decimalRegex s \<and> 0 \<le> v \<and> v \<le> 2 ^ 256 - 1 \<and>
    (case cut_at (CHR ''.'') s of (w, f) \<Rightarrow>
       int (length f) \<le> decimals \<and>
       v * 10 ^ length f = int (dec_val (w @ f)) * 10 ^ nat decimals)"
proof -
  from assms obtain w f where *: "0 \<le> decimals" "decimalRegex s" "cut_at (CHR ''.'') s = (w, f)"
    "length f \<le> nat decimals" "v = int (dec_val (w @ f)) * 10 ^ (nat decimals - length f)"
    "v \<le> maxUint256"
    by (rule ParseUnits_InrE)
  then have "(10::int) ^ (nat decimals - length f) * 10 ^ length f = 10 ^ nat decimals"
    by (simp flip: power_add)
  with * show ?thesis by (auto simp: maxUint256_def mult.assoc)
qed

theorem ParseUnits_exact_witness:
  "ParseUnits ''1.25'' 6 = Inr 1250000 \<and>
   (1250000::int) * 10 ^ 2 = int (dec_val ''125'') * 10 ^ 6"
proof -
  have cut: "cut_at (CHR ''.'') ''1.25'' = (''1'', ''25'')" by (simp add: cut_at_def)
  have h: "ParseUnits ''1.25'' 6 = Inr 1250000"
    by (rule ParseUnits_1_25)
  from ParseUnits_exact [OF h] cut h show ?thesis by simp
qed

section \<open>Printing and reading back\<close>

lemma dropWhile_zero_rev:
  "\<exists>n. s = trim_right c s @ replicate n c"
proof -
  let ?t = "takeWhile (\<lambda>x. x = c) (rev s)" and ?d = "dropWhile (\<lambda>x. x = c) (rev s)"
  have "\<forall>x \<in> set ?t. x = c" by (auto dest: set_takeWhileD)
  then have t: "?t = replicate (length ?t) c" by (metis replicate_length_same)
  have "rev s = ?t @ ?d" by simp
  then have "s = rev ?d @ rev ?t" by (metis rev_append rev_rev_ident)
  also have "rev ?t = replicate (length ?t) c" using t by (metis rev_replicate)
  finally show ?thesis by (auto simp: trim_right_def)
qed

lemma format_units_regex:
  "decimalRegex (format_units v d) \<and>
   (\<exists>w f. cut_at (CHR ''.'') (format_units v d) = (w, f) \<and> length f \<le> d \<and>
      dec_val (w @ f) * 10 ^ (d - length f) = v)"
proof (cases "d = 0 \<or> v mod 10 ^ d = 0")
  case True
  let ?w = "dec_str (v div 10 ^ d)"
  have dig: "\<And>x. x \<in> set ?w \<Longrightarrow> is_digit x" using dec_str_digits by (auto simp: list_all_iff)
  have tw: "takeWhile is_digit ?w = ?w" "takeWhile (\<lambda>x. x \<noteq> CHR ''.'') ?w = ?w"
    by (rule takeWhile_all, use dig in \<open>auto simp: is_digit_def\<close>)+
  have dw: "dropWhile is_digit ?w = []" "dropWhile (\<lambda>x. x \<noteq> CHR ''.'') ?w = []"
    by (simp_all add: dropWhile_eq_drop tw)
  have "decimalRegex ?w" "cut_at (CHR ''.'') ?w = (?w, [])"
    unfolding decimalRegex_def cut_at_def Let_def tw dw by simp_all
  moreover have "v div 10 ^ d * 10 ^ d = v" using True by auto
  ultimately show ?thesis using True by (auto simp: format_units_def)
next
  case False
  let ?w = "dec_str (v div 10 ^ d)" and ?m = "v mod 10 ^ d"
  let ?p = "pad_left d (dec_str ?m)"
  let ?f = "trim_right (CHR ''0'') ?p"
  have lenp: "length ?p = d"
    using False length_dec_str_mod [of d v] by (simp add: pad_left_def)
  obtain n where n: "?p = ?f @ replicate n (CHR ''0'')"
    using dropWhile_zero_rev by blast
  have valp: "dec_val ?p = ?m" by (simp add: pad_left_def dec_val_append)
  have lenf: "length ?f + n = d" using arg_cong [OF n, of length] lenp by simp
  have valf: "dec_val ?f * 10 ^ n = ?m"
    using valp arg_cong [OF n, of dec_val] by (simp add: dec_val_append)
  with False have "?f \<noteq> []" by (metis dec_val_Nil mult_0)
  have wd: "\<And>x. x \<in> set ?w \<Longrightarrow> is_digit x" using dec_str_digits by (auto simp: list_all_iff)
  have "list_all is_digit ?p"
    using dec_str_digits by (simp add: pad_left_def list_all_replicateI)
  then have "list_all is_digit (?f @ replicate n (CHR ''0''))" by (simp only: n [symmetric])
  then have fd: "list_all is_digit ?f" by simp
  let ?s = "?w @ ''.'' @ ?f"
  have "takeWhile is_digit ?s = ?w" "dropWhile is_digit ?s = ''.'' @ ?f"
    using wd by (simp_all add: takeWhile_append2 dropWhile_append2 is_digit_def)
  then have regex: "decimalRegex ?s" using \<open>?f \<noteq> []\<close> fd by (simp add: decimalRegex_def all_digits_def)
  have wn: "\<And>x. x \<in> set ?w \<Longrightarrow> x \<noteq> CHR ''.''" using wd by (auto simp: is_digit_def)
  then have cut: "cut_at (CHR ''.'') ?s = (?w, ?f)"
    by (simp add: cut_at_def takeWhile_append2 dropWhile_append2)
  have diff: "d - length ?f = n" using lenf by linarith
  have "dec_val (?w @ ?f) * 10 ^ (d - length ?f) = (v div 10 ^ d * 10 ^ length ?f + dec_val ?f) * 10 ^ n"
    using diff by (simp add: dec_val_append)
  also have "\<dots> = v div 10 ^ d * (10 ^ (length ?f + n)) + dec_val ?f * 10 ^ n"
    by (simp add: algebra_simps power_add)
  also have "\<dots> = v" using lenf valf by (simp add: div_mult_mod_eq)
  finally have "dec_val (?w @ ?f) * 10 ^ (d - length ?f) = v" .
  with regex cut lenf show ?thesis using False by (auto simp: format_units_def)
qed

lemma ParseUnits_format_units:
  assumes "d \<le> 36" and "int v \<le> maxUint256"
  shows "ParseUnits (format_units v d) (int d) = Inr (int v)"
proof -
  obtain w f where *: "decimalRegex (format_units v d)" "cut_at (CHR ''.'') (format_units v d) = (w, f)"
    "length f \<le> d" "dec_val (w @ f) * 10 ^ (d - length f) = v"
    using format_units_regex by blast
  then have "int (dec_val (w @ f)) * 10 ^ (nat (int d) - length f) = int v"
    by (metis nat_int of_nat_mult of_nat_numeral of_nat_power)
  with ParseUnits_cases [of "int d" "format_units v d" w f] * assms show ?thesis by simp
qed

text \<open>
  C29: Printing and parsing an amount round-trips: for every amount of units from 0 to the
  uint256 maximum and every number of decimals from 0 to 36, \<^verbatim>\<open>FormatUnits\<close> does not panic
  and \<^verbatim>\<open>ParseUnits\<close> of its text returns the same units.
\<close>

theorem ParseUnits_FormatUnits:
  assumes "0 \<le> v" "v \<le> 2 ^ 256 - 1" "0 \<le> decimals" "decimals \<le> 36"
  shows "\<exists>s. FormatUnits (Some v) decimals = Some s \<and> ParseUnits s decimals = Inr v"
proof -
  from assms obtain n d where nd: "v = int n" "decimals = int d"
    by (metis nat_0_le)
  with assms have "d \<le> 36" "int n \<le> maxUint256" by (simp_all add: maxUint256_def)
  with nd show ?thesis
    using FormatUnits_nonneg [of "int d" n] ParseUnits_format_units [of d n] by simp
qed

theorem ParseUnits_FormatUnits_witness:
  "\<exists>s. FormatUnits (Some 1250000) 6 = Some s \<and> ParseUnits s 6 = Inr 1250000"
  by (rule ParseUnits_FormatUnits) simp_all

end
