(* ===== verification/Types.thy ===== *)
theory Types
  imports Decimal
begin

text \<open>
  internal/wallet/types.go and the order references of internal/wallet/escrow.go: the
  identifiers, actions and states a request or a stored record is made of, and the parsing
  of a quote request into a command.  The lemmas show that parsing is the inverse of
  printing, that addresses are stored in canonical form, and what an accepted command
  guarantees to the quoting code.
\<close>

section \<open>Actions and states\<close>

datatype TransactionAction =
    ActionETH | ActionTransfer | ActionApprove | ActionWrap | ActionUnwrap | ActionSwap
  | ActionSpeedup | ActionCancel | ActionEscrowFund | ActionEscrowRelease | ActionEscrowRefund
  | ActionVaultDeposit | ActionVaultWithdraw

primrec action_text :: "TransactionAction \<Rightarrow> string" where
  "action_text ActionETH = ''eth''"
| "action_text ActionTransfer = ''transfer''"
| "action_text ActionApprove = ''approve''"
| "action_text ActionWrap = ''wrap''"
| "action_text ActionUnwrap = ''unwrap''"
| "action_text ActionSwap = ''swap''"
| "action_text ActionSpeedup = ''speedup''"
| "action_text ActionCancel = ''cancel''"
| "action_text ActionEscrowFund = ''escrow_fund''"
| "action_text ActionEscrowRelease = ''escrow_release''"
| "action_text ActionEscrowRefund = ''escrow_refund''"
| "action_text ActionVaultDeposit = ''vault_deposit''"
| "action_text ActionVaultWithdraw = ''vault_withdraw''"

definition all_actions :: "TransactionAction list" where
  "all_actions =
     [ActionETH, ActionTransfer, ActionApprove, ActionWrap, ActionUnwrap, ActionSwap, ActionSpeedup,
      ActionCancel, ActionVaultDeposit, ActionVaultWithdraw, ActionEscrowFund, ActionEscrowRelease,
      ActionEscrowRefund]"

definition ParseTransactionAction :: "string \<Rightarrow> err + TransactionAction" where
  "ParseTransactionAction value =
     (case List.find (\<lambda>a. action_text a = value) all_actions of
        Some a \<Rightarrow> Inr a
      | None \<Rightarrow> Inl (ErrNew ''unsupported action''))"

definition isEscrowAction :: "TransactionAction \<Rightarrow> bool" where
  "isEscrowAction a \<longleftrightarrow> a = ActionEscrowFund \<or> a = ActionEscrowRelease \<or> a = ActionEscrowRefund"

datatype JournalState =
    JournalPending | JournalSubmitted | JournalBroadcastUnknown | JournalReceiptUnavailable
  | JournalSucceeded | JournalReverted | JournalReorgDetected | JournalReplaced

primrec state_text :: "JournalState \<Rightarrow> string" where
  "state_text JournalPending = ''pending''"
| "state_text JournalSubmitted = ''submitted''"
| "state_text JournalBroadcastUnknown = ''broadcast_unknown''"
| "state_text JournalReceiptUnavailable = ''receipt_unavailable''"
| "state_text JournalSucceeded = ''succeeded''"
| "state_text JournalReverted = ''reverted''"
| "state_text JournalReorgDetected = ''reorg_detected''"
| "state_text JournalReplaced = ''replaced''"

definition all_states :: "JournalState list" where
  "all_states =
     [JournalPending, JournalSubmitted, JournalBroadcastUnknown, JournalReceiptUnavailable,
      JournalSucceeded, JournalReverted, JournalReorgDetected, JournalReplaced]"

definition ParseJournalState :: "string \<Rightarrow> err + JournalState" where
  "ParseJournalState value =
     (case List.find (\<lambda>a. state_text a = value) all_states of
        Some a \<Rightarrow> Inr a
      | None \<Rightarrow> Inl (ErrNew ''unsupported state''))"

text \<open>
  An enumeration stored as text: printing is injective on the listed values, so reading the
  text back by a search of the list is the inverse of printing.
\<close>

locale text_enum =
  fixes text_of :: "'a \<Rightarrow> string" and all_of :: "'a list" and bad :: "'e"
  assumes complete: "x \<in> set all_of"
    and inj_text: "text_of x = text_of y \<Longrightarrow> x = y"
begin

lemma find_text: "List.find (\<lambda>y. text_of y = text_of x) all_of = Some x"
proof -
  obtain y where y: "List.find (\<lambda>y. text_of y = text_of x) all_of = Some y"
    using complete [of x] find_None_all [of "\<lambda>y. text_of y = text_of x" all_of] by fastforce
  then have "text_of y = text_of x" by (auto dest: find_SomeD)
  with y inj_text show ?thesis by blast
qed

lemma parse_text:
  "(case List.find (\<lambda>y. text_of y = text_of x) all_of of Some a \<Rightarrow> Inr a | None \<Rightarrow> Inl bad) = Inr x"
  by (simp add: find_text)

lemma text_parse:
  "(case List.find (\<lambda>y. text_of y = s) all_of of Some a \<Rightarrow> Inr a | None \<Rightarrow> Inl bad) = Inr x \<longleftrightarrow>
   s = text_of x"
  by (auto split: option.splits simp: find_text dest: find_SomeD)

end

interpretation actions: text_enum action_text all_actions "ErrNew ''unsupported action''"
proof
  show "x \<in> set all_actions" for x by (cases x) (simp_all add: all_actions_def)
  show "action_text x = action_text y \<Longrightarrow> x = y" for x y by (cases x; cases y; simp)
qed

interpretation states: text_enum state_text all_states "ErrNew ''unsupported state''"
proof
  show "x \<in> set all_states" for x by (cases x) (simp_all add: all_states_def)
  show "state_text x = state_text y \<Longrightarrow> x = y" for x y by (cases x; cases y; simp)
qed

lemma ParseTransactionAction_iff: "ParseTransactionAction s = Inr a \<longleftrightarrow> s = action_text a"
  unfolding ParseTransactionAction_def by (rule actions.text_parse)

lemma ParseJournalState_iff: "ParseJournalState s = Inr a \<longleftrightarrow> s = state_text a"
  unfolding ParseJournalState_def by (rule states.text_parse)

lemma ParseTransactionAction_text [simp]: "ParseTransactionAction (action_text a) = Inr a"
  by (simp add: ParseTransactionAction_iff)

lemma ParseJournalState_text [simp]: "ParseJournalState (state_text a) = Inr a"
  by (simp add: ParseJournalState_iff)

lemma action_text_nonempty [simp]: "action_text a \<noteq> []" "[] \<noteq> action_text a"
  by (cases a; simp)+

section \<open>Identifiers\<close>

definition ParseQuoteID :: "string \<Rightarrow> err + string" where
  "ParseQuoteID value = (if \<not> opaqueIDPattern value then Inl (ErrNew ''quote id format'') else Inr value)"

definition ParseLegacyQuoteID :: "string \<Rightarrow> err + string" where
  "ParseLegacyQuoteID value =
     (if value = [] \<or> 128 < length value then Inl (ErrNew ''journal quote id format'') else Inr value)"

definition ParseEVMAddress :: "('k, 'm) ethlib_scheme \<Rightarrow> string \<Rightarrow> err + string" where
  "ParseEVMAddress E value = ebind (ValidateAddress E value) (\<lambda>address. Inr (AddressHex E address))"

definition ParseTransactionHash :: "string \<Rightarrow> err + string" where
  "ParseTransactionHash value =
     (if \<not> hash_pattern value then Inl (ErrNew ''transaction hash format'') else Inr value)"

definition order_char :: "char \<Rightarrow> bool" where
  "order_char c \<longleftrightarrow>
     c \<in> set ''ABCDEFGHIJKLMNOPQRSTUVWXYZabcdefghijklmnopqrstuvwxyz0123456789_-''"

definition orderReferencePattern :: "string \<Rightarrow> bool" where
  "orderReferencePattern s \<longleftrightarrow> 1 \<le> length s \<and> length s \<le> 64 \<and> list_all order_char s"

definition ParseOrderReference :: "string \<Rightarrow> err + string" where
  "ParseOrderReference value =
     (if \<not> orderReferencePattern value \<and> \<not> hash_pattern value
      then Inl (ErrNew ''order reference format'') else Inr value)"

lemma ParseQuoteID_iff: "ParseQuoteID s = Inr t \<longleftrightarrow> s = t \<and> opaqueIDPattern s"
  by (auto simp: ParseQuoteID_def)

lemma ParseLegacyQuoteID_iff: "ParseLegacyQuoteID s = Inr t \<longleftrightarrow> s = t \<and> s \<noteq> [] \<and> length s \<le> 128"
  by (auto simp: ParseLegacyQuoteID_def)

lemma ParseQuoteID_legacy: "ParseQuoteID s = Inr t \<Longrightarrow> ParseLegacyQuoteID s = Inr s"
  by (auto simp: ParseQuoteID_def ParseLegacyQuoteID_def opaqueIDPattern_def split: if_splits)

lemma ParseTransactionHash_iff: "ParseTransactionHash s = Inr t \<longleftrightarrow> s = t \<and> hash_pattern s"
  by (auto simp: ParseTransactionHash_def)

lemma ParseOrderReference_iff:
  "ParseOrderReference s = Inr t \<longleftrightarrow> s = t \<and> (orderReferencePattern s \<or> hash_pattern s)"
  by (auto simp: ParseOrderReference_def)

lemma hash_pattern_nonempty: "hash_pattern s \<Longrightarrow> s \<noteq> []"
  by (auto simp: hash_pattern_def)

lemma ParseEVMAddress_iff:
  "ParseEVMAddress E s = Inr t \<longleftrightarrow> (\<exists>a. ValidateAddress E s = Inr a \<and> t = AddressHex E a)"
  by (auto simp: ParseEVMAddress_def ebind_eq_Inr)

text \<open>Address texts are kept in canonical form.\<close>

lemma ValidateAddress_nonzero: "eth_hex_laws E \<Longrightarrow> ValidateAddress E s = Inr a \<Longrightarrow> a \<noteq> 0"
  using eth_hexD(6) [of E s] by (auto dest: ValidateAddress_shape)

lemma ParseEVMAddress_canonical:
  assumes "eth_hex_laws E" and "ParseEVMAddress E s = Inr t"
  shows "ParseEVMAddress E t = Inr t" and "t \<noteq> []" and "HexToAddress E t = HexToAddress E s"
proof -
  from assms(2) obtain a where a: "ValidateAddress E s = Inr a" "t = AddressHex E a"
    by (auto simp: ParseEVMAddress_iff)
  then have "a = HexToAddress E s" by (auto dest: ValidateAddress_shape)
  with a assms ValidateAddress_nonzero [OF assms(1) a(1)]
  show "ParseEVMAddress E t = Inr t" "t \<noteq> []" "HexToAddress E t = HexToAddress E s"
    by (simp_all add: ParseEVMAddress_def ValidateAddress_canonical eth_hexD AddressHex_nonempty)
qed

section \<open>Quote requests\<close>

record QuoteRequest =
  qr_OrderID :: string
  qr_Buyer :: string
  qr_Hash :: string
  qr_Action :: string
  qr_To :: string
  qr_Amount :: string
  qr_AmountRaw :: string
  qr_Contract :: string
  qr_TokenOut :: string
  qr_SlippageBPS :: int
  qr_PoolFee :: int

record QuoteCommand =
  qc_OrderID :: string
  qc_Buyer :: string
  qc_Hash :: string
  qc_Action :: TransactionAction
  qc_To :: string
  qc_Amount :: string
  qc_AmountRaw :: string
  qc_Contract :: string
  qc_TokenOut :: string
  qc_SlippageBPS :: int
  qc_PoolFee :: int

text \<open>An optional address field: empty stays empty.\<close>

definition parse_optional_address :: "('k, 'm) ethlib_scheme \<Rightarrow> string \<Rightarrow> err + string" where
  "parse_optional_address E value = (if value \<noteq> [] then ParseEVMAddress E value else Inr [])"

text \<open>The replaced hash, or the three addresses (to, contract, tokenOut).\<close>

definition parse_targets ::
    "('k, 'm) ethlib_scheme \<Rightarrow> TransactionAction \<Rightarrow> QuoteRequest \<Rightarrow> err + (string \<times> string \<times> string \<times> string)" where
  "parse_targets E action r =
     (if action = ActionSpeedup \<or> action = ActionCancel
      then (case ParseTransactionHash (qr_Hash r) of
              Inl _ \<Rightarrow> Inl (ErrNew ''replaced hash format'')
            | Inr hash \<Rightarrow> Inr (hash, [], [], []))
      else ebind (if qr_To r \<noteq> [] then ParseEVMAddress E (qr_To r) else Inl ErrInvalidAddress) (\<lambda>to.
        if qr_Contract r = [] \<and> action = ActionTransfer then Inl (ErrNew ''transfer needs contract'')
        else if qr_Contract r = [] \<and> action = ActionApprove then Inl (ErrNew ''approve needs contract'')
        else if qr_Contract r \<noteq> [] \<and> (action = ActionVaultDeposit \<or> action = ActionVaultWithdraw)
        then Inl (ErrNew ''contract is set by the server'')
        else ebind (parse_optional_address E (qr_Contract r)) (\<lambda>contract.
          ebind (parse_optional_address E (qr_TokenOut r)) (\<lambda>tokenOut.
            Inr ([], to, contract, tokenOut)))))"

text \<open>The order reference and the buyer of an escrow action.\<close>

definition parse_order ::
    "('k, 'm) ethlib_scheme \<Rightarrow> TransactionAction \<Rightarrow> QuoteRequest \<Rightarrow> err + (string \<times> string)" where
  "parse_order E action r =
     (if isEscrowAction action
      then if qr_Contract r \<noteq> [] \<or> qr_TokenOut r \<noteq> [] \<or> qr_AmountRaw r \<noteq> []
           then Inl (ErrNew ''escrow contract and token are set by the server'')
           else ebind (ParseOrderReference (qr_OrderID r)) (\<lambda>orderID.
                ebind (parse_optional_address E (qr_Buyer r)) (\<lambda>buyer. Inr (orderID, buyer)))
      else if qr_OrderID r \<noteq> [] \<or> qr_Buyer r \<noteq> [] then Inl (ErrNew ''order fields not accepted'')
      else Inr ([], []))"

definition ParseQuoteRequest ::
    "('k, 'm) ethlib_scheme \<Rightarrow> QuoteRequest option \<Rightarrow> err + QuoteCommand" where
  "ParseQuoteRequest E request =
     (case request of
        None \<Rightarrow> Inl (ErrNew ''missing quote request'')
      | Some r \<Rightarrow>
          ebind (ParseTransactionAction (qr_Action r)) (\<lambda>action.
          ebind (parse_targets E action r) (\<lambda>(hash, to, contract, tokenOut).
          ebind (parse_order E action r) (\<lambda>(orderID, buyer).
            Inr \<lparr> qc_OrderID = orderID, qc_Buyer = buyer, qc_Hash = hash, qc_Action = action,
                  qc_To = to, qc_Amount = qr_Amount r, qc_AmountRaw = qr_AmountRaw r,
                  qc_Contract = contract, qc_TokenOut = tokenOut,
                  qc_SlippageBPS = qr_SlippageBPS r, qc_PoolFee = qr_PoolFee r \<rparr>))))"

record PoolComparisonCommand =
  pc_Contract :: string
  pc_TokenOut :: string
  pc_Amount :: string

definition ParsePoolComparisonRequest ::
    "('k, 'm) ethlib_scheme \<Rightarrow> QuoteRequest option \<Rightarrow> err + PoolComparisonCommand" where
  "ParsePoolComparisonRequest E request =
     (case request of
        None \<Rightarrow> Inl (ErrNew ''missing pool comparison request'')
      | Some r \<Rightarrow>
          ebind (ParseEVMAddress E (qr_Contract r)) (\<lambda>contract.
          ebind (ParseEVMAddress E (qr_TokenOut r)) (\<lambda>tokenOut.
            if contract = tokenOut then Inl (ErrNew ''assets must differ'')
            else Inr \<lparr> pc_Contract = contract, pc_TokenOut = tokenOut, pc_Amount = qr_Amount r \<rparr>)))"

text \<open>A text the code treats as an address it has parsed: empty, or the canonical text.\<close>

definition canonical_address :: "('k, 'm) ethlib_scheme \<Rightarrow> string \<Rightarrow> bool" where
  "canonical_address E s \<longleftrightarrow> s \<noteq> [] \<and> AddressHex E (HexToAddress E s) = s"

definition command_ok :: "('k, 'm) ethlib_scheme \<Rightarrow> QuoteCommand \<Rightarrow> bool" where
  "command_ok E c \<longleftrightarrow>
     (if qc_Action c = ActionSpeedup \<or> qc_Action c = ActionCancel
      then hash_pattern (qc_Hash c) \<and> qc_To c = [] \<and> qc_Contract c = [] \<and> qc_TokenOut c = []
      else qc_Hash c = [] \<and> canonical_address E (qc_To c) \<and>
           (qc_Contract c = [] \<or> canonical_address E (qc_Contract c)) \<and>
           (qc_TokenOut c = [] \<or> canonical_address E (qc_TokenOut c)) \<and>
           (qc_Action c = ActionTransfer \<or> qc_Action c = ActionApprove \<longrightarrow> qc_Contract c \<noteq> []) \<and>
           (qc_Action c = ActionVaultDeposit \<or> qc_Action c = ActionVaultWithdraw \<longrightarrow> qc_Contract c = [])) \<and>
     (if isEscrowAction (qc_Action c)
      then (orderReferencePattern (qc_OrderID c) \<or> hash_pattern (qc_OrderID c)) \<and>
           (qc_Buyer c = [] \<or> canonical_address E (qc_Buyer c)) \<and>
           qc_Contract c = [] \<and> qc_TokenOut c = [] \<and> qc_AmountRaw c = []
      else qc_OrderID c = [] \<and> qc_Buyer c = [])"

lemma ParseEVMAddress_canonical_address:
  "eth_hex_laws E \<Longrightarrow> ParseEVMAddress E s = Inr t \<Longrightarrow> canonical_address E t"
  by (auto simp: ParseEVMAddress_iff canonical_address_def eth_hexD AddressHex_nonempty)

lemma parse_optional_address_ok:
  "eth_hex_laws E \<Longrightarrow> parse_optional_address E s = Inr t \<Longrightarrow>
     (s = [] \<and> t = []) \<or> (s \<noteq> [] \<and> canonical_address E t)"
  by (auto simp: parse_optional_address_def dest: ParseEVMAddress_canonical_address split: if_splits)

lemma parse_targets_ok:
  assumes "eth_hex_laws E" and "parse_targets E action r = Inr (hash, to, contract, tokenOut)"
  shows "if action = ActionSpeedup \<or> action = ActionCancel
      then hash_pattern hash \<and> to = [] \<and> contract = [] \<and> tokenOut = []
      else hash = [] \<and> canonical_address E to \<and>
           ((qr_Contract r = [] \<and> contract = []) \<or> (qr_Contract r \<noteq> [] \<and> canonical_address E contract)) \<and>
           ((qr_TokenOut r = [] \<and> tokenOut = []) \<or> (qr_TokenOut r \<noteq> [] \<and> canonical_address E tokenOut)) \<and>
           (action = ActionTransfer \<or> action = ActionApprove \<longrightarrow> contract \<noteq> []) \<and>
           (action = ActionVaultDeposit \<or> action = ActionVaultWithdraw \<longrightarrow> contract = [])"
  using assms
  by (auto simp: parse_targets_def ParseTransactionHash_iff canonical_address_def ebind_eq_Inr
      split: if_splits sum.splits
      dest!: parse_optional_address_ok [OF assms(1)] ParseEVMAddress_canonical_address [OF assms(1)])

lemma parse_order_ok:
  assumes "eth_hex_laws E" and "parse_order E action r = Inr (orderID, buyer)"
  shows "if isEscrowAction action
      then (orderReferencePattern orderID \<or> hash_pattern orderID) \<and>
           (buyer = [] \<or> canonical_address E buyer) \<and>
           qr_Contract r = [] \<and> qr_TokenOut r = [] \<and> qr_AmountRaw r = []
      else orderID = [] \<and> buyer = []"
  using assms
  by (auto simp: parse_order_def ParseOrderReference_iff ebind_eq_Inr
      split: if_splits dest!: parse_optional_address_ok [OF assms(1)])

text \<open>
  C30: A request that \<^verbatim>\<open>ParseQuoteRequest\<close> accepts becomes a well-formed command: a
  replacement names a transaction hash and nothing else; every other action has a canonical
  recipient, canonical optional addresses, a contract where a token is moved and none where
  the server supplies it; order fields appear exactly on escrow actions, which in turn
  cannot choose contract, token or raw amount.
\<close>

theorem ParseQuoteRequest_command_ok:
  assumes "eth_hex_laws E" and "ParseQuoteRequest E (Some r) = Inr c"
  shows "command_ok E c \<and> qr_Action r = action_text (qc_Action c)"
proof -
  from assms(2) obtain action hash to contract tokenOut orderID buyer where
    a: "ParseTransactionAction (qr_Action r) = Inr action"
    and t: "parse_targets E action r = Inr (hash, to, contract, tokenOut)"
    and u: "parse_order E action r = Inr (orderID, buyer)"
    and c: "c = \<lparr> qc_OrderID = orderID, qc_Buyer = buyer, qc_Hash = hash, qc_Action = action,
                  qc_To = to, qc_Amount = qr_Amount r, qc_AmountRaw = qr_AmountRaw r,
                  qc_Contract = contract, qc_TokenOut = tokenOut,
                  qc_SlippageBPS = qr_SlippageBPS r, qc_PoolFee = qr_PoolFee r \<rparr>"
    by (auto simp: ParseQuoteRequest_def ebind_eq_Inr)
  from parse_targets_ok [OF assms(1) t] parse_order_ok [OF assms(1) u] a show ?thesis
    by (auto simp: c command_ok_def canonical_address_def ParseTransactionAction_iff split: if_splits)
qed

text \<open>
  A sample of the library for closed instances: lower-case address texts, hexadecimal data,
  and hashes that list the bytes they are given (enough for evaluation; not a hash).
\<close>

definition sample_hex :: "bytes \<Rightarrow> string" where
  "sample_hex bs = ''0x'' @ hex_encode bs"

definition sample_unhex :: "string \<Rightarrow> bytes option" where
  "sample_unhex s = (if has_prefix s ''0x'' then hex_decode (drop 2 s) else None)"

definition sample_address :: "string \<Rightarrow> address" where
  "sample_address s =
     (case sample_unhex s of None \<Rightarrow> 0 | Some bs \<Rightarrow> word_of_nat (be_val bs))"

definition sample_eth :: "address ethlib" where
  "sample_eth =
     \<lparr> HexToAddress = sample_address,
       AddressHex = (\<lambda>a. sample_hex (be_bytes 20 (unat a))),
       IsHexAddress = (\<lambda>s. length s = 42 \<and> has_prefix s ''0x'' \<and> list_all is_hex (drop 2 s)),
       HexutilDecode = sample_unhex,
       HexutilEncode = sample_hex,
       HexToHash = (\<lambda>s. case sample_unhex s of None \<Rightarrow> 0 | Some bs \<Rightarrow> word_of_nat (be_val bs)),
       HashHex = (\<lambda>h. sample_hex (be_bytes 32 (unat h))),
       Keccak256 = (\<lambda>bs. word_of_nat (be_val bs)),
       TxUnmarshal = (\<lambda>bs. None),
       TxMarshal = (\<lambda>t. Inl (ErrExt ''marshal'')),
       TxSender = (\<lambda>t. None),
       SignTx = (\<lambda>d k. Inl (ErrExt ''sign'')),
       UnsignedTx = (\<lambda>d. \<lparr> tx_hash = [], tx_chain = dt_chain d, tx_nonce = dt_nonce d, tx_type = 2,
          tx_to = Some (dt_to d), tx_value = dt_value d, tx_data = dt_data d, tx_gas = dt_gas d,
          tx_tip = dt_tip d, tx_fee = dt_fee d, tx_access = 0 \<rparr>),
       PubkeyAddress = (\<lambda>k. k),
       AbiPack = (\<lambda>m vs. Inr []),
       AbiPackArgs = (\<lambda>m vs. Inr []),
       AbiUnpack = (\<lambda>m bs. Inl (ErrExt ''abi'')),
       AbiInputs = (\<lambda>m bs. Inl (ErrExt ''abi'')),
       MethodById = (\<lambda>bs. None) \<rparr>"

lemma sample_unhex_hex [simp]: "sample_unhex (sample_hex bs) = Some bs"
  by (simp add: sample_unhex_def sample_hex_def has_prefix_def)

lemma sample_address_hex: "sample_address (sample_hex (be_bytes 20 (unat a))) = a"
proof -
  have "unat a < 256 ^ 20" using unsigned_less [where ?w = a and ?'a = nat] by simp
  then show ?thesis
    by (simp add: sample_address_def be_val_be_bytes)
qed

lemma sample_hex_shape:
  "length (sample_hex (be_bytes 20 v)) = 42" "has_prefix (sample_hex bs) ''0x''"
  "list_all is_hex (drop 2 (sample_hex bs))"
  by (simp_all add: sample_hex_def has_prefix_def hex_encode_hex)

lemma sample_zero: "sample_address zero_address_text = 0"
  by (simp add: sample_address_def sample_unhex_def zero_address_text_def has_prefix_def is_hex_def
      hex_value_def be_val_def)

lemma hex_value_zero: "is_hex c \<Longrightarrow> hex_value c = 0 \<Longrightarrow> c = CHR ''0''"
  unfolding is_hex_def set_simps insert_iff empty_iff
  by (elim disjE FalseE; simp add: hex_value_def)

lemma hex_value_less: "is_hex c \<Longrightarrow> hex_value c < 16"
  unfolding is_hex_def set_simps insert_iff empty_iff
  by (elim disjE FalseE; simp add: hex_value_def)

lemma word_of_nat_zero: "n < 2 ^ LENGTH('w::len) \<Longrightarrow> (word_of_nat n :: 'w word) = 0 \<Longrightarrow> n = 0"
  using of_nat_inverse by fastforce

lemma be_val_zero: "be_val bs = 0 \<longleftrightarrow> (\<forall>b\<in>set bs. b = 0)"
  by (induction bs rule: rev_induct) (auto simp: unat_eq_0)

lemma hex_byte_zero:
  assumes "is_hex c" "is_hex d" and "(word_of_nat (16 * hex_value c + hex_value d) :: 8 word) = 0"
  shows "c = CHR ''0'' \<and> d = CHR ''0''"
proof -
  have "hex_value c < 16" "hex_value d < 16"
    using assms by (simp_all add: hex_value_less)
  then have "16 * hex_value c + hex_value d < 2 ^ LENGTH(8)" by simp
  with assms(3) have "16 * hex_value c + hex_value d = 0" by (rule word_of_nat_zero [rotated])
  then show ?thesis using assms(1,2) by (auto dest: hex_value_zero)
qed

lemma hex_decode_zeros:
  "hex_decode s = Some bs \<Longrightarrow> \<forall>b\<in>set bs. b = 0 \<Longrightarrow> s = replicate (length s) (CHR ''0'')"
proof (induction s arbitrary: bs rule: hex_decode.induct)
  case (3 c d s)
  then obtain cs where cs: "is_hex c" "is_hex d" "hex_decode s = Some cs"
    "bs = word_of_nat (16 * hex_value c + hex_value d) # cs"
    by (auto split: if_splits)
  with 3 have "s = replicate (length s) (CHR ''0'')" by auto
  moreover have "c = CHR ''0'' \<and> d = CHR ''0''"
    by (rule hex_byte_zero) (use cs 3(3) in auto)
  ultimately show ?case by simp
qed auto

lemma hex_decode_some: "even (length s) \<Longrightarrow> list_all is_hex s \<Longrightarrow> \<exists>bs. hex_decode s = Some bs"
  by (induction s rule: hex_decode.induct) auto

lemma sample_address_zero:
  assumes "length s = 42" "has_prefix s ''0x''" "list_all is_hex (drop 2 s)" "sample_address s = 0"
  shows "s = zero_address_text"
proof -
  from assms obtain bs where bs: "hex_decode (drop 2 s) = Some bs"
    using hex_decode_some [of "drop 2 s"] by auto
  have "length bs = 20" using length_hex_decode [OF bs] assms(1) by simp
  then have "be_val bs < 2 ^ LENGTH(160)" using be_val_less [of bs] by simp
  moreover have "(word_of_nat (be_val bs) :: 160 word) = 0"
    using assms bs by (simp add: sample_address_def sample_unhex_def)
  ultimately have "be_val bs = 0" by (rule word_of_nat_zero)
  then have "drop 2 s = replicate 40 (CHR ''0'')"
    using hex_decode_zeros [OF bs] assms(1) by (simp add: be_val_zero)
  moreover have "s = ''0x'' @ drop 2 s"
    using assms(2) append_take_drop_id [of 2 s] by (metis has_prefix_def length_Cons list.size(3) numeral_2_eq_2)
  ultimately show ?thesis by (simp add: zero_address_text_def numeral_eq_Suc)
qed

lemma sample_eth_hex_laws [simp]: "eth_hex_laws sample_eth"
  unfolding eth_hex_laws_def using sample_address_zero
  by (simp add: sample_eth_def sample_address_hex sample_hex_shape sample_zero)

lemma sample_eth_hash_laws [simp]: "eth_hash_laws sample_eth"
proof -
  have "be_val (be_bytes 32 (unat (h :: hash32))) = unat h" for h
    using unsigned_less [where ?w = h and ?'a = nat] by (intro be_val_be_bytes) simp
  then show ?thesis
    by (simp add: eth_hash_laws_def sample_eth_def hash_pattern_def sample_hex_shape)
       (simp add: sample_hex_def)
qed

definition sample_request :: QuoteRequest where
  "sample_request = \<lparr> qr_OrderID = [], qr_Buyer = [],
     qr_Hash = ''0x'' @ replicate 64 (CHR ''a''), qr_Action = ''speedup'', qr_To = [], qr_Amount = [],
     qr_AmountRaw = [], qr_Contract = [], qr_TokenOut = [], qr_SlippageBPS = 0, qr_PoolFee = 0 \<rparr>"

theorem ParseQuoteRequest_command_ok_witness:
  "\<exists>c. ParseQuoteRequest sample_eth (Some sample_request) = Inr c \<and> command_ok sample_eth c \<and>
       qr_Action sample_request = action_text (qc_Action c)"
proof -
  have "hash_pattern (qr_Hash sample_request)"
    by (simp add: sample_request_def hash_pattern_def has_prefix_def list_all_replicateI is_hex_def)
  then obtain c where "ParseQuoteRequest sample_eth (Some sample_request) = Inr c"
    using ParseTransactionAction_text [of ActionSpeedup]
    by (simp add: ParseQuoteRequest_def parse_targets_def parse_order_def ParseTransactionHash_def
        sample_request_def isEscrowAction_def)
  with ParseQuoteRequest_command_ok [OF sample_eth_hex_laws this] show ?thesis by blast
qed

end
