(* ===== verification/Storage.thy ===== *)
theory Storage
  imports Errors
begin

text \<open>
  The machine a wallet runs on, as the code sees it: a file system that holds one structured
  value per file (what \<^verbatim>\<open>json.Unmarshal\<close> reads from it), a world that answers
  system calls, the clock, the random source and the network, the heap of the component, and
  a trace of the effects that leave the process.  \<open>atomicWriteFile\<close> (keystore.go) is the one
  way files are written.  The lemmas show that it changes a file in a single step or not
  at all, whichever call fails.
\<close>

section \<open>World, files, heap and trace\<close>

text \<open>
  The world is a parameter: a system call may fail at any time, the clock and the random
  source return whatever they return, and each of them may change the world.
\<close>

record 'w io =
  SysCall :: "string \<Rightarrow> 'w \<Rightarrow> (err + unit) \<times> 'w"
  TimeNow :: "'w \<Rightarrow> time \<times> 'w"
  RandRead :: "nat \<Rightarrow> 'w \<Rightarrow> (err + bytes) \<times> 'w"
  CtxErr :: "'w \<Rightarrow> bool \<times> 'w"

datatype 'f event = Renamed string 'f | SentRaw string

record ('w, 'f, 'h) sys =
  world :: 'w
  files :: "(string \<times> 'f) list"
  trace :: "'f event list"
  heap :: 'h

type_synonym ('w, 'f, 'h, 'a) act = "(('w, 'f, 'h) sys, err, 'a) go"

definition on_world :: "('w \<Rightarrow> (err + 'a) \<times> 'w) \<Rightarrow> ('w, 'f, 'h, 'a) act" where
  "on_world f = (\<lambda>s. case f (world s) of (r, w) \<Rightarrow> (r, s\<lparr>world := w\<rparr>))"

definition now :: "('w, 'm) io_scheme \<Rightarrow> ('w, 'f, 'h, time) act" where
  "now I = on_world (\<lambda>w. case TimeNow I w of (t, w') \<Rightarrow> (Inr t, w'))"

definition ctx_err :: "('w, 'm) io_scheme \<Rightarrow> ('w, 'f, 'h, bool) act" where
  "ctx_err I = on_world (\<lambda>w. case CtxErr I w of (b, w') \<Rightarrow> (Inr b, w'))"

definition get_heap :: "('h \<Rightarrow> 'a) \<Rightarrow> ('w, 'f, 'h, 'a) act" where
  "get_heap f = gets (\<lambda>s. f (heap s))"

definition set_heap :: "('h \<Rightarrow> 'h) \<Rightarrow> ('w, 'f, 'h, unit) act" where
  "set_heap f = modify (\<lambda>s. s\<lparr>heap := f (heap s)\<rparr>)"

definition emit :: "'f event \<Rightarrow> ('w, 'f, 'h, unit) act" where
  "emit e = modify (\<lambda>s. s\<lparr>trace := trace s @ [e]\<rparr>)"

text \<open>\<^verbatim>\<open>os.ReadFile\<close>: None is the error that \<^verbatim>\<open>os.IsNotExist\<close> recognises.\<close>

definition ReadFile :: "('w, 'm) io_scheme \<Rightarrow> string \<Rightarrow> ('w, 'f, 'h, 'f option) act" where
  "ReadFile I path = seq (on_world (SysCall I ''read'')) (gets (\<lambda>s. map_of (files s) path))"

text \<open>\<^verbatim>\<open>os.ReadDir\<close> lists the names in order.\<close>

definition dir_names :: "(string \<times> 'f) list \<Rightarrow> string list" where
  "dir_names fs = sort (remdups (map fst fs))"

definition ReadDir :: "('w, 'm) io_scheme \<Rightarrow> ('w, 'f, 'h, string list) act" where
  "ReadDir I = seq (on_world (SysCall I ''readdir'')) (gets (\<lambda>s. dir_names (files s)))"

definition put_file :: "string \<Rightarrow> 'f \<Rightarrow> ('w, 'f, 'h) sys \<Rightarrow> ('w, 'f, 'h) sys" where
  "put_file path d s =
     s\<lparr>files := AList.update path d (files s), trace := trace s @ [Renamed path d]\<rparr>"

text \<open>
  internal/wallet/keystore.go, \<open>atomicWriteFile\<close>: every system call in order.  The data is
  written to a temporary file, which the directory listing leaves out (no reader matches its
  name); the destination changes when \<^verbatim>\<open>rename\<close> succeeds.  The last two calls sync the
  directory: their failure is reported although the file has been replaced.
\<close>

definition atomicWriteFile ::
    "('w, 'm) io_scheme \<Rightarrow> string \<Rightarrow> 'f \<Rightarrow> ('w, 'f, 'h, unit) act" where
  "atomicWriteFile I dest data =
     seq (on_world (SysCall I ''mkdir''))
    (seq (on_world (SysCall I ''createtemp''))
    (seq (on_world (SysCall I ''chmod''))
    (seq (on_world (SysCall I ''write''))
    (seq (on_world (SysCall I ''sync''))
    (seq (on_world (SysCall I ''close''))
    (seq (on_world (SysCall I ''rename''))
    (seq (modify (put_file dest data))
    (seq (on_world (SysCall I ''opendir''))
         (on_world (SysCall I ''syncdir''))))))))))"

section \<open>Reasoning rules\<close>

lemma wp_on_world:
  assumes "\<And>x w. f (world s) = (Inr x, w) \<Longrightarrow> Q x (s\<lparr>world := w\<rparr>)"
    and "\<And>e w. f (world s) = (Inl e, w) \<Longrightarrow> E e (s\<lparr>world := w\<rparr>)"
  shows "wp (on_world f) Q E s"
  using assms by (auto simp: wp_def on_world_def split: prod.split sum.split)

lemma wp_on_world_any:
  assumes "\<And>x w. Q x (s\<lparr>world := w\<rparr>)" and "\<And>e w. E e (s\<lparr>world := w\<rparr>)"
  shows "wp (on_world f) Q E s"
  using assms by (rule wp_on_world)

lemma wp_now: "(\<And>t w. Q t (s\<lparr>world := w\<rparr>)) \<Longrightarrow> wp (now I) Q E s"
  unfolding now_def by (rule wp_on_world) (auto split: prod.splits)

lemma wp_ctx_err: "(\<And>t w. Q t (s\<lparr>world := w\<rparr>)) \<Longrightarrow> wp (ctx_err I) Q E s"
  unfolding ctx_err_def by (rule wp_on_world) (auto split: prod.splits)

lemma wp_get_heap [wp_simps]: "wp (get_heap f) Q E s = Q (f (heap s)) s"
  by (simp add: get_heap_def wp_gets)

lemma wp_set_heap [wp_simps]: "wp (set_heap f) Q E s = Q () (s\<lparr>heap := f (heap s)\<rparr>)"
  by (simp add: set_heap_def wp_modify)

lemma wp_emit [wp_simps]: "wp (emit e) Q E s = Q () (s\<lparr>trace := trace s @ [e]\<rparr>)"
  by (simp add: emit_def wp_modify)

lemma run_on_world [run_simps]:
  "on_world f s = (case f (world s) of (r, w) \<Rightarrow> (r, s\<lparr>world := w\<rparr>))"
  by (simp add: on_world_def)

lemma run_get_heap [run_simps]: "get_heap f s = (Inr (f (heap s)), s)"
  by (simp add: get_heap_def run_gets)

lemma run_set_heap [run_simps]: "set_heap f s = (Inr (), s\<lparr>heap := f (heap s)\<rparr>)"
  by (simp add: set_heap_def run_modify)

lemma run_emit [run_simps]: "emit e s = (Inr (), s\<lparr>trace := trace s @ [e]\<rparr>)"
  by (simp add: emit_def run_modify)

lemma run_now [run_simps]:
  "now I s = (case TimeNow I (world s) of (t, w) \<Rightarrow> (Inr t, s\<lparr>world := w\<rparr>))"
  by (simp add: now_def run_on_world split: prod.split)

lemma run_ctx_err [run_simps]:
  "ctx_err I s = (case CtxErr I (world s) of (t, w) \<Rightarrow> (Inr t, s\<lparr>world := w\<rparr>))"
  by (simp add: ctx_err_def run_on_world split: prod.split)

lemma wp_ReadFile:
  assumes "\<And>w. Q (map_of (files s) path) (s\<lparr>world := w\<rparr>)" and "\<And>e w. E e (s\<lparr>world := w\<rparr>)"
  shows "wp (ReadFile I path) Q E s"
  unfolding ReadFile_def by (simp add: wp_simps) (rule wp_on_world, simp_all add: assms wp_simps)

lemma wp_ReadDir:
  assumes "\<And>w. Q (dir_names (files s)) (s\<lparr>world := w\<rparr>)" and "\<And>e w. E e (s\<lparr>world := w\<rparr>)"
  shows "wp (ReadDir I) Q E s"
  unfolding ReadDir_def by (simp add: wp_simps) (rule wp_on_world, simp_all add: assms wp_simps)

text \<open>An error that some system call can return.\<close>

definition io_error :: "('w, 'm) io_scheme \<Rightarrow> err \<Rightarrow> bool" where
  "io_error I e \<longleftrightarrow> (\<exists>op w. fst (SysCall I op w) = Inl e)"

lemma wp_SysCall:
  assumes "\<And>w. Q () (s\<lparr>world := w\<rparr>)" and "\<And>e w. io_error I e \<Longrightarrow> F e (s\<lparr>world := w\<rparr>)"
  shows "wp (on_world (SysCall I op)) Q F s"
  using assms by (auto intro!: wp_on_world simp: io_error_def) (metis fst_conv)

lemma wp_ReadFile_io:
  assumes "\<And>w. Q (map_of (files s) path) (s\<lparr>world := w\<rparr>)" and "\<And>e w. io_error I e \<Longrightarrow> F e (s\<lparr>world := w\<rparr>)"
  shows "wp (ReadFile I path) Q F s"
  unfolding ReadFile_def wp_seq by (rule wp_SysCall) (simp_all add: assms wp_simps)

lemma wp_ReadDir_io:
  assumes "\<And>w. Q (dir_names (files s)) (s\<lparr>world := w\<rparr>)" and "\<And>e w. io_error I e \<Longrightarrow> F e (s\<lparr>world := w\<rparr>)"
  shows "wp (ReadDir I) Q F s"
  unfolding ReadDir_def wp_seq by (rule wp_SysCall) (simp_all add: assms wp_simps)

lemma put_file_sel [simp]:
  "world (put_file p d s) = world s" "heap (put_file p d s) = heap s"
  "files (put_file p d s) = AList.update p d (files s)"
  "trace (put_file p d s) = trace s @ [Renamed p d]"
  by (simp_all add: put_file_def)

lemma put_file_world [simp]: "put_file p d (s\<lparr>world := w\<rparr>) = (put_file p d s)\<lparr>world := w\<rparr>"
  by (simp add: put_file_def)

lemma put_file_heap [simp]: "put_file p d (s\<lparr>heap := h\<rparr>) = (put_file p d s)\<lparr>heap := h\<rparr>"
  by (simp add: put_file_def)

text \<open>
  One write is one step: an error leaves the files as they were or the new file in
  place, never anything between.
\<close>

lemma wp_atomicWriteFile:
  assumes "\<And>w. Q () ((put_file dest data s)\<lparr>world := w\<rparr>)"
    and "\<And>e w. E e (s\<lparr>world := w\<rparr>)"
    and "\<And>e w. E e ((put_file dest data s)\<lparr>world := w\<rparr>)"
  shows "wp (atomicWriteFile I dest data) Q E s"
  unfolding atomicWriteFile_def
  by (simp add: wp_simps) (intro wp_on_world_any; simp add: wp_simps assms)+

lemma dir_names_set [simp]: "set (dir_names fs) = fst ` set fs"
  by (simp add: dir_names_def)

lemma map_of_put [simp]: "map_of (AList.update p d fs) = (map_of fs)(p \<mapsto> d)"
  by (simp add: update_conv')

section \<open>Effects\<close>

text \<open>Bodies that only ask the world: files, trace and heap are left alone.\<close>

definition asks :: "('w, 'f, 'h) sys \<Rightarrow> ('w, 'f, 'h) sys \<Rightarrow> bool" where
  "asks s t \<longleftrightarrow> files t = files s \<and> trace t = trace s \<and> heap t = heap s"

text \<open>Bodies that may write the heap, and nothing outside the process.\<close>

definition local_only :: "('w, 'f, 'h) sys \<Rightarrow> ('w, 'f, 'h) sys \<Rightarrow> bool" where
  "local_only s t \<longleftrightarrow> files t = files s \<and> trace t = trace s"

text \<open>The trace only grows.\<close>

definition grows :: "('w, 'f, 'h) sys \<Rightarrow> ('w, 'f, 'h) sys \<Rightarrow> bool" where
  "grows s t \<longleftrightarrow> (\<exists>es. trace t = trace s @ es)"

interpretation asks: effect "asks :: ('w, 'f, 'h) sys \<Rightarrow> _"
  by unfold_locales (auto simp: asks_def)

interpretation local_only: effect "local_only :: ('w, 'f, 'h) sys \<Rightarrow> _"
  by unfold_locales (auto simp: local_only_def)

interpretation grows: effect "grows :: ('w, 'f, 'h) sys \<Rightarrow> _"
  by unfold_locales (auto simp: grows_def)

lemma asks_on_world [eff_intros]: "within asks (on_world f)"
  by (simp add: within_def asks_def on_world_def split: prod.split)

lemma asks_now [eff_intros]: "within asks (now I)"
  by (simp add: now_def asks_on_world)

lemma asks_ctx_err [eff_intros]: "within asks (ctx_err I)"
  by (simp add: ctx_err_def asks_on_world)

lemma asks_get_heap [eff_intros]: "within asks (get_heap f)"
  by (simp add: get_heap_def asks.eff_gets)

lemma asks_ReadFile [eff_intros]: "within asks (ReadFile I p)"
  unfolding ReadFile_def by (intro asks.eff_seq asks_on_world asks.eff_gets)

lemma asks_ReadDir [eff_intros]: "within asks (ReadDir I)"
  unfolding ReadDir_def by (intro asks.eff_seq asks_on_world asks.eff_gets)

lemma local_set_heap [eff_intros]: "within local_only (set_heap f)"
  by (simp add: within_def local_only_def set_heap_def modify_def)

lemma asks_local: "within asks m \<Longrightarrow> within local_only m"
  by (erule within_weaken) (auto simp: asks_def local_only_def)

lemma local_grows: "within local_only m \<Longrightarrow> within grows m"
  by (erule within_weaken) (auto simp: local_only_def grows_def)

lemma asks_grows: "within asks m \<Longrightarrow> within grows m"
  by (intro local_grows asks_local)

lemma grows_emit [eff_intros]: "within grows (emit e)"
  by (simp add: within_def grows_def emit_def modify_def)

lemma grows_atomicWriteFile [eff_intros]: "within grows (atomicWriteFile I p d)"
  unfolding within_def
proof
  fix s
  have "wp (atomicWriteFile I p d) (\<lambda>_ t. grows s t) (\<lambda>_ t. grows s t) s"
    by (rule wp_atomicWriteFile) (simp_all add: grows_def)
  then show "grows s (snd (atomicWriteFile I p d s))"
    by (auto simp: wp_def split: prod.splits sum.splits)
qed

lemma asks_wp:
  assumes "within asks m" and "\<And>x w. Q x (s\<lparr>world := w\<rparr>)" and "\<And>e w. E e (s\<lparr>world := w\<rparr>)"
  shows "wp m Q E s"
proof (rule wp_runI)
  have w: "t = s\<lparr>world := world t\<rparr>" if "m s = (r, t)" for r t
    using withinD [OF assms(1) that] by (cases s; cases t) (simp add: asks_def)
  show "Q x t" if "m s = (Inr x, t)" for x t using assms(2) w [OF that] by metis
  show "E e t" if "m s = (Inl e, t)" for e t using assms(3) w [OF that] by metis
qed

text \<open>A machine on which every call succeeds; the world is the clock.\<close>

definition sample_io :: "int io" where
  "sample_io = \<lparr> SysCall = (\<lambda>op w. (Inr (), w)), TimeNow = (\<lambda>w. (w, w + 1)),
     RandRead = (\<lambda>n w. (Inr (replicate n 0), w)), CtxErr = (\<lambda>w. (False, w)) \<rparr>"

definition sample_sys :: "'h \<Rightarrow> (int, 'f, 'h) sys" where
  "sample_sys h = \<lparr> world = seconds 1700000000, files = [], trace = [], heap = h \<rparr>"

end
