(* ===== verification/Records.thy ===== *)
theory Records
  imports Types Storage
begin

text \<open>
  The journal record of internal/wallet/types.go and journal.go: its form in memory and on
  disk, the escrow call that is decoded from the signed bytes (internal/wallet/escrow.go),
  the validation of a record, and the evidence of a finalized nonce (nonce.go).  The lemmas
  show that a stored record is read back as it was, that its escrow fields come from the
  signed bytes alone, and what a validated record guarantees.
\<close>

section \<open>Records in memory and on disk\<close>

text \<open>The action and the escrow action may be the empty text: None.\<close>

record JournalRecord =
  jr_OrderID :: string
  jr_EscrowAction :: "TransactionAction option"
  jr_EscrowBuyer :: string
  jr_EscrowContract :: string
  jr_Finalized :: bool
  jr_Hash :: string
  jr_QuoteID :: string
  jr_State :: JournalState
  jr_To :: string
  jr_Amount :: string
  jr_AmountRaw :: string
  jr_Symbol :: string
  jr_Action :: "TransactionAction option"
  jr_Nonce :: "64 word"
  jr_SignedRaw :: string
  jr_CreatedAt :: time
  jr_UpdatedAt :: time
  jr_Confirmations :: string
  jr_FeeETH :: string
  jr_Error :: string
  jr_Version :: "64 word"

record journalRecordDisk =
  jd_OrderID :: string
  jd_Finalized :: bool
  jd_Hash :: string
  jd_QuoteID :: string
  jd_State :: string
  jd_To :: string
  jd_Amount :: string
  jd_AmountRaw :: string
  jd_Symbol :: string
  jd_Action :: string
  jd_Nonce :: "64 word"
  jd_SignedRaw :: string
  jd_CreatedAt :: time
  jd_UpdatedAt :: time
  jd_Confirmations :: string
  jd_FeeETH :: string
  jd_Error :: string
  jd_Version :: "64 word"

definition optional_action_text :: "TransactionAction option \<Rightarrow> string" where
  "optional_action_text a = (case a of None \<Rightarrow> [] | Some b \<Rightarrow> action_text b)"

definition parse_optional_action :: "string \<Rightarrow> err + TransactionAction option" where
  "parse_optional_action s =
     (if s \<noteq> [] then ebind (ParseTransactionAction s) (\<lambda>a. Inr (Some a)) else Inr None)"

lemma parse_optional_action_text [simp]: "parse_optional_action (optional_action_text a) = Inr a"
  by (cases a) (simp_all add: parse_optional_action_def optional_action_text_def)

lemma parse_optional_action_iff: "parse_optional_action s = Inr a \<longleftrightarrow> s = optional_action_text a"
  using parse_optional_action_text [of a]
  by (auto simp: parse_optional_action_def optional_action_text_def ebind_eq_Inr
      ParseTransactionAction_iff split: option.splits if_splits)

section \<open>The escrow call in the signed bytes\<close>

definition order_key :: "('k, 'm) ethlib_scheme \<Rightarrow> string \<Rightarrow> hash32" where
  "order_key E reference =
     (if hash_pattern reference then HexToHash E reference
      else Keccak256 E (map of_char reference))"

record escrowCall =
  ec_action :: TransactionAction
  ec_buyer :: address
  ec_orderKey :: hash32
  ec_seller :: address
  ec_amount :: int

definition escrow_method_action :: "string \<Rightarrow> TransactionAction option" where
  "escrow_method_action name =
     (if name = ''fund'' then Some ActionEscrowFund
      else if name = ''release'' then Some ActionEscrowRelease
      else if name = ''refund'' then Some ActionEscrowRefund else None)"

text \<open>
  The arguments have the types the ABI declares; any other shape would be a
  failed type assertion, which the code does not recover from (an error of its own here).
\<close>

definition escrow_call_of ::
    "TransactionAction \<Rightarrow> address \<Rightarrow> abi_value list \<Rightarrow> err + escrowCall" where
  "escrow_call_of action sender vs =
     (if action = ActionEscrowFund
      then case vs of
          [AbiBytes32 k, AbiAddress seller, AbiUint amount] \<Rightarrow>
            Inr \<lparr> ec_action = action, ec_buyer = sender, ec_orderKey = k, ec_seller = seller,
                  ec_amount = amount \<rparr>
        | _ \<Rightarrow> Inl (ErrExt ''interface conversion'')
      else case vs of
          [AbiAddress buyer, AbiBytes32 k] \<Rightarrow>
            Inr \<lparr> ec_action = action, ec_buyer = buyer, ec_orderKey = k, ec_seller = 0, ec_amount = 0 \<rparr>
        | _ \<Rightarrow> Inl (ErrExt ''interface conversion''))"

definition decodeEscrowTransaction ::
    "('k, 'm) ethlib_scheme \<Rightarrow> eth_tx \<Rightarrow> err + escrowCall option" where
  "decodeEscrowTransaction E tx =
     (let data = tx_data tx in
      if length data < 4 then Inr None
      else case MethodById E (take 4 data) of
          None \<Rightarrow> Inr None
        | Some name \<Rightarrow>
           (case escrow_method_action name of
              None \<Rightarrow> Inr None
            | Some action \<Rightarrow>
                if tx_to tx = None \<or> tx_value tx \<noteq> 0 then Inl (ErrNew ''escrow operation mismatch'')
                else case AbiInputs E (''escrow.'' @ name) (drop 4 data) of
                    Inl _ \<Rightarrow> Inl (ErrNew ''order data incomplete'')
                  | Inr vs \<Rightarrow>
                      if AbiPackArgs E (''escrow.'' @ name) vs \<noteq> Inr (drop 4 data) then Inl (ErrNew ''order data mismatch'')
                      else case TxSender E tx of
                          None \<Rightarrow> Inl (ErrNew ''cannot verify signature'')
                        | Some sender \<Rightarrow>
                            ebind (escrow_call_of action sender vs) (\<lambda>call. Inr (Some call))))"

definition restoreEscrowJournal ::
    "('k, 'm) ethlib_scheme \<Rightarrow> JournalRecord \<Rightarrow> eth_tx \<Rightarrow> err + JournalRecord" where
  "restoreEscrowJournal E r tx =
     (let r = r\<lparr>jr_EscrowAction := None, jr_EscrowBuyer := [], jr_EscrowContract := []\<rparr> in
      ebind (decodeEscrowTransaction E tx) (\<lambda>found.
        case found of
          None \<Rightarrow>
            if (\<exists>a. jr_Action r = Some a \<and> isEscrowAction a) \<or> jr_OrderID r \<noteq> []
            then Inl (ErrNew ''escrow operation mismatch'') else Inr r
        | Some call \<Rightarrow>
            if jr_Action r \<noteq> None \<and> jr_Action r \<noteq> Some ActionSpeedup \<and> jr_Action r \<noteq> Some (ec_action call)
            then Inl (ErrNew ''escrow operation mismatch'')
            else if jr_OrderID r \<noteq> [] \<and>
                 (isl (ParseOrderReference (jr_OrderID r)) \<or>
                  order_key E (jr_OrderID r) \<noteq> ec_orderKey call)
            then Inl (ErrNew ''order number mismatch'')
            else Inr (r\<lparr>jr_OrderID :=
                          (if jr_OrderID r = [] then HashHex E (ec_orderKey call) else jr_OrderID r),
                        jr_EscrowAction := Some (ec_action call),
                        jr_EscrowBuyer := AddressHex E (ec_buyer call),
                        jr_EscrowContract :=
                          (case tx_to tx of None \<Rightarrow> [] | Some a \<Rightarrow> AddressHex E a)\<rparr>)))"

section \<open>Validation\<close>

definition validateJournalRecord ::
    "('k, 'm) ethlib_scheme \<Rightarrow> JournalRecord \<Rightarrow> int \<Rightarrow> err + JournalRecord" where
  "validateJournalRecord E r chainID =
     ebind (ParseLegacyQuoteID (jr_QuoteID r)) (\<lambda>_.
     ebind (ParseTransactionHash (jr_Hash r)) (\<lambda>_.
     ebind (parse_optional_address E (jr_To r)) (\<lambda>_.
     ebind (ParseJournalState (state_text (jr_State r))) (\<lambda>_.
     ebind (parse_optional_action (optional_action_text (jr_Action r))) (\<lambda>_.
       case HexutilDecode E (jr_SignedRaw r) of
         None \<Rightarrow> Inl (ErrNew ''journal damaged'')
       | Some raw \<Rightarrow>
          (case TxUnmarshal E raw of
             None \<Rightarrow> Inl (ErrNew ''signed data mismatch'')
           | Some tx \<Rightarrow>
               if tx_hash tx \<noteq> jr_Hash r \<or> tx_chain tx \<noteq> chainID
               then Inl (ErrNew ''signed data mismatch'')
               else restoreEscrowJournal E r tx))))))"

definition journalRecordFromDisk ::
    "('k, 'm) ethlib_scheme \<Rightarrow> journalRecordDisk option \<Rightarrow> int \<Rightarrow> err + JournalRecord" where
  "journalRecordFromDisk E item chainID =
     (case item of
        None \<Rightarrow> Inl (ErrNew ''empty journal record'')
      | Some d \<Rightarrow>
          ebind (ParseLegacyQuoteID (jd_QuoteID d)) (\<lambda>quoteID.
          ebind (ParseTransactionHash (jd_Hash d)) (\<lambda>hash.
          ebind (parse_optional_address E (jd_To d)) (\<lambda>to.
          ebind (ParseJournalState (jd_State d)) (\<lambda>state.
          ebind (parse_optional_action (jd_Action d)) (\<lambda>action.
            let version = (if jd_Version d = 0 then 1 else jd_Version d) in
            validateJournalRecord E
              \<lparr> jr_OrderID = jd_OrderID d, jr_EscrowAction = None, jr_EscrowBuyer = [],
                jr_EscrowContract = [], jr_Finalized = jd_Finalized d, jr_Hash = hash,
                jr_QuoteID = quoteID, jr_State = state, jr_To = to, jr_Amount = jd_Amount d,
                jr_AmountRaw = jd_AmountRaw d, jr_Symbol = jd_Symbol d, jr_Action = action,
                jr_Nonce = jd_Nonce d, jr_SignedRaw = jd_SignedRaw d, jr_CreatedAt = jd_CreatedAt d,
                jr_UpdatedAt = jd_UpdatedAt d, jr_Confirmations = jd_Confirmations d,
                jr_FeeETH = jd_FeeETH d, jr_Error = jd_Error d, jr_Version = version \<rparr> chainID))))))"

definition journalRecordToDisk :: "JournalRecord \<Rightarrow> journalRecordDisk" where
  "journalRecordToDisk r =
     \<lparr> jd_OrderID = jr_OrderID r, jd_Finalized = jr_Finalized r, jd_Hash = jr_Hash r,
       jd_QuoteID = jr_QuoteID r, jd_State = state_text (jr_State r), jd_To = jr_To r,
       jd_Amount = jr_Amount r, jd_AmountRaw = jr_AmountRaw r, jd_Symbol = jr_Symbol r,
       jd_Action = optional_action_text (jr_Action r), jd_Nonce = jr_Nonce r,
       jd_SignedRaw = jr_SignedRaw r, jd_CreatedAt = jr_CreatedAt r, jd_UpdatedAt = jr_UpdatedAt r,
       jd_Confirmations = jr_Confirmations r, jd_FeeETH = jr_FeeETH r, jd_Error = jr_Error r,
       jd_Version = jr_Version r \<rparr>"

definition isMinedJournalState :: "JournalState \<Rightarrow> bool" where
  "isMinedJournalState s \<longleftrightarrow> s = JournalSucceeded \<or> s = JournalReverted"

section \<open>Evidence of a finalized nonce (nonce.go)\<close>

record finalizedNonce =
  fn_account :: address
  fn_chainID :: int
  fn_nonce :: "64 word"

definition consumes :: "('k, 'm) ethlib_scheme \<Rightarrow> finalizedNonce option \<Rightarrow> JournalRecord \<Rightarrow> bool" where
  "consumes E evidence r =
     (case evidence of
        None \<Rightarrow> False
      | Some f \<Rightarrow>
          if fn_nonce f \<le> jr_Nonce r then False
          else case HexutilDecode E (jr_SignedRaw r) of
              None \<Rightarrow> False
            | Some raw \<Rightarrow>
               (case TxUnmarshal E raw of
                  None \<Rightarrow> False
                | Some tx \<Rightarrow>
                    if tx_hash tx \<noteq> jr_Hash r \<or> tx_chain tx \<noteq> fn_chainID f \<or> tx_nonce tx \<noteq> jr_Nonce r
                    then False
                    else TxSender E tx = Some (fn_account f)))"

section \<open>What a validated record guarantees\<close>

text \<open>The transaction in the signed bytes of a record.\<close>

definition signed_tx :: "('k, 'm) ethlib_scheme \<Rightarrow> JournalRecord \<Rightarrow> eth_tx option" where
  "signed_tx E r = Option.bind (HexutilDecode E (jr_SignedRaw r)) (TxUnmarshal E)"

lemma signed_tx_Some:
  "signed_tx E r = Some tx \<longleftrightarrow> (\<exists>raw. HexutilDecode E (jr_SignedRaw r) = Some raw \<and> TxUnmarshal E raw = Some tx)"
  by (cases "HexutilDecode E (jr_SignedRaw r)") (simp_all add: signed_tx_def)

lemma validate_iff:
  "validateJournalRecord E r c = Inr r' \<longleftrightarrow>
     (jr_QuoteID r \<noteq> [] \<and> length (jr_QuoteID r) \<le> 128) \<and> hash_pattern (jr_Hash r) \<and>
     (\<exists>t. parse_optional_address E (jr_To r) = Inr t) \<and>
     (\<exists>tx. signed_tx E r = Some tx \<and> tx_hash tx = jr_Hash r \<and> tx_chain tx = c \<and>
        restoreEscrowJournal E r tx = Inr r')"
  by (auto simp: validateJournalRecord_def ebind_eq_Inr ParseLegacyQuoteID_iff ParseTransactionHash_iff
      signed_tx_Some split: option.splits if_splits)

lemma consumes_iff:
  "consumes E evidence r \<longleftrightarrow>
     (\<exists>f tx. evidence = Some f \<and> jr_Nonce r < fn_nonce f \<and> signed_tx E r = Some tx \<and>
        tx_hash tx = jr_Hash r \<and> tx_chain tx = fn_chainID f \<and> tx_nonce tx = jr_Nonce r \<and>
        TxSender E tx = Some (fn_account f))"
  by (auto simp: consumes_def signed_tx_Some not_le split: option.splits)

text \<open>
  The fields that restoring derives from the signed bytes; everything else of the record is
  kept.
\<close>

definition escrow_fields :: "JournalRecord \<Rightarrow> string \<Rightarrow> TransactionAction option \<Rightarrow> string \<Rightarrow> string \<Rightarrow> JournalRecord" where
  "escrow_fields r ref a b c =
     r\<lparr>jr_OrderID := ref, jr_EscrowAction := a, jr_EscrowBuyer := b, jr_EscrowContract := c\<rparr>"

lemma restore_fields:
  assumes "restoreEscrowJournal E r tx = Inr r'"
  shows "r' = escrow_fields r (jr_OrderID r') (jr_EscrowAction r') (jr_EscrowBuyer r') (jr_EscrowContract r')"
  using assms unfolding restoreEscrowJournal_def escrow_fields_def Let_def
  by (cases r; cases "decodeEscrowTransaction E tx") (auto split: option.splits if_splits)

lemma escrow_fields_version: "jr_Version (escrow_fields r ref a b c) = jr_Version r"
  by (simp add: escrow_fields_def)

lemma restore_keeps:
  assumes "restoreEscrowJournal E r tx = Inr r'"
  shows "jr_Hash r' = jr_Hash r" "jr_SignedRaw r' = jr_SignedRaw r" "jr_QuoteID r' = jr_QuoteID r"
    "jr_To r' = jr_To r" "jr_Nonce r' = jr_Nonce r" "jr_Action r' = jr_Action r" "jr_State r' = jr_State r"
    "jr_Amount r' = jr_Amount r"
  by (subst restore_fields [OF assms], simp add: escrow_fields_def)+

lemma validate_keeps:
  assumes "validateJournalRecord E r c = Inr r'"
  shows "jr_Hash r' = jr_Hash r" "jr_SignedRaw r' = jr_SignedRaw r" "jr_QuoteID r' = jr_QuoteID r"
    "jr_To r' = jr_To r" "jr_Nonce r' = jr_Nonce r" "jr_Action r' = jr_Action r" "jr_State r' = jr_State r"
    "jr_Amount r' = jr_Amount r"
proof -
  from assms obtain tx where "restoreEscrowJournal E r tx = Inr r'" by (auto simp: validate_iff)
  from restore_keeps [OF this] show "jr_Hash r' = jr_Hash r" "jr_SignedRaw r' = jr_SignedRaw r"
    "jr_QuoteID r' = jr_QuoteID r" "jr_To r' = jr_To r" "jr_Nonce r' = jr_Nonce r"
    "jr_Action r' = jr_Action r" "jr_State r' = jr_State r" "jr_Amount r' = jr_Amount r"
    by simp_all
qed

text \<open>Restoring reads the order reference, the display action and the transaction only.\<close>

lemma restore_idem:
  assumes "eth_hash_laws E" and "restoreEscrowJournal E r tx = Inr r'"
    and "jr_OrderID s = jr_OrderID r'" and "jr_Action s = jr_Action r"
  shows "restoreEscrowJournal E s tx =
    Inr (escrow_fields s (jr_OrderID r') (jr_EscrowAction r') (jr_EscrowBuyer r') (jr_EscrowContract r'))"
proof (cases "decodeEscrowTransaction E tx")
  case (Inl e)
  with assms(2) show ?thesis by (simp add: restoreEscrowJournal_def Let_def)
next
  case (Inr found)
  have ref: "ParseOrderReference (HashHex E h) = Inr (HashHex E h)" "order_key E (HashHex E h) = h"
      "HashHex E h \<noteq> []" for h
    using eth_hashD [OF assms(1), of h] hash_pattern_nonempty
    by (simp_all add: ParseOrderReference_iff order_key_def)
  from assms(2-4) Inr show ?thesis
    by (cases found) (auto simp: restoreEscrowJournal_def escrow_fields_def Let_def ref
        split: if_splits)
qed

section \<open>Well-formed records and reloading\<close>

text \<open>
  A record in memory is well formed when it validates to itself and its recipient text is
  canonical.  The bookkeeping of a record (state, finality, timestamps, texts, version) is
  free.
\<close>

definition record_ok :: "('k, 'm) ethlib_scheme \<Rightarrow> int \<Rightarrow> JournalRecord \<Rightarrow> bool" where
  "record_ok E c r \<longleftrightarrow>
     parse_optional_address E (jr_To r) = Inr (jr_To r) \<and> validateJournalRecord E r c = Inr r"

text \<open>A version that wrapped around to 0 is read back as 1.\<close>

definition norm_version :: "JournalRecord \<Rightarrow> JournalRecord" where
  "norm_version r = r\<lparr>jr_Version := (if jr_Version r = 0 then 1 else jr_Version r)\<rparr>"

definition same_payload :: "JournalRecord \<Rightarrow> JournalRecord \<Rightarrow> bool" where
  "same_payload r s \<longleftrightarrow>
     jr_QuoteID s = jr_QuoteID r \<and> jr_Hash s = jr_Hash r \<and> jr_To s = jr_To r \<and>
     jr_Action s = jr_Action r \<and> jr_SignedRaw s = jr_SignedRaw r \<and> jr_OrderID s = jr_OrderID r \<and>
     jr_EscrowAction s = jr_EscrowAction r \<and> jr_EscrowBuyer s = jr_EscrowBuyer r \<and>
     jr_EscrowContract s = jr_EscrowContract r \<and> jr_Nonce s = jr_Nonce r \<and>
     jr_Amount s = jr_Amount r \<and> jr_AmountRaw s = jr_AmountRaw r \<and> jr_Symbol s = jr_Symbol r \<and>
     jr_CreatedAt s = jr_CreatedAt r"

lemma same_payload_refl [simp]: "same_payload r r"
  by (simp add: same_payload_def)

lemma same_payload_trans: "same_payload r s \<Longrightarrow> same_payload s t \<Longrightarrow> same_payload r t"
  by (simp add: same_payload_def)

lemma same_payload_sym: "same_payload r s \<Longrightarrow> same_payload s r"
  by (simp add: same_payload_def)

lemma restore_payload:
  assumes "restoreEscrowJournal E r tx = Inr r" and "same_payload r s"
  shows "restoreEscrowJournal E s tx = Inr s"
  using assms unfolding restoreEscrowJournal_def same_payload_def Let_def
  by (cases r; cases s; cases "decodeEscrowTransaction E tx") (auto split: option.splits if_splits)

lemma record_ok_payload:
  assumes "record_ok E c r" and "same_payload r s"
  shows "record_ok E c s"
proof -
  have "signed_tx E s = signed_tx E r" using assms(2) by (simp add: same_payload_def signed_tx_def)
  with assms show ?thesis
    using restore_payload [OF _ assms(2)] by (auto simp: record_ok_def validate_iff same_payload_def)
qed

lemma record_ok_hash: "record_ok E c r \<Longrightarrow> hash_pattern (jr_Hash r)"
  by (simp add: record_ok_def validate_iff)

lemma record_ok_signed:
  "record_ok E c r \<Longrightarrow> \<exists>tx. signed_tx E r = Some tx \<and> tx_hash tx = jr_Hash r \<and> tx_chain tx = c"
  by (auto simp: record_ok_def validate_iff)

text \<open>Validation is idempotent, so what it accepts is well formed afterwards.\<close>

lemma validate_record_ok:
  assumes "eth_hash_laws E" and "validateJournalRecord E r c = Inr r'"
    and "parse_optional_address E (jr_To r) = Inr (jr_To r)"
  shows "record_ok E c r'"
proof -
  from assms(2) obtain tx where tx: "signed_tx E r = Some tx" "tx_hash tx = jr_Hash r" "tx_chain tx = c"
    "restoreEscrowJournal E r tx = Inr r'"
    by (auto simp: validate_iff)
  have r': "r' = escrow_fields r (jr_OrderID r') (jr_EscrowAction r') (jr_EscrowBuyer r') (jr_EscrowContract r')"
    by (rule restore_fields [OF tx(4)])
  have "signed_tx E r' = Some tx" "jr_Hash r' = jr_Hash r"
      "jr_To r' = jr_To r" "jr_QuoteID r' = jr_QuoteID r" "jr_Action r' = jr_Action r"
    using tx(1) by (subst r'; simp add: signed_tx_def escrow_fields_def)+
  moreover have "restoreEscrowJournal E r' tx = Inr r'"
    using restore_idem [OF assms(1) tx(4) refl calculation(5)] by (simp add: escrow_fields_def)
  ultimately show ?thesis using assms tx by (simp add: record_ok_def validate_iff)
qed

lemma parse_optional_address_idem:
  "eth_hex_laws E \<Longrightarrow> parse_optional_address E s = Inr t \<Longrightarrow> parse_optional_address E t = Inr t"
  using ParseEVMAddress_canonical [of E s t] by (auto simp: parse_optional_address_def split: if_splits)

text \<open>What is loaded from disk is well formed, and a well-formed record survives the disk.\<close>

lemma fromDisk_record_ok:
  assumes "eth_hash_laws E" and "eth_hex_laws E" and "journalRecordFromDisk E d c = Inr r"
  shows "record_ok E c r" and "jr_Version r \<noteq> 0"
proof -
  from assms(3) obtain x q where d: "d = Some x" and v: "validateJournalRecord E q c = Inr r"
    and t: "parse_optional_address E (jd_To x) = Inr (jr_To q)" and q: "jr_Version q \<noteq> 0"
    by (auto simp: journalRecordFromDisk_def ebind_eq_Inr Let_def split: option.splits if_splits)
  from v parse_optional_address_idem [OF assms(2) t] show "record_ok E c r"
    by (rule validate_record_ok [OF assms(1)])
  from v obtain tx where "restoreEscrowJournal E q tx = Inr r" by (auto simp: validate_iff)
  from restore_fields [OF this] have "jr_Version r = jr_Version q"
    by (metis escrow_fields_version)
  with q show "jr_Version r \<noteq> 0" by simp
qed

lemma record_disk_parse:
  assumes "eth_hash_laws E" and "record_ok E c r"
  shows "journalRecordFromDisk E (Some (journalRecordToDisk r)) c = Inr (norm_version r)"
proof -
  let ?s = "escrow_fields (norm_version r) (jr_OrderID r) None [] []"
  from assms(2) obtain tx where tx: "signed_tx E r = Some tx" "tx_hash tx = jr_Hash r" "tx_chain tx = c"
    "restoreEscrowJournal E r tx = Inr r"
    and ids: "ParseLegacyQuoteID (jr_QuoteID r) = Inr (jr_QuoteID r)"
      "ParseTransactionHash (jr_Hash r) = Inr (jr_Hash r)"
      "parse_optional_address E (jr_To r) = Inr (jr_To r)"
    by (auto simp: record_ok_def validate_iff ParseLegacyQuoteID_iff ParseTransactionHash_iff)
  have "restoreEscrowJournal E ?s tx = Inr (norm_version r)"
    using restore_idem [OF assms(1) tx(4), of ?s] by (simp add: escrow_fields_def norm_version_def)
  moreover have "signed_tx E ?s = Some tx"
    using tx(1) by (simp add: signed_tx_def escrow_fields_def norm_version_def)
  ultimately have "validateJournalRecord E ?s c = Inr (norm_version r)"
    using assms(2) tx by (auto simp: validate_iff record_ok_def escrow_fields_def norm_version_def)
  then show ?thesis using ids
    by (cases r) (simp add: journalRecordFromDisk_def journalRecordToDisk_def
        escrow_fields_def norm_version_def Let_def cong: if_cong)
qed

text \<open>
  A well-formed journal record written to disk is read back exactly as it was in memory,
  escrow fields included, although those are not stored; only a version that wrapped around
  to 0 comes back as 1.
\<close>

theorem record_disk_roundtrip:
  assumes "eth_hash_laws E" and "record_ok E c r"
  shows "journalRecordFromDisk E (Some (journalRecordToDisk r)) c = Inr (norm_version r)"
  using assms by (rule record_disk_parse)

text \<open>
  A sample for closed instances: a library that signs one transaction, and its record.
\<close>

definition sample_hash :: string where
  "sample_hash = ''0x'' @ replicate 64 (CHR ''a'')"

definition sample_dynamic :: dynamic_tx where
  "sample_dynamic = \<lparr> dt_chain = 11155111, dt_nonce = 7, dt_tip = 1, dt_fee = 30, dt_gas = 21000,
     dt_to = 9, dt_value = 1000, dt_data = [] \<rparr>"

definition sample_tx :: eth_tx where
  "sample_tx = \<lparr> tx_hash = sample_hash, tx_chain = 11155111, tx_nonce = 7, tx_type = 2, tx_to = Some 9,
     tx_value = 1000, tx_data = [], tx_gas = 21000, tx_tip = 1, tx_fee = 30, tx_access = 0 \<rparr>"

definition sample_lib :: "address ethlib" where
  "sample_lib = sample_eth
     \<lparr>TxUnmarshal := (\<lambda>bs. if bs = [2] then Some sample_tx else None),
      TxMarshal := (\<lambda>t. if t = sample_tx then Inr [2] else Inl (ErrExt ''marshal'')),
      TxSender := (\<lambda>t. Some 5),
      SignTx := (\<lambda>d k. if d = sample_dynamic \<and> k = 5 then Inr sample_tx else Inl (ErrExt ''sign''))\<rparr>"

lemma sample_lib_hex [simp]: "eth_hex_laws sample_lib"
  using sample_eth_hex_laws by (simp add: eth_hex_laws_def sample_lib_def)

lemma sample_lib_hash [simp]: "eth_hash_laws sample_lib"
  using sample_eth_hash_laws by (simp add: eth_hash_laws_def sample_lib_def)

lemma sample_hash_pattern [simp]: "hash_pattern sample_hash"
  by (simp add: sample_hash_def hash_pattern_def has_prefix_def list_all_replicateI is_hex_def)

lemma sample_lib_codec [simp]:
  "HexutilDecode sample_lib (sample_hex bs) = Some bs" "HexutilEncode sample_lib bs = sample_hex bs"
  by (simp_all add: sample_lib_def sample_eth_def)

lemma sample_lib_tx [simp]: "eth_tx_laws sample_lib"
proof -
  have "PubkeyAddress sample_lib k = k" for k by (simp add: sample_lib_def sample_eth_def)
  then show ?thesis using sample_hash_pattern
    by (simp add: eth_tx_laws_def hash_pattern_def)
       (simp add: sample_lib_def sample_tx_def sample_dynamic_def)
qed

definition sample_record :: JournalRecord where
  "sample_record =
     \<lparr> jr_OrderID = [], jr_EscrowAction = None, jr_EscrowBuyer = [], jr_EscrowContract = [],
       jr_Finalized = False, jr_Hash = sample_hash, jr_QuoteID = replicate 32 (CHR ''1''),
       jr_State = JournalPending, jr_To = AddressHex sample_lib 9, jr_Amount = ''0.000000000000001'',
       jr_AmountRaw = ''1000'', jr_Symbol = ''ETH'', jr_Action = Some ActionETH, jr_Nonce = 7,
       jr_SignedRaw = sample_hex [2], jr_CreatedAt = 1700000000000000000,
       jr_UpdatedAt = 1700000000000000000, jr_Confirmations = [], jr_FeeETH = [], jr_Error = [],
       jr_Version = 1 \<rparr>"

lemma sample_signed: "jr_SignedRaw r = sample_hex [2] \<Longrightarrow> signed_tx sample_lib r = Some sample_tx"
  by (simp add: signed_tx_def) (simp add: sample_lib_def)

lemma parse_optional_canonical:
  "eth_hex_laws E \<Longrightarrow> a \<noteq> 0 \<Longrightarrow> parse_optional_address E (AddressHex E a) = Inr (AddressHex E a)"
  by (simp add: parse_optional_address_def ParseEVMAddress_def ValidateAddress_canonical)

lemma sample_record_ok: "record_ok sample_lib 11155111 sample_record"
proof -
  have "parse_optional_address sample_lib (jr_To sample_record) = Inr (jr_To sample_record)"
    by (simp add: sample_record_def parse_optional_canonical)
  moreover have "signed_tx sample_lib sample_record = Some sample_tx"
    by (rule sample_signed) (simp add: sample_record_def)
  moreover have "restoreEscrowJournal sample_lib sample_record sample_tx = Inr sample_record"
    by (simp add: restoreEscrowJournal_def decodeEscrowTransaction_def sample_tx_def sample_record_def
        isEscrowAction_def)
  ultimately show ?thesis
    by (simp add: record_ok_def validate_iff) (simp add: sample_record_def sample_tx_def)
qed

theorem record_disk_roundtrip_witness:
  "journalRecordFromDisk sample_lib (Some (journalRecordToDisk sample_record)) 11155111 = Inr sample_record"
  using record_disk_roundtrip [OF sample_lib_hash sample_record_ok]
  by (simp add: norm_version_def sample_record_def)

end
