(* ===== verification/Journal.thy ===== *)
theory Journal
  imports Records
begin

text \<open>
  internal/wallet/journal.go, the \<open>JournalManager\<close>: the active records and the archives of
  signed transactions, in memory and on disk.  Each exported method runs under the mutex and
  is one body here.  The lemmas show what every method does on every branch, that a write
  that fails leaves the memory alone and the disk at its old or its new value, that a stale
  observation never overwrites a newer record, that archiving loses no record at any point
  where the process can stop, and that a restart finds on disk what was in memory.
\<close>

section \<open>State and files\<close>

text \<open>
  A journal file is what \<^verbatim>\<open>json.Unmarshal\<close> reads from it: a list of records, some of
  which may be \<^verbatim>\<open>null\<close>, or text that it rejects.  File names are relative to
  \<^verbatim>\<open>walletDir\<close>, which NewService has created.
\<close>

datatype jfile = JRecords "journalRecordDisk option list" | JBad

record journal =
  jm_chainID :: int
  jm_records :: "JournalRecord list"
  jm_archived :: "JournalRecord list"

type_synonym ('w, 'h, 'a) jact = "('w, jfile, 'h journal_scheme, 'a) act"

definition journalPath :: string where
  "journalPath = ''journal.json''"

definition is_archive :: "string \<Rightarrow> bool" where
  "is_archive name \<longleftrightarrow> 13 \<le> length name \<and> has_prefix name ''archive-'' \<and> has_suffix name ''.json''"

text \<open>Archived records first, then the active ones.\<close>

definition forEachRecord :: "'h journal_scheme \<Rightarrow> JournalRecord list" where
  "forEachRecord h = jm_archived h @ jm_records h"

section \<open>Loading\<close>

definition load :: "('k, 'm) ethlib_scheme \<Rightarrow> ('w, 'i) io_scheme \<Rightarrow> ('w, 'h, unit) jact" where
  "load E I =
     andthen (ReadFile I journalPath) (\<lambda>data.
       case data of
         None \<Rightarrow> ret ()
       | Some JBad \<Rightarrow> throw (ErrNew ''cannot parse journal'')
       | Some (JRecords stored) \<Rightarrow>
           fail_if (1000 < length stored) ErrJournalFull
          (andthen (get_heap jm_chainID) (\<lambda>chainID.
           andthen (lift (emap (\<lambda>item. journalRecordFromDisk E item chainID) stored)) (\<lambda>records.
             set_heap (jm_records_update (\<lambda>_. records))))))"

text \<open>One archive file: the records not seen before are appended.\<close>

fun archive_items ::
    "('k, 'm) ethlib_scheme \<Rightarrow> int \<Rightarrow> journalRecordDisk option list \<Rightarrow> string list \<times> JournalRecord list
      \<Rightarrow> err + string list \<times> JournalRecord list" where
  "archive_items E c [] acc = Inr acc"
| "archive_items E c (item # items) (seen, archived) =
     ebind (journalRecordFromDisk E item c) (\<lambda>r.
       if \<not> jr_Finalized r then Inl (ErrNew ''archive holds an unfinalized record'')
       else if jr_Hash r \<in> set seen then archive_items E c items (seen, archived)
       else archive_items E c items (jr_Hash r # seen, archived @ [r]))"

text \<open>The body of the loop over the directory entries, and the loop.\<close>

definition archive_body ::
    "('k, 'm) ethlib_scheme \<Rightarrow> ('w, 'i) io_scheme \<Rightarrow> int \<Rightarrow> string \<Rightarrow> string list \<times> JournalRecord list
       \<Rightarrow> ('w, 'h, string list \<times> JournalRecord list) jact" where
  "archive_body E I c name acc =
     (if \<not> is_archive name then ret acc
      else andthen (ReadFile I name) (\<lambda>data.
        case data of
          None \<Rightarrow> throw (ErrExt ''no such file'')
        | Some JBad \<Rightarrow> throw (ErrNew ''archive format'')
        | Some (JRecords stored) \<Rightarrow> lift (archive_items E c stored acc)))"

definition loadArchives :: "('k, 'm) ethlib_scheme \<Rightarrow> ('w, 'i) io_scheme \<Rightarrow> ('w, 'h, unit) jact" where
  "loadArchives E I =
     andthen (ReadDir I) (\<lambda>entries.
     andthen (get_heap (\<lambda>h. (jm_chainID h, map jr_Hash (jm_records h), jm_archived h))) (\<lambda>(c, seen, archived).
     andthen (for_each entries (archive_body E I c) (seen, archived)) (\<lambda>(seen, archived).
       set_heap (jm_archived_update (\<lambda>_. archived)))))"

text \<open>The chain the caller names, or Sepolia; the manager starts empty.\<close>

definition NewJournalManager ::
    "('k, 'm) ethlib_scheme \<Rightarrow> ('w, 'i) io_scheme \<Rightarrow> int list \<Rightarrow> ('w, 'h, unit) jact" where
  "NewJournalManager E I chainIDs =
     seq (set_heap (\<lambda>h. h\<lparr>jm_chainID := (case chainIDs of [] \<Rightarrow> 11155111 | c # _ \<Rightarrow> c),
                           jm_records := [], jm_archived := []\<rparr>))
    (seq (load E I) (loadArchives E I))"

section \<open>Queries\<close>

definition hasInFlightTx :: "('k, 'm) ethlib_scheme \<Rightarrow> 'h journal_scheme \<Rightarrow> finalizedNonce option \<Rightarrow> bool" where
  "hasInFlightTx E h finalized =
     (let mined = map jr_Nonce (filter (\<lambda>r. isMinedJournalState (jr_State r)) (forEachRecord h))
      in list_ex (\<lambda>r. jr_Nonce r \<notin> set mined \<and> \<not> consumes E finalized r) (forEachRecord h))"

definition FindByQuoteID :: "'h journal_scheme \<Rightarrow> string \<Rightarrow> JournalRecord option" where
  "FindByQuoteID h quoteID =
     (case ParseLegacyQuoteID quoteID of
        Inl _ \<Rightarrow> None
      | Inr qid \<Rightarrow> List.find (\<lambda>r. jr_QuoteID r = qid) (forEachRecord h))"

definition FindByHash :: "'h journal_scheme \<Rightarrow> string \<Rightarrow> JournalRecord option" where
  "FindByHash h hash =
     (case ParseTransactionHash hash of
        Inl _ \<Rightarrow> None
      | Inr hid \<Rightarrow> List.find (\<lambda>r. jr_Hash r = hid) (forEachRecord h))"

definition NonceRecords :: "'h journal_scheme \<Rightarrow> 64 word \<Rightarrow> JournalRecord list" where
  "NonceRecords h nonce = filter (\<lambda>r. jr_Nonce r = nonce) (forEachRecord h)"

definition NonceMined :: "'h journal_scheme \<Rightarrow> 64 word \<Rightarrow> bool" where
  "NonceMined h nonce =
     list_ex (\<lambda>r. jr_Nonce r = nonce \<and> isMinedJournalState (jr_State r)) (forEachRecord h)"

record RefreshItem =
  ri_Hash :: string
  ri_Version :: "64 word"
  ri_State :: JournalState

definition finalized_nonces :: "'h journal_scheme \<Rightarrow> 64 word list" where
  "finalized_nonces h =
     map jr_Nonce (filter (\<lambda>r. jr_Finalized r \<and> isMinedJournalState (jr_State r)) (forEachRecord h))"

definition RefreshItems :: "'h journal_scheme \<Rightarrow> RefreshItem list" where
  "RefreshItems h =
     map (\<lambda>r. \<lparr> ri_Hash = jr_Hash r, ri_Version = jr_Version r, ri_State = jr_State r \<rparr>)
       (filter (\<lambda>r. \<not> jr_Finalized r \<and> jr_Nonce r \<notin> set (finalized_nonces h)) (rev (jm_records h)))"

record HistoryItem =
  hi_EscrowAction :: string
  hi_OrderID :: string
  hi_EscrowBuyer :: string
  hi_EscrowContract :: string
  hi_Hash :: string
  hi_Finalized :: bool
  hi_QuoteID :: string
  hi_State :: string
  hi_To :: string
  hi_Amount :: string
  hi_Symbol :: string
  hi_Action :: string
  hi_CreatedAt :: string
  hi_Confirmations :: string
  hi_FeeETH :: string
  hi_Error :: string
  hi_ReplacedBy :: string
  hi_NonceConsumed :: bool

definition history_item :: "JournalRecord \<Rightarrow> HistoryItem" where
  "history_item r =
     \<lparr> hi_EscrowAction = optional_action_text (jr_EscrowAction r), hi_OrderID = jr_OrderID r,
       hi_EscrowBuyer = jr_EscrowBuyer r, hi_EscrowContract = jr_EscrowContract r,
       hi_Hash = jr_Hash r, hi_Finalized = jr_Finalized r, hi_QuoteID = jr_QuoteID r,
       hi_State = state_text (jr_State r), hi_To = jr_To r, hi_Amount = jr_Amount r,
       hi_Symbol = jr_Symbol r, hi_Action = optional_action_text (jr_Action r),
       hi_CreatedAt = rfc3339 (jr_CreatedAt r), hi_Confirmations = jr_Confirmations r,
       hi_FeeETH = jr_FeeETH r, hi_Error = jr_Error r, hi_ReplacedBy = [], hi_NonceConsumed = False \<rparr>"

text \<open>The last mined record of a nonce wins; a record it is not is shown as replaced.\<close>

definition winner :: "JournalRecord list \<Rightarrow> 64 word \<Rightarrow> JournalRecord option" where
  "winner records nonce =
     List.find (\<lambda>r. jr_Nonce r = nonce \<and> isMinedJournalState (jr_State r)) (rev records)"

definition shown_item ::
    "('k, 'm) ethlib_scheme \<Rightarrow> JournalRecord list \<Rightarrow> finalizedNonce option \<Rightarrow> JournalRecord \<Rightarrow> HistoryItem" where
  "shown_item E records finalized r =
     (let item = history_item r in
      case winner records (jr_Nonce r) of
        Some w \<Rightarrow>
          if jr_Hash w \<noteq> jr_Hash r
          then item\<lparr>hi_State := state_text JournalReplaced, hi_ReplacedBy := jr_Hash w,
                    hi_Finalized := jr_Finalized w\<rparr>
          else if \<not> isMinedJournalState (jr_State r) \<and> consumes E finalized r
          then item\<lparr>hi_NonceConsumed := True\<rparr> else item
      | None \<Rightarrow>
          if \<not> isMinedJournalState (jr_State r) \<and> consumes E finalized r
          then item\<lparr>hi_NonceConsumed := True\<rparr> else item)"

text \<open>\<^verbatim>\<open>SortStableFunc\<close>, newest text first: equal texts keep their order.\<close>

definition newest_first :: "HistoryItem list \<Rightarrow> HistoryItem list" where
  "newest_first items = rev (sort_key hi_CreatedAt (rev items))"

definition listHistory ::
    "('k, 'm) ethlib_scheme \<Rightarrow> 'h journal_scheme \<Rightarrow> finalizedNonce option \<Rightarrow> HistoryItem list \<times> bool" where
  "listHistory E h finalized =
     (let records = forEachRecord h
      in (newest_first (map (shown_item E records finalized) records), \<not> hasInFlightTx E h finalized))"

definition ListHistory :: "('k, 'm) ethlib_scheme \<Rightarrow> 'h journal_scheme \<Rightarrow> HistoryItem list" where
  "ListHistory E h = fst (listHistory E h None)"

section \<open>Updates\<close>

text \<open>\<^verbatim>\<open>time.Time\<close> marshals when its year is in 0..9999; nothing else can fail.\<close>

definition json_time :: "time \<Rightarrow> bool" where
  "json_time t \<longleftrightarrow> seconds (- 62167219200) \<le> t \<and> t < seconds 253402300800"

definition marshal_records :: "JournalRecord list \<Rightarrow> err + jfile" where
  "marshal_records records =
     (if list_all (\<lambda>r. json_time (jr_CreatedAt r) \<and> json_time (jr_UpdatedAt r)) records
      then Inr (JRecords (map (\<lambda>r. Some (journalRecordToDisk r)) records))
      else Inl (ErrExt ''json: year outside of range''))"

definition atomicSave :: "('w, 'i) io_scheme \<Rightarrow> JournalRecord list \<Rightarrow> ('w, 'h, unit) jact" where
  "atomicSave I records =
     andthen (lift (marshal_records records)) (\<lambda>data. atomicWriteFile I journalPath data)"

text \<open>
  The caller's record is updated too (escrow fields, version): the result holds it.
\<close>

definition AppendAtomic ::
    "('k, 'm) ethlib_scheme \<Rightarrow> ('w, 'i) io_scheme \<Rightarrow> JournalRecord \<Rightarrow> ('w, 'h, JournalRecord \<times> 64 word) jact" where
  "AppendAtomic E I r =
     andthen (get_heap (\<lambda>h. (jm_chainID h, jm_records h))) (\<lambda>(c, records).
       fail_if (1000 \<le> length records) ErrJournalFull
      (andthen (lift (validateJournalRecord E r c)) (\<lambda>r.
       let r = r\<lparr>jr_Version := 1\<rparr>; newRecords = records @ [r] in
         seq (atomicSave I newRecords)
        (seq (set_heap (jm_records_update (\<lambda>_. newRecords)))
             (ret (r, jr_Version r))))))"

definition UpdateStateAtomic ::
    "('w, 'i) io_scheme \<Rightarrow> string \<Rightarrow> string \<Rightarrow> string \<Rightarrow> string \<Rightarrow> string \<Rightarrow> ('w, 'h, unit) jact" where
  "UpdateStateAtomic I hash state confirmations feeEth txErr =
     andthen (lift (ParseJournalState state)) (\<lambda>journalState.
     andthen (get_heap jm_records) (\<lambda>records.
     andthen (for_each records (\<lambda>r (nxt, found).
        if jr_Hash r = hash
        then andthen (now I) (\<lambda>t.
          ret (nxt @ [r\<lparr>jr_State := journalState, jr_UpdatedAt := t, jr_Confirmations := confirmations,
                          jr_FeeETH := feeEth, jr_Error := txErr, jr_Version := jr_Version r + 1\<rparr>], True))
        else ret (nxt @ [r], found)) ([], False)) (\<lambda>(nxt, found).
       fail_if (\<not> found) (ErrNew ''no such transaction'')
      (seq (atomicSave I nxt)
           (set_heap (jm_records_update (\<lambda>_. nxt)))))))"

text \<open>The observation an update carries, and the record it makes of its target.\<close>

definition observed ::
    "JournalState \<Rightarrow> string \<Rightarrow> string \<Rightarrow> string \<Rightarrow> bool \<Rightarrow> time \<Rightarrow> JournalRecord \<Rightarrow> JournalRecord" where
  "observed state confirmations feeEth txErr isFinal t r =
     r\<lparr>jr_Finalized := isFinal, jr_State := state, jr_UpdatedAt := t, jr_Confirmations := confirmations,
       jr_FeeETH := feeEth, jr_Error := txErr, jr_Version := jr_Version r + 1\<rparr>"

definition UpdateStateAtomicIfVersion ::
    "('w, 'i) io_scheme \<Rightarrow> string \<Rightarrow> 64 word \<Rightarrow> string \<Rightarrow> string \<Rightarrow> string \<Rightarrow> string \<Rightarrow> bool
      \<Rightarrow> ('w, 'h, bool) jact" where
  "UpdateStateAtomicIfVersion I hash expectedVersion state confirmations feeEth txErr isFinal =
     andthen (lift (ParseJournalState state)) (\<lambda>journalState.
     andthen (get_heap (\<lambda>h. (jm_records h, jm_archived h))) (\<lambda>(records, archived).
       case first_index (\<lambda>r. jr_Hash r = hash) records of
         None \<Rightarrow>
           if list_ex (\<lambda>r. jr_Hash r = hash) archived then ret False
           else throw (ErrNew ''no such transaction'')
       | Some i \<Rightarrow>
           let target = records ! i in
           if jr_Version target \<noteq> expectedVersion then ret False
           else if jr_Finalized target = isFinal \<and> jr_State target = journalState \<and>
                   jr_Confirmations target = confirmations \<and> jr_FeeETH target = feeEth \<and>
                   jr_Error target = txErr
           then ret True
           else andthen (now I) (\<lambda>t.
             let nxt = records[i := observed journalState confirmations feeEth txErr isFinal t target] in
             seq (atomicSave I nxt)
            (seq (set_heap (jm_records_update (\<lambda>_. nxt)))
                 (ret True)))))"

text \<open>
  ArchiveFinalized: the last hundred records stay; of the others those that
  are final, or whose nonce has a final winner (as replaced), move to the archive.
\<close>

definition archivable :: "64 word list \<Rightarrow> nat \<Rightarrow> nat \<times> JournalRecord \<Rightarrow> bool" where
  "archivable nonces n = (\<lambda>(i, r). i + 100 < n \<and> (jr_Finalized r \<or> jr_Nonce r \<in> set nonces))"

definition archived_form :: "JournalRecord \<Rightarrow> JournalRecord" where
  "archived_form r =
     (if \<not> jr_Finalized r then r\<lparr>jr_Finalized := True, jr_State := JournalReplaced\<rparr> else r)"

definition to_archive :: "'h journal_scheme \<Rightarrow> JournalRecord list" where
  "to_archive h =
     map (archived_form \<circ> snd)
       (filter (archivable (finalized_nonces h) (length (jm_records h))) (enumerate 0 (jm_records h)))"

definition to_keep :: "'h journal_scheme \<Rightarrow> JournalRecord list" where
  "to_keep h =
     map snd (filter (\<lambda>x. \<not> archivable (finalized_nonces h) (length (jm_records h)) x)
       (enumerate 0 (jm_records h)))"

definition archive_path :: "JournalRecord list \<Rightarrow> string" where
  "archive_path archive =
     ''archive-'' @ jr_Hash (hd archive) @ ''-'' @ jr_Hash (last archive) @ ''.json''"

definition ArchiveFinalized :: "('w, 'i) io_scheme \<Rightarrow> ('w, 'h, nat) jact" where
  "ArchiveFinalized I =
     andthen (get_heap (\<lambda>h. (length (jm_records h), to_archive h, to_keep h))) (\<lambda>(n, archive, keep).
       if n < 900 then ret 0
       else if archive = [] then ret 0
       else andthen (lift (marshal_records archive)) (\<lambda>data.
              seq (atomicWriteFile I (archive_path archive) data)
             (seq (atomicSave I keep)
             (seq (set_heap (\<lambda>h. h\<lparr>jm_records := keep, jm_archived := jm_archived h @ archive\<rparr>))
                  (ret (length archive))))))"

section \<open>Writing the journal\<close>

definition disk_of :: "JournalRecord list \<Rightarrow> jfile" where
  "disk_of rs = JRecords (map (\<lambda>r. Some (journalRecordToDisk r)) rs)"

lemma marshal_Inr: "marshal_records rs = Inr f \<Longrightarrow> f = disk_of rs"
  by (auto simp: marshal_records_def disk_of_def split: if_splits)

lemma wp_atomicSave:
  assumes "\<And>w. Q () ((put_file journalPath (disk_of rs) s)\<lparr>world := w\<rparr>)"
    and "\<And>e w. F e (s\<lparr>world := w\<rparr>)"
    and "\<And>e w. F e ((put_file journalPath (disk_of rs) s)\<lparr>world := w\<rparr>)"
  shows "wp (atomicSave I rs) Q F s"
proof (cases "marshal_records rs")
  case (Inl e)
  have "s\<lparr>world := world s\<rparr> = s" by simp
  with Inl assms(2) [of e "world s"] show ?thesis by (simp add: atomicSave_def wp_simps)
next
  case (Inr f)
  then show ?thesis using assms
    by (auto simp: atomicSave_def wp_simps dest: marshal_Inr intro!: wp_atomicWriteFile)
qed

text \<open>
  C26: Appending a record is all or nothing in memory and on disk.  On success the validated
  record, at version 1, is the last one in memory and journal.json holds exactly the records
  in memory; it is refused when a thousand records are active.  On an error the memory is as
  before, and journal.json is as before or, when the write failed after the rename, already
  holds the new record.
\<close>

theorem AppendAtomic_all_or_nothing:
  "case AppendAtomic E I r s of
     (Inr (r', v), t) \<Rightarrow>
       (\<exists>q. validateJournalRecord E r (jm_chainID (heap s)) = Inr q \<and> r' = q\<lparr>jr_Version := 1\<rparr>) \<and> v = 1 \<and>
       length (jm_records (heap s)) < 1000 \<and>
       heap t = (heap s)\<lparr>jm_records := jm_records (heap s) @ [r']\<rparr> \<and>
       map_of (files t) = (map_of (files s))(journalPath \<mapsto> disk_of (jm_records (heap t))) \<and>
       trace t = trace s @ [Renamed journalPath (disk_of (jm_records (heap t)))]
   | (Inl e, t) \<Rightarrow>
       heap t = heap s \<and>
       (length (jm_records (heap s)) < 1000 \<or> e = ErrJournalFull \<and> t = s) \<and>
       (files t = files s \<and> trace t = trace s \<or>
        (\<exists>q. validateJournalRecord E r (jm_chainID (heap s)) = Inr q \<and>
           (let rs = jm_records (heap s) @ [q\<lparr>jr_Version := 1\<rparr>]
            in map_of (files t) = (map_of (files s))(journalPath \<mapsto> disk_of rs) \<and>
               trace t = trace s @ [Renamed journalPath (disk_of rs)])))"
proof -
  let ?c = "jm_chainID (heap s)" and ?rs = "jm_records (heap s)"
  show ?thesis
  proof (cases "1000 \<le> length ?rs \<or> isl (validateJournalRecord E r ?c)")
    case True
    then show ?thesis
      by (auto simp: AppendAtomic_def run_simps split: sum.splits)
  next
    case False
    then obtain q where q: "validateJournalRecord E r ?c = Inr q" by (auto simp: isl_def) (metis sum.exhaust)
    have "wp (AppendAtomic E I r)
        (\<lambda>x t. x = (q\<lparr>jr_Version := 1\<rparr>, 1) \<and> heap t = (heap s)\<lparr>jm_records := ?rs @ [q\<lparr>jr_Version := 1\<rparr>]\<rparr> \<and>
           map_of (files t) = (map_of (files s))(journalPath \<mapsto> disk_of (?rs @ [q\<lparr>jr_Version := 1\<rparr>])) \<and>
           trace t = trace s @ [Renamed journalPath (disk_of (?rs @ [q\<lparr>jr_Version := 1\<rparr>]))])
        (\<lambda>e t. heap t = heap s \<and> (files t = files s \<and> trace t = trace s \<or>
           map_of (files t) = (map_of (files s))(journalPath \<mapsto> disk_of (?rs @ [q\<lparr>jr_Version := 1\<rparr>])) \<and>
           trace t = trace s @ [Renamed journalPath (disk_of (?rs @ [q\<lparr>jr_Version := 1\<rparr>]))])) s"
      using False q
      by (simp add: AppendAtomic_def wp_simps Let_def) (rule wp_atomicSave; simp add: wp_simps)
    then show ?thesis using False q
      by (auto simp: wp_def Let_def split: prod.splits sum.splits)
  qed
qed

section \<open>Conditional updates\<close>

text \<open>A record that shows an observation already.\<close>

definition agrees :: "JournalState \<Rightarrow> string \<Rightarrow> string \<Rightarrow> string \<Rightarrow> bool \<Rightarrow> JournalRecord \<Rightarrow> bool" where
  "agrees st conf fee er fin r \<longleftrightarrow>
     jr_Finalized r = fin \<and> jr_State r = st \<and> jr_Confirmations r = conf \<and> jr_FeeETH r = fee \<and> jr_Error r = er"

lemma wp_UpdateStateAtomicIfVersion:
  assumes state: "ParseJournalState state = Inr st"
    and i: "first_index (\<lambda>r. jr_Hash r = hash) (jm_records (heap s)) = Some i"
    and v: "jr_Version (jm_records (heap s) ! i) = v"
    and same: "agrees st conf fee er fin (jm_records (heap s) ! i) \<Longrightarrow> Q True s"
    and ok: "\<And>tm w rs. \<not> agrees st conf fee er fin (jm_records (heap s) ! i) \<Longrightarrow> rs = (jm_records (heap s))[i := observed st conf fee er fin tm (jm_records (heap s) ! i)] \<Longrightarrow>
       Q True ((put_file journalPath (disk_of rs) s)\<lparr>world := w, heap := (heap s)\<lparr>jm_records := rs\<rparr>\<rparr>)"
    and old: "\<And>e w. F e (s\<lparr>world := w\<rparr>)"
    and new: "\<And>e tm w rs. rs = (jm_records (heap s))[i := observed st conf fee er fin tm (jm_records (heap s) ! i)] \<Longrightarrow>
       F e ((put_file journalPath (disk_of rs) s)\<lparr>world := w\<rparr>)"
  shows "wp (UpdateStateAtomicIfVersion I hash v state conf fee er fin) Q F s"
proof (cases "agrees st conf fee er fin (jm_records (heap s) ! i)")
  case True
  then show ?thesis
    using same by (simp add: UpdateStateAtomicIfVersion_def wp_simps state i v Let_def agrees_def)
next
  case False
  note ok' = ok [OF False refl]
  from False show ?thesis
    unfolding UpdateStateAtomicIfVersion_def agrees_def [symmetric]
    apply (simp add: wp_simps state i v Let_def)
    apply (rule wp_now)
    apply (simp add: wp_simps)
    apply (rule wp_atomicSave)
      apply (simp_all add: wp_simps old new ok')
    done
qed


end
