(* ===== verification/JournalDisk.thy ===== *)
theory JournalDisk
  imports Journal
begin

text \<open>
  What the journal keeps on disk while it runs: an invariant between the memory and the files
  of a \<open>JournalManager\<close> that every operation keeps whether it succeeds or fails, so that it
  also holds wherever the process stops; and what a restart finds.
\<close>

section \<open>The invariant\<close>

text \<open>
  journal.json holds every active record with its payload (the state may be older or, after a
  failed write, newer), or exactly the records to keep when archiving has written the
  archive file and stopped before it changed the memory.  Every archived record is in an
  archive file named after a hash that is itself archived.  Every file can be loaded.
\<close>

definition covers :: "JournalRecord list \<Rightarrow> JournalRecord list \<Rightarrow> bool" where
  "covers xs ys \<longleftrightarrow> (\<forall>r\<in>set xs. \<exists>d\<in>set ys. same_payload r d)"

definition half_archived ::
    "'h journal_scheme \<Rightarrow> (string \<times> jfile) list \<Rightarrow> JournalRecord list \<Rightarrow> bool" where
  "half_archived h fs rs \<longleftrightarrow>
     to_archive h \<noteq> [] \<and> rs = to_keep h \<and>
     map_of fs (archive_path (to_archive h)) = Some (disk_of (to_archive h))"

definition list_ok :: "('k, 'm) ethlib_scheme \<Rightarrow> int \<Rightarrow> JournalRecord list \<Rightarrow> bool" where
  "list_ok E c rs \<longleftrightarrow> (\<forall>r\<in>set rs. record_ok E c r) \<and> distinct (map jr_Hash rs)"

definition active_on_disk ::
    "('k, 'm) ethlib_scheme \<Rightarrow> 'h journal_scheme \<Rightarrow> (string \<times> jfile) list \<Rightarrow> bool" where
  "active_on_disk E h fs \<longleftrightarrow>
     (case map_of fs journalPath of
        None \<Rightarrow> jm_records h = []
      | Some f \<Rightarrow> \<exists>rs. f = disk_of rs \<and> length rs \<le> 1000 \<and> list_ok E (jm_chainID h) rs \<and>
          jr_Hash ` set rs \<inter> jr_Hash ` set (jm_archived h) = {} \<and>
          (covers (jm_records h) rs \<or> half_archived h fs rs))"

definition archived_on_disk :: "'h journal_scheme \<Rightarrow> (string \<times> jfile) list \<Rightarrow> bool" where
  "archived_on_disk h fs \<longleftrightarrow>
     (\<forall>r\<in>set (jm_archived h). \<exists>a\<in>set (jm_archived h). \<exists>name rs.
        is_archive name \<and> has_prefix name (''archive-'' @ jr_Hash a @ ''-'') \<and>
        map_of fs name = Some (disk_of rs) \<and> (\<exists>d\<in>set rs. same_payload r d))"

definition archives_ok ::
    "('k, 'm) ethlib_scheme \<Rightarrow> 'h journal_scheme \<Rightarrow> (string \<times> jfile) list \<Rightarrow> bool" where
  "archives_ok E h fs \<longleftrightarrow>
     (\<forall>name f. is_archive name \<longrightarrow> map_of fs name = Some f \<longrightarrow>
        (\<exists>rs. f = disk_of rs \<and>
           (\<forall>d\<in>set rs. record_ok E (jm_chainID h) d \<and> jr_Finalized d \<and>
              (\<exists>r\<in>set (forEachRecord h). same_payload r d))))"

definition memory_ok :: "('k, 'm) ethlib_scheme \<Rightarrow> 'h journal_scheme \<Rightarrow> bool" where
  "memory_ok E h \<longleftrightarrow> list_ok E (jm_chainID h) (forEachRecord h) \<and> length (jm_records h) \<le> 1000"

definition durable :: "('k, 'm) ethlib_scheme \<Rightarrow> ('w, jfile, 'h journal_scheme) sys \<Rightarrow> bool" where
  "durable E s \<longleftrightarrow>
     memory_ok E (heap s) \<and> active_on_disk E (heap s) (files s) \<and>
     archived_on_disk (heap s) (files s) \<and> archives_ok E (heap s) (files s)"

lemma covers_refl [simp]: "covers rs rs"
  unfolding covers_def using same_payload_refl by blast

lemma covers_append: "covers xs ys \<Longrightarrow> covers xs (ys @ zs)"
  by (auto simp: covers_def)

text \<open>No record of the first memory is missing from the second one.\<close>

definition remembers :: "'h journal_scheme \<Rightarrow> 'h journal_scheme \<Rightarrow> bool" where
  "remembers h h' \<longleftrightarrow>
     jm_chainID h' = jm_chainID h \<and>
     (\<forall>r\<in>set (forEachRecord h). \<exists>r'\<in>set (forEachRecord h'). same_payload r r')"

lemma remembers_refl [simp]: "remembers h h"
  unfolding remembers_def using same_payload_refl by blast

lemma remembers_trans: "remembers h h' \<Longrightarrow> remembers h' h'' \<Longrightarrow> remembers h h''"
  unfolding remembers_def by (metis same_payload_trans)

definition never_forgets ::
    "('w, jfile, 'h journal_scheme) sys \<Rightarrow> ('w, jfile, 'h journal_scheme) sys \<Rightarrow> bool" where
  "never_forgets s t \<longleftrightarrow> remembers (heap s) (heap t)"

interpretation remembering: effect never_forgets
  by unfold_locales (auto simp: never_forgets_def intro: remembers_trans)

interpretation durability: kept "durable E" for E :: "('k, 'm) ethlib_scheme"
  by unfold_locales

section \<open>Consequences of the shape of names\<close>

lemma journalPath_not_archive [simp]: "\<not> is_archive journalPath"
  by (simp add: is_archive_def journalPath_def has_prefix_def)

lemma has_prefix_append: "has_prefix s p \<longleftrightarrow> (\<exists>q. s = p @ q)"
  by (metis append_eq_conv_conj append_take_drop_id has_prefix_def)

lemma archive_prefix_inj:
  assumes "has_prefix name (''archive-'' @ a @ ''-'')" and "has_prefix name (''archive-'' @ b @ ''-'')"
    and "length a = length b"
  shows "a = b"
  using assms by (auto simp: has_prefix_append)

lemma archive_path_prefix:
  "rs \<noteq> [] \<Longrightarrow> has_prefix (archive_path rs) (''archive-'' @ jr_Hash (hd rs) @ ''-'')"
  by (simp add: archive_path_def has_prefix_append)

lemma archive_path_is_archive: "is_archive (archive_path rs)"
proof -
  have "has_suffix (p @ q) q" for p q :: string by (simp add: has_suffix_def)
  from this [of "''archive-'' @ jr_Hash (hd rs) @ ''-'' @ jr_Hash (last rs)" "''.json''"]
  show ?thesis by (simp add: is_archive_def archive_path_def has_prefix_append)
qed

lemma archive_path_not_journal: "archive_path rs \<noteq> journalPath" "journalPath \<noteq> archive_path rs"
  using archive_path_is_archive [of rs] journalPath_not_archive by metis+

section \<open>Writing one file\<close>

lemma durable_world [simp]: "durable E (s\<lparr>world := w\<rparr>) = durable E s"
  by (simp add: durable_def)

text \<open>
  Replacing journal.json keeps the invariant when the new list covers the memory; the
  archives are not touched.
\<close>

lemma archived_put_journal:
  "archived_on_disk h fs \<Longrightarrow> archived_on_disk h (AList.update journalPath f fs)"
  unfolding archived_on_disk_def map_of_put
  by (metis fun_upd_other journalPath_not_archive)

lemma archives_put_journal:
  "archives_ok E h fs \<Longrightarrow> archives_ok E h (AList.update journalPath f fs)"
  unfolding archives_ok_def map_of_put
  by (metis fun_upd_other journalPath_not_archive)

lemma durable_put_journal:
  assumes "memory_ok E h" and "archived_on_disk h (files s)" and "archives_ok E h (files s)"
    and "length rs \<le> 1000" and "list_ok E (jm_chainID h) rs"
    and "jr_Hash ` set rs \<inter> jr_Hash ` set (jm_archived h) = {}"
    and "covers (jm_records h) rs \<or> half_archived h (files s) rs"
  shows "durable E ((put_file journalPath (disk_of rs) s)\<lparr>heap := h\<rparr>)"
proof -
  have "half_archived h (AList.update journalPath f fs) rs = half_archived h fs rs" for f fs
    by (simp add: half_archived_def archive_path_not_journal)
  then have "active_on_disk E h (AList.update journalPath (disk_of rs) (files s))"
    using assms by (auto simp: active_on_disk_def)
  then show ?thesis
    using assms(1) archived_put_journal [OF assms(2)] archives_put_journal [OF assms(3)]
    by (simp add: durable_def)
qed

lemma durable_put_same_heap:
  assumes "durable E s" and "length rs \<le> 1000" and "list_ok E (jm_chainID (heap s)) rs"
    and "jr_Hash ` set rs \<inter> jr_Hash ` set (jm_archived (heap s)) = {}"
    and "covers (jm_records (heap s)) rs \<or> half_archived (heap s) (files s) rs"
  shows "durable E (put_file journalPath (disk_of rs) s)"
  using durable_put_journal [of E "heap s" s rs] assms by (simp add: durable_def)

lemma memory_okD:
  assumes "memory_ok E h"
  shows "r \<in> set (jm_records h) \<Longrightarrow> record_ok E (jm_chainID h) r"
    and "r \<in> set (jm_archived h) \<Longrightarrow> record_ok E (jm_chainID h) r"
    and "distinct (map jr_Hash (jm_records h))" and "distinct (map jr_Hash (jm_archived h))"
    and "jr_Hash ` set (jm_records h) \<inter> jr_Hash ` set (jm_archived h) = {}"
    and "length (jm_records h) \<le> 1000"
  using assms by (auto simp: memory_ok_def list_ok_def forEachRecord_def)

lemma memory_okI:
  assumes "\<And>r. r \<in> set (jm_records h) \<Longrightarrow> record_ok E (jm_chainID h) r"
    and "\<And>r. r \<in> set (jm_archived h) \<Longrightarrow> record_ok E (jm_chainID h) r"
    and "distinct (map jr_Hash (jm_records h))" and "distinct (map jr_Hash (jm_archived h))"
    and "jr_Hash ` set (jm_records h) \<inter> jr_Hash ` set (jm_archived h) = {}"
    and "length (jm_records h) \<le> 1000"
  shows "memory_ok E h"
  using assms by (auto simp: memory_ok_def list_ok_def forEachRecord_def)

lemma archives_ok_remembers:
  assumes "archives_ok E h fs" and "remembers h h'"
  shows "archives_ok E h' fs"
proof -
  have "\<exists>r'\<in>set (forEachRecord h'). same_payload r' d"
    if "r \<in> set (forEachRecord h)" "same_payload r d" for r d
    using assms(2) that unfolding remembers_def by (meson same_payload_sym same_payload_trans)
  moreover have "jm_chainID h' = jm_chainID h" using assms(2) by (simp add: remembers_def)
  ultimately show ?thesis using assms(1) unfolding archives_ok_def by metis
qed

lemma remembers_covers:
  assumes "covers (jm_records h) rs"
  shows "remembers h (h\<lparr>jm_records := rs\<rparr>)"
  unfolding remembers_def
proof (intro conjI ballI)
  fix r assume "r \<in> set (forEachRecord h)"
  then consider "r \<in> set (jm_archived h)" | "r \<in> set (jm_records h)" by (auto simp: forEachRecord_def)
  then show "\<exists>r'\<in>set (forEachRecord (h\<lparr>jm_records := rs\<rparr>)). same_payload r r'"
  proof cases
    case 1
    then show ?thesis by (intro bexI [of _ r]) (simp_all add: forEachRecord_def)
  next
    case 2
    with assms obtain d where "d \<in> set rs" "same_payload r d" by (auto simp: covers_def)
    then show ?thesis by (intro bexI [of _ d]) (simp_all add: forEachRecord_def)
  qed
qed simp

lemma archived_same: "archived_on_disk (h\<lparr>jm_records := rs\<rparr>) fs = archived_on_disk h fs"
  by (simp add: archived_on_disk_def)

text \<open>The memory replaced by records with the same payloads, as a conditional update does.\<close>

lemma durable_new_records:
  assumes "durable E s" and "length rs = length (jm_records (heap s))"
    and same: "\<forall>i<length rs. same_payload (jm_records (heap s) ! i) (rs ! i)"
  shows "durable E (put_file journalPath (disk_of rs) s)"
    and "durable E ((put_file journalPath (disk_of rs) s)\<lparr>heap := (heap s)\<lparr>jm_records := rs\<rparr>\<rparr>)"
    and "remembers (heap s) ((heap s)\<lparr>jm_records := rs\<rparr>)"
proof -
  let ?old = "jm_records (heap s)"
  have mem: "memory_ok E (heap s)" using assms(1) by (simp add: durable_def)
  have ok: "record_ok E (jm_chainID (heap s)) r" if "r \<in> set rs" for r
  proof -
    from that obtain i where "i < length rs" "r = rs ! i" by (auto simp: in_set_conv_nth)
    then have "same_payload (?old ! i) r" "?old ! i \<in> set ?old" using same assms(2) by auto
    then show ?thesis using memory_okD(1) [OF mem] record_ok_payload by blast
  qed
  have cover: "covers ?old rs"
    unfolding covers_def using same assms(2) by (metis in_set_conv_nth)
  have hashes: "map jr_Hash rs = map jr_Hash ?old"
    using same assms(2) by (auto simp: list_eq_iff_nth_eq same_payload_def)
  then have himg: "jr_Hash ` set rs = jr_Hash ` set ?old" by (metis list.set_map)
  have lok: "list_ok E (jm_chainID (heap s)) rs"
    using ok hashes memory_okD(3) [OF mem] by (simp add: list_ok_def)
  have mem': "memory_ok E ((heap s)\<lparr>jm_records := rs\<rparr>)"
    using memory_okD [OF mem] ok hashes himg assms(2) by (intro memory_okI) simp_all
  have rem: "remembers (heap s) ((heap s)\<lparr>jm_records := rs\<rparr>)"
    by (rule remembers_covers [OF cover])
  show "durable E (put_file journalPath (disk_of rs) s)"
    using durable_put_same_heap [OF assms(1)] lok cover himg memory_okD(5,6) [OF mem] assms(2) by simp
  have "archives_ok E ((heap s)\<lparr>jm_records := rs\<rparr>) (files s)"
    by (rule archives_ok_remembers [OF _ rem]) (use assms(1) in \<open>simp add: durable_def\<close>)
  note ao = this
  have "archived_on_disk ((heap s)\<lparr>jm_records := rs\<rparr>) (files s)"
    using assms(1) by (simp add: durable_def archived_same)
  then show "durable E ((put_file journalPath (disk_of rs) s)\<lparr>heap := (heap s)\<lparr>jm_records := rs\<rparr>\<rparr>)"
    by (rule durable_put_journal [OF mem' _ ao])
       (use lok himg memory_okD(5,6) [OF mem] assms(2) in simp_all)
  show "remembers (heap s) ((heap s)\<lparr>jm_records := rs\<rparr>)" by (rule rem)
qed

section \<open>Every operation keeps the invariant\<close>

lemma observed_payload: "same_payload r (observed st conf fee er fin tm r)"
  by (simp add: same_payload_def observed_def)

lemma durable_UpdateStateAtomicIfVersion:
  assumes "durable E s"
  shows "wp (UpdateStateAtomicIfVersion I hash v state conf fee er fin)
     (\<lambda>_ t. durable E t \<and> never_forgets s t) (\<lambda>_ t. durable E t \<and> never_forgets s t) s"
proof (cases "ParseJournalState state")
  case (Inl e)
  with assms show ?thesis
    by (simp add: UpdateStateAtomicIfVersion_def wp_simps never_forgets_def)
next
  case (Inr st)
  note state = Inr
  show ?thesis
  proof (cases "first_index (\<lambda>r. jr_Hash r = hash) (jm_records (heap s))")
    case None
    with state assms show ?thesis
      by (simp add: UpdateStateAtomicIfVersion_def wp_simps never_forgets_def)
  next
    case (Some i)
    let ?rs = "\<lambda>tm. (jm_records (heap s))[i := observed st conf fee er fin tm (jm_records (heap s) ! i)]"
    have "length (?rs tm) = length (jm_records (heap s))" for tm by simp
    moreover have "\<forall>j<length (?rs tm). same_payload (jm_records (heap s) ! j) (?rs tm ! j)" for tm
      by (metis nth_list_update_eq nth_list_update_neq observed_payload same_payload_refl length_list_update)
    ultimately have D: "durable E (put_file journalPath (disk_of (?rs tm)) s)"
      "durable E ((put_file journalPath (disk_of (?rs tm)) s)\<lparr>heap := (heap s)\<lparr>jm_records := ?rs tm\<rparr>\<rparr>)"
      "remembers (heap s) ((heap s)\<lparr>jm_records := ?rs tm\<rparr>)" for tm
      using durable_new_records [OF assms, of "?rs tm"] by blast+
    have W: "(put_file journalPath f s)\<lparr>world := w, heap := h\<rparr> =
        ((put_file journalPath f s)\<lparr>heap := h\<rparr>)\<lparr>world := w\<rparr>" for f w h by simp
    show ?thesis
    proof (cases "jr_Version (jm_records (heap s) ! i) = v")
      case False
      with state Some assms show ?thesis
        by (simp add: UpdateStateAtomicIfVersion_def wp_simps never_forgets_def)
    next
      case True
      show ?thesis
        by (rule wp_UpdateStateAtomicIfVersion [OF state Some True])
           (simp_all add: W D assms never_forgets_def del: put_file_heap)
    qed
  qed
qed

lemma durable_AppendAtomic:
  assumes "durable E s" and "eth_hash_laws E"
    and "parse_optional_address E (jr_To r) = Inr (jr_To r)"
    and fresh: "\<forall>q\<in>set (forEachRecord (heap s)). jr_Hash q \<noteq> jr_Hash r"
  shows "wp (AppendAtomic E I r)
     (\<lambda>(q, v) t. durable E t \<and> never_forgets s t \<and> q \<in> set (forEachRecord (heap t)) \<and>
        jr_SignedRaw q = jr_SignedRaw r \<and> jr_Hash q = jr_Hash r)
     (\<lambda>_ t. durable E t \<and> never_forgets s t) s"
proof (cases "validateJournalRecord E r (jm_chainID (heap s))")
  case (Inl e)
  with assms(1) show ?thesis by (simp add: AppendAtomic_def wp_simps never_forgets_def)
next
  case (Inr q)
  let ?q = "q\<lparr>jr_Version := 1\<rparr>" and ?c = "jm_chainID (heap s)"
  let ?rs = "jm_records (heap s) @ [?q]"
  have mem: "memory_ok E (heap s)" using assms(1) by (simp add: durable_def)
  have "record_ok E ?c q" by (rule validate_record_ok [OF assms(2) Inr assms(3)])
  then have ok: "record_ok E ?c ?q" by (rule record_ok_payload) (simp add: same_payload_def)
  have fields: "jr_Hash q = jr_Hash r" "jr_SignedRaw q = jr_SignedRaw r"
    using validate_keeps [OF Inr] by simp_all
  have new: "jr_Hash ?q \<notin> jr_Hash ` set (jm_records (heap s))"
    "jr_Hash ?q \<notin> jr_Hash ` set (jm_archived (heap s))"
    using fresh fields by (auto simp: forEachRecord_def)
  have lok: "list_ok E ?c ?rs"
    using memory_okD(1,3) [OF mem] ok new by (auto simp: list_ok_def)
  have cover: "covers (jm_records (heap s)) ?rs" by (intro covers_append) simp
  have rem: "remembers (heap s) ((heap s)\<lparr>jm_records := ?rs\<rparr>)"
    by (rule remembers_covers [OF cover])
  show ?thesis
  proof (cases "1000 \<le> length (jm_records (heap s))")
    case True
    with assms(1) show ?thesis by (simp add: AppendAtomic_def wp_simps never_forgets_def)
  next
    case False
    then have len: "length ?rs \<le> 1000" by simp
    have disj: "jr_Hash ` set ?rs \<inter> jr_Hash ` set (jm_archived (heap s)) = {}"
      using memory_okD(5) [OF mem] new by auto
    have mem': "memory_ok E ((heap s)\<lparr>jm_records := ?rs\<rparr>)"
      using memory_okD(1-4) [OF mem] ok new disj len by (intro memory_okI) auto
    have D1: "durable E (put_file journalPath (disk_of ?rs) s)"
      using durable_put_same_heap [OF assms(1) len lok disj] cover by simp
    have "archives_ok E ((heap s)\<lparr>jm_records := ?rs\<rparr>) (files s)"
      by (rule archives_ok_remembers [OF _ rem]) (use assms(1) in \<open>simp add: durable_def\<close>)
    note ao = this
    have "archived_on_disk ((heap s)\<lparr>jm_records := ?rs\<rparr>) (files s)"
      using assms(1) by (simp add: durable_def archived_same)
    then have D2: "durable E ((put_file journalPath (disk_of ?rs) s)\<lparr>heap := (heap s)\<lparr>jm_records := ?rs\<rparr>\<rparr>)"
      by (rule durable_put_journal [OF mem' _ ao]) (use lok disj len in simp_all)
    have W: "(put_file journalPath f s)\<lparr>world := w, heap := h\<rparr> =
        ((put_file journalPath f s)\<lparr>heap := h\<rparr>)\<lparr>world := w\<rparr>" for f w h by simp
    show ?thesis using False Inr
      by (simp add: AppendAtomic_def wp_simps Let_def)
         (rule wp_atomicSave; simp add: wp_simps W D1 D2 assms(1) never_forgets_def rem fields
            forEachRecord_def del: put_file_heap)
  qed
qed

text \<open>What archiving splits.\<close>

lemma map_snd_enumerate: "map snd (enumerate n xs) = xs"
  by (simp add: enumerate_eq_zip)

lemma split_partition:
  assumes "distinct (map f xs)"
  shows "distinct (map f (map snd (filter P (enumerate n xs))))"
    and "f ` set (map snd (filter P (enumerate n xs))) \<inter> f ` set (map snd (filter (\<lambda>x. \<not> P x) (enumerate n xs))) = {}"
proof -
  let ?ys = "enumerate n xs"
  have d: "distinct (map (f \<circ> snd) ?ys)"
    using assms by (simp add: map_snd_enumerate flip: map_map)
  then show "distinct (map f (map snd (filter P ?ys)))"
    by (simp add: distinct_map_filter)
  from d have inj: "inj_on (f \<circ> snd) (set ?ys)" by (simp add: distinct_map)
  show "f ` set (map snd (filter P ?ys)) \<inter> f ` set (map snd (filter (\<lambda>x. \<not> P x) ?ys)) = {}"
  proof -
    have "False" if "x \<in> set ?ys" "P x" "y \<in> set ?ys" "\<not> P y" "f (snd x) = f (snd y)" for x y
      using inj_onD [OF inj, of x y] that by auto
    then show ?thesis by fastforce
  qed
qed

lemma archived_form_payload [simp]: "same_payload r (archived_form r)"
  by (simp add: archived_form_def same_payload_def)

lemma archived_form_fields [simp]: "jr_Hash (archived_form r) = jr_Hash r" "jr_Finalized (archived_form r)"
  by (simp_all add: archived_form_def)

lemma to_archive_source: "a \<in> set (to_archive h) \<Longrightarrow> \<exists>r\<in>set (jm_records h). a = archived_form r"
  using set_map [of snd "enumerate 0 (jm_records h)"] map_snd_enumerate [of 0 "jm_records h"]
  by (fastforce simp: to_archive_def)

lemma to_keep_subset: "set (to_keep h) \<subseteq> set (jm_records h)"
  using set_map [of snd "enumerate 0 (jm_records h)"] map_snd_enumerate [of 0 "jm_records h"]
  by (fastforce simp: to_keep_def)

lemma to_keep_or_archive:
  assumes "r \<in> set (jm_records h)"
  shows "r \<in> set (to_keep h) \<or> archived_form r \<in> set (to_archive h)"
proof -
  from assms obtain x where x: "x \<in> set (enumerate 0 (jm_records h))" "r = snd x"
    using set_map [of snd "enumerate 0 (jm_records h)"] map_snd_enumerate [of 0 "jm_records h"] by auto
  then show ?thesis by (auto simp: to_keep_def to_archive_def)
qed

lemma length_to_keep: "length (to_keep h) \<le> length (jm_records h)"
  by (simp add: to_keep_def) (metis length_enumerate length_filter_le)

lemma split_hashes:
  assumes "distinct (map jr_Hash (jm_records h))"
  shows "distinct (map jr_Hash (to_archive h))" and "distinct (map jr_Hash (to_keep h))"
    and "jr_Hash ` set (to_archive h) \<inter> jr_Hash ` set (to_keep h) = {}"
    and "jr_Hash ` set (to_archive h) \<subseteq> jr_Hash ` set (jm_records h)"
proof -
  have m: "map jr_Hash (to_archive h) = map jr_Hash (map snd (filter (archivable (finalized_nonces h)
      (length (jm_records h))) (enumerate 0 (jm_records h))))"
    by (simp add: to_archive_def)
  show "distinct (map jr_Hash (to_archive h))"
    unfolding m by (rule split_partition(1) [OF assms])
  show "distinct (map jr_Hash (to_keep h))"
    unfolding to_keep_def by (rule split_partition(1) [OF assms])
  show "jr_Hash ` set (to_archive h) \<inter> jr_Hash ` set (to_keep h) = {}"
    using split_partition(2) [OF assms] unfolding to_keep_def set_map [of jr_Hash, symmetric] m .
  show "jr_Hash ` set (to_archive h) \<subseteq> jr_Hash ` set (jm_records h)"
    using to_archive_source by fastforce
qed

text \<open>The archive file is written first: with the old memory, both places hold its records.\<close>

lemma archive_facts:
  assumes "memory_ok E h"
  shows "list_ok E (jm_chainID h) (to_archive h)" and "list_ok E (jm_chainID h) (to_keep h)"
    and "\<And>d. d \<in> set (to_archive h) \<Longrightarrow> jr_Finalized d \<and> (\<exists>r\<in>set (forEachRecord h). same_payload r d)"
proof -
  have src: "\<exists>r\<in>set (jm_records h). d = archived_form r" if "d \<in> set (to_archive h)" for d
    using to_archive_source that by blast
  have "record_ok E (jm_chainID h) d" if d: "d \<in> set (to_archive h)" for d
    using src [OF d] memory_okD(1) [OF assms] record_ok_payload archived_form_payload by metis
  then show "list_ok E (jm_chainID h) (to_archive h)"
    using split_hashes(1) [OF memory_okD(3) [OF assms]] by (simp add: list_ok_def)
  show "list_ok E (jm_chainID h) (to_keep h)"
    using split_hashes(2) [OF memory_okD(3) [OF assms]] to_keep_subset [of h] memory_okD(1) [OF assms]
    by (auto simp: list_ok_def)
  show "jr_Finalized d \<and> (\<exists>r\<in>set (forEachRecord h). same_payload r d)" if d: "d \<in> set (to_archive h)" for d
  proof -
    from src [OF d] obtain r where "r \<in> set (jm_records h)" "d = archived_form r" by blast
    then show ?thesis by (intro conjI bexI [of _ r]) (simp_all add: forEachRecord_def)
  qed
qed

lemma archived_put_archive:
  assumes "archived_on_disk h fs" and mem: "memory_ok E h" and ne: "to_archive h \<noteq> []"
  shows "archived_on_disk h (AList.update (archive_path (to_archive h)) f fs)"
  unfolding archived_on_disk_def
proof
  let ?p = "archive_path (to_archive h)"
  fix r assume "r \<in> set (jm_archived h)"
  with assms(1) obtain a name rs where a: "a \<in> set (jm_archived h)" "is_archive name"
      "has_prefix name (''archive-'' @ jr_Hash a @ ''-'')" "map_of fs name = Some (disk_of rs)"
      "\<exists>d\<in>set rs. same_payload r d"
    unfolding archived_on_disk_def by blast
  have "name \<noteq> ?p"
  proof
    assume "name = ?p"
    then have pre: "has_prefix name (''archive-'' @ jr_Hash (hd (to_archive h)) @ ''-'')"
      using archive_path_prefix [OF ne] by simp
    from ne have "hd (to_archive h) \<in> set (to_archive h)" by simp
    then obtain q where q: "q \<in> set (jm_records h)" "jr_Hash (hd (to_archive h)) = jr_Hash q"
      using to_archive_source by fastforce
    have "length (jr_Hash a) = length (jr_Hash q)"
      using record_ok_hash [OF memory_okD(1) [OF mem q(1)]] record_ok_hash [OF memory_okD(2) [OF mem a(1)]]
      by (simp add: hash_pattern_def)
    then have "jr_Hash a = jr_Hash q" using archive_prefix_inj [OF a(3) pre] q(2) by simp
    with a(1) q(1) memory_okD(5) [OF mem] show False by blast
  qed
  with a have "map_of (AList.update ?p f fs) name = Some (disk_of rs)" by simp
  with a show "\<exists>a\<in>set (jm_archived h). \<exists>name rs. is_archive name \<and>
      has_prefix name (''archive-'' @ jr_Hash a @ ''-'') \<and>
      map_of (AList.update ?p f fs) name = Some (disk_of rs) \<and> (\<exists>d\<in>set rs. same_payload r d)"
    by blast
qed

lemma archives_put_archive:
  assumes "archives_ok E h fs" and mem: "memory_ok E h"
  shows "archives_ok E h (AList.update (archive_path (to_archive h)) (disk_of (to_archive h)) fs)"
  unfolding archives_ok_def
proof (intro allI impI)
  let ?p = "archive_path (to_archive h)"
  fix name f
  assume n: "is_archive name" and f: "map_of (AList.update ?p (disk_of (to_archive h)) fs) name = Some f"
  show "\<exists>rs. f = disk_of rs \<and> (\<forall>d\<in>set rs. record_ok E (jm_chainID h) d \<and> jr_Finalized d \<and>
          (\<exists>r\<in>set (forEachRecord h). same_payload r d))"
  proof (cases "name = ?p")
    case True
    with f have "f = disk_of (to_archive h)" by simp
    with archive_facts(1,3) [OF mem] show ?thesis unfolding list_ok_def by blast
  next
    case False
    with f have "map_of fs name = Some f" by simp
    with assms(1) n show ?thesis unfolding archives_ok_def by blast
  qed
qed

lemma half_put:
  "half_archived h fs rs \<Longrightarrow>
   half_archived h (AList.update (archive_path (to_archive h)) (disk_of (to_archive h)) fs) rs"
  by (simp add: half_archived_def)

lemma durable_put_archive:
  assumes "durable E s" and "to_archive (heap s) \<noteq> []"
  shows "durable E (put_file (archive_path (to_archive (heap s))) (disk_of (to_archive (heap s))) s)"
proof -
  have mem: "memory_ok E (heap s)" and act: "active_on_disk E (heap s) (files s)"
    using assms(1) by (simp_all add: durable_def)
  from act have "active_on_disk E (heap s)
      (AList.update (archive_path (to_archive (heap s))) (disk_of (to_archive (heap s))) (files s))"
    by (auto simp: active_on_disk_def archive_path_not_journal intro: half_put split: option.splits)
  with assms mem show ?thesis
    using archived_put_archive [OF _ mem assms(2)] archives_put_archive [OF _ mem]
    by (simp add: durable_def)
qed

lemma durable_after_archive:
  assumes D: "durable E s" and ne: "to_archive (heap s) \<noteq> []"
    and p: "map_of (files s) (archive_path (to_archive (heap s))) = Some (disk_of (to_archive (heap s)))"
    and h': "h' = (heap s)\<lparr>jm_records := to_keep (heap s), jm_archived := jm_archived (heap s) @ to_archive (heap s)\<rparr>"
  shows "durable E (put_file journalPath (disk_of (to_keep (heap s))) s)"
    and "durable E ((put_file journalPath (disk_of (to_keep (heap s))) s)\<lparr>heap := h'\<rparr>)"
    and "remembers (heap s) h'"
proof -
  let ?h = "heap s"
  have mem: "memory_ok E ?h" using D by (simp add: durable_def)
  note facts = archive_facts [OF mem] and split = split_hashes [OF memory_okD(3) [OF mem]]
  have len: "length (to_keep ?h) \<le> 1000" using length_to_keep [of ?h] memory_okD(6) [OF mem] by simp
  have kh: "jr_Hash ` set (to_keep ?h) \<subseteq> jr_Hash ` set (jm_records ?h)" using to_keep_subset [of ?h] by auto
  have disj: "jr_Hash ` set (to_keep ?h) \<inter> jr_Hash ` set (jm_archived ?h) = {}"
    using kh memory_okD(5) [OF mem] by blast
  have "half_archived ?h (files s) (to_keep ?h)" using ne p by (simp add: half_archived_def)
  then show "durable E (put_file journalPath (disk_of (to_keep ?h)) s)"
    using durable_put_same_heap [OF D len facts(2) disj] by blast
  show rem: "remembers ?h h'"
    unfolding remembers_def
  proof (intro conjI ballI)
    fix r assume "r \<in> set (forEachRecord ?h)"
    then consider "r \<in> set (jm_archived ?h)" | "r \<in> set (to_keep ?h)" | "archived_form r \<in> set (to_archive ?h)"
      using to_keep_or_archive by (auto simp: forEachRecord_def)
    then show "\<exists>r'\<in>set (forEachRecord h'). same_payload r r'"
      by cases (force simp: h' forEachRecord_def intro: bexI [of _ r] bexI [of _ "archived_form r"])+
  qed (simp add: h')
  have ra: "jr_Hash ` set (to_archive ?h) \<inter> jr_Hash ` set (jm_archived ?h) = {}"
    using split(4) memory_okD(5) [OF mem] by blast
  have mem': "memory_ok E h'"
    using facts split memory_okD [OF mem] len disj ra
    by (intro memory_okI) (auto simp: h' list_ok_def)
  have "archives_ok E h' (files s)"
    by (rule archives_ok_remembers [OF _ rem]) (use D in \<open>simp add: durable_def\<close>)
  note ao = this
  have "archived_on_disk h' (files s)"
    unfolding archived_on_disk_def
  proof
    fix r assume "r \<in> set (jm_archived h')"
    then consider "r \<in> set (jm_archived ?h)" | "r \<in> set (to_archive ?h)" by (auto simp: h')
    then show "\<exists>a\<in>set (jm_archived h'). \<exists>name rs. is_archive name \<and>
        has_prefix name (''archive-'' @ jr_Hash a @ ''-'') \<and> map_of (files s) name = Some (disk_of rs) \<and>
        (\<exists>d\<in>set rs. same_payload r d)"
    proof cases
      case 1
      moreover have "archived_on_disk ?h (files s)" using D by (simp add: durable_def)
      ultimately obtain a name rs where "a \<in> set (jm_archived ?h)" "is_archive name"
        "has_prefix name (''archive-'' @ jr_Hash a @ ''-'')" "map_of (files s) name = Some (disk_of rs)"
        "\<exists>d\<in>set rs. same_payload r d"
        unfolding archived_on_disk_def by blast
      then show ?thesis by (intro bexI [of _ a] exI [of _ name] exI [of _ rs]) (simp_all add: h')
    next
      case 2
      have "hd (to_archive ?h) \<in> set (jm_archived h')" using ne by (simp add: h')
      moreover have "\<exists>d\<in>set (to_archive ?h). same_payload r d" using 2 same_payload_refl by blast
      ultimately show ?thesis
        using p archive_path_is_archive archive_path_prefix [OF ne] by blast
    qed
  qed
  then show "durable E ((put_file journalPath (disk_of (to_keep ?h)) s)\<lparr>heap := h'\<rparr>)"
  proof (rule durable_put_journal [OF mem' _ ao len])
    show "list_ok E (jm_chainID h') (to_keep ?h)" using facts(2) by (simp add: h')
    show "jr_Hash ` set (to_keep ?h) \<inter> jr_Hash ` set (jm_archived h') = {}"
      using disj split(3) by (auto simp: h')
    show "covers (jm_records h') (to_keep ?h) \<or> half_archived h' (files s) (to_keep ?h)"
      by (simp add: h')
  qed
qed

lemma durable_ArchiveFinalized:
  assumes D: "durable E s"
  shows "wp (ArchiveFinalized I) (\<lambda>_ t. durable E t \<and> never_forgets s t) (\<lambda>_ t. durable E t \<and> never_forgets s t) s"
proof (cases "length (jm_records (heap s)) < 900 \<or> to_archive (heap s) = [] \<or> isl (marshal_records (to_archive (heap s)))")
  case True
  then show ?thesis using D
    by (auto simp: ArchiveFinalized_def wp_simps never_forgets_def isl_def)
next
  case False
  let ?A = "to_archive (heap s)"
  let ?s1 = "put_file (archive_path ?A) (disk_of ?A) s"
  let ?h' = "(heap s)\<lparr>jm_records := to_keep (heap s), jm_archived := jm_archived (heap s) @ ?A\<rparr>"
  from False have ne: "?A \<noteq> []" and m: "marshal_records ?A = Inr (disk_of ?A)"
    by (auto simp: isl_def dest: marshal_Inr) (metis marshal_Inr sum.exhaust)
  have D1: "durable E ?s1" by (rule durable_put_archive [OF D ne])
  have D2: "durable E (put_file journalPath (disk_of (to_keep (heap s))) ?s1)"
    "durable E ((put_file journalPath (disk_of (to_keep (heap s))) ?s1)\<lparr>heap := ?h'\<rparr>)"
    "remembers (heap s) ?h'"
    using durable_after_archive [of E ?s1 ?h'] D1 ne by simp_all
  have W: "(put_file journalPath f t)\<lparr>world := w, heap := h\<rparr> =
        ((put_file journalPath f t)\<lparr>heap := h\<rparr>)\<lparr>world := w\<rparr>" for f w h t by simp
  let ?Q = "\<lambda>t. durable E t \<and> never_forgets s t"
  have "wp (seq (atomicSave I (to_keep (heap s)))
          (seq (set_heap (\<lambda>h. h\<lparr>jm_records := to_keep (heap s), jm_archived := jm_archived h @ ?A\<rparr>))
               (ret (length ?A)))) (\<lambda>_. ?Q) (\<lambda>_. ?Q) (?s1\<lparr>world := w\<rparr>)" for w
    unfolding wp_seq
    by (rule wp_atomicSave) (simp_all add: wp_simps W D D1 D2 never_forgets_def del: put_file_heap)
  then have "wp (seq (atomicWriteFile I (archive_path ?A) (disk_of ?A)) (seq (atomicSave I (to_keep (heap s)))
          (seq (set_heap (\<lambda>h. h\<lparr>jm_records := to_keep (heap s), jm_archived := jm_archived h @ ?A\<rparr>))
               (ret (length ?A))))) (\<lambda>_. ?Q) (\<lambda>_. ?Q) s"
    unfolding wp_seq [of "atomicWriteFile I (archive_path ?A) (disk_of ?A)"]
    by (rule wp_atomicWriteFile) (simp_all add: D D1 never_forgets_def)
  with False m show ?thesis
    by (simp add: ArchiveFinalized_def wp_andthen wp_get_heap wp_lift)
qed

section \<open>Restarting\<close>

lemma norm_version_payload [simp]: "same_payload r (norm_version r)"
  by (simp add: same_payload_def norm_version_def)

lemma record_ok_norm: "record_ok E c r \<Longrightarrow> record_ok E c (norm_version r)"
  by (erule record_ok_payload) simp

lemma norm_version_fields [simp]:
  "jr_Hash (norm_version r) = jr_Hash r" "jr_Finalized (norm_version r) = jr_Finalized r"
  by (simp_all add: norm_version_def)

lemma emap_disk:
  assumes "eth_hash_laws E" and "\<forall>r\<in>set rs. record_ok E c r"
  shows "emap (\<lambda>item. journalRecordFromDisk E item c) (map (\<lambda>r. Some (journalRecordToDisk r)) rs) =
    Inr (map norm_version rs)"
  by (rule emap_map) (use assms record_disk_parse in blast)

lemma wp_load:
  assumes laws: "eth_hash_laws E"
    and f: "map_of (files s) journalPath = None \<or> map_of (files s) journalPath = Some (disk_of qs)"
    and ok: "length qs \<le> 1000" "\<forall>r\<in>set qs. record_ok E (jm_chainID (heap s)) r"
    and none: "\<And>w. map_of (files s) journalPath = None \<Longrightarrow> Q () (s\<lparr>world := w\<rparr>)"
    and some: "\<And>w. map_of (files s) journalPath = Some (disk_of qs) \<Longrightarrow>
       Q () (s\<lparr>world := w, heap := (heap s)\<lparr>jm_records := map norm_version qs\<rparr>\<rparr>)"
    and err: "\<And>e w. io_error I e \<Longrightarrow> F e (s\<lparr>world := w\<rparr>)"
  shows "wp (load E I) Q F s"
  unfolding load_def wp_andthen
proof (rule wp_ReadFile_io)
  fix w
  from f show "wp (case map_of (files s) journalPath of None \<Rightarrow> ret ()
       | Some JBad \<Rightarrow> throw (ErrNew ''cannot parse journal'')
       | Some (JRecords stored) \<Rightarrow>
           fail_if (1000 < length stored) ErrJournalFull
          (andthen (get_heap jm_chainID) (\<lambda>chainID.
           andthen (lift (emap (\<lambda>item. journalRecordFromDisk E item chainID) stored)) (\<lambda>records.
             set_heap (jm_records_update (\<lambda>_. records)))))) Q F (s\<lparr>world := w\<rparr>)"
  proof
    assume n: "map_of (files s) journalPath = None"
    with none [OF n] show ?thesis by (simp add: wp_simps)
  next
    assume n: "map_of (files s) journalPath = Some (disk_of qs)"
    with some [OF n] emap_disk [OF laws ok(2)] ok(1) show ?thesis by (simp add: wp_simps disk_of_def)
  qed
qed (rule err)

text \<open>What an archive adds: its records whose hash was not seen, once each.\<close>

definition adds :: "string list \<Rightarrow> JournalRecord list \<Rightarrow> JournalRecord list \<Rightarrow> bool" where
  "adds seen rs new \<longleftrightarrow>
     distinct (map jr_Hash new) \<and> jr_Hash ` set new \<inter> set seen = {} \<and>
     jr_Hash ` set new \<union> set seen = jr_Hash ` set rs \<union> set seen \<and>
     (\<forall>r\<in>set new. \<exists>d\<in>set rs. r = norm_version d)"

lemma archive_items_adds:
  assumes laws: "eth_hash_laws E" and "\<forall>r\<in>set rs. record_ok E c r \<and> jr_Finalized r"
  shows "\<exists>new. archive_items E c (map (\<lambda>r. Some (journalRecordToDisk r)) rs) (seen, arch) =
      Inr (rev (map jr_Hash new) @ seen, arch @ new) \<and> adds seen rs new"
  using assms(2)
proof (induction rs arbitrary: seen arch)
  case Nil
  show ?case by (simp add: adds_def)
next
  case (Cons r rs)
  have one: "journalRecordFromDisk E (Some (journalRecordToDisk r)) c = Inr (norm_version r)"
    using record_disk_parse [OF laws] Cons.prems by simp
  show ?case
  proof (cases "jr_Hash r \<in> set seen")
    case True
    from Cons.IH [of seen arch] Cons.prems obtain new where
      n: "archive_items E c (map (\<lambda>r. Some (journalRecordToDisk r)) rs) (seen, arch) =
        Inr (rev (map jr_Hash new) @ seen, arch @ new)" "adds seen rs new" by auto
    from n(2) True have "adds seen (r # rs) new" by (auto simp: adds_def)
    with n(1) True one Cons.prems show ?thesis by auto
  next
    case False
    from Cons.IH [of "jr_Hash r # seen" "arch @ [norm_version r]"] Cons.prems obtain new where
      n: "archive_items E c (map (\<lambda>r. Some (journalRecordToDisk r)) rs) (jr_Hash r # seen, arch @ [norm_version r]) =
        Inr (rev (map jr_Hash new) @ jr_Hash r # seen, (arch @ [norm_version r]) @ new)"
      "adds (jr_Hash r # seen) rs new" by auto
    from n(2) False have "adds seen (r # rs) (norm_version r # new)" by (auto simp: adds_def)
    with n(1) False one Cons.prems show ?thesis
      by (intro exI [of _ "norm_version r # new"]) simp
  qed
qed

lemma adds_append:
  assumes "adds seen rs new" and "adds (rev (map jr_Hash new) @ seen) rs' new'"
  shows "adds seen (rs @ rs') (new @ new')"
proof -
  have "jr_Hash ` set new' \<inter> jr_Hash ` set new = {}" using assms(2) by (auto simp: adds_def)
  then have "distinct (map jr_Hash (new @ new'))" using assms by (simp add: adds_def) blast
  moreover have "jr_Hash ` set (new @ new') \<inter> set seen = {}" using assms by (auto simp: adds_def)
  moreover have "jr_Hash ` set (new @ new') \<union> set seen = jr_Hash ` set (rs @ rs') \<union> set seen"
  proof -
    have e1: "jr_Hash ` set new \<union> set seen = jr_Hash ` set rs \<union> set seen"
      and e2: "jr_Hash ` set new' \<union> (jr_Hash ` set new \<union> set seen) = jr_Hash ` set rs' \<union> (jr_Hash ` set new \<union> set seen)"
      using assms by (simp_all add: adds_def Un_assoc)
    have "jr_Hash ` set (new @ new') \<union> set seen = jr_Hash ` set new' \<union> (jr_Hash ` set new \<union> set seen)"
      by auto
    also have "\<dots> = jr_Hash ` set rs' \<union> (jr_Hash ` set rs \<union> set seen)" unfolding e2 unfolding e1 ..
    also have "\<dots> = jr_Hash ` set (rs @ rs') \<union> set seen" by auto
    finally show ?thesis .
  qed
  moreover have "\<forall>r\<in>set (new @ new'). \<exists>d\<in>set (rs @ rs'). r = norm_version d"
    using assms by (auto simp: adds_def)
  ultimately show ?thesis by (simp add: adds_def)
qed

lemma adds_Nil: "adds seen [] []"
  by (simp add: adds_def)

lemma disk_of_hashes: "disk_of rs = disk_of rs' \<Longrightarrow> map jr_Hash rs = map jr_Hash rs'"
proof -
  assume "disk_of rs = disk_of rs'"
  then have "map (jd_Hash \<circ> the) (map (\<lambda>r. Some (journalRecordToDisk r)) rs) =
      map (jd_Hash \<circ> the) (map (\<lambda>r. Some (journalRecordToDisk r)) rs')"
    by (simp add: disk_of_def)
  then show ?thesis by (simp add: journalRecordToDisk_def comp_def)
qed

text \<open>The records in the archive files of a list of names.\<close>

definition archive_source :: "(string \<times> jfile) list \<Rightarrow> string list \<Rightarrow> JournalRecord list \<Rightarrow> bool" where
  "archive_source fs names rs \<longleftrightarrow>
     (\<forall>d\<in>set rs. \<exists>name\<in>set names. \<exists>qs. is_archive name \<and> map_of fs name = Some (disk_of qs) \<and> d \<in> set qs \<and>
        set qs \<subseteq> set rs) \<and>
     (\<forall>name\<in>set names. \<forall>qs. is_archive name \<longrightarrow> map_of fs name = Some (disk_of qs) \<longrightarrow>
        jr_Hash ` set qs \<subseteq> jr_Hash ` set rs)"

lemma archive_source_Nil: "archive_source fs [] []"
  by (simp add: archive_source_def)

lemma archive_source_skip: "\<not> is_archive name \<Longrightarrow> archive_source fs names rs \<Longrightarrow> archive_source fs (name # names) rs"
  by (auto simp: archive_source_def)

lemma archive_source_Cons:
  assumes "is_archive name" and m: "map_of fs name = Some (disk_of qs)" and "archive_source fs names rs"
  shows "archive_source fs (name # names) (qs @ rs)"
proof -
  have "jr_Hash ` set xs = jr_Hash ` set qs" if "map_of fs name = Some (disk_of xs)" for xs
    using disk_of_hashes [of xs qs] that m by (metis list.set_map option.inject)
  note same = this
  show ?thesis
    unfolding archive_source_def
  proof (intro conjI ballI allI impI)
    fix d assume "d \<in> set (qs @ rs)"
    then consider "d \<in> set qs" | "d \<in> set rs" by auto
    then show "\<exists>n\<in>set (name # names). \<exists>xs. is_archive n \<and> map_of fs n = Some (disk_of xs) \<and> d \<in> set xs \<and>
        set xs \<subseteq> set (qs @ rs)"
    proof cases
      case 1
      with assms(1) m show ?thesis by auto
    next
      case 2
      with assms(3) obtain n xs where "n \<in> set names" "is_archive n" "map_of fs n = Some (disk_of xs)"
        "d \<in> set xs" "set xs \<subseteq> set rs" unfolding archive_source_def by blast
      then show ?thesis by (intro bexI [of _ n] exI [of _ xs]) auto
    qed
  next
    fix n xs
    assume n: "n \<in> set (name # names)" "is_archive n" "map_of fs n = Some (disk_of xs)"
    show "jr_Hash ` set xs \<subseteq> jr_Hash ` set (qs @ rs)"
    proof (cases "n = name")
      case True
      with n same show ?thesis by auto
    next
      case False
      with n assms(3) have "jr_Hash ` set xs \<subseteq> jr_Hash ` set rs" unfolding archive_source_def by simp
      then show ?thesis by auto
    qed
  qed
qed

text \<open>Finalized, well-formed records of payloads that the memory holds.\<close>

definition archived_of :: "('k, 'm) ethlib_scheme \<Rightarrow> 'h journal_scheme \<Rightarrow> JournalRecord list \<Rightarrow> bool" where
  "archived_of E h rs \<longleftrightarrow>
     (\<forall>d\<in>set rs. record_ok E (jm_chainID h) d \<and> jr_Finalized d \<and>
        (\<exists>r\<in>set (forEachRecord h). same_payload r d))"

lemma archive_body_skip: "\<not> is_archive name \<Longrightarrow> archive_body E I c name acc = ret acc"
  by (simp add: archive_body_def)

lemma wp_archive_loop:
  assumes laws: "eth_hash_laws E" and a: "archives_ok E h (files s)" and c: "c = jm_chainID h"
    and names: "set names \<subseteq> fst ` set (files s)"
    and ok: "\<And>w rs new. archive_source (files s) names rs \<Longrightarrow> archived_of E h rs \<Longrightarrow> adds seen rs new \<Longrightarrow>
       Q (rev (map jr_Hash new) @ seen, arch @ new) (s\<lparr>world := w\<rparr>)"
    and err: "\<And>e w. io_error I e \<Longrightarrow> F e (s\<lparr>world := w\<rparr>)"
  shows "wp (for_each names (archive_body E I c) (seen, arch)) Q F (s\<lparr>world := v\<rparr>)"
  using names ok
proof (induction names arbitrary: seen arch v)
  case Nil
  from Nil.prems(2) [OF archive_source_Nil _ adds_Nil] show ?case by (simp add: wp_simps archived_of_def)
next
  case (Cons name names)
  show ?case
  proof (cases "is_archive name")
    case False
    have "wp (for_each names (archive_body E I c) (seen, arch)) Q F (s\<lparr>world := v\<rparr>)"
    proof (rule Cons.IH)
      show "set names \<subseteq> fst ` set (files s)" using Cons.prems(1) by simp
      fix w rs new
      assume "archive_source (files s) names rs" and "archived_of E h rs" and "adds seen rs new"
      then show "Q (rev (map jr_Hash new) @ seen, arch @ new) (s\<lparr>world := w\<rparr>)"
        by (intro Cons.prems(2) [OF archive_source_skip [OF False]])
    qed
    then show ?thesis by (simp add: wp_simps archive_body_skip [OF False])
  next
    case True
    from Cons.prems(1) obtain f where f: "map_of (files s) name = Some f"
      by (cases "map_of (files s) name") (auto simp: map_of_eq_None_iff)
    with a True obtain qs where fq: "f = disk_of qs" and of_h: "archived_of E h qs"
      unfolding archives_ok_def archived_of_def by blast
    then have qs: "f = disk_of qs" "\<forall>d\<in>set qs. record_ok E c d \<and> jr_Finalized d"
      by (simp_all add: archived_of_def c)
    from archive_items_adds [OF laws qs(2), of seen arch] obtain new where
      n: "archive_items E c (map (\<lambda>r. Some (journalRecordToDisk r)) qs) (seen, arch) =
        Inr (rev (map jr_Hash new) @ seen, arch @ new)" "adds seen qs new" by blast
    have rest: "wp (for_each names (archive_body E I c) (rev (map jr_Hash new) @ seen, arch @ new)) Q F (s\<lparr>world := w\<rparr>)" for w
    proof (rule Cons.IH)
      show "set names \<subseteq> fst ` set (files s)" using Cons.prems(1) by simp
      fix w rs new'
      assume "archive_source (files s) names rs" "archived_of E h rs" "adds (rev (map jr_Hash new) @ seen) rs new'"
      moreover have "archived_of E h (qs @ rs)" using calculation(2) of_h by (auto simp: archived_of_def)
      ultimately show "Q (rev (map jr_Hash new') @ rev (map jr_Hash new) @ seen, (arch @ new) @ new') (s\<lparr>world := w\<rparr>)"
        using Cons.prems(2) [OF archive_source_Cons [OF True f [unfolded qs(1)]] _ adds_append [OF n(2)]] by simp
    qed
    have body: "archive_body E I c name (seen, arch) = andthen (ReadFile I name) (\<lambda>data.
        case data of
          None \<Rightarrow> throw (ErrExt ''no such file'')
        | Some JBad \<Rightarrow> throw (ErrNew ''archive format'')
        | Some (JRecords stored) \<Rightarrow> lift (archive_items E c stored (seen, arch)))"
      using True by (simp add: archive_body_def)
    show ?thesis
      unfolding for_each.simps wp_andthen body
      by (rule wp_ReadFile_io) (simp_all add: f qs(1) disk_of_def wp_simps n(1) rest err)
  qed
qed

lemma memory_unique:
  assumes "memory_ok E h" and "r \<in> set (forEachRecord h)" and "q \<in> set (forEachRecord h)"
    and "jr_Hash r = jr_Hash q"
  shows "r = q"
  using assms by (auto simp: memory_ok_def list_ok_def dest: inj_onD [OF distinct_map [THEN iffD1, THEN conjunct2]])

lemma same_payload_hash: "same_payload r s \<Longrightarrow> jr_Hash s = jr_Hash r"
  by (simp add: same_payload_def)

text \<open>A hash in an archive file that the journal does not have comes back with its payload.\<close>

lemma archive_reloaded:
  assumes mem: "memory_ok E h" and src: "archive_source fs names rs" and of_h: "archived_of E h rs"
    and adds: "adds seen rs new" and name: "name \<in> set names" "is_archive name"
    and content: "map_of fs name = Some (disk_of xs)" "d \<in> set xs"
    and m: "m \<in> set (forEachRecord h)" "same_payload m d" and unseen: "jr_Hash m \<notin> set seen"
  shows "\<exists>a\<in>set new. same_payload m a"
proof -
  have "jr_Hash d \<in> jr_Hash ` set rs" using src name content unfolding archive_source_def by blast
  then have "jr_Hash m \<in> jr_Hash ` set new \<union> set seen"
    using adds same_payload_hash [OF m(2)] unfolding adds_def by auto
  with unseen obtain a where a: "a \<in> set new" "jr_Hash a = jr_Hash m" by auto
  with adds obtain d' where d': "d' \<in> set rs" "a = norm_version d'" by (auto simp: adds_def)
  with of_h obtain m' where m': "m' \<in> set (forEachRecord h)" "same_payload m' d'"
    by (auto simp: archived_of_def)
  have "m' = m"
    by (rule memory_unique [OF mem m'(1) m(1)]) (use a d' same_payload_hash [OF m'(2)] in simp)
  with m'(2) d'(2) have "same_payload m a" by (metis norm_version_payload same_payload_trans)
  with a(1) show ?thesis by blast
qed

definition restarted :: "'h journal_scheme \<Rightarrow> JournalRecord list \<Rightarrow> JournalRecord list \<Rightarrow> 'h journal_scheme" where
  "restarted h recs new = h\<lparr>jm_records := recs, jm_archived := new\<rparr>"

lemma restarted_durable:
  assumes D: "durable E s" and h: "h = heap s" and fs: "fs = files s"
    and qs: "length qs \<le> 1000" "list_ok E (jm_chainID h) qs"
      "jr_Hash ` set qs \<inter> jr_Hash ` set (jm_archived h) = {}"
      "covers (jm_records h) qs \<or> half_archived h fs qs"
    and journal: "map_of fs journalPath = Some (disk_of qs) \<or> map_of fs journalPath = None \<and> qs = []"
    and src: "archive_source fs names rs" "archived_of E h rs" and names: "set names = fst ` set fs"
    and adds: "adds (map jr_Hash qs) rs new"
    and h': "h' = restarted h (map norm_version qs) new" and t: "heap t = h'" "files t = fs"
  shows "durable E t" and "remembers h h'"
proof -
  have mem: "memory_ok E h" and arch: "archived_on_disk h fs" and aok: "archives_ok E h fs"
    using D by (simp_all add: durable_def h fs)
  have in_names: "name \<in> set names" if "map_of fs name = Some f" for name f
    using that by (metis names map_of_SomeD fst_conv imageI)
  have returns: "\<exists>a\<in>set new. same_payload m a"
    if "is_archive name" "map_of fs name = Some (disk_of xs)" "d \<in> set xs" "m \<in> set (forEachRecord h)"
      "same_payload m d" "jr_Hash m \<notin> jr_Hash ` set qs" for name xs d m
    using archive_reloaded [OF mem src adds in_names [OF that(2)] that(1-5)] that(6) by simp
  have archived_back: "\<exists>a\<in>set new. same_payload m a" if m: "m \<in> set (jm_archived h)" for m
  proof -
    from m arch obtain name xs d where "is_archive name" "map_of fs name = Some (disk_of xs)" "d \<in> set xs"
      "same_payload m d" unfolding archived_on_disk_def by blast
    moreover have "jr_Hash m \<notin> jr_Hash ` set qs" using qs(3) m by blast
    moreover have "m \<in> set (forEachRecord h)" using m by (simp add: forEachRecord_def)
    ultimately show ?thesis using returns by blast
  qed
  have moved_back: "\<exists>a\<in>set new. same_payload x a"
    if half: "half_archived h fs qs" and x: "x \<in> set (to_archive h)" for x
  proof -
    from to_archive_source [OF x] obtain m where m: "m \<in> set (jm_records h)" "x = archived_form m" by blast
    have "jr_Hash m \<notin> jr_Hash ` set qs"
      using split_hashes(3) [OF memory_okD(3) [OF mem]] half x m(2) unfolding half_archived_def by force
    moreover have "map_of fs (archive_path (to_archive h)) = Some (disk_of (to_archive h))"
      using half by (simp add: half_archived_def)
    moreover have "m \<in> set (forEachRecord h)" using m(1) by (simp add: forEachRecord_def)
    ultimately obtain a where "a \<in> set new" "same_payload m a"
      using returns [OF archive_path_is_archive _ x] m(2) archived_form_payload by blast
    then show ?thesis using m(2) archived_form_payload by (metis same_payload_sym same_payload_trans)
  qed
  have nv: "\<exists>r'\<in>set (map norm_version qs). same_payload d r'" if "d \<in> set qs" for d
    using that by (intro bexI [of _ "norm_version d"]) simp_all
  show rem: "remembers h h'"
    unfolding remembers_def
  proof (intro conjI ballI)
    show "jm_chainID h' = jm_chainID h" by (simp add: h' restarted_def)
    have all: "set (forEachRecord h') = set (map norm_version qs) \<union> set new"
      by (auto simp: h' restarted_def forEachRecord_def)
    fix r assume "r \<in> set (forEachRecord h)"
    then consider "r \<in> set (jm_archived h)" | "r \<in> set (jm_records h)" by (auto simp: forEachRecord_def)
    then show "\<exists>r'\<in>set (forEachRecord h'). same_payload r r'"
    proof cases
      case 1
      then show ?thesis using archived_back all by blast
    next
      case 2
      from qs(4) show ?thesis
      proof
        assume "covers (jm_records h) qs"
        with 2 obtain d where "d \<in> set qs" "same_payload r d" by (auto simp: covers_def)
        with nv show ?thesis using all same_payload_trans by blast
      next
        assume half: "half_archived h fs qs"
        from to_keep_or_archive [OF 2] show ?thesis
        proof
          assume "r \<in> set (to_keep h)"
          with half nv show ?thesis using all unfolding half_archived_def by blast
        next
          assume "archived_form r \<in> set (to_archive h)"
          from moved_back [OF half this] show ?thesis
            using all archived_form_payload same_payload_trans by blast
        qed
      qed
    qed
  qed
  have new_ok: "record_ok E (jm_chainID h) r" if "r \<in> set new" for r
    using that adds src(2) record_ok_payload norm_version_payload unfolding adds_def archived_of_def by metis
  have hq: "jr_Hash ` set (map norm_version qs) = jr_Hash ` set qs" by (auto simp: image_image)
  have disj: "jr_Hash ` set new \<inter> jr_Hash ` set qs = {}" using adds by (simp add: adds_def)
  have mem': "memory_ok E h'"
  proof (rule memory_okI)
    show "record_ok E (jm_chainID h') r" if "r \<in> set (jm_records h')" for r
      using that qs(2) by (auto simp: h' restarted_def list_ok_def intro: record_ok_norm)
    show "distinct (map jr_Hash (jm_records h'))"
      using qs(2) by (simp add: h' restarted_def list_ok_def comp_def)
    show "distinct (map jr_Hash (jm_archived h'))" using adds by (simp add: h' restarted_def adds_def)
    show "jr_Hash ` set (jm_records h') \<inter> jr_Hash ` set (jm_archived h') = {}"
      using disj hq by (auto simp: h' restarted_def)
  qed (use new_ok qs(1) in \<open>simp_all add: h' restarted_def\<close>)
  have act: "active_on_disk E h' fs"
  proof -
    have "covers (map norm_version qs) qs"
      using norm_version_payload same_payload_sym unfolding covers_def by (metis imageE list.set_map)
    moreover have "jr_Hash ` set qs \<inter> jr_Hash ` set new = {}" using disj by blast
    ultimately have "\<exists>rs. disk_of qs = disk_of rs \<and> length rs \<le> 1000 \<and> list_ok E (jm_chainID h) rs \<and>
        jr_Hash ` set rs \<inter> jr_Hash ` set new = {} \<and> (covers (map norm_version qs) rs \<or> half_archived h' fs rs)"
      using qs(1,2) by (intro exI [of _ qs]) simp
    then show ?thesis using journal by (auto simp: active_on_disk_def h' restarted_def)
  qed
  have arch': "archived_on_disk h' fs"
    unfolding archived_on_disk_def
  proof
    fix r assume "r \<in> set (jm_archived h')"
    then have r: "r \<in> set new" by (simp add: h' restarted_def)
    with adds obtain d where d: "d \<in> set rs" "r = norm_version d" by (auto simp: adds_def)
    with src(2) obtain m where m: "m \<in> set (forEachRecord h)" "same_payload m d" by (auto simp: archived_of_def)
    have mr: "same_payload r m" using m(2) d(2) by (metis norm_version_payload same_payload_sym same_payload_trans)
    have "\<exists>a xs name y. a \<in> set new \<and> is_archive name \<and> has_prefix name (''archive-'' @ jr_Hash a @ ''-'') \<and>
        map_of fs name = Some (disk_of xs) \<and> y \<in> set xs \<and> same_payload m y"
    proof (cases "m \<in> set (jm_archived h)")
      case True
      with arch obtain b name xs y where b: "b \<in> set (jm_archived h)" "is_archive name"
        "has_prefix name (''archive-'' @ jr_Hash b @ ''-'')" "map_of fs name = Some (disk_of xs)"
        "y \<in> set xs" "same_payload m y" unfolding archived_on_disk_def by blast
      from archived_back [OF b(1)] obtain a where a: "a \<in> set new" "same_payload b a" by blast
      have "jr_Hash a = jr_Hash b" by (rule same_payload_hash [OF a(2)])
      with a(1) b(2-6) show ?thesis
        by (intro exI [of _ a] exI [of _ xs] exI [of _ name] exI [of _ y]) simp
    next
      case False
      with m(1) have act: "m \<in> set (jm_records h)" by (auto simp: forEachRecord_def)
      have "jr_Hash m \<notin> jr_Hash ` set qs"
        using disj r same_payload_hash [OF mr] by (metis IntI empty_iff imageI)
      then have "\<not> covers (jm_records h) qs"
        using act same_payload_hash unfolding covers_def by (metis imageI)
      then have half: "half_archived h fs qs" using qs(4) by blast
      have "m \<notin> set (to_keep h)"
        using \<open>jr_Hash m \<notin> jr_Hash ` set qs\<close> half unfolding half_archived_def by blast
      then have x: "archived_form m \<in> set (to_archive h)" using to_keep_or_archive [OF act] by blast
      have ne: "to_archive h \<noteq> []" and p: "map_of fs (archive_path (to_archive h)) = Some (disk_of (to_archive h))"
        using half by (simp_all add: half_archived_def)
      from ne have "hd (to_archive h) \<in> set (to_archive h)" by simp
      from moved_back [OF half this] obtain a where a: "a \<in> set new" "same_payload (hd (to_archive h)) a" by blast
      have "has_prefix (archive_path (to_archive h)) (''archive-'' @ jr_Hash a @ ''-'')"
        unfolding same_payload_hash [OF a(2)] by (rule archive_path_prefix [OF ne])
      with a(1) p x archive_path_is_archive [of "to_archive h"] show ?thesis
        by (intro exI [of _ a] exI [of _ "to_archive h"] exI [of _ "archive_path (to_archive h)"]
            exI [of _ "archived_form m"]) simp
    qed
    then obtain a xs name y where "a \<in> set new" "is_archive name" "has_prefix name (''archive-'' @ jr_Hash a @ ''-'')"
      "map_of fs name = Some (disk_of xs)" "y \<in> set xs" "same_payload m y" by blast
    moreover have "same_payload r y" by (rule same_payload_trans [OF mr calculation(6)])
    ultimately show "\<exists>a\<in>set (jm_archived h'). \<exists>name rs. is_archive name \<and>
        has_prefix name (''archive-'' @ jr_Hash a @ ''-'') \<and> map_of fs name = Some (disk_of rs) \<and>
        (\<exists>d\<in>set rs. same_payload r d)"
      by (intro bexI [of _ a] exI [of _ name] exI [of _ xs] conjI bexI [of _ y])
         (simp_all add: h' restarted_def)
  qed
  show "durable E t"
    using mem' act arch' archives_ok_remembers [OF aok rem] by (simp add: durable_def t)
qed

lemma wp_loadArchives:
  assumes laws: "eth_hash_laws E" and a: "archives_ok E h (files s)" and c: "jm_chainID (heap s) = jm_chainID h"
    and none: "jm_archived (heap s) = []"
    and ok: "\<And>w names rs new. set names = fst ` set (files s) \<Longrightarrow> archive_source (files s) names rs \<Longrightarrow>
       archived_of E h rs \<Longrightarrow> adds (map jr_Hash (jm_records (heap s))) rs new \<Longrightarrow>
       Q () (s\<lparr>world := w, heap := (heap s)\<lparr>jm_archived := new\<rparr>\<rparr>)"
    and err: "\<And>e w. io_error I e \<Longrightarrow> F e (s\<lparr>world := w\<rparr>)"
  shows "wp (loadArchives E I) Q F s"
  unfolding loadArchives_def wp_andthen
proof (rule wp_ReadDir_io)
  fix w
  let ?seen = "map jr_Hash (jm_records (heap s))"
  have "wp (for_each (dir_names (files s)) (archive_body E I (jm_chainID h)) (?seen, []))
      (\<lambda>x. wp (case x of (seen, archived) \<Rightarrow> set_heap (jm_archived_update (\<lambda>_. archived))) Q F) F (s\<lparr>world := w\<rparr>)"
    by (rule wp_archive_loop [OF laws a]) (use ok [of "dir_names (files s)"] err in \<open>simp_all add: wp_simps\<close>)
  then show "wp (get_heap (\<lambda>h. (jm_chainID h, map jr_Hash (jm_records h), jm_archived h)))
      (\<lambda>x. wp (case x of (c, seen, archived) \<Rightarrow>
          andthen (for_each (dir_names (files s)) (archive_body E I c) (seen, archived))
            (\<lambda>(seen, archived). set_heap (jm_archived_update (\<lambda>_. archived)))) Q F) F (s\<lparr>world := w\<rparr>)"
    using none c by (simp add: wp_simps)
qed (rule err)

lemma active_on_diskE:
  assumes "active_on_disk E h fs"
  obtains qs where "length qs \<le> 1000" "list_ok E (jm_chainID h) qs"
    "jr_Hash ` set qs \<inter> jr_Hash ` set (jm_archived h) = {}"
    "covers (jm_records h) qs \<or> half_archived h fs qs"
    "map_of fs journalPath = Some (disk_of qs) \<or> map_of fs journalPath = None \<and> qs = []"
proof (cases "map_of fs journalPath")
  case None
  with assms that [of "[]"] show ?thesis by (simp add: active_on_disk_def list_ok_def covers_def)
next
  case (Some f)
  with assms that show ?thesis by (auto simp: active_on_disk_def)
qed

lemma jm_records_same: "jm_records h = [] \<Longrightarrow> h\<lparr>jm_records := []\<rparr> = h"
  by (metis (full_types) journal.surjective journal.update_convs(2) journal.select_convs(2))

lemma restart_recovery:
  fixes s :: "('w, jfile, 'h journal_scheme) sys"
  assumes "eth_hash_laws E" and "durable E s"
  shows "case NewJournalManager E I [jm_chainID (heap s)] s of
      (Inr _, t) \<Rightarrow> durable E t \<and> remembers (heap s) (heap t) \<and> files t = files s
    | (Inl e, t) \<Rightarrow> io_error I e \<and> files t = files s"
proof -
  let ?h1 = "(heap s)\<lparr>jm_records := [], jm_archived := []\<rparr>"
  let ?s1 = "s\<lparr>heap := ?h1\<rparr>"
  let ?Q = "\<lambda>t. durable E t \<and> remembers (heap s) (heap t) \<and> files t = files s"
  let ?F = "\<lambda>e t. io_error I e \<and> files t = files s"
  from assms(2) have act: "active_on_disk E (heap s) (files s)" and aok: "archives_ok E (heap s) (files s)"
    by (simp_all add: durable_def)
  from act obtain qs where qs: "length qs \<le> 1000" "list_ok E (jm_chainID (heap s)) qs"
    "jr_Hash ` set qs \<inter> jr_Hash ` set (jm_archived (heap s)) = {}"
    "covers (jm_records (heap s)) qs \<or> half_archived (heap s) (files s) qs"
    "map_of (files s) journalPath = Some (disk_of qs) \<or> map_of (files s) journalPath = None \<and> qs = []"
    by (rule active_on_diskE)
  from qs(5) have journal: "map_of (files s) journalPath = None \<or> map_of (files s) journalPath = Some (disk_of qs)"
    by blast
  let ?h2 = "(heap s)\<lparr>jm_records := map norm_version qs, jm_archived := []\<rparr>"
  have archives: "wp (loadArchives E I) (\<lambda>_. ?Q) ?F t"
    if t: "heap t = ?h2" "files t = files s" for t :: "('w, jfile, 'h journal_scheme) sys"
  proof (rule wp_loadArchives [OF assms(1), where h = "heap s"])
    show "archives_ok E (heap s) (files t)" using aok t by simp
    fix w names rs new
    assume A: "set names = fst ` set (files t)" "archive_source (files t) names rs" "archived_of E (heap s) rs"
      "adds (map jr_Hash (jm_records (heap t))) rs new"
    have "map jr_Hash (map norm_version qs) = map jr_Hash qs" by simp
    then have adds: "adds (map jr_Hash qs) rs new" using A(4) t by (simp del: map_map)
    let ?h' = "restarted (heap s) (map norm_version qs) new"
    let ?t = "t\<lparr>world := w, heap := (heap t)\<lparr>jm_archived := new\<rparr>\<rparr>"
    have "heap ?t = ?h'" "files ?t = files s" using t by (simp_all add: restarted_def)
    moreover have "durable E ?t" "remembers (heap s) ?h'"
      using restarted_durable [OF assms(2) refl refl qs, of names rs new ?h' ?t] A adds t calculation by simp_all
    ultimately show "?Q ?t" by simp
  qed (use t in simp_all)
  have "wp (NewJournalManager E I [jm_chainID (heap s)]) (\<lambda>_. ?Q) ?F s"
    unfolding NewJournalManager_def wp_seq wp_set_heap
  proof (rule wp_load [OF assms(1), where qs = qs])
    fix w
    assume "map_of (files (s\<lparr>heap := (heap s)\<lparr>jm_chainID := (case [jm_chainID (heap s)] of [] \<Rightarrow> 11155111 | c # _ \<Rightarrow> c),
        jm_records := [], jm_archived := []\<rparr>\<rparr>)) journalPath = None"
    then have "qs = []" using qs(5) by simp
    then show "wp (loadArchives E I) (\<lambda>_. ?Q) ?F (s\<lparr>heap := (heap s)\<lparr>jm_chainID := (case [jm_chainID (heap s)] of [] \<Rightarrow> 11155111 | c # _ \<Rightarrow> c),
        jm_records := [], jm_archived := []\<rparr>, world := w\<rparr>)"
      by (intro archives) simp_all
  qed (use qs(1,2) journal archives in \<open>simp_all add: list_ok_def\<close>)
  then show ?thesis by (auto simp: wp_def split: prod.splits sum.splits)
qed

text \<open>
  C10: A process that stops at any moment (after a failed write as well) and is started again
  on the same directory finds every transaction it knew: each record in memory, active or
  archived, is again in memory with the same hash, quote id, signed bytes, nonce and amounts,
  and the invariant of the journal holds again.  Starting fails only when a system call
  fails; it never rejects the files the journal wrote, and it writes none.
\<close>

theorem restart_recovers_journal:
  assumes "eth_hash_laws E" and "durable E s"
  shows "case NewJournalManager E I [jm_chainID (heap s)] s of
      (Inr _, t) \<Rightarrow> durable E t \<and> remembers (heap s) (heap t) \<and> files t = files s
    | (Inl e, t) \<Rightarrow> io_error I e \<and> files t = files s"
  by (rule restart_recovery [OF assms])

section \<open>The journal as a state machine\<close>

lemma wp_update_loop:
  assumes "\<And>w ys found. list_all2 same_payload xs ys \<Longrightarrow> Q (acc @ ys, found) (s\<lparr>world := w\<rparr>)"
  shows "wp (for_each xs (\<lambda>r (nxt, found).
        if jr_Hash r = hash
        then andthen (now I) (\<lambda>t.
          ret (nxt @ [r\<lparr>jr_State := st, jr_UpdatedAt := t, jr_Confirmations := conf,
                          jr_FeeETH := fee, jr_Error := er, jr_Version := jr_Version r + 1\<rparr>], True))
        else ret (nxt @ [r], found)) (acc, f)) Q F (s\<lparr>world := v\<rparr>)"
  using assms
proof (induction xs arbitrary: acc f v)
  case Nil
  from Nil.prems [of "[]"] show ?case by (simp add: wp_simps)
next
  case (Cons r xs)
  have step: "wp (for_each xs (\<lambda>r (nxt, found).
        if jr_Hash r = hash
        then andthen (now I) (\<lambda>t.
          ret (nxt @ [r\<lparr>jr_State := st, jr_UpdatedAt := t, jr_Confirmations := conf,
                          jr_FeeETH := fee, jr_Error := er, jr_Version := jr_Version r + 1\<rparr>], True))
        else ret (nxt @ [r], found)) (acc @ [q], g)) Q F (s\<lparr>world := w\<rparr>)"
    if "same_payload r q" for q g w
  proof (rule Cons.IH)
    fix w ys found assume "list_all2 same_payload xs ys"
    with that Cons.prems [of "q # ys"] show "Q ((acc @ [q]) @ ys, found) (s\<lparr>world := w\<rparr>)" by simp
  qed
  show ?case
  proof (cases "jr_Hash r = hash")
    case False
    with step [of r] show ?thesis by (simp add: wp_simps)
  next
    case True
    have "same_payload r (r\<lparr>jr_State := st, jr_UpdatedAt := t, jr_Confirmations := conf,
        jr_FeeETH := fee, jr_Error := er, jr_Version := jr_Version r + 1\<rparr>)" for t
      by (simp add: same_payload_def)
    from step [OF this] True show ?thesis
      by (auto simp: wp_simps intro!: wp_now)
  qed
qed

lemmas wp_update_loop_start = wp_update_loop [where v = "world s" and s = s for s, simplified]

lemma durable_UpdateStateAtomic:
  assumes "durable E s"
  shows "wp (UpdateStateAtomic I hash state conf fee er)
     (\<lambda>_ t. durable E t \<and> never_forgets s t) (\<lambda>_ t. durable E t \<and> never_forgets s t) s"
proof (cases "ParseJournalState state")
  case (Inl e)
  with assms show ?thesis by (simp add: UpdateStateAtomic_def wp_simps never_forgets_def)
next
  case (Inr st)
  let ?ok = "\<lambda>t. durable E t \<and> never_forgets s t"
  have W: "(put_file journalPath f s)\<lparr>world := w, heap := h\<rparr> =
        ((put_file journalPath f s)\<lparr>heap := h\<rparr>)\<lparr>world := w\<rparr>" for f w h by simp
  have save: "wp (seq (atomicSave I ys) (set_heap (jm_records_update (\<lambda>_. ys)))) (\<lambda>_. ?ok) (\<lambda>_. ?ok) (s\<lparr>world := w\<rparr>)"
    if "list_all2 same_payload (jm_records (heap s)) ys" for ys w
  proof -
    have "length ys = length (jm_records (heap s))" using that by (simp add: list_all2_lengthD)
    moreover have "\<forall>i<length ys. same_payload (jm_records (heap s) ! i) (ys ! i)"
      using that by (simp add: list_all2_conv_all_nth)
    ultimately have D: "durable E (put_file journalPath (disk_of ys) s)"
      "durable E ((put_file journalPath (disk_of ys) s)\<lparr>heap := (heap s)\<lparr>jm_records := ys\<rparr>\<rparr>)"
      "remembers (heap s) ((heap s)\<lparr>jm_records := ys\<rparr>)"
      using durable_new_records [OF assms, of ys] by blast+
    show ?thesis
      unfolding wp_seq
      by (rule wp_atomicSave) (simp_all add: wp_simps W D assms never_forgets_def del: put_file_heap)
  qed
  have refl: "?ok (s\<lparr>world := w\<rparr>)" for w using assms by (simp add: never_forgets_def)
  show ?thesis
    unfolding UpdateStateAtomic_def Inr wp_andthen wp_lift sum.case wp_get_heap
    by (rule wp_update_loop_start) (simp add: wp_fail_if save refl assms)
qed

text \<open>
  The operations of one journal in any order, each with any outcome, and restarts of the
  process at any point between them.  A record is appended under a hash that is new, as the
  hash of a transaction the nonce and fee rules of the service let it sign is.
\<close>

inductive journal_step ::
    "('k, 'm) ethlib_scheme \<Rightarrow> ('w, 'i) io_scheme \<Rightarrow> ('w, jfile, 'h journal_scheme) sys
      \<Rightarrow> ('w, jfile, 'h journal_scheme) sys \<Rightarrow> bool"
  for E :: "('k, 'm) ethlib_scheme" and I :: "('w, 'i) io_scheme"
  where
    append: "\<forall>q\<in>set (forEachRecord (heap s)). jr_Hash q \<noteq> jr_Hash r \<Longrightarrow>
      parse_optional_address E (jr_To r) = Inr (jr_To r) \<Longrightarrow>
      AppendAtomic E I r s = (res, t) \<Longrightarrow> journal_step E I s t"
  | update: "UpdateStateAtomic I hash state conf fee er s = (res, t) \<Longrightarrow> journal_step E I s t"
  | update_if: "UpdateStateAtomicIfVersion I hash v state conf fee er fin s = (res, t) \<Longrightarrow>
      journal_step E I s t"
  | archive: "ArchiveFinalized I s = (res, t) \<Longrightarrow> journal_step E I s t"
  | restart: "NewJournalManager E I [jm_chainID (heap s)] s = (Inr (), t) \<Longrightarrow> journal_step E I s t"

lemma wp_run: "wp m (\<lambda>_. P) (\<lambda>_. P) s \<Longrightarrow> m s = (res, t) \<Longrightarrow> P t"
  by (cases res) (auto simp: wp_def)

lemma journal_step_durable:
  assumes "journal_step E I s t" and "eth_hash_laws E" and "durable E s"
  shows "durable E t \<and> remembers (heap s) (heap t)"
  using assms(1)
proof (cases rule: journal_step.cases)
  case (append r res)
  have "wp (AppendAtomic E I r) (\<lambda>_ t. durable E t \<and> never_forgets s t) (\<lambda>_ t. durable E t \<and> never_forgets s t) s"
    by (rule wp_mono [OF durable_AppendAtomic [OF assms(3,2) append(2,1)]]) auto
  from wp_run [OF this append(3)] show ?thesis by (simp add: never_forgets_def)
next
  case (update hash state conf fee er res)
  from wp_run [OF durable_UpdateStateAtomic [OF assms(3)] update] show ?thesis by (simp add: never_forgets_def)
next
  case (update_if hash v state conf fee er fin res)
  from wp_run [OF durable_UpdateStateAtomicIfVersion [OF assms(3)] update_if] show ?thesis
    by (simp add: never_forgets_def)
next
  case (archive res)
  from wp_run [OF durable_ArchiveFinalized [OF assms(3)] archive] show ?thesis by (simp add: never_forgets_def)
next
  case restart
  from restart_recovery [OF assms(2,3), of I] restart show ?thesis by simp
qed

text \<open>
  C9: Whatever operations run on a journal, in whatever order and with whatever failures and
  restarts between them, no transaction is ever lost: every record of an earlier memory is in
  every later memory with the same hash, quote id, nonce, amounts and signed bytes, and the
  directory always holds enough to rebuild the memory.
\<close>

theorem journal_never_loses:
  assumes "eth_hash_laws E" and "durable E s" and "(journal_step E I)\<^sup>*\<^sup>* s t"
  shows "durable E t \<and> remembers (heap s) (heap t)"
  using assms(3)
proof (induction rule: rtranclp_induct)
  case base
  with assms(2) show ?case by simp
next
  case (step t u)
  with journal_step_durable [OF step(2) assms(1)] show ?case by (blast intro: remembers_trans)
qed

section \<open>A sample machine\<close>

text \<open>A world without faults whose clock is a counter, and an empty wallet directory.\<close>

definition sample_start :: "(int, jfile, journal) sys" where
  "sample_start = \<lparr> world = 1700000000000000000, files = [], trace = [],
     heap = \<lparr> jm_chainID = 11155111, jm_records = [], jm_archived = [] \<rparr> \<rparr>"

definition sample_after :: "(int, jfile, journal) sys" where
  "sample_after = \<lparr> world = 1700000000000000000, files = [(journalPath, disk_of [sample_record])],
     trace = [Renamed journalPath (disk_of [sample_record])],
     heap = \<lparr> jm_chainID = 11155111, jm_records = [sample_record], jm_archived = [] \<rparr> \<rparr>"

lemma sample_start_durable: "durable E sample_start"
  by (simp add: durable_def sample_start_def memory_ok_def list_ok_def forEachRecord_def
      active_on_disk_def archived_on_disk_def archives_ok_def)

lemma sample_append:
  "AppendAtomic sample_lib sample_io sample_record sample_start = (Inr (sample_record, 1), sample_after)"
proof -
  have "validateJournalRecord sample_lib sample_record 11155111 = Inr sample_record"
    using sample_record_ok by (simp add: record_ok_def)
  moreover have "marshal_records [sample_record] = Inr (disk_of [sample_record])"
    by (simp add: marshal_records_def disk_of_def json_time_def sample_record_def seconds_def)
  moreover have "sample_record\<lparr>jr_Version := 1\<rparr> = sample_record" by (simp add: sample_record_def)
  ultimately show ?thesis
    by (simp add: AppendAtomic_def run_simps atomicSave_def atomicWriteFile_def sample_start_def
        sample_after_def sample_io_def put_file_def Let_def)
qed

lemma sample_journal_step: "journal_step sample_lib sample_io sample_start sample_after"
proof (rule journal_step.append [OF _ _ sample_append])
  show "parse_optional_address sample_lib (jr_To sample_record) = Inr (jr_To sample_record)"
    using sample_record_ok by (simp add: record_ok_def)
qed (simp add: sample_start_def forEachRecord_def)

theorem journal_never_loses_witness:
  "durable sample_lib sample_after \<and> remembers (heap sample_start) (heap sample_after)"
  using journal_never_loses [OF sample_lib_hash sample_start_durable
      r_into_rtranclp [of "journal_step sample_lib sample_io", OF sample_journal_step]] .

lemma sample_after_durable: "durable sample_lib sample_after"
  using journal_step_durable [OF sample_journal_step sample_lib_hash sample_start_durable] by simp

theorem restart_recovers_journal_witness:
  "case NewJournalManager sample_lib sample_io [jm_chainID (heap sample_after)] sample_after of
      (Inr _, t) \<Rightarrow> durable sample_lib t \<and> remembers (heap sample_after) (heap t) \<and> files t = files sample_after
    | (Inl e, t) \<Rightarrow> io_error sample_io e \<and> files t = files sample_after"
  by (rule restart_recovers_journal [OF sample_lib_hash sample_after_durable])

section \<open>What the history shows\<close>

lemma hasInFlightTx_iff:
  "hasInFlightTx E h f \<longleftrightarrow> (\<exists>r\<in>set (forEachRecord h). \<not> NonceMined h (jr_Nonce r) \<and> \<not> consumes E f r)"
proof -
  have "n \<in> set (map jr_Nonce (filter (\<lambda>r. isMinedJournalState (jr_State r)) (forEachRecord h))) \<longleftrightarrow>
      NonceMined h n" for n
    by (force simp: NonceMined_def list_ex_iff)
  then show ?thesis by (simp add: hasInFlightTx_def list_ex_iff del: set_map)
qed

lemma winner_mined: "winner rs n = Some w \<Longrightarrow> w \<in> set rs \<and> jr_Nonce w = n \<and> isMinedJournalState (jr_State w)"
  by (auto simp: winner_def dest: find_SomeD)

lemma winner_None: "winner rs n = None \<longleftrightarrow> (\<forall>r\<in>set rs. jr_Nonce r = n \<longrightarrow> \<not> isMinedJournalState (jr_State r))"
  by (auto simp: winner_def find_None_all)

lemma set_newest_first [simp]: "set (newest_first items) = set items"
  by (simp add: newest_first_def)

lemma sorted_newest_first: "sorted_wrt (\<lambda>a b. hi_CreatedAt b \<le> hi_CreatedAt a) (newest_first items)"
proof -
  have "sorted (map hi_CreatedAt (sort_key hi_CreatedAt (rev items)))" by (rule sorted_sort_key)
  then have "sorted_wrt (\<lambda>a b. hi_CreatedAt a \<le> hi_CreatedAt b) (sort_key hi_CreatedAt (rev items))"
    by (simp add: sorted_map)
  then show ?thesis by (simp add: newest_first_def sorted_wrt_rev)
qed

lemma newest_first_stable: "filter (\<lambda>i. hi_CreatedAt i = k) (newest_first items) = filter (\<lambda>i. hi_CreatedAt i = k) items"
  by (simp add: newest_first_def rev_filter sort_key_stable flip: rev_filter)

definition shown_mined :: "HistoryItem \<Rightarrow> bool" where
  "shown_mined item \<longleftrightarrow> hi_State item = state_text JournalSucceeded \<or> hi_State item = state_text JournalReverted"

lemma shown_item_mined:
  assumes "shown_mined (shown_item E records f r)"
  shows "isMinedJournalState (jr_State r) \<and> (\<forall>w. winner records (jr_Nonce r) = Some w \<longrightarrow> jr_Hash w = jr_Hash r)"
  using assms by (cases "jr_State r")
    (auto simp: shown_mined_def shown_item_def history_item_def isMinedJournalState_def Let_def
      split: option.splits if_splits)

lemma shown_item_replaced:
  assumes "hi_ReplacedBy (shown_item E records f r) \<noteq> []"
  shows "\<exists>w\<in>set records. jr_Nonce w = jr_Nonce r \<and> isMinedJournalState (jr_State w) \<and> jr_Hash w \<noteq> jr_Hash r \<and>
     hi_ReplacedBy (shown_item E records f r) = jr_Hash w \<and>
     hi_State (shown_item E records f r) = state_text JournalReplaced"
proof (cases "winner records (jr_Nonce r)")
  case None
  with assms show ?thesis by (auto simp: shown_item_def history_item_def Let_def split: if_splits)
next
  case (Some w)
  with assms winner_mined [OF Some] show ?thesis
    by (auto simp: shown_item_def history_item_def Let_def split: if_splits)
qed



end
