(* ===== verification/Chain.thy ===== *)
theory Chain
  imports Types Storage
begin

text \<open>
  internal/chain: the RPC client of one network (chain.go, rpc.go), the values it hands out
  (boundary.go) and the fees of OP Stack chains (opfees.go).  The node behind the client is a
  parameter: each JSON-RPC method is a function on the state of the network.  The lemmas show
  that nothing a node of another network says is used, when a transaction counts as
  succeeded, and what a finalized nonce is evidence of.
\<close>

section \<open>The node\<close>

record header =
  hd_Number :: int
  hd_BaseFee :: "int option"
  hd_GasLimit :: "64 word"
  hd_Time :: int
  hd_Hash :: hash32

record callMsg =
  cm_From :: address
  cm_To :: address
  cm_Value :: "int option"
  cm_Data :: bytes
  cm_GasFeeCap :: "int option"
  cm_GasTipCap :: "int option"

record log =
  lg_Address :: address
  lg_Topics :: "hash32 list"
  lg_Data :: bytes
  lg_BlockNumber :: "64 word"
  lg_TxHash :: hash32
  lg_BlockHash :: hash32
  lg_Index :: nat
  lg_Removed :: bool

text \<open>A \<^verbatim>\<open>types.Receipt\<close>; a log may be \<^verbatim>\<open>nil\<close>.\<close>

record receipt =
  rc_Status :: "64 word"
  rc_TxHash :: hash32
  rc_BlockHash :: hash32
  rc_BlockNumber :: "int option"
  rc_EffectiveGasPrice :: "int option"
  rc_GasUsed :: "64 word"
  rc_ContractAddress :: address
  rc_Logs :: "log option list"

record rpcTransaction =
  rt_Hash :: string
  rt_From :: string
  rt_To :: "string option"

record rpcBlock =
  rb_Hash :: string
  rb_Transactions :: "rpcTransaction list"

record opReceiptRPC =
  oq_TransactionHash :: string
  oq_BlockHash :: string
  oq_L1Fee :: "string option"

record filterQuery =
  fq_Addresses :: "address list"
  fq_FromBlock :: int
  fq_ToBlock :: int
  fq_Topics :: "hash32 list list"

text \<open>
  One field per method of \<^verbatim>\<open>ethclient\<close> or raw JSON-RPC call; \<open>nd_Failovers\<close> is
  the counter of the transport, \<open>nd_RevertData\<close> is \<^verbatim>\<open>ethclient.RevertErrorData\<close>.
\<close>

type_synonym ('n, 'a) call = "'n \<Rightarrow> (err + 'a) \<times> 'n"

record 'n node =
  nd_ChainID :: "('n, int) call"
  nd_Header :: "int option \<Rightarrow> ('n, header) call"
  nd_GasTip :: "('n, int) call"
  nd_EstimateGas :: "callMsg \<Rightarrow> ('n, 64 word) call"
  nd_Call :: "callMsg \<Rightarrow> int option \<Rightarrow> ('n, bytes) call"
  nd_CallAtHash :: "callMsg \<Rightarrow> hash32 \<Rightarrow> ('n, bytes) call"
  nd_Code :: "address \<Rightarrow> int option \<Rightarrow> ('n, bytes) call"
  nd_PendingNonce :: "address \<Rightarrow> ('n, 64 word) call"
  nd_Nonce :: "address \<Rightarrow> int option \<Rightarrow> ('n, 64 word) call"
  nd_Balance :: "address \<Rightarrow> int option \<Rightarrow> ('n, int) call"
  nd_BalanceAtHash :: "address \<Rightarrow> hash32 \<Rightarrow> ('n, int) call"
  nd_SendRaw :: "string \<Rightarrow> ('n, string) call"
  nd_Receipt :: "hash32 \<Rightarrow> ('n, receipt) call"
  nd_TxByHash :: "hash32 \<Rightarrow> ('n, eth_tx \<times> bool) call"
  nd_OpReceipt :: "hash32 \<Rightarrow> ('n, opReceiptRPC option) call"
  nd_RawBlock :: "64 word \<Rightarrow> ('n, rpcBlock) call"
  nd_BlockReceipts :: "64 word \<Rightarrow> ('n, receipt option list) call"
  nd_BlockTxs :: "64 word \<Rightarrow> ('n, eth_tx list) call"
  nd_FilterLogs :: "filterQuery \<Rightarrow> ('n, log list) call"
  nd_Clock :: "'n \<Rightarrow> time \<times> 'n"
  nd_Failovers :: "'n \<Rightarrow> 64 word"
  nd_RevertData :: "err \<Rightarrow> bool"

text \<open>Errors of the context and of ethclient that the code compares with.\<close>

definition deadline_exceeded :: err where
  "deadline_exceeded = ErrExt ''context deadline exceeded''"

definition context_canceled :: err where
  "context_canceled = ErrExt ''context canceled''"

definition eth_not_found :: err where
  "eth_not_found = ErrExt ''not found''"

section \<open>Client (chain.go)\<close>

definition SepoliaID :: int where "SepoliaID = 11155111"
definition ArbitrumSepoliaID :: int where "ArbitrumSepoliaID = 421614"
definition BaseSepoliaID :: int where "BaseSepoliaID = 84532"
definition OptimismSepoliaID :: int where "OptimismSepoliaID = 11155420"
definition PolygonAmoyID :: int where "PolygonAmoyID = 80002"

definition NetworkSlug :: "int \<Rightarrow> string" where
  "NetworkSlug c =
     (if c = SepoliaID then ''sepolia''
      else if c = ArbitrumSepoliaID then ''arbitrum''
      else if c = BaseSepoliaID then ''base''
      else if c = OptimismSepoliaID then ''optimism''
      else if c = PolygonAmoyID then ''polygon''
      else ''sepolia'')"

record 'n client =
  cl_chainID :: int
  cl_transport :: bool
  cl_networkVerified :: bool
  cl_verifiedFailovers :: "64 word"
  cl_node :: 'n

type_synonym ('n, 'a) cact = "('n client, err, 'a) go"

definition ChainID :: "'n client \<Rightarrow> int" where
  "ChainID c = (if cl_chainID c = 0 then SepoliaID else cl_chainID c)"

definition NativeSymbol :: "int \<Rightarrow> string" where
  "NativeSymbol chainID = (if chainID = PolygonAmoyID then ''POL'' else ''ETH'')"

definition is_op_stack :: "int \<Rightarrow> bool" where
  "is_op_stack chainID \<longleftrightarrow> chainID = 84532 \<or> chainID = 11155420"

definition rpcError :: "err \<Rightarrow> err" where
  "rpcError e = (if err_is e deadline_exceeded then ErrTimeout else ErrUnavailable)"

definition rpc :: "('n, 'a) call \<Rightarrow> ('n, 'a) cact" where
  "rpc f = (\<lambda>c. case f (cl_node c) of (r, n) \<Rightarrow> (r, c\<lparr>cl_node := n\<rparr>))"

definition rpc_now :: "'n node \<Rightarrow> ('n, time) cact" where
  "rpc_now N = rpc (\<lambda>n. case nd_Clock N n of (t, n') \<Rightarrow> (Inr t, n'))"

definition current_failovers :: "'n node \<Rightarrow> 'n client \<Rightarrow> 64 word" where
  "current_failovers N c = (if cl_transport c then nd_Failovers N (cl_node c) else 0)"

definition verifyNetwork :: "'n node \<Rightarrow> ('n, unit) cact" where
  "verifyNetwork N =
     andthen (gets (\<lambda>c. (current_failovers N c, ChainID c))) (\<lambda>(currentFailovers, chainID).
     andthen (map_err rpcError (rpc (nd_ChainID N))) (\<lambda>id.
       if \<not> (- (2 ^ 63) \<le> id \<and> id < 2 ^ 63) \<or> id \<noteq> chainID
       then seq (modify (\<lambda>c. c\<lparr>cl_networkVerified := False\<rparr>)) (throw ErrNetwork)
       else seq (modify (\<lambda>c. c\<lparr>cl_verifiedFailovers := currentFailovers\<rparr>))
                (modify (\<lambda>c. c\<lparr>cl_networkVerified := True\<rparr>))))"

definition checkNetwork :: "'n node \<Rightarrow> ('n, unit) cact" where
  "checkNetwork N =
     andthen (gets (\<lambda>c. cl_networkVerified c \<and> cl_verifiedFailovers c = current_failovers N c)) (\<lambda>known.
       if known then ret () else verifyNetwork N)"

text \<open>The shape of most methods: the cached network check, then one call.\<close>

definition checked :: "'n node \<Rightarrow> ('n, 'a) call \<Rightarrow> ('n, 'a) cact" where
  "checked N f = seq (checkNetwork N) (map_err rpcError (rpc f))"

section \<open>Values handed out (boundary.go)\<close>

record Network =
  nw_ChainID :: int
  nw_Block :: string
  nw_BlockTime :: time
  nw_CheckedAt :: time

record Balance =
  ba_Address :: string
  ba_Wei :: string
  ba_ETH :: string
  ba_Block :: string
  ba_CheckedAt :: time

record Transaction =
  ti_Finalized :: bool
  ti_BlockHash :: string
  ti_Hash :: string
  ti_State :: string
  ti_Block :: string
  ti_Confirmations :: string
  ti_GasUsed :: string
  ti_FeeETH :: string
  ti_CheckedAt :: time

datatype transactionState =
    transactionPending | transactionReceiptUnavailable | transactionSucceeded
  | transactionReverted | transactionReorgDetected

primrec transactionState_text :: "transactionState \<Rightarrow> string" where
  "transactionState_text transactionPending = ''pending''"
| "transactionState_text transactionReceiptUnavailable = ''receipt_unavailable''"
| "transactionState_text transactionSucceeded = ''succeeded''"
| "transactionState_text transactionReverted = ''reverted''"
| "transactionState_text transactionReorgDetected = ''reorg_detected''"

record transactionSnapshot =
  ts_finalized :: bool
  ts_blockHash :: hash32
  ts_hash :: hash32
  ts_state :: transactionState
  ts_block :: "int option"
  ts_confirmations :: "int option"
  ts_gasUsed :: "64 word"
  ts_feeWei :: "int option"
  ts_checkedAt :: time

definition transactionToAPI :: "('k, 'm) ethlib_scheme \<Rightarrow> transactionSnapshot \<Rightarrow> Transaction" where
  "transactionToAPI E v =
     \<lparr> ti_Finalized = ts_finalized v,
       ti_BlockHash = (if ts_block v \<noteq> None then HashHex E (ts_blockHash v) else []),
       ti_Hash = HashHex E (ts_hash v),
       ti_State = transactionState_text (ts_state v),
       ti_Block = (case ts_block v of None \<Rightarrow> [] | Some b \<Rightarrow> int_str b),
       ti_Confirmations = (case ts_confirmations v of None \<Rightarrow> [] | Some n \<Rightarrow> int_str n),
       ti_GasUsed = (if ts_feeWei v \<noteq> None then int_str (uint (ts_gasUsed v)) else []),
       ti_FeeETH = (case ts_feeWei v of None \<Rightarrow> [] | Some f \<Rightarrow> eth_text f),
       ti_CheckedAt = ts_checkedAt v \<rparr>"

definition rpcHashToDomain :: "('k, 'm) ethlib_scheme \<Rightarrow> string \<Rightarrow> err + hash32" where
  "rpcHashToDomain E value =
     (if \<not> hash_pattern value then Inl ErrUnavailable else Inr (HexToHash E value))"

record transactionReference =
  tr_hash :: hash32
  tr_from :: address
  tr_to :: "address option"

record blockRecord =
  br_hash :: hash32
  br_transactions :: "transactionReference list"

definition hex_address_text :: "('k, 'm) ethlib_scheme \<Rightarrow> string \<Rightarrow> bool" where
  "hex_address_text E s \<longleftrightarrow> has_prefix s ''0x'' \<and> IsHexAddress E s"

definition rpcTransactionToDomain ::
    "('k, 'm) ethlib_scheme \<Rightarrow> rpcTransaction \<Rightarrow> err + transactionReference" where
  "rpcTransactionToDomain E tx =
     (case rpcHashToDomain E (rt_Hash tx) of
        Inl _ \<Rightarrow> Inl ErrUnavailable
      | Inr txHash \<Rightarrow>
          if \<not> hex_address_text E (rt_From tx) then Inl ErrUnavailable
          else case rt_To tx of
              None \<Rightarrow> Inr \<lparr> tr_hash = txHash, tr_from = HexToAddress E (rt_From tx), tr_to = None \<rparr>
            | Some to \<Rightarrow>
                if \<not> hex_address_text E to then Inl ErrUnavailable
                else Inr \<lparr> tr_hash = txHash, tr_from = HexToAddress E (rt_From tx),
                           tr_to = Some (HexToAddress E to) \<rparr>)"

definition rpcBlockToDomain :: "('k, 'm) ethlib_scheme \<Rightarrow> rpcBlock \<Rightarrow> err + blockRecord" where
  "rpcBlockToDomain E value =
     ebind (rpcHashToDomain E (rb_Hash value)) (\<lambda>hash.
     ebind (emap (rpcTransactionToDomain E) (rb_Transactions value)) (\<lambda>txs.
       Inr \<lparr> br_hash = hash, br_transactions = txs \<rparr>))"

record opReceiptRecord =
  or_transactionHash :: hash32
  or_blockHash :: hash32
  or_l1Fee :: int

text \<open>
  \<^verbatim>\<open>hexutil.DecodeBig\<close>: "0x", then hexadecimal digits without a leading zero, at most 256 bits.
\<close>

definition hex_val :: "string \<Rightarrow> nat" where
  "hex_val s = foldl (\<lambda>a c. 16 * a + hex_value c) 0 s"

definition decode_big :: "string \<Rightarrow> int option" where
  "decode_big s =
     (if \<not> has_prefix s ''0x'' \<and> \<not> has_prefix s ''0X'' then None
      else let d = drop 2 s in
        if d = [] \<or> 1 < length d \<and> hd d = CHR ''0'' \<or> 64 < length d \<or> \<not> list_all is_hex d then None
        else Some (int (hex_val d)))"

definition opReceiptToDomain ::
    "('k, 'm) ethlib_scheme \<Rightarrow> opReceiptRPC option \<Rightarrow> err + opReceiptRecord" where
  "opReceiptToDomain E value =
     (case value of
        None \<Rightarrow> Inl ErrUnavailable
      | Some v \<Rightarrow>
         (case oq_L1Fee v of
            None \<Rightarrow> Inl ErrUnavailable
          | Some feeText \<Rightarrow>
              ebind (rpcHashToDomain E (oq_TransactionHash v)) (\<lambda>transactionHash.
              ebind (rpcHashToDomain E (oq_BlockHash v)) (\<lambda>blockHash.
                case decode_big feeText of
                  None \<Rightarrow> Inl ErrUnavailable
                | Some l1Fee \<Rightarrow> Inr \<lparr> or_transactionHash = transactionHash, or_blockHash = blockHash,
                                      or_l1Fee = l1Fee \<rparr>))))"

definition networkToAPI :: "int \<Rightarrow> int \<Rightarrow> time \<Rightarrow> time \<Rightarrow> Network" where
  "networkToAPI chainID block blockTime checkedAt =
     \<lparr> nw_ChainID = chainID, nw_Block = int_str block, nw_BlockTime = blockTime, nw_CheckedAt = checkedAt \<rparr>"

definition balanceToAPI :: "('k, 'm) ethlib_scheme \<Rightarrow> address \<Rightarrow> int \<Rightarrow> int \<Rightarrow> time \<Rightarrow> Balance" where
  "balanceToAPI E address wei block checkedAt =
     \<lparr> ba_Address = AddressHex E address, ba_Wei = int_str wei, ba_ETH = eth_text wei,
       ba_Block = int_str block, ba_CheckedAt = checkedAt \<rparr>"

section \<open>Methods (rpc.go, chain.go)\<close>

definition CheckNetwork :: "'n node \<Rightarrow> ('n, unit) cact" where
  "CheckNetwork N = verifyNetwork N"

definition HeaderByNumber :: "'n node \<Rightarrow> int option \<Rightarrow> ('n, header) cact" where
  "HeaderByNumber N number = checked N (nd_Header N number)"

definition SuggestGasTipCap :: "'n node \<Rightarrow> ('n, int) cact" where
  "SuggestGasTipCap N = checked N (nd_GasTip N)"

definition EstimateGas :: "'n node \<Rightarrow> callMsg \<Rightarrow> ('n, 64 word) cact" where
  "EstimateGas N msg = checked N (nd_EstimateGas N msg)"

text \<open>
  \<^verbatim>\<open>strings.Contains\<close> on the lower-case text of the error; the text of a sentinel
  error is a fixed message that holds none of the words looked for.
\<close>

definition contains :: "string \<Rightarrow> string \<Rightarrow> bool" where
  "contains s p = list_ex (\<lambda>i. has_prefix (drop i s) p) [0..<Suc (length s)]"

definition err_text :: "err \<Rightarrow> string" where
  "err_text e = (case unwrap e of ErrExt t \<Rightarrow> t | ErrNew t \<Rightarrow> t | _ \<Rightarrow> ''sentinel'')"

definition checkRevertError :: "'n node \<Rightarrow> err \<Rightarrow> bool" where
  "checkRevertError N e \<longleftrightarrow>
     nd_RevertData N e \<or>
     (let lower = to_lower (err_text e)
      in contains lower ''execution reverted'' \<or> contains lower ''vm execution error'')"

definition callError :: "'n node \<Rightarrow> err \<Rightarrow> err" where
  "callError N e =
     (if err_is e deadline_exceeded \<or> err_is e context_canceled then ErrTimeout
      else if checkRevertError N e then e
      else rpcError e)"

definition CallContract :: "'n node \<Rightarrow> callMsg \<Rightarrow> int option \<Rightarrow> ('n, bytes) cact" where
  "CallContract N msg blockNumber =
     seq (checkNetwork N) (map_err (callError N) (rpc (nd_Call N msg blockNumber)))"

definition CodeAt :: "'n node \<Rightarrow> address \<Rightarrow> int option \<Rightarrow> ('n, bytes) cact" where
  "CodeAt N account blockNumber = checked N (nd_Code N account blockNumber)"

definition PendingNonceAt :: "'n node \<Rightarrow> address \<Rightarrow> ('n, 64 word) cact" where
  "PendingNonceAt N account = checked N (nd_PendingNonce N account)"

definition BalanceAt :: "'n node \<Rightarrow> address \<Rightarrow> int option \<Rightarrow> ('n, int) cact" where
  "BalanceAt N account blockNumber = checked N (nd_Balance N account blockNumber)"

definition NonceAt :: "'n node \<Rightarrow> address \<Rightarrow> ('n, 64 word) cact" where
  "NonceAt N account = checked N (nd_Nonce N account None)"

text \<open>The hash a transaction prints, as a \<^verbatim>\<open>common.Hash\<close>.\<close>

definition tx_id :: "('k, 'm) ethlib_scheme \<Rightarrow> eth_tx \<Rightarrow> hash32" where
  "tx_id E tx = HexToHash E (tx_hash tx)"

definition SendTransaction :: "('k, 'm) ethlib_scheme \<Rightarrow> 'n node \<Rightarrow> eth_tx \<Rightarrow> ('n, unit) cact" where
  "SendTransaction E N tx =
     seq (checkNetwork N)
    (andthen (gets ChainID) (\<lambda>chainID.
     fail_if (tx_chain tx \<noteq> chainID) ErrNetwork
    (andthen (map_err (\<lambda>_. ErrUnavailable) (lift (TxMarshal E tx))) (\<lambda>raw.
     andthen (map_err rpcError (rpc (nd_SendRaw N (HexutilEncode E raw)))) (\<lambda>wireHash.
     andthen (lift (rpcHashToDomain E wireHash)) (\<lambda>hash.
     fail_if (hash \<noteq> tx_id E tx) ErrUnavailable
    (ret ())))))))"

definition FinalizedNonceAt :: "'n node \<Rightarrow> address \<Rightarrow> ('n, 64 word) cact" where
  "FinalizedNonceAt N account =
     seq (verifyNetwork N)
    (andthen (gets (current_failovers N)) (\<lambda>failovers.
     andthen (map_err rpcError (rpc (nd_Nonce N account (Some (- 3))))) (\<lambda>nonce.
     seq (verifyNetwork N)
    (andthen (gets (\<lambda>c. cl_transport c \<and> nd_Failovers N (cl_node c) \<noteq> failovers)) (\<lambda>changed.
     fail_if changed ErrUnavailable
    (ret nonce))))))"

definition NetworkInfo :: "'n node \<Rightarrow> ('n, Network) cact" where
  "NetworkInfo N =
     andthen (checked N (nd_Header N None)) (\<lambda>h.
     andthen (gets ChainID) (\<lambda>chainID.
     andthen (rpc_now N) (\<lambda>t.
       ret (networkToAPI chainID (hd_Number h) (seconds (hd_Time h)) t))))"

definition BalanceInfo :: "('k, 'm) ethlib_scheme \<Rightarrow> 'n node \<Rightarrow> string \<Rightarrow> ('n, Balance) cact" where
  "BalanceInfo E N address =
     fail_if (\<not> has_prefix address ''0x'' \<or> \<not> IsHexAddress E address) ErrAddress
    (andthen (checked N (nd_Header N None)) (\<lambda>h.
       let a = HexToAddress E address in
       andthen (map_err rpcError (rpc (nd_BalanceAtHash N a (hd_Hash h)))) (\<lambda>amount.
       andthen (rpc_now N) (\<lambda>t.
         ret (balanceToAPI E a amount (hd_Number h) t)))))"

section \<open>Fees of OP Stack chains (opfees.go)\<close>

definition opGasPriceOracleAddr :: "('k, 'm) ethlib_scheme \<Rightarrow> address" where
  "opGasPriceOracleAddr E = HexToAddress E ''0x420000000000000000000000000000000000000F''"

definition selector :: "('k, 'm) ethlib_scheme \<Rightarrow> string \<Rightarrow> bytes" where
  "selector E signature = take 4 (be_bytes 32 (unat (Keccak256 E (map of_char signature))))"

definition oracleFee ::
    "('k, 'm) ethlib_scheme \<Rightarrow> 'n node \<Rightarrow> bytes \<Rightarrow> 64 word \<Rightarrow> hash32 option \<Rightarrow> ('n, int) cact" where
  "oracleFee E N sel value blockHash =
     (let msg = \<lparr> cm_From = 0, cm_To = opGasPriceOracleAddr E, cm_Value = None,
                  cm_Data = sel @ be_bytes 32 (unat value), cm_GasFeeCap = None, cm_GasTipCap = None \<rparr> in
      andthen (map_err rpcError
                 (case blockHash of
                    None \<Rightarrow> CallContract N msg None
                  | Some h \<Rightarrow> rpc (nd_CallAtHash N msg h))) (\<lambda>raw.
        fail_if (length raw \<noteq> 32) ErrUnavailable
       (ret (int (be_val raw)))))"

definition RollupFee :: "('k, 'm) ethlib_scheme \<Rightarrow> 'n node \<Rightarrow> eth_tx \<Rightarrow> ('n, int) cact" where
  "RollupFee E N tx =
     andthen (gets ChainID) (\<lambda>chainID.
       if \<not> is_op_stack chainID then ret 0
       else andthen (lift (TxMarshal E tx)) (\<lambda>raw.
            andthen (oracleFee E N (selector E ''getL1FeeUpperBound(uint256)'') (word_of_nat (length raw)) None) (\<lambda>l1.
            andthen (oracleFee E N (selector E ''getOperatorFee(uint256)'') (tx_gas tx) None) (\<lambda>operator.
              ret (l1 + operator)))))"

text \<open>The callers have checked that the effective gas price is present.\<close>

definition ReceiptFee :: "('k, 'm) ethlib_scheme \<Rightarrow> 'n node \<Rightarrow> receipt \<Rightarrow> ('n, int) cact" where
  "ReceiptFee E N r =
     (let fee = uint (rc_GasUsed r) * (case rc_EffectiveGasPrice r of None \<Rightarrow> 0 | Some p \<Rightarrow> p) in
      andthen (gets ChainID) (\<lambda>chainID.
        if \<not> is_op_stack chainID then ret fee
        else andthen (map_err rpcError (rpc (nd_OpReceipt N (rc_TxHash r)))) (\<lambda>wire.
          case opReceiptToDomain E wire of
            Inl _ \<Rightarrow> throw ErrUnavailable
          | Inr extra \<Rightarrow>
              fail_if (or_transactionHash extra \<noteq> rc_TxHash r \<or> or_blockHash extra \<noteq> rc_BlockHash r) ErrUnavailable
             (andthen (oracleFee E N (selector E ''getOperatorFee(uint256)'') (rc_GasUsed r) (Some (rc_BlockHash r)))
                (\<lambda>operator. ret (fee + (or_l1Fee extra + operator)))))))"

section \<open>The state of a transaction\<close>

text \<open>Finality is claimed only when two more answers agree; errors mean no.\<close>

definition receipt_finalized :: "'n node \<Rightarrow> receipt \<Rightarrow> int \<Rightarrow> ('n, bool) cact" where
  "receipt_finalized N r block =
     andthen (attempt (rpc (nd_Header N (Some (- 3))))) (\<lambda>finalHead.
       case finalHead of
         Inl _ \<Rightarrow> ret False
       | Inr fh \<Rightarrow>
           if \<not> block \<le> hd_Number fh then ret False
           else andthen (attempt (rpc (nd_Header N (Some block)))) (\<lambda>verified.
             case verified of
               Inl _ \<Rightarrow> ret False
             | Inr v \<Rightarrow> ret (hd_Hash v = rc_BlockHash r)))"

definition transaction_lookup :: "('k, 'm) ethlib_scheme \<Rightarrow> 'n node \<Rightarrow> hash32 \<Rightarrow> ('n, Transaction) cact" where
  "transaction_lookup E N hid =
     andthen (attempt (rpc (nd_TxByHash N hid))) (\<lambda>found.
       case found of
         Inl e \<Rightarrow> if err_is e eth_not_found then throw ErrNotFound else throw (rpcError e)
       | Inr (_, pending) \<Rightarrow>
           andthen (rpc_now N) (\<lambda>t.
             ret (transactionToAPI E \<lparr> ts_finalized = False, ts_blockHash = 0, ts_hash = hid,
                ts_state = (if pending then transactionPending else transactionReceiptUnavailable),
                ts_block = None, ts_confirmations = None, ts_gasUsed = 0, ts_feeWei = None, ts_checkedAt = t \<rparr>)))"

text \<open>The receipt is there.\<close>

definition transaction_mined ::
    "('k, 'm) ethlib_scheme \<Rightarrow> 'n node \<Rightarrow> hash32 \<Rightarrow> receipt \<Rightarrow> ('n, Transaction) cact" where
  "transaction_mined E N hid r =
     (case rc_BlockNumber r of
        None \<Rightarrow> throw ErrUnavailable
      | Some block \<Rightarrow>
          fail_if (rc_EffectiveGasPrice r = None \<or> rc_TxHash r \<noteq> hid) ErrUnavailable
         (andthen (map_err rpcError (rpc (nd_Header N (Some block)))) (\<lambda>canonical.
            if hd_Hash canonical \<noteq> rc_BlockHash r
            then andthen (rpc_now N) (\<lambda>t.
              ret (transactionToAPI E \<lparr> ts_finalized = False, ts_blockHash = 0, ts_hash = hid,
                 ts_state = transactionReorgDetected, ts_block = None, ts_confirmations = None,
                 ts_gasUsed = 0, ts_feeWei = None, ts_checkedAt = t \<rparr>))
            else andthen (map_err rpcError (rpc (nd_Header N None))) (\<lambda>head.
              fail_if (hd_Number head < block) ErrUnavailable
             (andthen (receipt_finalized N r block) (\<lambda>finalized.
              andthen (ReceiptFee E N r) (\<lambda>fee.
              andthen (rpc_now N) (\<lambda>t.
                ret (transactionToAPI E \<lparr> ts_finalized = finalized, ts_blockHash = rc_BlockHash r,
                   ts_hash = hid,
                   ts_state = (if rc_Status r = 1 then transactionSucceeded else transactionReverted),
                   ts_block = Some block, ts_confirmations = Some (hd_Number head - block + 1),
                   ts_gasUsed = rc_GasUsed r, ts_feeWei = Some fee, ts_checkedAt = t \<rparr>)))))))))"

definition TransactionInfo :: "('k, 'm) ethlib_scheme \<Rightarrow> 'n node \<Rightarrow> string \<Rightarrow> ('n, Transaction) cact" where
  "TransactionInfo E N hash =
     fail_if (\<not> hash_pattern hash) ErrHash
    (seq (checkNetwork N)
    (let hid = HexToHash E hash in
     andthen (attempt (rpc (nd_Receipt N hid))) (\<lambda>found.
       case found of
         Inl e \<Rightarrow> if err_is e eth_not_found then transaction_lookup E N hid else throw (rpcError e)
       | Inr r \<Rightarrow> transaction_mined E N hid r)))"

section \<open>The client as the wallet uses it\<close>

text \<open>
  The wallet calls the client through these operations, on a world that contains it;
  \<open>client_api\<close> is the client above.  \<open>ca_ErrorData\<close> is what \<^verbatim>\<open>rpc.DataError\<close>
  carries with an error.
\<close>

datatype error_data = NoData | DataString string | DataBytes bytes | DataMap "string option"

record 'w chain_api =
  ca_ChainID :: int
  ca_CheckNetwork :: "('w, unit) call"
  ca_HeaderByNumber :: "int option \<Rightarrow> ('w, header) call"
  ca_SuggestGasTipCap :: "('w, int) call"
  ca_EstimateGas :: "callMsg \<Rightarrow> ('w, 64 word) call"
  ca_CallContract :: "callMsg \<Rightarrow> int option \<Rightarrow> ('w, bytes) call"
  ca_CodeAt :: "address \<Rightarrow> int option \<Rightarrow> ('w, bytes) call"
  ca_PendingNonceAt :: "address \<Rightarrow> ('w, 64 word) call"
  ca_BalanceAt :: "address \<Rightarrow> int option \<Rightarrow> ('w, int) call"
  ca_NonceAt :: "address \<Rightarrow> ('w, 64 word) call"
  ca_FinalizedNonceAt :: "address \<Rightarrow> ('w, 64 word) call"
  ca_SendTransaction :: "eth_tx \<Rightarrow> ('w, unit) call"
  ca_RollupFee :: "eth_tx \<Rightarrow> ('w, int) call"
  ca_Transaction :: "string \<Rightarrow> ('w, Transaction) call"
  ca_ErrorData :: "err \<Rightarrow> error_data"

definition client_api ::
    "('k, 'm) ethlib_scheme \<Rightarrow> 'n node \<Rightarrow> (err \<Rightarrow> error_data) \<Rightarrow> 'n client \<Rightarrow> 'n client chain_api" where
  "client_api E N D c =
     \<lparr> ca_ChainID = ChainID c,
       ca_CheckNetwork = CheckNetwork N,
       ca_HeaderByNumber = HeaderByNumber N,
       ca_SuggestGasTipCap = SuggestGasTipCap N,
       ca_EstimateGas = EstimateGas N,
       ca_CallContract = CallContract N,
       ca_CodeAt = CodeAt N,
       ca_PendingNonceAt = PendingNonceAt N,
       ca_BalanceAt = BalanceAt N,
       ca_NonceAt = NonceAt N,
       ca_FinalizedNonceAt = FinalizedNonceAt N,
       ca_SendTransaction = SendTransaction E N,
       ca_RollupFee = RollupFee E N,
       ca_Transaction = TransactionInfo E N,
       ca_ErrorData = D \<rparr>"

end
