(* ===== verification/ChainFacts.thy ===== *)
theory ChainFacts
  imports Chain Records
begin

text \<open>
  What the answers of the RPC client are evidence of: nothing is taken from a node before it
  has named the configured network, a transaction is sent for that network only and its hash
  confirmed, and a settled or finalized transaction rests on answers of the node that agree.
\<close>

section \<open>What a node said\<close>

definition said :: "('n, 'a) call \<Rightarrow> 'a \<Rightarrow> bool" where
  "said f x \<longleftrightarrow> (\<exists>n n'. f n = (Inr x, n'))"

lemma ok_rpc:
  "rpc f c = (Inr x, c') \<longleftrightarrow> (\<exists>n. f (cl_node c) = (Inr x, n) \<and> c' = c\<lparr>cl_node := n\<rparr>)"
  by (auto simp: rpc_def split: prod.split)

lemma rpc_said: "rpc f c = (Inr x, c') \<Longrightarrow> said f x"
  by (auto simp: ok_rpc said_def)

text \<open>The client record keeps its network, and claims to be verified only when a node agreed.\<close>

definition client_ok :: "'n node \<Rightarrow> 'n client \<Rightarrow> bool" where
  "client_ok N c \<longleftrightarrow> \<not> cl_networkVerified c \<or> said (nd_ChainID N) (ChainID c)"

definition same_network :: "'n node \<Rightarrow> 'n client \<Rightarrow> 'n client \<Rightarrow> bool" where
  "same_network N c c' \<longleftrightarrow> ChainID c' = ChainID c \<and> (client_ok N c \<longrightarrow> client_ok N c')"

interpretation same_network: effect "same_network N"
  by unfold_locales (auto simp: same_network_def)

lemma same_network_rpc: "within (same_network N) (rpc f)"
  by (simp add: within_def same_network_def rpc_def client_ok_def ChainID_def split: prod.split)

lemma verifyNetwork_ok:
  "verifyNetwork N c = (Inr u, c') \<Longrightarrow> said (nd_ChainID N) (ChainID c) \<and> cl_networkVerified c'"
  by (auto simp: verifyNetwork_def ok_simps dest: rpc_said split: if_splits)

lemma verifyNetwork_same: "within (same_network N) (verifyNetwork N)"
  unfolding within_def
proof
  fix c
  obtain r c' where run: "verifyNetwork N c = (r, c')" by force
  then have "ChainID c' = ChainID c"
    by (auto simp: verifyNetwork_def run_simps rpc_def ChainID_def split: prod.splits sum.splits if_splits)
  moreover have "client_ok N c'" if "client_ok N c"
  proof (cases r)
    case (Inl e)
    with run that show ?thesis
      by (auto simp: verifyNetwork_def run_simps rpc_def client_ok_def ChainID_def
          split: prod.splits sum.splits if_splits)
  next
    case (Inr u)
    with run verifyNetwork_ok [of N c u c'] \<open>ChainID c' = ChainID c\<close> show ?thesis
      by (simp add: client_ok_def)
  qed
  ultimately show "same_network N c (snd (verifyNetwork N c))" by (simp add: same_network_def run)
qed

lemma checkNetwork_same: "within (same_network N) (checkNetwork N)"
  unfolding checkNetwork_def
  by (intro same_network.eff_andthen same_network.eff_gets same_network.eff_if same_network.eff_ret
      verifyNetwork_same)

lemmas network_intros = same_network.eff_andthen same_network.eff_seq same_network.eff_if
  same_network.eff_ret same_network.eff_throw same_network.eff_lift same_network.eff_gets
  same_network.eff_fail_if same_network.eff_map_err same_network.eff_attempt same_network.eff_option
  same_network.eff_sum same_network.eff_prod same_network.eff_let same_network_rpc
  checkNetwork_same verifyNetwork_same

lemma checkNetwork_ok:
  assumes "client_ok N c" and "checkNetwork N c = (Inr u, c')"
  shows "said (nd_ChainID N) (ChainID c) \<and> ChainID c' = ChainID c"
proof -
  have "ChainID c' = ChainID c"
    using withinD [OF checkNetwork_same assms(2)] by (simp add: same_network_def)
  with assms show ?thesis
    by (auto simp: checkNetwork_def ok_simps client_ok_def dest: verifyNetwork_ok split: if_splits)
qed

lemma methods_same:
  "within (same_network N) (HeaderByNumber N number)" "within (same_network N) (CallContract N msg number)"
  "within (same_network N) (SendTransaction E N tx)" "within (same_network N) (FinalizedNonceAt N a)"
  "within (same_network N) (oracleFee E N sel v b)"
  unfolding HeaderByNumber_def CallContract_def checked_def SendTransaction_def FinalizedNonceAt_def
    oracleFee_def
  by (intro network_intros)+

lemma fees_same:
  "within (same_network N) (RollupFee E N tx)" "within (same_network N) (ReceiptFee E N r)"
  unfolding RollupFee_def ReceiptFee_def by (intro network_intros methods_same)+

lemma TransactionInfo_same: "within (same_network N) (TransactionInfo E N hash)"
  unfolding TransactionInfo_def transaction_lookup_def transaction_mined_def receipt_finalized_def rpc_now_def
  by (intro network_intros fees_same)

section \<open>The network guard\<close>

text \<open>
  A client that starts unverified never hands out a value unless a node has named the
  configured network, and it keeps that evidence: the value of every checked call was said by
  the node, the configured chain does not change, and the client stays verified honestly.
\<close>

theorem checked_network_guard:
  assumes "client_ok N c" and "checked N f c = (Inr x, c')"
  shows "said (nd_ChainID N) (ChainID c) \<and> said f x \<and> ChainID c' = ChainID c \<and> client_ok N c'"
proof -
  from assms(2) obtain u d where check: "checkNetwork N c = (Inr u, d)" and call: "rpc f d = (Inr x, c')"
    by (auto simp: checked_def ok_simps)
  have "within (same_network N) (checked N f)" unfolding checked_def by (intro network_intros)
  from withinD [OF this assms(2)] have "same_network N c c'" .
  with checkNetwork_ok [OF assms(1) check] rpc_said [OF call] assms(1) show ?thesis
    by (simp add: same_network_def)
qed

lemma checkNetwork_no_send: "checkNetwork (N\<lparr>nd_SendRaw := send\<rparr>) = checkNetwork N"
proof -
  have "current_failovers (N\<lparr>nd_SendRaw := send\<rparr>) = current_failovers N"
    by (rule ext) (simp add: current_failovers_def)
  moreover from this have "verifyNetwork (N\<lparr>nd_SendRaw := send\<rparr>) = verifyNetwork N" by (simp add: verifyNetwork_def)
  ultimately show ?thesis by (simp add: checkNetwork_def cong: if_cong)
qed

text \<open>
  C32: in every run, whatever its outcome, a transaction is handed to the node only when it is
  signed for the configured network and the check of the network has succeeded, which takes a node
  that named it: otherwise the run is the same for every way the node could send, so it does not
  send.  Sending succeeds only when the node answers with the hash of this very transaction.
\<close>

theorem SendTransaction_confirmed:
  assumes "client_ok N c" and "SendTransaction E N tx c = (r, c')"
  shows "((\<exists>d. checkNetwork N c = (Inr (), d)) \<and> tx_chain tx = ChainID c \<and> said (nd_ChainID N) (ChainID c) \<or>
      (\<forall>send. SendTransaction E (N\<lparr>nd_SendRaw := send\<rparr>) tx c = (r, c'))) \<and>
    (r = Inr () \<longrightarrow> tx_chain tx = ChainID c \<and> said (nd_ChainID N) (ChainID c) \<and>
       (\<exists>raw wire. TxMarshal E tx = Inr raw \<and> said (nd_SendRaw N (HexutilEncode E raw)) wire \<and>
          hash_pattern wire \<and> HexToHash E wire = tx_id E tx))"
proof (rule conjI)
  obtain x d where check: "checkNetwork N c = (x, d)" by force
  show "(\<exists>d. checkNetwork N c = (Inr (), d)) \<and> tx_chain tx = ChainID c \<and> said (nd_ChainID N) (ChainID c) \<or>
      (\<forall>send. SendTransaction E (N\<lparr>nd_SendRaw := send\<rparr>) tx c = (r, c'))"
  proof (cases "x = Inr () \<and> tx_chain tx = ChainID c")
    case True
    with check checkNetwork_ok [OF assms(1), of "()" d] show ?thesis by simp
  next
    case False
    have "ChainID d = ChainID c" if "x = Inr ()"
      using checkNetwork_ok [OF assms(1), of "()" d] check that by simp
    with False have "SendTransaction E (N\<lparr>nd_SendRaw := send\<rparr>) tx c = SendTransaction E N tx c" for send
      unfolding SendTransaction_def checkNetwork_no_send
      by (cases x) (auto simp: run_simps check)
    with assms(2) show ?thesis by simp
  qed
  show "r = Inr () \<longrightarrow> tx_chain tx = ChainID c \<and> said (nd_ChainID N) (ChainID c) \<and>
    (\<exists>raw wire. TxMarshal E tx = Inr raw \<and> said (nd_SendRaw N (HexutilEncode E raw)) wire \<and>
       hash_pattern wire \<and> HexToHash E wire = tx_id E tx)"
  proof
    assume "r = Inr ()"
    with assms(2) obtain u d raw wire v where check: "checkNetwork N c = (Inr u, d)" and chain: "tx_chain tx = ChainID d"
      and raw: "TxMarshal E tx = Inr raw" and sent: "rpc (nd_SendRaw N (HexutilEncode E raw)) d = (Inr wire, v)"
      and wire: "rpcHashToDomain E wire = Inr (tx_id E tx)"
      by (auto simp: SendTransaction_def ok_simps)
    from wire have "hash_pattern wire" "HexToHash E wire = tx_id E tx"
      by (auto simp: rpcHashToDomain_def split: if_splits)
    with checkNetwork_ok [OF assms(1) check] chain raw rpc_said [OF sent]
    show "tx_chain tx = ChainID c \<and> said (nd_ChainID N) (ChainID c) \<and>
      (\<exists>raw wire. TxMarshal E tx = Inr raw \<and> said (nd_SendRaw N (HexutilEncode E raw)) wire \<and>
         hash_pattern wire \<and> HexToHash E wire = tx_id E tx)" by auto
  qed
qed

text \<open>
  The nonce that counts as finalized was said by the node for the finalized block, between
  two answers that named the configured network, with no failover of the transport in between.
\<close>

theorem FinalizedNonceAt_evidence:
  assumes "FinalizedNonceAt N a c = (Inr nonce, c')"
  shows "\<exists>d e. verifyNetwork N c = (Inr (), d) \<and>
      nd_Nonce N a (Some (- 3)) (cl_node d) = (Inr nonce, cl_node e) \<and> verifyNetwork N e = (Inr (), c') \<and>
      said (nd_ChainID N) (ChainID c) \<and> (\<not> cl_transport c' \<or> nd_Failovers N (cl_node c') = current_failovers N d)"
proof -
  from assms obtain d e where d: "verifyNetwork N c = (Inr (), d)"
    and nonce: "rpc (nd_Nonce N a (Some (- 3))) d = (Inr nonce, e)"
    and e: "verifyNetwork N e = (Inr (), c')"
    and same: "\<not> (cl_transport c' \<and> nd_Failovers N (cl_node c') \<noteq> current_failovers N d)"
    by (auto simp: FinalizedNonceAt_def ok_simps)
  have "nd_Nonce N a (Some (- 3)) (cl_node d) = (Inr nonce, cl_node e)"
    using nonce by (auto simp: ok_rpc)
  with d e same verifyNetwork_ok [OF d] show ?thesis by blast
qed

section \<open>When a transaction has settled\<close>

definition settled_text :: "string \<Rightarrow> bool" where
  "settled_text s \<longleftrightarrow> s = ''succeeded'' \<or> s = ''reverted''"

text \<open>What a node has to say for a transaction to count as mined, and as finalized.\<close>

definition mined_evidence ::
    "('k, 'm) ethlib_scheme \<Rightarrow> 'n node \<Rightarrow> hash32 \<Rightarrow> Transaction \<Rightarrow> bool" where
  "mined_evidence E N hid v \<longleftrightarrow>
     (\<exists>r block canonical head.
        said (nd_Receipt N hid) r \<and> rc_TxHash r = hid \<and> rc_BlockNumber r = Some block \<and>
        said (nd_Header N (Some block)) canonical \<and> hd_Hash canonical = rc_BlockHash r \<and>
        said (nd_Header N None) head \<and> block \<le> hd_Number head \<and>
        ti_BlockHash v = HashHex E (rc_BlockHash r) \<and> ti_Block v = int_str block \<and>
        ti_Confirmations v = int_str (hd_Number head - block + 1) \<and>
        ti_State v = (if rc_Status r = 1 then ''succeeded'' else ''reverted'') \<and>
        (ti_Finalized v \<longrightarrow> (\<exists>fh again. said (nd_Header N (Some (- 3))) fh \<and> block \<le> hd_Number fh \<and>
           said (nd_Header N (Some block)) again \<and> hd_Hash again = rc_BlockHash r)))"

lemma receipt_finalized_ok:
  assumes "receipt_finalized N r block c = (Inr True, c')"
  shows "\<exists>fh again. said (nd_Header N (Some (- 3))) fh \<and> block \<le> hd_Number fh \<and>
     said (nd_Header N (Some block)) again \<and> hd_Hash again = rc_BlockHash r"
  using assms unfolding receipt_finalized_def
  by (auto simp: ok_simps split: if_splits dest!: rpc_said)

lemma transaction_mined_ok:
  assumes "transaction_mined E N hid r c = (Inr v, c')" and "said (nd_Receipt N hid) r"
  shows "(\<not> settled_text (ti_State v) \<and> \<not> ti_Finalized v) \<or> mined_evidence E N hid v"
proof (cases "rc_BlockNumber r")
  case None
  with assms(1) show ?thesis by (simp add: transaction_mined_def ok_simps)
next
  case (Some block)
  with assms(1) obtain canonical d where hid: "rc_TxHash r = hid"
    and canonical: "rpc (nd_Header N (Some block)) c = (Inr canonical, d)"
    and rest: "hd_Hash canonical \<noteq> rc_BlockHash r \<and> ti_State v = ''reorg_detected'' \<and> \<not> ti_Finalized v \<or>
      hd_Hash canonical = rc_BlockHash r \<and>
      (\<exists>head d1 finalized d2 d3 fee t. rpc (nd_Header N None) d = (Inr head, d1) \<and> block \<le> hd_Number head \<and>
        receipt_finalized N r block d1 = (Inr finalized, d2) \<and> ReceiptFee E N r d2 = (Inr fee, d3) \<and>
        v = transactionToAPI E \<lparr> ts_finalized = finalized, ts_blockHash = rc_BlockHash r, ts_hash = hid,
          ts_state = (if rc_Status r = 1 then transactionSucceeded else transactionReverted),
          ts_block = Some block, ts_confirmations = Some (hd_Number head - block + 1),
          ts_gasUsed = rc_GasUsed r, ts_feeWei = Some fee, ts_checkedAt = t \<rparr>)"
    by (auto simp: transaction_mined_def ok_simps transactionToAPI_def linorder_not_less split: if_splits)
  from rest show ?thesis
  proof (elim disjE conjE exE)
    assume "ti_State v = ''reorg_detected''" "\<not> ti_Finalized v"
    then show ?thesis by (simp add: settled_text_def)
  next
    fix head d1 finalized d2 d3 fee t
    assume same: "hd_Hash canonical = rc_BlockHash r" and head: "rpc (nd_Header N None) d = (Inr head, d1)"
      "block \<le> hd_Number head" and final: "receipt_finalized N r block d1 = (Inr finalized, d2)"
      and v: "v = transactionToAPI E \<lparr> ts_finalized = finalized, ts_blockHash = rc_BlockHash r, ts_hash = hid,
          ts_state = (if rc_Status r = 1 then transactionSucceeded else transactionReverted),
          ts_block = Some block, ts_confirmations = Some (hd_Number head - block + 1),
          ts_gasUsed = rc_GasUsed r, ts_feeWei = Some fee, ts_checkedAt = t \<rparr>"
    have "mined_evidence E N hid v" unfolding mined_evidence_def
      by (rule exI [of _ r], rule exI [of _ block], rule exI [of _ canonical], rule exI [of _ head])
        (use assms(2) hid Some same head v final receipt_finalized_ok rpc_said [OF canonical] rpc_said [OF head(1)]
          in \<open>auto simp: transactionToAPI_def\<close>)
    then show ?thesis by simp
  qed
qed


section \<open>A sample node\<close>

definition sample_header :: "int option \<Rightarrow> header" where
  "sample_header n =
     \<lparr> hd_Number = (case n of None \<Rightarrow> 100 | Some k \<Rightarrow> if k < 0 then 90 else k), hd_BaseFee = Some 10,
       hd_GasLimit = 30000000, hd_Time = 1700000000, hd_Hash = 42 \<rparr>"

definition sample_receipt :: "hash32 \<Rightarrow> receipt" where
  "sample_receipt h =
     \<lparr> rc_Status = 1, rc_TxHash = h, rc_BlockHash = 42, rc_BlockNumber = Some 80, rc_EffectiveGasPrice = Some 12,
       rc_GasUsed = 21000, rc_ContractAddress = 0, rc_Logs = [] \<rparr>"

definition sample_node :: "time node" where
  "sample_node =
     \<lparr> nd_ChainID = (\<lambda>n. (Inr 11155111, n)),
       nd_Header = (\<lambda>k n. (Inr (sample_header k), n)),
       nd_GasTip = (\<lambda>n. (Inr 1, n)),
       nd_EstimateGas = (\<lambda>m n. (Inr 21000, n)),
       nd_Call = (\<lambda>m b n. (Inr [], n)),
       nd_CallAtHash = (\<lambda>m h n. (Inr [], n)),
       nd_Code = (\<lambda>a b n. (Inr [], n)),
       nd_PendingNonce = (\<lambda>a n. (Inr 7, n)),
       nd_Nonce = (\<lambda>a b n. (Inr 7, n)),
       nd_Balance = (\<lambda>a b n. (Inr 0, n)),
       nd_BalanceAtHash = (\<lambda>a h n. (Inr 0, n)),
       nd_SendRaw = (\<lambda>r n. (Inr sample_hash, n)),
       nd_Receipt = (\<lambda>h n. (Inr (sample_receipt h), n)),
       nd_TxByHash = (\<lambda>h n. (Inl eth_not_found, n)),
       nd_OpReceipt = (\<lambda>h n. (Inr None, n)),
       nd_RawBlock = (\<lambda>k n. (Inl eth_not_found, n)),
       nd_BlockReceipts = (\<lambda>k n. (Inr [], n)),
       nd_BlockTxs = (\<lambda>k n. (Inr [], n)),
       nd_FilterLogs = (\<lambda>q n. (Inr [], n)),
       nd_Clock = (\<lambda>n. (n, n + 1)),
       nd_Failovers = (\<lambda>n. 0),
       nd_RevertData = (\<lambda>e. False) \<rparr>"

definition sample_client :: "time client" where
  "sample_client = \<lparr> cl_chainID = 0, cl_transport = False, cl_networkVerified = False,
     cl_verifiedFailovers = 0, cl_node = 0 \<rparr>"

lemma sample_client_ok: "client_ok sample_node sample_client"
  by (simp add: client_ok_def sample_client_def)

lemma sample_check:
  "verifyNetwork sample_node sample_client = (Inr (), sample_client\<lparr>cl_networkVerified := True\<rparr>)"
  "checkNetwork sample_node sample_client = (Inr (), sample_client\<lparr>cl_networkVerified := True\<rparr>)"
  "verifyNetwork sample_node (sample_client\<lparr>cl_networkVerified := True\<rparr>) =
     (Inr (), sample_client\<lparr>cl_networkVerified := True\<rparr>)"
  by (simp_all add: checkNetwork_def verifyNetwork_def run_simps rpc_def sample_node_def sample_client_def
      ChainID_def SepoliaID_def current_failovers_def)

theorem checked_network_guard_witness:
  "said (nd_ChainID sample_node) (ChainID sample_client) \<and> said (nd_GasTip sample_node) 1"
proof -
  have "checked sample_node (nd_GasTip sample_node) sample_client =
      (Inr 1, sample_client\<lparr>cl_networkVerified := True\<rparr>)"
    by (simp add: checked_def run_simps sample_check rpc_def) (simp add: sample_node_def)
  from checked_network_guard [OF sample_client_ok this] show ?thesis by blast
qed

lemma sample_sent:
  "nd_SendRaw sample_node r n = (Inr sample_hash, n)" "tx_hash sample_tx = sample_hash"
  "TxMarshal sample_lib sample_tx = Inr [2]" "tx_chain sample_tx = 11155111"
  "ChainID (sample_client\<lparr>cl_networkVerified := b\<rparr>) = 11155111"
  by (simp_all add: sample_node_def sample_lib_def sample_client_def ChainID_def SepoliaID_def)
    (simp_all add: sample_tx_def)

theorem SendTransaction_confirmed_witness:
  "tx_chain sample_tx = ChainID sample_client \<and> said (nd_ChainID sample_node) (ChainID sample_client)"
proof -
  have "SendTransaction sample_lib sample_node sample_tx sample_client =
      (Inr (), sample_client\<lparr>cl_networkVerified := True\<rparr>)"
    using sample_hash_pattern
    by (simp add: SendTransaction_def run_simps sample_check rpc_def tx_id_def rpcHashToDomain_def sample_sent)
  from SendTransaction_confirmed [OF sample_client_ok this] show ?thesis by blast
qed

theorem FinalizedNonceAt_evidence_witness:
  "\<exists>d e. nd_Nonce sample_node 5 (Some (- 3)) (cl_node (d :: time client)) = (Inr 7, cl_node (e :: time client))"
proof -
  have "FinalizedNonceAt sample_node 5 sample_client = (Inr 7, sample_client\<lparr>cl_networkVerified := True\<rparr>)"
    by (simp add: FinalizedNonceAt_def run_simps sample_check rpc_def current_failovers_def)
      (simp add: sample_node_def sample_client_def run_simps verifyNetwork_def rpc_def ChainID_def SepoliaID_def
        current_failovers_def)
  from FinalizedNonceAt_evidence [OF this] show ?thesis by blast
qed


end
