(* ===== verification/Texts.thy ===== *)
theory Texts
  imports GoLib
begin

text \<open>
  Unicode text as the code sees it: Go strings are bytes, and \<^verbatim>\<open>unicode/utf8\<close>,
  \<^verbatim>\<open>strings.TrimSpace\<close> and \<^verbatim>\<open>strings.Fields\<close> read them as UTF-8, where each
  byte that starts no valid encoding counts as one character.  The lemmas bound the number of
  characters by the number of bytes and show that trimming and splitting lose no character that
  is not white space.
\<close>

section \<open>Runes\<close>

definition byte_in :: "nat \<Rightarrow> nat \<Rightarrow> char \<Rightarrow> bool" where
  "byte_in lo hi c \<longleftrightarrow> lo \<le> (of_char c :: nat) \<and> of_char c \<le> hi"

definition low6 :: "char \<Rightarrow> nat" where
  "low6 c = of_char c mod 64"

text \<open>\<^verbatim>\<open>utf8.DecodeRuneInString\<close>: the code point and its width; (0xFFFD, 1) is an invalid byte.\<close>

definition decode_multi :: "nat \<Rightarrow> string \<Rightarrow> nat \<times> nat" where
  "decode_multi b cs =
     (case cs of
        c1 # c2 # c3 # _ \<Rightarrow>
          if 0xC2 \<le> b \<and> b \<le> 0xDF \<and> byte_in 0x80 0xBF c1 then (b mod 32 * 64 + low6 c1, 2)
          else if 0xE0 \<le> b \<and> b \<le> 0xEF \<and> byte_in (if b = 0xE0 then 0xA0 else 0x80) (if b = 0xED then 0x9F else 0xBF) c1 \<and>
            byte_in 0x80 0xBF c2 then (b mod 16 * 4096 + low6 c1 * 64 + low6 c2, 3)
          else if 0xF0 \<le> b \<and> b \<le> 0xF4 \<and> byte_in (if b = 0xF0 then 0x90 else 0x80) (if b = 0xF4 then 0x8F else 0xBF) c1 \<and>
            byte_in 0x80 0xBF c2 \<and> byte_in 0x80 0xBF c3
          then (b mod 8 * 262144 + low6 c1 * 4096 + low6 c2 * 64 + low6 c3, 4)
          else (0xFFFD, 1)
      | [c1, c2] \<Rightarrow>
          if 0xC2 \<le> b \<and> b \<le> 0xDF \<and> byte_in 0x80 0xBF c1 then (b mod 32 * 64 + low6 c1, 2)
          else if 0xE0 \<le> b \<and> b \<le> 0xEF \<and> byte_in (if b = 0xE0 then 0xA0 else 0x80) (if b = 0xED then 0x9F else 0xBF) c1 \<and>
            byte_in 0x80 0xBF c2 then (b mod 16 * 4096 + low6 c1 * 64 + low6 c2, 3)
          else (0xFFFD, 1)
      | [c1] \<Rightarrow> if 0xC2 \<le> b \<and> b \<le> 0xDF \<and> byte_in 0x80 0xBF c1 then (b mod 32 * 64 + low6 c1, 2) else (0xFFFD, 1)
      | [] \<Rightarrow> (0xFFFD, 1))"

definition decode_rune :: "char \<Rightarrow> string \<Rightarrow> nat \<times> nat" where
  "decode_rune c cs = (let b = (of_char c :: nat) in if b < 0x80 then (b, 1) else decode_multi b cs)"

lemma decode_width: "1 \<le> snd (decode_rune c cs) \<and> snd (decode_rune c cs) \<le> 4 \<and> snd (decode_rune c cs) \<le> Suc (length cs)"
  by (auto simp: decode_rune_def decode_multi_def Let_def split: list.split)

text \<open>A string as its characters: each code point with its bytes.\<close>

function runes :: "string \<Rightarrow> (nat \<times> string) list" where
  "runes [] = []"
| "runes (c # cs) = (case decode_rune c cs of (r, n) \<Rightarrow> (r, take n (c # cs)) # runes (drop n (c # cs)))"
  by pat_completeness auto
termination
proof (relation "measure length", goal_cases)
  case 1
  show ?case by simp
next
  case (2 c cs x n)
  then have "snd (decode_rune c cs) = n" by (metis snd_conv)
  with decode_width [of c cs] show ?case by (auto simp: Suc_le_eq)
qed

declare runes.simps [simp del]

lemma runes_Nil [simp]: "runes [] = []"
  by (simp add: runes.simps)

definition RuneCountInString :: "string \<Rightarrow> nat" where
  "RuneCountInString s = length (runes s)"

definition text_of :: "(nat \<times> string) list \<Rightarrow> string" where
  "text_of rs = concat (map snd rs)"

lemma text_of_runes [simp]: "text_of (runes s) = s"
proof (induction s rule: runes.induct)
  case 1
  show ?case by (simp add: text_of_def)
next
  case (2 c cs)
  obtain r n where d: "decode_rune c cs = (r, n)" by force
  from 2 [OF d [symmetric]] show ?case by (simp add: runes.simps d text_of_def)
qed

lemma rune_widths: "(r, bs) \<in> set (runes s) \<Longrightarrow> 1 \<le> length bs \<and> length bs \<le> 4"
proof (induction s rule: runes.induct)
  case 1
  then show ?case by simp
next
  case (2 c cs)
  obtain r' n where d: "decode_rune c cs = (r', n)" by force
  from decode_width [of c cs] d have n: "1 \<le> n" "n \<le> 4" "n \<le> Suc (length cs)" by simp_all
  from 2(2) consider "bs = take n (c # cs)" | "(r, bs) \<in> set (runes (drop n (c # cs)))"
    by (auto simp: runes.simps d)
  then show ?case using 2(1) [OF d [symmetric]] n by cases simp_all
qed

lemma length_text_of:
  assumes "\<forall>(r, bs)\<in>set rs. 1 \<le> length bs \<and> length bs \<le> 4"
  shows "length rs \<le> length (text_of rs) \<and> length (text_of rs) \<le> 4 * length rs"
  using assms
proof (induction rs)
  case Nil
  show ?case by (simp add: text_of_def)
next
  case (Cons x xs)
  then have "1 \<le> length (snd x)" "length (snd x) \<le> 4" "length xs \<le> length (text_of xs)" "length (text_of xs) \<le> 4 * length xs"
    by auto
  then show ?case by (simp add: text_of_def)
qed

lemma RuneCount_bounds: "RuneCountInString s \<le> length s \<and> length s \<le> 4 * RuneCountInString s"
  using length_text_of [of "runes s"] rune_widths [of _ _ s] by (auto simp: RuneCountInString_def)

text \<open>Seven-bit text is one character per byte.\<close>

lemma runes_ascii: "\<forall>c\<in>set s. (of_char c :: nat) < 0x80 \<Longrightarrow> runes s = map (\<lambda>c. (of_char c, [c])) s"
  by (induction s) (simp_all add: runes.simps decode_rune_def Let_def)

section \<open>White space\<close>

text \<open>\<^verbatim>\<open>unicode.IsSpace\<close> and \<^verbatim>\<open>unicode.IsControl\<close>.\<close>

definition IsSpace :: "nat \<Rightarrow> bool" where
  "IsSpace r \<longleftrightarrow> r \<in> {0x09..0x0D} \<or> r = 0x20 \<or> r = 0x85 \<or> r = 0xA0 \<or> r = 0x1680 \<or> r \<in> {0x2000..0x200A} \<or>
     r = 0x2028 \<or> r = 0x2029 \<or> r = 0x202F \<or> r = 0x205F \<or> r = 0x3000"

definition IsControl :: "nat \<Rightarrow> bool" where
  "IsControl r \<longleftrightarrow> r < 0x20 \<or> (0x7F \<le> r \<and> r < 0xA0)"

definition trim_runes :: "(nat \<times> string) list \<Rightarrow> (nat \<times> string) list" where
  "trim_runes rs = rev (dropWhile (IsSpace \<circ> fst) (rev (dropWhile (IsSpace \<circ> fst) rs)))"

text \<open>\<^verbatim>\<open>strings.TrimSpace\<close>, \<^verbatim>\<open>strings.Fields\<close> and \<^verbatim>\<open>strings.Join(words, " ")\<close>.\<close>

definition TrimSpace :: "string \<Rightarrow> string" where
  "TrimSpace s = text_of (trim_runes (runes s))"

fun split_words :: "(nat \<times> string) list \<Rightarrow> (nat \<times> string) list \<Rightarrow> (nat \<times> string) list list" where
  "split_words word [] = (if word = [] then [] else [rev word])"
| "split_words word (x # xs) =
     (if IsSpace (fst x) then (if word = [] then split_words [] xs else rev word # split_words [] xs)
      else split_words (x # word) xs)"

definition Fields :: "string \<Rightarrow> string list" where
  "Fields s = map text_of (split_words [] (runes s))"

definition join_space :: "string list \<Rightarrow> string" where
  "join_space ws = (case ws of [] \<Rightarrow> [] | w # ws \<Rightarrow> w @ concat (map (\<lambda>v. CHR '' '' # v) ws))"

text \<open>Words hold no white space, and nothing but white space is lost.\<close>

lemma split_words_solid:
  "list_all (\<lambda>x. \<not> IsSpace (fst x)) word \<Longrightarrow>
     list_all (\<lambda>w. w \<noteq> [] \<and> list_all (\<lambda>x. \<not> IsSpace (fst x)) w) (split_words word rs)"
  by (induction word rs rule: split_words.induct) (simp_all add: list_all_rev)

lemma concat_split_words:
  "concat (split_words word rs) = rev word @ filter (\<lambda>x. \<not> IsSpace (fst x)) rs"
  by (induction word rs rule: split_words.induct) simp_all

lemma TrimSpace_same:
  assumes "runes s \<noteq> []" and "\<not> IsSpace (fst (hd (runes s)))" and "\<not> IsSpace (fst (last (runes s)))"
  shows "TrimSpace s = s"
proof -
  have keep: "xs \<noteq> [] \<Longrightarrow> \<not> P (hd xs) \<Longrightarrow> dropWhile P xs = xs" for P and xs :: "(nat \<times> string) list"
    by (cases xs) simp_all
  have "dropWhile (IsSpace \<circ> fst) (rev (runes s)) = rev (runes s)"
    using assms by (intro keep) (simp_all add: hd_rev)
  moreover have "dropWhile (IsSpace \<circ> fst) (runes s) = runes s"
    using assms by (intro keep) simp_all
  ultimately show ?thesis by (simp add: TrimSpace_def trim_runes_def)
qed

end
