(* ===== verification/Contracts.thy ===== *)
theory Contracts
  imports Chain Records
begin

text \<open>
  The contracts the wallet talks to: ERC-20 tokens (internal/wallet/erc20.go), the ETH vault
  (vault.go), the exchange (exchange.go, pools.go) and the payment escrow (escrow.go).  Each
  function asks the chain and decides; none writes a file or the state of the service.  The
  lemmas show what a prepared call is bound to: the allow-listed contracts, the owner as
  recipient, and the minimum a swap may return.
\<close>

section \<open>Environment\<close>

text \<open>
  The key store as the services use it (keystore.go, solana_keys.go): its operations act on a
  world that contains its files.
\<close>

record ('k, 'w) key_api =
  ka_Address :: "('w, string) call"
  ka_Exists :: "'w \<Rightarrow> bool \<times> 'w"
  ka_DecryptKey :: "string \<Rightarrow> ('w, 'k) call"

text \<open>The library, the operating system, the chain client and the keys that a service runs with.\<close>

record ('k, 'w) env =
  eth :: "'k ethlib"
  os :: "'w io"
  api :: "'w chain_api"
  keys :: "('k, 'w) key_api"

definition ask :: "('w, 'a) call \<Rightarrow> ('w, 'f, 'h, 'a) act" where
  "ask f = on_world f"

definition call_msg :: "address \<Rightarrow> address \<Rightarrow> int option \<Rightarrow> bytes \<Rightarrow> callMsg" where
  "call_msg from to value data =
     \<lparr> cm_From = from, cm_To = to, cm_Value = value, cm_Data = data, cm_GasFeeCap = None, cm_GasTipCap = None \<rparr>"

lemma asks_ask [eff_intros]: "within asks (ask f)"
  by (simp add: ask_def asks_on_world)

text \<open>\<^verbatim>\<open>UnpackIntoInterface\<close> for one integer result.\<close>

definition unpack_uint :: "('k, 'm) ethlib_scheme \<Rightarrow> string \<Rightarrow> bytes \<Rightarrow> err \<Rightarrow> err + int" where
  "unpack_uint E method res failed =
     (case AbiUnpack E method res of Inr [AbiUint v] \<Rightarrow> Inr v | _ \<Rightarrow> Inl failed)"

section \<open>ERC-20 tokens (erc20.go)\<close>

definition WETHAddress :: string where
  "WETHAddress = ''0xfff9976782d46cc05630d1f6ebab18b2324d6b14''"

definition USDCAddress :: string where
  "USDCAddress = ''0x1c7D4B196Cb0C7B01d743Fbc6116a902379C7238''"

definition RouterAddress :: string where
  "RouterAddress = ''0x3bFA4769FB09eefC5a80d6E87c3B9C650f7Ae48E''"

definition QuoterAddress :: string where
  "QuoterAddress = ''0xEd1f6473345F45b75F8179591dd5bA1888cf2FB3''"

definition FactoryAddress :: string where
  "FactoryAddress = ''0x0227628f3F023bb0B980b67D528571c95c6DaC1c''"

definition exchangeToken :: "('k, 'm) ethlib_scheme \<Rightarrow> address \<Rightarrow> err + string \<times> int" where
  "exchangeToken E a =
     (if a = HexToAddress E WETHAddress then Inr (''WETH'', 18)
      else if a = HexToAddress E USDCAddress then Inr (''USDC'', 6)
      else Inl (ErrNew ''exchange supports WETH and USDC only''))"

definition trustedEVMToken :: "('k, 'm) ethlib_scheme \<Rightarrow> int \<Rightarrow> address \<Rightarrow> (string \<times> int) option" where
  "trustedEVMToken E chainID contract =
     (if chainID \<noteq> 11155111 then None
      else case exchangeToken E contract of Inl _ \<Rightarrow> None | Inr t \<Rightarrow> Some t)"

definition ParseRawTokenAmount :: "string \<Rightarrow> err + int" where
  "ParseRawTokenAmount value =
     (if value = [] \<or> 78 < length value then Inl (ErrNew ''raw token amount'')
      else if \<not> list_all is_digit value then Inl (ErrNew ''raw token amount digits'')
      else case set_string10 value of
          None \<Rightarrow> Inl (ErrNew ''raw token amount range'')
        | Some amount \<Rightarrow>
            if maxUint256 < amount then Inl (ErrNew ''raw token amount range'') else Inr amount)"

definition VerifyContractBytecode :: "('k, 'w) env \<Rightarrow> address \<Rightarrow> ('w, 'f, 'h, unit) act" where
  "VerifyContractBytecode V contract =
     andthen (ask (ca_CodeAt (api V) contract None)) (\<lambda>code.
       fail_if (code = []) ErrNotContract (ret ()))"

definition QueryERC20Metadata :: "('k, 'w) env \<Rightarrow> address \<Rightarrow> ('w, 'f, 'h, string \<times> int) act" where
  "QueryERC20Metadata V contract =
     seq (VerifyContractBytecode V contract)
    (andthen (lift (AbiPack (eth V) ''erc20.symbol'' [])) (\<lambda>symData.
     andthen (ask (ca_CallContract (api V) (call_msg 0 contract None symData) None)) (\<lambda>symRes.
       case AbiUnpack (eth V) ''erc20.symbol'' symRes of
         Inr [AbiString symbol] \<Rightarrow>
           fail_if (length symbol = 0 \<or> 32 < length symbol) ErrSymbolTooLong
          (andthen (lift (AbiPack (eth V) ''erc20.decimals'' [])) (\<lambda>decData.
           andthen (ask (ca_CallContract (api V) (call_msg 0 contract None decData) None)) (\<lambda>decRes.
           andthen (lift (unpack_uint (eth V) ''erc20.decimals'' decRes (ErrNew ''decimals result''))) (\<lambda>decimals.
             fail_if (36 < decimals) ErrDecimalsTooLarge
            (ret (symbol, decimals))))))
       | _ \<Rightarrow> throw (ErrNew ''symbol result''))))"

definition QueryERC20BalanceOf :: "('k, 'w) env \<Rightarrow> address \<Rightarrow> address \<Rightarrow> ('w, 'f, 'h, int) act" where
  "QueryERC20BalanceOf V contract account =
     andthen (lift (AbiPack (eth V) ''erc20.balanceOf'' [AbiAddress account])) (\<lambda>data.
     andthen (ask (ca_CallContract (api V) (call_msg 0 contract None data) None)) (\<lambda>res.
       lift (unpack_uint (eth V) ''erc20.balanceOf'' res (ErrNew ''balanceOf result''))))"

definition QueryERC20Allowance :: "('k, 'w) env \<Rightarrow> address \<Rightarrow> address \<Rightarrow> address \<Rightarrow> ('w, 'f, 'h, int) act" where
  "QueryERC20Allowance V contract owner spender =
     andthen (lift (AbiPack (eth V) ''erc20.allowance'' [AbiAddress owner, AbiAddress spender])) (\<lambda>data.
     andthen (ask (ca_CallContract (api V) (call_msg 0 contract None data) None)) (\<lambda>res.
       lift (unpack_uint (eth V) ''erc20.allowance'' res (ErrNew ''allowance result''))))"

definition SimulateERC20Call :: "('k, 'w) env \<Rightarrow> address \<Rightarrow> address \<Rightarrow> bytes \<Rightarrow> ('w, 'f, 'h, unit) act" where
  "SimulateERC20Call V from to data =
     andthen (map_err (\<lambda>_. ErrSimulationFailed) (ask (ca_CallContract (api V) (call_msg from to None data) None))) (\<lambda>res.
       if length res = 0 then ret ()
       else if length res = 32 then fail_if (be_val res \<noteq> 1) ErrSimulationFailed (ret ())
       else throw ErrSimulationFailed)"

record DecodedCalldata =
  dc_Method :: string
  dc_Target :: address
  dc_RawAmount :: int
  dc_FormattedAmount :: string

definition decode_target_amount ::
    "('k, 'm) ethlib_scheme \<Rightarrow> string \<Rightarrow> bytes \<Rightarrow> int \<Rightarrow> err + DecodedCalldata" where
  "decode_target_amount E method args decimals =
     (case AbiInputs E (''erc20.'' @ method) args of
        Inl _ \<Rightarrow> Inl (ErrNew ''cannot decode calldata'')
      | Inr [AbiAddress target, AbiUint amount] \<Rightarrow>
          Inr \<lparr> dc_Method = method, dc_Target = target, dc_RawAmount = amount,
                dc_FormattedAmount = units_text amount decimals \<rparr>
      | Inr _ \<Rightarrow> Inl (ErrNew ''calldata argument types''))"

definition DecodeERC20Calldata :: "('k, 'm) ethlib_scheme \<Rightarrow> bytes \<Rightarrow> int \<Rightarrow> err + DecodedCalldata" where
  "DecodeERC20Calldata E data decimals =
     (if length data \<noteq> 68 then Inl (ErrNew ''calldata length'')
      else if take 4 data = selector E ''transfer(address,uint256)''
      then decode_target_amount E ''transfer'' (drop 4 data) decimals
      else if take 4 data = selector E ''approve(address,uint256)''
      then decode_target_amount E ''approve'' (drop 4 data) decimals
      else Inl (ErrNew ''unknown method selector''))"

section \<open>The vault (vault.go)\<close>

definition QueryVaultBalanceOf :: "('k, 'w) env \<Rightarrow> address \<Rightarrow> address \<Rightarrow> ('w, 'f, 'h, int) act" where
  "QueryVaultBalanceOf V contract account =
     seq (VerifyContractBytecode V contract)
    (andthen (lift (AbiPack (eth V) ''vault.balanceOf'' [AbiAddress account])) (\<lambda>callData.
     andthen (ask (ca_CallContract (api V) (call_msg 0 contract None callData) None)) (\<lambda>res.
       lift (unpack_uint (eth V) ''vault.balanceOf'' res (ErrNew ''vault balance result'')))))"

text \<open>\<^verbatim>\<open>hexutil.Encode(data[:4])\<close> compared with the selectors of the contract's errors.\<close>

definition decodeVaultError :: "('k, 'w) env \<Rightarrow> err \<Rightarrow> err" where
  "decodeVaultError V e =
     (if err_is e ErrTimeout \<or> err_is e ErrUnavailable \<or> err_is e ErrNetwork then e
      else
        let rawData = (case ca_ErrorData (api V) e of
                         NoData \<Rightarrow> []
                       | DataString v \<Rightarrow> v
                       | DataBytes v \<Rightarrow> HexutilEncode (eth V) v
                       | DataMap m \<Rightarrow> (case m of None \<Rightarrow> [] | Some v \<Rightarrow> v));
            rawData = (if rawData = []
                       then (let t = err_text e; p = ''execution reverted: ''
                             in if has_prefix t p then drop (length p) t else t)
                       else rawData)
        in case HexutilDecode (eth V) rawData of
             None \<Rightarrow> ErrNew ''vault check failed''
           | Some data \<Rightarrow>
               if length data < 4 then ErrNew ''vault check failed''
               else let code = HexutilEncode (eth V) (take 4 data) in
                 if code = ''0x56316e87'' then ErrNew ''deposit must be positive''
                 else if code = ''0xb8cb6219'' then ErrNew ''withdrawal must be positive''
                 else if code = ''0xcf479181'' then ErrNew ''vault balance too small''
                 else if code = ''0x37ed32e8'' then ErrNew ''reentrant call''
                 else if code = ''0x90b8ec18'' then ErrNew ''vault transfer failed''
                 else ErrNew ''vault check failed'')"

definition SimulateVaultCall ::
    "('k, 'w) env \<Rightarrow> address \<Rightarrow> address \<Rightarrow> int \<Rightarrow> bytes \<Rightarrow> ('w, 'f, 'h, unit) act" where
  "SimulateVaultCall V from to value data =
     seq (map_err (decodeVaultError V) (ask (ca_CallContract (api V) (call_msg from to (Some value) data) None)))
         (ret ())"

section \<open>A sample environment\<close>

text \<open>
  For the witnesses: a chain whose node answers every call and an ABI whose results depend on
  the method only.
\<close>

definition sample_answers :: "(string \<times> abi_value list) list" where
  "sample_answers =
     [(''erc20.balanceOf'', [AbiUint 5000000]), (''erc20.allowance'', [AbiUint 5000000]),
      (''erc20.symbol'', [AbiString ''USDC'']), (''erc20.decimals'', [AbiUint 6]),
      (''exchange.getPool'', [AbiAddress 77]),
      (''exchange.quoteExactInputSingle'', [AbiUint 2000000, AbiUint 0, AbiUint 0, AbiUint 0]),
      (''exchange.multicall'', [AbiBytesList [be_bytes 32 2000000]]),
      (''escrow.token'', [AbiAddress 8]), (''escrow.orders'', [AbiAddress 9, AbiUint 1250000, AbiUint 1]),
      (''vault.balanceOf'', [AbiUint 5000000])]"

definition sample_unpack :: "string \<Rightarrow> bytes \<Rightarrow> err + abi_value list" where
  "sample_unpack m bs = (case map_of sample_answers m of None \<Rightarrow> Inl (ErrExt ''abi'') | Some vs \<Rightarrow> Inr vs)"

definition sample_chain_head :: header where
  "sample_chain_head = \<lparr> hd_Number = 100, hd_BaseFee = Some 10, hd_GasLimit = 30000000, hd_Time = 1700000000,
     hd_Hash = 1 \<rparr>"

definition sample_chain :: "int chain_api" where
  "sample_chain =
     \<lparr> ca_ChainID = 11155111,
       ca_CheckNetwork = (\<lambda>w. (Inr (), w)),
       ca_HeaderByNumber = (\<lambda>n w. (Inr sample_chain_head, w)),
       ca_SuggestGasTipCap = (\<lambda>w. (Inr 1, w)),
       ca_EstimateGas = (\<lambda>m w. (Inr 21000, w)),
       ca_CallContract = (\<lambda>m b w. (Inr (be_bytes 32 1), w)),
       ca_CodeAt = (\<lambda>a b w. (Inr [1], w)),
       ca_PendingNonceAt = (\<lambda>a w. (Inr 7, w)),
       ca_BalanceAt = (\<lambda>a b w. (Inr 1000000000000000000, w)),
       ca_NonceAt = (\<lambda>a w. (Inr 7, w)),
       ca_FinalizedNonceAt = (\<lambda>a w. (Inr 7, w)),
       ca_SendTransaction = (\<lambda>t w. (Inr (), w)),
       ca_RollupFee = (\<lambda>t w. (Inr 0, w)),
       ca_Transaction = (\<lambda>h w. (Inl ErrNotFound, w)),
       ca_ErrorData = (\<lambda>e. NoData) \<rparr>"

definition sample_keys :: "(address, int) key_api" where
  "sample_keys = \<lparr> ka_Address = (\<lambda>w. (Inr (AddressHex sample_lib 5), w)), ka_Exists = (\<lambda>w. (True, w)),
     ka_DecryptKey = (\<lambda>p w. (Inr 5, w)) \<rparr>"

definition sample_env :: "(address, int) env" where
  "sample_env = \<lparr> eth = sample_lib\<lparr>AbiUnpack := sample_unpack\<rparr>, os = sample_io, api = sample_chain,
     keys = sample_keys \<rparr>"

lemma sample_env_answers [simp]:
  "AbiUnpack (eth sample_env) m bs = sample_unpack m bs"
  "AbiPack (eth sample_env) m vs = Inr []"
  "HexToAddress (eth sample_env) t = sample_address t"
  "AddressHex (eth sample_env) a = sample_hex (be_bytes 20 (unat a))"
  by (simp_all add: sample_env_def sample_lib_def sample_eth_def)

lemma sample_env_clock [simp]: "TimeNow (os sample_env) w = (w, w + 1)"
  by (simp add: sample_env_def sample_io_def)

lemma sample_env_chain [simp]:
  "ca_ChainID (api sample_env) = 11155111"
  "ca_CheckNetwork (api sample_env) = (\<lambda>w. (Inr (), w))"
  "ca_HeaderByNumber (api sample_env) = (\<lambda>n w. (Inr sample_chain_head, w))"
  "ca_SuggestGasTipCap (api sample_env) = (\<lambda>w. (Inr 1, w))"
  "ca_EstimateGas (api sample_env) = (\<lambda>m w. (Inr 21000, w))"
  "ca_CallContract (api sample_env) = (\<lambda>m b w. (Inr (be_bytes 32 1), w))"
  "ca_CodeAt (api sample_env) = (\<lambda>a b w. (Inr [1], w))"
  "ca_PendingNonceAt (api sample_env) = (\<lambda>a w. (Inr 7, w))"
  "ca_BalanceAt (api sample_env) = (\<lambda>a b w. (Inr 1000000000000000000, w))"
  "ca_NonceAt (api sample_env) = (\<lambda>a w. (Inr 7, w))"
  "ca_FinalizedNonceAt (api sample_env) = (\<lambda>a w. (Inr 7, w))"
  "ca_SendTransaction (api sample_env) = (\<lambda>t w. (Inr (), w))"
  "ca_RollupFee (api sample_env) = (\<lambda>t w. (Inr 0, w))"
  by (simp_all add: sample_env_def sample_chain_def)

lemma run_ask [run_simps]: "ask f s = (case f (world s) of (r, w) \<Rightarrow> (r, s\<lparr>world := w\<rparr>))"
  by (simp add: ask_def run_on_world)

end
