(* ===== verification/Exchange.thy ===== *)
theory Exchange
  imports Contracts
begin

text \<open>
  internal/wallet/exchange.go and pools.go: wrapping, unwrapping and swapping between the two
  allow-listed tokens, and the comparison of the pools' offers.  The lemmas show that a swap
  is bound to the allow-listed contracts and to a minimum that slippage allows, and that the
  comparison names a pool no other pool beats.
\<close>

record ExchangePreview =
  ep_TokenIn :: string
  ep_TokenOut :: string
  ep_SymbolOut :: string
  ep_ExpectedOut :: string
  ep_MinimumOut :: string
  ep_MinimumOutRaw :: string
  ep_Router :: string
  ep_Pool :: string
  ep_PoolFee :: int
  ep_SlippageBPS :: int
  ep_Deadline :: string

record exchangePayload =
  ex_TxTo :: address
  ex_Contract :: address
  ex_Value :: int
  ex_Data :: bytes
  ex_Method :: string
  ex_Symbol :: string
  ex_Decimals :: int
  ex_Preview :: ExchangePreview

definition quotePool ::
    "('k, 'w) env \<Rightarrow> address \<Rightarrow> address \<Rightarrow> int \<Rightarrow> int \<Rightarrow> ('w, 'f, 'h, int \<times> address) act" where
  "quotePool V tin tout amount poolFee =
     (let factory = HexToAddress (eth V) FactoryAddress; quoter = HexToAddress (eth V) QuoterAddress in
      andthen (lift (AbiPack (eth V) ''exchange.getPool'' [AbiAddress tin, AbiAddress tout, AbiUint poolFee])) (\<lambda>poolData.
      andthen (ask (ca_CallContract (api V) (call_msg 0 factory None poolData) None)) (\<lambda>poolRaw.
        case AbiUnpack (eth V) ''exchange.getPool'' poolRaw of
          Inr [AbiAddress pool] \<Rightarrow>
            fail_if (pool = 0) (ErrNew ''no such pool'')
           (andthen (lift (AbiPack (eth V) ''exchange.quoteExactInputSingle''
                [AbiAddress tin, AbiAddress tout, AbiUint amount, AbiUint poolFee, AbiUint 0])) (\<lambda>quoteData.
            andthen (map_err (\<lambda>_. ErrNew ''quote failed'')
                (ask (ca_CallContract (api V) (call_msg 0 quoter None quoteData) None))) (\<lambda>quoteRaw.
              case AbiUnpack (eth V) ''exchange.quoteExactInputSingle'' quoteRaw of
                Inr [AbiUint expected, _, _, _] \<Rightarrow> ret (expected, pool)
              | _ \<Rightarrow> throw (ErrNew ''quote format''))))
        | _ \<Rightarrow> throw (ErrNew ''pool address format''))))"

definition simulateExchange ::
    "('k, 'w) env \<Rightarrow> address \<Rightarrow> address \<Rightarrow> int \<Rightarrow> bytes \<Rightarrow> string \<Rightarrow> ExchangePreview \<Rightarrow> ('w, 'f, 'h, unit) act" where
  "simulateExchange V from to value data action preview =
     andthen (map_err (\<lambda>_. ErrSimulationFailed)
        (ask (ca_CallContract (api V) (call_msg from to (Some value) data) None))) (\<lambda>result.
       if action \<noteq> ''swap'' then fail_if (length result \<noteq> 0) ErrSimulationFailed (ret ())
       else case AbiUnpack (eth V) ''exchange.multicall'' result of
           Inr [AbiBytesList [out]] \<Rightarrow>
             if length out \<noteq> 32 then throw ErrSimulationFailed
             else (case set_string10 (ep_MinimumOutRaw preview) of
                     None \<Rightarrow> throw ErrSimulationFailed
                   | Some minimum \<Rightarrow> fail_if (int (be_val out) < minimum) ErrSimulationFailed (ret ()))
         | _ \<Rightarrow> throw ErrSimulationFailed)"

definition empty_preview :: "string \<Rightarrow> ExchangePreview" where
  "empty_preview deadline =
     \<lparr> ep_TokenIn = [], ep_TokenOut = [], ep_SymbolOut = [], ep_ExpectedOut = [], ep_MinimumOut = [],
       ep_MinimumOutRaw = [], ep_Router = [], ep_Pool = [], ep_PoolFee = 0, ep_SlippageBPS = 0,
       ep_Deadline = deadline \<rparr>"

text \<open>Wrap and unwrap at the fixed WETH contract, one to one.\<close>

definition prepare_wrap ::
    "('k, 'w) env \<Rightarrow> address \<Rightarrow> QuoteCommand \<Rightarrow> string \<Rightarrow> ('w, 'f, 'h, exchangePayload) act" where
  "prepare_wrap V owner command deadline =
     (let E = eth V; weth = HexToAddress E WETHAddress; preview = empty_preview deadline in
      fail_if (qc_Contract command \<noteq> [] \<and> \<not> equal_fold (qc_Contract command) WETHAddress) (ErrNew ''not WETH'')
     (fail_if (qc_TokenOut command \<noteq> [] \<or> qc_PoolFee command \<noteq> 0 \<or> qc_SlippageBPS command \<noteq> 0)
        (ErrNew ''no pool parameters here'')
     (andthen (lift (ParseUnits (qc_Amount command) 18)) (\<lambda>amount.
      fail_if (amount \<le> 0) (ErrNew ''amount must be positive'')
     (seq (VerifyContractBytecode V weth)
        (let shown = (\<lambda>pv. pv\<lparr>ep_ExpectedOut := units_text amount 18, ep_MinimumOut := units_text amount 18,
                               ep_MinimumOutRaw := int_str amount\<rparr>) in
         if qc_Action command = ActionWrap
         then andthen (lift (AbiPack E ''exchange.deposit'' [])) (\<lambda>data.
           ret \<lparr> ex_TxTo = weth, ex_Contract = weth, ex_Value = amount, ex_Data = data,
                 ex_Method = ''deposit'', ex_Symbol = ''ETH'', ex_Decimals = 18,
                 ex_Preview = shown (preview\<lparr>ep_TokenIn := ''ETH'', ep_TokenOut := AddressHex E weth,
                                             ep_SymbolOut := ''WETH''\<rparr>) \<rparr>)
         else andthen (QueryERC20BalanceOf V weth owner) (\<lambda>balance.
           fail_if (balance < amount) (ErrNew ''WETH balance too small'')
          (andthen (lift (AbiPack E ''exchange.withdraw'' [AbiUint amount])) (\<lambda>data.
           ret \<lparr> ex_TxTo = weth, ex_Contract = weth, ex_Value = 0, ex_Data = data,
                 ex_Method = ''withdraw'', ex_Symbol = ''WETH'', ex_Decimals = 18,
                 ex_Preview = shown (preview\<lparr>ep_TokenIn := AddressHex E weth, ep_TokenOut := ''ETH'',
                                             ep_SymbolOut := ''ETH''\<rparr>) \<rparr>)))))))))"

text \<open>A swap through the router, bound to a minimum and a deadline.\<close>

definition minimum_out :: "int \<Rightarrow> int \<Rightarrow> int" where
  "minimum_out expected slippageBPS = expected * (10000 - slippageBPS) div 10000"

definition prepare_swap ::
    "('k, 'w) env \<Rightarrow> address \<Rightarrow> QuoteCommand \<Rightarrow> string \<Rightarrow> ('w, 'f, 'h, exchangePayload) act" where
  "prepare_swap V owner command deadline =
     (let E = eth V; tin = HexToAddress E (qc_Contract command); tout = HexToAddress E (qc_TokenOut command) in
      fail_if (tin = tout) (ErrNew ''assets must differ'')
     (andthen (lift (exchangeToken E tin)) (\<lambda>(symbol, decimals).
      andthen (lift (exchangeToken E tout)) (\<lambda>(outSymbol, outDecimals).
      fail_if (qc_SlippageBPS command < 1 \<or> 500 < qc_SlippageBPS command) (ErrNew ''slippage'')
     (fail_if (qc_PoolFee command \<noteq> 100 \<and> qc_PoolFee command \<noteq> 500 \<and> qc_PoolFee command \<noteq> 3000 \<and>
               qc_PoolFee command \<noteq> 10000) (ErrNew ''pool fee'')
     (andthen (lift (ParseUnits (qc_Amount command) decimals)) (\<lambda>amount.
      fail_if (amount \<le> 0) (ErrNew ''amount must be positive'')
     (let router = HexToAddress E RouterAddress; quoter = HexToAddress E QuoterAddress;
          factory = HexToAddress E FactoryAddress in
      seq (for_each [tin, tout, router, quoter, factory] (\<lambda>a _. VerifyContractBytecode V a) ())
     (andthen (QueryERC20BalanceOf V tin owner) (\<lambda>balance.
      fail_if (balance < amount) (ErrNew ''balance too small'')
     (andthen (QueryERC20Allowance V tin owner router) (\<lambda>allowance.
      fail_if (allowance < amount) (ErrNew ''allowance too small'')
     (andthen (quotePool V tin tout amount (qc_PoolFee command)) (\<lambda>(expected, pool).
      let minimum = minimum_out expected (qc_SlippageBPS command) in
      fail_if (minimum \<le> 0) (ErrNew ''nothing to receive'')
     (andthen (lift (AbiPack E ''exchange.exactInputSingle''
          [AbiAddress tin, AbiAddress tout, AbiUint (qc_PoolFee command), AbiAddress owner, AbiUint amount,
           AbiUint minimum, AbiUint 0])) (\<lambda>callData.
      andthen (lift (AbiPack E ''exchange.multicall''
          [AbiUint (parse_rfc3339 deadline div 1000000000), AbiBytesList [callData]])) (\<lambda>data.
        ret \<lparr> ex_TxTo = router, ex_Contract = tin, ex_Value = 0, ex_Data = data,
              ex_Method = ''multicall(deadline, exactInputSingle)'', ex_Symbol = symbol, ex_Decimals = decimals,
              ex_Preview = \<lparr> ep_TokenIn = AddressHex E tin, ep_TokenOut = AddressHex E tout,
                 ep_SymbolOut = outSymbol, ep_ExpectedOut = units_text expected outDecimals,
                 ep_MinimumOut = units_text minimum outDecimals, ep_MinimumOutRaw = int_str minimum,
                 ep_Router = AddressHex E router, ep_Pool = AddressHex E pool,
                 ep_PoolFee = qc_PoolFee command, ep_SlippageBPS = qc_SlippageBPS command,
                 ep_Deadline = deadline \<rparr> \<rparr>)))))))))))))))))"

definition PrepareExchange ::
    "('k, 'w) env \<Rightarrow> address \<Rightarrow> QuoteCommand \<Rightarrow> ('w, 'f, 'h, exchangePayload) act" where
  "PrepareExchange V owner command =
     andthen (now (os V)) (\<lambda>t.
       let deadline = rfc3339 (t + seconds 120) in
       andthen (if qc_Action command = ActionWrap \<or> qc_Action command = ActionUnwrap
                then prepare_wrap V owner command deadline
                else if qc_Action command = ActionSwap then prepare_swap V owner command deadline
                else throw (ErrNew ''unknown exchange operation'')) (\<lambda>p.
       seq (simulateExchange V owner (ex_TxTo p) (ex_Value p) (ex_Data p)
              (action_text (qc_Action command)) (ex_Preview p))
           (ret p)))"

section \<open>Comparing pools (pools.go)\<close>

record PoolQuote =
  pq_Fee :: int
  pq_Pool :: string
  pq_Output :: string
  pq_OutputRaw :: string
  pq_Error :: string

record PoolComparison =
  pl_Pools :: "PoolQuote list"
  pl_BestFee :: int
  pl_Symbol :: string
  pl_CheckedAt :: time

text \<open>One row; an error is text of the row, not an error of the comparison.\<close>

definition pool_row ::
    "('k, 'w) env \<Rightarrow> address \<Rightarrow> address \<Rightarrow> int \<Rightarrow> int \<Rightarrow> int \<Rightarrow> ('w, 'f, 'h, PoolQuote) act" where
  "pool_row V tin tout amount outDecimals fee =
     andthen (attempt (quotePool V tin tout amount fee)) (\<lambda>r.
       ret (case r of
              Inl e \<Rightarrow> \<lparr> pq_Fee = fee, pq_Pool = [], pq_Output = [], pq_OutputRaw = [], pq_Error = err_text e \<rparr>
            | Inr (expected, pool) \<Rightarrow>
                if expected \<le> 0
                then \<lparr> pq_Fee = fee, pq_Pool = [], pq_Output = [], pq_OutputRaw = [],
                       pq_Error = ''no usable quote'' \<rparr>
                else \<lparr> pq_Fee = fee, pq_Pool = AddressHex (eth V) pool,
                       pq_Output = units_text expected outDecimals, pq_OutputRaw = int_str expected,
                       pq_Error = [] \<rparr>))"

text \<open>The first row with the largest output.\<close>

fun best_pool :: "PoolQuote list \<Rightarrow> int \<times> int \<Rightarrow> int \<times> int" where
  "best_pool [] acc = acc"
| "best_pool (p # ps) (best, fee) =
     (case set_string10 (pq_OutputRaw p) of
        Some value \<Rightarrow> if best < value then best_pool ps (value, pq_Fee p) else best_pool ps (best, fee)
      | None \<Rightarrow> best_pool ps (best, fee))"

text \<open>
  The four rows are asked for by goroutines that share nothing but their own index; the
  order in which they reach the node does not matter to the result, and the model asks in
  index order.
\<close>

definition ComparePoolsCommand ::
    "('k, 'w) env \<Rightarrow> PoolComparisonCommand \<Rightarrow> ('w, 'f, 'h, PoolComparison) act" where
  "ComparePoolsCommand V command =
     (let E = eth V; tin = HexToAddress E (pc_Contract command); tout = HexToAddress E (pc_TokenOut command) in
      fail_if (ca_ChainID (api V) \<noteq> SepoliaID) (ErrNew ''no exchange on this network'')
     (fail_if (tin = tout) (ErrNew ''assets must differ'')
     (andthen (lift (exchangeToken E tin)) (\<lambda>(_, decimals).
      andthen (lift (exchangeToken E tout)) (\<lambda>(symbol, outDecimals).
      andthen (lift (ParseUnits (pc_Amount command) decimals)) (\<lambda>amount.
      fail_if (amount \<le> 0) (ErrNew ''amount must be positive'')
     (seq (for_each [tin, tout, HexToAddress E FactoryAddress, HexToAddress E QuoterAddress]
             (\<lambda>a _. VerifyContractBytecode V a) ())
     (andthen (now (os V)) (\<lambda>t.
      andthen (for_each [100, 500, 3000, 10000] (\<lambda>fee rows.
                 andthen (pool_row V tin tout amount outDecimals fee) (\<lambda>row. ret (rows @ [row]))) []) (\<lambda>pools.
        ret \<lparr> pl_Pools = pools, pl_BestFee = snd (best_pool pools (0, 0)), pl_Symbol = symbol,
              pl_CheckedAt = t \<rparr>))))))))))"

definition ComparePools ::
    "('k, 'w) env \<Rightarrow> QuoteRequest option \<Rightarrow> ('w, 'f, 'h, PoolComparison) act" where
  "ComparePools V req =
     andthen (lift (ParsePoolComparisonRequest (eth V) req)) (ComparePoolsCommand V)"

section \<open>Properties\<close>

lemma best_pool_max:
  "best_pool ps (b, f) = (b', f') \<Longrightarrow>
     b \<le> b' \<and> (\<forall>p\<in>set ps. \<forall>v. set_string10 (pq_OutputRaw p) = Some v \<longrightarrow> v \<le> b') \<and>
     (b' = b \<and> f' = f \<or> (\<exists>p\<in>set ps. set_string10 (pq_OutputRaw p) = Some b' \<and> pq_Fee p = f' \<and> b < b'))"
proof (induction ps arbitrary: b f)
  case Nil
  then show ?case by simp
next
  case (Cons p ps)
  show ?case
  proof (cases "set_string10 (pq_OutputRaw p)")
    case None
    with Cons.prems Cons.IH [of b f] show ?thesis by auto
  next
    case (Some v)
    show ?thesis
    proof (cases "b < v")
      case True
      with Some Cons.prems have "best_pool ps (v, pq_Fee p) = (b', f')" by simp
      from Cons.IH [OF this] Some True show ?thesis by auto
    next
      case False
      with Some Cons.prems have "best_pool ps (b, f) = (b', f')" by simp
      from Cons.IH [OF this] Some False show ?thesis by auto
    qed
  qed
qed

lemma minimum_out_bounds:
  assumes "0 < expected" and "1 \<le> s" and "s \<le> 500"
  shows "minimum_out expected s \<le> expected"
    and "expected * (10000 - s) < (minimum_out expected s + 1) * 10000"
proof -
  have "expected * (10000 - s) \<le> expected * 10000" using assms by (intro mult_left_mono) auto
  then show "minimum_out expected s \<le> expected" unfolding minimum_out_def by linarith
  have "a < (a div 10000 + 1) * 10000" for a :: int by presburger
  then show "expected * (10000 - s) < (minimum_out expected s + 1) * 10000"
    unfolding minimum_out_def .
qed

text \<open>The helpers ask the chain and change nothing.\<close>

lemma asks_contracts [eff_intros]:
  "within asks (VerifyContractBytecode V c)"
  "within asks (QueryERC20BalanceOf V c a)"
  "within asks (QueryERC20Allowance V c a b)"
  "within asks (quotePool V tin tout amount fee)"
  "within asks (simulateExchange V from to value data action preview)"
  unfolding VerifyContractBytecode_def QueryERC20BalanceOf_def QueryERC20Allowance_def
    quotePool_def simulateExchange_def
  by (intro asks.eff_andthen asks.eff_lift asks.eff_let asks.eff_fail_if asks.eff_map_err asks_ask asks.eff_ret
      asks.eff_if asks.eff_sum asks.eff_throw asks.eff_option | (split list.split abi_value.split prod.split, safe))+

text \<open>
  What a prepared swap is: a call without value to the router, made of one exactInputSingle
  for two distinct allow-listed tokens, with the owner as recipient, the parsed amount, the
  chosen fee and the given minimum.
\<close>

definition swap_bound ::
    "('k, 'w) env \<Rightarrow> address \<Rightarrow> QuoteCommand \<Rightarrow> string \<Rightarrow> int \<Rightarrow> int \<Rightarrow> exchangePayload \<Rightarrow> bool" where
  "swap_bound V owner c deadline amount minimum p \<longleftrightarrow>
     (\<exists>decimals callData.
        ex_TxTo p = HexToAddress (eth V) RouterAddress \<and> ex_Value p = 0 \<and>
        ex_Contract p = HexToAddress (eth V) (qc_Contract c) \<and>
        HexToAddress (eth V) (qc_Contract c) \<noteq> HexToAddress (eth V) (qc_TokenOut c) \<and>
        HexToAddress (eth V) (qc_TokenOut c) \<in> {HexToAddress (eth V) WETHAddress, HexToAddress (eth V) USDCAddress} \<and>
        exchangeToken (eth V) (ex_Contract p) = Inr (ex_Symbol p, decimals) \<and>
        ParseUnits (qc_Amount c) decimals = Inr amount \<and> 0 < amount \<and>
        qc_PoolFee c \<in> {100, 500, 3000, 10000} \<and> 1 \<le> qc_SlippageBPS c \<and> qc_SlippageBPS c \<le> 500 \<and>
        AbiPack (eth V) ''exchange.exactInputSingle''
          [AbiAddress (ex_Contract p), AbiAddress (HexToAddress (eth V) (qc_TokenOut c)), AbiUint (qc_PoolFee c),
           AbiAddress owner, AbiUint amount, AbiUint minimum, AbiUint 0] = Inr callData \<and>
        AbiPack (eth V) ''exchange.multicall''
          [AbiUint (parse_rfc3339 deadline div 1000000000), AbiBytesList [callData]] = Inr (ex_Data p) \<and>
        ep_MinimumOutRaw (ex_Preview p) = int_str minimum \<and>
        ep_Deadline (ex_Preview p) = deadline)"

text \<open>
  \<open>swap_offer V owner c amount expected s t\<close>: from \<open>s\<close> to \<open>t\<close> the node was asked, in this order, for
  the code of the contracts, the balance, the allowance and the offer of the chosen pool, and
  its answers cover the amount; \<open>expected\<close> is the offer.
\<close>

definition swap_offer ::
    "('k, 'w) env \<Rightarrow> address \<Rightarrow> QuoteCommand \<Rightarrow> int \<Rightarrow> int \<Rightarrow> ('w, 'f, 'h) sys \<Rightarrow> ('w, 'f, 'h) sys \<Rightarrow> bool" where
  "swap_offer V owner c amount expected s t \<longleftrightarrow>
     (let tin = HexToAddress (eth V) (qc_Contract c); tout = HexToAddress (eth V) (qc_TokenOut c);
          router = HexToAddress (eth V) RouterAddress in
      \<exists>s1 s2 s3 balance allowance pool.
        for_each [tin, tout, router, HexToAddress (eth V) QuoterAddress, HexToAddress (eth V) FactoryAddress]
          (\<lambda>a _. VerifyContractBytecode V a) () s = (Inr (), s1) \<and>
        QueryERC20BalanceOf V tin owner s1 = (Inr balance, s2) \<and> amount \<le> balance \<and>
        QueryERC20Allowance V tin owner router s2 = (Inr allowance, s3) \<and> amount \<le> allowance \<and>
        quotePool V tin tout amount (qc_PoolFee c) s3 = (Inr (expected, pool), t))"

text \<open>
  \<open>swap_simulated V owner p minimum s t\<close>: from \<open>s\<close> to \<open>t\<close> the node was asked once, to run the very
  call of \<open>p\<close> from the owner, and its result is a single word not below the minimum.
\<close>

definition swap_simulated ::
    "('k, 'w) env \<Rightarrow> address \<Rightarrow> exchangePayload \<Rightarrow> int \<Rightarrow> ('w, 'f, 'h) sys \<Rightarrow> ('w, 'f, 'h) sys \<Rightarrow> bool" where
  "swap_simulated V owner p minimum s t \<longleftrightarrow>
     (\<exists>result out. ask (ca_CallContract (api V) (call_msg owner (ex_TxTo p) (Some (ex_Value p)) (ex_Data p)) None) s = (Inr result, t) \<and>
        AbiUnpack (eth V) ''exchange.multicall'' result = Inr [AbiBytesList [out]] \<and> length out = 32 \<and>
        minimum \<le> int (be_val out))"

lemma exchangeToken_listed:
  "exchangeToken E a = Inr x \<Longrightarrow> a = HexToAddress E WETHAddress \<or> a = HexToAddress E USDCAddress"
  by (auto simp: exchangeToken_def split: if_splits)

lemma asks_verify_all: "within asks (for_each xs (\<lambda>a _. VerifyContractBytecode V a) ())"
  by (intro asks.eff_for_each eff_intros)

lemma asks_prepare_swap: "within asks (prepare_swap V owner c deadline)"
  unfolding prepare_swap_def
  by (intro asks.eff_andthen asks.eff_lift asks.eff_let asks.eff_fail_if asks.eff_ret asks.eff_seq
      asks_verify_all asks_contracts asks.eff_prod)

lemma prepare_swap_bound:
  assumes "prepare_swap V owner c deadline s = (Inr p, t)"
  shows "\<exists>amount expected. 0 < minimum_out expected (qc_SlippageBPS c) \<and> swap_offer V owner c amount expected s t \<and>
    swap_bound V owner c deadline amount (minimum_out expected (qc_SlippageBPS c)) p"
  using assms unfolding prepare_swap_def Let_def ok_simps
  apply (clarsimp simp: ok_simps simp del: for_each.simps)
  subgoal for symbol decimals outSymbol outDecimals amount u balance v allowance w expected pool callData
    apply (insert exchangeToken_listed [of "eth V" "HexToAddress (eth V) (qc_TokenOut c)" "(outSymbol, outDecimals)"])
    apply (simp only: linorder_not_less linorder_not_le)
    apply (rule exI [of _ amount], rule exI [of _ expected], rule conjI, assumption, rule conjI)
     apply (unfold swap_offer_def Let_def, intro exI conjI, assumption+)
    apply (unfold swap_bound_def, rule exI [of _ decimals], rule exI [of _ callData])
    apply simp
    done
  done

lemma simulateExchange_swap:
  assumes "simulateExchange V owner (ex_TxTo p) (ex_Value p) (ex_Data p) (action_text ActionSwap) (ex_Preview p) s = (Inr (), t)"
    and "ep_MinimumOutRaw (ex_Preview p) = int_str minimum"
  shows "swap_simulated V owner p minimum s t"
proof -
  from assms(1) obtain result u where asked: "ask (ca_CallContract (api V) (call_msg owner (ex_TxTo p) (Some (ex_Value p)) (ex_Data p)) None) s = (Inr result, u)"
    and rest: "(case AbiUnpack (eth V) ''exchange.multicall'' result of
           Inr [AbiBytesList [out]] \<Rightarrow>
             if length out \<noteq> 32 then throw ErrSimulationFailed
             else (case set_string10 (ep_MinimumOutRaw (ex_Preview p)) of
                     None \<Rightarrow> throw ErrSimulationFailed
                   | Some minimum \<Rightarrow> fail_if (int (be_val out) < minimum) ErrSimulationFailed (ret ()))
         | _ \<Rightarrow> throw ErrSimulationFailed) u = (Inr (), t)"
    by (auto simp: simulateExchange_def ok_andthen ok_map_err)
  from rest obtain out where "AbiUnpack (eth V) ''exchange.multicall'' result = Inr [AbiBytesList [out]]"
    by (auto simp: ok_leaf split: sum.split_asm list.split_asm abi_value.split_asm)
  with rest asked assms(2) show ?thesis
    unfolding swap_simulated_def by (auto simp: ok_leaf ok_fail_if not_less split: if_split_asm option.split_asm)
qed

text \<open>
  C31: a prepared swap is bound to the router, to two distinct allow-listed tokens, to the
  wallet as recipient and to the amount asked for, which the balance and the allowance the node
  gave cover.  Its minimum is the output the chosen pool offered in this very run, less the
  slippage asked for, and positive; the call was then simulated as it stands and returned at
  least that minimum.  It expires two minutes after the run began, and preparing it changes
  nothing but what the node is asked.
\<close>

theorem PrepareExchange_swap_bound:
  assumes "PrepareExchange V owner c s = (Inr p, t)" and "qc_Action c = ActionSwap"
  shows "asks s t \<and> (\<exists>clock amount expected minimum s1 s2.
    now (os V) s = (Inr clock, s1) \<and> swap_offer V owner c amount expected s1 s2 \<and>
    minimum = expected * (10000 - qc_SlippageBPS c) div 10000 \<and> 0 < minimum \<and>
    swap_bound V owner c (rfc3339 (clock + seconds 120)) amount minimum p \<and> swap_simulated V owner p minimum s2 t)"
proof -
  from assms obtain clock s1 u where clock: "now (os V) s = (Inr clock, s1)"
    and prep: "prepare_swap V owner c (rfc3339 (clock + seconds 120)) s1 = (Inr p, u)"
    and sim: "simulateExchange V owner (ex_TxTo p) (ex_Value p) (ex_Data p) (action_text ActionSwap) (ex_Preview p) u
      = (Inr (), t)"
    unfolding PrepareExchange_def Let_def ok_simps by (auto simp: ok_simps)
  have "asks s s1" by (rule withinD [OF asks_now clock])
  moreover have "asks s1 u" by (rule withinD [OF asks_prepare_swap prep])
  moreover have "asks u t" by (rule withinD [OF asks_contracts(5) sim])
  ultimately have "asks s t" by (auto simp: asks_def)
  moreover from prepare_swap_bound [OF prep] obtain amount expected where
    p: "0 < minimum_out expected (qc_SlippageBPS c)" "swap_offer V owner c amount expected s1 u"
    "swap_bound V owner c (rfc3339 (clock + seconds 120)) amount (minimum_out expected (qc_SlippageBPS c)) p" by blast
  moreover from p(3) have "swap_simulated V owner p (minimum_out expected (qc_SlippageBPS c)) u t"
    by (intro simulateExchange_swap [OF sim]) (auto simp: swap_bound_def)
  ultimately show ?thesis using clock unfolding minimum_out_def by blast
qed

definition sample_swap :: QuoteCommand where
  "sample_swap = \<lparr> qc_OrderID = [], qc_Buyer = [], qc_Hash = [], qc_Action = ActionSwap, qc_To = [],
     qc_Amount = ''1.25'', qc_AmountRaw = [], qc_Contract = USDCAddress, qc_TokenOut = WETHAddress,
     qc_SlippageBPS = 50, qc_PoolFee = 500 \<rparr>"

definition sample_swap_env :: "(address, int) env" where
  "sample_swap_env = sample_env\<lparr>eth := (eth sample_env)\<lparr>HexToAddress := (\<lambda>t.
     if t = WETHAddress then 1 else if t = USDCAddress then 2 else 3)\<rparr>\<rparr>"

lemma sample_tokens:
  "HexToAddress (eth sample_swap_env) WETHAddress = 1" "HexToAddress (eth sample_swap_env) USDCAddress = 2"
  by (simp_all add: sample_swap_env_def WETHAddress_def USDCAddress_def)

lemma sample_swap_env [simp]:
  "AbiUnpack (eth sample_swap_env) = sample_unpack" "AbiPack (eth sample_swap_env) m vs = Inr []"
  "ca_CallContract (api sample_swap_env) msg b w = (Inr (be_bytes 32 1), w)"
  "ca_CodeAt (api sample_swap_env) a b w = (Inr [1], w)" "TimeNow (os sample_swap_env) w = (w, w + 1)"
  by (simp_all add: sample_swap_env_def sample_env_def sample_lib_def sample_eth_def sample_io_def
      sample_chain_def)

lemma sample_swap_runs:
  "\<exists>p. PrepareExchange sample_swap_env 5 sample_swap (sample_sys h) =
     (Inr p, (sample_sys h)\<lparr>world := world (sample_sys h) + 1\<rparr>)"
  apply (simp add: PrepareExchange_def run_simps sample_swap_def sample_sys_def Let_def)
  apply (simp add: prepare_swap_def Let_def sample_tokens exchangeToken_def run_simps)
  apply (simp add: ParseUnits_1_25 VerifyContractBytecode_def run_simps)
  apply (simp add: QueryERC20BalanceOf_def QueryERC20Allowance_def run_simps sample_unpack_def
      sample_answers_def unpack_uint_def)
  apply (simp add: quotePool_def minimum_out_def run_simps sample_unpack_def sample_answers_def unpack_uint_def)
  apply (simp add: simulateExchange_def run_simps sample_unpack_def sample_answers_def be_val_be_bytes)
  done

theorem PrepareExchange_swap_bound_witness:
  "\<exists>p minimum (u :: (int, unit, unit) sys) v. 0 < minimum \<and>
    swap_bound sample_swap_env 5 sample_swap (rfc3339 (seconds 1700000000 + seconds 120)) 1250000 minimum p \<and>
    swap_simulated sample_swap_env 5 p minimum u v"
proof -
  let ?s = "sample_sys () :: (int, unit, unit) sys"
  obtain p where run: "PrepareExchange sample_swap_env 5 sample_swap ?s = (Inr p, ?s\<lparr>world := world ?s + 1\<rparr>)"
    by (rule exE [OF sample_swap_runs])
  have "qc_Action sample_swap = ActionSwap" by (simp add: sample_swap_def)
  from PrepareExchange_swap_bound [OF run this] obtain clock amount expected minimum and s1 s2 :: "(int, unit, unit) sys" where
    p: "now (os sample_swap_env) ?s = (Inr clock, s1)" "0 < minimum"
      "swap_bound sample_swap_env 5 sample_swap (rfc3339 (clock + seconds 120)) amount minimum p"
      "swap_simulated sample_swap_env 5 p minimum s2 (?s\<lparr>world := world ?s + 1\<rparr>)" by blast
  from p(1) have "clock = seconds 1700000000" by (simp add: run_simps sample_sys_def)
  moreover from p(3) have "amount = 1250000"
    by (auto simp: swap_bound_def sample_swap_def sample_tokens exchangeToken_def ParseUnits_1_25)
  ultimately show ?thesis using p(2-4) by blast
qed

end
