(* ===== verification/Escrow.thy ===== *)
theory Escrow
  imports Contracts
begin

text \<open>
  internal/wallet/escrow.go, the payment escrow: which contract and token it trusts, the state
  of an order on the chain, and the preparation of the three calls (fund, release, refund) from
  a command.  The lemmas show who may make which call on which order, and that the prepared
  calldata names exactly that order.
\<close>

record EscrowOrder =
  eo_OrderID :: string
  eo_Buyer :: string
  eo_Seller :: string
  eo_Amount :: string
  eo_AmountRaw :: string
  eo_State :: string
  eo_Block :: string
  eo_Finalized :: bool

record EscrowPreview =
  es_Action :: TransactionAction
  es_OrderID :: string
  es_Buyer :: string
  es_Seller :: string
  es_Token :: string

record escrowPayload =
  py_To :: address
  py_Data :: bytes
  py_Amount :: int
  py_Preview :: EscrowPreview
  py_Method :: string

definition verifyEscrow :: "('k, 'w) env \<Rightarrow> address \<Rightarrow> address \<Rightarrow> ('w, 'f, 'h, unit) act" where
  "verifyEscrow V contract token =
     seq (VerifyContractBytecode V contract)
    (andthen (lift (AbiPack (eth V) ''escrow.token'' [])) (\<lambda>data.
     andthen (ask (ca_CallContract (api V) (call_msg 0 contract None data) None)) (\<lambda>result.
     fail_if (AbiUnpack (eth V) ''escrow.token'' result \<noteq> Inr [AbiAddress token]) (ErrNew ''escrow token mismatch'')
    (andthen (QueryERC20Metadata V token) (\<lambda>(symbol, decimals).
     fail_if (symbol \<noteq> ''USDC'' \<or> decimals \<noteq> 6) (ErrNew ''escrow supports the configured USDC only'')
    (ret ()))))))"

definition order_state_text :: "int \<Rightarrow> string" where
  "order_state_text n = [''none'', ''funded'', ''released'', ''refunded''] ! nat n"

definition queryEscrowOrder ::
    "('k, 'w) env \<Rightarrow> address \<Rightarrow> address \<Rightarrow> string \<Rightarrow> int option \<Rightarrow> ('w, 'f, 'h, EscrowOrder) act" where
  "queryEscrowOrder V contract buyer reference block =
     andthen (lift (AbiPack (eth V) ''escrow.orders'' [AbiAddress buyer, AbiBytes32 (order_key (eth V) reference)])) (\<lambda>data.
     andthen (ask (ca_CallContract (api V) (call_msg 0 contract None data) block)) (\<lambda>result.
       case AbiUnpack (eth V) ''escrow.orders'' result of
         Inr [AbiAddress seller, AbiUint amount, AbiUint state] \<Rightarrow>
           fail_if (3 < state) (ErrNew ''unknown order state'')
          (ret \<lparr> eo_OrderID = reference, eo_Buyer = AddressHex (eth V) buyer, eo_Seller = AddressHex (eth V) seller,
                 eo_Amount = units_text amount 6, eo_AmountRaw = int_str amount,
                 eo_State = order_state_text state, eo_Block = [], eo_Finalized = False \<rparr>)
       | _ \<Rightarrow> throw (ErrNew ''cannot read order state'')))"

definition simulateEscrow :: "('k, 'w) env \<Rightarrow> address \<Rightarrow> address \<Rightarrow> bytes \<Rightarrow> ('w, 'f, 'h, unit) act" where
  "simulateEscrow V from contract data =
     seq (map_err (\<lambda>e. if err_is e ErrUnavailable \<or> err_is e ErrTimeout \<or> err_is e ErrNetwork then e
                       else ErrNew ''escrow pre-check failed'')
            (ask (ca_CallContract (api V) (call_msg from contract None data) None)))
         (ret ())"

section \<open>Preparing a call\<close>

text \<open>Funding an order that does not exist yet.\<close>

definition prepare_fund ::
    "('k, 'w) env \<Rightarrow> address \<Rightarrow> QuoteCommand \<Rightarrow> string \<Rightarrow> address \<Rightarrow> address \<Rightarrow> EscrowOrder
      \<Rightarrow> ('w, 'f, 'h, address \<times> int \<times> string \<times> bytes) act" where
  "prepare_fund V from command reference contract token order =
     (let seller = HexToAddress (eth V) (qc_To command) in
      fail_if (eo_State order \<noteq> ''none'') (ErrNew ''order number already used'')
     (fail_if (seller = from \<or> seller = contract \<or> seller = 0) (ErrNew ''seller must be another wallet'')
     (andthen (lift (ParseUnits (qc_Amount command) 6)) (\<lambda>amount.
      fail_if (amount \<le> 0) (ErrNew ''amount must be positive'')
     (andthen (QueryERC20Allowance V token from contract) (\<lambda>allowance.
      fail_if (allowance < amount) (ErrNew ''allowance too small'')
     (andthen (lift (AbiPack (eth V) ''escrow.fund''
          [AbiBytes32 (order_key (eth V) reference), AbiAddress seller, AbiUint amount])) (\<lambda>data.
        ret (seller, amount, ''fund'', data)))))))))"

text \<open>Releasing or refunding a funded order.\<close>

definition prepare_settle ::
    "('k, 'w) env \<Rightarrow> address \<Rightarrow> TransactionAction \<Rightarrow> string \<Rightarrow> address \<Rightarrow> address \<Rightarrow> int \<Rightarrow> EscrowOrder
      \<Rightarrow> ('w, 'f, 'h, address \<times> int \<times> string \<times> bytes) act" where
  "prepare_settle V from action reference buyer seller amount order =
     (let method = (if action = ActionEscrowRelease then ''release'' else ''refund'') in
      fail_if (eo_State order \<noteq> ''funded'') (ErrNew ''order is not in escrow'')
     (fail_if (action = ActionEscrowRelease \<and> from \<noteq> buyer) (ErrNew ''only the buyer may release'')
     (fail_if (action \<noteq> ActionEscrowRelease \<and> from \<noteq> seller) (ErrNew ''only the seller may refund'')
     (andthen (lift (AbiPack (eth V) (''escrow.'' @ method)
          [AbiAddress buyer, AbiBytes32 (order_key (eth V) reference)])) (\<lambda>data.
        ret (seller, amount, method, data))))))"

definition prepareEscrow ::
    "('k, 'w) env \<Rightarrow> address \<Rightarrow> QuoteCommand \<Rightarrow> ('w, 'f, 'h, escrowPayload) act" where
  "prepareEscrow V from command =
     (let E = eth V; action = qc_Action command; contract = HexToAddress E (qc_Contract command);
          token = HexToAddress E (qc_TokenOut command); named = HexToAddress E (qc_Buyer command) in
      fail_if (ca_ChainID (api V) \<noteq> SepoliaID \<or> qc_Contract command = [] \<or> qc_TokenOut command = [])
        (ErrNew ''escrow not available'')
     (andthen (lift (ParseOrderReference (qc_OrderID command))) (\<lambda>reference.
      seq (verifyEscrow V contract token)
     (fail_if (action = ActionEscrowFund \<and> qc_Buyer command \<noteq> [] \<and> named \<noteq> from)
        (ErrNew ''the buyer must be this wallet'')
     (let buyer = (if action = ActionEscrowFund then from else named) in
      fail_if (buyer = 0) ErrInvalidAddress
     (andthen (queryEscrowOrder V contract buyer reference None) (\<lambda>order.
        case set_string10 (eo_AmountRaw order) of
          None \<Rightarrow> throw (ErrNew ''cannot read order amount'')
        | Some orderAmount \<Rightarrow>
            andthen
              (if action = ActionEscrowFund then prepare_fund V from command reference contract token order
               else if action = ActionEscrowRelease \<or> action = ActionEscrowRefund
               then prepare_settle V from action reference buyer (HexToAddress E (eo_Seller order)) orderAmount order
               else throw (ErrNew ''unknown escrow operation'')) (\<lambda>(seller, amount, method, data).
            seq (simulateEscrow V from contract data)
           (ret \<lparr> py_To = (if action = ActionEscrowRefund then buyer else seller), py_Data = data,
                  py_Amount = amount,
                  py_Preview = \<lparr> es_Action = action, es_OrderID = reference, es_Buyer = AddressHex E buyer,
                                 es_Seller = AddressHex E seller, es_Token = AddressHex E token \<rparr>,
                  py_Method = method \<rparr>)))))))))"

section \<open>Asking changes nothing\<close>

lemma asks_erc20 [eff_intros]:
  "within asks (VerifyContractBytecode V c)" "within asks (QueryERC20Metadata V c)"
  "within asks (QueryERC20Allowance V c a b)" "within asks (QueryERC20BalanceOf V c a)"
  "within asks (SimulateERC20Call V from to data)" "within asks (QueryVaultBalanceOf V c a)"
  "within asks (SimulateVaultCall V from to value data)"
  unfolding VerifyContractBytecode_def QueryERC20Metadata_def QueryERC20Allowance_def QueryERC20BalanceOf_def
    SimulateERC20Call_def QueryVaultBalanceOf_def SimulateVaultCall_def
  by (intro asks.eff_andthen asks.eff_seq asks.eff_lift asks.eff_let asks.eff_fail_if asks.eff_map_err asks_ask
      asks.eff_ret asks.eff_if asks.eff_sum asks.eff_throw asks.eff_option asks.eff_prod
    | (split list.split abi_value.split prod.split, safe))+

lemma asks_escrow [eff_intros]:
  "within asks (verifyEscrow V c tok)" "within asks (queryEscrowOrder V c b ref blk)"
  "within asks (simulateEscrow V from c data)"
  unfolding verifyEscrow_def queryEscrowOrder_def simulateEscrow_def
  by (intro asks.eff_andthen asks.eff_seq asks.eff_lift asks.eff_let asks.eff_fail_if asks.eff_map_err asks_ask
      asks.eff_ret asks.eff_if asks.eff_sum asks.eff_throw asks.eff_option asks.eff_prod asks_erc20
    | (split list.split abi_value.split prod.split, safe))+

lemma asks_prepareEscrow [eff_intros]: "within asks (prepareEscrow V from command)"
  unfolding prepareEscrow_def prepare_fund_def prepare_settle_def Let_def
  by (intro asks.eff_andthen asks.eff_seq asks.eff_lift asks.eff_fail_if asks.eff_ret asks.eff_if asks.eff_throw
      asks.eff_option asks.eff_prod asks_erc20 asks_escrow)

section \<open>Who may call what\<close>

text \<open>
  \<open>escrow_bound V from c p\<close>: the prepared call \<open>p\<close> is the one that command \<open>c\<close> of the
  wallet \<open>from\<close> stands for, on an order the chain has just shown in the state it needs.
\<close>

definition escrow_bound :: "('k, 'w) env \<Rightarrow> address \<Rightarrow> QuoteCommand \<Rightarrow> escrowPayload \<Rightarrow> EscrowOrder \<Rightarrow> bool" where
  "escrow_bound V from c p order \<longleftrightarrow>
     (let E = eth V; key = AbiBytes32 (order_key E (qc_OrderID c)); buyer = HexToAddress E (qc_Buyer c);
          seller = HexToAddress E (eo_Seller order) in
      ca_ChainID (api V) = SepoliaID \<and> ParseOrderReference (qc_OrderID c) = Inr (qc_OrderID c) \<and>
      es_Action (py_Preview p) = qc_Action c \<and> es_OrderID (py_Preview p) = qc_OrderID c \<and>
      es_Token (py_Preview p) = AddressHex E (HexToAddress E (qc_TokenOut c)) \<and>
      (qc_Action c = ActionEscrowFund \<and> eo_State order = ''none'' \<and> from \<noteq> 0 \<and>
         (qc_Buyer c = [] \<or> buyer = from) \<and> es_Buyer (py_Preview p) = AddressHex E from \<and>
         py_To p = HexToAddress E (qc_To c) \<and> py_To p \<noteq> from \<and> py_To p \<noteq> 0 \<and>
         py_To p \<noteq> HexToAddress E (qc_Contract c) \<and> ParseUnits (qc_Amount c) 6 = Inr (py_Amount p) \<and> 0 < py_Amount p \<and>
         AbiPack E ''escrow.fund'' [key, AbiAddress (py_To p), AbiUint (py_Amount p)] = Inr (py_Data p)
       \<or> qc_Action c = ActionEscrowRelease \<and> eo_State order = ''funded'' \<and> buyer = from \<and> from \<noteq> 0 \<and>
         py_To p = seller \<and> eo_AmountRaw order = int_str (py_Amount p) \<and>
         AbiPack E ''escrow.release'' [AbiAddress from, key] = Inr (py_Data p)
       \<or> qc_Action c = ActionEscrowRefund \<and> eo_State order = ''funded'' \<and> seller = from \<and> buyer \<noteq> 0 \<and>
         py_To p = buyer \<and> eo_AmountRaw order = int_str (py_Amount p) \<and>
         AbiPack E ''escrow.refund'' [AbiAddress buyer, key] = Inr (py_Data p)))"

lemma queryEscrowOrder_amount:
  "queryEscrowOrder V c b ref blk s = (Inr ordr, t) \<Longrightarrow> \<exists>n. eo_AmountRaw ordr = int_str n \<and> eo_OrderID ordr = ref"
  unfolding queryEscrowOrder_def
  by (clarsimp simp: ok_simps) (auto simp: ok_simps split: list.split_asm abi_value.split_asm)

lemma prepare_fund_ok:
  "prepare_fund V from c ref contract token ordr s = (Inr (seller, amount, method, data), t) \<Longrightarrow>
     (\<exists>allowance. QueryERC20Allowance V token from contract s = (Inr allowance, t) \<and> amount \<le> allowance) \<and> eo_State ordr = ''none'' \<and> seller = HexToAddress (eth V) (qc_To c) \<and> seller \<noteq> from \<and> seller \<noteq> contract \<and>
     seller \<noteq> 0 \<and> ParseUnits (qc_Amount c) 6 = Inr amount \<and> 0 < amount \<and>
     AbiPack (eth V) ''escrow.fund'' [AbiBytes32 (order_key (eth V) ref), AbiAddress seller, AbiUint amount] = Inr data"
  by (auto simp: prepare_fund_def Let_def ok_simps not_less)

lemma prepare_settle_ok:
  "prepare_settle V from action ref buyer seller amount ordr s = (Inr (seller', amount', method, data), t) \<Longrightarrow>
     t = s \<and> eo_State ordr = ''funded'' \<and> seller' = seller \<and> amount' = amount \<and>
     (action = ActionEscrowRelease \<and> from = buyer \<or> action \<noteq> ActionEscrowRelease \<and> from = seller) \<and>
     AbiPack (eth V) (''escrow.'' @ (if action = ActionEscrowRelease then ''release'' else ''refund''))
       [AbiAddress buyer, AbiBytes32 (order_key (eth V) ref)] = Inr data"
  by (auto simp: prepare_settle_def Let_def ok_simps)

text \<open>The buyer whose order a command is about.\<close>

definition order_buyer :: "('k, 'w) env \<Rightarrow> address \<Rightarrow> QuoteCommand \<Rightarrow> address" where
  "order_buyer V from c = (if qc_Action c = ActionEscrowFund then from else HexToAddress (eth V) (qc_Buyer c))"

text \<open>
  C34: an escrow call is prepared only on Sepolia and for an order the chain shows in the course
  of this very preparation: the escrow contract and its token are checked first, the order asked
  for next is the one of the buyer the call is about, then for fund the allowance, which covers
  the amount, and last this very call is simulated; each question follows the one before.  Fund is for
  a new order with this wallet as buyer and another wallet as seller, release by the buyer and
  refund by the seller of a funded order; the calldata names exactly this order and, for fund,
  this seller and amount.  Preparing it changes nothing.
\<close>

theorem prepareEscrow_bound:
  assumes "prepareEscrow V from c s = (Inr p, t)"
  shows "asks s t \<and> (\<exists>ordr s1 s2 s3.
    verifyEscrow V (HexToAddress (eth V) (qc_Contract c)) (HexToAddress (eth V) (qc_TokenOut c)) s = (Inr (), s1) \<and>
    queryEscrowOrder V (HexToAddress (eth V) (qc_Contract c)) (order_buyer V from c) (qc_OrderID c) None s1 = (Inr ordr, s2) \<and>
    (if qc_Action c = ActionEscrowFund
     then \<exists>allowance. QueryERC20Allowance V (HexToAddress (eth V) (qc_TokenOut c)) from (HexToAddress (eth V) (qc_Contract c)) s2
            = (Inr allowance, s3) \<and> py_Amount p \<le> allowance
     else s3 = s2) \<and>
    simulateEscrow V from (HexToAddress (eth V) (qc_Contract c)) (py_Data p) s3 = (Inr (), t) \<and>
    escrow_bound V from c p ordr)"
proof (rule conjI [OF withinD [OF asks_prepareEscrow assms]])
  let ?E = "eth V"
  let ?contract = "HexToAddress ?E (qc_Contract c)"
  from assms obtain ref y1 y2 s0 t0 x1 x2 x3 ordr s1 s2 n seller amount entry data s3 where
    head: "\<not> (ca_ChainID (api V) \<noteq> SepoliaID \<or> qc_Contract c = [] \<or> qc_TokenOut c = [])" "ParseOrderReference (qc_OrderID c) = Inr ref"
      "verifyEscrow V ?contract (HexToAddress ?E (qc_TokenOut c)) s0 = (Inr y1, s1)"
      "\<not> (qc_Action c = ActionEscrowFund \<and> qc_Buyer c \<noteq> [] \<and> HexToAddress ?E (qc_Buyer c) \<noteq> from)" "order_buyer V from c \<noteq> 0" and
    order: "queryEscrowOrder V ?contract (order_buyer V from c) ref None s1 = (Inr ordr, s2)" and
    n: "set_string10 (eo_AmountRaw ordr) = Some n" and
    parts: "(if qc_Action c = ActionEscrowFund
        then prepare_fund V from c ref ?contract (HexToAddress ?E (qc_TokenOut c)) ordr
        else if qc_Action c = ActionEscrowRelease \<or> qc_Action c = ActionEscrowRefund
        then prepare_settle V from (qc_Action c) ref (order_buyer V from c) (HexToAddress ?E (eo_Seller ordr)) n ordr
        else throw (ErrNew ''unknown escrow operation'')) s2 = (Inr x1, s3)" and x: "x1 = (seller, x2)" "x2 = (amount, x3)" "x3 = (entry, data)" and
    sim: "simulateEscrow V from ?contract data s3 = (Inr y2, t0)" and same: "s = s0" "t = t0" and
    p: "p = \<lparr> py_To = (if qc_Action c = ActionEscrowRefund then order_buyer V from c else seller), py_Data = data,
      py_Amount = amount, py_Preview = \<lparr> es_Action = qc_Action c, es_OrderID = ref,
        es_Buyer = AddressHex ?E (order_buyer V from c), es_Seller = AddressHex ?E seller,
        es_Token = AddressHex ?E (HexToAddress ?E (qc_TokenOut c)) \<rparr>, py_Method = entry \<rparr>"
    unfolding prepareEscrow_def Let_def ok_andthen ok_seq ok_fail_if ok_lift ok_option ok_prod ok_leaf
      order_buyer_def [symmetric]
    apply (elim exE conjE disjE)
     apply (simp (no_asm_use) only: ok_leaf simp_thms)
    apply (rule that, assumption+)
    done
  from head(2) have ref: "ref = qc_OrderID c" by (auto simp: ParseOrderReference_iff)
  note head = head [unfolded ref] and order = order [unfolded ref] and parts = parts [unfolded ref x] and sim = sim [folded same] and p = p [unfolded ref]
  have head_ok: "verifyEscrow V ?contract (HexToAddress ?E (qc_TokenOut c)) s = (Inr (), s1)" using head(3) same by simp
  from queryEscrowOrder_amount [OF order] n have raw: "eo_AmountRaw ordr = int_str n" by auto
  show "\<exists>ordr s1 s2 s3. verifyEscrow V ?contract (HexToAddress ?E (qc_TokenOut c)) s = (Inr (), s1) \<and>
    queryEscrowOrder V ?contract (order_buyer V from c) (qc_OrderID c) None s1 = (Inr ordr, s2) \<and>
    (if qc_Action c = ActionEscrowFund
     then \<exists>allowance. QueryERC20Allowance V (HexToAddress ?E (qc_TokenOut c)) from ?contract s2 = (Inr allowance, s3) \<and> py_Amount p \<le> allowance
     else s3 = s2) \<and>
    simulateEscrow V from ?contract (py_Data p) s3 = (Inr (), t) \<and> escrow_bound V from c p ordr"
  proof (intro exI conjI, rule head_ok, rule order)
    show "if qc_Action c = ActionEscrowFund
      then \<exists>allowance. QueryERC20Allowance V (HexToAddress ?E (qc_TokenOut c)) from ?contract s2 = (Inr allowance, s3) \<and> py_Amount p \<le> allowance
      else s3 = s2"
      using parts p by (auto simp: ok_if ok_leaf dest!: prepare_fund_ok prepare_settle_ok split: if_splits)
    show "simulateEscrow V from ?contract (py_Data p) s3 = (Inr (), t)" using sim p by simp
    show "escrow_bound V from c p ordr"
      using parts p head raw
      by (cases "qc_Action c"; auto simp: ok_if ok_leaf escrow_bound_def order_buyer_def Let_def dest!: prepare_fund_ok prepare_settle_ok)
  qed
qed

definition sample_release :: QuoteCommand where
  "sample_release = \<lparr> qc_OrderID = ''order-1'', qc_Buyer = AddressHex sample_lib 5, qc_Hash = [],
     qc_Action = ActionEscrowRelease, qc_To = [], qc_Amount = [], qc_AmountRaw = [],
     qc_Contract = AddressHex sample_lib 7, qc_TokenOut = AddressHex sample_lib 8, qc_SlippageBPS = 0, qc_PoolFee = 0 \<rparr>"

lemma sample_addresses [simp]:
  "sample_address (AddressHex sample_lib a) = a" "AddressHex sample_lib a \<noteq> []"
  by (simp_all add: sample_lib_def sample_eth_def sample_address_hex) (simp add: sample_hex_def)

lemma sample_verify:
  "verifyEscrow sample_env 7 8 s = (Inr (), s)"
  by (simp add: verifyEscrow_def VerifyContractBytecode_def QueryERC20Metadata_def run_simps
      sample_unpack_def sample_answers_def unpack_uint_def)

lemma sample_release_runs: "\<exists>p t. prepareEscrow sample_env 5 sample_release (sample_sys h) = (Inr p, t)"
proof -
  have "ParseOrderReference ''order-1'' = Inr ''order-1''"
    by (simp add: ParseOrderReference_def orderReferencePattern_def order_char_def)
  then show ?thesis
    by (simp add: prepareEscrow_def sample_release_def Let_def run_simps SepoliaID_def sample_verify
        queryEscrowOrder_def sample_unpack_def sample_answers_def prepare_settle_def order_state_text_def
        simulateEscrow_def)
qed

theorem prepareEscrow_bound_witness:
  "\<exists>p ordr (u :: (int, unit, unit) sys) v. queryEscrowOrder sample_env 7 5 ''order-1'' None u = (Inr ordr, v) \<and>
    eo_State ordr = ''funded'' \<and> escrow_bound sample_env 5 sample_release p ordr"
proof -
  let ?s = "sample_sys () :: (int, unit, unit) sys"
  obtain p t where run: "prepareEscrow sample_env 5 sample_release ?s = (Inr p, t)"
    by (rule exE [OF sample_release_runs]) blast
  have q: "qc_OrderID sample_release = ''order-1''" "HexToAddress (eth sample_env) (qc_Contract sample_release) = 7"
    "order_buyer sample_env 5 sample_release = 5" "qc_Action sample_release = ActionEscrowRelease"
    by (simp_all add: sample_release_def order_buyer_def)
  from prepareEscrow_bound [OF run] obtain ordr and u v :: "(int, unit, unit) sys" where
    "queryEscrowOrder sample_env 7 5 ''order-1'' None u = (Inr ordr, v)" "escrow_bound sample_env 5 sample_release p ordr"
    unfolding q by blast
  moreover from this(2) have "eo_State ordr = ''funded''" by (auto simp: escrow_bound_def q Let_def)
  ultimately show ?thesis by blast
qed

end
