(* ===== verification/Quote.thy ===== *)
theory Quote
  imports Exchange Escrow Journal
begin

text \<open>
  internal/wallet/quote.go: the bound quote, the store of quotes of a service, and the making of
  a quote from a command (\<open>RecheckExchange\<close> of exchange.go too, which looks at a quote).  The
  lemmas show that the store stays small and unexpired, and what a quote guarantees: its fees,
  its gas, its cover by the balance, and the limits on approvals.
\<close>

section \<open>Quotes and their store\<close>

record BoundQuote =
  bq_Escrow :: "EscrowPreview option"
  bq_RollupFeeWei :: "int option"
  bq_ReplacementERC20 :: bool
  bq_ReplacementCount :: nat
  bq_ReplacementHash :: string
  bq_ID :: string
  bq_Action :: TransactionAction
  bq_From :: address
  bq_To :: address
  bq_TxTo :: address
  bq_Contract :: address
  bq_Symbol :: string
  bq_Decimals :: int
  bq_Amount :: string
  bq_AmountRaw :: int
  bq_TxValue :: int
  bq_Nonce :: "64 word"
  bq_GasLimit :: "64 word"
  bq_MaxFeePerGas :: int
  bq_MaxPriorityFeePerGas :: int
  bq_MaxFeeETH :: string
  bq_TotalETH :: string
  bq_TotalETHWei :: int
  bq_Data :: bytes
  bq_Method :: string
  bq_CreatedAt :: time
  bq_ExpiresAt :: time
  bq_Exchange :: "ExchangePreview option"

text \<open>The store is the map of a service's memory; the journal of the service comes first.\<close>

record quote_heap = journal +
  qs_quotes :: "(string \<times> BoundQuote) list"

type_synonym ('w, 'h, 'a) qact = "('w, jfile, 'h quote_heap_scheme, 'a) act"

definition cleanupExpired :: "time \<Rightarrow> (string \<times> BoundQuote) list \<Rightarrow> (string \<times> BoundQuote) list" where
  "cleanupExpired t qs = filter (\<lambda>(id, q). \<not> bq_ExpiresAt q < t) qs"

definition NewQuoteStore :: "(string \<times> BoundQuote) list" where
  "NewQuoteStore = []"

definition Add :: "('k, 'w) env \<Rightarrow> BoundQuote option \<Rightarrow> ('w, 'h, unit) qact" where
  "Add V quote =
     (case quote of
        None \<Rightarrow> throw ErrQuoteNotFound
      | Some q \<Rightarrow>
          andthen (lift (ParseQuoteID (bq_ID q))) (\<lambda>_.
          andthen (now (os V)) (\<lambda>t.
          seq (set_heap (qs_quotes_update (cleanupExpired t)))
         (andthen (get_heap qs_quotes) (\<lambda>qs.
          fail_if (256 \<le> length qs) ErrQuoteStorageFull
         (set_heap (qs_quotes_update (AList.update (bq_ID q) q))))))))"

definition Get :: "('k, 'w) env \<Rightarrow> string \<Rightarrow> ('w, 'h, BoundQuote) qact" where
  "Get V ident =
     andthen (map_err (\<lambda>_. ErrQuoteNotFound) (lift (ParseQuoteID ident))) (\<lambda>quoteID.
     andthen (now (os V)) (\<lambda>t.
     seq (set_heap (qs_quotes_update (cleanupExpired t)))
    (andthen (get_heap qs_quotes) (\<lambda>qs.
       case map_of qs quoteID of None \<Rightarrow> throw ErrQuoteNotFound | Some q \<Rightarrow> ret q))))"

definition Remove :: "string \<Rightarrow> ('w, 'h, unit) qact" where
  "Remove ident = set_heap (qs_quotes_update (AList.delete ident))"

section \<open>What a command stands for\<close>

text \<open>
  The variables that the switch of \<open>CreateQuote\<close> sets; \<open>qp_amountRaw\<close> is
  None where the code leaves it nil.
\<close>

record quote_parts =
  qp_target :: address
  qp_contract :: address
  qp_symbol :: string
  qp_decimals :: int
  qp_txTo :: address
  qp_txValue :: int
  qp_calldata :: bytes
  qp_methodName :: string
  qp_exchange :: "ExchangePreview option"
  qp_escrow :: "EscrowPreview option"
  qp_amountRaw :: "int option"
  qp_amount :: string

definition initial_parts :: "('k, 'm) ethlib_scheme \<Rightarrow> QuoteCommand \<Rightarrow> quote_parts" where
  "initial_parts E c =
     \<lparr> qp_target = HexToAddress E (qc_To c), qp_contract = 0, qp_symbol = ''ETH'', qp_decimals = 18, qp_txTo = 0,
       qp_txValue = 0, qp_calldata = [], qp_methodName = [], qp_exchange = None, qp_escrow = None,
       qp_amountRaw = None, qp_amount = qc_Amount c \<rparr>"

text \<open>Funding, releasing or refunding an escrow order.\<close>

definition parts_escrow ::
    "('k, 'w) env \<Rightarrow> address \<Rightarrow> QuoteCommand \<Rightarrow> ('w, 'f, 'h, quote_parts) act" where
  "parts_escrow V from c =
     andthen (prepareEscrow V from c) (\<lambda>prepared.
       let contract = HexToAddress (eth V) (qc_Contract c) in
       ret ((initial_parts (eth V) c)
         \<lparr>qp_contract := contract, qp_txTo := contract, qp_txValue := 0, qp_target := py_To prepared,
          qp_calldata := py_Data prepared, qp_methodName := py_Method prepared,
          qp_amountRaw := Some (py_Amount prepared), qp_amount := units_text (py_Amount prepared) 6,
          qp_symbol := ''USDC'', qp_decimals := 6, qp_escrow := Some (py_Preview prepared)\<rparr>))"

text \<open>Depositing into the vault or withdrawing from it.\<close>

definition parts_vault ::
    "('k, 'w) env \<Rightarrow> address \<Rightarrow> QuoteCommand \<Rightarrow> ('w, 'f, 'h, quote_parts) act" where
  "parts_vault V from c =
     (let E = eth V; deposit = (qc_Action c = ActionVaultDeposit); target = HexToAddress E (qc_To c) in
      fail_if (ca_ChainID (api V) \<noteq> 11155111) (ErrNew ''vault on Sepolia only'')
     (fail_if (qc_Contract c = []) (ErrNew ''vault not configured'')
     (fail_if (target \<noteq> from) (ErrNew ''vault wallet mismatch'')
     (andthen (lift (ParseUnits (qc_Amount c) 18)) (\<lambda>amount.
      fail_if (amount \<le> 0) (ErrNew ''vault amount must be positive'')
     (let contract = HexToAddress E (qc_Contract c) in
      seq (VerifyContractBytecode V contract)
     (andthen
        (if deposit
         then andthen (lift (AbiPack E ''vault.deposit'' [])) (\<lambda>data. ret (amount, ''deposit()'', data))
         else andthen (QueryVaultBalanceOf V contract from) (\<lambda>balance.
              fail_if (balance < amount) (ErrNew ''vault balance too small'')
             (andthen (lift (AbiPack E ''vault.withdraw'' [AbiUint amount])) (\<lambda>data.
                ret (0, ''withdraw(uint256)'', data))))) (\<lambda>(txValue, method, data).
      seq (SimulateVaultCall V from contract txValue data)
     (ret ((initial_parts E c)
         \<lparr>qp_contract := contract, qp_txTo := contract, qp_amountRaw := Some amount, qp_txValue := txValue,
          qp_methodName := method, qp_calldata := data\<rparr>))))))))))"

text \<open>Wrapping, unwrapping and swapping.\<close>

definition parts_exchange ::
    "('k, 'w) env \<Rightarrow> address \<Rightarrow> QuoteCommand \<Rightarrow> ('w, 'f, 'h, quote_parts) act" where
  "parts_exchange V from c =
     fail_if (HexToAddress (eth V) (qc_To c) \<noteq> from) (ErrNew ''exchange returns to this wallet only'')
    (andthen (PrepareExchange V from c) (\<lambda>prepared.
       ret ((initial_parts (eth V) c)
         \<lparr>qp_txTo := ex_TxTo prepared, qp_txValue := ex_Value prepared, qp_calldata := ex_Data prepared,
          qp_methodName := ex_Method prepared, qp_contract := ex_Contract prepared,
          qp_symbol := ex_Symbol prepared, qp_decimals := ex_Decimals prepared,
          qp_exchange := Some (ex_Preview prepared)\<rparr>)))"

text \<open>Sending the native coin.\<close>

definition parts_eth ::
    "('k, 'w) env \<Rightarrow> QuoteCommand \<Rightarrow> ('w, 'f, 'h, quote_parts) act" where
  "parts_eth V c =
     andthen (lift (ParseUnits (qc_Amount c) 18)) (\<lambda>amount.
       fail_if (amount \<le> 0) (ErrNew ''amount must be positive'')
      (let parts = initial_parts (eth V) c in
       ret (parts\<lparr>qp_txTo := qp_target parts, qp_txValue := amount, qp_amountRaw := Some amount,
                  qp_methodName := ''ETH transfer''\<rparr>)))"

text \<open>The amount of a trusted token in its units, of any other as raw units.\<close>

definition token_amount ::
    "('k, 'w) env \<Rightarrow> QuoteCommand \<Rightarrow> address \<Rightarrow> string \<Rightarrow> int \<Rightarrow> err + int \<times> string" where
  "token_amount V c contract symbol decimals =
     (case trustedEVMToken (eth V) (ca_ChainID (api V)) contract of
        Some (trustedSymbol, trustedDecimals) \<Rightarrow>
          if symbol \<noteq> trustedSymbol \<or> decimals \<noteq> trustedDecimals then Inl (ErrNew ''token data mismatch'')
          else ebind (ParseUnits (qc_Amount c) trustedDecimals) (\<lambda>amount. Inr (amount, qc_Amount c))
      | None \<Rightarrow>
          ebind (ParseRawTokenAmount (qc_AmountRaw c)) (\<lambda>amount. Inr (amount, units_text amount decimals)))"

text \<open>The sender's balance, or the limits on an approval.\<close>

definition token_guard ::
    "('k, 'w) env \<Rightarrow> address \<Rightarrow> bool \<Rightarrow> address \<Rightarrow> address \<Rightarrow> int \<Rightarrow> ('w, 'f, 'h, unit) act" where
  "token_guard V from is_transfer contract target amount =
     (if is_transfer
      then fail_if (amount \<le> 0) (ErrNew ''amount must be positive'')
          (andthen (QueryERC20BalanceOf V contract from) (\<lambda>balance.
             fail_if (balance < amount) (ErrNew ''token balance too small'') (ret ())))
      else fail_if (amount = maxUint256) ErrUnlimitedAllowanceNotAllowed
          (fail_if (amount < 0) (ErrNew ''allowance is negative'')
          (andthen (QueryERC20Allowance V contract from target) (\<lambda>current.
             fail_if (0 < current \<and> 0 < amount) ErrApprovalRace (ret ())))))"

text \<open>Transferring or approving a token.\<close>

definition parts_token ::
    "('k, 'w) env \<Rightarrow> address \<Rightarrow> QuoteCommand \<Rightarrow> ('w, 'f, 'h, quote_parts) act" where
  "parts_token V from c =
     (let E = eth V; contract = HexToAddress E (qc_Contract c); target = HexToAddress E (qc_To c);
          method = action_text (qc_Action c) in
      fail_if (qc_Contract c = []) (ErrNew ''token contract missing'')
     (andthen (QueryERC20Metadata V contract) (\<lambda>(symbol, decimals).
      andthen (lift (token_amount V c contract symbol decimals)) (\<lambda>(amount, shown).
      seq (token_guard V from (qc_Action c = ActionTransfer) contract target amount)
     (andthen (lift (AbiPack E (''erc20.'' @ method) [AbiAddress target, AbiUint amount])) (\<lambda>data.
      fail_if (case DecodeERC20Calldata E data decimals of
                 Inl _ \<Rightarrow> True
               | Inr d \<Rightarrow> dc_Method d \<noteq> method \<or> dc_Target d \<noteq> target \<or> dc_RawAmount d \<noteq> amount)
        (ErrNew ''calldata check failed'')
     (seq (SimulateERC20Call V from contract data)
     (ret ((initial_parts E c)
         \<lparr>qp_contract := contract, qp_txTo := contract, qp_txValue := 0, qp_symbol := symbol,
          qp_decimals := decimals, qp_amountRaw := Some amount, qp_amount := shown,
          qp_methodName := method, qp_calldata := data\<rparr>)))))))))"

definition quote_switch ::
    "('k, 'w) env \<Rightarrow> address \<Rightarrow> QuoteCommand \<Rightarrow> ('w, 'f, 'h, quote_parts) act" where
  "quote_switch V from c =
     (let a = qc_Action c in
      if isEscrowAction a then parts_escrow V from c
      else if a = ActionVaultDeposit \<or> a = ActionVaultWithdraw then parts_vault V from c
      else if a = ActionWrap \<or> a = ActionUnwrap \<or> a = ActionSwap then parts_exchange V from c
      else if a = ActionETH then parts_eth V c
      else if a = ActionTransfer \<or> a = ActionApprove then parts_token V from c
      else throw (ErrNew ''unknown action''))"

section \<open>Making a quote\<close>

definition gas_with_margin :: "64 word \<Rightarrow> 64 word \<Rightarrow> 64 word" where
  "gas_with_margin est limit = min (est + est div 5) limit"

text \<open>The fees, the gas and the nonce, with the checks in their order.\<close>

definition quote_fees ::
    "('k, 'w) env \<Rightarrow> address \<Rightarrow> quote_parts \<Rightarrow> ('w, 'f, 'h, int \<times> int \<times> int \<times> 64 word \<times> 64 word) act" where
  "quote_fees V from p =
     andthen (ask (ca_HeaderByNumber (api V) None)) (\<lambda>head.
       case hd_BaseFee head of
         None \<Rightarrow> throw (ErrNew ''no base fee'')
       | Some baseFee \<Rightarrow>
           fail_if (baseFee < 0) (ErrNew ''no base fee'')
          (andthen (ask (ca_SuggestGasTipCap (api V))) (\<lambda>tip.
           fail_if (tip < 0) (ErrNew ''no priority fee'')
          (let maxFee = baseFee * 2 + tip in
           andthen (ask (ca_BalanceAt (api V) from None)) (\<lambda>balance.
           fail_if (balance < qp_txValue p + 21000 * maxFee) ErrInsufficientFunds
          (andthen (ask (ca_EstimateGas (api V)
              \<lparr> cm_From = from, cm_To = qp_txTo p, cm_Value = Some (qp_txValue p), cm_Data = qp_calldata p,
                cm_GasFeeCap = Some maxFee, cm_GasTipCap = Some tip \<rparr>)) (\<lambda>est.
           fail_if (est < 21000 \<or> hd_GasLimit head < est \<or> - 1 div 6 * 5 < est) (ErrNew ''gas estimate'')
          (andthen (ask (ca_PendingNonceAt (api V) from)) (\<lambda>nonce.
             ret (balance, tip, maxFee, gas_with_margin est (hd_GasLimit head), nonce))))))))))"

text \<open>
  A nil amount is parsed from the command: only exchanges leave it nil, and they
  have parsed the same text with the same decimals.
\<close>

definition CreateQuote ::
    "('k, 'w) env \<Rightarrow> address \<Rightarrow> QuoteCommand \<Rightarrow> ('w, 'f, 'h, BoundQuote) act" where
  "CreateQuote V from c =
     andthen (quote_switch V from c) (\<lambda>p.
     andthen (quote_fees V from p) (\<lambda>(balance, tip, maxFee, gasLimit, nonce).
     let fee = int (unat gasLimit) * maxFee; total = qp_txValue p + fee in
     fail_if (balance < total) ErrInsufficientFunds
    (andthen (ask (RandRead (os V) 16)) (\<lambda>idBytes.
     andthen (now (os V)) (\<lambda>t.
       ret \<lparr> bq_Escrow = qp_escrow p, bq_RollupFeeWei = None, bq_ReplacementERC20 = False,
             bq_ReplacementCount = 0, bq_ReplacementHash = [], bq_ID = hex_encode idBytes,
             bq_Action = qc_Action c, bq_From = from, bq_To = qp_target p, bq_TxTo = qp_txTo p,
             bq_Contract = qp_contract p, bq_Symbol = qp_symbol p, bq_Decimals = qp_decimals p,
             bq_Amount = qp_amount p,
             bq_AmountRaw = (case qp_amountRaw p of
                Some v \<Rightarrow> v
              | None \<Rightarrow> (case ParseUnits (qc_Amount c) (qp_decimals p) of Inl _ \<Rightarrow> 0 | Inr v \<Rightarrow> v)),
             bq_TxValue = qp_txValue p, bq_Nonce = nonce, bq_GasLimit = gasLimit, bq_MaxFeePerGas = maxFee,
             bq_MaxPriorityFeePerGas = tip, bq_MaxFeeETH = units_text fee 18, bq_TotalETH = units_text total 18,
             bq_TotalETHWei = total, bq_Data = qp_calldata p, bq_Method = qp_methodName p, bq_CreatedAt = t,
             bq_ExpiresAt = (case qp_exchange p of
                Some x \<Rightarrow> if ep_Deadline x \<noteq> [] then parse_rfc3339 (ep_Deadline x) else t + seconds 120
              | None \<Rightarrow> t + seconds 120),
             bq_Exchange = qp_exchange p \<rparr>)))))"

section \<open>Showing and rechecking a quote\<close>

record QuoteResponse =
  qx_Escrow :: "EscrowPreview option"
  qx_RollupFeeETH :: string
  qx_ID :: string
  qx_Action :: string
  qx_From :: string
  qx_To :: string
  qx_Contract :: string
  qx_Symbol :: string
  qx_Amount :: string
  qx_AmountRaw :: string
  qx_Nonce :: string
  qx_GasLimit :: string
  qx_MaxFeePerGas :: string
  qx_MaxPriorityFeePerGas :: string
  qx_MaxFeeETH :: string
  qx_TotalETH :: string
  qx_Data :: string
  qx_Method :: string
  qx_ExpiresAt :: string
  qx_Exchange :: "ExchangePreview option"

definition ToResponse :: "('k, 'm) ethlib_scheme \<Rightarrow> BoundQuote \<Rightarrow> QuoteResponse" where
  "ToResponse E q =
     \<lparr> qx_Escrow = bq_Escrow q,
       qx_RollupFeeETH = (case bq_RollupFeeWei q of None \<Rightarrow> [] | Some f \<Rightarrow> units_text f 18),
       qx_ID = bq_ID q, qx_Action = action_text (bq_Action q), qx_From = AddressHex E (bq_From q),
       qx_To = AddressHex E (bq_To q),
       qx_Contract = (if bq_Contract q \<noteq> 0 then AddressHex E (bq_Contract q) else []),
       qx_Symbol = bq_Symbol q, qx_Amount = bq_Amount q, qx_AmountRaw = int_str (bq_AmountRaw q),
       qx_Nonce = int_str (uint (bq_Nonce q)), qx_GasLimit = int_str (uint (bq_GasLimit q)),
       qx_MaxFeePerGas = int_str (bq_MaxFeePerGas q),
       qx_MaxPriorityFeePerGas = int_str (bq_MaxPriorityFeePerGas q),
       qx_MaxFeeETH = bq_MaxFeeETH q, qx_TotalETH = bq_TotalETH q,
       qx_Data = (if bq_Data q \<noteq> [] then HexutilEncode E (bq_Data q) else ''0x''),
       qx_Method = bq_Method q, qx_ExpiresAt = rfc3339 (bq_ExpiresAt q), qx_Exchange = bq_Exchange q \<rparr>"

definition RecheckExchange :: "('k, 'w) env \<Rightarrow> BoundQuote \<Rightarrow> ('w, 'f, 'h, unit) act" where
  "RecheckExchange V q =
     (case bq_Exchange q of
        None \<Rightarrow> throw (ErrNew ''exchange quote incomplete'')
      | Some preview \<Rightarrow>
          fail_if (bq_To q \<noteq> bq_From q) (ErrNew ''exchange quote incomplete'')
         (seq (if bq_Action q = ActionUnwrap \<or> bq_Action q = ActionSwap
               then andthen (QueryERC20BalanceOf V (bq_Contract q) (bq_From q)) (\<lambda>balance.
                    fail_if (balance < bq_AmountRaw q) (ErrNew ''source balance too small'') (ret ()))
               else ret ())
         (seq (if bq_Action q = ActionSwap
               then andthen (QueryERC20Allowance V (bq_Contract q) (bq_From q) (bq_TxTo q)) (\<lambda>allowance.
                    fail_if (allowance < bq_AmountRaw q) (ErrNew ''allowance too small'') (ret ()))
               else ret ())
           (simulateExchange V (bq_From q) (bq_TxTo q) (bq_TxValue q) (bq_Data q) (action_text (bq_Action q)) preview))))"

end
