(* ===== verification/Service.thy ===== *)
theory Service
  imports Texts Quote
begin

text \<open>
  internal/wallet/service.go with nonce.go, rollup_fee.go, replacement.go and the settings of
  vault.go and escrow.go: the service of one network.  Quote, Send and Retry hold sendMu from
  their first to their last step and History holds historyMu, so each is one body here; what
  History and Send can do to the journal between each other's steps is the step relation of
  JournalDisk.
\<close>

section \<open>State\<close>

record service = quote_heap +
  sv_historyOffset :: nat
  sv_csrfToken :: string
  sv_vaultAddress :: string
  sv_escrowAddress :: string
  sv_escrowToken :: string
  sv_storageFault :: bool
  sv_lockFile :: bool

type_synonym ('w, 'h, 'a) sact = "('w, jfile, 'h service_scheme, 'a) act"

text \<open>The key store, the broadcast and the journal as the service calls them.\<close>

definition Address :: "('k, 'w) env \<Rightarrow> ('w, 'f, 'h, string) act" where
  "Address V = ask (ka_Address (keys V))"

definition Exists :: "('k, 'w) env \<Rightarrow> ('w, 'f, 'h, bool) act" where
  "Exists V = ask (\<lambda>w. case ka_Exists (keys V) w of (b, w') \<Rightarrow> (Inr b, w'))"

definition broadcast :: "('k, 'w) env \<Rightarrow> eth_tx \<Rightarrow> ('w, 'f, 'h, err + unit) act" where
  "broadcast V tx = seq (emit (SentRaw (tx_hash tx))) (attempt (ask (ca_SendTransaction (api V) tx)))"

definition journal_fault :: "('w, 'h, 'a) sact \<Rightarrow> ('w, 'h, 'a) sact" where
  "journal_fault m =
     andthen (attempt m) (\<lambda>r.
       case r of
         Inl e \<Rightarrow> seq (set_heap (sv_storageFault_update (\<lambda>_. True))) (throw e)
       | Inr x \<Rightarrow> ret x)"

section \<open>Starting and closing\<close>

text \<open>The directory is locked first; a failure after that closes the lock again.\<close>

definition NewService :: "('k, 'w) env \<Rightarrow> ('w, 'h, unit) sact" where
  "NewService V =
     seq (on_world (SysCall (os V) ''mkdir''))
    (seq (on_world (SysCall (os V) ''chmod''))
    (seq (on_world (SysCall (os V) ''openlock''))
    (seq (map_err (\<lambda>_. ErrNew ''wallet directory in use'') (on_world (SysCall (os V) ''flock'')))
    (seq (NewJournalManager (eth V) (os V) [ca_ChainID (api V)])
    (andthen (ask (RandRead (os V) 32)) (\<lambda>csrfBytes.
       set_heap (\<lambda>h. h\<lparr>qs_quotes := NewQuoteStore, sv_historyOffset := 0, sv_csrfToken := hex_encode csrfBytes,
         sv_vaultAddress := [], sv_escrowAddress := [], sv_escrowToken := [], sv_storageFault := False,
         sv_lockFile := True\<rparr>)))))))"

definition Close :: "('k, 'w) env \<Rightarrow> ('w, 'h, unit) sact" where
  "Close V =
     andthen (get_heap sv_lockFile) (\<lambda>held.
       if \<not> held then ret ()
       else andthen (attempt (on_world (SysCall (os V) ''close''))) (\<lambda>r.
            seq (set_heap (sv_lockFile_update (\<lambda>_. False))) (lift r)))"

section \<open>Evidence of a finalized nonce (nonce.go)\<close>

definition finalizedNonceOf :: "('k, 'w) env \<Rightarrow> ('w, 'f, 'h, finalizedNonce option) act" where
  "finalizedNonceOf V =
     andthen (attempt (Address V)) (\<lambda>address.
       case address of
         Inl _ \<Rightarrow> ret None
       | Inr a \<Rightarrow>
           if \<not> IsHexAddress (eth V) a then ret None
           else let account = HexToAddress (eth V) a in
             andthen (attempt (ask (ca_FinalizedNonceAt (api V) account))) (\<lambda>nonce.
               case nonce of
                 Inl _ \<Rightarrow> ret None
               | Inr n \<Rightarrow>
                   andthen (ctx_err (os V)) (\<lambda>done.
                     if done then ret None
                     else ret (Some \<lparr> fn_account = account, fn_chainID = ca_ChainID (api V), fn_nonce = n \<rparr>))))"

definition checkInFlight :: "('k, 'w) env \<Rightarrow> ('w, 'h, finalizedNonce option) sact" where
  "checkInFlight V =
     andthen (get_heap (\<lambda>h. hasInFlightTx (eth V) h None)) (\<lambda>busy.
       if \<not> busy then ret None
       else andthen (finalizedNonceOf V) (\<lambda>finalized.
            andthen (get_heap (\<lambda>h. hasInFlightTx (eth V) h finalized)) (\<lambda>still.
            fail_if still ErrTxInFlight
           (ret finalized))))"

section \<open>Fees of OP Stack chains (rollup\_fee.go)\<close>

definition dynamic_of :: "int \<Rightarrow> BoundQuote \<Rightarrow> dynamic_tx" where
  "dynamic_of chainID q =
     \<lparr> dt_chain = chainID, dt_nonce = bq_Nonce q, dt_tip = bq_MaxPriorityFeePerGas q, dt_fee = bq_MaxFeePerGas q,
       dt_gas = bq_GasLimit q, dt_to = bq_TxTo q, dt_value = bq_TxValue q, dt_data = bq_Data q \<rparr>"

definition rollupFee :: "('k, 'w) env \<Rightarrow> BoundQuote \<Rightarrow> bool \<Rightarrow> ('w, 'f, 'h, BoundQuote) act" where
  "rollupFee V q bind =
     (if \<not> is_op_stack (ca_ChainID (api V)) then ret q
      else andthen (ask (ca_RollupFee (api V) (UnsignedTx (eth V) (dynamic_of (ca_ChainID (api V)) q)))) (\<lambda>estimate.
        if \<not> bind
        then fail_if (case bq_RollupFeeWei q of None \<Rightarrow> True | Some f \<Rightarrow> f < estimate) (ErrNew ''rollup fee above quote'')
               (ret q)
        else let q = q\<lparr>bq_RollupFeeWei := Some (estimate * 2), bq_TotalETHWei := bq_TotalETHWei q + estimate * 2,
                       bq_TotalETH := units_text (bq_TotalETHWei q + estimate * 2) 18\<rparr> in
             andthen (ask (ca_BalanceAt (api V) (bq_From q) None)) (\<lambda>balance.
             fail_if (balance < bq_TotalETHWei q) ErrInsufficientFunds
            (ret q))))"

section \<open>Settings (vault.go, escrow.go)\<close>

definition VaultAddress :: "('k, 'w) env \<Rightarrow> 'h service_scheme \<Rightarrow> string" where
  "VaultAddress V h = (if ca_ChainID (api V) \<noteq> SepoliaID then [] else sv_vaultAddress h)"

definition SetVaultAddress :: "('k, 'w) env \<Rightarrow> string \<Rightarrow> ('w, 'h, unit) sact" where
  "SetVaultAddress V address =
     (if ca_ChainID (api V) \<noteq> SepoliaID then set_heap (sv_vaultAddress_update (\<lambda>_. []))
      else let address = TrimSpace address in
        if address = [] then set_heap (sv_vaultAddress_update (\<lambda>_. []))
        else andthen (lift (ValidateAddress (eth V) address)) (\<lambda>validated.
               set_heap (sv_vaultAddress_update (\<lambda>_. AddressHex (eth V) validated))))"

record VaultInfo =
  vi_Enabled :: bool
  vi_Contract :: string
  vi_Balance :: string
  vi_BalanceRaw :: string

definition VaultStatus :: "('k, 'w) env \<Rightarrow> ('w, 'h, VaultInfo) sact" where
  "VaultStatus V =
     andthen (get_heap sv_vaultAddress) (\<lambda>vault.
       if ca_ChainID (api V) \<noteq> SepoliaID \<or> vault = []
       then ret \<lparr> vi_Enabled = False, vi_Contract = [], vi_Balance = [], vi_BalanceRaw = [] \<rparr>
       else andthen (Address V) (\<lambda>address.
            andthen (QueryVaultBalanceOf V (HexToAddress (eth V) vault) (HexToAddress (eth V) address)) (\<lambda>balance.
              ret \<lparr> vi_Enabled = True, vi_Contract = vault, vi_Balance = units_text balance 18,
                    vi_BalanceRaw = int_str balance \<rparr>)))"

definition SetEscrow :: "('k, 'w) env \<Rightarrow> string \<Rightarrow> string \<Rightarrow> ('w, 'h, unit) sact" where
  "SetEscrow V address token =
     (if ca_ChainID (api V) \<noteq> SepoliaID \<or> address = [] \<and> token = []
      then set_heap (\<lambda>h. h\<lparr>sv_escrowAddress := [], sv_escrowToken := []\<rparr>)
      else andthen (lift (ValidateAddress (eth V) address)) (\<lambda>contract.
           andthen (lift (ValidateAddress (eth V) token)) (\<lambda>paymentToken.
           fail_if (contract = paymentToken) (ErrNew ''escrow equals token'')
          (set_heap (\<lambda>h. h\<lparr>sv_escrowAddress := AddressHex (eth V) contract,
                            sv_escrowToken := AddressHex (eth V) paymentToken\<rparr>)))))"

record EscrowInfo =
  ei_Enabled :: bool
  ei_Contract :: string
  ei_Token :: string
  ei_Balance :: string
  ei_Allowance :: string

definition EscrowStatus :: "('k, 'w) env \<Rightarrow> ('w, 'h, EscrowInfo) sact" where
  "EscrowStatus V =
     andthen (get_heap (\<lambda>h. (sv_escrowAddress h, sv_escrowToken h))) (\<lambda>(escrow, paid).
       if escrow = [] \<or> ca_ChainID (api V) \<noteq> SepoliaID
       then ret \<lparr> ei_Enabled = False, ei_Contract = [], ei_Token = [], ei_Balance = [], ei_Allowance = [] \<rparr>
       else let contract = HexToAddress (eth V) escrow; token = HexToAddress (eth V) paid in
         seq (verifyEscrow V contract token)
        (andthen (Address V) (\<lambda>owner.
         andthen (QueryERC20BalanceOf V token (HexToAddress (eth V) owner)) (\<lambda>balance.
         andthen (QueryERC20Allowance V token (HexToAddress (eth V) owner) contract) (\<lambda>allowance.
           ret \<lparr> ei_Enabled = True, ei_Contract = AddressHex (eth V) contract,
                 ei_Token = AddressHex (eth V) token, ei_Balance = units_text balance 6,
                 ei_Allowance = units_text allowance 6 \<rparr>)))))"

text \<open>escrow.go, \<open>EscrowOrder\<close>: what may be claimed of finality.\<close>

definition order_finality ::
    "('k, 'w) env \<Rightarrow> address \<Rightarrow> address \<Rightarrow> string \<Rightarrow> header \<Rightarrow> EscrowOrder \<Rightarrow> ('w, 'h, EscrowOrder) sact" where
  "order_finality V contract buyer reference head ord =
     andthen (attempt (ask (ca_HeaderByNumber (api V) (Some (- 3))))) (\<lambda>found.
       case found of
         Inl _ \<Rightarrow> ret ord
       | Inr finalized \<Rightarrow>
           if hd_Number head \<le> hd_Number finalized then ret (ord\<lparr>eo_Finalized := True\<rparr>)
           else andthen (attempt (queryEscrowOrder V contract buyer reference (Some (hd_Number finalized)))) (\<lambda>settled.
             ret (ord\<lparr>eo_Finalized := (case settled of
                Inl _ \<Rightarrow> False
              | Inr old \<Rightarrow> eo_State old = eo_State ord \<and> eo_Seller old = eo_Seller ord \<and>
                          eo_AmountRaw old = eo_AmountRaw ord)\<rparr>)))"

definition EscrowOrderOf :: "('k, 'w) env \<Rightarrow> string \<Rightarrow> string \<Rightarrow> ('w, 'h, EscrowOrder) sact" where
  "EscrowOrderOf V buyer reference =
     andthen (get_heap (\<lambda>h. (sv_escrowAddress h, sv_escrowToken h))) (\<lambda>(escrow, paid).
     fail_if (escrow = [] \<or> ca_ChainID (api V) \<noteq> SepoliaID) (ErrNew ''escrow not available'')
    (andthen (lift (ParseOrderReference reference)) (\<lambda>_.
     andthen (lift (ValidateAddress (eth V) buyer)) (\<lambda>address.
     let contract = HexToAddress (eth V) escrow in
     seq (verifyEscrow V contract (HexToAddress (eth V) paid))
    (andthen (ask (ca_HeaderByNumber (api V) None)) (\<lambda>head.
     andthen (queryEscrowOrder V contract address reference (Some (hd_Number head))) (\<lambda>ord.
     andthen (ask (ca_HeaderByNumber (api V) (Some (hd_Number head)))) (\<lambda>canonical.
     fail_if (hd_Hash canonical \<noteq> hd_Hash head) (ErrNew ''block changed'')
    (order_finality V contract address reference head
       (ord\<lparr>eo_Block := int_str (hd_Number head)\<rparr>))))))))))"

section \<open>Replacing a transaction (replacement.go, escrow.go)\<close>

text \<open>escrow.go, \<open>prepareEscrowSpeedup\<close>: the call in the signed bytes is prepared again.\<close>

definition prepareEscrowSpeedup ::
    "('k, 'w) env \<Rightarrow> address \<Rightarrow> JournalRecord \<Rightarrow> eth_tx \<Rightarrow> ('w, 'h, escrowPayload) sact" where
  "prepareEscrowSpeedup V from r tx =
     andthen (get_heap (\<lambda>h. (sv_escrowAddress h, sv_escrowToken h))) (\<lambda>(escrow, paid).
     fail_if (escrow = [] \<or> tx_to tx \<noteq> Some (HexToAddress (eth V) escrow)) (ErrNew ''escrow settings changed'')
    (andthen (lift (decodeEscrowTransaction (eth V) tx)) (\<lambda>found.
       case found of
         None \<Rightarrow> throw (ErrNew ''not an escrow operation'')
       | Some call \<Rightarrow>
           let fund = (ec_action call = ActionEscrowFund);
               command = \<lparr> qc_OrderID = jr_OrderID r, qc_Buyer = AddressHex (eth V) (ec_buyer call), qc_Hash = [],
                           qc_Action = ec_action call,
                           qc_To = (if fund then AddressHex (eth V) (ec_seller call) else []),
                           qc_Amount = (if fund then units_text (ec_amount call) 6 else []), qc_AmountRaw = [],
                           qc_Contract = escrow, qc_TokenOut = paid, qc_SlippageBPS = 0, qc_PoolFee = 0 \<rparr> in
           andthen (prepareEscrow V from command) (\<lambda>payload.
           fail_if (py_Data payload \<noteq> tx_data tx) (ErrNew ''escrow data mismatch'')
          (ret payload)))))"

text \<open>The record, its transaction, and the wallet that signed it.\<close>

definition replaced_tx :: "('k, 'm) ethlib_scheme \<Rightarrow> int \<Rightarrow> JournalRecord \<Rightarrow> err + eth_tx" where
  "replaced_tx E chainID r =
     (case HexutilDecode E (jr_SignedRaw r) of
        None \<Rightarrow> Inl (ErrExt ''hex'')
      | Some raw \<Rightarrow>
         (case TxUnmarshal E raw of
            None \<Rightarrow> Inl (ErrNew ''cannot replace'')
          | Some tx \<Rightarrow>
              if tx_hash tx \<noteq> jr_Hash r \<or> tx_chain tx \<noteq> chainID \<or> tx_nonce tx \<noteq> jr_Nonce r \<or> tx_type tx \<noteq> 2 \<or>
                 tx_access tx \<noteq> 0 \<or> tx_to tx = None
              then Inl (ErrNew ''cannot replace'') else Inr tx))"

definition replaced_source ::
    "('k, 'w) env \<Rightarrow> string \<Rightarrow> ('w, 'h, JournalRecord \<times> eth_tx \<times> address) sact" where
  "replaced_source V hash =
     andthen (get_heap (\<lambda>h. FindByHash h hash)) (\<lambda>found.
       case found of
         None \<Rightarrow> throw ErrNotFound
       | Some r \<Rightarrow>
           andthen (get_heap (\<lambda>h. NonceMined h (jr_Nonce r))) (\<lambda>mined.
           fail_if mined (ErrNew ''nonce already mined'')
          (andthen (lift (replaced_tx (eth V) (ca_ChainID (api V)) r)) (\<lambda>tx.
           andthen (Address V) (\<lambda>address.
           let from = HexToAddress (eth V) address in
           fail_if (TxSender (eth V) tx \<noteq> Some from) (ErrNew ''signer mismatch'')
          (andthen (lift (restoreEscrowJournal (eth V) r tx)) (\<lambda>r.
             ret (r, tx, from))))))))"

text \<open>Every earlier transaction of this nonce is outbid by a fifth.\<close>

definition bump :: "int \<Rightarrow> int" where
  "bump x = (x * 120 + 99) div 100"

fun outbid :: "('k, 'm) ethlib_scheme \<Rightarrow> JournalRecord list \<Rightarrow> int \<times> int \<Rightarrow> err + int \<times> int" where
  "outbid E [] (tip, fee) = Inr (tip, fee)"
| "outbid E (item # items) (tip, fee) =
     (case Option.bind (HexutilDecode E (jr_SignedRaw item)) (TxUnmarshal E) of
        None \<Rightarrow> Inl (ErrNew ''journal format'')
      | Some prior \<Rightarrow>
          let bumpTip = (if bump (tx_tip prior) = 0 then 1 else bump (tx_tip prior)); bumpFee = bump (tx_fee prior)
          in outbid E items (max tip bumpTip, max fee bumpFee))"

text \<open>What the replacement does.\<close>

record replacement =
  rp_to :: address
  rp_value :: int
  rp_data :: bytes
  rp_recipient :: string
  rp_amount :: string
  rp_symbol :: string
  rp_amountRaw :: int
  rp_decimals :: int
  rp_erc20 :: bool
  rp_escrow :: "EscrowPreview option"

definition speedup_parts ::
    "('k, 'w) env \<Rightarrow> address \<Rightarrow> JournalRecord \<Rightarrow> eth_tx \<Rightarrow> replacement \<Rightarrow> ('w, 'h, replacement) sact" where
  "speedup_parts V from r tx p =
     (if jr_EscrowAction r \<noteq> None
      then andthen (prepareEscrowSpeedup V from r tx) (\<lambda>payload.
        ret (p\<lparr>rp_escrow := Some (py_Preview payload), rp_recipient := AddressHex (eth V) (py_To payload),
               rp_amountRaw := py_Amount payload, rp_amount := units_text (py_Amount payload) 6,
               rp_symbol := ''USDC'', rp_decimals := 6\<rparr>))
      else case DecodeERC20Calldata (eth V) (rp_data p) 18 of
          Inl _ \<Rightarrow> ret p
        | Inr _ \<Rightarrow>
            andthen (QueryERC20Metadata V (rp_to p)) (\<lambda>(symbol, decimals).
            andthen (lift (DecodeERC20Calldata (eth V) (rp_data p) decimals)) (\<lambda>decoded.
            seq (SimulateERC20Call V from (rp_to p) (rp_data p))
           (ret (p\<lparr>rp_recipient := AddressHex (eth V) (dc_Target decoded), rp_amount := dc_FormattedAmount decoded,
                   rp_amountRaw := dc_RawAmount decoded, rp_symbol := symbol, rp_decimals := decimals,
                   rp_erc20 := True\<rparr>)))))"

definition replacement_parts ::
    "('k, 'w) env \<Rightarrow> TransactionAction \<Rightarrow> address \<Rightarrow> JournalRecord \<Rightarrow> eth_tx \<Rightarrow> ('w, 'h, replacement) sact" where
  "replacement_parts V action from r tx =
     (case set_string10 (jr_AmountRaw r) of
        None \<Rightarrow> throw (ErrNew ''original amount format'')
      | Some amountRaw \<Rightarrow>
          let kept = \<lparr> rp_to = (case tx_to tx of None \<Rightarrow> 0 | Some a \<Rightarrow> a), rp_value = tx_value tx, rp_data = tx_data tx,
                       rp_recipient = jr_To r, rp_amount = jr_Amount r, rp_symbol = jr_Symbol r,
                       rp_amountRaw = amountRaw, rp_decimals = 18, rp_erc20 = False, rp_escrow = None \<rparr> in
          if action = ActionCancel
          then ret (kept\<lparr>rp_to := from, rp_value := 0, rp_data := [], rp_recipient := AddressHex (eth V) from,
                         rp_amount := ''0'', rp_symbol := NativeSymbol (ca_ChainID (api V)), rp_amountRaw := 0\<rparr>)
          else if action = ActionSpeedup then speedup_parts V from r tx kept
          else ret kept)"

text \<open>The addition is that of uint64.\<close>

definition replacement_gas :: "64 word \<Rightarrow> 64 word \<Rightarrow> 64 word" where
  "replacement_gas gas limit = (let g = gas + gas div 5 in if limit < g then limit else g)"

definition replacementQuote :: "('k, 'w) env \<Rightarrow> QuoteCommand \<Rightarrow> ('w, 'h, BoundQuote) sact" where
  "replacementQuote V command =
     (let E = eth V; action = qc_Action command in
      andthen (replaced_source V (qc_Hash command)) (\<lambda>(r, tx, from).
      andthen (ask (ca_NonceAt (api V) from)) (\<lambda>nonce.
      fail_if (tx_nonce tx < nonce) ErrNonceMismatch
     (andthen (ask (ca_HeaderByNumber (api V) None)) (\<lambda>head.
        case hd_BaseFee head of
          None \<Rightarrow> throw (ErrNew ''no base fee'')
        | Some baseFee \<Rightarrow>
            andthen (ask (ca_SuggestGasTipCap (api V))) (\<lambda>suggestedTip.
            andthen (get_heap (\<lambda>h. NonceRecords h (tx_nonce tx))) (\<lambda>priors.
            andthen (lift (outbid E priors (suggestedTip, 0))) (\<lambda>(tip, bumped).
            let fee = max bumped (baseFee * 2 + tip) in
            andthen (replacement_parts V action from r tx) (\<lambda>p.
            andthen (ask (ca_EstimateGas (api V)
               \<lparr> cm_From = from, cm_To = rp_to p, cm_Value = Some (rp_value p), cm_Data = rp_data p,
                 cm_GasFeeCap = Some fee, cm_GasTipCap = Some tip \<rparr>)) (\<lambda>est.
            fail_if (est < 21000 \<or> hd_GasLimit head < est) (ErrNew ''gas estimate'')
           (let gas = replacement_gas est (hd_GasLimit head); cost = int (unat gas) * fee; total = rp_value p + cost in
            andthen (ask (ca_BalanceAt (api V) from None)) (\<lambda>balance.
            fail_if (balance < total) ErrInsufficientFunds
           (andthen (ask (RandRead (os V) 16)) (\<lambda>idBytes.
            andthen (get_heap (\<lambda>h. length (NonceRecords h (tx_nonce tx)))) (\<lambda>count.
            andthen (now (os V)) (\<lambda>created.
            andthen (now (os V)) (\<lambda>t.
              ret \<lparr> bq_Escrow = rp_escrow p, bq_RollupFeeWei = None, bq_ReplacementERC20 = rp_erc20 p,
                    bq_ReplacementCount = count, bq_ReplacementHash = jr_Hash r, bq_ID = hex_encode idBytes,
                    bq_Action = action, bq_From = from, bq_To = HexToAddress E (rp_recipient p), bq_TxTo = rp_to p,
                    bq_Contract = (if action = ActionSpeedup \<and> rp_data p \<noteq> [] then rp_to p else 0),
                    bq_Symbol = rp_symbol p, bq_Decimals = rp_decimals p, bq_Amount = rp_amount p,
                    bq_AmountRaw = rp_amountRaw p, bq_TxValue = rp_value p, bq_Nonce = tx_nonce tx,
                    bq_GasLimit = gas, bq_MaxFeePerGas = fee, bq_MaxPriorityFeePerGas = tip,
                    bq_MaxFeeETH = units_text cost 18, bq_TotalETH = units_text total 18, bq_TotalETHWei = total,
                    bq_Data = rp_data p, bq_Method = action_text action, bq_CreatedAt = created,
                    bq_ExpiresAt = t + seconds 120, bq_Exchange = None \<rparr>)))))))))))))))))"

section \<open>Quoting\<close>

text \<open>Where an action may be used, and the addresses the server sets.\<close>

definition bound_command :: "('k, 'w) env \<Rightarrow> 'h service_scheme \<Rightarrow> QuoteCommand \<Rightarrow> err + QuoteCommand" where
  "bound_command V h c =
     (let a = qc_Action c; sepolia = (ca_ChainID (api V) = SepoliaID) in
      if \<not> sepolia \<and> (a = ActionWrap \<or> a = ActionUnwrap \<or> a = ActionSwap) then Inl (ErrNew ''exchange on Sepolia only'')
      else if \<not> sepolia \<and> (a = ActionVaultDeposit \<or> a = ActionVaultWithdraw) then Inl (ErrNew ''vault on Sepolia only'')
      else if a = ActionVaultDeposit \<or> a = ActionVaultWithdraw
      then if sv_vaultAddress h = [] then Inl (ErrNew ''vault not configured'')
           else Inr (c\<lparr>qc_Contract := sv_vaultAddress h\<rparr>)
      else if isEscrowAction a
      then if \<not> sepolia \<or> sv_escrowAddress h = [] then Inl (ErrNew ''escrow not available'')
           else Inr (c\<lparr>qc_Contract := sv_escrowAddress h, qc_TokenOut := sv_escrowToken h\<rparr>)
      else Inr c)"

text \<open>A new transaction, and a replacement.\<close>

definition new_quote :: "('k, 'w) env \<Rightarrow> QuoteCommand \<Rightarrow> ('w, 'h, BoundQuote) sact" where
  "new_quote V c =
     andthen (get_heap id) (\<lambda>h.
     andthen (lift (bound_command V h c)) (\<lambda>c.
     andthen (checkInFlight V) (\<lambda>finalized.
     andthen (Address V) (\<lambda>address.
     andthen (CreateQuote V (HexToAddress (eth V) address) c) (\<lambda>q.
     fail_if (case finalized of None \<Rightarrow> False | Some f \<Rightarrow> bq_Nonce q < fn_nonce f) ErrNonceMismatch
    (ret (if qc_Action c = ActionETH then q\<lparr>bq_Symbol := NativeSymbol (ca_ChainID (api V))\<rparr> else q)))))))"

definition ServiceQuoteCommand :: "('k, 'w) env \<Rightarrow> QuoteCommand \<Rightarrow> ('w, 'h, QuoteResponse) sact" where
  "ServiceQuoteCommand V c =
     andthen (get_heap sv_storageFault) (\<lambda>fault.
     fail_if fault (ErrNew ''storage fault'')
    (andthen (Exists V) (\<lambda>exists.
     fail_if (\<not> exists) ErrWalletNotFound
    (andthen (if qc_Action c = ActionSpeedup \<or> qc_Action c = ActionCancel then replacementQuote V c
              else new_quote V c) (\<lambda>q.
     andthen (rollupFee V q True) (\<lambda>q.
     seq (Add V (Some q))
    (ret (ToResponse (eth V) q))))))))"

definition ServiceQuote :: "('k, 'w) env \<Rightarrow> QuoteRequest option \<Rightarrow> ('w, 'h, QuoteResponse) sact" where
  "ServiceQuote V req =
     andthen (lift (ParseQuoteRequest (eth V) req)) (ServiceQuoteCommand V)"

end
