(* ===== verification/Send.thy ===== *)
theory Send
  imports Service
begin

text \<open>
  internal/wallet/service.go, the rest: what the service shows (Status, Token), sending a quote,
  broadcasting a stored transaction again, and the history with its refresh from the chain.
\<close>

section \<open>Status and tokens\<close>

record SendResponse =
  sr_EscrowAction :: string
  sr_Hash :: string
  sr_State :: string
  sr_To :: string
  sr_Amount :: string
  sr_Symbol :: string
  sr_Action :: string
  sr_CreatedAt :: string

definition sendResponseFromRecord :: "JournalRecord \<Rightarrow> JournalState \<Rightarrow> SendResponse" where
  "sendResponseFromRecord r state =
     \<lparr> sr_EscrowAction = optional_action_text (jr_EscrowAction r), sr_Hash = jr_Hash r,
       sr_State = state_text state, sr_To = jr_To r, sr_Amount = jr_Amount r, sr_Symbol = jr_Symbol r,
       sr_Action = optional_action_text (jr_Action r), sr_CreatedAt = rfc3339 (jr_CreatedAt r) \<rparr>"

record WalletInfo =
  wi_ChainID :: int
  wi_Exists :: bool
  wi_Address :: string
  wi_Path :: string
  wi_CSRFToken :: string
  wi_Exchange :: "(string \<times> string) list"

definition wallet_path :: string where
  "wallet_path = ''m/44'' @ [CHR 0x27] @ ''/60'' @ [CHR 0x27] @ ''/0'' @ [CHR 0x27] @ ''/0/0''"

definition Status :: "('k, 'w) env \<Rightarrow> ('w, 'h, WalletInfo) sact" where
  "Status V =
     andthen (attempt (Address V)) (\<lambda>address.
     fail_if (case address of Inl e \<Rightarrow> \<not> err_is e ErrWalletNotFound | Inr _ \<Rightarrow> False)
       (case address of Inl e \<Rightarrow> e | Inr _ \<Rightarrow> ErrWalletNotFound)
    (andthen (get_heap sv_csrfToken) (\<lambda>csrf.
       let text_of = (\<lambda>t. AddressHex (eth V) (HexToAddress (eth V) t)) in
       ret \<lparr> wi_ChainID = ca_ChainID (api V), wi_Exists = (case address of Inl _ \<Rightarrow> False | Inr _ \<Rightarrow> True),
             wi_Address = (case address of Inl _ \<Rightarrow> [] | Inr a \<Rightarrow> a), wi_Path = wallet_path,
             wi_CSRFToken = csrf,
             wi_Exchange = (if ca_ChainID (api V) \<noteq> SepoliaID then []
               else [(''weth'', text_of WETHAddress), (''usdc'', text_of USDCAddress),
                     (''router'', text_of RouterAddress)]) \<rparr>)))"

record TokenInfo =
  tk_Spender :: string
  tk_Allowance :: string
  tk_AllowanceRaw :: string
  tk_Contract :: string
  tk_Symbol :: string
  tk_Decimals :: int
  tk_Balance :: string
  tk_BalanceRaw :: string
  tk_Trusted :: bool

text \<open>The allowance of a spender, when one is asked for.\<close>

definition token_spender ::
    "('k, 'w) env \<Rightarrow> address \<Rightarrow> address \<Rightarrow> int \<Rightarrow> string \<Rightarrow> TokenInfo \<Rightarrow> ('w, 'f, 'h, TokenInfo) act" where
  "token_spender V contract owner dec spender info =
     (if spender = [] then ret info
      else andthen (lift (ValidateAddress (eth V) spender)) (\<lambda>address.
           andthen (QueryERC20Allowance V contract owner address) (\<lambda>allowance.
             ret (info\<lparr>tk_Spender := AddressHex (eth V) address, tk_Allowance := units_text allowance dec,
                       tk_AllowanceRaw := int_str allowance\<rparr>))))"

definition Token :: "('k, 'w) env \<Rightarrow> string \<Rightarrow> string \<Rightarrow> ('w, 'h, TokenInfo) sact" where
  "Token V contract spender =
     andthen (Exists V) (\<lambda>exists.
     fail_if (\<not> exists) ErrWalletNotFound
    (andthen (Address V) (\<lambda>address.
     let owner = HexToAddress (eth V) address in
     andthen (lift (ValidateAddress (eth V) contract)) (\<lambda>contractAddr.
     andthen (QueryERC20Metadata V contractAddr) (\<lambda>(sym, dec).
     andthen (QueryERC20BalanceOf V contractAddr owner) (\<lambda>bal.
     let info = \<lparr> tk_Spender = [], tk_Allowance = [], tk_AllowanceRaw = [], tk_Contract = AddressHex (eth V) contractAddr,
                  tk_Symbol = sym, tk_Decimals = dec, tk_Balance = units_text bal dec, tk_BalanceRaw = int_str bal,
                  tk_Trusted = False \<rparr> in
     case trustedEVMToken (eth V) (ca_ChainID (api V)) contractAddr of
       None \<Rightarrow> token_spender V contractAddr owner dec spender info
     | Some (trustedSymbol, trustedDecimals) \<Rightarrow>
         fail_if (sym \<noteq> trustedSymbol \<or> dec \<noteq> trustedDecimals) (ErrNew ''token data mismatch'')
        (token_spender V contractAddr owner dec spender (info\<lparr>tk_Trusted := True\<rparr>))))))))"

section \<open>Sending: the checks\<close>

text \<open>The key, its address, the expiry and the network.\<close>

definition unexpired :: "('k, 'w) env \<Rightarrow> BoundQuote \<Rightarrow> ('w, 'f, 'h, unit) act" where
  "unexpired V q = andthen (now (os V)) (\<lambda>t. fail_if (bq_ExpiresAt q \<le> t) ErrQuoteExpired (ret ()))"

definition not_done :: "('k, 'w) env \<Rightarrow> ('w, 'f, 'h, unit) act" where
  "not_done V = andthen (ctx_err (os V)) (\<lambda>done. fail_if done ErrTimeout (ret ()))"

text \<open>The nonce of a new transaction, or of a replacement.\<close>

definition send_nonce :: "('k, 'w) env \<Rightarrow> BoundQuote \<Rightarrow> ('w, 'h, unit) sact" where
  "send_nonce V q =
     andthen (attempt (ask (ca_PendingNonceAt (api V) (bq_From q)))) (\<lambda>pending.
       if bq_ReplacementHash q \<noteq> []
       then andthen (get_heap (\<lambda>h. length (NonceRecords h (bq_Nonce q)))) (\<lambda>count.
            fail_if (count \<noteq> bq_ReplacementCount q) ErrQuoteExpired
           (andthen (ask (ca_NonceAt (api V) (bq_From q))) (\<lambda>current.
            andthen (get_heap (\<lambda>h. NonceMined h (bq_Nonce q))) (\<lambda>mined.
            fail_if (bq_Nonce q < current \<or> mined) ErrNonceMismatch
           (ret ())))))
       else andthen (lift pending) (\<lambda>current.
            fail_if (current \<noteq> bq_Nonce q) ErrNonceMismatch
           (ret ())))"

text \<open>The balances, the base fee and the allowance.\<close>

definition send_funds :: "('k, 'w) env \<Rightarrow> BoundQuote \<Rightarrow> ('w, 'f, 'h, unit) act" where
  "send_funds V q =
     andthen (ask (ca_BalanceAt (api V) (bq_From q) None)) (\<lambda>balance.
     fail_if (balance < bq_TotalETHWei q) ErrInsufficientFunds
    (seq (if bq_Action q = ActionTransfer
          then andthen (QueryERC20BalanceOf V (bq_Contract q) (bq_From q)) (\<lambda>tokens.
               fail_if (tokens < bq_AmountRaw q) (ErrNew ''token balance too small'') (ret ()))
          else ret ())
    (andthen (ask (ca_HeaderByNumber (api V) None)) (\<lambda>head.
     fail_if (case hd_BaseFee head of None \<Rightarrow> True | Some b \<Rightarrow> bq_MaxFeePerGas q < b) (ErrNew ''base fee above quote'')
    (if bq_Action q = ActionApprove
     then andthen (QueryERC20Allowance V (bq_Contract q) (bq_From q) (bq_To q)) (\<lambda>allowance.
          fail_if (0 < allowance \<and> 0 < bq_AmountRaw q) ErrApprovalRace (ret ()))
     else ret ())))))"

text \<open>An escrow quote is checked against the settings and simulated.\<close>

definition send_escrow :: "('k, 'w) env \<Rightarrow> BoundQuote \<Rightarrow> ('w, 'h, unit) sact" where
  "send_escrow V q =
     (if \<not> isEscrowAction (bq_Action q) \<and> bq_Escrow q = None then ret ()
      else andthen (get_heap (\<lambda>h. (sv_escrowAddress h, sv_escrowToken h))) (\<lambda>(escrow, paid).
        fail_if (ca_ChainID (api V) \<noteq> SepoliaID \<or> escrow = [] \<or>
            (case bq_Escrow q of
               None \<Rightarrow> True
             | Some e \<Rightarrow> \<not> isEscrowAction (es_Action e) \<or>
                 bq_Action q \<noteq> ActionSpeedup \<and> bq_Action q \<noteq> es_Action e \<or>
                 bq_Contract q \<noteq> HexToAddress (eth V) escrow \<or> es_Token e \<noteq> paid))
          (ErrNew ''escrow settings changed'')
       (seq (verifyEscrow V (bq_Contract q) (HexToAddress (eth V) paid))
            (simulateEscrow V (bq_From q) (bq_TxTo q) (bq_Data q)))))"

text \<open>Exchanges and vault operations are checked again.\<close>

definition send_action :: "('k, 'w) env \<Rightarrow> BoundQuote \<Rightarrow> ('w, 'h, unit) sact" where
  "send_action V q =
     (let a = bq_Action q in
      if a = ActionWrap \<or> a = ActionUnwrap \<or> a = ActionSwap then RecheckExchange V q
      else if a = ActionVaultDeposit \<or> a = ActionVaultWithdraw
      then andthen (get_heap sv_vaultAddress) (\<lambda>vault.
           fail_if (ca_ChainID (api V) \<noteq> SepoliaID \<or> vault = [] \<or> bq_Contract q \<noteq> HexToAddress (eth V) vault)
             (ErrNew ''vault settings changed'')
          (seq (VerifyContractBytecode V (bq_Contract q))
          (seq (if a = ActionVaultWithdraw
                then andthen (QueryVaultBalanceOf V (bq_Contract q) (bq_From q)) (\<lambda>balance.
                     fail_if (balance < bq_AmountRaw q) (ErrNew ''vault balance too small'') (ret ()))
                else ret ())
            (SimulateVaultCall V (bq_From q) (bq_TxTo q) (bq_TxValue q) (bq_Data q)))))
      else ret ())"

text \<open>Token calls are checked again.\<close>

definition send_token :: "('k, 'w) env \<Rightarrow> BoundQuote \<Rightarrow> ('w, 'f, 'h, unit) act" where
  "send_token V q =
     (if bq_Action q = ActionTransfer \<or> bq_Action q = ActionApprove \<or> bq_ReplacementERC20 q
      then andthen (QueryERC20Metadata V (bq_Contract q)) (\<lambda>(symbol, decimals).
           fail_if (symbol \<noteq> bq_Symbol q \<or> decimals \<noteq> bq_Decimals q) (ErrNew ''token data changed'')
          (SimulateERC20Call V (bq_From q) (bq_TxTo q) (bq_Data q)))
      else ret ())"

text \<open>The gas of a replacement or an escrow call is estimated again.\<close>

definition send_gas :: "('k, 'w) env \<Rightarrow> BoundQuote \<Rightarrow> ('w, 'f, 'h, unit) act" where
  "send_gas V q =
     (if bq_ReplacementHash q \<noteq> [] \<or> isEscrowAction (bq_Action q)
      then andthen (ask (ca_EstimateGas (api V)
             \<lparr> cm_From = bq_From q, cm_To = bq_TxTo q, cm_Value = Some (bq_TxValue q), cm_Data = bq_Data q,
               cm_GasFeeCap = Some (bq_MaxFeePerGas q), cm_GasTipCap = Some (bq_MaxPriorityFeePerGas q) \<rparr>)) (\<lambda>gas.
           fail_if (bq_GasLimit q < gas) (ErrNew ''more gas needed'') (ret ()))
      else ret ())"

section \<open>Sending: sign, persist, broadcast\<close>

definition new_record ::
    "('k, 'm) ethlib_scheme \<Rightarrow> BoundQuote \<Rightarrow> string \<Rightarrow> string \<Rightarrow> time \<Rightarrow> JournalRecord" where
  "new_record E q hash signedRaw t =
     \<lparr> jr_OrderID = (case bq_Escrow q of None \<Rightarrow> [] | Some e \<Rightarrow> es_OrderID e), jr_EscrowAction = None,
       jr_EscrowBuyer = [], jr_EscrowContract = [], jr_Finalized = False, jr_Hash = hash, jr_QuoteID = bq_ID q,
       jr_State = JournalPending, jr_To = AddressHex E (bq_To q), jr_Amount = bq_Amount q,
       jr_AmountRaw = int_str (bq_AmountRaw q), jr_Symbol = bq_Symbol q, jr_Action = Some (bq_Action q),
       jr_Nonce = bq_Nonce q, jr_SignedRaw = signedRaw, jr_CreatedAt = t, jr_UpdatedAt = t,
       jr_Confirmations = [], jr_FeeETH = [], jr_Error = [], jr_Version = 0 \<rparr>"

text \<open>The signed transaction and the record of it.\<close>

definition sign_quote ::
    "('k, 'w) env \<Rightarrow> 'k \<Rightarrow> BoundQuote \<Rightarrow> ('w, 'f, 'h, eth_tx \<times> JournalRecord) act" where
  "sign_quote V key q =
     andthen (lift (SignTx (eth V) (dynamic_of (ca_ChainID (api V)) q) key)) (\<lambda>signedTx.
     andthen (lift (TxMarshal (eth V) signedTx)) (\<lambda>rawBytes.
     andthen (now (os V)) (\<lambda>t.
       ret (signedTx, new_record (eth V) q (tx_hash signedTx) (HexutilEncode (eth V) rawBytes) t))))"

text \<open>Everything before the record is durable: an error here leaves nothing behind.\<close>

definition send_prepare ::
    "('k, 'w) env \<Rightarrow> string \<Rightarrow> string \<Rightarrow> ('w, 'h, BoundQuote \<times> eth_tx \<times> JournalRecord) sact" where
  "send_prepare V quoteID password =
     andthen (Get V quoteID) (\<lambda>q.
     seq (if bq_ReplacementHash q = []
          then andthen (checkInFlight V) (\<lambda>finalized.
               fail_if (case finalized of None \<Rightarrow> False | Some f \<Rightarrow> bq_Nonce q < fn_nonce f) ErrNonceMismatch (ret ()))
          else ret ())
    (andthen (ask (ka_DecryptKey (keys V) password)) (\<lambda>key.
     fail_if (PubkeyAddress (eth V) key \<noteq> bq_From q) (ErrNew ''key does not match quote'')
    (seq (unexpired V q)
    (seq (ask (ca_CheckNetwork (api V)))
    (seq (send_nonce V q)
    (seq (rollupFee V q False)
    (seq (send_funds V q)
    (seq (send_escrow V q)
    (seq (send_action V q)
    (seq (send_token V q)
    (seq (not_done V)
    (seq (unexpired V q)
    (seq (send_gas V q)
    (seq (not_done V)
    (seq (unexpired V q)
    (andthen (sign_quote V key q) (\<lambda>(signedTx, record).
       ret (q, signedTx, record)))))))))))))))))))"

text \<open>The outcome of the broadcast is recorded for the version just written.\<close>

definition record_broadcast ::
    "('k, 'w) env \<Rightarrow> eth_tx \<Rightarrow> string \<Rightarrow> 64 word \<Rightarrow> ('w, 'h, JournalState \<times> bool) sact" where
  "record_broadcast V tx hash version =
     andthen (broadcast V tx) (\<lambda>sent.
     let state = (case sent of Inl _ \<Rightarrow> JournalBroadcastUnknown | Inr _ \<Rightarrow> JournalSubmitted);
         errStr = (case sent of Inl e \<Rightarrow> err_text e | Inr _ \<Rightarrow> []) in
     andthen (journal_fault (UpdateStateAtomicIfVersion (os V) hash version (state_text state) [] [] errStr False))
       (\<lambda>updated. ret (state, updated)))"

definition latest_response :: "JournalRecord \<Rightarrow> JournalState \<Rightarrow> bool \<Rightarrow> ('w, 'h, SendResponse) sact" where
  "latest_response r state updated =
     andthen (get_heap (\<lambda>h. FindByHash h (jr_Hash r))) (\<lambda>latest.
       ret (case latest of
              Some l \<Rightarrow> if updated then sendResponseFromRecord r state else sendResponseFromRecord l (jr_State l)
            | None \<Rightarrow> sendResponseFromRecord r state))"

definition send_commit ::
    "('k, 'w) env \<Rightarrow> BoundQuote \<Rightarrow> eth_tx \<Rightarrow> JournalRecord \<Rightarrow> ('w, 'h, SendResponse) sact" where
  "send_commit V q signedTx record =
     andthen (attempt (AppendAtomic (eth V) (os V) record)) (\<lambda>appended.
       case appended of
         Inl e \<Rightarrow> seq (if err_is e ErrJournalFull then ret () else set_heap (sv_storageFault_update (\<lambda>_. True))) (throw e)
       | Inr (record, baseVersion) \<Rightarrow>
           andthen (record_broadcast V signedTx (tx_hash signedTx) baseVersion) (\<lambda>(state, updated).
           seq (Remove (bq_ID q))
               (latest_response record state updated)))"

definition Send :: "('k, 'w) env \<Rightarrow> string \<Rightarrow> string \<Rightarrow> ('w, 'h, SendResponse) sact" where
  "Send V quoteID password =
     andthen (get_heap sv_storageFault) (\<lambda>fault.
     fail_if fault (ErrNew ''storage fault'')
    (andthen (get_heap (\<lambda>h. FindByQuoteID h quoteID)) (\<lambda>existing.
       case existing of
         Some r \<Rightarrow> ret (sendResponseFromRecord r (jr_State r))
       | None \<Rightarrow>
           andthen (map_err SendRejectedError (send_prepare V quoteID password)) (\<lambda>(q, signedTx, record).
             send_commit V q signedTx record))))"

section \<open>Broadcasting again\<close>

definition retry_tx :: "('k, 'm) ethlib_scheme \<Rightarrow> int \<Rightarrow> JournalRecord \<Rightarrow> err + eth_tx" where
  "retry_tx E chainID r =
     (case HexutilDecode E (jr_SignedRaw r) of
        None \<Rightarrow> Inl (ErrExt ''hex'')
      | Some raw \<Rightarrow>
         (case TxUnmarshal E raw of
            None \<Rightarrow> Inl (ErrExt ''rlp'')
          | Some tx \<Rightarrow>
              if tx_hash tx \<noteq> jr_Hash r then Inl (ErrNew ''stored hash mismatch'')
              else if tx_chain tx \<noteq> chainID then Inl ErrWrongChain else Inr tx))"

definition Retry :: "('k, 'w) env \<Rightarrow> string \<Rightarrow> ('w, 'h, SendResponse) sact" where
  "Retry V hash =
     andthen (get_heap sv_storageFault) (\<lambda>fault.
     fail_if fault (ErrNew ''storage fault'')
    (andthen (get_heap (\<lambda>h. FindByHash h hash)) (\<lambda>found.
       case found of
         None \<Rightarrow> throw ErrNotFound
       | Some r \<Rightarrow>
           andthen (get_heap (\<lambda>h. NonceMined h (jr_Nonce r))) (\<lambda>mined.
             if mined
             then ret (sendResponseFromRecord r
                    (if jr_State r \<noteq> JournalSucceeded \<and> jr_State r \<noteq> JournalReverted then JournalReplaced
                     else jr_State r))
             else andthen (lift (retry_tx (eth V) (ca_ChainID (api V)) r)) (\<lambda>tx.
                  andthen (record_broadcast V tx (jr_Hash r) (jr_Version r)) (\<lambda>(state, updated).
                    latest_response r state updated))))))"

section \<open>History\<close>

definition partial_text :: string where
  "partial_text = ''some transactions were not checked''"

record HistoryResponse =
  hr_CanCreateTransaction :: bool
  hr_Transactions :: "HistoryItem list"
  hr_RefreshError :: string

text \<open>What one observation does to the journal, and the text it leaves.\<close>

definition apply_observation ::
    "('k, 'w) env \<Rightarrow> RefreshItem \<Rightarrow> err + Transaction \<Rightarrow> string \<Rightarrow> ('w, 'h, string) sact" where
  "apply_observation V item seen refreshError =
     (case seen of
        Inr info \<Rightarrow>
          seq (if ti_State info \<in> set [''succeeded'', ''reverted'', ''reorg_detected'', ''pending'', ''receipt_unavailable'']
               then seq (journal_fault (UpdateStateAtomicIfVersion (os V) (ri_Hash item) (ri_Version item) (ti_State info)
                           (ti_Confirmations info) (ti_FeeETH info) [] (ti_Finalized info))) (ret ())
               else ret ())
              (ret refreshError)
      | Inl e \<Rightarrow>
          seq (if err_is e ErrNotFound
               then andthen (get_heap (\<lambda>h. FindByHash h (ri_Hash item))) (\<lambda>found.
                 case found of
                   None \<Rightarrow> ret ()
                 | Some r \<Rightarrow>
                     if jr_State r = JournalSucceeded \<or> jr_State r = JournalReverted
                     then seq (journal_fault (UpdateStateAtomicIfVersion (os V) (ri_Hash item) (ri_Version item)
                                (state_text JournalBroadcastUnknown) [] [] [] False)) (ret ())
                     else ret ())
               else ret ())
              (ret partial_text))"

text \<open>One turn of the loop; \<open>stopped\<close> is the break.\<close>

definition refresh_turn ::
    "('k, 'w) env \<Rightarrow> RefreshItem list \<Rightarrow> nat \<Rightarrow> nat \<Rightarrow> string \<times> bool \<Rightarrow> ('w, 'h, string \<times> bool) sact" where
  "refresh_turn V items start i acc =
     (if snd acc then ret acc
      else let index = (start + i) mod length items; item = items ! index in
        andthen (ctx_err (os V)) (\<lambda>done.
          if done then ret (partial_text, True)
          else andthen (attempt (ask (ca_Transaction (api V) (ri_Hash item)))) (\<lambda>seen.
               seq (set_heap (sv_historyOffset_update (\<lambda>_. (index + 1) mod length items)))
              (andthen (ctx_err (os V)) (\<lambda>done.
                 if done then ret (partial_text, True)
                 else andthen (apply_observation V item seen (fst acc)) (\<lambda>refreshError. ret (refreshError, False)))))))"

definition History :: "('k, 'w) env \<Rightarrow> ('w, 'h, HistoryResponse) sact" where
  "History V =
     andthen (get_heap (\<lambda>h. (RefreshItems h, sv_historyOffset h))) (\<lambda>(items, start).
     andthen (for_each [0..<length items] (refresh_turn V items start) ([], False)) (\<lambda>(refreshError, _).
     andthen (ctx_err (os V)) (\<lambda>done.
     let refreshError = (if done \<and> refreshError = [] then partial_text else refreshError) in
     seq (journal_fault (ArchiveFinalized (os V)))
    (andthen (get_heap (\<lambda>h. hasInFlightTx (eth V) h None)) (\<lambda>busy.
     andthen (if busy then finalizedNonceOf V else ret None) (\<lambda>finalized.
     andthen (get_heap (\<lambda>h. (listHistory (eth V) h finalized, sv_storageFault h))) (\<lambda>((transactions, canCreate), fault).
       ret \<lparr> hr_CanCreateTransaction = (finalized \<noteq> None \<and> canCreate \<and> \<not> fault), hr_Transactions = transactions,
             hr_RefreshError = refreshError \<rparr>)))))))"

end
