(* ===== verification/QuoteFacts.thy ===== *)
theory QuoteFacts
  imports Quote ChainFacts
begin

text \<open>
  What the store of quotes keeps (at most 256 entries, each under its own well-formed
  identifier, none returned after its expiry) and what a quote promises about its fees, its gas
  and its token call.  The store's contract is the locale \<open>expiring_store\<close>; the lists of the
  model are its interpretation.
\<close>

section \<open>A store whose entries expire\<close>

locale expiring_store =
  fixes look :: "'s \<Rightarrow> 'k \<Rightarrow> 'v option"
    and put :: "'k \<Rightarrow> 'v \<Rightarrow> 's \<Rightarrow> 's"
    and del :: "'k \<Rightarrow> 's \<Rightarrow> 's"
    and clean :: "time \<Rightarrow> 's \<Rightarrow> 's"
    and expiry :: "'v \<Rightarrow> time"
    and inv :: "'s \<Rightarrow> bool"
  assumes look_put: "inv s \<Longrightarrow> look (put k v s) k' = (if k' = k then Some v else look s k')"
    and look_del: "inv s \<Longrightarrow> look (del k s) k' = (if k' = k then None else look s k')"
    and look_clean: "inv s \<Longrightarrow>
      look (clean t s) k = (case look s k of None \<Rightarrow> None | Some v \<Rightarrow> if expiry v < t then None else Some v)"
    and inv_clean: "inv s \<Longrightarrow> inv (clean t s)"
    and inv_del: "inv s \<Longrightarrow> inv (del k s)"
begin

lemma clean_fresh: "inv s \<Longrightarrow> look (clean t s) k = Some v \<Longrightarrow> t \<le> expiry v"
  by (auto simp: look_clean not_less split: option.splits if_splits)

lemma clean_subset: "inv s \<Longrightarrow> look (clean t s) k = Some v \<Longrightarrow> look s k = Some v"
  by (auto simp: look_clean split: option.splits if_splits)

lemma clean_twice: "inv s \<Longrightarrow> t \<le> t' \<Longrightarrow> look (clean t' (clean t s)) k = look (clean t' s) k"
  by (auto simp: look_clean inv_clean split: option.split)

lemma deleted_stays: "inv s \<Longrightarrow> look (clean t (del k s)) k = None"
  by (simp add: look_clean inv_del look_del)

end

definition store_ok :: "(string \<times> BoundQuote) list \<Rightarrow> bool" where
  "store_ok qs \<longleftrightarrow> length qs \<le> 256 \<and> distinct (map fst qs) \<and>
     (\<forall>(k, q)\<in>set qs. k = bq_ID q \<and> opaqueIDPattern k)"

lemma fst_filter: "fst ` set (filter p qs) \<subseteq> fst ` set qs"
  by auto

lemma distinct_filter_fst: "distinct (map fst qs) \<Longrightarrow> distinct (map fst (filter p qs))"
  by (induction qs) (auto dest: fst_filter [THEN subsetD])

lemma map_of_cleanup:
  "distinct (map fst qs) \<Longrightarrow> map_of (cleanupExpired t qs) k =
     (case map_of qs k of None \<Rightarrow> None | Some q \<Rightarrow> if bq_ExpiresAt q < t then None else Some q)"
proof (induction qs)
  case Nil
  show ?case by (simp add: cleanupExpired_def)
next
  case (Cons p qs)
  obtain k' q where p: "p = (k', q)" by force
  have "map_of (cleanupExpired t qs) k' = None" if "k' \<notin> fst ` set qs"
    using that by (force simp: cleanupExpired_def map_of_eq_None_iff)
  with Cons p show ?case by (auto simp: cleanupExpired_def map_of_eq_None_iff split: option.splits)
qed

lemma length_cleanup: "length (cleanupExpired t qs) \<le> length qs"
  by (simp add: cleanupExpired_def)

lemma set_cleanup: "set (cleanupExpired t qs) \<subseteq> set qs"
  by (auto simp: cleanupExpired_def)

lemma distinct_cleanup: "distinct (map fst qs) \<Longrightarrow> distinct (map fst (cleanupExpired t qs))"
  unfolding cleanupExpired_def by (rule distinct_filter_fst)

lemma store_okI:
  "length qs \<le> 256 \<Longrightarrow> distinct (map fst qs) \<Longrightarrow> (\<And>k q. (k, q) \<in> set qs \<Longrightarrow> k = bq_ID q \<and> opaqueIDPattern k) \<Longrightarrow>
   store_ok qs"
  by (auto simp: store_ok_def)

lemma store_okD:
  assumes "store_ok qs"
  shows "length qs \<le> 256" "distinct (map fst qs)" "(k, q) \<in> set qs \<Longrightarrow> k = bq_ID q"
    "(k, q) \<in> set qs \<Longrightarrow> opaqueIDPattern k"
  using assms by (auto simp: store_ok_def)

lemma cleanup_ok: "store_ok qs \<Longrightarrow> store_ok (cleanupExpired t qs)"
  using length_cleanup [of t qs] set_cleanup [of t qs]
  by (intro store_okI) (auto dest: store_okD distinct_cleanup intro: le_trans)

lemma set_update_insert: "set (AList.update k v qs) \<subseteq> insert (k, v) (set qs)"
  by (induction qs) auto

lemma length_update: "length (AList.update k v qs) \<le> Suc (length qs)"
  by (induction qs) auto

lemma update_ok:
  assumes "store_ok qs" and "length qs < 256" and "opaqueIDPattern (bq_ID q)"
  shows "store_ok (AList.update (bq_ID q) q qs)"
proof (rule store_okI)
  show "length (AList.update (bq_ID q) q qs) \<le> 256"
    using length_update [of "bq_ID q" q qs] assms(2) by simp
  show "distinct (map fst (AList.update (bq_ID q) q qs))"
    by (rule distinct_update [OF store_okD(2) [OF assms(1)]])
  show "k = bq_ID r \<and> opaqueIDPattern k" if "(k, r) \<in> set (AList.update (bq_ID q) q qs)" for k r
    using set_update_insert [THEN subsetD, OF that] store_okD(3,4) [OF assms(1)] assms(3) by auto
qed

lemma set_delete: "set (AList.delete k qs) \<subseteq> set qs"
  by (induction qs) auto

lemma delete_ok: "store_ok qs \<Longrightarrow> store_ok (AList.delete k qs)"
  using length_delete_le [of k qs] set_delete [of k qs]
  by (intro store_okI) (auto dest: store_okD distinct_delete intro: le_trans)

interpretation quotes: expiring_store map_of "AList.update" "AList.delete" cleanupExpired bq_ExpiresAt store_ok
proof
  fix qs k k' t and v :: BoundQuote
  assume "store_ok qs"
  note d = store_okD(2) [OF this]
  show "map_of (AList.update k v qs) k' = (if k' = k then Some v else map_of qs k')"
    by (simp add: update_conv')
  show "map_of (AList.delete k qs) k' = (if k' = k then None else map_of qs k')"
    by (simp add: delete_conv')
  show "map_of (cleanupExpired t qs) k =
      (case map_of qs k of None \<Rightarrow> None | Some v \<Rightarrow> if bq_ExpiresAt v < t then None else Some v)"
    by (rule map_of_cleanup [OF d])
qed (simp_all add: cleanup_ok delete_ok)

section \<open>The operations of the store\<close>

abbreviation quotes_of :: "('w, jfile, 'h quote_heap_scheme) sys \<Rightarrow> (string \<times> BoundQuote) list" where
  "quotes_of s \<equiv> qs_quotes (heap s)"

lemma Add_ok:
  assumes "Add V (Some q) s = (Inr (), t)"
  shows "opaqueIDPattern (bq_ID q) \<and> length (cleanupExpired (fst (TimeNow (os V) (world s))) (quotes_of s)) < 256 \<and>
    quotes_of t = AList.update (bq_ID q) q (cleanupExpired (fst (TimeNow (os V) (world s))) (quotes_of s))"
  using assms
  by (auto simp: Add_def run_simps ParseQuoteID_iff split: prod.splits sum.splits if_splits)

lemma Get_ok:
  assumes "Get V ident s = (Inr q, t)"
  shows "opaqueIDPattern ident \<and> quotes_of t = cleanupExpired (fst (TimeNow (os V) (world s))) (quotes_of s) \<and>
    map_of (quotes_of t) ident = Some q \<and> files t = files s \<and> trace t = trace s"
  using assms
  by (auto simp: Get_def run_simps ParseQuoteID_iff split: prod.splits sum.splits if_splits option.splits)

lemma keeps_store:
  "keeps (\<lambda>s. store_ok (quotes_of s)) (Add V quote)"
  "keeps (\<lambda>s. store_ok (quotes_of s)) (Get V ident)"
  "keeps (\<lambda>s. store_ok (quotes_of s)) (Remove ident)"
  unfolding keeps_def within_def
  by (auto simp: Add_def Get_def Remove_def run_simps cleanup_ok delete_ok update_ok ParseQuoteID_iff
      split: prod.split sum.split option.split)

text \<open>
  Whatever the service adds, looks up or removes, its store of quotes holds at most 256
  entries, no identifier twice, and each entry under its own 32-digit identifier.
\<close>

theorem quote_store_bounded:
  "keeps (\<lambda>s. store_ok (quotes_of s)) (Add V quote) \<and>
   keeps (\<lambda>s. store_ok (quotes_of s)) (Get V ident) \<and>
   keeps (\<lambda>s. store_ok (quotes_of s)) (Remove ident)"
  by (simp add: keeps_store)

text \<open>
  A quote that is found was in the store under this identifier and has not expired by the
  clock of the lookup; looking it up writes no file and sends nothing.
\<close>

lemma Get_fresh:
  assumes "store_ok (quotes_of s)" and "Get V ident s = (Inr q, t)"
  shows "map_of (quotes_of s) ident = Some q \<and> bq_ID q = ident \<and>
    fst (TimeNow (os V) (world s)) \<le> bq_ExpiresAt q \<and> local_only s t"
proof -
  let ?t = "fst (TimeNow (os V) (world s))"
  from Get_ok [OF assms(2)] have found: "map_of (cleanupExpired ?t (quotes_of s)) ident = Some q"
    and same: "files t = files s" "trace t = trace s" by auto
  have here: "map_of (quotes_of s) ident = Some q" by (rule quotes.clean_subset [OF assms(1) found])
  then have "bq_ID q = ident" using assms(1) map_of_SomeD [OF here] by (auto simp: store_ok_def)
  with here same quotes.clean_fresh [OF assms(1) found] show ?thesis by (simp add: local_only_def)
qed

section \<open>What a quote promises\<close>

lemma gas_no_wrap:
  fixes est :: "64 word"
  assumes "est \<le> - 1 div 6 * 5"
  shows "unat (est + est div 5) = unat est + unat est div 5"
proof -
  have "unat est \<le> unat (- 1 div 6 * 5 :: 64 word)" using assms by (simp add: word_le_nat_alt)
  also have "unat (- 1 div 6 * 5 :: 64 word) = 15372286728091293010" by simp
  finally have "unat est + unat est div 5 < 2 ^ 64" by simp
  then show ?thesis by (simp add: unat_add_lem [THEN iffD1] unat_div)
qed

text \<open>What \<^verbatim>\<open>crypto/rand.Read\<close> documents: it fills the buffer or fails.\<close>

definition rand_laws :: "('w, 'm) io_scheme \<Rightarrow> bool" where
  "rand_laws I \<longleftrightarrow> (\<forall>n w bs w'. RandRead I n w = (Inr bs, w') \<longrightarrow> length bs = n)"

definition quote_sound :: "('k, 'w) env \<Rightarrow> address \<Rightarrow> QuoteCommand \<Rightarrow> BoundQuote \<Rightarrow> bool" where
  "quote_sound V from c q \<longleftrightarrow>
     bq_From q = from \<and> bq_Action q = qc_Action c \<and> opaqueIDPattern (bq_ID q) \<and>
     bq_ReplacementHash q = [] \<and> bq_RollupFeeWei q = None \<and>
     (\<exists>head base (est :: 64 word) balance.
        said (ca_HeaderByNumber (api V) None) head \<and> hd_BaseFee head = Some base \<and> 0 \<le> base \<and>
        0 \<le> bq_MaxPriorityFeePerGas q \<and> said (ca_SuggestGasTipCap (api V)) (bq_MaxPriorityFeePerGas q) \<and>
        bq_MaxFeePerGas q = 2 * base + bq_MaxPriorityFeePerGas q \<and>
        21000 \<le> unat est \<and> unat est \<le> unat (hd_GasLimit head) \<and>
        unat (bq_GasLimit q) = min (unat est + unat est div 5) (unat (hd_GasLimit head)) \<and>
        bq_TotalETHWei q = bq_TxValue q + int (unat (bq_GasLimit q)) * bq_MaxFeePerGas q \<and>
        said (ca_BalanceAt (api V) from None) balance \<and> bq_TotalETHWei q \<le> balance)"

lemma ask_said: "ask f s = (Inr x, t) \<Longrightarrow> said f x"
  by (auto simp: run_ask said_def split: prod.splits)

lemma margin_value:
  assumes "\<not> (est < 21000 \<or> limit < est \<or> - 1 div 6 * 5 < est)"
  shows "21000 \<le> unat est" "unat est \<le> unat limit"
    "unat (gas_with_margin est limit) = min (unat est + unat est div 5) (unat limit)"
proof -
  from assms have "est \<le> - 1 div 6 * 5" by (simp only: not_less de_Morgan_disj)
  from gas_no_wrap [OF this] show "unat (gas_with_margin est limit) = min (unat est + unat est div 5) (unat limit)"
    by (auto simp: gas_with_margin_def min_def word_le_nat_alt)
  show "21000 \<le> unat est" "unat est \<le> unat limit"
    using assms by (simp_all add: word_less_nat_alt not_less)
qed

lemma quote_fees_ok:
  assumes "quote_fees V from p s = (Inr (balance, tip, maxFee, gas, nonce), t)"
  shows "said (ca_BalanceAt (api V) from None) balance \<and> said (ca_SuggestGasTipCap (api V)) tip \<and> 0 \<le> tip \<and>
    (\<exists>head base (est :: 64 word). said (ca_HeaderByNumber (api V) None) head \<and> hd_BaseFee head = Some base \<and> 0 \<le> base \<and>
       maxFee = 2 * base + tip \<and> 21000 \<le> unat est \<and> unat est \<le> unat (hd_GasLimit head) \<and>
       unat gas = min (unat est + unat est div 5) (unat (hd_GasLimit head)))"
  using assms unfolding quote_fees_def Let_def ok_simps
  apply (elim exE conjE disjE throw_not_ok)
  apply (drule ask_said, drule ask_said, drule ask_said, frule margin_value(1), frule margin_value(2),
      drule margin_value(3))
  apply (simp add: not_less mult.commute)
  apply blast
  done

text \<open>
  C38: a quote has a fresh well-formed identifier, a fee cap of twice the base fee plus the
  suggested tip, a gas limit of the estimate plus a fifth (which cannot wrap around) but at most
  the block's, and a total that is the value plus gas times cap and that the balance covers.
\<close>

theorem CreateQuote_sound:
  assumes "rand_laws (os V)" and "CreateQuote V from c s = (Inr q, t)"
  shows "quote_sound V from c q"
proof -
  have pattern: "opaqueIDPattern (hex_encode bs)" if "ask (RandRead (os V) 16) u = (Inr bs, v)" for bs u v
  proof -
    have "length bs = 16" using ask_said [OF that] assms(1) unfolding said_def rand_laws_def by blast
    then show ?thesis by (simp add: opaqueIDPattern_def hex_encode_hex)
  qed
  from assms(2) show ?thesis unfolding CreateQuote_def Let_def ok_simps
    apply (elim exE conjE)
    apply (drule pattern)
    apply (clarsimp dest!: quote_fees_ok simp: quote_sound_def not_less)
    apply blast
    done
qed

section \<open>Token calls\<close>

lemma token_amount_range:
  assumes "token_amount V c contract symbol decimals = Inr (amount, shown)"
  shows "0 \<le> amount \<and> amount \<le> maxUint256"
proof -
  have raw: "0 \<le> v \<and> v \<le> maxUint256" if "ParseRawTokenAmount x = Inr v" for x v
  proof -
    from that have "x \<noteq> []" "list_all is_digit x" "set_string10 x = Some v" "\<not> maxUint256 < v"
      by (auto simp: ParseRawTokenAmount_def split: if_splits option.splits)
    then have "v = int (dec_val x)" by (simp add: set_string10_digits all_digits_def)
    with \<open>\<not> maxUint256 < v\<close> show ?thesis by simp
  qed
  have units: "0 \<le> v \<and> v \<le> maxUint256" if "ParseUnits x d = Inr v" for x d v
    using ParseUnits_exact [OF that] by (auto simp: maxUint256_def)
  from assms show ?thesis
    by (auto simp: token_amount_def ebind_eq_Inr dest: raw units split: option.splits prod.splits if_splits)
qed

lemma token_guard_ok:
  assumes "token_guard V from transfer contract target amount s = (Inr u, t)"
  shows "if transfer then 0 < amount
    else amount \<noteq> maxUint256 \<and> 0 \<le> amount \<and>
      (\<exists>current v. QueryERC20Allowance V contract from target s = (Inr current, v) \<and> (current \<le> 0 \<or> amount = 0))"
  using assms by (cases transfer) (auto simp: token_guard_def ok_simps not_less)

definition token_bound :: "('k, 'w) env \<Rightarrow> QuoteCommand \<Rightarrow> BoundQuote \<Rightarrow> bool" where
  "token_bound V c q \<longleftrightarrow>
     bq_Contract q = HexToAddress (eth V) (qc_Contract c) \<and> bq_TxTo q = bq_Contract q \<and> bq_TxValue q = 0 \<and>
     bq_To q = HexToAddress (eth V) (qc_To c) \<and>
     (\<exists>d. DecodeERC20Calldata (eth V) (bq_Data q) (bq_Decimals q) = Inr d \<and>
        dc_Method d = action_text (qc_Action c) \<and> dc_Target d = bq_To q \<and> dc_RawAmount d = bq_AmountRaw q) \<and>
     (if qc_Action c = ActionTransfer then 0 < bq_AmountRaw q
      else 0 \<le> bq_AmountRaw q \<and> bq_AmountRaw q < maxUint256)"

lemma parts_token_ok:
  assumes "parts_token V from c s = (Inr p, t)"
  shows "\<exists>amount d. qp_contract p = HexToAddress (eth V) (qc_Contract c) \<and> qp_txTo p = qp_contract p \<and> qp_txValue p = 0 \<and>
    qp_target p = HexToAddress (eth V) (qc_To c) \<and> qp_amountRaw p = Some amount \<and>
    DecodeERC20Calldata (eth V) (qp_calldata p) (qp_decimals p) = Inr d \<and>
    dc_Method d = action_text (qc_Action c) \<and> dc_Target d = qp_target p \<and> dc_RawAmount d = amount \<and>
    (if qc_Action c = ActionTransfer then 0 < amount else 0 \<le> amount \<and> amount < maxUint256)"
  using assms unfolding parts_token_def Let_def ok_simps
  apply (elim exE conjE)
  apply (drule token_guard_ok)
  apply (clarsimp simp: initial_parts_def split: sum.splits if_splits dest!: token_amount_range)
  done

text \<open>
  A quote for an ERC-20 transfer or approval calls the named contract without value, and
  its calldata, decoded again, is exactly this method, recipient and amount; a transfer moves
  something, and an approval is never the unlimited one.
\<close>

theorem CreateQuote_token_bound:
  assumes "CreateQuote V from c s = (Inr q, t)" and "qc_Action c = ActionTransfer \<or> qc_Action c = ActionApprove"
  shows "token_bound V c q"
proof -
  have switch: "quote_switch V from c = parts_token V from c"
    using assms(2) by (auto simp: quote_switch_def isEscrowAction_def)
  show ?thesis
    using assms(1) unfolding CreateQuote_def Let_def switch ok_simps
    apply (elim exE conjE)
    apply (drule parts_token_ok)
    apply (clarsimp simp: token_bound_def)
    done
qed

section \<open>Samples\<close>

definition sample_command :: QuoteCommand where
  "sample_command = \<lparr> qc_OrderID = [], qc_Buyer = [], qc_Hash = [], qc_Action = ActionETH, qc_To = AddressHex sample_lib 9,
     qc_Amount = format_units 1000 18, qc_AmountRaw = [], qc_Contract = [], qc_TokenOut = [],
     qc_SlippageBPS = 0, qc_PoolFee = 0 \<rparr>"

lemma sample_rand: "rand_laws (os sample_env)" "RandRead (os sample_env) n w = (Inr (replicate n 0), w)"
  by (auto simp: rand_laws_def sample_env_def sample_io_def)

lemma sample_amount: "ParseUnits (format_units 1000 18) 18 = Inr 1000"
  using ParseUnits_format_units [where v = 1000 and d = 18] by (simp add: maxUint256_def)

lemma hex_encode_zeros: "hex_encode (replicate n 0) = replicate (2 * n) (CHR ''0'')"
  by (induction n) (simp_all add: hex_encode_def byte_hex_def hex_digit_def char_of_eq_iff)

lemma sample_switch: "quote_switch sample_env 5 sample_command = parts_eth sample_env sample_command"
  by (simp add: quote_switch_def sample_command_def isEscrowAction_def)

lemma sample_parts:
  "parts_eth sample_env sample_command s =
     (Inr ((initial_parts (eth sample_env) sample_command)\<lparr>qp_txTo := 9, qp_txValue := 1000,
         qp_amountRaw := Some 1000, qp_methodName := ''ETH transfer''\<rparr>), s)"
  by (simp add: parts_eth_def run_simps sample_command_def sample_amount Let_def initial_parts_def)

lemma sample_fees:
  "qp_txValue p = 1000 \<Longrightarrow> quote_fees sample_env 5 p s = (Inr (1000000000000000000, 1, 21, 25200, 7), s)"
  by (simp add: quote_fees_def run_simps sample_chain_head_def gas_with_margin_def Let_def)

lemma sample_quote_runs:
  "\<exists>q. CreateQuote sample_env 5 sample_command (sample_sys h) =
     (Inr q, (sample_sys h)\<lparr>world := world (sample_sys h) + 1\<rparr>) \<and> bq_ID q = replicate 32 (CHR ''0'')"
  using hex_encode_zeros [of 16]
  by (simp add: CreateQuote_def run_simps Let_def sample_rand sample_switch sample_parts sample_fees)
    (simp add: sample_sys_def)

theorem CreateQuote_sound_witness:
  "\<exists>q. quote_sound sample_env 5 sample_command q \<and> bq_ID q = replicate 32 (CHR ''0'')"
proof -
  from sample_quote_runs [of "()"] obtain q where
    "CreateQuote sample_env 5 sample_command (sample_sys ()) =
       (Inr q, (sample_sys ())\<lparr>world := world (sample_sys ()) + 1\<rparr>)" "bq_ID q = replicate 32 (CHR ''0'')"
    by (elim exE conjE)
  from CreateQuote_sound [OF sample_rand(1) this(1)] this(2) show ?thesis by blast
qed

definition sample_bound :: BoundQuote where
  "sample_bound =
     \<lparr> bq_Escrow = None, bq_RollupFeeWei = None, bq_ReplacementERC20 = False, bq_ReplacementCount = 0,
       bq_ReplacementHash = [], bq_ID = replicate 32 (CHR ''1''), bq_Action = ActionETH, bq_From = 5, bq_To = 9,
       bq_TxTo = 9, bq_Contract = 0, bq_Symbol = ''ETH'', bq_Decimals = 18, bq_Amount = ''0.000000000000001'',
       bq_AmountRaw = 1000, bq_TxValue = 1000, bq_Nonce = 7, bq_GasLimit = 21000, bq_MaxFeePerGas = 30,
       bq_MaxPriorityFeePerGas = 1, bq_MaxFeeETH = units_text 630000 18, bq_TotalETH = units_text 631000 18,
       bq_TotalETHWei = 631000, bq_Data = [], bq_Method = ''ETH transfer'', bq_CreatedAt = seconds 1700000000,
       bq_ExpiresAt = seconds 1700000120, bq_Exchange = None \<rparr>"

lemma sample_id [simp]: "opaqueIDPattern (replicate 32 (CHR ''1''))"
  by (simp add: opaqueIDPattern_def list_all_replicateI is_hex_def)

definition sample_store :: "(int, jfile, quote_heap) sys" where
  "sample_store = sample_sys \<lparr> jm_chainID = 11155111, jm_records = [], jm_archived = [],
     qs_quotes = [(replicate 32 (CHR ''1''), sample_bound)] \<rparr>"

lemma sample_store_ok: "store_ok (quotes_of sample_store)"
  by (auto simp: store_ok_def sample_store_def sample_sys_def sample_bound_def)

definition sample_token_env :: "(address, int) env" where
  "sample_token_env = sample_env
     \<lparr>eth := (eth sample_env)\<lparr>AbiPack := (\<lambda>m vs. Inr (replicate 68 0)),
        AbiInputs := (\<lambda>m bs. Inr [AbiAddress 9, AbiUint 1000]), Keccak256 := (\<lambda>bs. 0)\<rparr>,
      api := sample_chain\<lparr>ca_ChainID := 84532\<rparr>\<rparr>"

definition sample_transfer :: QuoteCommand where
  "sample_transfer = \<lparr> qc_OrderID = [], qc_Buyer = [], qc_Hash = [], qc_Action = ActionTransfer,
     qc_To = AddressHex sample_lib 9, qc_Amount = [], qc_AmountRaw = int_str 1000,
     qc_Contract = AddressHex sample_lib 7, qc_TokenOut = [], qc_SlippageBPS = 0, qc_PoolFee = 0 \<rparr>"

lemma sample_token_env [simp]:
  "AbiUnpack (eth sample_token_env) = sample_unpack" "AbiPack (eth sample_token_env) m vs = Inr (replicate 68 0)"
  "AbiInputs (eth sample_token_env) m bs = Inr [AbiAddress 9, AbiUint 1000]"
  "HexToAddress (eth sample_token_env) = sample_address" "Keccak256 (eth sample_token_env) bs = 0"
  "ca_ChainID (api sample_token_env) = 84532" "ca_CallContract (api sample_token_env) cm b w = (Inr (be_bytes 32 1), w)"
  "ca_CodeAt (api sample_token_env) a b w = (Inr [1], w)" "os sample_token_env = os sample_env"
  by (simp_all add: sample_token_env_def sample_env_def sample_lib_def sample_eth_def sample_chain_def)

lemma sample_selector: "selector (eth sample_token_env) sig = replicate 4 0"
proof -
  have "be_bytes n 0 = replicate n 0" for n
    by (induction n) (simp_all add: replicate_append_same)
  then show ?thesis by (simp add: selector_def)
qed

lemma sample_raw: "ParseRawTokenAmount (int_str 1000) = Inr 1000"
proof -
  have "int_str 1000 = dec_str 1000" by (simp add: int_str_def)
  moreover have "length (dec_str 1000) \<le> 4" by (rule length_dec_str) simp_all
  ultimately show ?thesis
    using dec_str_digits [of 1000] set_string10_int_str [of 1000]
    by (simp add: ParseRawTokenAmount_def maxUint256_def)
qed

lemma sample_decode:
  "DecodeERC20Calldata (eth sample_token_env) (replicate 68 0) d =
     Inr \<lparr> dc_Method = ''transfer'', dc_Target = 9, dc_RawAmount = 1000, dc_FormattedAmount = units_text 1000 d \<rparr>"
  by (simp add: DecodeERC20Calldata_def sample_selector decode_target_amount_def take_replicate)

lemma sample_token_switch:
  "quote_switch sample_token_env 5 sample_transfer = parts_token sample_token_env 5 sample_transfer"
  by (simp add: quote_switch_def sample_transfer_def isEscrowAction_def)

lemma sample_token_parts: "\<exists>p. parts_token sample_token_env 5 sample_transfer s = (Inr p, s) \<and> qp_txValue p = 0"
  by (simp add: parts_token_def run_simps sample_transfer_def Let_def QueryERC20Metadata_def
      VerifyContractBytecode_def sample_unpack_def sample_answers_def unpack_uint_def token_amount_def
      trustedEVMToken_def sample_raw token_guard_def QueryERC20BalanceOf_def sample_decode SimulateERC20Call_def
      be_val_be_bytes)

lemma sample_token_fees:
  "qp_txValue p = 0 \<Longrightarrow> quote_fees sample_token_env 5 p s = (Inr (1000000000000000000, 1, 21, 25200, 7), s)"
  by (simp add: quote_fees_def run_simps sample_token_env_def sample_chain_def sample_chain_head_def
      gas_with_margin_def Let_def)

theorem CreateQuote_token_bound_witness: "\<exists>q. token_bound sample_token_env sample_transfer q"
proof -
  obtain p where p: "parts_token sample_token_env 5 sample_transfer sample_store = (Inr p, sample_store)"
    "qp_txValue p = 0"
    using sample_token_parts [of sample_store] by (elim exE conjE)
  have "\<exists>q t. CreateQuote sample_token_env 5 sample_transfer sample_store = (Inr q, t)"
    by (simp add: CreateQuote_def run_simps Let_def sample_rand sample_token_switch p sample_token_fees)
  then obtain q t where "CreateQuote sample_token_env 5 sample_transfer sample_store = (Inr q, t)"
    by (elim exE)
  from CreateQuote_token_bound [OF this] show ?thesis by (auto simp: sample_transfer_def)
qed

end
