(* ===== verification/SendFacts.thy ===== *)
theory SendFacts
  imports Send QuoteFacts JournalDisk
begin

text \<open>
  What the service guarantees about its transactions: quoting writes nothing, a send that is
  rejected leaves nothing, nothing is broadcast before its record is on disk, the same quote is
  sent once, and whatever operations, failures and restarts happen, the journal stays able to
  rebuild itself.  The operations of the service are the step relation \<open>service_step\<close>.
\<close>

section \<open>What the operations leave alone\<close>

text \<open>Bodies that change at most the store of quotes.\<close>

definition quote_work ::
    "('w, jfile, 'h quote_heap_scheme) sys \<Rightarrow> ('w, jfile, 'h quote_heap_scheme) sys \<Rightarrow> bool" where
  "quote_work s t \<longleftrightarrow> files t = files s \<and> trace t = trace s \<and> (\<exists>qs. heap t = (heap s)\<lparr>qs_quotes := qs\<rparr>)"

lemma quote_work_refl: "quote_work s s"
  unfolding quote_work_def by (rule conjI [OF refl conjI [OF refl exI [of _ "qs_quotes (heap s)"]]]) simp

interpretation quote_work: effect quote_work
proof
  show "quote_work s s" for s :: "('w, jfile, 'h quote_heap_scheme) sys" by (rule quote_work_refl)
  show "quote_work s u" if "quote_work s t" "quote_work t u" for s t u :: "('w, jfile, 'h quote_heap_scheme) sys"
    using that by (auto simp: quote_work_def)
qed

lemma asks_quote_work: "within asks m \<Longrightarrow> within quote_work m"
proof (erule within_weaken)
  fix s t :: "('w, jfile, 'h quote_heap_scheme) sys"
  assume "asks s t"
  moreover have "heap s = (heap s)\<lparr>qs_quotes := qs_quotes (heap s)\<rparr>" by simp
  ultimately show "quote_work s t" unfolding quote_work_def asks_def by metis
qed

lemma quote_work_store [eff_intros]:
  "within quote_work (Add V quote)" "within quote_work (Get V ident)" "within quote_work (Remove ident)"
proof -
  have "within quote_work (set_heap (qs_quotes_update f))"
    for f :: "(string \<times> BoundQuote) list \<Rightarrow> _"
    unfolding within_def
  proof
    fix s :: "('w, jfile, 'h quote_heap_scheme) sys"
    show "quote_work s (snd (set_heap (qs_quotes_update f) s))"
      unfolding quote_work_def
      by (rule conjI [OF _ conjI [OF _ exI [of _ "f (qs_quotes (heap s))"]]]) (simp_all add: run_simps)
  qed
  note set = this
  show "within quote_work (Remove ident)" unfolding Remove_def by (rule set)
  show "within quote_work (Get V ident)" "within quote_work (Add V quote)"
    unfolding Get_def Add_def
    by (intro eff_intros set asks_quote_work [OF asks_now] asks_quote_work [OF asks_get_heap] | simp)+
qed

section \<open>Bodies that only ask\<close>

lemma asks_service [eff_intros]:
  "within asks (Address V)" "within asks (Exists V)" "within asks (finalizedNonceOf V)" "within asks (checkInFlight V)"
  "within asks (rollupFee V q bind)" "within asks (RecheckExchange V q)"
  unfolding Address_def Exists_def finalizedNonceOf_def checkInFlight_def rollupFee_def RecheckExchange_def
  by (intro eff_intros)+

lemma asks_send_checks [eff_intros]:
  "within asks (unexpired V q)" "within asks (not_done V)" "within asks (send_nonce V q)"
  "within asks (send_funds V q)" "within asks (send_escrow V q)" "within asks (send_action V q)"
  "within asks (send_token V q)" "within asks (send_gas V q)" "within asks (sign_quote V key q)"
  unfolding unexpired_def not_done_def send_nonce_def send_funds_def send_escrow_def send_action_def
    send_token_def send_gas_def sign_quote_def
  by (intro eff_intros)+

lemma asks_quote_parts [eff_intros]:
  "within asks (parts_escrow V from c)" "within asks (parts_vault V from c)" "within asks (parts_exchange V from c)"
  "within asks (parts_eth V c)" "within asks (token_guard V from b contract target amount)"
  "within asks (parts_token V from c)" "within asks (quote_fees V from p)"
proof -
  have exchange: "within asks (PrepareExchange V from c)"
    unfolding PrepareExchange_def prepare_wrap_def prepare_swap_def by (intro eff_intros)
  show guard: "within asks (token_guard V from b contract target amount)"
    unfolding token_guard_def by (intro eff_intros)
  show "within asks (parts_escrow V from c)" "within asks (parts_vault V from c)"
    "within asks (parts_exchange V from c)" "within asks (parts_eth V c)" "within asks (quote_fees V from p)"
    unfolding parts_escrow_def parts_vault_def parts_exchange_def parts_eth_def quote_fees_def
    by (intro eff_intros exchange)+
  show "within asks (parts_token V from c)"
    unfolding parts_token_def token_guard_def by (intro eff_intros)
qed

lemma asks_CreateQuote [eff_intros]: "within asks (CreateQuote V from c)"
  unfolding CreateQuote_def quote_switch_def by (intro eff_intros)

lemma asks_quotes [eff_intros]:
  "within asks (replacementQuote V c)" "within asks (new_quote V c)"
proof -
  have speedup: "within asks (prepareEscrowSpeedup V a r tx)" for a r tx
    unfolding prepareEscrowSpeedup_def by (intro eff_intros)
  have parts: "within asks (replacement_parts V action a r tx)" for action a r tx
    unfolding replacement_parts_def speedup_parts_def by (intro eff_intros speedup)
  show "within asks (replacementQuote V c)"
    unfolding replacementQuote_def replaced_source_def by (intro eff_intros parts)
  show "within asks (new_quote V c)"
    unfolding new_quote_def by (intro eff_intros)
qed

lemma quote_work_ServiceQuoteCommand [eff_intros]: "within quote_work (ServiceQuoteCommand V c)"
  unfolding ServiceQuoteCommand_def by (intro eff_intros asks_quote_work)

lemma quote_work_send_prepare [eff_intros]: "within quote_work (send_prepare V quoteID password)"
  unfolding send_prepare_def by (intro eff_intros asks_quote_work)

section \<open>What is signed\<close>

text \<open>
  \<open>settled_before V h q\<close>: no transaction of journal \<open>h\<close> is in flight, given at most one finalized
  nonce that the chain said, and the nonce of \<open>q\<close> has not been used up by then.
\<close>

definition settled_before :: "('k, 'w) env \<Rightarrow> 'h journal_scheme \<Rightarrow> BoundQuote \<Rightarrow> bool" where
  "settled_before V h q \<longleftrightarrow>
     (\<exists>finalized. \<not> hasInFlightTx (eth V) h finalized \<and>
        (case finalized of
           None \<Rightarrow> True
         | Some f \<Rightarrow> said (ca_FinalizedNonceAt (api V) (fn_account f)) (fn_nonce f) \<and> fn_nonce f \<le> bq_Nonce q))"

lemma in_flight_same: "forEachRecord h = forEachRecord h' \<Longrightarrow> hasInFlightTx E h f = hasInFlightTx E h' f"
  by (simp add: hasInFlightTx_def)

lemma finalizedNonceOf_said:
  "finalizedNonceOf V s = (Inr (Some f), t) \<Longrightarrow> said (ca_FinalizedNonceAt (api V) (fn_account f)) (fn_nonce f)"
  by (auto simp: finalizedNonceOf_def ok_simps Let_def dest: ask_said split: if_splits)

lemma checkInFlight_ok:
  assumes "checkInFlight V s = (Inr finalized, t)"
    and "\<not> (case finalized of None \<Rightarrow> False | Some f \<Rightarrow> bq_Nonce q < fn_nonce f)"
  shows "settled_before V (heap s) q"
proof -
  have heap: "heap u = heap s" if "finalizedNonceOf V s = (Inr f, u)" for f u
    using withinD [OF asks_service(3) that] by (simp add: asks_def)
  show ?thesis using assms unfolding settled_before_def
    by (intro exI [of _ finalized])
       (auto simp: checkInFlight_def ok_simps get_heap_def heap not_less dest: finalizedNonceOf_said
          split: if_splits option.splits)
qed

lemma sign_quote_ok:
  assumes "sign_quote V key q s = (Inr (tx, record), t)"
  shows "SignTx (eth V) (dynamic_of (ca_ChainID (api V)) q) key = Inr tx"
    and "\<exists>raw tm. record = new_record (eth V) q (tx_hash tx) (HexutilEncode (eth V) raw) tm \<and>
      TxMarshal (eth V) tx = Inr raw"
  using assms by (auto simp: sign_quote_def ok_simps)

lemma send_prepare_ok:
  assumes "send_prepare V quoteID password s = (Inr (q, tx, record), t)"
  shows "\<exists>raw tm. record = new_record (eth V) q (tx_hash tx) (HexutilEncode (eth V) raw) tm \<and>
      TxMarshal (eth V) tx = Inr raw"
  using assms unfolding send_prepare_def ok_simps
  by (elim exE conjE) (clarsimp simp: ok_simps, drule sign_quote_ok(2), blast)

section \<open>What a send leaves behind\<close>

lemma FindByHash_known: "FindByHash h hash = Some r \<Longrightarrow> r \<in> set (forEachRecord h) \<and> jr_Hash r = hash"
  by (auto simp: FindByHash_def ParseTransactionHash_iff split: sum.splits dest!: find_SomeD)

lemma AppendAtomic_appended:
  assumes "AppendAtomic E I r s = (Inr (r', v), t)"
  shows "r' \<in> set (forEachRecord (heap t))" "jr_Hash r' = jr_Hash r" "jr_QuoteID r' = jr_QuoteID r"
  using assms unfolding AppendAtomic_def Let_def ok_simps
  by (auto simp: ok_simps set_heap_def forEachRecord_def dest: validate_keeps)

lemma remembers_update:
  "remembers h (h\<lparr>jm_records := (jm_records h)[i := observed st conf fee er fin tm (jm_records h ! i)]\<rparr>)"
proof -
  have "\<exists>r'\<in>set ((jm_records h)[i := observed st conf fee er fin tm (jm_records h ! i)]). same_payload r r'"
    if "r \<in> set (jm_records h)" for r
    using that unfolding in_set_conv_nth
    by (metis length_list_update nth_list_update_eq nth_list_update_neq nth_mem observed_payload same_payload_refl)
  then show ?thesis
    unfolding remembers_def forEachRecord_def using same_payload_refl by fastforce
qed

lemma never_forgets_update [eff_intros]:
  "within never_forgets (UpdateStateAtomicIfVersion I hash v state conf fee er fin)"
  unfolding within_def
proof
  fix s
  have "wp (UpdateStateAtomicIfVersion I hash v state conf fee er fin) (\<lambda>_ t. never_forgets s t) (\<lambda>_ t. never_forgets s t) s"
    unfolding UpdateStateAtomicIfVersion_def
    by (auto simp: wp_simps never_forgets_def Let_def remembers_update split: sum.split option.split
        intro!: wp_now wp_atomicSave)
  then show "never_forgets s (snd (UpdateStateAtomicIfVersion I hash v state conf fee er fin s))"
    by (auto simp: wp_def split: prod.splits sum.splits)
qed

lemma never_forgets_same: "forEachRecord h' = forEachRecord h \<Longrightarrow> jm_chainID h' = jm_chainID h \<Longrightarrow> remembers h h'"
  unfolding remembers_def using same_payload_refl by metis

lemma quote_work_remembers: "within quote_work m \<Longrightarrow> within never_forgets m"
  by (erule within_weaken) (auto simp: quote_work_def never_forgets_def forEachRecord_def intro!: never_forgets_same)

lemma never_forgets_record_broadcast: "within never_forgets (record_broadcast V tx hash version)"
proof -
  have "within never_forgets (broadcast V tx)"
    by (auto simp: within_def never_forgets_def broadcast_def run_simps run_ask split: prod.split)
  moreover have "within never_forgets (set_heap (sv_storageFault_update f))" for f
    by (auto simp: within_def never_forgets_def run_simps forEachRecord_def intro: never_forgets_same)
  ultimately show ?thesis
    unfolding record_broadcast_def journal_fault_def by (intro eff_intros)
qed

lemma latest_response_ok:
  assumes "latest_response r state updated s = (Inr resp, t)"
  shows "t = s \<and> sr_Hash resp = jr_Hash r"
  using assms FindByHash_known
  by (fastforce simp: latest_response_def ok_simps get_heap_def sendResponseFromRecord_def split: option.splits if_splits)

lemma Remove_gone: "Remove ident s = (r, t) \<Longrightarrow> map_of (quotes_of t) ident = None \<and> forEachRecord (heap t) = forEachRecord (heap s)"
  by (auto simp: Remove_def run_simps forEachRecord_def delete_conv')

lemma send_commit_ok:
  assumes "send_commit V q tx record s = (Inr resp, t)" and "jr_Hash record = tx_hash tx"
  shows "sr_Hash resp = tx_hash tx" and "map_of (quotes_of t) (bq_ID q) = None"
    and "\<exists>r\<in>set (forEachRecord (heap t)). jr_Hash r = tx_hash tx \<and> jr_QuoteID r = jr_QuoteID record"
proof -
  from assms(1) obtain r' v s1 state updated s2 s3 where
    A: "AppendAtomic (eth V) (os V) record s = (Inr (r', v), s1)" and
    B: "record_broadcast V tx (tx_hash tx) v s1 = (Inr (state, updated), s2)" and
    R: "Remove (bq_ID q) s2 = (Inr (), s3)" and L: "latest_response r' state updated s3 = (Inr resp, t)"
    unfolding send_commit_def ok_simps by (auto elim: throw_not_ok)
  note a = AppendAtomic_appended [OF A] and l = latest_response_ok [OF L] and g = Remove_gone [OF R]
  show "sr_Hash resp = tx_hash tx" using l a(2) assms(2) by simp
  show "map_of (quotes_of t) (bq_ID q) = None" using l g by simp
  from withinD [OF never_forgets_record_broadcast B] a(1) obtain r where
    "r \<in> set (forEachRecord (heap s2))" "same_payload r' r"
    unfolding never_forgets_def remembers_def by blast
  with l g a assms(2) show "\<exists>r\<in>set (forEachRecord (heap t)). jr_Hash r = tx_hash tx \<and> jr_QuoteID r = jr_QuoteID record"
    by (auto simp: same_payload_def)
qed

section \<open>Errors\<close>

text \<open>System calls return errors of the operating system, not the wallet's own.\<close>

definition os_laws :: "('w, 'm) io_scheme \<Rightarrow> bool" where
  "os_laws I \<longleftrightarrow> (\<forall>e. io_error I e \<longrightarrow> \<not> err_is e ErrJournalFull \<and> (\<forall>x. e \<noteq> SendRejectedError x))"

definition foreign_error :: "err \<Rightarrow> bool" where
  "foreign_error e \<longleftrightarrow> \<not> err_is e ErrJournalFull \<and> (\<forall>x. e \<noteq> SendRejectedError x)"

lemma foreign_simps [simp]: "foreign_error (ErrNew t)" "foreign_error (ErrExt t)"
  by (simp_all add: foreign_error_def err_is_def)

lemma wp_atomicWriteFile_foreign:
  "os_laws I \<Longrightarrow> wp (atomicWriteFile I p d) (\<lambda>_ _. True) (\<lambda>e _. foreign_error e) s"
  unfolding atomicWriteFile_def
  by (simp add: wp_simps) (intro wp_SysCall; simp add: wp_simps os_laws_def foreign_error_def)+

lemma wp_atomicSave_foreign:
  "os_laws I \<Longrightarrow> wp (atomicSave I rs) (\<lambda>_ _. True) (\<lambda>e _. foreign_error e) s"
  by (auto simp: atomicSave_def wp_simps marshal_records_def wp_atomicWriteFile_foreign)

lemma parse_error:
  "ParseLegacyQuoteID x = Inl e \<Longrightarrow> foreign_error e" "ParseTransactionHash x = Inl e \<Longrightarrow> foreign_error e"
  "parse_optional_address E x = Inl e \<Longrightarrow> foreign_error e" "ParseJournalState x = Inl e \<Longrightarrow> foreign_error e"
  "decodeEscrowTransaction E tx = Inl e \<Longrightarrow> foreign_error e"
  by (auto simp: ParseLegacyQuoteID_def ParseTransactionHash_def parse_optional_address_def ParseEVMAddress_def
      ValidateAddress_def ParseJournalState_def decodeEscrowTransaction_def escrow_call_of_def Let_def ebind_def
      foreign_error_def err_is_def split: if_splits sum.splits option.splits list.splits abi_value.splits)

lemma validate_error: "validateJournalRecord E r c = Inl e \<Longrightarrow> foreign_error e"
  by (auto simp: validateJournalRecord_def restoreEscrowJournal_def Let_def ebind_def
      dest: parse_error split: if_splits sum.splits option.splits)

lemma AppendAtomic_error:
  assumes "os_laws I" and "AppendAtomic E I r s = (Inl e, t)"
  shows "t = s \<and> e = ErrJournalFull \<or> foreign_error e"
proof -
  have "wp (AppendAtomic E I r) (\<lambda>_ _. True) (\<lambda>e t. t = s \<and> e = ErrJournalFull \<or> foreign_error e) s"
    by (auto simp: AppendAtomic_def wp_simps Let_def split: sum.split dest: validate_error
        intro: wp_mono [OF wp_atomicSave_foreign [OF assms(1)]])
  from wp_runD_err [OF this assms(2)] show ?thesis .
qed

lemma UpdateStateAtomicIfVersion_error:
  assumes "os_laws I" and "UpdateStateAtomicIfVersion I hash v (state_text st) conf fee er fin s = (Inl e, t)"
  shows "foreign_error e"
proof -
  have "wp (UpdateStateAtomicIfVersion I hash v (state_text st) conf fee er fin) (\<lambda>_ _. True) (\<lambda>e _. foreign_error e) s"
    by (auto simp: UpdateStateAtomicIfVersion_def wp_simps Let_def split: option.split
        intro!: wp_now wp_mono [OF wp_atomicSave_foreign [OF assms(1)]])
  from wp_runD_err [OF this assms(2)] show ?thesis .
qed

lemma record_broadcast_error:
  assumes "os_laws (os V)" and "record_broadcast V tx hash version s = (Inl e, t)"
  shows "foreign_error e \<and> sv_storageFault (heap t)"
proof -
  have *: "foreign_error e \<and> sv_storageFault (heap t)"
    if "journal_fault (UpdateStateAtomicIfVersion (os V) hash version (state_text st) [] [] er False) u = (Inl e, t)" for st er u
    using that UpdateStateAtomicIfVersion_error [OF assms(1)]
    by (auto simp: journal_fault_def run_simps split: sum.splits prod.splits)
  from assms(2) show ?thesis
    by (auto simp: record_broadcast_def run_simps broadcast_def Let_def run_ask simp del: state_text.simps
        dest!: * split: sum.splits prod.splits)
qed

lemma send_commit_error:
  assumes "os_laws (os V)" and "send_commit V q tx record s = (Inl e, t)"
  shows "quote_work s t \<or> sv_storageFault (heap t) \<and> foreign_error e"
proof -
  have B: "sv_storageFault (heap t) \<and> foreign_error e"
    if "andthen (record_broadcast V tx (tx_hash tx) v) (\<lambda>(state, updated).
        seq (Remove (bq_ID q)) (latest_response r state updated)) u = (Inl e, t)" for v r u
    using that record_broadcast_error [OF assms(1), of tx "tx_hash tx" v u]
    by (auto simp: run_andthen run_seq Remove_def latest_response_def run_simps split: prod.splits sum.splits)
  show ?thesis
  proof (cases "AppendAtomic (eth V) (os V) record s")
    case (Pair res u)
    show ?thesis
    proof (cases res)
      case (Inl e')
      with Pair assms(2) have "e = e'" "t = (if err_is e ErrJournalFull then u else u\<lparr>heap := sv_storageFault_update (\<lambda>_. True) (heap u)\<rparr>)"
        by (auto simp: send_commit_def run_simps split: if_splits)
      with AppendAtomic_error [OF assms(1), of "eth V" "record" s e' u] Pair Inl
      show ?thesis by (auto simp: foreign_error_def quote_work_refl)
    next
      case (Inr x)
      obtain r v where x: "x = (r, v)" by force
      with Pair Inr assms(2) have "andthen (record_broadcast V tx (tx_hash tx) v) (\<lambda>(state, updated).
          seq (Remove (bq_ID q)) (latest_response r state updated)) u = (Inl e, t)"
        unfolding send_commit_def by (subst (asm) run_andthen) (simp add: run_attempt)
      from B [OF this] show ?thesis by simp
    qed
  qed
qed

text \<open>
  C5: an error of Send is contained.  Either nothing was written or sent, the journal is
  untouched and at most expired quotes are gone (every error that tells the caller the send was
  rejected is of this kind), or the journal could not be written: then the service holds a
  storage fault, with which quoting, sending and broadcasting again are refused and do nothing.
\<close>

theorem Send_error_contained:
  assumes "os_laws (os V)" and "Send V ident password s = (Inl e, t)"
  shows "quote_work s t \<or>
    sv_storageFault (heap t) \<and> (\<forall>x. e \<noteq> SendRejectedError x) \<and>
    (\<forall>c ident' password' hash.
       (\<exists>e. ServiceQuoteCommand V c t = (Inl e, t)) \<and> (\<exists>e. Send V ident' password' t = (Inl e, t)) \<and>
       (\<exists>e. Retry V hash t = (Inl e, t)))"
proof -
  have "quote_work s t \<or> sv_storageFault (heap t) \<and> foreign_error e"
  proof (cases "sv_storageFault (heap s) \<or> FindByQuoteID (heap s) ident \<noteq> None")
    case True
    with assms(2) have "t = s" by (auto simp: Send_def run_simps split: if_splits)
    then show ?thesis by (simp add: quote_work_refl)
  next
    case False
    show ?thesis
    proof (cases "send_prepare V ident password s")
      case (Pair res u)
      from withinD [OF quote_work_send_prepare Pair] have w: "quote_work s u" .
      show ?thesis
      proof (cases res)
        case (Inl e')
        with False Pair assms(2) w show ?thesis by (simp add: Send_def run_simps)
      next
        case (Inr x)
        obtain q tx r where x: "x = (q, tx, r)" by (cases x)
        with False Pair Inr assms(2) have "send_commit V q tx r u = (Inl e, t)" by (simp add: Send_def run_simps)
        from send_commit_error [OF assms(1) this] w show ?thesis by (blast intro: quote_work.trans_effect)
      qed
    qed
  qed
  then show ?thesis
    by (auto simp: foreign_error_def ServiceQuoteCommand_def Send_def Retry_def run_simps)
qed

end
