(* ===== verification/ServiceRun.thy ===== *)
theory ServiceRun
  imports SendFacts
begin

text \<open>
  The service as a state machine.  A small step is one operation of the journal (with any
  outcome, a restart among them), one broadcast, or work that touches neither the journal nor a
  file.  Each operation of the service is a sequence of such steps, so what holds along every
  sequence holds for the operations in any order and, because Send and History hold different
  locks, for their interleavings.
\<close>

section \<open>Small steps\<close>

definition same_journal :: "'h journal_scheme \<Rightarrow> 'h journal_scheme \<Rightarrow> bool" where
  "same_journal h h' \<longleftrightarrow> jm_chainID h' = jm_chainID h \<and> jm_records h' = jm_records h \<and> jm_archived h' = jm_archived h"

text \<open>Work in memory, or questions to the chain and the key store.\<close>

definition private_work ::
    "('w, jfile, 'h journal_scheme) sys \<Rightarrow> ('w, jfile, 'h journal_scheme) sys \<Rightarrow> bool" where
  "private_work s t \<longleftrightarrow> files t = files s \<and> trace t = trace s \<and> same_journal (heap s) (heap t)"

inductive service_step ::
    "('k, 'w) env \<Rightarrow> ('w, jfile, 'h journal_scheme) sys \<Rightarrow> ('w, jfile, 'h journal_scheme) sys \<Rightarrow> bool"
  for V :: "('k, 'w) env"
  where
    inside: "private_work s t \<Longrightarrow> service_step V s t"
  | journal: "journal_step (eth V) (os V) s t \<Longrightarrow> service_step V s t"
  | sent: "r \<in> set (forEachRecord (heap s)) \<Longrightarrow> tx_hash tx = jr_Hash r \<Longrightarrow> broadcast V tx s = (res, t) \<Longrightarrow>
      service_step V s t"

abbreviation service_run ::
    "('k, 'w) env \<Rightarrow> ('w, jfile, 'h journal_scheme) sys \<Rightarrow> ('w, jfile, 'h journal_scheme) sys \<Rightarrow> bool" where
  "service_run V \<equiv> (service_step V)\<^sup>*\<^sup>*"

interpretation service_run: effect "service_run V" for V :: "('k, 'w) env"
  by unfold_locales auto

interpretation private_work: effect private_work
  by unfold_locales (auto simp: private_work_def same_journal_def)

lemma private_run: "private_work s t \<Longrightarrow> service_run V s t"
  by (blast intro: service_step.inside)

lemma journal_run: "journal_step (eth V) (os V) s t \<Longrightarrow> service_run V s t"
  by (blast intro: service_step.journal)

section \<open>Every small step keeps the journal durable\<close>

lemma durable_same_journal:
  assumes "durable E s" and "files t = files s" and "same_journal (heap s) (heap t)"
  shows "durable E t"
proof -
  have f: "jm_chainID (heap t) = jm_chainID (heap s)" "jm_records (heap t) = jm_records (heap s)"
    "jm_archived (heap t) = jm_archived (heap s)"
    using assms(3) by (simp_all add: same_journal_def)
  then have all: "forEachRecord (heap t) = forEachRecord (heap s)" by (simp add: forEachRecord_def)
  then have split: "to_archive (heap t) = to_archive (heap s)" "to_keep (heap t) = to_keep (heap s)"
    using f by (simp_all add: to_archive_def to_keep_def finalized_nonces_def)
  from assms(1) show ?thesis
    unfolding durable_def memory_ok_def active_on_disk_def half_archived_def archived_on_disk_def archives_ok_def
      assms(2) f all split .
qed

lemma remembers_same_journal: "same_journal h h' \<Longrightarrow> remembers h h'"
  unfolding same_journal_def remembers_def forEachRecord_def using same_payload_refl by metis

lemma broadcast_effect:
  assumes "broadcast V tx s = (res, t)"
  shows "files t = files s" "heap t = heap s" "trace t = trace s @ [SentRaw (tx_hash tx)]"
  using assms by (auto simp: broadcast_def run_simps run_ask split: prod.splits)

lemma service_step_durable:
  assumes "service_step V s t" and "eth_hash_laws (eth V)" and "durable (eth V) s"
  shows "durable (eth V) t \<and> remembers (heap s) (heap t)"
  using assms(1)
proof cases
  case inside
  then show ?thesis using durable_same_journal [OF assms(3)] remembers_same_journal by (auto simp: private_work_def)
next
  case journal
  from journal_step_durable [OF this assms(2,3)] show ?thesis .
next
  case (sent r tx res)
  note b = broadcast_effect [OF sent(3)]
  have "same_journal (heap s) (heap t)" using b by (simp add: same_journal_def)
  from durable_same_journal [OF assms(3) b(1) this] b show ?thesis by simp
qed

lemma service_run_durable:
  assumes "eth_hash_laws (eth V)" and "durable (eth V) s" and "service_run V s t"
  shows "durable (eth V) t \<and> remembers (heap s) (heap t)"
  using assms(3)
proof (induction rule: rtranclp_induct)
  case base
  with assms(2) show ?case by simp
next
  case (step t u)
  with service_step_durable [OF step(2) assms(1)] show ?case by (blast intro: remembers_trans)
qed

section \<open>Nothing is broadcast before it is on disk\<close>

text \<open>The files as the trace leaves them, and the hashes they hold a record of.\<close>

primrec replay :: "(string \<times> jfile) list \<Rightarrow> jfile event list \<Rightarrow> (string \<times> jfile) list" where
  "replay fs [] = fs"
| "replay fs (e # es) = replay (case e of Renamed p d \<Rightarrow> AList.update p d fs | SentRaw _ \<Rightarrow> fs) es"

definition on_disk :: "(string \<times> jfile) list \<Rightarrow> string \<Rightarrow> bool" where
  "on_disk fs hash \<longleftrightarrow>
     (\<exists>name rs. (name = journalPath \<or> is_archive name) \<and> map_of fs name = Some (disk_of rs) \<and>
        hash \<in> jr_Hash ` set rs)"

definition persisted_first ::
    "('w, jfile, 'h) sys \<Rightarrow> ('w, jfile, 'h) sys \<Rightarrow> bool" where
  "persisted_first s t \<longleftrightarrow>
     (\<exists>es. trace t = trace s @ es \<and> files t = replay (files s) es \<and>
        (\<forall>before hash after. es = before @ SentRaw hash # after \<longrightarrow> on_disk (replay (files s) before) hash))"

lemma replay_append: "replay fs (es @ es') = replay (replay fs es) es'"
  by (induction es arbitrary: fs) simp_all

lemma split_sent:
  assumes "es @ es' = before @ x # after"
  shows "(\<exists>mid. es = before @ x # mid) \<or> (\<exists>mid. before = es @ mid \<and> es' = mid @ x # after)"
proof -
  from assms consider us where "es = before @ us" "us @ es' = x # after"
    | us where "before = es @ us" "es' = us @ x # after"
    by (auto simp: append_eq_append_conv2)
  then show ?thesis
  proof cases
    case 1
    then show ?thesis by (cases us) auto
  next
    case 2
    then show ?thesis by auto
  qed
qed

interpretation persisted_first: effect persisted_first
proof
  show "persisted_first s s" for s :: "('w, jfile, 'h) sys"
    by (simp add: persisted_first_def)
  show "persisted_first s u" if st: "persisted_first s t" and tu: "persisted_first t u" for s t u :: "('w, jfile, 'h) sys"
  proof -
    from st obtain es where es: "trace t = trace s @ es" "files t = replay (files s) es"
      "\<And>before hash after. es = before @ SentRaw hash # after \<Longrightarrow> on_disk (replay (files s) before) hash"
      by (auto simp: persisted_first_def)
    from tu obtain es' where es': "trace u = trace t @ es'" "files u = replay (files t) es'"
      "\<And>before hash after. es' = before @ SentRaw hash # after \<Longrightarrow> on_disk (replay (files t) before) hash"
      by (auto simp: persisted_first_def)
    have "on_disk (replay (files s) before) hash" if "es @ es' = before @ SentRaw hash # after" for before hash after
      using split_sent [OF that] es(2,3) es'(3) by (auto simp: replay_append)
    with es(1,2) es'(1,2) show ?thesis
      unfolding persisted_first_def by (intro exI [of _ "es @ es'"]) (simp add: replay_append)
  qed
qed

text \<open>Bodies that write files and broadcast nothing.\<close>

lemma silent_persisted:
  "files t = files s \<Longrightarrow> trace t = trace s \<Longrightarrow> persisted_first s t"
  by (simp add: persisted_first_def)

lemma local_persisted: "within local_only m \<Longrightarrow> within persisted_first m"
  by (erule within_weaken) (auto simp: local_only_def intro: silent_persisted)

lemma put_persisted: "persisted_first s ((put_file p d s)\<lparr>world := w\<rparr>)"
  unfolding persisted_first_def by (rule exI [of _ "[Renamed p d]"]) (simp add: Cons_eq_append_conv)

lemma persisted_atomicWriteFile [eff_intros]: "within persisted_first (atomicWriteFile I p d)"
  unfolding within_def
proof
  fix s
  have "wp (atomicWriteFile I p d) (\<lambda>_ t. persisted_first s t) (\<lambda>_ t. persisted_first s t) s"
    by (rule wp_atomicWriteFile) (simp_all add: put_persisted silent_persisted)
  then show "persisted_first s (snd (atomicWriteFile I p d s))"
    by (auto simp: wp_def split: prod.splits sum.splits)
qed

lemmas persisted_local [eff_intros] =
  local_persisted [OF local_set_heap] local_persisted [OF asks_local [OF asks_get_heap]]
  local_persisted [OF asks_local [OF asks_now]] local_persisted [OF asks_local [OF asks_ReadFile]]
  local_persisted [OF asks_local [OF asks_ReadDir]]

lemma persisted_atomicSave [eff_intros]: "within persisted_first (atomicSave I rs)"
  unfolding atomicSave_def by (intro eff_intros)

lemma persisted_journal [eff_intros]:
  "within persisted_first (AppendAtomic E I r)"
  "within persisted_first (UpdateStateAtomic I hash state conf fee er)"
  "within persisted_first (UpdateStateAtomicIfVersion I hash v state conf fee er fin)"
  "within persisted_first (ArchiveFinalized I)"
  unfolding AppendAtomic_def UpdateStateAtomic_def UpdateStateAtomicIfVersion_def ArchiveFinalized_def
  by (intro eff_intros)+

lemma within_jfile:
  "(\<And>rs. within R (f rs)) \<Longrightarrow> within R g \<Longrightarrow> within R (case z of JRecords rs \<Rightarrow> f rs | JBad \<Rightarrow> g)"
  by (cases z) simp_all

lemma persisted_restart [eff_intros]: "within persisted_first (NewJournalManager E I cs)"
  unfolding NewJournalManager_def load_def loadArchives_def archive_body_def
  by (intro eff_intros within_jfile)

lemma journal_step_persisted: "journal_step E I s t \<Longrightarrow> persisted_first s t"
  by (erule journal_step.cases) (auto dest: persisted_journal [THEN withinD] persisted_restart [THEN withinD])

text \<open>What the memory knows is on disk, by the invariant of the journal.\<close>

lemma known_on_disk:
  assumes "durable E s" and "r \<in> set (forEachRecord (heap s))"
  shows "on_disk (files s) (jr_Hash r)"
proof (cases "r \<in> set (jm_archived (heap s))")
  case True
  with assms(1) obtain name rs d where "is_archive name" "map_of (files s) name = Some (disk_of rs)"
    "d \<in> set rs" "same_payload r d"
    unfolding durable_def archived_on_disk_def by blast
  moreover from this have "jr_Hash r \<in> jr_Hash ` set rs" by (metis imageI same_payload_hash)
  ultimately show ?thesis unfolding on_disk_def by blast
next
  case False
  with assms(2) have r: "r \<in> set (jm_records (heap s))" by (auto simp: forEachRecord_def)
  from assms(1) have "active_on_disk E (heap s) (files s)" by (simp add: durable_def)
  with r obtain rs where rs: "map_of (files s) journalPath = Some (disk_of rs)"
    "covers (jm_records (heap s)) rs \<or> half_archived (heap s) (files s) rs"
    by (auto simp: active_on_disk_def split: option.splits)
  show ?thesis
  proof (cases "covers (jm_records (heap s)) rs")
    case True
    with r have "jr_Hash r \<in> jr_Hash ` set rs" unfolding covers_def by (metis imageI same_payload_hash)
    with rs(1) show ?thesis unfolding on_disk_def by blast
  next
    case False
    with rs(2) have h: "rs = to_keep (heap s)"
      "map_of (files s) (archive_path (to_archive (heap s))) = Some (disk_of (to_archive (heap s)))"
      by (simp_all add: half_archived_def)
    from to_keep_or_archive [OF r] show ?thesis
    proof
      assume "r \<in> set (to_keep (heap s))"
      with rs(1) h(1) show ?thesis unfolding on_disk_def by blast
    next
      assume "archived_form r \<in> set (to_archive (heap s))"
      then have "jr_Hash r \<in> jr_Hash ` set (to_archive (heap s))" by (metis archived_form_fields(1) imageI)
      with h(2) archive_path_is_archive show ?thesis unfolding on_disk_def by blast
    qed
  qed
qed

lemma service_step_persisted:
  assumes "service_step V s t" and "durable (eth V) s"
  shows "persisted_first s t"
  using assms(1)
proof cases
  case inside
  then show ?thesis by (simp add: private_work_def silent_persisted)
next
  case journal
  then show ?thesis by (rule journal_step_persisted)
next
  case (sent r tx res)
  note b = broadcast_effect [OF sent(3)]
  from known_on_disk [OF assms(2) sent(1)] sent(2) have "on_disk (files s) (tx_hash tx)" by simp
  with b show ?thesis
    unfolding persisted_first_def by (intro exI [of _ "[SentRaw (tx_hash tx)]"]) (auto simp: Cons_eq_append_conv)
qed

lemma service_run_persisted:
  assumes "eth_hash_laws (eth V)" and "durable (eth V) s" and "service_run V s t"
  shows "persisted_first s t"
  using assms(3)
proof (induction rule: rtranclp_induct)
  case base
  show ?case by (rule persisted_first.refl_effect)
next
  case (step t u)
  from service_run_durable [OF assms(1,2) step(1)] have "durable (eth V) t" ..
  from service_step_persisted [OF step(2) this] step.IH show ?case by (blast intro: persisted_first.trans_effect)
qed

section \<open>The operations are sequences of small steps\<close>

lemma private_within: "within private_work m \<Longrightarrow> within (service_run V) m"
  by (erule within_weaken) (rule private_run)

lemma asks_private: "within asks m \<Longrightarrow> within private_work m"
  by (erule within_weaken) (auto simp: asks_def private_work_def same_journal_def)

lemma quote_work_private: "within quote_work m \<Longrightarrow> within private_work m"
  by (erule within_weaken) (auto simp: quote_work_def private_work_def same_journal_def)

lemma private_set_heap:
  "(\<And>h. same_journal h (f h)) \<Longrightarrow> within private_work (set_heap f)"
  by (simp add: within_def private_work_def run_simps)

lemma run_asks: "within asks m \<Longrightarrow> within (service_run V) m"
  by (intro private_within asks_private)

lemmas run_leaf [eff_intros] =
  run_asks [OF asks_ask] run_asks [OF asks_get_heap] run_asks [OF asks_ctx_err]
  run_asks [OF asks_service(1)] run_asks [OF asks_service(2)] run_asks [OF asks_service(3)]
  run_asks [OF asks_service(4)]

lemma run_fields [eff_intros]:
  "within (service_run V) (set_heap (sv_storageFault_update f))"
  "within (service_run V) (set_heap (sv_historyOffset_update g))"
  by (intro private_within private_set_heap; simp add: same_journal_def)+

lemma run_journal [eff_intros]:
  "within (service_run V) (UpdateStateAtomicIfVersion (os V) hash v state conf fee er fin)"
  "within (service_run V) (ArchiveFinalized (os V))"
  unfolding within_def
  by (metis journal_run journal_step.update_if prod.collapse) (metis journal_run journal_step.archive prod.collapse)

lemma run_journal_fault [eff_intros]: "within (service_run V) m \<Longrightarrow> within (service_run V) (journal_fault m)"
  unfolding journal_fault_def by (intro eff_intros)

lemma run_History [eff_intros]: "within (service_run V) (History V)"
  unfolding History_def refresh_turn_def apply_observation_def split_def by (intro eff_intros)

lemma run_ServiceQuoteCommand [eff_intros]: "within (service_run V) (ServiceQuoteCommand V c)"
  by (intro private_within quote_work_private eff_intros)

text \<open>A broadcast of a transaction the journal has a record of.\<close>

lemma run_record_broadcast:
  assumes "r \<in> set (forEachRecord (heap s))" and "tx_hash tx = jr_Hash r"
  shows "service_run V s (snd (record_broadcast V tx hash version s))"
  unfolding record_broadcast_def
proof (rule service_run.from_andthen)
  show "service_run V s (snd (broadcast V tx s))"
    by (rule r_into_rtranclp, rule service_step.sent [OF assms]) (rule prod.collapse [symmetric])
qed (rule service_run.from_within, intro eff_intros)

text \<open>The steps of a body that only look at memory, run away.\<close>

lemma step_get_heap: "andthen (get_heap f) g s = g (f (heap s)) s"
  by (simp add: run_simps)

lemma step_lift: "andthen (lift r) g s = (case r of Inl e \<Rightarrow> (Inl e, s) | Inr x \<Rightarrow> g x s)"
  by (simp add: run_simps)

lemma retry_tx_hash: "retry_tx E c r = Inr tx \<Longrightarrow> tx_hash tx = jr_Hash r"
  by (auto simp: retry_tx_def split: option.splits if_splits)

lemma run_answered:
  assumes "r \<in> set (forEachRecord (heap s))" and "tx_hash tx = jr_Hash r" and "\<And>x. within (service_run V) (f x)"
  shows "service_run V s (snd (andthen (record_broadcast V tx hash version) f s))"
  by (rule service_run.from_andthen, rule run_record_broadcast [OF assms(1,2)], rule service_run.from_within, rule assms(3))

lemma run_latest [eff_intros]: "within (service_run V) (latest_response r state updated)"
  unfolding latest_response_def by (intro eff_intros)

lemma run_Retry [eff_intros]: "within (service_run V) (Retry V hash)"
  unfolding within_def
proof
  fix s
  have "service_run V s (snd (andthen (record_broadcast V tx (jr_Hash r) (jr_Version r))
      (\<lambda>(state, updated). latest_response r state updated) s))"
    if "FindByHash (heap s) hash = Some r" "retry_tx (eth V) (ca_ChainID (api V)) r = Inr tx" for r tx
    using FindByHash_known [OF that(1)] retry_tx_hash [OF that(2)]
    by (intro run_answered) (auto split: prod.split intro!: eff_intros)
  then show "service_run V s (snd (Retry V hash s))"
    unfolding Retry_def step_get_heap run_fail_if
    by (auto simp: step_get_heap step_lift run_throw run_ret split: option.split sum.split)
qed

text \<open>
  Sending.  The record is appended under the hash of a transaction that was not signed before;
  its recipient is an address the library printed.
\<close>

definition signs_new ::
    "('k, 'w) env \<Rightarrow> string \<Rightarrow> string \<Rightarrow> ('w, jfile, 'h service_scheme) sys \<Rightarrow> bool" where
  "signs_new V quoteID password s \<longleftrightarrow>
     (case send_prepare V quoteID password s of
        (Inl _, _) \<Rightarrow> True
      | (Inr (q, tx, record), t) \<Rightarrow> tx_hash tx \<notin> jr_Hash ` set (forEachRecord (heap s)))"

lemma parse_printed:
  "eth_hex_laws E \<Longrightarrow> parse_optional_address E (AddressHex E a) = Inr t \<Longrightarrow> t = AddressHex E a"
  by (auto simp: parse_optional_address_def ParseEVMAddress_iff AddressHex_nonempty eth_hexD dest: ValidateAddress_shape)

lemma AppendAtomic_refused:
  "parse_optional_address E (jr_To r) = Inl e \<Longrightarrow> snd (AppendAtomic E I r s) = s"
  by (auto simp: AppendAtomic_def run_simps validateJournalRecord_def ebind_def split: sum.split)

lemma run_append:
  assumes "eth_hex_laws (eth V)" and "jr_To r = AddressHex (eth V) a"
    and "jr_Hash r \<notin> jr_Hash ` set (forEachRecord (heap s))"
  shows "service_run V s (snd (AppendAtomic (eth V) (os V) r s))"
proof (cases "parse_optional_address (eth V) (jr_To r)")
  case (Inl e)
  then show ?thesis by (simp add: AppendAtomic_refused)
next
  case (Inr t)
  with parse_printed [OF assms(1)] assms(2) have "parse_optional_address (eth V) (jr_To r) = Inr (jr_To r)" by simp
  moreover have "\<forall>q\<in>set (forEachRecord (heap s)). jr_Hash q \<noteq> jr_Hash r" using assms(3) by (metis imageI)
  ultimately show ?thesis by (intro journal_run journal_step.append) (simp_all add: prod_eq_iff)
qed

lemma run_Remove [eff_intros]: "within (service_run V) (Remove ident)"
  by (intro private_within quote_work_private eff_intros)

lemma run_send_commit:
  assumes "eth_hex_laws (eth V)" and "jr_To record = AddressHex (eth V) a" and "jr_Hash record = tx_hash tx"
    and "tx_hash tx \<notin> jr_Hash ` set (forEachRecord (heap s))"
  shows "service_run V s (snd (send_commit V q tx record s))"
  unfolding send_commit_def
proof (rule service_run.from_andthen)
  show "service_run V s (snd (attempt (AppendAtomic (eth V) (os V) record) s))"
    using run_append [OF assms(1,2)] assms(3,4) by (simp add: snd_attempt)
  fix appended u
  assume A: "attempt (AppendAtomic (eth V) (os V) record) s = (Inr appended, u)"
  show "service_run V u (snd ((case appended of
      Inl e \<Rightarrow> seq (if err_is e ErrJournalFull then ret () else set_heap (sv_storageFault_update (\<lambda>_. True))) (throw e)
    | Inr (record, baseVersion) \<Rightarrow>
        andthen (record_broadcast V tx (tx_hash tx) baseVersion) (\<lambda>(state, updated).
        seq (Remove (bq_ID q)) (latest_response record state updated))) u))"
  proof (cases appended)
    case (Inl e)
    show ?thesis unfolding Inl sum.case by (intro service_run.from_within eff_intros)
  next
    case (Inr x)
    obtain r' v where x: "x = (r', v)" by force
    with A Inr have "AppendAtomic (eth V) (os V) record s = (Inr (r', v), u)" by (simp add: ok_attempt)
    from AppendAtomic_appended [OF this] assms(3) have "r' \<in> set (forEachRecord (heap u))" "tx_hash tx = jr_Hash r'"
      by simp_all
    with Inr x show ?thesis
      by (auto intro!: run_answered eff_intros split: prod.split)
  qed
qed

lemma quote_work_records: "quote_work s t \<Longrightarrow> forEachRecord (heap t) = forEachRecord (heap s)"
  by (auto simp: quote_work_def forEachRecord_def)

lemma run_Send:
  assumes "eth_hex_laws (eth V)" and "signs_new V quoteID password s"
  shows "service_run V s (snd (Send V quoteID password s))"
proof -
  let ?send = "andthen (map_err SendRejectedError (send_prepare V quoteID password))
      (\<lambda>(q, signedTx, record). send_commit V q signedTx record)"
  have "service_run V s (snd (?send s))"
  proof (rule service_run.from_andthen)
    show "service_run V s (snd (map_err SendRejectedError (send_prepare V quoteID password) s))"
      by (intro service_run.from_within eff_intros private_within quote_work_private)
    fix x u
    assume "map_err SendRejectedError (send_prepare V quoteID password) s = (Inr x, u)"
    moreover obtain q tx r where x: "x = (q, tx, r)" by (cases x)
    ultimately have p: "send_prepare V quoteID password s = (Inr (q, tx, r), u)" by (simp add: ok_map_err)
    from withinD [OF quote_work_send_prepare p] have "forEachRecord (heap u) = forEachRecord (heap s)"
      by (rule quote_work_records)
    with assms(2) p have "tx_hash tx \<notin> jr_Hash ` set (forEachRecord (heap u))" by (simp add: signs_new_def)
    moreover from send_prepare_ok [OF p] have "jr_Hash r = tx_hash tx" "jr_To r = AddressHex (eth V) (bq_To q)"
      by (auto simp: new_record_def)
    ultimately have "service_run V u (snd (send_commit V q tx r u))"
      by (intro run_send_commit [OF assms(1)]) simp_all
    with x show "service_run V u (snd ((case x of (q, signedTx, record) \<Rightarrow> send_commit V q signedTx record) u))"
      by simp
  qed
  then show ?thesis
    unfolding Send_def step_get_heap run_fail_if
    by (auto simp: step_get_heap run_ret split: option.split)
qed

section \<open>The operations of the service\<close>

text \<open>
  What can happen to a service: any operation with any outcome, and a restart of the process on
  the same directory.
\<close>

inductive service_op ::
    "('k, 'w) env \<Rightarrow> ('w, jfile, 'h service_scheme) sys \<Rightarrow> ('w, jfile, 'h service_scheme) sys \<Rightarrow> bool"
  for V :: "('k, 'w) env"
  where
    quote: "ServiceQuote V req s = (res, t) \<Longrightarrow> service_op V s t"
  | send: "signs_new V quoteID password s \<Longrightarrow> Send V quoteID password s = (res, t) \<Longrightarrow> service_op V s t"
  | retry: "Retry V hash s = (res, t) \<Longrightarrow> service_op V s t"
  | history: "History V s = (res, t) \<Longrightarrow> service_op V s t"
  | set_vault: "SetVaultAddress V address s = (res, t) \<Longrightarrow> service_op V s t"
  | set_escrow: "SetEscrow V address token s = (res, t) \<Longrightarrow> service_op V s t"
  | restart: "jm_chainID (heap s) = ca_ChainID (api V) \<Longrightarrow> NewService V s = (Inr (), t) \<Longrightarrow> service_op V s t"
  | close: "Close V s = (res, t) \<Longrightarrow> service_op V s t"

lemma run_fixed_journal [eff_intros]:
  "within (service_run V) (set_heap (sv_vaultAddress_update f))"
  "within (service_run V) (set_heap (sv_lockFile_update g))"
  "within (service_run V) (set_heap (\<lambda>h. h\<lparr>sv_escrowAddress := a, sv_escrowToken := b\<rparr>))"
  "within (service_run V) (set_heap (\<lambda>h. h\<lparr>qs_quotes := qs, sv_historyOffset := n, sv_csrfToken := c,
     sv_vaultAddress := a, sv_escrowAddress := b, sv_escrowToken := d, sv_storageFault := e, sv_lockFile := l\<rparr>))"
  by (intro private_within private_set_heap; simp add: same_journal_def)+

lemma run_settings [eff_intros]:
  "within (service_run V) (ServiceQuote V req)" "within (service_run V) (SetVaultAddress V address)"
  "within (service_run V) (SetEscrow V address token)" "within (service_run V) (Close V)"
  unfolding ServiceQuote_def SetVaultAddress_def SetEscrow_def Close_def
  by (intro eff_intros run_asks [OF asks_on_world])+

lemma asks_private_run: "asks s t \<Longrightarrow> private_work s t"
  by (auto simp: asks_def private_work_def same_journal_def)

lemma run_NewService:
  assumes "NewService V s = (Inr u, t)" and "jm_chainID (heap s) = ca_ChainID (api V)"
  shows "service_run V s t"
proof -
  from assms(1) show ?thesis
    unfolding NewService_def ok_seq ok_map_err
  proof (elim exE conjE)
    fix x1 s1 x2 s2 x3 s3 x4 s4 x5 s5
    assume o: "on_world (SysCall (os V) ''mkdir'') s = (Inr x1, s1)"
      "on_world (SysCall (os V) ''chmod'') s1 = (Inr x2, s2)"
      "on_world (SysCall (os V) ''openlock'') s2 = (Inr x3, s3)"
      "on_world (SysCall (os V) ''flock'') s3 = (Inr x4, s4)"
      and j: "NewJournalManager (eth V) (os V) [ca_ChainID (api V)] s4 = (Inr x5, s5)"
      and r: "andthen (ask (RandRead (os V) 32)) (\<lambda>csrfBytes.
         set_heap (\<lambda>h. h\<lparr>qs_quotes := NewQuoteStore, sv_historyOffset := 0, sv_csrfToken := hex_encode csrfBytes,
           sv_vaultAddress := [], sv_escrowAddress := [], sv_escrowToken := [], sv_storageFault := False,
           sv_lockFile := True\<rparr>)) s5 = (Inr u, t)"
    from o [THEN withinD [OF asks_on_world]] have a: "asks s s4" by (auto simp: asks_def)
    then have "service_run V s s4" by (intro private_run asks_private_run)
    moreover have "jm_chainID (heap s4) = ca_ChainID (api V)" using a assms(2) by (simp add: asks_def)
    with j have "service_run V s4 s5" by (intro journal_run journal_step.restart) simp
    moreover from r have "service_run V s5 t"
      by (elim withinD [where R = "service_run V", rotated]) (intro eff_intros)
    ultimately show ?thesis by simp
  qed
qed

lemma service_op_run:
  assumes "eth_hex_laws (eth V)" and "service_op V s t"
  shows "service_run V s t"
  using assms(2)
proof cases
  case (send quoteID password res)
  from run_Send [OF assms(1) this(1)] send(2) show ?thesis by simp
next
  case restart
  from run_NewService [OF restart(2,1)] show ?thesis .
qed (auto dest: run_settings [THEN withinD] run_Retry [THEN withinD] run_History [THEN withinD])

lemma service_ops_run:
  assumes "eth_hex_laws (eth V)" and "(service_op V)\<^sup>*\<^sup>* s t"
  shows "service_run V s t"
  using assms(2) by (induction rule: rtranclp_induct) (auto dest: service_op_run [OF assms(1)])

section \<open>What holds along every run\<close>

text \<open>
  C4: the operations of the service on its journal and its settings, as \<open>service_op\<close> lists them
  (quoting, sending, broadcasting again, the history, the settings of vault and escrow, restart and
  close), are each, with any outcome, a sequence of small steps: operations of the journal, each of
  which keeps it durable, broadcasts of transactions the journal has a record of, and work in
  memory.  Sending is included for transactions whose hash the journal does not have yet.  The
  scanner, the activity index, the accounts and the keys write other files and are other relations.
\<close>

theorem service_op_refines:
  assumes "eth_hex_laws (eth V)" and "service_op V s t"
  shows "service_run V s t"
  by (rule service_op_run [OF assms])

text \<open>
  C2: whatever operations run, with whatever failures and restarts, no transaction reaches the
  network before a record of it, with its signed bytes, is in a file of the wallet's directory:
  the files change only by the writes of the trace, and at each broadcast in the trace the
  files hold a record of the hash that is sent.
\<close>

theorem broadcast_after_persist:
  assumes "eth_hash_laws (eth V)" and "eth_hex_laws (eth V)" and "durable (eth V) s"
    and "(service_op V)\<^sup>*\<^sup>* s t"
  shows "persisted_first s t"
  by (rule service_run_persisted [OF assms(1,3) service_ops_run [OF assms(2,4)]])

text \<open>
  C1: whatever operations run, with whatever failures and restarts, the service never loses a
  transaction: every record of an earlier journal is in every later one with the same hash,
  quote, nonce, amounts and signed bytes, and the directory can rebuild the memory.
\<close>

theorem service_never_loses:
  assumes "eth_hash_laws (eth V)" and "eth_hex_laws (eth V)" and "durable (eth V) s"
    and "(service_op V)\<^sup>*\<^sup>* s t"
  shows "durable (eth V) t \<and> remembers (heap s) (heap t)"
  by (rule service_run_durable [OF assms(1,3) service_ops_run [OF assms(2,4)]])

end
