(* ===== verification/ReplacementFacts.thy ===== *)
theory ReplacementFacts
  imports SendFacts
begin

text \<open>
  What a quote of the service promises before it is shown: a replacement outbids every
  transaction of its nonce by a fifth and either repeats the signed call or cancels it, and every
  quote that is shown is stored, affordable and, unless it replaces one, for a wallet without a
  transaction in flight.
\<close>

section \<open>Outbidding\<close>

lemma bump_ceiling: "120 * x \<le> 100 * bump x"
  unfolding bump_def by presburger

lemma bump_more: "0 < x \<Longrightarrow> x < bump x"
  using bump_ceiling [of x] by simp

definition prior_tx :: "('k, 'm) ethlib_scheme \<Rightarrow> JournalRecord \<Rightarrow> eth_tx option" where
  "prior_tx E r = Option.bind (HexutilDecode E (jr_SignedRaw r)) (TxUnmarshal E)"

definition outbids :: "('k, 'm) ethlib_scheme \<Rightarrow> JournalRecord \<Rightarrow> int \<Rightarrow> int \<Rightarrow> bool" where
  "outbids E r tip fee \<longleftrightarrow>
     (\<exists>p. prior_tx E r = Some p \<and> 120 * tx_tip p \<le> 100 * tip \<and> 120 * tx_fee p \<le> 100 * fee \<and>
        (0 \<le> tx_tip p \<longrightarrow> tx_tip p < tip) \<and> (0 < tx_fee p \<longrightarrow> tx_fee p < fee))"

lemma outbids_mono: "outbids E r tip fee \<Longrightarrow> tip \<le> tip' \<Longrightarrow> fee \<le> fee' \<Longrightarrow> outbids E r tip' fee'"
  unfolding outbids_def by force

lemma outbid_ok:
  "outbid E items (tip, fee) = Inr (tip', fee') \<Longrightarrow>
     tip \<le> tip' \<and> fee \<le> fee' \<and> (\<forall>r\<in>set items. outbids E r tip' fee')"
proof (induction items arbitrary: tip fee)
  case Nil
  then show ?case by simp
next
  case (Cons item items)
  from Cons.prems obtain p where p: "prior_tx E item = Some p"
    and rest: "outbid E items (max tip (if bump (tx_tip p) = 0 then 1 else bump (tx_tip p)), max fee (bump (tx_fee p))) = Inr (tip', fee')"
    by (auto simp: prior_tx_def Let_def split: option.splits)
  from Cons.IH [OF rest] have le: "max tip (if bump (tx_tip p) = 0 then 1 else bump (tx_tip p)) \<le> tip'"
    "max fee (bump (tx_fee p)) \<le> fee'" and all: "\<forall>r\<in>set items. outbids E r tip' fee'"
    by blast+
  have "outbids E item tip' fee'"
    unfolding outbids_def
    using p le bump_ceiling [of "tx_tip p"] bump_ceiling [of "tx_fee p"] bump_more [of "tx_tip p"] bump_more [of "tx_fee p"]
    by (intro exI [of _ p]) (auto split: if_splits)
  with le all show ?case by auto
qed

section \<open>Replacements\<close>

text \<open>
  \<open>replaces V h c q r tx\<close>: quote \<open>q\<close> replaces transaction \<open>tx\<close> of record \<open>r\<close>, the one command \<open>c\<close> names.
\<close>

definition replaces ::
    "('k, 'w) env \<Rightarrow> 'h journal_scheme \<Rightarrow> QuoteCommand \<Rightarrow> BoundQuote \<Rightarrow> JournalRecord \<Rightarrow> eth_tx \<Rightarrow> bool" where
  "replaces V h c q r tx \<longleftrightarrow>
     FindByHash h (qc_Hash c) = Some r \<and> \<not> NonceMined h (jr_Nonce r) \<and>
     prior_tx (eth V) r = Some tx \<and> tx_hash tx = jr_Hash r \<and> tx_chain tx = ca_ChainID (api V) \<and>
     TxSender (eth V) tx = Some (bq_From q) \<and> bq_Nonce q = tx_nonce tx \<and> bq_ReplacementHash q = jr_Hash r \<and>
     bq_ReplacementCount q = length (NonceRecords h (tx_nonce tx)) \<and> bq_Action q = qc_Action c \<and>
     (\<forall>p\<in>set (NonceRecords h (tx_nonce tx)). outbids (eth V) p (bq_MaxPriorityFeePerGas q) (bq_MaxFeePerGas q)) \<and>
     (if qc_Action c = ActionCancel
      then bq_TxTo q = bq_From q \<and> bq_TxValue q = 0 \<and> bq_Data q = []
      else tx_to tx = Some (bq_TxTo q) \<and> bq_TxValue q = tx_value tx \<and> bq_Data q = tx_data tx)"

lemma replaced_source_ok:
  assumes "replaced_source V hash s = (Inr (r, tx, sender), t)"
  shows "asks s t" "\<exists>r0. FindByHash (heap s) hash = Some r0 \<and> \<not> NonceMined (heap s) (jr_Nonce r0) \<and>
    replaced_tx (eth V) (ca_ChainID (api V)) r0 = Inr tx \<and> restoreEscrowJournal (eth V) r0 tx = Inr r \<and>
    TxSender (eth V) tx = Some sender"
proof -
  have "within asks (replaced_source V hash)" unfolding replaced_source_def by (intro eff_intros)
  from withinD [OF this assms] show "asks s t" .
  show "\<exists>r0. FindByHash (heap s) hash = Some r0 \<and> \<not> NonceMined (heap s) (jr_Nonce r0) \<and>
    replaced_tx (eth V) (ca_ChainID (api V)) r0 = Inr tx \<and> restoreEscrowJournal (eth V) r0 tx = Inr r \<and>
    TxSender (eth V) tx = Some sender"
    using assms unfolding replaced_source_def Let_def ok_simps get_heap_def by (auto elim: throw_not_ok)
qed

lemma replaced_tx_ok:
  "replaced_tx E c r = Inr tx \<Longrightarrow>
     prior_tx E r = Some tx \<and> tx_hash tx = jr_Hash r \<and> tx_chain tx = c \<and> tx_nonce tx = jr_Nonce r \<and> tx_to tx \<noteq> None"
  by (auto simp: replaced_tx_def prior_tx_def split: option.splits if_splits)

lemma restore_hash: "restoreEscrowJournal E r tx = Inr r' \<Longrightarrow> jr_Hash r' = jr_Hash r"
  by (auto simp: restoreEscrowJournal_def Let_def ebind_eq_Inr split: option.splits if_splits)

lemma replacement_parts_ok:
  assumes "replacement_parts V action sender r tx s = (Inr p, t)" and "tx_to tx \<noteq> None"
  shows "if action = ActionCancel then rp_to p = sender \<and> rp_value p = 0 \<and> rp_data p = []
    else tx_to tx = Some (rp_to p) \<and> rp_value p = tx_value tx \<and> rp_data p = tx_data tx"
proof -
  have speed: "rp_to p' = rp_to p0 \<and> rp_value p' = rp_value p0 \<and> rp_data p' = rp_data p0"
    if "speedup_parts V sender r tx p0 u = (Inr p', t')" for p0 p' u t'
    using that by (auto simp: speedup_parts_def ok_simps split: if_splits sum.splits)
  show ?thesis
    using assms by (auto simp: replacement_parts_def ok_simps Let_def dest!: speed split: option.splits if_splits)
qed

lemma ask_result: "ask f s = (Inr x, t) \<Longrightarrow> said f x \<and> heap t = heap s"
  using ask_said [of f s x t] withinD [OF asks_ask, of f s "Inr x" t] by (simp add: asks_def)

lemma source_result:
  assumes "replaced_source V hash s = (Inr (r, tx, sender), t)"
  shows "heap t = heap s \<and> tx_to tx \<noteq> None \<and> (\<exists>r0. FindByHash (heap s) hash = Some r0 \<and> \<not> NonceMined (heap s) (jr_Nonce r0) \<and>
    prior_tx (eth V) r0 = Some tx \<and> tx_hash tx = jr_Hash r0 \<and> tx_chain tx = ca_ChainID (api V) \<and> jr_Hash r = jr_Hash r0) \<and>
    TxSender (eth V) tx = Some sender"
  using replaced_source_ok [OF assms] replaced_tx_ok [of "eth V" "ca_ChainID (api V)" _ tx] restore_hash [of "eth V" _ tx r]
  unfolding asks_def by metis

lemma parts_result:
  assumes "replacement_parts V action sender r tx s = (Inr p, t)"
  shows "heap t = heap s \<and> (tx_to tx \<noteq> None \<longrightarrow> (if action = ActionCancel then rp_to p = sender \<and> rp_value p = 0 \<and> rp_data p = []
    else tx_to tx = Some (rp_to p) \<and> rp_value p = tx_value tx \<and> rp_data p = tx_data tx))"
proof -
  have "within asks (prepareEscrowSpeedup V sender r tx)" unfolding prepareEscrowSpeedup_def by (intro eff_intros)
  then have "within asks (replacement_parts V action sender r tx)"
    unfolding replacement_parts_def speedup_parts_def by (intro eff_intros)
  from withinD [OF this assms] replacement_parts_ok [OF assms] show ?thesis by (simp add: asks_def)
qed

lemma replacementQuote_ok:
  assumes "replacementQuote V c s = (Inr q, t)"
  shows "(\<exists>r tx. replaces V (heap s) c q r tx) \<and>
    (\<exists>balance. said (ca_BalanceAt (api V) (bq_From q) None) balance \<and> bq_TotalETHWei q \<le> balance) \<and>
    bq_TotalETHWei q = bq_TxValue q + int (unat (bq_GasLimit q)) * bq_MaxFeePerGas q"
  using assms unfolding replacementQuote_def Let_def ok_simps get_heap_def
  apply (elim exE conjE disjE throw_not_ok)
  apply hypsubst
  apply (drule source_result)
  apply (drule ask_result)+
  apply (drule parts_result)
  apply (clarsimp dest!: outbid_ok simp: not_less split del: if_split)
  subgoal for u a aa ba xa ua xb ub xc xd ue ab bb xg uf xh ug xi uh xj ui xl uk xm y r0
    by (rule conjI, rule exI [of _ r0], rule exI [of _ aa])
       (auto simp: replaces_def intro: outbids_mono split: if_splits)
  done


text \<open>
  The margin on the gas of a replacement is added without the check that \<open>CreateQuote\<close> makes: an
  estimate above five sixths of the range of uint64 wraps around, below the 21000 of any call.
\<close>

lemma replacement_gas_exact:
  assumes "est \<le> - 1 div 6 * 5"
  shows "unat (replacement_gas est limit) = min (unat est + unat est div 5) (unat limit)"
  using gas_no_wrap [OF assms] by (auto simp: replacement_gas_def Let_def word_less_nat_alt min_def)

lemma replacement_gas_wraps: "replacement_gas 15372286728091293014 (- 1) = 0"
  by (simp add: replacement_gas_def)

section \<open>Quotes that are shown\<close>

lemma rollupFee_affordable:
  assumes "rollupFee V q True s = (Inr q', t)"
    and "\<exists>balance. said (ca_BalanceAt (api V) (bq_From q) None) balance \<and> bq_TotalETHWei q \<le> balance"
  shows "bq_From q' = bq_From q \<and> bq_Nonce q' = bq_Nonce q \<and> bq_Action q' = bq_Action q \<and>
    (\<exists>balance. said (ca_BalanceAt (api V) (bq_From q') None) balance \<and> bq_TotalETHWei q' \<le> balance)"
proof (cases "is_op_stack (ca_ChainID (api V))")
  case False
  with assms show ?thesis by (simp add: rollupFee_def ok_simps)
next
  case True
  with assms(1) show ?thesis
    by (clarsimp simp: rollupFee_def ok_simps not_less Let_def dest!: ask_said) blast
qed

lemma CreateQuote_affordable:
  assumes "CreateQuote V sender c s = (Inr q, t)"
  shows "bq_From q = sender \<and> bq_Action q = qc_Action c \<and>
    (\<exists>balance. said (ca_BalanceAt (api V) sender None) balance \<and> bq_TotalETHWei q \<le> balance)"
  using assms unfolding CreateQuote_def Let_def ok_simps
  by (clarsimp dest!: quote_fees_ok simp: not_less) blast

lemma bound_command_action: "bound_command V h c = Inr c' \<Longrightarrow> qc_Action c' = qc_Action c"
  by (auto simp: bound_command_def Let_def split: if_splits)

lemma new_quote_ok:
  assumes "new_quote V c s = (Inr q, t)"
  shows "settled_before V (heap s) q \<and> bq_Action q = qc_Action c \<and>
    (\<exists>address. said (ka_Address (keys V)) address \<and> bq_From q = HexToAddress (eth V) address) \<and>
    (\<exists>balance. said (ca_BalanceAt (api V) (bq_From q) None) balance \<and> bq_TotalETHWei q \<le> balance)"
proof -
  from assms obtain c' finalized address q0 s1 s2 s3 where
    c: "bound_command V (heap s) c = Inr c'" and f: "checkInFlight V s = (Inr finalized, s1)" and
    a: "Address V s1 = (Inr address, s2)" and
    q0: "CreateQuote V (HexToAddress (eth V) address) c' s2 = (Inr q0, s3)" and
    n: "\<not> (case finalized of None \<Rightarrow> False | Some f \<Rightarrow> bq_Nonce q0 < fn_nonce f)" and
    q: "q = (if qc_Action c' = ActionETH then q0\<lparr>bq_Symbol := NativeSymbol (ca_ChainID (api V))\<rparr> else q0)"
    unfolding new_quote_def ok_simps get_heap_def by auto
  have same: "bq_Nonce q = bq_Nonce q0" "bq_From q = bq_From q0" "bq_Action q = bq_Action q0" "bq_TotalETHWei q = bq_TotalETHWei q0"
    using q by simp_all
  from checkInFlight_ok [OF f n] have "settled_before V (heap s) q"
    unfolding settled_before_def same .
  moreover from a have "said (ka_Address (keys V)) address" unfolding Address_def by (rule ask_said)
  ultimately show ?thesis
    using CreateQuote_affordable [OF q0] bound_command_action [OF c] same by auto
qed

lemma Add_stored:
  assumes "Add V (Some q) s = (Inr u, t)"
  shows "map_of (quotes_of t) (bq_ID q) = Some q \<and> opaqueIDPattern (bq_ID q)"
  using Add_ok [of V q s t] assms by (simp add: update_conv')

text \<open>
  The quote that is shown to the user is the one that is stored and can be sent: it has a
  well-formed identifier, the total (with any rollup fee that was added) is within the balance
  the chain reports, and unless it replaces a transaction it is for the wallet's own address
  with nothing in flight.  Quoting changes the store of quotes and nothing else.
\<close>

theorem ServiceQuoteCommand_stored:
  assumes "ServiceQuoteCommand V c s = (Inr resp, t)"
  shows "\<exists>q. resp = ToResponse (eth V) q \<and> map_of (quotes_of t) (bq_ID q) = Some q \<and> opaqueIDPattern (bq_ID q) \<and>
    bq_Action q = qc_Action c \<and> \<not> sv_storageFault (heap s) \<and> quote_work s t \<and>
    (\<exists>balance. said (ca_BalanceAt (api V) (bq_From q) None) balance \<and> bq_TotalETHWei q \<le> balance) \<and>
    (qc_Action c \<noteq> ActionSpeedup \<and> qc_Action c \<noteq> ActionCancel \<longrightarrow>
       settled_before V (heap s) q \<and>
       (\<exists>address. said (ka_Address (keys V)) address \<and> bq_From q = HexToAddress (eth V) address))"
proof -
  let ?replace = "qc_Action c = ActionSpeedup \<or> qc_Action c = ActionCancel"
  from assms obtain u s1 q0 s2 q s3 v where
    ok: "\<not> sv_storageFault (heap s)" and e: "Exists V s = (Inr u, s1)" and
    q0: "(if ?replace then replacementQuote V c else new_quote V c) s1 = (Inr q0, s2)" and
    r: "rollupFee V q0 True s2 = (Inr q, s3)" and a: "Add V (Some q) s3 = (Inr v, t)" and
    resp: "resp = ToResponse (eth V) q"
    unfolding ServiceQuoteCommand_def ok_simps get_heap_def by auto
  from withinD [OF asks_service(2) e] have heap: "heap s1 = heap s" by (simp add: asks_def)
  have q0_ok: "(\<exists>balance. said (ca_BalanceAt (api V) (bq_From q0) None) balance \<and> bq_TotalETHWei q0 \<le> balance) \<and>
      bq_Action q0 = qc_Action c \<and> (\<not> ?replace \<longrightarrow> settled_before V (heap s) q0 \<and>
        (\<exists>address. said (ka_Address (keys V)) address \<and> bq_From q0 = HexToAddress (eth V) address))"
  proof (cases ?replace)
    case True
    with q0 have "replacementQuote V c s1 = (Inr q0, s2)" by simp
    from replacementQuote_ok [OF this] True show ?thesis by (auto simp: replaces_def)
  next
    case False
    with q0 have "new_quote V c s1 = (Inr q0, s2)" by simp
    from new_quote_ok [OF this] False heap show ?thesis by simp
  qed
  from rollupFee_affordable [OF r] q0_ok have same: "bq_From q = bq_From q0" "bq_Nonce q = bq_Nonce q0" "bq_Action q = bq_Action q0"
    and b: "\<exists>balance. said (ca_BalanceAt (api V) (bq_From q) None) balance \<and> bq_TotalETHWei q \<le> balance" by blast+
  have "settled_before V (heap s) q = settled_before V (heap s) q0" by (simp only: settled_before_def same)
  with q0_ok same b Add_stored [OF a] resp ok withinD [OF quote_work_ServiceQuoteCommand assms]
  show ?thesis by (intro exI [of _ q]) simp
qed

end
