(* ===== verification/SendChecks.thy ===== *)
theory SendChecks
  imports SendFacts
begin

text \<open>
  What the chain confirms before a transaction is signed.  The checks of Send are stated over the
  run itself: \<open>answered V s t m x\<close> says that the question \<open>m\<close> was put between \<open>s\<close> and \<open>t\<close>, where
  the world had come by questions only, and that \<open>x\<close> was the answer.  One predicate per check
  of service.go says what that answer must have been for the quote.
\<close>

section \<open>Questions\<close>

text \<open>How the world changes while a service only asks the clock, the keys and the chain.\<close>

inductive questions :: "('k, 'w) env \<Rightarrow> 'w \<Rightarrow> 'w \<Rightarrow> bool" for V :: "('k, 'w) env" and w :: 'w where
  start: "questions V w w"
| clock: "questions V w w' \<Longrightarrow> questions V w (snd (TimeNow (os V) w'))"
| ctx: "questions V w w' \<Longrightarrow> questions V w (snd (CtxErr (os V) w'))"
| address: "questions V w w' \<Longrightarrow> questions V w (snd (ka_Address (keys V) w'))"
| key: "questions V w w' \<Longrightarrow> questions V w (snd (ka_DecryptKey (keys V) password w'))"
| network: "questions V w w' \<Longrightarrow> questions V w (snd (ca_CheckNetwork (api V) w'))"
| header: "questions V w w' \<Longrightarrow> questions V w (snd (ca_HeaderByNumber (api V) n w'))"
| estimate: "questions V w w' \<Longrightarrow> questions V w (snd (ca_EstimateGas (api V) m w'))"
| call: "questions V w w' \<Longrightarrow> questions V w (snd (ca_CallContract (api V) m b w'))"
| code: "questions V w w' \<Longrightarrow> questions V w (snd (ca_CodeAt (api V) a b w'))"
| pending: "questions V w w' \<Longrightarrow> questions V w (snd (ca_PendingNonceAt (api V) a w'))"
| balance: "questions V w w' \<Longrightarrow> questions V w (snd (ca_BalanceAt (api V) a b w'))"
| nonce: "questions V w w' \<Longrightarrow> questions V w (snd (ca_NonceAt (api V) a w'))"
| finalized: "questions V w w' \<Longrightarrow> questions V w (snd (ca_FinalizedNonceAt (api V) a w'))"
| rollup: "questions V w w' \<Longrightarrow> questions V w (snd (ca_RollupFee (api V) tx w'))"

lemma questions_trans: "questions V w w' \<Longrightarrow> questions V w' w'' \<Longrightarrow> questions V w w''"
  by (rotate_tac, induction rule: questions.induct) (auto intro: questions.intros)

text \<open>Nothing is written or sent, and the world moves by questions.\<close>

definition inquires :: "('k, 'w) env \<Rightarrow> ('w, 'f, 'h) sys \<Rightarrow> ('w, 'f, 'h) sys \<Rightarrow> bool" where
  "inquires V s t \<longleftrightarrow> files t = files s \<and> trace t = trace s \<and> questions V (world s) (world t)"

lemma inquires_refl: "inquires V s s"
  by (simp add: inquires_def questions.start)

interpretation inquires: effect "inquires V :: ('w, 'f, 'h) sys \<Rightarrow> _" for V :: "('k, 'w) env"
  by unfold_locales (auto simp: inquires_def questions.start intro: questions_trans)

lemma inquires_ask: "(\<And>w. questions V w (snd (f w))) \<Longrightarrow> within (inquires V) (ask f)"
  by (auto simp: within_def inquires_def ask_def on_world_def split: prod.split) (metis snd_conv)

lemma inquires_asked [eff_intros]:
  "within (inquires V) (ask (ka_Address (keys V)))" "within (inquires V) (ask (ka_DecryptKey (keys V) password))"
  "within (inquires V) (ask (ca_CheckNetwork (api V)))" "within (inquires V) (ask (ca_HeaderByNumber (api V) n))"
  "within (inquires V) (ask (ca_EstimateGas (api V) m))" "within (inquires V) (ask (ca_CallContract (api V) m b))"
  "within (inquires V) (ask (ca_CodeAt (api V) a b))" "within (inquires V) (ask (ca_PendingNonceAt (api V) a))"
  "within (inquires V) (ask (ca_BalanceAt (api V) a b))" "within (inquires V) (ask (ca_NonceAt (api V) a))"
  "within (inquires V) (ask (ca_FinalizedNonceAt (api V) a))" "within (inquires V) (ask (ca_RollupFee (api V) tx))"
  by (rule inquires_ask, rule questions.intros, rule questions.start)+

lemma inquires_clock [eff_intros]: "within (inquires V) (now (os V))" "within (inquires V) (ctx_err (os V))"
  by (auto simp: within_def inquires_def now_def ctx_err_def on_world_def split: prod.split)
    (metis questions.clock questions.ctx questions.start snd_conv)+

lemma inquires_heap [eff_intros]: "within (inquires V) (get_heap f)" "within (inquires V) (set_heap g)"
  by (simp_all add: within_def inquires_def run_simps questions.start)

lemma inquires_contracts [eff_intros]:
  "within (inquires V) (VerifyContractBytecode V c)" "within (inquires V) (QueryERC20Metadata V c)"
  "within (inquires V) (QueryERC20Allowance V c a b)" "within (inquires V) (QueryERC20BalanceOf V c a)"
  "within (inquires V) (SimulateERC20Call V from to data)" "within (inquires V) (QueryVaultBalanceOf V c a)"
  "within (inquires V) (SimulateVaultCall V from to value data)"
  "within (inquires V) (simulateExchange V from to value data action preview)"
  unfolding VerifyContractBytecode_def QueryERC20Metadata_def QueryERC20Allowance_def QueryERC20BalanceOf_def
    SimulateERC20Call_def QueryVaultBalanceOf_def SimulateVaultCall_def simulateExchange_def
  by (intro inquires.eff_andthen inquires.eff_seq inquires.eff_lift inquires.eff_let inquires.eff_fail_if
      inquires.eff_map_err inquires_asked inquires.eff_ret inquires.eff_if inquires.eff_sum inquires.eff_throw
      inquires.eff_option inquires.eff_prod
    | (split list.split abi_value.split prod.split, safe))+

lemma inquires_escrow [eff_intros]:
  "within (inquires V) (verifyEscrow V c tok)" "within (inquires V) (simulateEscrow V from c data)"
  unfolding verifyEscrow_def simulateEscrow_def
  by (intro eff_intros)+

lemma inquires_checks [eff_intros]:
  "within (inquires V) (unexpired V q)" "within (inquires V) (not_done V)" "within (inquires V) (send_nonce V q)"
  "within (inquires V) (rollupFee V q bind)" "within (inquires V) (RecheckExchange V q)" "within (inquires V) (send_funds V q)"
  "within (inquires V) (send_escrow V q)" "within (inquires V) (send_action V q)" "within (inquires V) (send_token V q)"
  "within (inquires V) (send_gas V q)" "within (inquires V) (sign_quote V k q)" "within (inquires V) (Get V ident)"
  "within (inquires V) (finalizedNonceOf V)" "within (inquires V) (checkInFlight V)"
  unfolding unexpired_def not_done_def send_nonce_def rollupFee_def RecheckExchange_def send_funds_def send_escrow_def
    send_action_def send_token_def send_gas_def sign_quote_def Get_def checkInFlight_def finalizedNonceOf_def Address_def
  by (intro eff_intros)+

section \<open>Answers of a run\<close>

definition answered ::
    "('k, 'w) env \<Rightarrow> ('w, 'f, 'h) sys \<Rightarrow> ('w, 'f, 'h) sys \<Rightarrow> ('w, 'f, 'h, 'a) act \<Rightarrow> 'a \<Rightarrow> bool" where
  "answered V s t m x \<longleftrightarrow> (\<exists>u v. inquires V s u \<and> m u = (Inr x, v) \<and> inquires V v t)"

lemma answered_at: "m u = (Inr x, v) \<Longrightarrow> inquires V s u \<Longrightarrow> inquires V v t \<Longrightarrow> answered V s t m x"
  by (auto simp: answered_def)

lemma answered_whole:
  assumes "m s = (Inr x, t)"
  shows "answered V s t m x"
  unfolding answered_def using assms inquires_refl [of V s] inquires_refl [of V t] by auto

lemma answered_wide: "answered V u v m x \<Longrightarrow> inquires V s u \<Longrightarrow> inquires V v t \<Longrightarrow> answered V s t m x"
  unfolding answered_def by (meson inquires.trans_effect)
section \<open>The checks, as answers for the quote\<close>

definition nonce_confirmed ::
    "('k, 'w) env \<Rightarrow> 'h journal_scheme \<Rightarrow> BoundQuote \<Rightarrow> ('w, 'f, 'g) sys \<Rightarrow> ('w, 'f, 'g) sys \<Rightarrow> bool" where
  "nonce_confirmed V h q s t \<longleftrightarrow>
     (if bq_ReplacementHash q = []
      then answered V s t (ask (ca_PendingNonceAt (api V) (bq_From q))) (bq_Nonce q)
      else length (NonceRecords h (bq_Nonce q)) = bq_ReplacementCount q \<and> \<not> NonceMined h (bq_Nonce q) \<and>
        (\<exists>current. answered V s t (ask (ca_NonceAt (api V) (bq_From q))) current \<and> current \<le> bq_Nonce q))"

definition rollup_confirmed ::
    "('k, 'w) env \<Rightarrow> BoundQuote \<Rightarrow> ('w, 'f, 'g) sys \<Rightarrow> ('w, 'f, 'g) sys \<Rightarrow> bool" where
  "rollup_confirmed V q s t \<longleftrightarrow>
     (is_op_stack (ca_ChainID (api V)) \<longrightarrow>
      (\<exists>estimate limit. answered V s t (ask (ca_RollupFee (api V) (UnsignedTx (eth V) (dynamic_of (ca_ChainID (api V)) q)))) estimate \<and>
         bq_RollupFeeWei q = Some limit \<and> estimate \<le> limit))"

definition funds_confirmed ::
    "('k, 'w) env \<Rightarrow> BoundQuote \<Rightarrow> ('w, 'f, 'g) sys \<Rightarrow> ('w, 'f, 'g) sys \<Rightarrow> bool" where
  "funds_confirmed V q s t \<longleftrightarrow>
     (\<exists>balance. answered V s t (ask (ca_BalanceAt (api V) (bq_From q) None)) balance \<and> bq_TotalETHWei q \<le> balance) \<and>
     (\<exists>head base. answered V s t (ask (ca_HeaderByNumber (api V) None)) head \<and> hd_BaseFee head = Some base \<and>
        base \<le> bq_MaxFeePerGas q) \<and>
     (bq_Action q = ActionTransfer \<longrightarrow>
      (\<exists>tokens. answered V s t (QueryERC20BalanceOf V (bq_Contract q) (bq_From q)) tokens \<and> bq_AmountRaw q \<le> tokens)) \<and>
     (bq_Action q = ActionApprove \<longrightarrow>
      (\<exists>allowance. answered V s t (QueryERC20Allowance V (bq_Contract q) (bq_From q) (bq_To q)) allowance \<and>
         (allowance \<le> 0 \<or> bq_AmountRaw q \<le> 0)))"

definition escrow_confirmed ::
    "('k, 'w) env \<Rightarrow> 'h service_scheme \<Rightarrow> BoundQuote \<Rightarrow> ('w, 'f, 'g) sys \<Rightarrow> ('w, 'f, 'g) sys \<Rightarrow> bool" where
  "escrow_confirmed V h q s t \<longleftrightarrow>
     (isEscrowAction (bq_Action q) \<or> bq_Escrow q \<noteq> None \<longrightarrow>
      ca_ChainID (api V) = SepoliaID \<and> sv_escrowAddress h \<noteq> [] \<and>
      bq_Contract q = HexToAddress (eth V) (sv_escrowAddress h) \<and>
      (\<exists>e. bq_Escrow q = Some e \<and> isEscrowAction (es_Action e) \<and>
         (bq_Action q = ActionSpeedup \<or> bq_Action q = es_Action e) \<and> es_Token e = sv_escrowToken h) \<and>
      answered V s t (verifyEscrow V (bq_Contract q) (HexToAddress (eth V) (sv_escrowToken h))) () \<and>
      answered V s t (simulateEscrow V (bq_From q) (bq_TxTo q) (bq_Data q)) ())"

definition exchange_confirmed ::
    "('k, 'w) env \<Rightarrow> BoundQuote \<Rightarrow> ('w, 'f, 'g) sys \<Rightarrow> ('w, 'f, 'g) sys \<Rightarrow> bool" where
  "exchange_confirmed V q s t \<longleftrightarrow>
     (bq_Action q \<in> {ActionWrap, ActionUnwrap, ActionSwap} \<longrightarrow>
      bq_To q = bq_From q \<and>
      (bq_Action q \<noteq> ActionWrap \<longrightarrow>
       (\<exists>balance. answered V s t (QueryERC20BalanceOf V (bq_Contract q) (bq_From q)) balance \<and> bq_AmountRaw q \<le> balance)) \<and>
      (bq_Action q = ActionSwap \<longrightarrow>
       (\<exists>allowance. answered V s t (QueryERC20Allowance V (bq_Contract q) (bq_From q) (bq_TxTo q)) allowance \<and>
          bq_AmountRaw q \<le> allowance)) \<and>
      (\<exists>preview. bq_Exchange q = Some preview \<and>
         answered V s t (simulateExchange V (bq_From q) (bq_TxTo q) (bq_TxValue q) (bq_Data q)
           (action_text (bq_Action q)) preview) ()))"

definition vault_confirmed ::
    "('k, 'w) env \<Rightarrow> 'h service_scheme \<Rightarrow> BoundQuote \<Rightarrow> ('w, 'f, 'g) sys \<Rightarrow> ('w, 'f, 'g) sys \<Rightarrow> bool" where
  "vault_confirmed V h q s t \<longleftrightarrow>
     (bq_Action q \<in> {ActionVaultDeposit, ActionVaultWithdraw} \<longrightarrow>
      ca_ChainID (api V) = SepoliaID \<and> sv_vaultAddress h \<noteq> [] \<and> bq_Contract q = HexToAddress (eth V) (sv_vaultAddress h) \<and>
      answered V s t (VerifyContractBytecode V (bq_Contract q)) () \<and>
      (bq_Action q = ActionVaultWithdraw \<longrightarrow>
       (\<exists>balance. answered V s t (QueryVaultBalanceOf V (bq_Contract q) (bq_From q)) balance \<and> bq_AmountRaw q \<le> balance)) \<and>
      answered V s t (SimulateVaultCall V (bq_From q) (bq_TxTo q) (bq_TxValue q) (bq_Data q)) ())"

definition token_confirmed ::
    "('k, 'w) env \<Rightarrow> BoundQuote \<Rightarrow> ('w, 'f, 'g) sys \<Rightarrow> ('w, 'f, 'g) sys \<Rightarrow> bool" where
  "token_confirmed V q s t \<longleftrightarrow>
     (bq_Action q \<in> {ActionTransfer, ActionApprove} \<or> bq_ReplacementERC20 q \<longrightarrow>
      answered V s t (QueryERC20Metadata V (bq_Contract q)) (bq_Symbol q, bq_Decimals q) \<and>
      answered V s t (SimulateERC20Call V (bq_From q) (bq_TxTo q) (bq_Data q)) ())"

definition gas_confirmed ::
    "('k, 'w) env \<Rightarrow> BoundQuote \<Rightarrow> ('w, 'f, 'g) sys \<Rightarrow> ('w, 'f, 'g) sys \<Rightarrow> bool" where
  "gas_confirmed V q s t \<longleftrightarrow>
     (bq_ReplacementHash q \<noteq> [] \<or> isEscrowAction (bq_Action q) \<longrightarrow>
      (\<exists>gas. answered V s t (ask (ca_EstimateGas (api V)
           \<lparr> cm_From = bq_From q, cm_To = bq_TxTo q, cm_Value = Some (bq_TxValue q), cm_Data = bq_Data q,
             cm_GasFeeCap = Some (bq_MaxFeePerGas q), cm_GasTipCap = Some (bq_MaxPriorityFeePerGas q) \<rparr>)) gas \<and>
         gas \<le> bq_GasLimit q))"

text \<open>
  No transaction of journal \<open>h\<close> is in flight, given at most one finalized nonce that the chain
  has said in this run, and the nonce of the quote has not been used up by then.
\<close>

definition flight_confirmed ::
    "('k, 'w) env \<Rightarrow> 'h journal_scheme \<Rightarrow> BoundQuote \<Rightarrow> ('w, 'f, 'g) sys \<Rightarrow> ('w, 'f, 'g) sys \<Rightarrow> bool" where
  "flight_confirmed V h q s t \<longleftrightarrow>
     (bq_ReplacementHash q = [] \<longrightarrow>
      (\<exists>finalized. \<not> hasInFlightTx (eth V) h finalized \<and>
        (case finalized of
           None \<Rightarrow> True
         | Some f \<Rightarrow> answered V s t (ask (ca_FinalizedNonceAt (api V) (fn_account f))) (fn_nonce f) \<and> fn_nonce f \<le> bq_Nonce q)))"

lemmas confirmed_defs = nonce_confirmed_def rollup_confirmed_def funds_confirmed_def escrow_confirmed_def
  exchange_confirmed_def vault_confirmed_def token_confirmed_def gas_confirmed_def flight_confirmed_def

lemma confirmed_wide:
  assumes "inquires V s u" and "inquires V v t"
  shows "nonce_confirmed V h q u v \<Longrightarrow> nonce_confirmed V h q s t"
    and "rollup_confirmed V q u v \<Longrightarrow> rollup_confirmed V q s t"
    and "funds_confirmed V q u v \<Longrightarrow> funds_confirmed V q s t"
    and "escrow_confirmed V sh q u v \<Longrightarrow> escrow_confirmed V sh q s t"
    and "exchange_confirmed V q u v \<Longrightarrow> exchange_confirmed V q s t"
    and "vault_confirmed V sh q u v \<Longrightarrow> vault_confirmed V sh q s t"
    and "token_confirmed V q u v \<Longrightarrow> token_confirmed V q s t"
    and "gas_confirmed V q u v \<Longrightarrow> gas_confirmed V q s t"
    and "flight_confirmed V h q u v \<Longrightarrow> flight_confirmed V h q s t"
proof -
  note wide [intro] = answered_wide [OF _ assms]
  show "nonce_confirmed V h q u v \<Longrightarrow> nonce_confirmed V h q s t" unfolding nonce_confirmed_def by (auto split: if_splits)
  show "rollup_confirmed V q u v \<Longrightarrow> rollup_confirmed V q s t" unfolding rollup_confirmed_def by blast
  show "funds_confirmed V q u v \<Longrightarrow> funds_confirmed V q s t" unfolding funds_confirmed_def by blast
  show "escrow_confirmed V sh q u v \<Longrightarrow> escrow_confirmed V sh q s t" unfolding escrow_confirmed_def by blast
  show "exchange_confirmed V q u v \<Longrightarrow> exchange_confirmed V q s t" unfolding exchange_confirmed_def by blast
  show "vault_confirmed V sh q u v \<Longrightarrow> vault_confirmed V sh q s t" unfolding vault_confirmed_def by blast
  show "token_confirmed V q u v \<Longrightarrow> token_confirmed V q s t" unfolding token_confirmed_def by blast
  show "gas_confirmed V q u v \<Longrightarrow> gas_confirmed V q s t" unfolding gas_confirmed_def by blast
  show "flight_confirmed V h q u v \<Longrightarrow> flight_confirmed V h q s t"
    unfolding flight_confirmed_def by (auto split: option.splits) (metis option.distinct(1) option.inject wide)+
qed

section \<open>Each check confirms\<close>

lemma inquiresD: "within (inquires V) m \<Longrightarrow> m s = (r, t) \<Longrightarrow> inquires V s t"
  by (rule withinD)

lemma send_nonce_confirms:
  assumes "send_nonce V q s = (Inr u, t)"
  shows "nonce_confirmed V (heap s) q s t"
proof -
  from assms obtain r s1 where p: "ask (ca_PendingNonceAt (api V) (bq_From q)) s = (r, s1)"
    and rest: "(if bq_ReplacementHash q \<noteq> []
       then andthen (get_heap (\<lambda>h. length (NonceRecords h (bq_Nonce q)))) (\<lambda>count.
            fail_if (count \<noteq> bq_ReplacementCount q) ErrQuoteExpired
           (andthen (ask (ca_NonceAt (api V) (bq_From q))) (\<lambda>current.
            andthen (get_heap (\<lambda>h. NonceMined h (bq_Nonce q))) (\<lambda>mined.
            fail_if (bq_Nonce q < current \<or> mined) ErrNonceMismatch
           (ret ())))))
       else andthen (lift r) (\<lambda>current.
            fail_if (current \<noteq> bq_Nonce q) ErrNonceMismatch
           (ret ()))) s1 = (Inr u, t)"
    unfolding send_nonce_def ok_andthen ok_attempt by (elim exE conjE) (rule that)
  note pi = inquiresD [OF inquires_asked(8) p]
  have heap: "heap s1 = heap s" using withinD [OF asks_ask p] by (simp add: asks_def)
  show ?thesis
  proof (cases "bq_ReplacementHash q = []")
    case True
    with rest p have "ask (ca_PendingNonceAt (api V) (bq_From q)) s = (Inr (bq_Nonce q), t)"
      by (auto simp: ok_simps)
    then show ?thesis using True answered_whole by (auto simp: nonce_confirmed_def)
  next
    case False
    with rest obtain current where c: "length (NonceRecords (heap s) (bq_Nonce q)) = bq_ReplacementCount q"
      "ask (ca_NonceAt (api V) (bq_From q)) s1 = (Inr current, t)" "current \<le> bq_Nonce q" "\<not> NonceMined (heap t) (bq_Nonce q)"
      by (auto simp: ok_simps get_heap_def heap not_less)
    moreover from withinD [OF asks_ask c(2)] heap have "heap t = heap s" by (simp add: asks_def)
    moreover have "answered V s t (ask (ca_NonceAt (api V) (bq_From q))) current"
      by (rule answered_at, rule c(2), rule pi, rule inquires_refl)
    ultimately show ?thesis using False by (auto simp: nonce_confirmed_def)
  qed
qed

lemma rollupFee_confirms: "rollupFee V q False s = (Inr q', t) \<Longrightarrow> rollup_confirmed V q s t"
  by (auto simp: rollupFee_def rollup_confirmed_def ok_simps not_less split: option.splits)
    (blast intro: answered_whole)

lemma send_gas_confirms: "send_gas V q s = (Inr u, t) \<Longrightarrow> gas_confirmed V q s t"
  by (auto simp: send_gas_def gas_confirmed_def ok_simps not_less) (blast intro: answered_whole)+

lemma send_token_confirms:
  assumes "send_token V q s = (Inr u, t)"
  shows "token_confirmed V q s t"
  unfolding token_confirmed_def
proof
  assume "bq_Action q \<in> {ActionTransfer, ActionApprove} \<or> bq_ReplacementERC20 q"
  with assms obtain s1 where a: "QueryERC20Metadata V (bq_Contract q) s = (Inr (bq_Symbol q, bq_Decimals q), s1)"
    "SimulateERC20Call V (bq_From q) (bq_TxTo q) (bq_Data q) s1 = (Inr (), t)"
    by (auto simp: send_token_def ok_simps)
  have "inquires V s s1" "inquires V s1 t"
    using inquiresD [OF inquires_contracts(2) a(1)] inquiresD [OF inquires_contracts(5) a(2)] .
  then show "answered V s t (QueryERC20Metadata V (bq_Contract q)) (bq_Symbol q, bq_Decimals q) \<and>
      answered V s t (SimulateERC20Call V (bq_From q) (bq_TxTo q) (bq_Data q)) ()"
    using a by (auto intro: answered_at inquires_refl)
qed
lemma send_funds_confirms:
  assumes "send_funds V q s = (Inr u, t)"
  shows "funds_confirmed V q s t"
proof -
  let ?tokens = "if bq_Action q = ActionTransfer
      then andthen (QueryERC20BalanceOf V (bq_Contract q) (bq_From q)) (\<lambda>tokens.
           fail_if (tokens < bq_AmountRaw q) (ErrNew ''token balance too small'') (ret ()))
      else ret ()"
  let ?race = "if bq_Action q = ActionApprove
     then andthen (QueryERC20Allowance V (bq_Contract q) (bq_From q) (bq_To q)) (\<lambda>allowance.
          fail_if (0 < allowance \<and> 0 < bq_AmountRaw q) ErrApprovalRace (ret ()))
     else ret ()"
  from assms obtain balance head s1 s2 s3 u1 where
    a: "ask (ca_BalanceAt (api V) (bq_From q) None) s = (Inr balance, s1)" "\<not> balance < bq_TotalETHWei q" and
    b: "?tokens s1 = (Inr u1, s2)" and
    c: "ask (ca_HeaderByNumber (api V) None) s2 = (Inr head, s3)" "\<not> (case hd_BaseFee head of None \<Rightarrow> True | Some b \<Rightarrow> bq_MaxFeePerGas q < b)" and
    d: "?race s3 = (Inr u, t)"
    unfolding send_funds_def ok_andthen ok_seq ok_fail_if by (elim exE conjE) (rule that)
  have tokens: "within (inquires V) ?tokens" and race: "within (inquires V) ?race" by (intro eff_intros)+
  note i1 = inquiresD [OF inquires_asked(9) a(1)] and i2 = inquiresD [OF tokens b] and i3 = inquiresD [OF inquires_asked(4) c(1)]
    and i4 = inquiresD [OF race d]
  note i12 = inquires.trans_effect [OF i1 i2] and i34 = inquires.trans_effect [OF i3 i4]
  note i123 = inquires.trans_effect [OF i12 i3] and i234 = inquires.trans_effect [OF i2 i34]
  have "answered V s t (ask (ca_BalanceAt (api V) (bq_From q) None)) balance" by (rule answered_at, rule a(1), rule inquires_refl, rule i234)
  moreover have "answered V s t (ask (ca_HeaderByNumber (api V) None)) head" by (rule answered_at, rule c(1), rule i12, rule i4)
  moreover from c(2) obtain base where "hd_BaseFee head = Some base" "base \<le> bq_MaxFeePerGas q" by (auto split: option.splits)
  moreover have "\<exists>tokens. answered V s t (QueryERC20BalanceOf V (bq_Contract q) (bq_From q)) tokens \<and> bq_AmountRaw q \<le> tokens"
    if "bq_Action q = ActionTransfer"
  proof -
    from b that obtain n where n: "QueryERC20BalanceOf V (bq_Contract q) (bq_From q) s1 = (Inr n, s2)" "bq_AmountRaw q \<le> n"
      by (auto simp: ok_simps not_less)
    show ?thesis by (rule exI [of _ n], rule conjI, rule answered_at, rule n(1), rule i1, rule i34, rule n(2))
  qed
  moreover have "\<exists>allowance. answered V s t (QueryERC20Allowance V (bq_Contract q) (bq_From q) (bq_To q)) allowance \<and>
      (allowance \<le> 0 \<or> bq_AmountRaw q \<le> 0)"
    if "bq_Action q = ActionApprove"
  proof -
    from d that obtain n where n: "QueryERC20Allowance V (bq_Contract q) (bq_From q) (bq_To q) s3 = (Inr n, t)" "n \<le> 0 \<or> bq_AmountRaw q \<le> 0"
      by (auto simp: ok_simps not_less)
    show ?thesis by (rule exI [of _ n], rule conjI, rule answered_at, rule n(1), rule i123, rule inquires_refl, rule n(2))
  qed
  ultimately show ?thesis using a(2) unfolding funds_confirmed_def not_less by blast
qed

lemma send_escrow_confirms:
  assumes "send_escrow V q s = (Inr u, t)"
  shows "escrow_confirmed V (heap s) q s t"
proof (cases "isEscrowAction (bq_Action q) \<or> bq_Escrow q \<noteq> None")
  case False
  then show ?thesis by (simp add: escrow_confirmed_def)
next
  case True
  let ?token = "HexToAddress (eth V) (sv_escrowToken (heap s))"
  from assms True obtain s1 where c: "\<not> (ca_ChainID (api V) \<noteq> SepoliaID \<or> sv_escrowAddress (heap s) = [] \<or>
      (case bq_Escrow q of
         None \<Rightarrow> True
       | Some e \<Rightarrow> \<not> isEscrowAction (es_Action e) \<or> bq_Action q \<noteq> ActionSpeedup \<and> bq_Action q \<noteq> es_Action e \<or>
           bq_Contract q \<noteq> HexToAddress (eth V) (sv_escrowAddress (heap s)) \<or> es_Token e \<noteq> sv_escrowToken (heap s)))"
    and a: "verifyEscrow V (bq_Contract q) ?token s = (Inr (), s1)"
    and b: "simulateEscrow V (bq_From q) (bq_TxTo q) (bq_Data q) s1 = (Inr (), t)"
    unfolding send_escrow_def by (auto simp: ok_simps get_heap_def split: option.splits)
  have "answered V s t (verifyEscrow V (bq_Contract q) ?token) ()"
    by (rule answered_at, rule a, rule inquires_refl, rule inquiresD [OF inquires_escrow(2) b])
  moreover have "answered V s t (simulateEscrow V (bq_From q) (bq_TxTo q) (bq_Data q)) ()"
    by (rule answered_at, rule b, rule inquiresD [OF inquires_escrow(1) a], rule inquires_refl)
  ultimately show ?thesis using c unfolding escrow_confirmed_def by (auto split: option.splits)
qed

lemma RecheckExchange_confirms:
  assumes "RecheckExchange V q s = (Inr u, t)" and "bq_Action q \<in> {ActionWrap, ActionUnwrap, ActionSwap}"
  shows "exchange_confirmed V q s t"
proof -
  let ?balance = "if bq_Action q = ActionUnwrap \<or> bq_Action q = ActionSwap
    then andthen (QueryERC20BalanceOf V (bq_Contract q) (bq_From q)) (\<lambda>balance.
         fail_if (balance < bq_AmountRaw q) (ErrNew ''source balance too small'') (ret ()))
    else ret ()"
  let ?allowance = "if bq_Action q = ActionSwap
    then andthen (QueryERC20Allowance V (bq_Contract q) (bq_From q) (bq_TxTo q)) (\<lambda>allowance.
         fail_if (allowance < bq_AmountRaw q) (ErrNew ''allowance too small'') (ret ()))
    else ret ()"
  from assms(1) obtain preview s1 s2 u1 u2 where p: "bq_Exchange q = Some preview" "\<not> bq_To q \<noteq> bq_From q" and
    a: "?balance s = (Inr u1, s1)" and b: "?allowance s1 = (Inr u2, s2)" and
    c: "simulateExchange V (bq_From q) (bq_TxTo q) (bq_TxValue q) (bq_Data q) (action_text (bq_Action q)) preview s2 = (Inr u, t)"
    unfolding RecheckExchange_def ok_option ok_seq ok_fail_if
    apply (elim exE conjE disjE)
     apply (simp add: ok_leaf)
    apply (rule that)
    apply assumption+
    done
  have "within (inquires V) ?balance" "within (inquires V) ?allowance" by (intro eff_intros)+
  note i1 = inquiresD [OF this(1) a] and i2 = inquiresD [OF this(2) b] and i3 = inquiresD [OF inquires_contracts(8) c]
  note i12 = inquires.trans_effect [OF i1 i2] and i23 = inquires.trans_effect [OF i2 i3]
  have "\<exists>balance. answered V s t (QueryERC20BalanceOf V (bq_Contract q) (bq_From q)) balance \<and> bq_AmountRaw q \<le> balance"
    if "bq_Action q \<noteq> ActionWrap"
  proof -
    from a that assms(2) obtain n where n: "QueryERC20BalanceOf V (bq_Contract q) (bq_From q) s = (Inr n, s1)" "bq_AmountRaw q \<le> n"
      by (auto simp: ok_simps not_less)
    show ?thesis by (rule exI [of _ n], rule conjI, rule answered_at, rule n(1), rule inquires_refl, rule i23, rule n(2))
  qed
  moreover have "\<exists>allowance. answered V s t (QueryERC20Allowance V (bq_Contract q) (bq_From q) (bq_TxTo q)) allowance \<and>
      bq_AmountRaw q \<le> allowance" if "bq_Action q = ActionSwap"
  proof -
    from b that obtain n where n: "QueryERC20Allowance V (bq_Contract q) (bq_From q) (bq_TxTo q) s1 = (Inr n, s2)" "bq_AmountRaw q \<le> n"
      by (auto simp: ok_simps not_less)
    show ?thesis by (rule exI [of _ n], rule conjI, rule answered_at, rule n(1), rule i1, rule i3, rule n(2))
  qed
  moreover have "answered V s t (simulateExchange V (bq_From q) (bq_TxTo q) (bq_TxValue q) (bq_Data q)
      (action_text (bq_Action q)) preview) ()"
    by (rule answered_at [OF _ i12 inquires_refl]) (use c in simp)
  ultimately show ?thesis using p unfolding exchange_confirmed_def by blast
qed

lemma send_action_confirms:
  assumes "send_action V q s = (Inr u, t)"
  shows "exchange_confirmed V q s t \<and> vault_confirmed V (heap s) q s t"
proof (cases "bq_Action q \<in> {ActionWrap, ActionUnwrap, ActionSwap}")
  case True
  with assms have "RecheckExchange V q s = (Inr u, t)" by (auto simp: send_action_def Let_def)
  with RecheckExchange_confirms True show ?thesis by (auto simp: vault_confirmed_def)
next
  case False
  have "vault_confirmed V (heap s) q s t"
  proof (cases "bq_Action q \<in> {ActionVaultDeposit, ActionVaultWithdraw}")
    case v: True
    let ?balance = "if bq_Action q = ActionVaultWithdraw
      then andthen (QueryVaultBalanceOf V (bq_Contract q) (bq_From q)) (\<lambda>balance.
           fail_if (balance < bq_AmountRaw q) (ErrNew ''vault balance too small'') (ret ()))
      else ret ()"
    from assms v False obtain u1 u2 s1 s2 where
      c: "ca_ChainID (api V) = SepoliaID" "sv_vaultAddress (heap s) \<noteq> []" "bq_Contract q = HexToAddress (eth V) (sv_vaultAddress (heap s))" and
      a: "VerifyContractBytecode V (bq_Contract q) s = (Inr u1, s1)" and b: "?balance s1 = (Inr u2, s2)" and
      d: "SimulateVaultCall V (bq_From q) (bq_TxTo q) (bq_TxValue q) (bq_Data q) s2 = (Inr u, t)"
      by (auto simp: send_action_def Let_def ok_andthen ok_seq ok_fail_if get_heap_def ok_leaf)
    have "within (inquires V) ?balance" by (intro eff_intros)
    note i1 = inquiresD [OF inquires_contracts(1) a] and i2 = inquiresD [OF this b] and i3 = inquiresD [OF inquires_contracts(7) d]
    have "answered V s t (VerifyContractBytecode V (bq_Contract q)) ()"
      by (rule answered_at [OF _ inquires_refl inquires.trans_effect [OF i2 i3]]) (use a in simp)
    moreover have "\<exists>balance. answered V s t (QueryVaultBalanceOf V (bq_Contract q) (bq_From q)) balance \<and> bq_AmountRaw q \<le> balance"
      if "bq_Action q = ActionVaultWithdraw"
    proof -
      from b that obtain n where n: "QueryVaultBalanceOf V (bq_Contract q) (bq_From q) s1 = (Inr n, s2)" "bq_AmountRaw q \<le> n"
        by (auto simp: ok_simps not_less)
      show ?thesis by (rule exI [of _ n], rule conjI, rule answered_at, rule n(1), rule i1, rule i3, rule n(2))
    qed
    moreover have "answered V s t (SimulateVaultCall V (bq_From q) (bq_TxTo q) (bq_TxValue q) (bq_Data q)) ()"
      by (rule answered_at [OF _ inquires.trans_effect [OF i1 i2] inquires_refl]) (use d in simp)
    ultimately show ?thesis using c unfolding vault_confirmed_def by blast
  qed (simp add: vault_confirmed_def)
  then show ?thesis using False by (simp add: exchange_confirmed_def)
qed

lemma checkInFlight_confirms:
  assumes "checkInFlight V s = (Inr finalized, t)"
    and "\<not> (case finalized of None \<Rightarrow> False | Some f \<Rightarrow> bq_Nonce q < fn_nonce f)"
  shows "flight_confirmed V (heap s) q s t"
proof -
  have heap: "heap u = heap s" if "finalizedNonceOf V s = (Inr f, u)" for f u
    using withinD [OF asks_service(3) that] by (simp add: asks_def)
  have said: "answered V s u (ask (ca_FinalizedNonceAt (api V) (fn_account f))) (fn_nonce f)"
    if f: "finalizedNonceOf V s = (Inr (Some f), u)" for f u
  proof -
    from f obtain a s1 s2 u2 where a: "attempt (Address V) s = (Inr a, s1)"
      and n: "ask (ca_FinalizedNonceAt (api V) (fn_account f)) s1 = (Inr (fn_nonce f), s2)"
      and d: "ctx_err (os V) s2 = (Inr u2, u)"
      by (auto simp: finalizedNonceOf_def ok_simps Let_def split: if_splits)
    have "within (inquires V) (attempt (Address V))" unfolding Address_def by (intro eff_intros)
    show ?thesis
      by (rule answered_at, rule n, rule inquiresD [OF \<open>within (inquires V) (attempt (Address V))\<close> a], rule inquiresD [OF inquires_clock(2) d])
  qed
  show ?thesis using assms unfolding flight_confirmed_def
    by (intro impI exI [of _ finalized])
       (auto simp: checkInFlight_def ok_simps get_heap_def heap not_less dest: said split: if_splits option.splits)
qed

section \<open>What is signed\<close>

text \<open>
  \<open>confirmed V h q s t\<close>: between \<open>s\<close> and \<open>t\<close>, where nothing was written or sent, every check of
  quote \<open>q\<close> was answered as it must be, for the journal and the settings of \<open>h\<close>.
\<close>

definition confirmed ::
    "('k, 'w) env \<Rightarrow> 'h service_scheme \<Rightarrow> BoundQuote \<Rightarrow> ('w, 'f, 'g) sys \<Rightarrow> ('w, 'f, 'g) sys \<Rightarrow> bool" where
  "confirmed V h q s t \<longleftrightarrow>
     inquires V s t \<and> answered V s t (ask (ca_CheckNetwork (api V))) () \<and>
     flight_confirmed V h q s t \<and> nonce_confirmed V h q s t \<and> rollup_confirmed V q s t \<and> funds_confirmed V q s t \<and>
     escrow_confirmed V h q s t \<and> exchange_confirmed V q s t \<and> vault_confirmed V h q s t \<and> token_confirmed V q s t \<and>
     gas_confirmed V q s t"

lemma confirmed_heap:
  "confirmed V (h\<lparr>qs_quotes := qs\<rparr>) q s t = confirmed V h q s t"
  by (simp add: confirmed_def confirmed_defs hasInFlightTx_def forEachRecord_def NonceRecords_def NonceMined_def)

lemma send_prepare_confirms:
  fixes s :: "('w, jfile, 'h service_scheme) sys"
  assumes "send_prepare V ident password s = (Inr (q, tx, r), t)"
  obtains key clock and u v a :: "('w, jfile, 'h service_scheme) sys" where
    "Get V ident s = (Inr q, a)" "confirmed V (heap s) q s u"
    "answered V s u (ask (ka_DecryptKey (keys V) password)) key" "PubkeyAddress (eth V) key = bq_From q"
    "answered V s u (ctx_err (os V)) False"
    "now (os V) u = (Inr clock, v)" "clock < bq_ExpiresAt q" "sign_quote V key q v = (Inr (tx, r), t)"
proof -
  let ?flight = "if bq_ReplacementHash q = []
      then andthen (checkInFlight V) (\<lambda>finalized.
           fail_if (case finalized of None \<Rightarrow> False | Some f \<Rightarrow> bq_Nonce q < fn_nonce f) ErrNonceMismatch (ret ()))
      else ret ()"
  from assms obtain a0 a1 a2 a3 a4 a5 a6 a7 a8 a9 a10 a11 a12 a13 a14 a15 key n1 n3 n4 n5 n6 n7 n8 n9 n10 n11 n12 n13 n14 n15 where
    G: "Get V ident s = (Inr q, a0)" and F: "?flight a0 = (Inr n1, a1)" and
    K: "ask (ka_DecryptKey (keys V) password) a1 = (Inr key, a2)" "\<not> PubkeyAddress (eth V) key \<noteq> bq_From q" and
    U1: "unexpired V q a2 = (Inr n3, a3)" and N: "ask (ca_CheckNetwork (api V)) a3 = (Inr n4, a4)" and
    C: "send_nonce V q a4 = (Inr n5, a5)" and R: "rollupFee V q False a5 = (Inr n6, a6)" and
    B: "send_funds V q a6 = (Inr n7, a7)" and E: "send_escrow V q a7 = (Inr n8, a8)" and
    A: "send_action V q a8 = (Inr n9, a9)" and T: "send_token V q a9 = (Inr n10, a10)" and
    D1: "not_done V a10 = (Inr n11, a11)" and U2: "unexpired V q a11 = (Inr n12, a12)" and
    L: "send_gas V q a12 = (Inr n13, a13)" and D2: "not_done V a13 = (Inr n14, a14)" and
    U3: "unexpired V q a14 = (Inr n15, a15)" and S: "sign_quote V key q a15 = (Inr (tx, r), t)"
    unfolding send_prepare_def ok_andthen ok_seq ok_fail_if ok_prod ok_leaf prod.inject
    apply (elim exE conjE)
    apply hypsubst
    apply (rule that, assumption+)
    done
  have flight: "within (inquires V) ?flight" "within asks ?flight" by (intro eff_intros)+
  note i0 = inquiresD [OF inquires_checks(12) G] and i1 = inquiresD [OF flight(1) F] and i2 = inquiresD [OF inquires_asked(2) K(1)]
    and i3 = inquiresD [OF inquires_checks(1) U1] and i4 = inquiresD [OF inquires_asked(3) N] and i5 = inquiresD [OF inquires_checks(3) C]
    and i6 = inquiresD [OF inquires_checks(4) R] and i7 = inquiresD [OF inquires_checks(6) B] and i8 = inquiresD [OF inquires_checks(7) E]
    and i9 = inquiresD [OF inquires_checks(8) A] and i10 = inquiresD [OF inquires_checks(9) T] and i11 = inquiresD [OF inquires_checks(2) D1]
    and i12 = inquiresD [OF inquires_checks(1) U2] and i13 = inquiresD [OF inquires_checks(10) L] and i14 = inquiresD [OF inquires_checks(2) D2]
  note p1 = inquires.trans_effect [OF i0 i1] note p2 = inquires.trans_effect [OF p1 i2] note p3 = inquires.trans_effect [OF p2 i3]
  note p4 = inquires.trans_effect [OF p3 i4] note p5 = inquires.trans_effect [OF p4 i5] note p6 = inquires.trans_effect [OF p5 i6]
  note p7 = inquires.trans_effect [OF p6 i7] note p8 = inquires.trans_effect [OF p7 i8] note p9 = inquires.trans_effect [OF p8 i9]
  note p10 = inquires.trans_effect [OF p9 i10] note p11 = inquires.trans_effect [OF p10 i11] note p12 = inquires.trans_effect [OF p11 i12]
  note p13 = inquires.trans_effect [OF p12 i13] note p14 = inquires.trans_effect [OF p13 i14]
  note q13 = i14 note q12 = inquires.trans_effect [OF i13 q13] note q11 = inquires.trans_effect [OF i12 q12]
  note q10 = inquires.trans_effect [OF i11 q11] note q9 = inquires.trans_effect [OF i10 q10] note q8 = inquires.trans_effect [OF i9 q9]
  note q7 = inquires.trans_effect [OF i8 q8] note q6 = inquires.trans_effect [OF i7 q7] note q5 = inquires.trans_effect [OF i6 q6]
  note q4 = inquires.trans_effect [OF i5 q5] note q3 = inquires.trans_effect [OF i4 q4] note q2 = inquires.trans_effect [OF i3 q3]
  note q1 = inquires.trans_effect [OF i2 q2]
  from withinD [OF quote_work_store(2) G] obtain qs where h0: "heap a0 = (heap s)\<lparr>qs_quotes := qs\<rparr>" by (auto simp: quote_work_def)
  have same: "heap y = heap x" if "within asks m" "m x = (n, y)" for m x n y
    using withinD [OF that] by (simp add: asks_def)
  have h: "heap a4 = heap a0" "heap a7 = heap a0" "heap a8 = heap a0"
    using same [OF flight(2) F] same [OF asks_ask K(1)] same [OF asks_send_checks(1) U1] same [OF asks_ask N]
      same [OF asks_send_checks(3) C] same [OF asks_service(5) R] same [OF asks_send_checks(4) B] same [OF asks_send_checks(5) E] by simp_all
  have "flight_confirmed V (heap a0) q s a14"
  proof (cases "bq_ReplacementHash q = []")
    case True
    with F obtain f where "checkInFlight V a0 = (Inr f, a1)" "\<not> (case f of None \<Rightarrow> False | Some f \<Rightarrow> bq_Nonce q < fn_nonce f)"
      by (auto simp: ok_simps)
    from checkInFlight_confirms [OF this] show ?thesis by (rule confirmed_wide(9) [OF i0 q1])
  qed (simp add: flight_confirmed_def)
  moreover have "answered V s a14 (ask (ca_CheckNetwork (api V))) ()"
    by (rule answered_at [OF _ p3 q4]) (use N in simp)
  ultimately have "confirmed V (heap a0) q s a14"
    unfolding confirmed_def
    using p14 confirmed_wide(1) [OF p4 q5 send_nonce_confirms [OF C, unfolded h(1)]]
      confirmed_wide(2) [OF p5 q6 rollupFee_confirms [OF R]] confirmed_wide(3) [OF p6 q7 send_funds_confirms [OF B]]
      confirmed_wide(4) [OF p7 q8 send_escrow_confirms [OF E, unfolded h(2)]]
      confirmed_wide(5) [OF p8 q9 conjunct1 [OF send_action_confirms [OF A]]]
      confirmed_wide(6) [OF p8 q9 conjunct2 [OF send_action_confirms [OF A], unfolded h(3)]]
      confirmed_wide(7) [OF p9 q10 send_token_confirms [OF T]] confirmed_wide(8) [OF p12 q13 send_gas_confirms [OF L]] by simp
  then have c: "confirmed V (heap s) q s a14" unfolding h0 confirmed_heap .
  from D2 have d: "ctx_err (os V) a13 = (Inr False, a14)" by (auto simp: not_done_def ok_simps)
  from U3 obtain clock where u: "now (os V) a14 = (Inr clock, a15)" "clock < bq_ExpiresAt q"
    by (auto simp: unexpired_def ok_simps not_le)
  show thesis
    by (rule that [OF G c _ _ _ u S], rule answered_at, rule K(1), rule p1, rule q2, use K(2) in simp,
        rule answered_at, rule d, rule p13, rule inquires_refl)
qed

text \<open>
  C3: a quote that is sent for the first time is a quote of the store.  Before anything is
  written or sent, the checks of the quote are answered in this very run: the node names the
  network; no transaction is in flight unless the quote replaces one, and the nonce is the next
  one, or still open; the balances cover the quote, the base fee and the rollup fee are within
  its caps, no approval races; the settings, the contracts and the simulations of an escrow,
  exchange, vault or token call hold as quoted; and a replacement or escrow call needs no more gas
  than quoted.  The password opens the key of the quoting wallet.  The last thing before signing
  is a clock reading earlier than the expiry.  What is then signed says exactly what the quote
  says, and is what is committed: afterwards the journal has its record, the response names it,
  and the quote is gone.
\<close>

theorem Send_authorised:
  fixes s :: "('w, jfile, 'h service_scheme) sys"
  assumes "store_ok (quotes_of s)" and "eth_tx_laws (eth V)"
    and "FindByQuoteID (heap s) ident = None" and "Send V ident password s = (Inr resp, t)"
  shows "\<exists>q key tx r clock (u :: ('w, jfile, 'h service_scheme) sys) v w. map_of (quotes_of s) ident = Some q \<and>
    confirmed V (heap s) q s u \<and> answered V s u (ctx_err (os V)) False \<and>
    answered V s u (ask (ka_DecryptKey (keys V) password)) key \<and> PubkeyAddress (eth V) key = bq_From q \<and>
    now (os V) u = (Inr clock, v) \<and> clock < bq_ExpiresAt q \<and>
    sign_quote V key q v = (Inr (tx, r), w) \<and> send_commit V q tx r w = (Inr resp, t) \<and>
    tx_chain tx = ca_ChainID (api V) \<and> tx_nonce tx = bq_Nonce q \<and> tx_to tx = Some (bq_TxTo q) \<and>
    tx_value tx = bq_TxValue q \<and> tx_data tx = bq_Data q \<and> TxSender (eth V) tx = Some (bq_From q) \<and>
    sr_Hash resp = tx_hash tx \<and> map_of (quotes_of t) ident = None \<and>
    (\<exists>r\<in>set (forEachRecord (heap t)). jr_Hash r = tx_hash tx \<and> jr_QuoteID r = ident)"
proof -
  from assms(3,4) obtain q tx r w where P: "send_prepare V ident password s = (Inr (q, tx, r), w)"
    and C: "send_commit V q tx r w = (Inr resp, t)"
    unfolding Send_def ok_simps by (auto simp: get_heap_def ok_simps)
  obtain key clock and u v a :: "('w, jfile, 'h service_scheme) sys" where
    p: "Get V ident s = (Inr q, a)" "confirmed V (heap s) q s u"
    "answered V s u (ask (ka_DecryptKey (keys V) password)) key" "PubkeyAddress (eth V) key = bq_From q"
    "answered V s u (ctx_err (os V)) False"
    "now (os V) u = (Inr clock, v)" "clock < bq_ExpiresAt q" "sign_quote V key q v = (Inr (tx, r), w)"
    by (rule send_prepare_confirms [OF P])
  from Get_ok [OF p(1)] have "map_of (cleanupExpired (fst (TimeNow (os V) (world s))) (quotes_of s)) ident = Some q" by metis
  then have q: "map_of (quotes_of s) ident = Some q" by (rule quotes.clean_subset [OF assms(1)])
  then have id: "bq_ID q = ident" using store_okD(3) [OF assms(1)] map_of_SomeD by fastforce
  from send_prepare_ok [OF P] have rec: "jr_Hash r = tx_hash tx" "jr_QuoteID r = ident" using id by (auto simp: new_record_def)
  note c = send_commit_ok [OF C rec(1)]
  from sign_quote_ok(1) [OF p(8)] eth_txD [OF assms(2)] p(4) have "tx_chain tx = ca_ChainID (api V)" "tx_nonce tx = bq_Nonce q"
    "tx_to tx = Some (bq_TxTo q)" "tx_value tx = bq_TxValue q" "tx_data tx = bq_Data q" "TxSender (eth V) tx = Some (bq_From q)"
    by (simp_all add: dynamic_of_def)
  then show ?thesis using q p(2-8) C c id rec
    by (intro exI [where x = q] exI [where x = key] exI [where x = tx] exI [where x = r] exI [where x = clock]
        exI [where x = u] exI [where x = v] exI [where x = w]) simp
qed

end
