(* ===== verification/ServiceSamples.thy ===== *)
theory ServiceSamples
  imports ServiceRun ReplacementFacts SendChecks
begin

text \<open>
  A service that sends the sample quote on a machine without faults: the closed instances of
  the properties of the service.
\<close>

section \<open>A service with one quote\<close>

definition sample_service :: "(int, jfile, service) sys" where
  "sample_service = sample_sys \<lparr> jm_chainID = 11155111, jm_records = [], jm_archived = [],
     qs_quotes = [(replicate 32 (CHR ''1''), sample_bound)], sv_historyOffset = 0, sv_csrfToken = [],
     sv_vaultAddress = [], sv_escrowAddress = [], sv_escrowToken = [], sv_storageFault = False, sv_lockFile = True \<rparr>"

abbreviation sample_ident :: string where
  "sample_ident \<equiv> replicate 32 (CHR ''1'')"

lemma sample_service_parts [simp]:
  "jm_chainID (heap sample_service) = 11155111" "jm_records (heap sample_service) = []"
  "jm_archived (heap sample_service) = []" "qs_quotes (heap sample_service) = [(sample_ident, sample_bound)]"
  "sv_storageFault (heap sample_service) = False" "world sample_service = seconds 1700000000"
  "files sample_service = []" "trace sample_service = []"
  by (simp_all add: sample_service_def sample_sys_def)

lemma sample_service_durable: "durable E sample_service"
  by (simp add: durable_def memory_ok_def list_ok_def forEachRecord_def active_on_disk_def archived_on_disk_def
      archives_ok_def)

lemma sample_service_store: "store_ok (quotes_of sample_service)"
  by (simp add: store_ok_def) (simp add: sample_bound_def)

lemma sample_env_laws [simp]:
  "eth_hex_laws (eth sample_env)" "eth_hash_laws (eth sample_env)" "eth_tx_laws (eth sample_env)"
  using sample_lib_hex sample_lib_hash sample_lib_tx
  by (simp_all add: sample_env_def eth_hex_laws_def eth_hash_laws_def eth_tx_laws_def)

lemma sample_env_signing [simp]:
  "ka_DecryptKey (keys sample_env) p w = (Inr 5, w)" "PubkeyAddress (eth sample_env) 5 = 5"
  "SignTx (eth sample_env) sample_dynamic 5 = Inr sample_tx" "TxMarshal (eth sample_env) sample_tx = Inr [2]"
  "CtxErr (os sample_env) w = (False, w)" "HexutilEncode (eth sample_env) [2] = sample_hex [2]"
  by (simp_all add: sample_env_def sample_keys_def sample_lib_def sample_eth_def sample_io_def)

lemma sample_tx_hash [simp]: "tx_hash sample_tx = sample_hash"
  by (simp add: sample_tx_def)

lemma sample_dynamic_of: "dynamic_of 11155111 sample_bound = sample_dynamic"
  by (simp add: dynamic_of_def sample_bound_def sample_dynamic_def)

lemma sample_bound_parts [simp]:
  "bq_ID sample_bound = sample_ident" "bq_ReplacementHash sample_bound = []" "bq_Escrow sample_bound = None"
  "bq_Action sample_bound = ActionETH" "bq_From sample_bound = 5" "bq_Nonce sample_bound = 7"
  "bq_TotalETHWei sample_bound = 631000" "bq_MaxFeePerGas sample_bound = 30" "bq_ReplacementERC20 sample_bound = False"
  "bq_ExpiresAt sample_bound = seconds 1700000120"
  by (simp_all add: sample_bound_def)

definition sample_sent :: "time \<Rightarrow> JournalRecord" where
  "sample_sent t = new_record (eth sample_env) sample_bound sample_hash (sample_hex [2]) t"

lemma sample_prepare:
  "send_prepare sample_env sample_ident password sample_service =
     (Inr (sample_bound, sample_tx, sample_sent (seconds 1700000000 + 4)),
      sample_service\<lparr>world := seconds 1700000000 + 5\<rparr>)"
proof -
  have get: "Get sample_env sample_ident sample_service = (Inr sample_bound, sample_service\<lparr>world := seconds 1700000000 + 1\<rparr>)"
    by (simp add: Get_def run_simps ParseQuoteID_def cleanupExpired_def seconds_def sample_service_def
        sample_sys_def)
  have busy: "checkInFlight sample_env s = (Inr None, s)" if "forEachRecord (heap s) = []" for s :: "(int, jfile, service) sys"
    using that by (simp add: checkInFlight_def run_simps hasInFlightTx_def)
  have time: "unexpired sample_env sample_bound (sample_service\<lparr>world := seconds 1700000000 + n\<rparr>) =
      (Inr (), sample_service\<lparr>world := seconds 1700000000 + (n + 1)\<rparr>)" if "n < 10" for n
    using that by (simp add: unexpired_def run_simps seconds_def)
  show ?thesis
    unfolding send_prepare_def
    by (simp add: run_simps get busy run_ask time forEachRecord_def send_nonce_def rollupFee_def is_op_stack_def
        send_funds_def send_escrow_def isEscrowAction_def send_action_def send_token_def not_done_def send_gas_def
        sign_quote_def sample_dynamic_of sample_sent_def sample_chain_head_def)
qed

section \<open>Sending it\<close>

lemma sample_sent_valid: "validateJournalRecord (eth sample_env) (sample_sent t) 11155111 = Inr (sample_sent t)"
proof -
  have "parse_optional_address (eth sample_env) (jr_To (sample_sent t)) = Inr (jr_To (sample_sent t))"
    unfolding sample_sent_def new_record_def by (simp add: parse_optional_canonical [OF sample_env_laws(1)] sample_bound_def del: sample_env_answers)
  moreover have "signed_tx (eth sample_env) (sample_sent t) = Some sample_tx"
    by (simp add: signed_tx_def sample_sent_def new_record_def) (simp add: sample_env_def sample_lib_def sample_eth_def)
  moreover have "restoreEscrowJournal (eth sample_env) (sample_sent t) sample_tx = Inr (sample_sent t)"
    by (simp add: restoreEscrowJournal_def decodeEscrowTransaction_def sample_tx_def sample_sent_def new_record_def
        isEscrowAction_def)
  ultimately show ?thesis
    by (simp add: validate_iff) (simp add: sample_sent_def new_record_def sample_tx_def ParseLegacyQuoteID_iff)
qed

lemma sample_write: "atomicWriteFile (os sample_env) p d s = (Inr (), put_file p d s)"
  by (simp add: atomicWriteFile_def run_simps sample_env_def sample_io_def put_file_def)

lemma sample_recorded:
  assumes "jm_records (heap s) = [(sample_sent t)\<lparr>jr_Version := 1\<rparr>]" and "world s = seconds 1700000000 + 5"
    and "t = seconds 1700000000 + 4"
  shows "\<exists>u. record_broadcast sample_env sample_tx sample_hash 1 s = (Inr (JournalSubmitted, True), u) \<and>
    SentRaw sample_hash \<in> set (trace u)"
proof -
  have m: "marshal_records [observed JournalSubmitted [] [] [] False (world s) ((sample_sent t)\<lparr>jr_Version := 1\<rparr>)] =
      Inr (disk_of [observed JournalSubmitted [] [] [] False (world s) ((sample_sent t)\<lparr>jr_Version := 1\<rparr>)])"
    using assms(2,3) by (simp add: marshal_records_def disk_of_def json_time_def sample_sent_def new_record_def seconds_def observed_def)
  have p: "ParseJournalState ''submitted'' = Inr JournalSubmitted"
    using ParseJournalState_iff [of "''submitted''" JournalSubmitted] by simp
  have f: "jr_Hash (sample_sent t) = sample_hash" "jr_State (sample_sent t) = JournalPending"
    by (simp_all add: sample_sent_def new_record_def)
  show ?thesis
    using assms(1) m
    by (simp add: record_broadcast_def broadcast_def journal_fault_def run_simps run_ask Let_def
        UpdateStateAtomicIfVersion_def p f atomicSave_def sample_write)
qed

lemma sample_send:
  "\<exists>resp t. Send sample_env sample_ident password sample_service = (Inr resp, t) \<and> SentRaw sample_hash \<in> set (trace t)"
proof -
  let ?r = "sample_sent (seconds 1700000000 + 4)\<lparr>jr_Version := 1\<rparr>"
  let ?s = "sample_service\<lparr>world := seconds 1700000000 + 5\<rparr>"
  let ?t = "(put_file journalPath (disk_of [?r]) ?s)\<lparr>heap := (heap ?s)\<lparr>jm_records := [?r]\<rparr>\<rparr>"
  have m: "marshal_records [?r] = Inr (disk_of [?r])"
    by (simp add: marshal_records_def disk_of_def json_time_def sample_sent_def new_record_def seconds_def)
  have a: "AppendAtomic (eth sample_env) (os sample_env) (sample_sent (seconds 1700000000 + 4)) ?s = (Inr (?r, 1), ?t)"
    using m sample_sent_valid [of "seconds 1700000000 + 4"]
    by (simp add: AppendAtomic_def run_simps Let_def atomicSave_def sample_write)
  have "\<exists>u. record_broadcast sample_env sample_tx sample_hash 1 ?t = (Inr (JournalSubmitted, True), u) \<and>
      SentRaw sample_hash \<in> set (trace u)"
    by (rule sample_recorded [where t = "seconds 1700000000 + 4"]) simp_all
  then obtain u where b: "record_broadcast sample_env sample_tx sample_hash 1 ?t = (Inr (JournalSubmitted, True), u)"
    "SentRaw sample_hash \<in> set (trace u)" by (elim exE conjE)
  have "\<exists>resp t. send_commit sample_env sample_bound sample_tx (sample_sent (seconds 1700000000 + 4)) ?s = (Inr resp, t) \<and>
      SentRaw sample_hash \<in> set (trace t)"
    unfolding send_commit_def run_andthen run_attempt a
    using b by (simp add: run_simps Remove_def latest_response_def)
  then show ?thesis
    by (simp add: Send_def run_simps FindByQuoteID_def forEachRecord_def ParseLegacyQuoteID_def sample_prepare)
qed

section \<open>Closed instances\<close>

theorem Send_authorised_witness:
  "\<exists>(tx :: eth_tx) (u :: (int, jfile, service) sys). confirmed sample_env (heap sample_service) sample_bound sample_service u \<and>
    answered sample_env sample_service u (ask (ca_PendingNonceAt (api sample_env) (bq_From sample_bound))) 7 \<and>
    tx_nonce tx = 7 \<and> tx_to tx = Some (bq_TxTo sample_bound)"
proof -
  have new: "FindByQuoteID (heap sample_service) sample_ident = None"
    by (simp add: FindByQuoteID_def forEachRecord_def split: sum.split)
  obtain resp t where "Send sample_env sample_ident ''secret'' sample_service = (Inr resp, t)"
    using sample_send [of "''secret''"] by (elim exE conjE)
  from Send_authorised [OF sample_service_store sample_env_laws(3) new this]
  obtain q and tx :: eth_tx and u :: "(int, jfile, service) sys" where q: "map_of (quotes_of sample_service) sample_ident = Some q" and
    tx: "confirmed sample_env (heap sample_service) q sample_service u" "tx_nonce tx = bq_Nonce q"
      "tx_to tx = Some (bq_TxTo q)" by (elim exE conjE) (rule that, assumption+)
  from q have "q = sample_bound" by simp
  note tx = tx [unfolded this]
  have b: "bq_ReplacementHash sample_bound = []" "bq_Nonce sample_bound = 7" by (simp_all add: sample_bound_def)
  from tx(1) b have "answered sample_env sample_service u (ask (ca_PendingNonceAt (api sample_env) (bq_From sample_bound))) 7"
    by (simp add: confirmed_def nonce_confirmed_def)
  with tx b(2) show ?thesis by auto
qed

lemma sample_signs_new: "signs_new sample_env ident password sample_service"
  by (auto simp: signs_new_def forEachRecord_def split: prod.split sum.split)

lemma sample_op:
  "\<exists>t. service_op sample_env sample_service t \<and> SentRaw sample_hash \<in> set (trace t)"
  using sample_send [of "''secret''"] service_op.send [OF sample_signs_new] by metis

theorem service_op_refines_witness:
  "\<exists>t. service_run sample_env sample_service t \<and> SentRaw sample_hash \<in> set (trace t)"
  using service_op_refines [OF sample_env_laws(1)] sample_op by metis

theorem broadcast_after_persist_witness:
  "\<exists>t. persisted_first sample_service t \<and> SentRaw sample_hash \<in> set (trace t)"
  using broadcast_after_persist [OF sample_env_laws(2,1) sample_service_durable] sample_op
  by (metis r_into_rtranclp)

theorem service_never_loses_witness:
  "\<exists>t :: (int, jfile, service) sys. durable (eth sample_env) t \<and> remembers (heap sample_service) (heap t) \<and> SentRaw sample_hash \<in> set (trace t)"
proof -
  obtain t where t: "service_op sample_env sample_service t" "SentRaw sample_hash \<in> set (trace t)"
    using sample_op by blast
  from t(1) have "(service_op sample_env)\<^sup>*\<^sup>* sample_service t" by (rule r_into_rtranclp)
  from service_never_loses [OF sample_env_laws(2,1) sample_service_durable this] t(2)
  show ?thesis by (intro exI [of _ t]) simp
qed

lemma sample_os_laws: "os_laws (os sample_env)"
  by (simp add: os_laws_def io_error_def sample_env_def sample_io_def)

theorem Send_error_contained_witness:
  "\<exists>e t. Send sample_env ''unknown'' ''secret'' sample_service = (Inl e, t) \<and> quote_work sample_service t"
proof -
  have "Get sample_env ''unknown'' sample_service = (Inl (ErrNew ''quote id''), sample_service) \<or>
      (\<exists>e. Get sample_env ''unknown'' sample_service = (Inl e, sample_service))"
    by (simp add: Get_def run_simps ParseQuoteID_def opaqueIDPattern_def)
  then obtain e where g: "Get sample_env ''unknown'' sample_service = (Inl e, sample_service)" by blast
  have "Send sample_env ''unknown'' ''secret'' sample_service = (Inl (SendRejectedError e), sample_service)"
    by (simp add: Send_def run_simps send_prepare_def g FindByQuoteID_def ParseLegacyQuoteID_def opaqueIDPattern_def
        forEachRecord_def)
  from Send_error_contained [OF sample_os_laws this] this show ?thesis by auto
qed

section \<open>Replacing, quoting\<close>

definition sample_pending :: "(int, jfile, service) sys" where
  "sample_pending = sample_service\<lparr>heap := (heap sample_service)\<lparr>jm_records := [sample_record]\<rparr>\<rparr>"

definition sample_cancel :: QuoteCommand where
  "sample_cancel = sample_command\<lparr>qc_Action := ActionCancel, qc_Hash := sample_hash\<rparr>"

lemma sample_record_parts [simp]:
  "jr_Hash sample_record = sample_hash" "jr_Nonce sample_record = 7" "jr_SignedRaw sample_record = sample_hex [2]"
  "jr_AmountRaw sample_record = ''1000''" "jr_Finalized sample_record = False" "jr_State sample_record = JournalPending"
  by (simp_all add: sample_record_def)

lemma sample_amount_1000: "set_string10 ''1000'' = Some 1000"
  by (simp add: set_string10_digits all_digits_def is_digit_def) (simp add: dec_val_def dval_def)

lemma sample_own: "Address sample_env s = (Inr (AddressHex sample_lib 5), s)"
  by (simp add: Address_def run_ask) (simp add: sample_env_def sample_keys_def)

lemma sample_own_address: "sample_address (AddressHex sample_lib 5) = 5"
  using sample_address_hex [of 5] by (simp add: sample_lib_def sample_eth_def)

lemma sample_journal_lib [simp]:
  "HexutilDecode (eth sample_env) (sample_hex bs) = Some bs" "TxUnmarshal (eth sample_env) [2] = Some sample_tx"
  "TxSender (eth sample_env) t = Some 5"
  by (simp_all add: sample_env_def sample_lib_def sample_eth_def)

lemma sample_source:
  "replaced_source sample_env sample_hash sample_pending = (Inr (sample_record, sample_tx, 5), sample_pending)"
proof -
  have "FindByHash (heap sample_pending) sample_hash = Some sample_record"
    using sample_hash_pattern ParseTransactionHash_iff [of sample_hash sample_hash]
    by (simp add: FindByHash_def sample_pending_def forEachRecord_def)
  moreover have "\<not> NonceMined (heap sample_pending) 7"
    by (simp add: NonceMined_def sample_pending_def forEachRecord_def isMinedJournalState_def)
  moreover have "replaced_tx (eth sample_env) 11155111 sample_record = Inr sample_tx"
    by (simp add: replaced_tx_def) (simp add: sample_tx_def)
  moreover have "restoreEscrowJournal (eth sample_env) sample_record sample_tx = Inr sample_record"
    by (simp add: restoreEscrowJournal_def decodeEscrowTransaction_def sample_tx_def sample_record_def
        isEscrowAction_def)
  ultimately show ?thesis
    by (simp add: replaced_source_def run_simps sample_own sample_own_address Let_def)
qed

lemma sample_replacement:
  "\<exists>q t. replacementQuote sample_env sample_cancel sample_pending = (Inr q, t) \<and> bq_MaxPriorityFeePerGas q = 2 \<and>
     bq_Nonce q = 7"
proof -
  have "NonceRecords (heap sample_pending) 7 = [sample_record]"
    by (simp add: NonceRecords_def sample_pending_def forEachRecord_def)
  moreover have "tx_nonce sample_tx = 7" "tx_tip sample_tx = 1" "tx_fee sample_tx = 30" by (simp_all add: sample_tx_def)
  moreover have "world sample_pending = seconds 1700000000" by (simp add: sample_pending_def)
  ultimately show ?thesis
    by (simp add: replacementQuote_def run_simps run_ask sample_cancel_def sample_source sample_chain_head_def
        replacement_parts_def sample_amount_1000 bump_def Let_def sample_rand replacement_gas_def)
qed


lemma sample_quoted:
  "\<exists>resp t. ServiceQuoteCommand sample_env sample_command sample_service = (Inr resp, t)"
proof -
  have id: "opaqueIDPattern (replicate 32 (CHR ''0''))"
    by (simp add: opaqueIDPattern_def list_all_replicateI is_hex_def)
  have action: "bound_command sample_env h sample_command = Inr sample_command" for h :: service
    by (simp add: bound_command_def sample_command_def isEscrowAction_def Let_def)
  have code: "hex_encode (replicate 16 0) = replicate 32 (CHR ''0'')" using hex_encode_zeros [of 16] by simp
  have "\<exists>q t. new_quote sample_env sample_command sample_service = (Inr q, t) \<and> bq_ID q = replicate 32 (CHR ''0'') \<and>
      qs_quotes (heap t) = qs_quotes (heap sample_service)"
    by (simp add: new_quote_def run_simps action code checkInFlight_def hasInFlightTx_def forEachRecord_def
        sample_own sample_own_address CreateQuote_def Let_def sample_rand sample_switch sample_parts sample_fees)
  then obtain q t where q: "new_quote sample_env sample_command sample_service = (Inr q, t)"
    "bq_ID q = replicate 32 (CHR ''0'')" "qs_quotes (heap t) = qs_quotes (heap sample_service)"
    by (elim exE conjE)
  have "\<exists>t'. Add sample_env (Some q) t = (Inr (), t')"
    using q id by (simp add: Add_def run_simps ParseQuoteID_def cleanupExpired_def)
  then obtain t' where "Add sample_env (Some q) t = (Inr (), t')" ..
  moreover have "Exists sample_env s = (Inr True, s)" for s :: "(int, jfile, service) sys"
    by (simp add: Exists_def run_ask) (simp add: sample_env_def sample_keys_def)
  moreover have "qc_Action sample_command = ActionETH" by (simp add: sample_command_def)
  ultimately show ?thesis
    by (simp add: ServiceQuoteCommand_def run_simps q(1) rollupFee_def is_op_stack_def)
qed

theorem ServiceQuoteCommand_stored_witness:
  "\<exists>q t. map_of (quotes_of t) (bq_ID q) = Some q \<and> bq_Action q = ActionETH \<and> settled_before sample_env (heap sample_service) q \<and>
     quote_work sample_service t"
proof -
  from sample_quoted obtain resp t where "ServiceQuoteCommand sample_env sample_command sample_service = (Inr resp, t)"
    by (elim exE)
  from ServiceQuoteCommand_stored [OF this] show ?thesis
    by (auto simp: sample_command_def)
qed

end
