(* ===== verification/Json.thy ===== *)
theory Json
  imports Errors
begin

text \<open>
  JSON documents, as \<^verbatim>\<open>encoding/json\<close> decodes them into Go structs: what a file or
  a request body holds is its parsed document, and a struct field is read by going over the
  members in order, where a later member overwrites an earlier one, \<^verbatim>\<open>null\<close> leaves the
  field alone, a value of another type is an error, and names are compared without case.
\<close>

text \<open>
  \<open>JInt\<close> is a number written without fraction and exponent, \<open>JReal m e\<close> any other, with
  the \<^verbatim>\<open>float64\<close> value m times 2 to the power e.
\<close>

datatype json =
    JNull | JBool bool | JInt int | JReal int int | JStr string | JArr "json list" | JObj "(string \<times> json) list"

type_synonym 'a field = "json \<Rightarrow> 'a \<Rightarrow> err + 'a"

definition bad_json :: "err + 'a" where
  "bad_json = Inl (ErrExt ''json'')"

definition str_field :: "string field" where
  "str_field v old = (case v of JNull \<Rightarrow> Inr old | JStr s \<Rightarrow> Inr s | _ \<Rightarrow> bad_json)"

definition bool_field :: "bool field" where
  "bool_field v old = (case v of JNull \<Rightarrow> Inr old | JBool b \<Rightarrow> Inr b | _ \<Rightarrow> bad_json)"

text \<open>\<^verbatim>\<open>int\<close> and \<^verbatim>\<open>uint64\<close>: a number out of range, or written with a fraction, is an error.\<close>

definition int_field :: "int field" where
  "int_field v old =
     (case v of JNull \<Rightarrow> Inr old | JInt i \<Rightarrow> (if - (2 ^ 63) \<le> i \<and> i < 2 ^ 63 then Inr i else bad_json) | _ \<Rightarrow> bad_json)"

definition uint64_field :: "64 word field" where
  "uint64_field v old =
     (case v of JNull \<Rightarrow> Inr old | JInt i \<Rightarrow> (if 0 \<le> i \<and> i < 2 ^ 64 then Inr (word_of_int i) else bad_json) | _ \<Rightarrow> bad_json)"

text \<open>A slice of strings; an element that is \<^verbatim>\<open>null\<close> is the empty string.\<close>

definition strs_field :: "string list field" where
  "strs_field v old =
     (case v of JNull \<Rightarrow> Inr []
      | JArr vs \<Rightarrow> (if list_all (\<lambda>v. case v of JNull \<Rightarrow> True | JStr _ \<Rightarrow> True | _ \<Rightarrow> False) vs
                    then Inr (map (\<lambda>v. case v of JStr s \<Rightarrow> s | _ \<Rightarrow> []) vs) else bad_json)
      | _ \<Rightarrow> bad_json)"

text \<open>A \<^verbatim>\<open>map[string]interface{}\<close>: a later entry of a key hides an earlier one.\<close>

definition map_field :: "(string \<times> json) list field" where
  "map_field v old = (case v of JNull \<Rightarrow> Inr [] | JObj es \<Rightarrow> Inr (rev es @ old) | _ \<Rightarrow> bad_json)"

fun member :: "'a field \<Rightarrow> string \<Rightarrow> (string \<times> json) list \<Rightarrow> 'a \<Rightarrow> err + 'a" where
  "member f k [] old = Inr old"
| "member f k ((k', v) # es) old =
     (if equal_fold k' k then (case f v old of Inl e \<Rightarrow> Inl e | Inr a \<Rightarrow> member f k es a) else member f k es old)"

text \<open>The members of a nested struct: those of every object under its name, in order.\<close>

fun members :: "string \<Rightarrow> (string \<times> json) list \<Rightarrow> err + (string \<times> json) list" where
  "members k [] = Inr []"
| "members k ((k', v) # es) =
     (if equal_fold k' k
      then (case v of JNull \<Rightarrow> members k es
            | JObj inner \<Rightarrow> (case members k es of Inl e \<Rightarrow> Inl e | Inr rest \<Rightarrow> Inr (inner @ rest))
            | _ \<Rightarrow> bad_json)
      else members k es)"

text \<open>A struct is read from an object; \<^verbatim>\<open>null\<close> leaves it at its zero value.\<close>

definition object :: "json option \<Rightarrow> err + (string \<times> json) list" where
  "object d = (case d of Some (JObj es) \<Rightarrow> Inr es | Some JNull \<Rightarrow> Inr [] | _ \<Rightarrow> bad_json)"

lemma member_single [simp]: "equal_fold k' k \<Longrightarrow> member f k [(k', v)] old = f v old"
  by (simp split: sum.split)

lemma equal_fold_refl [simp]: "equal_fold k k"
  by (simp add: equal_fold_def)

end
