(* ===== verification/Dirs.thy ===== *)
theory Dirs
  imports Storage Texts Json
begin

text \<open>
  A wallet's directory tree: what a path holds is a directory or a document (\<open>Doc None\<close> is
  a file that is not JSON).  A directory is there when it was made or when something is in it.
\<close>

datatype node = Dir | Doc "json option"

type_synonym ('w, 'h, 'a) dact = "('w, node, 'h, 'a) act"

definition join_path :: "string \<Rightarrow> string \<Rightarrow> string" where
  "join_path dir name = dir @ ''/'' @ name"

definition entry_of :: "string \<Rightarrow> string \<Rightarrow> string option" where
  "entry_of dir path =
     (let p = dir @ ''/'' in
      if has_prefix path p then Some (takeWhile (\<lambda>c. c \<noteq> CHR ''/'') (drop (length p) path)) else None)"

definition entries :: "string \<Rightarrow> (string \<times> node) list \<Rightarrow> string list" where
  "entries dir fs = sort (remdups (List.map_filter (entry_of dir) (map fst fs)))"

definition is_dir :: "(string \<times> node) list \<Rightarrow> string \<Rightarrow> bool" where
  "is_dir fs path \<longleftrightarrow> map_of fs path = Some Dir \<or> list_ex (\<lambda>q. has_prefix q (path @ ''/'')) (map fst fs)"

text \<open>
  \<^verbatim>\<open>os.ReadDir\<close> with \<^verbatim>\<open>IsDir\<close> of each entry; None is \<^verbatim>\<open>os.IsNotExist\<close>, and a file
  at the path is another error.
\<close>

definition ListDir :: "('w, 'm) io_scheme \<Rightarrow> string \<Rightarrow> ('w, 'h, (string \<times> bool) list option) dact" where
  "ListDir I dir =
     seq (on_world (SysCall I ''readdir''))
    (andthen (gets files) (\<lambda>fs.
     fail_if (map_of fs dir \<noteq> None \<and> \<not> is_dir fs dir) (ErrExt ''not a directory'')
    (ret (if is_dir fs dir then Some (map (\<lambda>n. (n, is_dir fs (join_path dir n))) (entries dir fs)) else None))))"

text \<open>\<^verbatim>\<open>os.ReadFile\<close> of a document and \<^verbatim>\<open>os.Lstat\<close>: is there something at the path?\<close>

definition ReadDoc :: "('w, 'm) io_scheme \<Rightarrow> string \<Rightarrow> ('w, 'h, json option option) dact" where
  "ReadDoc I path =
     andthen (ReadFile I path) (\<lambda>d.
       case d of None \<Rightarrow> ret None | Some Dir \<Rightarrow> throw (ErrExt ''is a directory'') | Some (Doc j) \<Rightarrow> ret (Some j))"

definition Lstat :: "('w, 'm) io_scheme \<Rightarrow> string \<Rightarrow> ('w, 'h, bool) dact" where
  "Lstat I path = seq (on_world (SysCall I ''lstat'')) (gets (\<lambda>s. map_of (files s) path \<noteq> None \<or> is_dir (files s) path))"

text \<open>\<^verbatim>\<open>os.MkdirAll\<close> of a new directory and \<^verbatim>\<open>os.RemoveAll\<close>.\<close>

definition MkdirAll :: "('w, 'm) io_scheme \<Rightarrow> string \<Rightarrow> ('w, 'h, unit) dact" where
  "MkdirAll I path =
     seq (on_world (SysCall I ''mkdir''))
         (modify (\<lambda>s. if is_dir (files s) path then s else s\<lparr>files := AList.update path Dir (files s)\<rparr>))"

definition RemoveAll :: "('w, 'm) io_scheme \<Rightarrow> string \<Rightarrow> ('w, 'h, unit) dact" where
  "RemoveAll I path =
     seq (on_world (SysCall I ''removeall''))
         (modify (\<lambda>s. s\<lparr>files := filter (\<lambda>(p, d). p \<noteq> path \<and> \<not> has_prefix p (path @ ''/'')) (files s)\<rparr>))"

lemma asks_ListDir [eff_intros]: "within asks (ListDir I dir)"
  unfolding ListDir_def by (intro eff_intros)

lemma asks_Lstat [eff_intros]: "within asks (Lstat I path)"
  unfolding Lstat_def by (intro eff_intros)

lemma asks_node: "(\<And>j. within asks (f j)) \<Longrightarrow> within asks g \<Longrightarrow> within asks (case z of Dir \<Rightarrow> g | Doc j \<Rightarrow> f j)"
  by (cases z) simp_all

lemma asks_ReadDoc [eff_intros]: "within asks (ReadDoc I path)"
  unfolding ReadDoc_def by (intro eff_intros asks_node)

lemma ReadDoc_ok:
  assumes "ReadDoc I path s = (Inr d, t)"
  shows "map_of (files s) path = map_option Doc d \<and> asks s t"
proof -
  have a: "asks s t" by (rule withinD [OF asks_ReadDoc assms])
  from assms obtain x u where r: "ReadFile I path s = (Inr x, u)"
    and c: "(case x of None \<Rightarrow> ret None | Some Dir \<Rightarrow> throw (ErrExt ''is a directory'') | Some (Doc j) \<Rightarrow> ret (Some j)) u = (Inr d, t)"
    unfolding ReadDoc_def ok_andthen by blast
  from r have x: "x = map_of (files s) path" by (auto simp: ReadFile_def ok_simps on_world_def split: prod.splits)
  show ?thesis
  proof (cases x)
    case (Some n)
    with c a x show ?thesis by (cases n) (auto simp: ok_simps)
  qed (use c a x in \<open>auto simp: ok_simps\<close>)
qed

lemma Lstat_ok:
  assumes "Lstat I path s = (Inr b, t)"
  shows "(\<not> b \<longrightarrow> map_of (files s) path = None \<and> \<not> is_dir (files s) path) \<and> asks s t"
  using assms withinD [OF asks_Lstat assms] by (auto simp: Lstat_def ok_simps on_world_def split: prod.splits)

lemma ListDir_ok:
  assumes "ListDir I dir s = (Inr r, t)"
  shows "asks s t \<and> (r = None \<longleftrightarrow> \<not> is_dir (files s) dir) \<and>
    (\<forall>es. r = Some es \<longrightarrow> es = map (\<lambda>n. (n, is_dir (files s) (join_path dir n))) (entries dir (files s)))"
  using assms withinD [OF asks_ListDir assms] by (auto simp: ListDir_def ok_simps on_world_def split: prod.splits if_splits)

text \<open>A file below a directory is found by listing it.\<close>

lemma has_prefix_append_self [simp]: "has_prefix (p @ q) p"
  by (simp add: has_prefix_def)

lemma listed:
  assumes "map_of fs (join_path (join_path dir name) file) = Some x" and "CHR ''/'' \<notin> set name"
  shows "name \<in> set (entries dir fs) \<and> is_dir fs (join_path dir name) \<and> is_dir fs dir"
proof -
  let ?p = "join_path (join_path dir name) file"
  from assms(1) have p: "?p \<in> fst ` set fs" by (force dest: map_of_SomeD)
  have "takeWhile (\<lambda>c. c \<noteq> CHR ''/'') (name @ CHR ''/'' # file) = name"
    using assms(2) by (auto simp: takeWhile_append)
  then have "entry_of dir ?p = Some name"
    by (simp add: entry_of_def join_path_def has_prefix_def)
  with p have "name \<in> set (entries dir fs)" by (force simp: entries_def map_filter_def)
  moreover have "has_prefix ?p (join_path dir name @ ''/'')" "has_prefix ?p (dir @ ''/'')"
    by (simp_all add: join_path_def has_prefix_def)
  with p have "is_dir fs (join_path dir name)" "is_dir fs dir"
    by (fastforce simp: is_dir_def list_ex_iff)+
  ultimately show ?thesis by simp
qed

end
