(* ===== verification/Keystore.thy ===== *)
theory Keystore
  imports Dirs Decimal
begin

text \<open>
  internal/wallet/keystore.go: creating, importing, re-encrypting and reading the key of a wallet
  directory.  BIP-39, BIP-32 and the V3 encryption are libraries: they are the fields of
  \<open>keylib\<close>.  The semaphore that bounds the scrypt computations is the list of the directories
  whose manager is computing one.  The clearing of key bytes after use changes nothing a
  caller can see and is left out.
\<close>

section \<open>Libraries\<close>

type_synonym ext_key = bytes

record 'k Key =
  key_Address :: address
  key_PrivateKey :: 'k

record ('k, 'w) keylib =
  NewMnemonic :: "bytes \<Rightarrow> err + string"
  IsMnemonicValid :: "string \<Rightarrow> bool"
  NewSeed :: "string \<Rightarrow> string \<Rightarrow> bytes"
  NewMasterKey :: "bytes \<Rightarrow> err + ext_key"
  NewChildKey :: "ext_key \<Rightarrow> 32 word \<Rightarrow> err + ext_key"
  ToECDSA :: "ext_key \<Rightarrow> err + 'k"
  EncryptKey :: "'k Key \<Rightarrow> string \<Rightarrow> int \<Rightarrow> int \<Rightarrow> 'w \<Rightarrow> (err + json) \<times> 'w"
  DecryptV3 :: "json \<Rightarrow> string \<Rightarrow> err + 'k Key"

record ('k, 'w) kenv =
  ke_eth :: "'k ethlib"
  ke_os :: "'w io"
  ke_lib :: "('k, 'w) keylib"

section \<open>The manager\<close>

record KeystoreManager =
  km_coinType :: "32 word"
  km_catalogDir :: string
  km_walletDir :: string
  km_scryptN :: int
  km_scryptP :: int

record key_heap =
  kh_scrypt :: "string list"

type_synonym ('w, 'h, 'a) kact = "('w, node, 'h key_heap_scheme, 'a) act"

definition StandardScryptN :: int where
  "StandardScryptN = 262144"

definition NewKeystoreManager :: "string \<Rightarrow> int \<Rightarrow> int \<Rightarrow> KeystoreManager" where
  "NewKeystoreManager walletDir n p =
     \<lparr> km_coinType = 0, km_catalogDir = walletDir, km_walletDir = walletDir,
       km_scryptN = (if n \<le> 0 then StandardScryptN else n), km_scryptP = (if p \<le> 0 then 1 else p) \<rparr>"

definition keystorePath :: "KeystoreManager \<Rightarrow> string" where
  "keystorePath K = join_path (km_walletDir K) ''keystore.json''"

definition ValidatePassword :: "string \<Rightarrow> err + unit" where
  "ValidatePassword password =
     (let count = RuneCountInString password in
      if count < 12 \<or> 128 < count then Inl ErrInvalidPassword else Inr ())"

section \<open>Derivation\<close>

definition FirstHardenedChild :: "32 word" where
  "FirstHardenedChild = 0x80000000"

definition normalized :: "string \<Rightarrow> string" where
  "normalized mnemonic = join_space (Fields (TrimSpace mnemonic))"

definition deriveCoinKey :: "('k, 'w) kenv \<Rightarrow> string \<Rightarrow> 32 word \<Rightarrow> err + address \<times> 'k" where
  "deriveCoinKey V mnemonic coin =
     (let L = ke_lib V in
      if \<not> IsMnemonicValid L (normalized mnemonic) then Inl ErrInvalidMnemonic
      else let seed = NewSeed L (normalized mnemonic) [] in
        ebind (NewMasterKey L seed) (\<lambda>masterKey.
        ebind (NewChildKey L masterKey (FirstHardenedChild + 44)) (\<lambda>purpose.
        ebind (NewChildKey L purpose (FirstHardenedChild + coin)) (\<lambda>coinType.
        ebind (NewChildKey L coinType (FirstHardenedChild + 0)) (\<lambda>account.
        ebind (NewChildKey L account 0) (\<lambda>change.
        ebind (NewChildKey L change 0) (\<lambda>addressKey.
        ebind (ToECDSA L addressKey) (\<lambda>privKey.
          Inr (PubkeyAddress (ke_eth V) privKey, privKey)))))))))"

definition DeriveKey :: "('k, 'w) kenv \<Rightarrow> string \<Rightarrow> err + address \<times> 'k" where
  "DeriveKey V mnemonic = deriveCoinKey V mnemonic 60"

definition coin_of :: "KeystoreManager \<Rightarrow> 32 word" where
  "coin_of K = (if km_coinType K = 0 then 60 else km_coinType K)"

section \<open>Reading\<close>

definition KeystoreExists :: "('k, 'w) kenv \<Rightarrow> KeystoreManager \<Rightarrow> ('w, 'h, bool) kact" where
  "KeystoreExists V K =
     andthen (attempt (Lstat (ke_os V) (keystorePath K))) (\<lambda>r. ret (case r of Inl _ \<Rightarrow> False | Inr there \<Rightarrow> there))"

definition meta_address :: "json option \<Rightarrow> err + string" where
  "meta_address d = ebind (object d) (\<lambda>es. member str_field ''address'' es [])"

definition KeystoreAddress :: "('k, 'w) kenv \<Rightarrow> KeystoreManager \<Rightarrow> ('w, 'h, string) kact" where
  "KeystoreAddress V K =
     andthen (ReadDoc (ke_os V) (keystorePath K)) (\<lambda>data.
       case data of
         None \<Rightarrow> throw ErrWalletNotFound
       | Some d \<Rightarrow>
           (case meta_address d of
              Inl _ \<Rightarrow> throw (ErrNew ''keystore unreadable'')
            | Inr a \<Rightarrow>
                let a = (if has_prefix a ''0x'' then a else ''0x'' @ a) in
                (case ValidateAddress (ke_eth V) a of
                   Inl _ \<Rightarrow> throw (ErrNew ''keystore address'')
                 | Inr addr \<Rightarrow> ret (AddressHex (ke_eth V) addr))))"

text \<open>The semaphore: at most one scrypt computation per manager, refused rather than awaited.\<close>

definition with_scrypt :: "KeystoreManager \<Rightarrow> ('w, 'h, 'a) kact \<Rightarrow> ('w, 'h, 'a) kact" where
  "with_scrypt K m =
     andthen (get_heap kh_scrypt) (\<lambda>busy.
     fail_if (km_walletDir K \<in> set busy) ErrTooManyScryptRequests
    (seq (set_heap (kh_scrypt_update (\<lambda>b. km_walletDir K # b)))
    (andthen (attempt m) (\<lambda>r.
     seq (set_heap (kh_scrypt_update (remove1 (km_walletDir K))))
         (lift r)))))"

definition open_key :: "('k, 'w) kenv \<Rightarrow> json option \<Rightarrow> string \<Rightarrow> err + 'k Key" where
  "open_key V d password =
     (case d of None \<Rightarrow> Inl ErrPasswordMismatch
      | Some j \<Rightarrow> (case DecryptV3 (ke_lib V) j password of Inl _ \<Rightarrow> Inl ErrPasswordMismatch | Inr key \<Rightarrow> Inr key))"

definition Backup :: "('k, 'w) kenv \<Rightarrow> KeystoreManager \<Rightarrow> string \<Rightarrow> ('w, 'h, json option) kact" where
  "Backup V K password =
     andthen (ReadDoc (ke_os V) (keystorePath K)) (\<lambda>data.
       case data of
         None \<Rightarrow> throw ErrWalletNotFound
       | Some d \<Rightarrow> with_scrypt K (seq (lift (open_key V d password)) (ret d)))"

definition DecryptKey :: "('k, 'w) kenv \<Rightarrow> KeystoreManager \<Rightarrow> string \<Rightarrow> ('w, 'h, 'k Key) kact" where
  "DecryptKey V K password =
     andthen (ReadDoc (ke_os V) (keystorePath K)) (\<lambda>data.
       case data of
         None \<Rightarrow> throw ErrWalletNotFound
       | Some d \<Rightarrow> with_scrypt K (lift (open_key V d password)))"

section \<open>Writing\<close>

text \<open>No other account of the catalog has the address.\<close>

definition catalog_path :: "string \<Rightarrow> string \<Rightarrow> string" where
  "catalog_path dir name = join_path (join_path (join_path dir ''accounts'') name) ''keystore.json''"

definition check_account ::
    "('k, 'w) kenv \<Rightarrow> KeystoreManager \<Rightarrow> address \<Rightarrow> string \<Rightarrow> unit \<Rightarrow> ('w, 'h, unit) kact" where
  "check_account V K address path _ =
     (if path = keystorePath K then ret ()
      else andthen (ReadDoc (ke_os V) path) (\<lambda>data.
        case data of
          None \<Rightarrow> ret ()
        | Some d \<Rightarrow>
            (case meta_address d of
               Inl _ \<Rightarrow> throw (ErrNew ''account unreadable'')
             | Inr a \<Rightarrow> fail_if (HexToAddress (ke_eth V) a = address) (ErrNew ''duplicate address'') (ret ()))))"

definition checkDuplicateAddress ::
    "('k, 'w) kenv \<Rightarrow> KeystoreManager \<Rightarrow> address \<Rightarrow> ('w, 'h, unit) kact" where
  "checkDuplicateAddress V K address =
     andthen (ListDir (ke_os V) (join_path (km_catalogDir K) ''accounts'')) (\<lambda>listed.
       let names = map fst (filter snd (case listed of None \<Rightarrow> [] | Some es \<Rightarrow> es));
           paths = map (catalog_path (km_catalogDir K)) names @ [join_path (km_catalogDir K) ''keystore.json'']
       in for_each paths (check_account V K address) ())"

text \<open>What \<open>Create\<close>, \<open>Import\<close> and \<open>ImportKeystore\<close> share: check, encrypt, write.\<close>

definition store_key :: "('k, 'w) kenv \<Rightarrow> KeystoreManager \<Rightarrow> 'k Key \<Rightarrow> string \<Rightarrow> ('w, 'h, unit) kact" where
  "store_key V K key password =
     seq (checkDuplicateAddress V K (key_Address key))
    (andthen (on_world (EncryptKey (ke_lib V) key password (km_scryptN K) (km_scryptP K))) (\<lambda>keyJSON.
       atomicWriteFile (ke_os V) (keystorePath K) (Doc (Some keyJSON))))"

definition no_wallet :: "('k, 'w) kenv \<Rightarrow> KeystoreManager \<Rightarrow> ('w, 'h, unit) kact" where
  "no_wallet V K =
     andthen (map_err (\<lambda>_. ErrNew ''wallet state unreadable'') (Lstat (ke_os V) (keystorePath K))) (\<lambda>there.
       fail_if there ErrWalletExists (ret ()))"

record CreateResponse =
  cr_Address :: string
  cr_Mnemonic :: string

definition Create :: "('k, 'w) kenv \<Rightarrow> KeystoreManager \<Rightarrow> string \<Rightarrow> ('w, 'h, CreateResponse) kact" where
  "Create V K password =
     seq (lift (ValidatePassword password))
    (seq (no_wallet V K)
    (andthen (on_world (RandRead (ke_os V) 16)) (\<lambda>entropy.
     andthen (lift (NewMnemonic (ke_lib V) entropy)) (\<lambda>mnemonic.
     andthen (lift (deriveCoinKey V mnemonic (coin_of K))) (\<lambda>(addr, privKey).
     with_scrypt K
       (seq (store_key V K \<lparr> key_Address = addr, key_PrivateKey = privKey \<rparr> password)
            (ret \<lparr> cr_Address = AddressHex (ke_eth V) addr, cr_Mnemonic = mnemonic \<rparr>)))))))"

definition Import :: "('k, 'w) kenv \<Rightarrow> KeystoreManager \<Rightarrow> string \<Rightarrow> string \<Rightarrow> ('w, 'h, string) kact" where
  "Import V K mnemonic password =
     seq (lift (ValidatePassword password))
    (let wCount = length (Fields (TrimSpace mnemonic)) in
     fail_if (wCount \<noteq> 12 \<and> wCount \<noteq> 15 \<and> wCount \<noteq> 18 \<and> wCount \<noteq> 21 \<and> wCount \<noteq> 24) ErrInvalidMnemonic
    (andthen (lift (deriveCoinKey V mnemonic (coin_of K))) (\<lambda>(addr, privKey).
     seq (no_wallet V K)
    (with_scrypt K
       (seq (store_key V K \<lparr> key_Address = addr, key_PrivateKey = privKey \<rparr> password)
            (ret (AddressHex (ke_eth V) addr)))))))"

text \<open>A V3 file from elsewhere: the parameters of its scrypt run are bounded before it is run.\<close>

record CryptoJSON =
  cj_Cipher :: string
  cj_CipherText :: string
  cj_IV :: string
  cj_KDF :: string
  cj_KDFParams :: "(string \<times> json) list"
  cj_MAC :: string

definition v3_meta :: "json \<Rightarrow> err + int \<times> CryptoJSON" where
  "v3_meta data =
     ebind (object (Some data)) (\<lambda>es.
     ebind (member int_field ''version'' es 0) (\<lambda>version.
     ebind (members ''crypto'' es) (\<lambda>c.
     ebind (member str_field ''cipher'' c []) (\<lambda>cipher.
     ebind (member str_field ''ciphertext'' c []) (\<lambda>ciphertext.
     ebind (members ''cipherparams'' c) (\<lambda>ps.
     ebind (member str_field ''iv'' ps []) (\<lambda>iv.
     ebind (member str_field ''kdf'' c []) (\<lambda>kdf.
     ebind (member map_field ''kdfparams'' c []) (\<lambda>kdfparams.
     ebind (member str_field ''mac'' c []) (\<lambda>mac.
       Inr (version, \<lparr> cj_Cipher = cipher, cj_CipherText = ciphertext, cj_IV = iv, cj_KDF = kdf,
                       cj_KDFParams = kdfparams, cj_MAC = mac \<rparr>)))))))))))"

text \<open>A number that is a positive integer of at most 262144.\<close>

definition kdf_number :: "(string \<times> json) list \<Rightarrow> string \<Rightarrow> int option" where
  "kdf_number params name =
     (case map_of params name of
        Some (JInt i) \<Rightarrow> if 1 \<le> i \<and> i \<le> StandardScryptN then Some i else None
      | Some (JReal m e) \<Rightarrow>
          (let whole = (if 0 \<le> e then m * 2 ^ nat e else m div 2 ^ nat (- e)) in
           if (0 \<le> e \<or> whole * 2 ^ nat (- e) = m) \<and> 1 \<le> whole \<and> whole \<le> StandardScryptN then Some whole else None)
      | _ \<Rightarrow> None)"

definition decoded_length :: "string \<Rightarrow> nat option" where
  "decoded_length s = map_option length (hex_decode s)"

unbundle bit_operations_syntax

definition v3_check :: "nat \<Rightarrow> json \<Rightarrow> err + unit" where
  "v3_check len data =
     (case v3_meta data of
        Inl _ \<Rightarrow> Inl (ErrNew ''not a V3 scrypt keystore'')
      | Inr (version, c) \<Rightarrow>
          if 8192 < len \<or> version \<noteq> 3 \<or> cj_KDF c \<noteq> ''scrypt'' \<or> cj_Cipher c \<noteq> ''aes-128-ctr''
          then Inl (ErrNew ''not a V3 scrypt keystore'')
          else (case (kdf_number (cj_KDFParams c) ''n'', kdf_number (cj_KDFParams c) ''r'',
                      kdf_number (cj_KDFParams c) ''p'', kdf_number (cj_KDFParams c) ''dklen'') of
              (Some n, Some r, Some p, Some dklen) \<Rightarrow>
                if n < 2 \<or> n AND (n - 1) \<noteq> 0 \<or> r \<noteq> 8 \<or> 6 < p \<or> dklen \<noteq> 32
                then Inl (ErrNew ''scrypt parameters not supported'')
                else (case map_of (cj_KDFParams c) ''salt'' of
                    Some (JStr salt) \<Rightarrow>
                      (case (decoded_length salt, decoded_length (cj_IV c), decoded_length (cj_MAC c), decoded_length (cj_CipherText c)) of
                         (Some s, Some iv, Some mac, Some ct) \<Rightarrow>
                           if s < 16 \<or> 64 < s \<or> iv \<noteq> 16 \<or> mac \<noteq> 32 \<or> ct \<noteq> 32 then Inl (ErrNew ''keystore fields'') else Inr ()
                       | _ \<Rightarrow> Inl (ErrNew ''keystore fields''))
                  | _ \<Rightarrow> Inl (ErrNew ''keystore salt''))
            | _ \<Rightarrow> Inl (ErrNew ''scrypt parameters'')))"

text \<open>The document with its length in bytes; any answer of Lstat but "not there" is a wallet.\<close>

definition ImportKeystore ::
    "('k, 'w) kenv \<Rightarrow> KeystoreManager \<Rightarrow> nat \<Rightarrow> json \<Rightarrow> string \<Rightarrow> string \<Rightarrow> ('w, 'h, string) kact" where
  "ImportKeystore V K len data password newPassword =
     seq (lift (ValidatePassword newPassword))
    (seq (lift (v3_check len data))
    (andthen (map_err (\<lambda>_. ErrWalletExists) (Lstat (ke_os V) (keystorePath K))) (\<lambda>there.
     fail_if there ErrWalletExists
    (with_scrypt K
      (andthen (lift (open_key V (Some data) password)) (\<lambda>key.
       let key = key\<lparr>key_Address := PubkeyAddress (ke_eth V) (key_PrivateKey key)\<rparr> in
       seq (store_key V K key newPassword)
           (ret (AddressHex (ke_eth V) (key_Address key)))))))))"

definition ChangePassword ::
    "('k, 'w) kenv \<Rightarrow> KeystoreManager \<Rightarrow> string \<Rightarrow> string \<Rightarrow> ('w, 'h, unit) kact" where
  "ChangePassword V K password newPassword =
     seq (lift (ValidatePassword newPassword))
    (andthen (ReadDoc (ke_os V) (keystorePath K)) (\<lambda>data.
       case data of
         None \<Rightarrow> throw (ErrExt ''not found'')
       | Some d \<Rightarrow>
           with_scrypt K
             (andthen (lift (open_key V d password)) (\<lambda>key.
              andthen (on_world (EncryptKey (ke_lib V) key newPassword (km_scryptN K) (km_scryptP K))) (\<lambda>encrypted.
                atomicWriteFile (ke_os V) (keystorePath K) (Doc (Some encrypted)))))))"

end
