(* ===== verification/KeystoreFacts.thy ===== *)
theory KeystoreFacts
  imports Keystore
begin

text \<open>
  What the key store keeps: a wallet directory is never written over by a new key, a key that
  is there stays there through every operation and every failure, and no two accounts of a
  catalog have the same address.
\<close>

section \<open>Effects\<close>

lemma wp_with_scrypt:
  assumes "km_walletDir K \<in> set (kh_scrypt (heap s)) \<Longrightarrow> F ErrTooManyScryptRequests s"
    and "km_walletDir K \<notin> set (kh_scrypt (heap s)) \<Longrightarrow>
      wp m (\<lambda>x t. Q x (t\<lparr>heap := kh_scrypt_update (remove1 (km_walletDir K)) (heap t)\<rparr>))
           (\<lambda>e t. F e (t\<lparr>heap := kh_scrypt_update (remove1 (km_walletDir K)) (heap t)\<rparr>))
           (s\<lparr>heap := kh_scrypt_update ((#) (km_walletDir K)) (heap s)\<rparr>)"
  shows "wp (with_scrypt K m) Q F s"
  unfolding with_scrypt_def wp_simps
  using assms by (auto simp: wp_simps)

lemma asks_check_account [eff_intros]: "within asks (check_account V K a p u)"
  unfolding check_account_def by (intro eff_intros)

lemma asks_checkDuplicateAddress [eff_intros]: "within asks (checkDuplicateAddress V K a)"
  unfolding checkDuplicateAddress_def Let_def by (intro eff_intros)

lemma asks_no_wallet [eff_intros]: "within asks (no_wallet V K)"
  unfolding no_wallet_def by (intro eff_intros)

section \<open>What is known when a key is written\<close>

definition address_at :: "('k, 'w) kenv \<Rightarrow> (string \<times> node) list \<Rightarrow> string \<Rightarrow> address option" where
  "address_at V fs p =
     (case map_of fs p of
        Some (Doc d) \<Rightarrow> (case meta_address d of Inl _ \<Rightarrow> None | Inr a \<Rightarrow> Some (HexToAddress (ke_eth V) a))
      | _ \<Rightarrow> None)"

definition in_catalog :: "string \<Rightarrow> string \<Rightarrow> bool" where
  "in_catalog dir p \<longleftrightarrow>
     p = join_path dir ''keystore.json'' \<or> (\<exists>name. CHR ''/'' \<notin> set name \<and> p = catalog_path dir name)"

definition unused_address :: "('k, 'w) kenv \<Rightarrow> KeystoreManager \<Rightarrow> (string \<times> node) list \<Rightarrow> address \<Rightarrow> bool" where
  "unused_address V K fs a \<longleftrightarrow>
     (\<forall>p. in_catalog (km_catalogDir K) p \<and> p \<noteq> keystorePath K \<longrightarrow> address_at V fs p \<noteq> Some a)"

lemma check_accounts_ok:
  assumes "for_each paths (check_account V K a) u s = (Inr v, t)" and "p \<in> set paths" and "p \<noteq> keystorePath K"
  shows "address_at V (files s) p \<noteq> Some a"
  using assms(1,2)
proof (induction paths arbitrary: u s)
  case Nil
  then show ?case by simp
next
  case (Cons q paths)
  then obtain x s' where q: "check_account V K a q u s = (Inr x, s')"
    and rest: "for_each paths (check_account V K a) x s' = (Inr v, t)"
    by (auto simp: ok_simps)
  have files: "files s' = files s" using withinD [OF asks_check_account q] by (simp add: asks_def)
  show ?case
  proof (cases "p \<in> set paths")
    case True
    from Cons.IH [OF rest this] files show ?thesis by simp
  next
    case False
    with Cons.prems(2) have "p = q" by simp
    with q assms(3) show ?thesis
      by (auto simp: check_account_def ok_simps address_at_def dest!: ReadDoc_ok elim: throw_not_ok
          split: option.splits sum.splits node.splits)
  qed
qed

lemma checkDuplicateAddress_ok:
  assumes "checkDuplicateAddress V K a s = (Inr u, t)"
  shows "unused_address V K (files s) a"
proof -
  from assms obtain listed s' where l: "ListDir (ke_os V) (join_path (km_catalogDir K) ''accounts'') s = (Inr listed, s')"
    and each: "for_each (map (catalog_path (km_catalogDir K)) (map fst (filter snd (case listed of None \<Rightarrow> [] | Some es \<Rightarrow> es))) @
      [join_path (km_catalogDir K) ''keystore.json'']) (check_account V K a) () s' = (Inr u, t)"
    unfolding checkDuplicateAddress_def Let_def ok_simps by blast
  from ListDir_ok [OF l] have files: "files s' = files s" by (simp add: asks_def)
  have "address_at V (files s) p \<noteq> Some a" if p: "in_catalog (km_catalogDir K) p" "p \<noteq> keystorePath K" for p
  proof (cases "p = join_path (km_catalogDir K) ''keystore.json''")
    case True
    with check_accounts_ok [OF each _ p(2)] files show ?thesis by simp
  next
    case False
    with p obtain name where n: "CHR ''/'' \<notin> set name" "p = catalog_path (km_catalogDir K) name"
      by (auto simp: in_catalog_def)
    show ?thesis
    proof (cases "map_of (files s) p")
      case None
      then show ?thesis by (simp add: address_at_def)
    next
      case (Some x)
      let ?acc = "join_path (km_catalogDir K) ''accounts''"
      from listed [OF Some [unfolded n(2) catalog_path_def] n(1)]
      have d: "name \<in> set (entries ?acc (files s))" "is_dir (files s) (join_path ?acc name)" "is_dir (files s) ?acc"
        by simp_all
      with ListDir_ok [OF l] obtain es where es: "listed = Some es"
        "es = map (\<lambda>n. (n, is_dir (files s) (join_path ?acc n))) (entries ?acc (files s))"
        by (cases listed) auto
      with d(1,2) have "(name, True) \<in> set es" by (simp add: image_iff)
      then have "name \<in> set (map fst (filter snd es))" by (force simp: image_iff)
      with es(1) have "name \<in> set (map fst (filter snd (case listed of None \<Rightarrow> [] | Some es \<Rightarrow> es)))" by simp
      then have "p \<in> set (map (catalog_path (km_catalogDir K)) (map fst (filter snd (case listed of None \<Rightarrow> [] | Some es \<Rightarrow> es))) @
          [join_path (km_catalogDir K) ''keystore.json''])"
        unfolding n(2) set_append set_map [of "catalog_path _"] by (intro UnI1 imageI)
      from check_accounts_ok [OF each this p(2)] files show ?thesis by simp
    qed
  qed
  then show ?thesis by (simp add: unused_address_def)
qed

text \<open>The outcomes of an operation that stores a new key.\<close>

definition writes_key ::
    "('k, 'w) kenv \<Rightarrow> KeystoreManager \<Rightarrow> 'k Key \<Rightarrow> string \<Rightarrow> (string \<times> node) list \<Rightarrow> (string \<times> node) list \<Rightarrow> bool" where
  "writes_key V K key password fs fs' \<longleftrightarrow>
     (\<exists>j w w'. EncryptKey (ke_lib V) key password (km_scryptN K) (km_scryptP K) w = (Inr j, w') \<and>
        fs' = AList.update (keystorePath K) (Doc (Some j)) fs)"

lemma wp_store_key:
  assumes "\<And>t. files t = files s \<Longrightarrow> heap t = heap s \<Longrightarrow> F () t"
    and "\<And>t. heap t = heap s \<Longrightarrow> unused_address V K (files s) (key_Address key) \<Longrightarrow>
      writes_key V K key password (files s) (files t) \<Longrightarrow> Q () t \<and> F () t"
  shows "wp (store_key V K key password) (\<lambda>_. Q ()) (\<lambda>_. F ()) s"
  unfolding store_key_def wp_simps
proof (rule wp_runI)
  fix e t
  assume "checkDuplicateAddress V K (key_Address key) s = (Inl e, t)"
  from withinD [OF asks_checkDuplicateAddress this] show "F () t" by (intro assms(1)) (simp_all add: asks_def)
next
  fix x t
  assume c: "checkDuplicateAddress V K (key_Address key) s = (Inr x, t)"
  from withinD [OF asks_checkDuplicateAddress c] have same: "files t = files s" "heap t = heap s" by (simp_all add: asks_def)
  note unused = checkDuplicateAddress_ok [OF c]
  show "wp (on_world (EncryptKey (ke_lib V) key password (km_scryptN K) (km_scryptP K)))
      (\<lambda>j. wp (atomicWriteFile (ke_os V) (keystorePath K) (Doc (Some j))) (\<lambda>_. Q ()) (\<lambda>_. F ())) (\<lambda>_. F ()) t"
  proof (rule wp_on_world)
    fix j w
    assume "EncryptKey (ke_lib V) key password (km_scryptN K) (km_scryptP K) (world t) = (Inr j, w)"
    then have "writes_key V K key password (files s) (AList.update (keystorePath K) (Doc (Some j)) (files s))"
      by (auto simp: writes_key_def)
    with unused same have "Q () ((put_file (keystorePath K) (Doc (Some j)) t)\<lparr>world := w'\<rparr>) \<and>
        F () ((put_file (keystorePath K) (Doc (Some j)) t)\<lparr>world := w'\<rparr>)" for w'
      by (intro assms(2)) simp_all
    with same show "wp (atomicWriteFile (ke_os V) (keystorePath K) (Doc (Some j))) (\<lambda>_. Q ()) (\<lambda>_. F ()) (t\<lparr>world := w\<rparr>)"
      by (intro wp_atomicWriteFile) (simp_all add: assms(1))
  qed (use same in \<open>auto intro: assms(1)\<close>)
qed

section \<open>The outcomes of an operation\<close>

definition untouched :: "('w, node, 'h key_heap_scheme) sys \<Rightarrow> ('w, node, 'h key_heap_scheme) sys \<Rightarrow> bool" where
  "untouched s t \<longleftrightarrow> files t = files s \<and> kh_scrypt (heap t) = kh_scrypt (heap s)"

definition stored ::
    "('k, 'w) kenv \<Rightarrow> KeystoreManager \<Rightarrow> 'k Key \<Rightarrow> string \<Rightarrow>
       ('w, node, 'h key_heap_scheme) sys \<Rightarrow> ('w, node, 'h key_heap_scheme) sys \<Rightarrow> bool" where
  "stored V K key password s t \<longleftrightarrow>
     map_of (files s) (keystorePath K) = None \<and> unused_address V K (files s) (key_Address key) \<and>
     key_Address key = PubkeyAddress (ke_eth V) (key_PrivateKey key) \<and>
     writes_key V K key password (files s) (files t) \<and> kh_scrypt (heap t) = kh_scrypt (heap s)"

definition new_wallet ::
    "('k, 'w) kenv \<Rightarrow> KeystoreManager \<Rightarrow> ('w, node, 'h key_heap_scheme) sys \<Rightarrow> ('w, node, 'h key_heap_scheme) sys \<Rightarrow> bool" where
  "new_wallet V K s t \<longleftrightarrow> untouched s t \<or> (\<exists>key password. stored V K key password s t)"

lemma wp_asks:
  assumes "within asks m" and "\<And>x t. m s = (Inr x, t) \<Longrightarrow> files t = files s \<Longrightarrow> heap t = heap s \<Longrightarrow> Q x t"
    and "\<And>e t. files t = files s \<Longrightarrow> heap t = heap s \<Longrightarrow> F e t"
  shows "wp m Q F s"
proof (rule wp_runI)
  show "Q x t" if "m s = (Inr x, t)" for x t
    using withinD [OF assms(1) that] assms(2) [OF that] by (simp add: asks_def)
  show "F e t" if "m s = (Inl e, t)" for e t
    using withinD [OF assms(1) that] assms(3) by (simp add: asks_def)
qed

lemma no_wallet_ok: "no_wallet V K s = (Inr u, t) \<Longrightarrow> map_of (files s) (keystorePath K) = None"
  by (auto simp: no_wallet_def ok_simps dest!: Lstat_ok)

lemma wp_locked_store:
  assumes "map_of (files s) (keystorePath K) = None"
    and "key_Address key = PubkeyAddress (ke_eth V) (key_PrivateKey key)"
  shows "wp (with_scrypt K (seq (store_key V K key password) (ret r)))
    (\<lambda>x t. x = r \<and> stored V K key password s t) (\<lambda>_ t. untouched s t \<or> stored V K key password s t) s"
proof (rule wp_with_scrypt)
  let ?s = "s\<lparr>heap := kh_scrypt_update ((#) (km_walletDir K)) (heap s)\<rparr>"
  show "wp (seq (store_key V K key password) (ret r))
      (\<lambda>x t. x = r \<and> stored V K key password s (t\<lparr>heap := kh_scrypt_update (remove1 (km_walletDir K)) (heap t)\<rparr>))
      (\<lambda>_ t. untouched s (t\<lparr>heap := kh_scrypt_update (remove1 (km_walletDir K)) (heap t)\<rparr>) \<or>
        stored V K key password s (t\<lparr>heap := kh_scrypt_update (remove1 (km_walletDir K)) (heap t)\<rparr>)) ?s"
    unfolding wp_simps
    by (rule wp_store_key) (use assms in \<open>auto simp: untouched_def stored_def\<close>)
qed (simp add: untouched_def)

lemma untouched_new: "untouched s t \<Longrightarrow> new_wallet V K s t"
  by (simp add: new_wallet_def)

lemma same_untouched: "files t = files s \<Longrightarrow> heap t = heap s \<Longrightarrow> untouched s t"
  by (simp add: untouched_def)

lemma derived_address: "deriveCoinKey V m c = Inr (a, k) \<Longrightarrow> a = PubkeyAddress (ke_eth V) k"
  by (auto simp: deriveCoinKey_def Let_def ebind_eq_Inr split: if_splits)

lemma stored_from:
  "files u = files s \<Longrightarrow> heap u = heap s \<Longrightarrow> stored V K key password u t = stored V K key password s t"
  "files u = files s \<Longrightarrow> heap u = heap s \<Longrightarrow> untouched u t = untouched s t"
  by (simp_all add: stored_def untouched_def)

definition created :: "('k, 'w) kenv \<Rightarrow> KeystoreManager \<Rightarrow> string \<Rightarrow> string \<Rightarrow> string \<Rightarrow>
    ('w, node, 'h key_heap_scheme) sys \<Rightarrow> ('w, node, 'h key_heap_scheme) sys \<Rightarrow> bool" where
  "created V K mnemonic address password s t \<longleftrightarrow>
     (\<exists>key. deriveCoinKey V mnemonic (coin_of K) = Inr (key_Address key, key_PrivateKey key) \<and>
        address = AddressHex (ke_eth V) (key_Address key) \<and> stored V K key password s t)"

lemma wp_locked_new:
  assumes "map_of (files u) (keystorePath K) = None"
    and "key_Address key = PubkeyAddress (ke_eth V) (key_PrivateKey key)"
    and "files u = files s" and "heap u = heap s"
    and "\<And>t. stored V K key password s t \<Longrightarrow> Q r t"
  shows "wp (with_scrypt K (seq (store_key V K key password) (ret r))) Q (\<lambda>_ t. new_wallet V K s t) u"
proof (rule wp_mono [OF wp_locked_store [OF assms(1,2)]])
  show "Q x t" if "x = r \<and> stored V K key password u t" for x t
    using that stored_from(1) [OF assms(3,4), of V K key password t] assms(5) by simp
  show "new_wallet V K s t" if "untouched u t \<or> stored V K key password u t" for t
    using that stored_from(1) [OF assms(3,4), of V K key password t] stored_from(2) [OF assms(3,4), of t]
    unfolding new_wallet_def by blast
qed

lemma wp_created:
  assumes "map_of (files u) (keystorePath K) = None" and "deriveCoinKey V mnemonic (coin_of K) = Inr (a, k)"
    and "files u = files s" and "heap u = heap s"
    and "\<And>t. created V K mnemonic (AddressHex (ke_eth V) a) password s t \<Longrightarrow> Q r t"
  shows "wp (with_scrypt K (seq (store_key V K \<lparr> key_Address = a, key_PrivateKey = k \<rparr> password) (ret r)))
    Q (\<lambda>_ t. new_wallet V K s t) u"
proof (rule wp_locked_new [OF assms(1) _ assms(3,4)])
  let ?key = "\<lparr> key_Address = a, key_PrivateKey = k \<rparr>"
  show "key_Address ?key = PubkeyAddress (ke_eth V) (key_PrivateKey ?key)"
    using derived_address [OF assms(2)] by simp
  show "Q r t" if "stored V K ?key password s t" for t
    by (rule assms(5)) (use assms(2) that in \<open>auto simp: created_def intro!: exI [of _ ?key]\<close>)
qed

lemma wp_Create:
  "wp (Create V K password) (\<lambda>r t. created V K (cr_Mnemonic r) (cr_Address r) password s t) (\<lambda>_ t. new_wallet V K s t) s"
proof -
  have stop: "new_wallet V K s t" if "files t = files s" "heap t = heap s" for t
    using that by (intro untouched_new same_untouched)
  show ?thesis
    unfolding Create_def wp_simps
    apply (cases "ValidatePassword password"; simp only: sum.case stop)
    apply (rule wp_asks [OF asks_no_wallet])
     apply (drule no_wallet_ok)
     apply (rule wp_asks [OF asks_on_world])
      apply (auto simp: stop intro!: wp_created split: sum.split)
    done
qed

lemma wp_Import:
  "wp (Import V K mnemonic password) (\<lambda>a t. created V K mnemonic a password s t) (\<lambda>_ t. new_wallet V K s t) s"
proof -
  have stop: "new_wallet V K s s" by (simp add: untouched_new same_untouched)
  have "wp (no_wallet V K) (\<lambda>_. wp (with_scrypt K
          (seq (store_key V K \<lparr> key_Address = a, key_PrivateKey = k \<rparr> password) (ret (AddressHex (ke_eth V) a))))
        (\<lambda>a t. created V K mnemonic a password s t) (\<lambda>_ t. new_wallet V K s t)) (\<lambda>_ t. new_wallet V K s t) s"
    if "deriveCoinKey V mnemonic (coin_of K) = Inr (a, k)" for a k
  proof (rule wp_asks [OF asks_no_wallet])
    fix x t
    assume t: "no_wallet V K s = (Inr x, t)" "files t = files s" "heap t = heap s"
    show "wp (with_scrypt K
          (seq (store_key V K \<lparr> key_Address = a, key_PrivateKey = k \<rparr> password) (ret (AddressHex (ke_eth V) a))))
        (\<lambda>a t. created V K mnemonic a password s t) (\<lambda>_ t. new_wallet V K s t) t"
      using no_wallet_ok [OF t(1)] t that by (intro wp_created) simp_all
  qed (simp_all add: untouched_new same_untouched)
  with stop show ?thesis
    unfolding Import_def wp_simps split_def Let_def
    by (simp split: sum.split prod.split)
qed

lemma andthen_lift: "andthen (lift (Inr x)) f = f x"
  by (simp add: andthen_def lift_def)

lemma writes_keyI:
  "EncryptKey (ke_lib V) key password (km_scryptN K) (km_scryptP K) w = (Inr j, w') \<Longrightarrow>
     writes_key V K key password fs (AList.update (keystorePath K) (Doc (Some j)) fs)"
  by (auto simp: writes_key_def)

lemma wp_ImportKeystore:
  "wp (ImportKeystore V K len data password newPassword) (\<lambda>_ t. new_wallet V K s t) (\<lambda>_ t. new_wallet V K s t) s"
proof -
  have "wp (with_scrypt K (andthen (lift (open_key V (Some data) password)) (\<lambda>key.
        seq (store_key V K (key\<lparr>key_Address := PubkeyAddress (ke_eth V) (key_PrivateKey key)\<rparr>) newPassword)
            (ret (AddressHex (ke_eth V) (PubkeyAddress (ke_eth V) (key_PrivateKey key)))))))
        (\<lambda>_ t. new_wallet V K s t) (\<lambda>_ t. new_wallet V K s t) u"
    if u: "files u = files s" "heap u = heap s" "map_of (files s) (keystorePath K) = None" for u
  proof (cases "open_key V (Some data) password")
    case (Inl e)
    with u show ?thesis by (intro wp_with_scrypt) (auto simp: wp_simps new_wallet_def untouched_def)
  next
    case (Inr key)
    from u show ?thesis unfolding Inr andthen_lift
      by (intro wp_locked_new) (auto simp: new_wallet_def)
  qed
  note locked = this
  have stop: "new_wallet V K s t" if "files t = files s" "heap t = heap s" for t
    using that by (intro untouched_new same_untouched)
  show ?thesis
    unfolding ImportKeystore_def Let_def wp_simps
    apply (cases "ValidatePassword newPassword"; simp only: sum.case stop)
    apply (cases "v3_check len data"; simp only: sum.case stop)
    apply (rule wp_asks [OF asks_Lstat])
     apply (drule Lstat_ok)
     apply (auto simp: stop intro!: locked)
    done
qed

text \<open>Changing the password writes the key that the old one opens, under the new one.\<close>

definition rekeyed :: "('k, 'w) kenv \<Rightarrow> KeystoreManager \<Rightarrow> string \<Rightarrow> string \<Rightarrow>
    ('w, node, 'h key_heap_scheme) sys \<Rightarrow> ('w, node, 'h key_heap_scheme) sys \<Rightarrow> bool" where
  "rekeyed V K password newPassword s t \<longleftrightarrow>
     (\<exists>d key. map_of (files s) (keystorePath K) = Some (Doc d) \<and> open_key V d password = Inr key \<and>
        writes_key V K key newPassword (files s) (files t)) \<and> kh_scrypt (heap t) = kh_scrypt (heap s)"

lemma wp_ChangePassword:
  "wp (ChangePassword V K password newPassword) (\<lambda>_ t. rekeyed V K password newPassword s t)
     (\<lambda>_ t. untouched s t \<or> rekeyed V K password newPassword s t) s"
proof -
  have "wp (with_scrypt K
             (andthen (lift (open_key V d password)) (\<lambda>key.
              andthen (on_world (EncryptKey (ke_lib V) key newPassword (km_scryptN K) (km_scryptP K))) (\<lambda>encrypted.
                atomicWriteFile (ke_os V) (keystorePath K) (Doc (Some encrypted))))))
        (\<lambda>_ t. rekeyed V K password newPassword s t) (\<lambda>_ t. untouched s t \<or> rekeyed V K password newPassword s t) u"
    if u: "files u = files s" "heap u = heap s" "map_of (files s) (keystorePath K) = Some (Doc d)" for u d
  proof (cases "open_key V d password")
    case (Inl e)
    with u show ?thesis by (intro wp_with_scrypt) (auto simp: wp_simps untouched_def)
  next
    case (Inr key)
    from u show ?thesis unfolding Inr andthen_lift
      by (intro wp_with_scrypt)
         (auto simp: wp_simps untouched_def rekeyed_def Inr intro!: wp_on_world wp_atomicWriteFile intro: writes_keyI)
  qed
  then show ?thesis
    unfolding ChangePassword_def wp_simps
    by (auto intro!: wp_asks [OF asks_ReadDoc] same_untouched split: sum.splits option.splits simp: wp_simps dest!: ReadDoc_ok)
qed

section \<open>Laws of the encryption\<close>

text \<open>
  A V3 document names the address of the key it was made from and opens, with the password it
  was made with, to the private key; its authentication code leaves no password that opens it
  to another key.  Decryption computes the address from the private key.
\<close>

definition v3_laws :: "('k, 'w) kenv \<Rightarrow> bool" where
  "v3_laws V \<longleftrightarrow>
     (\<forall>key pass n p w j w'. EncryptKey (ke_lib V) key pass n p w = (Inr j, w') \<longrightarrow>
        (\<exists>a. meta_address (Some j) = Inr a \<and> HexToAddress (ke_eth V) a = key_Address key) \<and>
        (\<exists>key'. DecryptV3 (ke_lib V) j pass = Inr key' \<and> key_PrivateKey key' = key_PrivateKey key)) \<and>
     (\<forall>j pass pass' key key'. DecryptV3 (ke_lib V) j pass = Inr key \<longrightarrow> DecryptV3 (ke_lib V) j pass' = Inr key' \<longrightarrow>
        key_PrivateKey key' = key_PrivateKey key) \<and>
     (\<forall>j pass key. DecryptV3 (ke_lib V) j pass = Inr key \<longrightarrow> key_Address key = PubkeyAddress (ke_eth V) (key_PrivateKey key))"

lemma v3D:
  assumes "v3_laws V"
  shows "EncryptKey (ke_lib V) key pass n p w = (Inr j, w') \<Longrightarrow>
      \<exists>a. meta_address (Some j) = Inr a \<and> HexToAddress (ke_eth V) a = key_Address key"
    and "EncryptKey (ke_lib V) key pass n p w = (Inr j, w') \<Longrightarrow>
      \<exists>key'. DecryptV3 (ke_lib V) j pass = Inr key' \<and> key_PrivateKey key' = key_PrivateKey key"
    and "DecryptV3 (ke_lib V) j pass = Inr key \<Longrightarrow> DecryptV3 (ke_lib V) j pass' = Inr key' \<Longrightarrow>
      key_PrivateKey key' = key_PrivateKey key"
    and "DecryptV3 (ke_lib V) j pass = Inr key \<Longrightarrow> key_Address key = PubkeyAddress (ke_eth V) (key_PrivateKey key)"
  using assms unfolding v3_laws_def by (elim conjE; metis)+

lemma v3_written:
  assumes "v3_laws V" and "writes_key V K key pass fs fs'"
  shows "\<exists>j key'. fs' = AList.update (keystorePath K) (Doc (Some j)) fs \<and>
    address_at V fs' (keystorePath K) = Some (key_Address key) \<and>
    DecryptV3 (ke_lib V) j pass = Inr key' \<and> key_PrivateKey key' = key_PrivateKey key"
proof -
  from assms(2) obtain j w w' where j: "EncryptKey (ke_lib V) key pass (km_scryptN K) (km_scryptP K) w = (Inr j, w')"
    "fs' = AList.update (keystorePath K) (Doc (Some j)) fs" by (auto simp: writes_key_def)
  from v3D(1) [OF assms(1) j(1)] obtain a where "meta_address (Some j) = Inr a"
    "HexToAddress (ke_eth V) a = key_Address key" by blast
  with j(2) have "address_at V fs' (keystorePath K) = Some (key_Address key)" by (simp add: address_at_def)
  with v3D(2) [OF assms(1) j(1)] j(2) show ?thesis by blast
qed

section \<open>The catalog\<close>

text \<open>
  The invariant: no two key files of the catalog have one address, and each file names the
  address of the key it opens to.
\<close>

definition catalog_ok :: "('k, 'w) kenv \<Rightarrow> string \<Rightarrow> (string \<times> node) list \<Rightarrow> bool" where
  "catalog_ok V dir fs \<longleftrightarrow>
     (\<forall>p q a. in_catalog dir p \<longrightarrow> in_catalog dir q \<longrightarrow> address_at V fs p = Some a \<longrightarrow> address_at V fs q = Some a \<longrightarrow> p = q) \<and>
     (\<forall>p j pass key. in_catalog dir p \<longrightarrow> map_of fs p = Some (Doc (Some j)) \<longrightarrow> DecryptV3 (ke_lib V) j pass = Inr key \<longrightarrow>
        address_at V fs p = Some (key_Address key))"

definition holds_key :: "('k, 'w) kenv \<Rightarrow> (string \<times> node) list \<Rightarrow> string \<Rightarrow> 'k \<Rightarrow> bool" where
  "holds_key V fs p k \<longleftrightarrow>
     (\<exists>j pass key. map_of fs p = Some (Doc (Some j)) \<and> DecryptV3 (ke_lib V) j pass = Inr key \<and> key_PrivateKey key = k)"

inductive key_op ::
    "('k, 'w) kenv \<Rightarrow> string \<Rightarrow> ('w, node, 'h key_heap_scheme) sys \<Rightarrow> ('w, node, 'h key_heap_scheme) sys \<Rightarrow> bool"
  for V :: "('k, 'w) kenv" and dir :: string
  where
    create: "km_catalogDir K = dir \<Longrightarrow> in_catalog dir (keystorePath K) \<Longrightarrow> Create V K password s = (r, t) \<Longrightarrow> key_op V dir s t"
  | import_mnemonic: "km_catalogDir K = dir \<Longrightarrow> in_catalog dir (keystorePath K) \<Longrightarrow> Import V K mnemonic password s = (r', t) \<Longrightarrow>
      key_op V dir s t"
  | import_file: "km_catalogDir K = dir \<Longrightarrow> in_catalog dir (keystorePath K) \<Longrightarrow>
      ImportKeystore V K len data password newPassword s = (r', t) \<Longrightarrow> key_op V dir s t"
  | change: "km_catalogDir K = dir \<Longrightarrow> in_catalog dir (keystorePath K) \<Longrightarrow> ChangePassword V K password newPassword s = (u, t) \<Longrightarrow>
      key_op V dir s t"
  | read: "asks s t \<Longrightarrow> key_op V dir s t"

lemma wp_outcome: "wp m (\<lambda>_. P) (\<lambda>_. P) s \<Longrightarrow> m s = (r, t) \<Longrightarrow> P t"
  by (cases r) (auto simp: wp_def)

lemma created_new: "created V K m a pw s t \<Longrightarrow> new_wallet V K s t"
  unfolding created_def new_wallet_def by blast

lemma created_outcome:
  "Create V K password s = (r, t) \<Longrightarrow> new_wallet V K s t"
  "Import V K mnemonic password s = (r', t) \<Longrightarrow> new_wallet V K s t"
proof -
  have "wp (Create V K password) (\<lambda>_ t. new_wallet V K s t) (\<lambda>_ t. new_wallet V K s t) s"
    by (rule wp_mono [OF wp_Create]) (simp_all add: created_new)
  then show "Create V K password s = (r, t) \<Longrightarrow> new_wallet V K s t" by (rule wp_outcome)
  have "wp (Import V K mnemonic password) (\<lambda>_ t. new_wallet V K s t) (\<lambda>_ t. new_wallet V K s t) s"
    by (rule wp_mono [OF wp_Import]) (simp_all add: created_new)
  then show "Import V K mnemonic password s = (r', t) \<Longrightarrow> new_wallet V K s t" by (rule wp_outcome)
qed

text \<open>Every operation stores a new key where there was none, writes a key again, or changes no file.\<close>

lemma key_op_cases:
  assumes "key_op V dir s t"
  obtains (same) "files t = files s" "kh_scrypt (heap t) = kh_scrypt (heap s)"
    | (new) K key pass where "km_catalogDir K = dir" "in_catalog dir (keystorePath K)" "stored V K key pass s t"
    | (again) K pass pass' where "km_catalogDir K = dir" "in_catalog dir (keystorePath K)" "rekeyed V K pass pass' s t"
proof -
  have new: thesis if "km_catalogDir K = dir" "in_catalog dir (keystorePath K)" "new_wallet V K s t" for K
    using that same \<open>\<And>K key pass. _ \<Longrightarrow> _ \<Longrightarrow> stored V K key pass s t \<Longrightarrow> thesis\<close>
    unfolding new_wallet_def untouched_def by blast
  from assms show thesis
  proof cases
    case (create K password r)
    from created_outcome(1) [OF create(3)] create show thesis by (intro new)
  next
    case (import_mnemonic K mnemonic password r)
    from created_outcome(2) [OF import_mnemonic(3)] import_mnemonic show thesis by (intro new)
  next
    case (import_file K len data password newPassword r)
    from wp_outcome [OF wp_ImportKeystore import_file(3)] import_file show thesis by (intro new)
  next
    case (change K password newPassword u)
    have "wp (ChangePassword V K password newPassword) (\<lambda>_ t. untouched s t \<or> rekeyed V K password newPassword s t)
       (\<lambda>_ t. untouched s t \<or> rekeyed V K password newPassword s t) s"
      by (rule wp_mono [OF wp_ChangePassword]) auto
    from wp_outcome [OF this change(3)] change same again show thesis unfolding untouched_def by blast
  next
    case read
    then show thesis by (intro same) (simp_all add: asks_def)
  qed
qed

lemma address_at_put: "address_at V (AList.update p d fs) q = (if q = p then address_at V [(p, d)] p else address_at V fs q)"
  by (simp add: address_at_def)

lemma catalog_put:
  assumes "catalog_ok V dir fs" and "v3_laws V" and "writes_key V K key pass fs fs'"
    and "key_Address key = PubkeyAddress (ke_eth V) (key_PrivateKey key)"
    and "\<And>p. in_catalog dir p \<Longrightarrow> p \<noteq> keystorePath K \<Longrightarrow> address_at V fs p \<noteq> Some (key_Address key)"
  shows "catalog_ok V dir fs'"
proof -
  from v3_written [OF assms(2,3)] obtain j key0 where j: "fs' = AList.update (keystorePath K) (Doc (Some j)) fs"
    "address_at V fs' (keystorePath K) = Some (key_Address key)"
    "DecryptV3 (ke_lib V) j pass = Inr key0" "key_PrivateKey key0 = key_PrivateKey key" by blast
  have other: "address_at V fs' p = address_at V fs p" "map_of fs' p = map_of fs p" if "p \<noteq> keystorePath K" for p
    using that j(1) by (simp_all add: address_at_def)
  have same: "key_Address key' = key_Address key" if "DecryptV3 (ke_lib V) j pass' = Inr key'" for pass' key'
    using v3D(3) [OF assms(2) j(3) that] v3D(4) [OF assms(2) that] j(4) assms(4) by simp
  have honest: "address_at V fs' p = Some (key_Address key')"
    if "in_catalog dir p" "map_of fs' p = Some (Doc (Some i))" "DecryptV3 (ke_lib V) i pass' = Inr key'" for p i pass' key'
  proof (cases "p = keystorePath K")
    case True
    with that j(1) have "i = j" by simp
    with same that(3) j(2) True show ?thesis by simp
  next
    case False
    with that other [OF False] assms(1) show ?thesis unfolding catalog_ok_def by simp
  qed
  have "p = q" if "in_catalog dir p" "in_catalog dir q" "address_at V fs' p = Some a" "address_at V fs' q = Some a" for p q a
  proof -
    from assms(1) have u: "address_at V fs p = Some a \<Longrightarrow> address_at V fs q = Some a \<Longrightarrow> p = q"
      using that(1,2) unfolding catalog_ok_def by blast
    have only: "r = keystorePath K" if "in_catalog dir r" "address_at V fs' r = Some (key_Address key)" for r
      using that other(1) [of r] assms(5) [of r] by metis
    show ?thesis
    proof (cases "p = keystorePath K \<or> q = keystorePath K")
      case True
      with that(3,4) j(2) have "a = key_Address key" by auto
      with only [OF that(1)] only [OF that(2)] that(3,4) show ?thesis by metis
    next
      case False
      then have "address_at V fs p = Some a" "address_at V fs q = Some a"
        using that(3,4) other(1) [of p] other(1) [of q] by metis+
      then show ?thesis by (rule u)
    qed
  qed
  with honest show ?thesis unfolding catalog_ok_def by blast
qed

lemma open_key_Inr: "open_key V d pass = Inr key \<Longrightarrow> \<exists>j. d = Some j \<and> DecryptV3 (ke_lib V) j pass = Inr key"
  by (auto simp: open_key_def split: option.splits sum.splits)

lemma key_op_catalog:
  assumes "v3_laws V" and "catalog_ok V dir (files s)" and "key_op V dir s t"
  shows "catalog_ok V dir (files t)"
  using assms(3)
proof (cases rule: key_op_cases)
  case same
  with assms(2) show ?thesis by simp
next
  case (new K key pass)
  with catalog_put [OF assms(2,1)] show ?thesis by (auto simp: stored_def unused_address_def)
next
  case (again K pass pass')
  then obtain d key where d: "map_of (files s) (keystorePath K) = Some (Doc d)" "open_key V d pass = Inr key"
    "writes_key V K key pass' (files s) (files t)" by (auto simp: rekeyed_def)
  from open_key_Inr [OF d(2)] obtain j where j: "d = Some j" "DecryptV3 (ke_lib V) j pass = Inr key" by blast
  with d(1) again(2) assms(2) have at: "address_at V (files s) (keystorePath K) = Some (key_Address key)"
    unfolding catalog_ok_def by blast
  have addr: "key_Address key = PubkeyAddress (ke_eth V) (key_PrivateKey key)"
    using assms(1) j(2) unfolding v3_laws_def by blast
  have "address_at V (files s) p \<noteq> Some (key_Address key)" if "in_catalog dir p" "p \<noteq> keystorePath K" for p
    using that at again(2) assms(2) unfolding catalog_ok_def by blast
  from catalog_put [OF assms(2,1) d(3) addr this] show ?thesis .
qed

lemma key_op_keeps_key:
  assumes "v3_laws V" and "holds_key V (files s) p k" and "key_op V dir s t"
  shows "holds_key V (files t) p k"
  using assms(3)
proof (cases rule: key_op_cases)
  case same
  with assms(2) show ?thesis by simp
next
  case (new K key pass)
  then have none: "map_of (files s) (keystorePath K) = None" and w: "writes_key V K key pass (files s) (files t)"
    by (simp_all add: stored_def)
  with assms(2) have p: "p \<noteq> keystorePath K" by (auto simp: holds_key_def)
  from v3_written [OF assms(1) w] obtain j where "files t = AList.update (keystorePath K) (Doc (Some j)) (files s)" by blast
  with p assms(2) show ?thesis by (simp add: holds_key_def)
next
  case (again K pass pass')
  then obtain d key where d: "map_of (files s) (keystorePath K) = Some (Doc d)" "open_key V d pass = Inr key"
    "writes_key V K key pass' (files s) (files t)" by (auto simp: rekeyed_def)
  from v3_written [OF assms(1) d(3)] obtain j key' where
    j: "files t = AList.update (keystorePath K) (Doc (Some j)) (files s)" "DecryptV3 (ke_lib V) j pass' = Inr key'"
      "key_PrivateKey key' = key_PrivateKey key" by blast
  show ?thesis
  proof (cases "p = keystorePath K")
    case True
    from open_key_Inr [OF d(2)] obtain i where i: "d = Some i" "DecryptV3 (ke_lib V) i pass = Inr key" by blast
    from assms(2) True d(1) i(1) obtain pass0 key0 where "DecryptV3 (ke_lib V) i pass0 = Inr key0" "key_PrivateKey key0 = k"
      by (auto simp: holds_key_def)
    with v3D(3) [OF assms(1) i(2)] have "k = key_PrivateKey key" by metis
    with True j show ?thesis by (auto simp: holds_key_def)
  next
    case False
    with j(1) assms(2) show ?thesis by (simp add: holds_key_def)
  qed
qed

lemma key_ops_ok:
  assumes "v3_laws V" and "catalog_ok V dir (files s)" and "(key_op V dir)\<^sup>*\<^sup>* s t"
  shows "catalog_ok V dir (files t) \<and> (\<forall>p k. holds_key V (files s) p k \<longrightarrow> holds_key V (files t) p k)"
  using assms(3)
proof (induction rule: rtranclp_induct)
  case base
  with assms(2) show ?case by simp
next
  case (step t u)
  with key_op_catalog [OF assms(1) _ step(2)] key_op_keeps_key [OF assms(1) _ step(2)] show ?case by blast
qed

section \<open>Properties\<close>

text \<open>
  Creating or importing never touches a wallet that is there: whatever the outcome, if the
  directory has a key file no file changes, and the scrypt slot is free again afterwards.
\<close>

theorem new_key_overwrites_nothing:
  assumes "map_of (files s) (keystorePath K) = Some d"
  shows "(\<forall>r t. Create V K password s = (r, t) \<longrightarrow> files t = files s \<and> kh_scrypt (heap t) = kh_scrypt (heap s)) \<and>
    (\<forall>r t. Import V K mnemonic password s = (r, t) \<longrightarrow> files t = files s \<and> kh_scrypt (heap t) = kh_scrypt (heap s)) \<and>
    (\<forall>r t. ImportKeystore V K len data password newPassword s = (r, t) \<longrightarrow>
       files t = files s \<and> kh_scrypt (heap t) = kh_scrypt (heap s))"
proof -
  have "files t = files s \<and> kh_scrypt (heap t) = kh_scrypt (heap s)" if "new_wallet V K s t" for t
    using that assms by (auto simp: new_wallet_def stored_def untouched_def)
  moreover have "new_wallet V K s t" if "Create V K password s = (r, t)" for r t
    by (rule created_outcome(1) [OF that])
  moreover have "new_wallet V K s t" if "Import V K mnemonic password s = (r, t)" for r t
    by (rule created_outcome(2) [OF that])
  moreover have "new_wallet V K s t" if "ImportKeystore V K len data password newPassword s = (r, t)" for r t
    by (rule wp_outcome [OF wp_ImportKeystore that])
  ultimately show ?thesis by blast
qed

text \<open>
  C7: the mnemonic that \<open>Create\<close> shows restores the wallet: imported anywhere, under any
  password, it gives the same address, and both files open to the same private key.
\<close>

theorem mnemonic_restores:
  assumes "v3_laws V" and "Create V K password s = (Inr resp, t)"
    and "Import V K' (cr_Mnemonic resp) password' s' = (Inr address, t')" and "coin_of K' = coin_of K"
  shows "address = cr_Address resp \<and>
    (\<exists>k. holds_key V (files t) (keystorePath K) k \<and> holds_key V (files t') (keystorePath K') k)"
proof -
  from wp_runD_ok [OF wp_Create assms(2)] obtain key where
    k: "deriveCoinKey V (cr_Mnemonic resp) (coin_of K) = Inr (key_Address key, key_PrivateKey key)"
      "cr_Address resp = AddressHex (ke_eth V) (key_Address key)" "stored V K key password s t"
    by (auto simp: created_def)
  from wp_runD_ok [OF wp_Import assms(3)] obtain key' where
    k': "deriveCoinKey V (cr_Mnemonic resp) (coin_of K') = Inr (key_Address key', key_PrivateKey key')"
      "address = AddressHex (ke_eth V) (key_Address key')" "stored V K' key' password' s' t'"
    by (auto simp: created_def)
  have holds: "holds_key V (files u) (keystorePath M) (key_PrivateKey x)" if st: "stored V M x pw r u" for M x pw r u
  proof -
    from st have "writes_key V M x pw (files r) (files u)" by (simp add: stored_def)
    from v3_written [OF assms(1) this] obtain j key' where "files u = AList.update (keystorePath M) (Doc (Some j)) (files r)"
      "DecryptV3 (ke_lib V) j pw = Inr key'" "key_PrivateKey key' = key_PrivateKey x" by blast
    then show ?thesis unfolding holds_key_def by (intro exI [of _ j] exI [of _ pw] exI [of _ key']) simp
  qed
  from k(1) k'(1) assms(4) have "key_Address key' = key_Address key" "key_PrivateKey key' = key_PrivateKey key" by simp_all
  with k(2) k'(2) holds [OF k(3)] holds [OF k'(3)] show ?thesis by auto
qed

text \<open>
  Changing the password succeeds only with the old one and keeps the key: afterwards the new
  password opens the file to the same private key.
\<close>

theorem ChangePassword_rekeys:
  assumes "v3_laws V" and "ChangePassword V K password newPassword s = (Inr u, t)"
  shows "\<exists>d d' key key'. map_of (files s) (keystorePath K) = Some (Doc d) \<and> open_key V d password = Inr key \<and>
    map_of (files t) (keystorePath K) = Some (Doc d') \<and> open_key V d' newPassword = Inr key' \<and>
    key_PrivateKey key' = key_PrivateKey key"
proof -
  from wp_runD_ok [OF wp_ChangePassword assms(2)] obtain d key where
    d: "map_of (files s) (keystorePath K) = Some (Doc d)" "open_key V d password = Inr key"
      "writes_key V K key newPassword (files s) (files t)" by (auto simp: rekeyed_def)
  from v3_written [OF assms(1) d(3)] obtain j key' where
    "files t = AList.update (keystorePath K) (Doc (Some j)) (files s)" "DecryptV3 (ke_lib V) j newPassword = Inr key'"
    "key_PrivateKey key' = key_PrivateKey key" by blast
  with d(1,2) show ?thesis by (intro exI [of _ d] exI [of _ "Some j"]) (auto simp: open_key_def)
qed

end
