(* ===== verification/KeystoreSamples.thy ===== *)
theory KeystoreSamples
  imports KeystoreFacts Records
begin

text \<open>
  The bound on an imported scrypt run, and the closed instances of the properties of the key
  store on a machine without faults.
\<close>

section \<open>The scrypt parameters of an imported file\<close>

unbundle bit_operations_syntax

lemma and_pred_power:
  "0 < n \<Longrightarrow> int n AND (int n - 1) = 0 \<Longrightarrow> \<exists>k. n = 2 ^ k"
proof (induction n rule: less_induct)
  case (less n)
  show ?case
  proof (cases "even n")
    case True
    then obtain m where m: "n = 2 * m" by (elim evenE)
    with less.prems(1) have pos: "0 < m" by simp
    have "int n AND (int n - 1) = 2 * (int m AND (int m - 1))"
    proof -
      have "(int n - 1) div 2 = int m - 1" using m by presburger
      then show ?thesis using m by (subst and_int_rec) simp
    qed
    with less.prems(2) have "int m AND (int m - 1) = 0" by simp
    from less.IH [OF _ pos this] m pos obtain k where "m = 2 ^ k" by auto
    with m show ?thesis by (intro exI [of _ "Suc k"]) simp
  next
    case False
    then obtain m where m: "n = 2 * m + 1" by (elim oddE)
    have "int n AND (int n - 1) = 2 * (int m AND int m)"
      using m by (subst and_int_rec) simp
    with less.prems(2) m show ?thesis by (intro exI [of _ 0]) simp
  qed
qed

definition scrypt_bounded :: "nat \<Rightarrow> json \<Rightarrow> bool" where
  "scrypt_bounded len data \<longleftrightarrow>
     len \<le> 8192 \<and>
     (\<exists>version c k p. v3_meta data = Inr (version, c) \<and> version = 3 \<and> cj_KDF c = ''scrypt'' \<and>
        kdf_number (cj_KDFParams c) ''n'' = Some (2 ^ k) \<and> 1 \<le> k \<and> k \<le> (18::nat) \<and>
        kdf_number (cj_KDFParams c) ''r'' = Some 8 \<and>
        kdf_number (cj_KDFParams c) ''p'' = Some p \<and> 1 \<le> p \<and> p \<le> 6 \<and>
        kdf_number (cj_KDFParams c) ''dklen'' = Some 32)"

lemma kdf_number_range: "kdf_number ps name = Some i \<Longrightarrow> 1 \<le> i \<and> i \<le> StandardScryptN"
  by (auto simp: kdf_number_def Let_def split: option.splits json.splits if_splits)

lemma v3_check_bounded:
  assumes "v3_check len data = Inr u"
  shows "scrypt_bounded len data"
proof -
  from assms obtain version c n r p dklen where
    m: "v3_meta data = Inr (version, c)" "len \<le> 8192" "version = 3" "cj_KDF c = ''scrypt''"
      "kdf_number (cj_KDFParams c) ''n'' = Some n" "kdf_number (cj_KDFParams c) ''r'' = Some r"
      "kdf_number (cj_KDFParams c) ''p'' = Some p" "kdf_number (cj_KDFParams c) ''dklen'' = Some dklen"
      "2 \<le> n" "n AND (n - 1) = 0" "r = 8" "p \<le> 6" "dklen = 32"
    unfolding v3_check_def by (auto simp: not_less split: sum.splits if_splits option.splits)
  from and_pred_power [of "nat n"] m(9,10) obtain k where "nat n = 2 ^ k" by auto
  with m(9) have k: "n = 2 ^ k" by (metis nat_0_le int_nat_eq of_nat_power of_nat_numeral order_trans zero_le_numeral)
  have "1 \<le> k" using m(9) k by (cases k) simp_all
  moreover have "k \<le> 18"
  proof (rule ccontr)
    assume "\<not> k \<le> 18"
    then have "(2::int) ^ 19 \<le> 2 ^ k" by (intro power_increasing) simp_all
    with kdf_number_range [OF m(5)] k show False by (simp add: StandardScryptN_def)
  qed
  ultimately show ?thesis
    using m k kdf_number_range [OF m(7)] unfolding scrypt_bounded_def by blast
qed

lemma v3_check_error: "v3_check len data = Inl e \<Longrightarrow> \<exists>why. e = ErrNew why"
  by (auto simp: v3_check_def split: sum.splits if_splits option.splits json.splits)

lemma ValidatePassword_error: "ValidatePassword p = Inl e \<Longrightarrow> e = ErrInvalidPassword"
  by (auto simp: ValidatePassword_def Let_def split: if_splits)

text \<open>
  Whatever file is offered for import, scrypt is run on it (the import succeeds or is
  refused for its password) only with parameters whose cost is bounded: N a power of two up to
  262144, r = 8, p at most 6, in a document of at most 8192 bytes.
\<close>

theorem ImportKeystore_bounded:
  assumes "ImportKeystore V K len data password newPassword s = (r, t)"
    and "r = Inr address \<or> r = Inl ErrPasswordMismatch"
  shows "scrypt_bounded len data"
proof -
  have "\<exists>u. v3_check len data = Inr u"
  proof (cases "v3_check len data")
    case (Inl e)
    with v3_check_error [OF this] assms show ?thesis
      by (cases "ValidatePassword newPassword") (auto simp: ImportKeystore_def run_simps dest: ValidatePassword_error)
  qed simp
  then show ?thesis using v3_check_bounded by blast
qed

section \<open>A machine without faults\<close>

definition sample_keylib :: "(address, int) keylib" where
  "sample_keylib =
     \<lparr> NewMnemonic = (\<lambda>_. Inr (join_space (replicate 12 ''a''))), IsMnemonicValid = (\<lambda>_. True), NewSeed = (\<lambda>_ _. []),
       NewMasterKey = Inr, NewChildKey = (\<lambda>k _. Inr k), ToECDSA = (\<lambda>_. Inr 5),
       EncryptKey = (\<lambda>key pass n p w.
         (Inr (JObj [(''address'', JStr (AddressHex sample_lib (key_Address key))),
                     (''key'', JStr (AddressHex sample_lib (key_PrivateKey key))), (''password'', JStr pass)]), w)),
       DecryptV3 = (\<lambda>j pass. case j of
           JObj [_, (_, JStr k), (_, JStr pass')] \<Rightarrow>
             if pass' = pass then Inr \<lparr> key_Address = sample_address k, key_PrivateKey = sample_address k \<rparr>
             else Inl (ErrExt ''mac'')
         | _ \<Rightarrow> Inl (ErrExt ''mac'')) \<rparr>"

definition sample_kenv :: "(address, int) kenv" where
  "sample_kenv = \<lparr> ke_eth = sample_lib, ke_os = sample_io, ke_lib = sample_keylib \<rparr>"

lemma sample_kenv_lib [simp]:
  "ke_eth sample_kenv = sample_lib" "ke_os sample_kenv = sample_io"
  "EncryptKey (ke_lib sample_kenv) key pass n p w =
     (Inr (JObj [(''address'', JStr (AddressHex sample_lib (key_Address key))),
                 (''key'', JStr (AddressHex sample_lib (key_PrivateKey key))), (''password'', JStr pass)]), w)"
  "NewMnemonic (ke_lib sample_kenv) bs = Inr (join_space (replicate 12 ''a''))"
  "IsMnemonicValid (ke_lib sample_kenv) m" "NewMasterKey (ke_lib sample_kenv) x = Inr x"
  "NewChildKey (ke_lib sample_kenv) x i = Inr x" "ToECDSA (ke_lib sample_kenv) x = Inr 5"
  "PubkeyAddress sample_lib k = k" "HexToAddress sample_lib t = sample_address t"
  "sample_address (AddressHex sample_lib a) = a"
  using eth_hexD(1) [OF sample_lib_hex, of a]
  by (simp_all add: sample_kenv_def sample_keylib_def sample_lib_def sample_eth_def)

lemma sample_v3_laws: "v3_laws sample_kenv"
proof -
  have dec: "DecryptV3 (ke_lib sample_kenv) (JObj [a, (b, JStr k), (c, JStr pass)]) pass' =
      (if pass = pass' then Inr \<lparr> key_Address = sample_address k, key_PrivateKey = sample_address k \<rparr> else Inl (ErrExt ''mac''))"
    for a b k c pass pass'
    by (simp add: sample_kenv_def sample_keylib_def)
  have inv: "\<exists>k. key = \<lparr> key_Address = k, key_PrivateKey = k \<rparr> \<and> (\<forall>pass' key'. DecryptV3 (ke_lib sample_kenv) j pass' = Inr key' \<longrightarrow> key' = key)"
    if "DecryptV3 (ke_lib sample_kenv) j pass = Inr key" for j pass key
    using that by (auto simp: sample_kenv_def sample_keylib_def split: json.splits list.splits prod.splits if_splits)
  have meta: "\<exists>t. meta_address (Some (JObj [(''address'', JStr a), (''key'', k), (''password'', p)])) = Inr t \<and> t = a" for a k p
    by (simp add: meta_address_def object_def str_field_def) (simp add: equal_fold_def to_lower_def lower_char_def)
  show ?thesis
    unfolding v3_laws_def
  proof (intro conjI allI impI)
    show "key_Address key = PubkeyAddress (ke_eth sample_kenv) (key_PrivateKey key)"
      if "DecryptV3 (ke_lib sample_kenv) j pass = Inr key" for j pass key
      using inv [OF that] by auto
    show "key_PrivateKey key' = key_PrivateKey key"
      if "DecryptV3 (ke_lib sample_kenv) j pass = Inr key" "DecryptV3 (ke_lib sample_kenv) j pass' = Inr key'" for j pass pass' key key'
      using inv [OF that(1)] that(2) by auto
  qed (use dec meta in auto)
qed

definition sample_manager :: KeystoreManager where
  "sample_manager = NewKeystoreManager ''w'' 0 0"

definition empty_disk :: "(int, node, key_heap) sys" where
  "empty_disk = sample_sys \<lparr> kh_scrypt = [] \<rparr>"

lemma empty_disk_parts [simp]:
  "files empty_disk = []" "kh_scrypt (heap empty_disk) = []"
  by (simp_all add: empty_disk_def sample_sys_def)

lemma sample_manager_parts [simp]:
  "km_walletDir sample_manager = ''w''" "km_catalogDir sample_manager = ''w''" "km_coinType sample_manager = 0"
  "coin_of sample_manager = 60" "keystorePath sample_manager = ''w/keystore.json''"
  by (simp_all add: sample_manager_def NewKeystoreManager_def coin_of_def keystorePath_def join_path_def)

abbreviation sample_password :: string where
  "sample_password \<equiv> ''correct horse battery''"

lemma sample_password_ok: "ValidatePassword sample_password = Inr ()"
  by (simp add: ValidatePassword_def RuneCountInString_def runes_ascii)

lemma sample_call [simp]: "SysCall sample_io op w = (Inr (), w)" "RandRead sample_io n w = (Inr (replicate n 0), w)"
  by (simp_all add: sample_io_def)

lemma sample_write_node: "atomicWriteFile sample_io p d s = (Inr (), put_file p d s)"
  by (simp add: atomicWriteFile_def run_simps)

lemma sample_store:
  assumes "files s = []"
  shows "\<exists>t. store_key sample_kenv sample_manager key password s = (Inr (), t)"
  using assms
  by (simp add: store_key_def checkDuplicateAddress_def ListDir_def run_simps is_dir_def check_account_def
      join_path_def sample_write_node)

lemma sample_derive: "deriveCoinKey sample_kenv m c = Inr (5, 5)"
  by (simp add: deriveCoinKey_def Let_def)

lemma sample_free: "no_wallet sample_kenv sample_manager empty_disk = (Inr (), empty_disk)"
  by (simp add: no_wallet_def Lstat_def run_simps is_dir_def)

lemma sample_locked:
  "\<exists>t. with_scrypt sample_manager (seq (store_key sample_kenv sample_manager key password) (ret x)) empty_disk = (Inr x, t)"
proof -
  obtain t where "store_key sample_kenv sample_manager key password
      (empty_disk\<lparr>heap := kh_scrypt_update ((#) ''w'') (heap empty_disk)\<rparr>) = (Inr (), t)"
    using sample_store [of "empty_disk\<lparr>heap := kh_scrypt_update ((#) ''w'') (heap empty_disk)\<rparr>" key password]
    by auto
  then show ?thesis by (simp add: with_scrypt_def run_simps)
qed

lemma sample_create:
  "\<exists>t. Create sample_kenv sample_manager sample_password empty_disk =
     (Inr \<lparr> cr_Address = AddressHex sample_lib 5, cr_Mnemonic = join_space (replicate 12 ''a'') \<rparr>, t)"
  using sample_locked
  by (simp add: Create_def run_simps sample_password_ok sample_free sample_derive)

lemma sample_import:
  "\<exists>t. Import sample_kenv sample_manager (join_space (replicate 12 ''a'')) sample_password empty_disk =
     (Inr (AddressHex sample_lib 5), t)"
proof -
  have m: "join_space (replicate 12 ''a'') = ''a a a a a a a a a a a a''"
    by (simp add: join_space_def eval_nat_numeral)
  have r: "runes ''a a a a a a a a a a a a'' = map (\<lambda>c. (of_char c, [c])) ''a a a a a a a a a a a a''"
    by (rule runes_ascii) simp
  have "TrimSpace (join_space (replicate 12 ''a'')) = join_space (replicate 12 ''a'')"
    unfolding m by (rule TrimSpace_same) (simp_all add: r IsSpace_def)
  moreover have "length (Fields (join_space (replicate 12 ''a''))) = 12"
    unfolding m by (simp add: Fields_def r IsSpace_def)
  ultimately show ?thesis using sample_locked
    by (simp add: Import_def run_simps sample_password_ok sample_free sample_derive Let_def)
qed

section \<open>Closed instances\<close>

lemma sample_ops: "\<exists>t. key_op sample_kenv ''w'' empty_disk t \<and> holds_key sample_kenv (files t) ''w/keystore.json'' 5 \<and>
    (\<forall>q. q \<noteq> ''w/keystore.json'' \<longrightarrow> map_of (files t) q = None)"
proof -
  from sample_create obtain resp t where c: "Create sample_kenv sample_manager sample_password empty_disk = (Inr resp, t)"
    by blast
  then have "key_op sample_kenv ''w'' empty_disk t"
    by (intro key_op.create [of sample_manager]) (simp_all add: in_catalog_def join_path_def)
  moreover from wp_runD_ok [OF wp_Create c] obtain key where k: "stored sample_kenv sample_manager key sample_password empty_disk t"
    "key_PrivateKey key = 5"
    by (auto simp: created_def sample_derive)
  with v3_written [OF sample_v3_laws] have "holds_key sample_kenv (files t) ''w/keystore.json'' 5"
    unfolding stored_def holds_key_def by fastforce
  moreover from k(1) have "\<forall>q. q \<noteq> ''w/keystore.json'' \<longrightarrow> map_of (files t) q = None"
    by (auto simp: stored_def writes_key_def)
  ultimately show ?thesis by blast
qed

lemma empty_catalog: "catalog_ok V ''w'' (files empty_disk)"
  by (simp add: catalog_ok_def address_at_def)

theorem new_key_overwrites_nothing_witness:
  "\<exists>r t. Create sample_kenv sample_manager sample_password (put_file ''w/keystore.json'' (Doc None) empty_disk) = (r, t) \<and>
     files t = [(''w/keystore.json'', Doc None)]"
proof -
  have "map_of (files (put_file ''w/keystore.json'' (Doc None) empty_disk)) (keystorePath sample_manager) = Some (Doc None)" by simp
  from new_key_overwrites_nothing [OF this, of sample_kenv sample_password]
  show ?thesis by (cases "Create sample_kenv sample_manager sample_password (put_file ''w/keystore.json'' (Doc None) empty_disk)") auto
qed

theorem mnemonic_restores_witness:
  "\<exists>resp t address t'. Create sample_kenv sample_manager sample_password empty_disk = (Inr resp, t) \<and>
     Import sample_kenv sample_manager (cr_Mnemonic resp) sample_password empty_disk = (Inr address, t') \<and>
     address = cr_Address resp"
proof -
  obtain t where c: "Create sample_kenv sample_manager sample_password empty_disk =
      (Inr \<lparr> cr_Address = AddressHex sample_lib 5, cr_Mnemonic = join_space (replicate 12 ''a'') \<rparr>, t)"
    using sample_create by blast
  obtain t' where i: "Import sample_kenv sample_manager (join_space (replicate 12 ''a'')) sample_password empty_disk =
      (Inr (AddressHex sample_lib 5), t')"
    using sample_import by blast
  from i have "Import sample_kenv sample_manager
      (cr_Mnemonic \<lparr> cr_Address = AddressHex sample_lib 5, cr_Mnemonic = join_space (replicate 12 ''a'') \<rparr>)
      sample_password empty_disk = (Inr (AddressHex sample_lib 5), t')" by simp
  from mnemonic_restores [OF sample_v3_laws c this] c this show ?thesis by blast
qed

definition sample_doc :: json where
  "sample_doc = JObj [(''address'', JStr (AddressHex sample_lib 5)), (''key'', JStr (AddressHex sample_lib 5)), (''password'', JStr ''old'')]"

theorem ChangePassword_rekeys_witness:
  "\<exists>d' key'. open_key sample_kenv d' sample_password = Inr key' \<and> key_PrivateKey key' = 5"
proof -
  let ?s = "put_file ''w/keystore.json'' (Doc (Some sample_doc)) empty_disk"
  have o: "open_key sample_kenv (Some sample_doc) ''old'' = Inr \<lparr> key_Address = 5, key_PrivateKey = 5 \<rparr>"
    by (simp add: open_key_def sample_doc_def) (simp add: sample_kenv_def sample_keylib_def)
  have "\<exists>t. ChangePassword sample_kenv sample_manager ''old'' sample_password ?s = (Inr (), t)"
    by (simp add: ChangePassword_def run_simps sample_password_ok ReadDoc_def ReadFile_def with_scrypt_def o sample_write_node)
  then obtain t where "ChangePassword sample_kenv sample_manager ''old'' sample_password ?s = (Inr (), t)" ..
  from ChangePassword_rekeys [OF sample_v3_laws this] o show ?thesis by auto
qed

definition sample_v3 :: json where
  "sample_v3 = JObj [(''version'', JInt 3), (''crypto'', JObj
     [(''cipher'', JStr ''aes-128-ctr''), (''ciphertext'', JStr (replicate 64 (CHR ''0''))),
      (''cipherparams'', JObj [(''iv'', JStr (replicate 32 (CHR ''0'')))]), (''kdf'', JStr ''scrypt''),
      (''kdfparams'', JObj [(''dklen'', JInt 32), (''n'', JInt 4096), (''p'', JInt 6), (''r'', JInt 8),
        (''salt'', JStr (replicate 64 (CHR ''0'')))]),
      (''mac'', JStr (replicate 64 (CHR ''0'')))])]"

theorem ImportKeystore_bounded_witness: "scrypt_bounded 500 sample_v3"
proof -
  have check: "v3_check 500 sample_v3 = Inr ()" by code_simp
  have no: "open_key sample_kenv (Some sample_v3) ''guess'' = Inl ErrPasswordMismatch"
    by (simp add: open_key_def sample_v3_def) (simp add: sample_kenv_def sample_keylib_def)
  have "\<exists>t. ImportKeystore sample_kenv sample_manager 500 sample_v3 ''guess'' sample_password empty_disk =
      (Inl ErrPasswordMismatch, t)"
    by (simp add: ImportKeystore_def run_simps sample_password_ok check Lstat_def is_dir_def with_scrypt_def no)
  then obtain t where "ImportKeystore sample_kenv sample_manager 500 sample_v3 ''guess'' sample_password empty_disk =
      (Inl ErrPasswordMismatch, t)" ..
  from ImportKeystore_bounded [OF this] show ?thesis by blast
qed

end
