(* ===== verification/Accounts.thy ===== *)
theory Accounts
  imports Keystore
begin

text \<open>
  internal/wallet/accounts.go: the accounts of a wallet directory.  The first account is the
  directory itself, the others are the directories under \<^verbatim>\<open>accounts\<close> whose names are
  opaque identifiers; a name and an archived flag are kept beside each key.
\<close>

definition ParseAccountID :: "string \<Rightarrow> err + string" where
  "ParseAccountID value = (if \<not> opaqueIDPattern value then Inl (ErrNew ''account id'') else Inr value)"

record AccountInfo =
  ai_ID :: string
  ai_Address :: string
  ai_Name :: string
  ai_Archived :: bool

text \<open>What \<^verbatim>\<open>account.json\<close> holds.\<close>

record accountMetadata =
  am_Name :: string
  am_Archived :: bool

definition metadata_of :: "json option \<Rightarrow> err + accountMetadata" where
  "metadata_of d =
     ebind (object d) (\<lambda>es.
     ebind (member str_field ''name'' es []) (\<lambda>name.
     ebind (member bool_field ''archived'' es False) (\<lambda>archived.
       Inr \<lparr> am_Name = name, am_Archived = archived \<rparr>)))"

definition metadata_doc :: "accountMetadata \<Rightarrow> json" where
  "metadata_doc m = JObj [(''name'', JStr (am_Name m)), (''archived'', JBool (am_Archived m))]"

definition readAccountMetadata :: "('k, 'w) kenv \<Rightarrow> string \<Rightarrow> ('w, 'h, accountMetadata) dact" where
  "readAccountMetadata V dir =
     andthen (ReadDoc (ke_os V) (join_path dir ''account.json'')) (\<lambda>data.
       case data of
         None \<Rightarrow> ret \<lparr> am_Name = [], am_Archived = False \<rparr>
       | Some d \<Rightarrow> lift (case metadata_of d of Inl _ \<Rightarrow> Inl (ErrNew ''account name unreadable'') | Inr m \<Rightarrow> Inr m))"

definition accountName :: "string \<Rightarrow> err + string" where
  "accountName name =
     (let name = TrimSpace name in
      if name = [] \<or> 40 < RuneCountInString name \<or> list_ex (\<lambda>r. IsControl (fst r)) (runes name)
      then Inl (ErrNew ''account name'') else Inr name)"

text \<open>The service of an account: its directory, its scrypt parameters and its catalog (itself, or another).\<close>

record account_service =
  as_walletDir :: string
  as_scryptN :: int
  as_scryptP :: int

definition account_dir :: "account_service \<Rightarrow> string \<Rightarrow> string" where
  "account_dir S ident = join_path (join_path (as_walletDir S) ''accounts'') ident"

definition account_keys :: "account_service \<Rightarrow> string \<Rightarrow> KeystoreManager" where
  "account_keys S ident = NewKeystoreManager (account_dir S ident) (as_scryptN S) (as_scryptP S)"

text \<open>The address of a key file; a directory without one has the empty address.\<close>

definition optional_address :: "('k, 'w) kenv \<Rightarrow> KeystoreManager \<Rightarrow> ('w, 'h, string) kact" where
  "optional_address V K =
     andthen (attempt (KeystoreAddress V K)) (\<lambda>r.
       case r of
         Inr address \<Rightarrow> ret address
       | Inl e \<Rightarrow> if err_is e ErrWalletNotFound then ret [] else throw e)"

text \<open>The names that are shown when none was chosen, in UTF-8.\<close>

definition main_wallet_name :: string where
  "main_wallet_name = [CHR 0xE4, CHR 0xB8, CHR 0xBB, CHR 0xE8, CHR 0xA6, CHR 0x81, CHR 0xE9, CHR 0x8C, CHR 0xA2,
     CHR 0xE5, CHR 0x8C, CHR 0x85]"

definition wallet_name :: "string \<Rightarrow> string" where
  "wallet_name ident = [CHR 0xE9, CHR 0x8C, CHR 0xA2, CHR 0xE5, CHR 0x8C, CHR 0x85, CHR '' ''] @ take 6 ident"

definition named :: "string \<Rightarrow> accountMetadata \<Rightarrow> string" where
  "named unnamed m = (if am_Name m = [] then unnamed else am_Name m)"

definition list_entry ::
    "('k, 'w) kenv \<Rightarrow> account_service \<Rightarrow> string \<times> bool \<Rightarrow> AccountInfo list \<Rightarrow> ('w, 'h, AccountInfo list) kact" where
  "list_entry V S entry result =
     (if \<not> snd entry \<or> \<not> opaqueIDPattern (fst entry) then ret result
      else andthen (optional_address V (NewKeystoreManager (account_dir S (fst entry)) 0 0)) (\<lambda>address.
           andthen (readAccountMetadata V (account_dir S (fst entry))) (\<lambda>m.
           ret (result @ [\<lparr> ai_ID = fst entry, ai_Address = address, ai_Name = named (wallet_name (fst entry)) m,
                            ai_Archived = am_Archived m \<rparr>]))))"

definition listAccounts :: "('k, 'w) kenv \<Rightarrow> account_service \<Rightarrow> ('w, 'h, AccountInfo list) kact" where
  "listAccounts V S =
     andthen (optional_address V (NewKeystoreManager (as_walletDir S) (as_scryptN S) (as_scryptP S))) (\<lambda>address.
     andthen (readAccountMetadata V (as_walletDir S)) (\<lambda>m.
     andthen (ListDir (ke_os V) (join_path (as_walletDir S) ''accounts'')) (\<lambda>listed.
       let first = \<lparr> ai_ID = [], ai_Address = address, ai_Name = named main_wallet_name m, ai_Archived = am_Archived m \<rparr> in
       (case listed of
          None \<Rightarrow> ret [first]
        | Some es \<Rightarrow> for_each es (list_entry V S) [first]))))"

text \<open>
  Adding an account: its directory is made first and removed again (\<^verbatim>\<open>defer\<close>, whose
  own error is ignored) unless the metadata was written.
\<close>

definition new_account_body ::
    "('k, 'w) kenv \<Rightarrow> account_service \<Rightarrow> string \<Rightarrow> string \<Rightarrow> string \<Rightarrow> ('w, 'h, string) kact" where
  "new_account_body V S ident name password =
     andthen (if password = [] then ret []
              else andthen (Create V (account_keys S ident) password) (\<lambda>r. ret (cr_Address r))) (\<lambda>address.
     seq (atomicWriteFile (ke_os V) (join_path (account_dir S ident) ''account.json'')
            (Doc (Some (metadata_doc \<lparr> am_Name = name, am_Archived = False \<rparr>))))
         (ret address))"

definition make_account ::
    "('k, 'w) kenv \<Rightarrow> account_service \<Rightarrow> string \<Rightarrow> string \<Rightarrow> string \<Rightarrow> ('w, 'h, AccountInfo) kact" where
  "make_account V S ident name password =
     seq (MkdirAll (ke_os V) (account_dir S ident))
    (andthen (attempt (new_account_body V S ident name password)) (\<lambda>r.
       case r of
         Inr address \<Rightarrow> ret \<lparr> ai_ID = ident, ai_Address = address, ai_Name = name, ai_Archived = False \<rparr>
       | Inl e \<Rightarrow> seq (attempt (RemoveAll (ke_os V) (account_dir S ident))) (throw e)))"

definition AddAccount :: "('k, 'w) kenv \<Rightarrow> account_service \<Rightarrow> string \<Rightarrow> string \<Rightarrow> ('w, 'h, AccountInfo) kact" where
  "AddAccount V S name password =
     andthen (lift (accountName name)) (\<lambda>name.
     seq (if password = [] then ret () else lift (ValidatePassword password))
    (andthen (listAccounts V S) (\<lambda>accounts.
     fail_if (20 \<le> length accounts) (ErrNew ''account limit'')
    (andthen (on_world (RandRead (ke_os V) 16)) (\<lambda>idBytes.
       make_account V S (hex_encode idBytes) name password)))))"

definition UpdateAccount ::
    "('k, 'w) kenv \<Rightarrow> account_service \<Rightarrow> string \<Rightarrow> string \<Rightarrow> bool \<Rightarrow> ('w, 'h, AccountInfo) kact" where
  "UpdateAccount V S ident name archived =
     andthen (lift (accountName name)) (\<lambda>name.
     seq (if ident = [] then ret '''' else lift (ParseAccountID ident))
    (andthen (listAccounts V S) (\<lambda>accounts.
     let active = length (filter (\<lambda>a. \<not> ai_Archived a) accounts) in
     (case List.find (\<lambda>a. ai_ID a = ident) (rev accounts) of
        None \<Rightarrow> throw (ErrNew ''account not found'')
      | Some target \<Rightarrow>
          fail_if (archived \<and> \<not> ai_Archived target \<and> active \<le> 1) (ErrNew ''last active account'')
         (let dir = (if ident = [] then as_walletDir S else account_dir S ident) in
          seq (atomicWriteFile (ke_os V) (join_path dir ''account.json'')
                 (Doc (Some (metadata_doc \<lparr> am_Name = name, am_Archived = archived \<rparr>))))
              (ret (target\<lparr>ai_Name := name, ai_Archived := archived\<rparr>)))))))"

text \<open>
  Opening an account: the checks of \<open>NewAccountService\<close> before it opens the service of the
  directory, and the manager the service gets, which shares the catalog of the first account.
\<close>

definition account_ready :: "('k, 'w) kenv \<Rightarrow> account_service \<Rightarrow> string \<Rightarrow> ('w, 'h, string) kact" where
  "account_ready V S ident =
     andthen (lift (ParseAccountID ident)) (\<lambda>ident.
     let path = account_dir S ident in
     andthen (attempt (seq (on_world (SysCall (ke_os V) ''lstat'')) (gets (\<lambda>s. is_dir (files s) path)))) (\<lambda>there.
     fail_if (there \<noteq> Inr True) (ErrNew ''account not found'')
    (andthen (attempt (Lstat (ke_os V) (join_path path ''account.json''))) (\<lambda>registered.
     fail_if (registered \<noteq> Inr True) (ErrNew ''account not registered'')
    (ret path)))))"

definition account_manager :: "account_service \<Rightarrow> string \<Rightarrow> KeystoreManager" where
  "account_manager S ident = (NewKeystoreManager (account_dir S ident) 0 0)\<lparr>km_catalogDir := as_walletDir S\<rparr>"

end
