(* ===== verification/AccountsFacts.thy ===== *)
theory AccountsFacts
  imports Accounts KeystoreFacts
begin

text \<open>
  The accounts of a wallet directory stay within their bound, one of them stays visible, and
  adding an account touches nothing outside its own new directory.
\<close>

section \<open>Changes below a directory\<close>

definition below :: "string \<Rightarrow> string \<Rightarrow> bool" where
  "below dir q \<longleftrightarrow> q = dir \<or> has_prefix q (dir @ ''/'')"

definition only_below :: "string \<Rightarrow> ('w, node, 'h) sys \<Rightarrow> ('w, node, 'h) sys \<Rightarrow> bool" where
  "only_below dir s t \<longleftrightarrow> (\<forall>q. \<not> below dir q \<longrightarrow> map_of (files t) q = map_of (files s) q)"

interpretation only_below: effect "only_below dir" for dir
  by unfold_locales (auto simp: only_below_def)

lemma below_join [simp]: "below dir (join_path dir name)"
  by (simp add: below_def join_path_def has_prefix_def)

lemma asks_only_below: "within asks m \<Longrightarrow> within (only_below dir) m"
  by (erule within_weaken) (simp add: asks_def only_below_def)

lemmas only_below_leaf [eff_intros] =
  asks_only_below [OF asks_on_world] asks_only_below [OF asks_get_heap] asks_only_below [OF asks_ReadDoc]
  asks_only_below [OF asks_ListDir]

lemma only_below_write:
  assumes "below dir p"
  shows "within (only_below dir) (atomicWriteFile I p d)"
  unfolding within_def
proof
  fix s
  have "wp (atomicWriteFile I p d) (\<lambda>_ t. only_below dir s t) (\<lambda>_ t. only_below dir s t) s"
    by (rule wp_atomicWriteFile) (use assms in \<open>auto simp: only_below_def\<close>)
  then show "only_below dir s (snd (atomicWriteFile I p d s))"
    by (auto simp: wp_def split: prod.splits sum.splits)
qed

lemma only_below_MkdirAll: "within (only_below dir) (MkdirAll I dir)"
  unfolding MkdirAll_def
  by (intro eff_intros only_below.eff_modify) (auto simp: only_below_def below_def)

lemma only_below_RemoveAll: "within (only_below dir) (RemoveAll I dir)"
proof -
  have "map_of (filter (\<lambda>(p, d). p \<noteq> dir \<and> \<not> has_prefix p (dir @ ''/'')) fs) q = map_of fs q" if "\<not> below dir q" for q and fs :: "(string \<times> node) list"
    using that by (induction fs) (auto simp: below_def)
  then show ?thesis
    unfolding RemoveAll_def by (intro eff_intros only_below.eff_modify) (simp add: only_below_def)
qed

lemma only_below_Create:
  assumes "below dir (keystorePath K)"
  shows "within (only_below dir) (Create V K password)"
  unfolding within_def
proof
  fix s
  have "new_wallet V K s (snd (Create V K password s))"
    by (rule created_outcome(1)) (rule prod.collapse [symmetric])
  with assms show "only_below dir s (snd (Create V K password s))"
    by (auto simp: new_wallet_def untouched_def stored_def writes_key_def only_below_def)
qed

lemma only_below_body: "within (only_below (account_dir S ident)) (new_account_body V S ident name password)"
proof -
  have "below (account_dir S ident) (keystorePath (account_keys S ident))"
    by (simp add: keystorePath_def account_keys_def NewKeystoreManager_def)
  then show ?thesis
    unfolding new_account_body_def by (intro eff_intros only_below_Create only_below_write below_join)
qed

section \<open>The accounts on disk\<close>

definition account_ids :: "account_service \<Rightarrow> (string \<times> node) list \<Rightarrow> string set" where
  "account_ids S fs = {n. opaqueIDPattern n \<and> is_dir fs (account_dir S n)}"

lemma no_slash: "opaqueIDPattern n \<Longrightarrow> CHR ''/'' \<notin> set n"
  by (auto simp: opaqueIDPattern_def list_all_iff is_hex_def)

lemma takeWhile_no_slash: "CHR ''/'' \<notin> set n \<Longrightarrow> takeWhile (\<lambda>c. c \<noteq> CHR ''/'') n = n"
  unfolding takeWhile_eq_all_conv by blast

lemma entry_of_self: "CHR ''/'' \<notin> set n \<Longrightarrow> entry_of dir (join_path dir n) = Some n"
  by (simp add: entry_of_def join_path_def has_prefix_def takeWhile_no_slash)

lemma entry_of_child:
  assumes "CHR ''/'' \<notin> set n" and "has_prefix q (join_path dir n @ ''/'')"
  shows "entry_of dir q = Some n"
proof -
  from assms(2) have "take (length (join_path dir n @ ''/'')) q = join_path dir n @ ''/''" by (simp add: has_prefix_def)
  then obtain rest where "q = (dir @ ''/'') @ n @ ''/'' @ rest"
    by (metis append_assoc append_take_drop_id join_path_def)
  moreover have "takeWhile (\<lambda>c. c \<noteq> CHR ''/'') (n @ ''/'' @ rest) = n"
    using assms(1) by (simp add: takeWhile_append takeWhile_no_slash)
  ultimately show ?thesis by (simp add: entry_of_def has_prefix_def)
qed

lemma child_listed:
  assumes "CHR ''/'' \<notin> set n" and "is_dir fs (join_path dir n)"
  shows "n \<in> set (entries dir fs)"
proof -
  from assms(2) obtain q where "q \<in> set (map fst fs)" "q = join_path dir n \<or> has_prefix q (join_path dir n @ ''/'')"
    unfolding is_dir_def list_ex_iff by (force dest: map_of_SomeD)
  with entry_of_child [OF assms(1)] entry_of_self [OF assms(1)] show ?thesis
    by (auto simp: entries_def map_filter_def intro!: image_eqI)
qed

lemma account_ids_listed: "account_ids S fs \<subseteq> set (entries (join_path (as_walletDir S) ''accounts'') fs)"
  unfolding account_ids_def account_dir_def using child_listed [OF no_slash] by blast

lemma finite_ids [simp]: "finite (account_ids S fs)"
  by (rule finite_subset [OF account_ids_listed]) simp

lemma is_dir_dom: "is_dir fs p \<longleftrightarrow> map_of fs p = Some Dir \<or> (\<exists>q. map_of fs q \<noteq> None \<and> has_prefix q (p @ ''/''))"
  unfolding is_dir_def list_ex_iff by (auto simp: map_of_eq_None_iff)

lemma has_prefix_take: "has_prefix q (a @ b) \<Longrightarrow> has_prefix q a"
proof -
  assume "has_prefix q (a @ b)"
  then have "take (length a) (take (length (a @ b)) q) = take (length a) (a @ b)" by (simp only: has_prefix_def)
  then show ?thesis by (simp add: has_prefix_def)
qed

lemma is_dir_parent:
  assumes "is_dir fs (join_path dir n)"
  shows "is_dir fs dir"
proof -
  have "has_prefix (join_path dir n) (dir @ ''/'')" by (simp add: join_path_def has_prefix_def)
  moreover have "has_prefix q (dir @ ''/'')" if "has_prefix q (join_path dir n @ ''/'')" for q
    by (rule has_prefix_take [of q "dir @ ''/''" "n @ ''/''"]) (use that in \<open>simp add: join_path_def\<close>)
  ultimately show ?thesis using assms unfolding is_dir_dom by (metis option.distinct(1))
qed

lemma other_account:
  assumes "opaqueIDPattern n" "opaqueIDPattern m" "n \<noteq> m" and "below (account_dir S n) q"
  shows "\<not> below (account_dir S m) q"
proof
  assume m: "below (account_dir S m) q"
  have "entry_of (join_path (as_walletDir S) ''accounts'') q = Some k" if "opaqueIDPattern k" "below (account_dir S k) q" for k
    using that entry_of_self [OF no_slash [OF that(1)]] entry_of_child [OF no_slash [OF that(1)]]
    by (auto simp: below_def account_dir_def)
  from this [OF assms(1,4)] this [OF assms(2) m] assms(3) show False by simp
qed

lemma ids_only_below:
  assumes "only_below (account_dir S m) s t" and "opaqueIDPattern m"
  shows "account_ids S (files t) - {m} = account_ids S (files s) - {m}"
proof -
  have "is_dir (files t) (account_dir S n) = is_dir (files s) (account_dir S n)" if n: "opaqueIDPattern n" "n \<noteq> m" for n
  proof -
    have same: "map_of (files t) q = map_of (files s) q" if "below (account_dir S n) q" for q
      using assms other_account [OF n(1) assms(2) n(2) that] by (simp add: only_below_def)
    then show ?thesis unfolding is_dir_dom by (metis below_def)
  qed
  then show ?thesis by (auto simp: account_ids_def)
qed

definition dir_of :: "account_service \<Rightarrow> string \<Rightarrow> string" where
  "dir_of S ident = (if ident = [] then as_walletDir S else account_dir S ident)"

definition is_archived :: "(string \<times> node) list \<Rightarrow> string \<Rightarrow> bool" where
  "is_archived fs dir \<longleftrightarrow>
     (\<exists>d m. map_of fs (join_path dir ''account.json'') = Some (Doc d) \<and> metadata_of d = Inr m \<and> am_Archived m)"

definition accounts_ok :: "account_service \<Rightarrow> (string \<times> node) list \<Rightarrow> bool" where
  "accounts_ok S fs \<longleftrightarrow>
     card (insert [] (account_ids S fs)) \<le> 20 \<and>
     (\<exists>ident\<in>insert [] (account_ids S fs). \<not> is_archived fs (dir_of S ident))"

section \<open>Listing\<close>

lemma asks_optional_address [eff_intros]: "within asks (optional_address V K)"
  unfolding optional_address_def KeystoreAddress_def Let_def by (intro eff_intros)

lemma asks_readAccountMetadata [eff_intros]: "within asks (readAccountMetadata V dir)"
  unfolding readAccountMetadata_def by (intro eff_intros)

lemma asks_list_entry [eff_intros]: "within asks (list_entry V S e r)"
  unfolding list_entry_def by (intro eff_intros)

lemma readAccountMetadata_ok:
  assumes "readAccountMetadata V dir s = (Inr m, t)"
  shows "am_Archived m = is_archived (files s) dir"
proof -
  from assms obtain d u where d: "ReadDoc (ke_os V) (join_path dir ''account.json'') s = (Inr d, u)"
    and m: "(case d of None \<Rightarrow> ret \<lparr> am_Name = [], am_Archived = False \<rparr>
       | Some d \<Rightarrow> lift (case metadata_of d of Inl _ \<Rightarrow> Inl (ErrNew ''account name unreadable'') | Inr m \<Rightarrow> Inr m)) u = (Inr m, t)"
    unfolding readAccountMetadata_def ok_andthen by blast
  from ReadDoc_ok [OF d] m show ?thesis
    by (cases d) (auto simp: is_archived_def ok_simps split: sum.splits)
qed

lemma list_entries_ok:
  assumes "for_each es (list_entry V S) acc s = (Inr res, t)"
  shows "\<exists>new. res = acc @ new \<and> map ai_ID new = map fst (filter (\<lambda>e. snd e \<and> opaqueIDPattern (fst e)) es) \<and>
    (\<forall>a\<in>set new. ai_Archived a = is_archived (files s) (dir_of S (ai_ID a)))"
  using assms
proof (induction es arbitrary: acc s)
  case Nil
  then show ?case by (simp add: ok_simps)
next
  case (Cons e es)
  from Cons.prems(1) obtain mid u where e: "list_entry V S e acc s = (Inr mid, u)"
    and rest: "for_each es (list_entry V S) mid u = (Inr res, t)" by (auto simp: ok_simps)
  have files: "files u = files s" using withinD [OF asks_list_entry e] by (simp add: asks_def)
  from Cons.IH [OF rest] files obtain new where
    new: "res = mid @ new" "map ai_ID new = map fst (filter (\<lambda>e. snd e \<and> opaqueIDPattern (fst e)) es)"
      "\<forall>a\<in>set new. ai_Archived a = is_archived (files s) (dir_of S (ai_ID a))" by auto
  show ?case
  proof (cases "snd e \<and> opaqueIDPattern (fst e)")
    case False
    with e have "mid = acc" by (auto simp: list_entry_def ok_simps)
    with new False show ?thesis by auto
  next
    case True
    with e obtain address s1 m where o: "optional_address V (NewKeystoreManager (account_dir S (fst e)) 0 0) s = (Inr address, s1)"
      and m: "readAccountMetadata V (account_dir S (fst e)) s1 = (Inr m, u)"
      and mid: "mid = acc @ [\<lparr> ai_ID = fst e, ai_Address = address, ai_Name = named (wallet_name (fst e)) m, ai_Archived = am_Archived m \<rparr>]"
      by (auto simp: list_entry_def ok_simps)
    have "files s1 = files s" using withinD [OF asks_optional_address o] by (simp add: asks_def)
    moreover have "fst e \<noteq> []" using True by (auto simp: opaqueIDPattern_def)
    ultimately have "am_Archived m = is_archived (files s) (dir_of S (fst e))"
      using readAccountMetadata_ok [OF m] by (simp add: dir_of_def)
    with new mid True show ?thesis by auto
  qed
qed

lemma listAccounts_ok:
  assumes "listAccounts V S s = (Inr accounts, t)"
  shows "asks s t \<and> distinct (map ai_ID accounts) \<and> set (map ai_ID accounts) = insert [] (account_ids S (files s)) \<and>
    (\<forall>a\<in>set accounts. ai_Archived a = is_archived (files s) (dir_of S (ai_ID a)))"
proof -
  let ?acc = "join_path (as_walletDir S) ''accounts''"
  have "within asks (listAccounts V S)" unfolding listAccounts_def Let_def by (intro eff_intros)
  from withinD [OF this assms] have asks: "asks s t" .
  from assms obtain address s1 m s2 listed s3 where
    o: "optional_address V (NewKeystoreManager (as_walletDir S) (as_scryptN S) (as_scryptP S)) s = (Inr address, s1)" and
    m: "readAccountMetadata V (as_walletDir S) s1 = (Inr m, s2)" and
    l: "ListDir (ke_os V) ?acc s2 = (Inr listed, s3)" and
    r: "(case listed of None \<Rightarrow> ret [\<lparr> ai_ID = [], ai_Address = address, ai_Name = named main_wallet_name m, ai_Archived = am_Archived m \<rparr>]
        | Some es \<Rightarrow> for_each es (list_entry V S)
            [\<lparr> ai_ID = [], ai_Address = address, ai_Name = named main_wallet_name m, ai_Archived = am_Archived m \<rparr>]) s3 = (Inr accounts, t)"
    unfolding listAccounts_def Let_def ok_simps by blast
  have f: "files s1 = files s" "files s2 = files s" "files s3 = files s"
    using withinD [OF asks_optional_address o] withinD [OF asks_readAccountMetadata m] ListDir_ok [OF l] by (simp_all add: asks_def)
  have main: "am_Archived m = is_archived (files s) (dir_of S [])"
    using readAccountMetadata_ok [OF m] f by (simp add: dir_of_def)
  have ids: "n \<in> account_ids S (files s) \<longleftrightarrow> n \<in> set (entries ?acc (files s)) \<and> opaqueIDPattern n \<and> is_dir (files s) (join_path ?acc n)" for n
    using account_ids_listed [of S "files s"] by (auto simp: account_ids_def account_dir_def)
  show ?thesis
  proof (cases listed)
    case None
    with ListDir_ok [OF l] f have none: "\<not> is_dir (files s) ?acc" by simp
    have "account_ids S (files s) = {}"
    proof -
      have "is_dir (files s) ?acc" if "is_dir (files s) (join_path ?acc n)" for n
        by (rule is_dir_parent [OF that])
      with none show ?thesis by (auto simp: account_ids_def account_dir_def)
    qed
    with None r main asks show ?thesis by (auto simp: ok_simps)
  next
    case (Some es)
    with ListDir_ok [OF l] f have es: "es = map (\<lambda>n. (n, is_dir (files s) (join_path ?acc n))) (entries ?acc (files s))" by auto
    let ?first = "\<lparr> ai_ID = [], ai_Address = address, ai_Name = named main_wallet_name m, ai_Archived = am_Archived m \<rparr>"
    from r Some have "for_each es (list_entry V S) [?first] s3 = (Inr accounts, t)" by simp
    from list_entries_ok [OF this] f obtain new where new: "accounts = ?first # new"
      "map ai_ID new = map fst (filter (\<lambda>e. snd e \<and> opaqueIDPattern (fst e)) es)"
      "\<forall>a\<in>set new. ai_Archived a = is_archived (files s) (dir_of S (ai_ID a))" by auto
    have names: "map ai_ID new = filter (\<lambda>n. is_dir (files s) (join_path ?acc n) \<and> opaqueIDPattern n) (entries ?acc (files s))"
      unfolding new(2) es by (simp add: filter_map comp_def)
    have "distinct (map ai_ID new)" unfolding names by (simp add: entries_def)
    moreover have "set (map ai_ID new) = account_ids S (files s)" unfolding names using ids by auto
    moreover have "[] \<notin> account_ids S (files s)" by (simp add: account_ids_def opaqueIDPattern_def)
    ultimately show ?thesis using new main asks by auto
  qed
qed

section \<open>Operations\<close>

text \<open>
  What adding an account does before it touches the disk: the name, the checks and the identifier
  it draws.
\<close>

definition new_ident :: "('k, 'w) kenv \<Rightarrow> account_service \<Rightarrow> string \<Rightarrow> string \<Rightarrow> ('w, 'h, string \<times> string) kact" where
  "new_ident V S name password =
     andthen (lift (accountName name)) (\<lambda>name.
     seq (if password = [] then ret () else lift (ValidatePassword password))
    (andthen (listAccounts V S) (\<lambda>accounts.
     fail_if (20 \<le> length accounts) (ErrNew ''account limit'')
    (andthen (on_world (RandRead (ke_os V) 16)) (\<lambda>idBytes. ret (name, hex_encode idBytes))))))"

lemma AddAccount_draws:
  "AddAccount V S name password = andthen (new_ident V S name password) (\<lambda>(nm, ident). make_account V S ident nm password)"
  by (rule ext) (auto simp: AddAccount_def new_ident_def andthen_def seq_def lift_def fail_if_def throw_def ret_def
      split: prod.split sum.split)

text \<open>The identifier that this call draws, if it comes that far, names nothing on the disk.\<close>

definition draws_unused ::
    "('k, 'w) kenv \<Rightarrow> account_service \<Rightarrow> string \<Rightarrow> string \<Rightarrow> ('w, node, 'h key_heap_scheme) sys \<Rightarrow> bool" where
  "draws_unused V S name password s \<longleftrightarrow>
     (\<forall>nm ident u. new_ident V S name password s = (Inr (nm, ident), u) \<longrightarrow>
        opaqueIDPattern ident \<and> (\<forall>q. below (account_dir S ident) q \<longrightarrow> map_of (files s) q = None))"

inductive account_op ::
    "('k, 'w) kenv \<Rightarrow> account_service \<Rightarrow> ('w, node, 'h key_heap_scheme) sys \<Rightarrow> ('w, node, 'h key_heap_scheme) sys \<Rightarrow> bool"
  for V :: "('k, 'w) kenv" and S :: account_service
  where
    add: "draws_unused V S name password s \<Longrightarrow> AddAccount V S name password s = (r, t) \<Longrightarrow> account_op V S s t"
  | update: "UpdateAccount V S ident name archived s = (r, t) \<Longrightarrow> account_op V S s t"

lemma not_below_metadata:
  assumes "opaqueIDPattern m" and "ident = [] \<or> opaqueIDPattern ident \<and> ident \<noteq> m"
  shows "\<not> below (account_dir S m) (join_path (dir_of S ident) ''account.json'')"
proof (cases "ident = []")
  case True
  show ?thesis
  proof
    assume "below (account_dir S m) (join_path (dir_of S ident) ''account.json'')"
    then have "has_prefix (join_path (as_walletDir S) ''account.json'') (account_dir S m)"
      using True has_prefix_take [of "join_path (as_walletDir S) ''account.json''" "account_dir S m" "''/''"]
      by (auto simp: below_def dir_of_def) (simp add: has_prefix_def)
    then have "take (length (account_dir S m)) (join_path (as_walletDir S) ''account.json'') = account_dir S m"
      by (simp add: has_prefix_def)
    then have "take (length m + 10) ''/account.json'' = ''/accounts/'' @ m"
      by (simp add: account_dir_def join_path_def add.commute)
    from arg_cong [OF this, of "take 9"] show False by (simp add: min_def)
  qed
next
  case False
  with assms have "below (account_dir S ident) (join_path (dir_of S ident) ''account.json'')" by (simp add: dir_of_def)
  with other_account [OF _ assms(1)] assms(2) False show ?thesis by metis
qed

lemma accounts_only_below:
  assumes "accounts_ok S (files s)" and "only_below (account_dir S m) s t" and "opaqueIDPattern m"
    and "m \<notin> account_ids S (files s)" and "card (insert [] (account_ids S (files s))) < 20"
  shows "accounts_ok S (files t)"
proof -
  note ids = ids_only_below [OF assms(2,3)]
  then have "insert [] (account_ids S (files t)) \<subseteq> insert m (insert [] (account_ids S (files s)))" by auto
  then have "card (insert [] (account_ids S (files t))) \<le> card (insert m (insert [] (account_ids S (files s))))"
    by (intro card_mono) simp_all
  also have "\<dots> \<le> Suc (card (insert [] (account_ids S (files s))))" by (rule card_insert_le_m1) simp_all
  finally have count: "card (insert [] (account_ids S (files t))) \<le> 20" using assms(5) by simp
  from assms(1) obtain ident where i: "ident \<in> insert [] (account_ids S (files s))"
    "\<not> is_archived (files s) (dir_of S ident)" by (auto simp: accounts_ok_def)
  from i(1) assms(4) have "ident = [] \<or> opaqueIDPattern ident \<and> ident \<noteq> m" by (auto simp: account_ids_def)
  from not_below_metadata [OF assms(3) this] assms(2)
  have "map_of (files t) (join_path (dir_of S ident) ''account.json'') = map_of (files s) (join_path (dir_of S ident) ''account.json'')"
    by (simp add: only_below_def)
  with i(2) have "\<not> is_archived (files t) (dir_of S ident)" by (simp add: is_archived_def)
  moreover from ids i(1) assms(4) have "ident \<in> insert [] (account_ids S (files t))" by auto
  ultimately show ?thesis using count by (auto simp: accounts_ok_def)
qed

lemma only_below_add: "within (only_below (account_dir S ident)) (make_account V S ident name password)"
  unfolding make_account_def
  by (intro eff_intros only_below_MkdirAll only_below_RemoveAll only_below_body)

lemma asks_listAccounts [eff_intros]: "within asks (listAccounts V S)"
  unfolding listAccounts_def Let_def by (intro eff_intros)

definition added_below ::
    "account_service \<Rightarrow> ('w, node, 'h) sys \<Rightarrow> ('w, node, 'h) sys \<Rightarrow> bool" where
  "added_below S s t \<longleftrightarrow>
     files t = files s \<or>
     (\<exists>m. opaqueIDPattern m \<and> m \<notin> account_ids S (files s) \<and> only_below (account_dir S m) s t \<and>
        card (insert [] (account_ids S (files s))) < 20)"

lemma listed_count: "listAccounts V S s = (Inr accounts, t) \<Longrightarrow> length accounts = card (insert [] (account_ids S (files s)))"
  using listAccounts_ok [of V S s accounts t] by (metis distinct_card length_map)

lemma unused_not_listed:
  assumes "\<And>q. below (account_dir S m) q \<Longrightarrow> map_of fs q = None"
  shows "m \<notin> account_ids S fs"
  using assms unfolding account_ids_def is_dir_dom by (auto simp: below_def)

lemma new_ident_effect:
  assumes "new_ident V S name password s = (r, u)"
  shows "asks s u" and "r = Inr x \<Longrightarrow> card (insert [] (account_ids S (files s))) < 20"
proof -
  have "within asks (new_ident V S name password)" unfolding new_ident_def by (intro eff_intros)
  from withinD [OF this assms] show "asks s u" .
  assume r: "r = Inr x"
  from assms [unfolded r] obtain y v accounts v' s' where p: "s = s'" "(if password = [] then ret () else lift (ValidatePassword password)) s' = (Inr y, v)"
    and l: "listAccounts V S v = (Inr accounts, v')" and n: "\<not> 20 \<le> length accounts"
    unfolding new_ident_def ok_andthen ok_seq ok_fail_if ok_lift by (elim exE conjE) (rule that, assumption+)
  from p have "v = s" by (auto simp: ok_simps split: if_splits)
  with listed_count [OF l] n show "card (insert [] (account_ids S (files s))) < 20" by simp
qed

text \<open>What adding an account comes to: nothing, or work below a directory that named nothing before.\<close>

lemma AddAccount_cases:
  assumes "AddAccount V S name password s = (r, t)" and "draws_unused V S name password s"
  obtains (nothing) "files t = files s"
    | (made) ident nm u where "files u = files s" "make_account V S ident nm password u = (r, t)" "opaqueIDPattern ident"
        "\<And>q. below (account_dir S ident) q \<Longrightarrow> map_of (files s) q = None" "card (insert [] (account_ids S (files s))) < 20"
proof (cases "new_ident V S name password s")
  case (Pair x u)
  note same = new_ident_effect(1) [OF Pair] and room = new_ident_effect(2) [OF Pair]
  show thesis
  proof (cases x)
    case (Inl e)
    with assms(1) Pair have "t = u" by (simp add: AddAccount_draws run_simps)
    with same have "files t = files s" by (simp add: asks_def)
    then show thesis by (rule nothing)
  next
    case (Inr y)
    obtain nm ident where y: "y = (nm, ident)" by force
    with Inr Pair assms(1) have m: "make_account V S ident nm password u = (r, t)" by (simp add: AddAccount_draws run_simps)
    from assms(2) Pair Inr y have d: "opaqueIDPattern ident" "\<And>q. below (account_dir S ident) q \<Longrightarrow> map_of (files s) q = None"
      by (auto simp: draws_unused_def)
    from same have "files u = files s" by (simp add: asks_def)
    from made [OF this m d room [OF Inr]] show thesis .
  qed
qed

lemma AddAccount_effect:
  assumes "AddAccount V S name password s = (r, t)" and "draws_unused V S name password s"
  shows "added_below S s t"
  using assms
proof (cases rule: AddAccount_cases)
  case nothing
  then show ?thesis by (simp add: added_below_def)
next
  case (made ident nm u)
  from withinD [OF only_below_add made(2)] made(1) have "only_below (account_dir S ident) s t" by (simp add: only_below_def)
  with made(3,5) unused_not_listed [OF made(4)] show ?thesis by (auto simp: added_below_def)
qed

lemma metadata_roundtrip: "metadata_of (Some (metadata_doc m)) = Inr m"
proof -
  have "\<not> equal_fold ''archived'' ''name''" "\<not> equal_fold ''name'' ''archived''"
    by (simp_all add: equal_fold_def to_lower_def)
  then show ?thesis
    by (simp add: metadata_of_def metadata_doc_def object_def str_field_def bool_field_def)
qed

definition metadata_path :: "account_service \<Rightarrow> string \<Rightarrow> string" where
  "metadata_path S ident = join_path (dir_of S ident) ''account.json''"

definition updated ::
    "account_service \<Rightarrow> (string \<times> node) list \<Rightarrow> (string \<times> node) list \<Rightarrow> bool" where
  "updated S fs fs' \<longleftrightarrow>
     (\<exists>ident m. ident \<in> insert [] (account_ids S fs) \<and>
        fs' = AList.update (metadata_path S ident) (Doc (Some (metadata_doc m))) fs \<and>
        (am_Archived m \<longrightarrow> \<not> is_archived fs (dir_of S ident) \<longrightarrow>
           (\<exists>other\<in>insert [] (account_ids S fs). other \<noteq> ident \<and> \<not> is_archived fs (dir_of S other))))"

lemma another_active:
  assumes "listAccounts V S s = (Inr accounts, t)" and "a \<in> set accounts" and "\<not> ai_Archived a"
    and "1 < length (filter (\<lambda>a. \<not> ai_Archived a) accounts)"
  shows "\<exists>other\<in>insert [] (account_ids S (files s)). other \<noteq> ai_ID a \<and> \<not> is_archived (files s) (dir_of S other)"
proof -
  note l = listAccounts_ok [OF assms(1)]
  let ?act = "filter (\<lambda>a. \<not> ai_Archived a) accounts"
  have d: "distinct (map ai_ID ?act)" using l by (simp add: distinct_map inj_on_def)
  have "\<exists>b\<in>set ?act. ai_ID b \<noteq> ai_ID a"
  proof (rule ccontr)
    assume "\<not> (\<exists>b\<in>set ?act. ai_ID b \<noteq> ai_ID a)"
    then have "set (map ai_ID ?act) \<subseteq> {ai_ID a}" by auto
    then have "card (set (map ai_ID ?act)) \<le> 1" using card_mono [of "{ai_ID a}"] by fastforce
    with d assms(4) show False by (simp add: distinct_card del: set_map)
  qed
  then obtain b where b: "b \<in> set accounts" "\<not> ai_Archived b" "ai_ID b \<noteq> ai_ID a" by auto
  with l have "ai_ID b \<in> insert [] (account_ids S (files s))" by (metis image_eqI set_map)
  with b l show ?thesis by (intro bexI [of _ "ai_ID b"]) auto
qed

lemma UpdateAccount_effect:
  assumes "UpdateAccount V S ident name archived s = (r, t)"
  shows "files t = files s \<or> updated S (files s) (files t)"
proof -
  have stop: "files u = files s \<or> updated S (files s) (files u)" if "files u = files s" for u using that by simp
  let ?Q = "\<lambda>_ t. files t = files s \<or> updated S (files s) (files t)"
  have "wp (UpdateAccount V S ident name archived) ?Q ?Q s"
    unfolding UpdateAccount_def Let_def wp_andthen wp_seq wp_lift
  proof (cases "accountName name"; simp only: sum.case)
    case (Inr nm)
    show "wp (if ident = [] then ret '''' else lift (ParseAccountID ident)) (\<lambda>_. wp (listAccounts V S)
      (\<lambda>accounts. wp (case List.find (\<lambda>a. ai_ID a = ident) (rev accounts) of None \<Rightarrow> throw (ErrNew ''account not found'')
        | Some target \<Rightarrow>
            fail_if (archived \<and> \<not> ai_Archived target \<and> length (filter (\<lambda>a. \<not> ai_Archived a) accounts) \<le> 1) (ErrNew ''last active account'')
             (seq (atomicWriteFile (ke_os V) (join_path (if ident = [] then as_walletDir S else account_dir S ident) ''account.json'')
                 (Doc (Some (metadata_doc \<lparr> am_Name = nm, am_Archived = archived \<rparr>))))
              (ret (target\<lparr>ai_Name := nm, ai_Archived := archived\<rparr>)))) ?Q ?Q) ?Q) ?Q s"
      apply (rule wp_asks, intro eff_intros)
       apply (rule wp_asks [OF asks_listAccounts])
      subgoal for u1 s1 accounts s2
      proof (cases "List.find (\<lambda>a. ai_ID a = ident) (rev accounts)")
        case (Some target)
        assume f: "files s1 = files s" "files s2 = files s1" and l: "listAccounts V S s1 = (Inr accounts, s2)"
        from find_SomeD [OF Some] have t: "target \<in> set accounts" "ai_ID target = ident" by auto
        note lo = listAccounts_ok [OF l]
        from t lo f have mem: "ident \<in> insert [] (account_ids S (files s))" by (metis image_eqI set_map)
        from t lo f have arch: "ai_Archived target = is_archived (files s) (dir_of S ident)" by auto
        have up: "updated S (files s) (AList.update (metadata_path S ident) (Doc (Some (metadata_doc \<lparr> am_Name = nm, am_Archived = archived \<rparr>))) (files s))"
          if "\<not> (archived \<and> \<not> ai_Archived target \<and> length (filter (\<lambda>a. \<not> ai_Archived a) accounts) \<le> 1)"
          unfolding updated_def
          by (rule exI [of _ ident], rule exI [of _ "\<lparr> am_Name = nm, am_Archived = archived \<rparr>"])
             (use that mem arch another_active [OF l t(1)] t(2) f in \<open>auto simp: not_le\<close>)
        show ?thesis
          using f up Some
          by (auto simp: wp_simps metadata_path_def dir_of_def intro!: wp_atomicWriteFile)
      qed (auto simp: wp_simps)
      apply auto
      done
  qed simp
  then show ?thesis by (rule wp_outcome) (rule assms)
qed

lemma metadata_path_inj:
  assumes "a = [] \<or> opaqueIDPattern a" and "b = [] \<or> opaqueIDPattern b" and "metadata_path S a = metadata_path S b"
  shows "a = b"
proof (rule ccontr)
  assume "a \<noteq> b"
  have no: False if "opaqueIDPattern x" "y = [] \<or> opaqueIDPattern y" "y \<noteq> x" "metadata_path S x = metadata_path S y" for x y
  proof -
    have "below (account_dir S x) (metadata_path S x)"
      using that(1) by (auto simp: metadata_path_def dir_of_def opaqueIDPattern_def)
    with not_below_metadata [OF that(1), of y S] that show False by (auto simp: metadata_path_def)
  qed
  from \<open>a \<noteq> b\<close> assms(1,2) consider "opaqueIDPattern a" | "opaqueIDPattern b" by auto
  then show False using no [of a b] no [of b a] assms \<open>a \<noteq> b\<close> by cases simp_all
qed

lemma updated_keeps_ok:
  assumes "accounts_ok S fs" and "updated S fs fs'"
  shows "accounts_ok S fs'"
proof -
  from assms(2) obtain ident m where i: "ident \<in> insert [] (account_ids S fs)"
    "fs' = AList.update (metadata_path S ident) (Doc (Some (metadata_doc m))) fs"
    "am_Archived m \<Longrightarrow> \<not> is_archived fs (dir_of S ident) \<Longrightarrow>
       \<exists>other\<in>insert [] (account_ids S fs). other \<noteq> ident \<and> \<not> is_archived fs (dir_of S other)"
    by (auto simp: updated_def)
  have op: "ident = [] \<or> opaqueIDPattern ident" using i(1) by (auto simp: account_ids_def)
  have other: "map_of fs' q = map_of fs q" if "q \<noteq> metadata_path S ident" for q using that i(2) by simp
  have dirs: "is_dir fs' (account_dir S n) = is_dir fs (account_dir S n)" if n: "opaqueIDPattern n" "n \<noteq> ident" for n
  proof -
    have "map_of fs' q = map_of fs q" if "below (account_dir S n) q" for q
      using other [of q] not_below_metadata [OF n(1)] that op n(2) by (metis metadata_path_def)
    then show ?thesis unfolding is_dir_dom by (metis below_def)
  qed
  have own: "is_dir fs' (account_dir S ident)" if "ident \<noteq> []"
    using that i(2) unfolding is_dir_dom
    by (intro disjI2 exI [of _ "metadata_path S ident"]) (simp add: metadata_path_def dir_of_def join_path_def has_prefix_def)
  have ids: "insert [] (account_ids S fs') = insert [] (account_ids S fs)"
    using dirs own op i(1) by (auto simp: account_ids_def)
  have metadata_inj: "metadata_path S a = metadata_path S b \<Longrightarrow> a = b" if "a \<in> insert [] (account_ids S fs)" "b \<in> insert [] (account_ids S fs)" for a b
    using that metadata_path_inj [of a b S] by (auto simp: account_ids_def)
  have same: "is_archived fs' (dir_of S n) = is_archived fs (dir_of S n)" if "n \<in> insert [] (account_ids S fs)" "n \<noteq> ident" for n
  proof -
    have "metadata_path S n \<noteq> metadata_path S ident" using metadata_inj [OF that(1) i(1)] that(2) by blast
    from other [OF this] show ?thesis by (simp add: is_archived_def metadata_path_def)
  qed
  have self: "is_archived fs' (dir_of S ident) = am_Archived m"
    using i(2) by (auto simp: is_archived_def metadata_path_def metadata_roundtrip)
  from assms(1) obtain n where n: "n \<in> insert [] (account_ids S fs)" "\<not> is_archived fs (dir_of S n)" by (auto simp: accounts_ok_def)
  have "\<exists>n\<in>insert [] (account_ids S fs). \<not> is_archived fs' (dir_of S n)"
  proof (cases "n = ident \<and> am_Archived m")
    case True
    with i(3) n same show ?thesis by blast
  next
    case False
    with n same [of n] self show ?thesis by metis
  qed
  with assms(1) ids show ?thesis by (simp add: accounts_ok_def)
qed

lemma account_op_ok:
  assumes "accounts_ok S (files s)" and "account_op V S s t"
  shows "accounts_ok S (files t)"
  using assms(2)
proof cases
  case (add name password r)
  from AddAccount_effect [OF add(2,1)] assms(1) show ?thesis
    unfolding added_below_def using accounts_only_below [of S s _ t] by auto
next
  case (update ident name archived r)
  from UpdateAccount_effect [OF this] updated_keeps_ok [OF assms(1)] assms(1) show ?thesis by auto
qed

section \<open>Keys and accounts together\<close>

text \<open>The two halves of \<open>catalog_ok\<close>.\<close>

definition names_key :: "('k, 'w) kenv \<Rightarrow> (string \<times> node) list \<Rightarrow> string \<Rightarrow> bool" where
  "names_key V fs p \<longleftrightarrow>
     (\<forall>j pass key. map_of fs p = Some (Doc (Some j)) \<longrightarrow> DecryptV3 (ke_lib V) j pass = Inr key \<longrightarrow>
        address_at V fs p = Some (key_Address key))"

definition addresses_unique :: "('k, 'w) kenv \<Rightarrow> string \<Rightarrow> (string \<times> node) list \<Rightarrow> bool" where
  "addresses_unique V dir fs \<longleftrightarrow>
     (\<forall>p q a. in_catalog dir p \<longrightarrow> in_catalog dir q \<longrightarrow> address_at V fs p = Some a \<longrightarrow> address_at V fs q = Some a \<longrightarrow> p = q)"

definition names_keys :: "('k, 'w) kenv \<Rightarrow> string \<Rightarrow> (string \<times> node) list \<Rightarrow> bool" where
  "names_keys V dir fs \<longleftrightarrow> (\<forall>p. in_catalog dir p \<longrightarrow> names_key V fs p)"

lemma catalog_ok_halves: "catalog_ok V dir fs \<longleftrightarrow> addresses_unique V dir fs \<and> names_keys V dir fs"
  unfolding catalog_ok_def addresses_unique_def names_keys_def names_key_def by blast

lemma names_key_cong: "map_of fs' p = map_of fs p \<Longrightarrow> names_key V fs' p = names_key V fs p"
  by (simp add: names_key_def address_at_def)

lemma address_at_cong: "map_of fs' p = map_of fs p \<Longrightarrow> address_at V fs' p = address_at V fs p"
  by (simp add: address_at_def)

lemma holds_key_cong: "map_of fs' p = map_of fs p \<Longrightarrow> holds_key V fs' p k = holds_key V fs p k"
  by (simp add: holds_key_def)

lemma written_names_key:
  assumes "v3_laws V" and "writes_key V K key pass fs fs'" and "key_Address key = PubkeyAddress (ke_eth V) (key_PrivateKey key)"
  shows "names_key V fs' (keystorePath K)"
  unfolding names_key_def
proof (intro allI impI)
  fix i pass' key'
  assume i: "map_of fs' (keystorePath K) = Some (Doc (Some i))" "DecryptV3 (ke_lib V) i pass' = Inr key'"
  from v3_written [OF assms(1,2)] obtain j key0 where j: "fs' = AList.update (keystorePath K) (Doc (Some j)) fs"
    "address_at V fs' (keystorePath K) = Some (key_Address key)" "DecryptV3 (ke_lib V) j pass = Inr key0"
    "key_PrivateKey key0 = key_PrivateKey key" by blast
  from i(1) j(1) have "i = j" by simp
  with v3D(3) [OF assms(1) j(3)] v3D(4) [OF assms(1)] i(2) j(4) assms(3) have "key_Address key' = key_Address key" by metis
  with j(2) show "address_at V fs' (keystorePath K) = Some (key_Address key')" by simp
qed

lemma writes_key_other: "writes_key V K key pass fs fs' \<Longrightarrow> p \<noteq> keystorePath K \<Longrightarrow> map_of fs' p = map_of fs p"
  by (auto simp: writes_key_def)

lemma key_op_names:
  assumes "v3_laws V" and "names_keys V dir (files s)" and "key_op V dir s t"
  shows "names_keys V dir (files t)"
proof -
  have put: "names_keys V dir (files t)"
    if "writes_key V K key pass (files s) (files t)" "key_Address key = PubkeyAddress (ke_eth V) (key_PrivateKey key)" for K key pass
    using written_names_key [OF assms(1) that] writes_key_other [OF that(1)] names_key_cong assms(2)
    unfolding names_keys_def by metis
  from assms(3) show ?thesis
  proof (cases rule: key_op_cases)
    case same
    with assms(2) show ?thesis by simp
  next
    case (new K key pass)
    with put show ?thesis by (auto simp: stored_def)
  next
    case (again K pass pass')
    then obtain d key where d: "open_key V d pass = Inr key" "writes_key V K key pass' (files s) (files t)" by (auto simp: rekeyed_def)
    from open_key_Inr [OF d(1)] v3D(4) [OF assms(1)] put [OF d(2)] show ?thesis by blast
  qed
qed

text \<open>The key file of a new account names its key at every moment.\<close>

definition keeps_named ::
    "('k, 'w) kenv \<Rightarrow> string \<Rightarrow> ('w, node, 'h) sys \<Rightarrow> ('w, node, 'h) sys \<Rightarrow> bool" where
  "keeps_named V p s t \<longleftrightarrow> (names_key V (files s) p \<longrightarrow> names_key V (files t) p)"

interpretation keeps_named: effect "keeps_named V p" for V :: "('k, 'w) kenv" and p :: string
  by unfold_locales (auto simp: keeps_named_def)

lemma keeps_named_same: "map_of (files t) p = map_of (files s) p \<Longrightarrow> keeps_named V p s t"
  unfolding keeps_named_def using names_key_cong [of "files t" p "files s" V] by simp

lemma asks_keeps_named: "within asks m \<Longrightarrow> within (keeps_named V p) m"
  by (erule within_weaken) (simp add: asks_def keeps_named_same)

lemma keeps_named_work:
  assumes "v3_laws V"
  shows "q \<noteq> p \<Longrightarrow> within (keeps_named V p) (MkdirAll (ke_os V) q)"
    and "within (keeps_named V p) (RemoveAll (ke_os V) q)"
    and "q \<noteq> p \<Longrightarrow> within (keeps_named V p) (atomicWriteFile (ke_os V) q d)"
    and "within (keeps_named V (keystorePath K)) (Create V K password)"
proof -
  show "q \<noteq> p \<Longrightarrow> within (keeps_named V p) (MkdirAll (ke_os V) q)"
    unfolding MkdirAll_def
    by (intro eff_intros asks_keeps_named [OF asks_on_world] keeps_named.eff_modify) (auto intro: keeps_named_same)
  have "map_of (filter (\<lambda>(x, d). g x) fs) p = (if g p then map_of fs p else None)" for g and fs :: "(string \<times> node) list"
    by (induction fs) auto
  then have gone: "names_key V fs p \<Longrightarrow> names_key V (filter (\<lambda>(x, d). g x) fs) p" for g and fs :: "(string \<times> node) list"
    by (auto simp: names_key_def address_at_def)
  show "within (keeps_named V p) (RemoveAll (ke_os V) q)"
    unfolding RemoveAll_def
    by (intro eff_intros asks_keeps_named [OF asks_on_world] keeps_named.eff_modify) (auto simp: keeps_named_def intro!: gone)
  show "within (keeps_named V p) (atomicWriteFile (ke_os V) q d)" if "q \<noteq> p"
    unfolding within_def
  proof
    fix s
    have "wp (atomicWriteFile (ke_os V) q d) (\<lambda>_ t. keeps_named V p s t) (\<lambda>_ t. keeps_named V p s t) s"
      by (rule wp_atomicWriteFile) (use that in \<open>auto intro: keeps_named_same\<close>)
    then show "keeps_named V p s (snd (atomicWriteFile (ke_os V) q d s))"
      by (auto simp: wp_def split: prod.splits sum.splits)
  qed
  show "within (keeps_named V (keystorePath K)) (Create V K password)"
    unfolding within_def
  proof
    fix s
    have "new_wallet V K s (snd (Create V K password s))"
      by (rule created_outcome(1)) (rule prod.collapse [symmetric])
    then show "keeps_named V (keystorePath K) s (snd (Create V K password s))"
      using written_names_key [OF assms]
      by (auto simp: new_wallet_def untouched_def stored_def keeps_named_def)
  qed
qed

lemma account_paths: "keystorePath (account_keys S ident) = join_path (account_dir S ident) ''keystore.json''"
  by (simp add: keystorePath_def account_keys_def NewKeystoreManager_def)

lemma make_account_names:
  assumes "v3_laws V" and "make_account V S ident nm password u = (r, t)"
    and "map_of (files u) (keystorePath (account_keys S ident)) = None"
  shows "names_key V (files t) (keystorePath (account_keys S ident))"
proof -
  have "account_dir S ident \<noteq> keystorePath (account_keys S ident)"
    "join_path (account_dir S ident) ''account.json'' \<noteq> keystorePath (account_keys S ident)"
    unfolding account_paths by (simp_all add: join_path_def)
  then have "within (keeps_named V (keystorePath (account_keys S ident))) (make_account V S ident nm password)"
    unfolding make_account_def new_account_body_def
    by (intro eff_intros keeps_named_work [OF assms(1)])
  from withinD [OF this assms(2)] assms(3) show ?thesis by (simp add: keeps_named_def names_key_def)
qed

lemma in_catalog_below:
  assumes "in_catalog (as_walletDir S) p" and "opaqueIDPattern m" and "below (account_dir S m) p"
  shows "p = keystorePath (account_keys S m)"
proof -
  let ?acc = "join_path (as_walletDir S) ''accounts''"
  note slash = no_slash [OF assms(2)]
  have m: "entry_of ?acc p = Some m"
    using assms(3) entry_of_self [OF slash] entry_of_child [OF slash] by (auto simp: below_def account_dir_def)
  from assms(1) consider "p = join_path (as_walletDir S) ''keystore.json''"
    | n where "CHR ''/'' \<notin> set n" "p = catalog_path (as_walletDir S) n" by (auto simp: in_catalog_def)
  then show ?thesis
  proof cases
    case 1
    with m show ?thesis by (simp add: entry_of_def join_path_def has_prefix_def split: if_splits)
  next
    case 2
    have "has_prefix (join_path d f) (d @ ''/'')" for d f by (simp add: join_path_def has_prefix_def)
    from entry_of_child [OF 2(1) this] 2(2) have "entry_of ?acc p = Some n" by (simp add: catalog_path_def)
    with m 2 show ?thesis by (simp add: account_paths account_dir_def catalog_path_def)
  qed
qed

lemma metadata_not_catalog:
  assumes "in_catalog dir p" shows "p \<noteq> metadata_path S ident"
proof -
  have "rev p ! 5 = CHR ''e''" using assms by (auto simp: in_catalog_def catalog_path_def join_path_def)
  moreover have "rev (metadata_path S ident) ! 5 = CHR ''t''" by (simp add: metadata_path_def join_path_def)
  ultimately show ?thesis by auto
qed

text \<open>
  Operations on the keys and the accounts of one wallet directory.  \<open>strict\<close> adds to an addition
  that the address of the key it creates is new to the catalog, which the manager of the new
  directory does not check.
\<close>

definition new_addresses :: "('k, 'w) kenv \<Rightarrow> string \<Rightarrow> (string \<times> node) list \<Rightarrow> (string \<times> node) list \<Rightarrow> bool" where
  "new_addresses V dir fs fs' \<longleftrightarrow>
     (\<forall>p q a. in_catalog dir p \<longrightarrow> in_catalog dir q \<longrightarrow> map_of fs p = None \<longrightarrow> address_at V fs' p = Some a \<longrightarrow>
        address_at V fs q \<noteq> Some a)"

inductive catalog_op ::
    "('k, 'w) kenv \<Rightarrow> account_service \<Rightarrow> bool \<Rightarrow> ('w, node, 'h key_heap_scheme) sys \<Rightarrow> ('w, node, 'h key_heap_scheme) sys \<Rightarrow> bool"
  for V :: "('k, 'w) kenv" and S :: account_service and strict :: bool
  where
    keys: "key_op V (as_walletDir S) s t \<Longrightarrow> catalog_op V S strict s t"
  | add: "draws_unused V S name password s \<Longrightarrow> AddAccount V S name password s = (r, t) \<Longrightarrow>
      (strict \<longrightarrow> new_addresses V (as_walletDir S) (files s) (files t)) \<Longrightarrow> catalog_op V S strict s t"
  | update: "UpdateAccount V S ident name archived s = (r, t) \<Longrightarrow> catalog_op V S strict s t"

text \<open>An addition leaves the key files that are there as they are, and its own names its key.\<close>

lemma AddAccount_catalog:
  assumes "v3_laws V" and "draws_unused V S name password s" and "AddAccount V S name password s = (r, t)"
  shows "files t = files s \<or> (\<exists>p0. map_of (files s) p0 = None \<and> names_key V (files t) p0 \<and>
    (\<forall>p. in_catalog (as_walletDir S) p \<longrightarrow> p \<noteq> p0 \<longrightarrow> map_of (files t) p = map_of (files s) p))"
  using assms(3,2)
proof (cases rule: AddAccount_cases)
  case (made ident nm u)
  let ?p = "keystorePath (account_keys S ident)"
  have none: "map_of (files s) ?p = None" by (rule made(4)) (simp add: account_paths)
  from withinD [OF only_below_add made(2)] made(1) have only: "only_below (account_dir S ident) s t" by (simp add: only_below_def)
  have "map_of (files t) p = map_of (files s) p" if "in_catalog (as_walletDir S) p" "p \<noteq> ?p" for p
    using in_catalog_below [OF that(1) made(3)] that(2) only by (auto simp: only_below_def)
  moreover have "names_key V (files t) ?p"
    by (rule make_account_names [OF assms(1) made(2)]) (simp add: made(1) none)
  ultimately show ?thesis using none by blast
qed simp

lemma UpdateAccount_catalog:
  assumes "UpdateAccount V S ident name archived s = (r, t)" and "in_catalog dir p"
  shows "map_of (files t) p = map_of (files s) p"
  using UpdateAccount_effect [OF assms(1)] metadata_not_catalog [OF assms(2)] by (auto simp: updated_def)

lemma catalog_op_keeps:
  assumes "v3_laws V" and "names_keys V (as_walletDir S) (files s)" and "catalog_op V S strict s t"
  shows "in_catalog (as_walletDir S) p \<Longrightarrow> holds_key V (files s) p k \<Longrightarrow> holds_key V (files t) p k"
    and "names_keys V (as_walletDir S) (files t)"
    and "strict \<Longrightarrow> addresses_unique V (as_walletDir S) (files s) \<Longrightarrow> addresses_unique V (as_walletDir S) (files t)"
proof -
  let ?dir = "as_walletDir S"
  have "(in_catalog ?dir p \<longrightarrow> holds_key V (files s) p k \<longrightarrow> holds_key V (files t) p k) \<and> names_keys V ?dir (files t) \<and>
      (strict \<longrightarrow> addresses_unique V ?dir (files s) \<longrightarrow> addresses_unique V ?dir (files t))"
    using assms(3)
  proof cases
    case keys
    from key_op_keeps_key [OF assms(1) _ keys] key_op_names [OF assms(1,2) keys] key_op_catalog [OF assms(1) _ keys] assms(2)
    show ?thesis by (simp add: catalog_ok_halves)
  next
    case (add name password r)
    from AddAccount_catalog [OF assms(1) add(1,2)] show ?thesis
    proof (elim disjE exE conjE)
      fix p0
      assume p0: "map_of (files s) p0 = None" "names_key V (files t) p0"
        "\<forall>p. in_catalog ?dir p \<longrightarrow> p \<noteq> p0 \<longrightarrow> map_of (files t) p = map_of (files s) p"
      have addr: "address_at V (files t) p = address_at V (files s) p" if "in_catalog ?dir p" "p \<noteq> p0" for p
        using p0(3) that by (intro address_at_cong) blast
      have "holds_key V (files t) p k" if "in_catalog ?dir p" "holds_key V (files s) p k"
        using that p0(1,3) holds_key_cong [of "files t" p "files s" V k] by (cases "p = p0") (auto simp: holds_key_def)
      moreover have "names_keys V ?dir (files t)"
        using assms(2) p0(2,3) names_key_cong unfolding names_keys_def by metis
      moreover have "addresses_unique V ?dir (files t)" if st: "strict" and un: "addresses_unique V ?dir (files s)"
        unfolding addresses_unique_def
      proof (intro allI impI)
        fix p q a
        assume pq: "in_catalog ?dir p" "in_catalog ?dir q" "address_at V (files t) p = Some a" "address_at V (files t) q = Some a"
        from add(3) st have new: "address_at V (files s) y \<noteq> Some b"
          if "in_catalog ?dir x" "in_catalog ?dir y" "map_of (files s) x = None" "address_at V (files t) x = Some b" for x y b
          using that unfolding new_addresses_def by blast
        show "p = q"
        proof (cases "p = p0 \<or> q = p0")
          case True
          then show ?thesis using new [OF pq(1,2)] new [OF pq(2,1)] pq p0(1) addr by metis
        next
          case False
          with un pq addr show ?thesis unfolding addresses_unique_def by metis
        qed
      qed
      ultimately show ?thesis by blast
    qed (use assms(2) in simp)
  next
    case (update ident name archived r)
    note same = UpdateAccount_catalog [OF update]
    have "names_keys V ?dir (files t)" using assms(2) names_key_cong [OF same] unfolding names_keys_def by blast
    moreover have "addresses_unique V ?dir (files t)" if "addresses_unique V ?dir (files s)"
      using that address_at_cong [OF same] unfolding addresses_unique_def by metis
    moreover have "holds_key V (files t) p k" if "in_catalog ?dir p" "holds_key V (files s) p k"
      using that holds_key_cong [OF same] by metis
    ultimately show ?thesis by blast
  qed
  then show "in_catalog (as_walletDir S) p \<Longrightarrow> holds_key V (files s) p k \<Longrightarrow> holds_key V (files t) p k"
    and "names_keys V (as_walletDir S) (files t)"
    and "strict \<Longrightarrow> addresses_unique V (as_walletDir S) (files s) \<Longrightarrow> addresses_unique V (as_walletDir S) (files t)" by blast+
qed

section \<open>Properties\<close>

text \<open>
  C6: through any sequence of operations on the keys and the accounts of a wallet directory
  (creating and importing keys, from a mnemonic or a file, changing a password, adding, renaming
  and archiving accounts), with any failures, no private key of the catalog is lost: the file that
  held it still opens to it, and each key file names the address of the key it opens to.  No two
  accounts have one address either, as long as an addition does not itself draw a key whose
  address is in the catalog, which its manager does not check.  (Each addition draws an identifier
  that names nothing on the disk.)
\<close>

theorem catalog_keeps_keys:
  assumes "v3_laws V" and "catalog_ok V (as_walletDir S) (files s)" and "(catalog_op V S strict)\<^sup>*\<^sup>* s t"
  shows "(\<forall>p k. in_catalog (as_walletDir S) p \<longrightarrow> holds_key V (files s) p k \<longrightarrow> holds_key V (files t) p k) \<and>
    names_keys V (as_walletDir S) (files t) \<and> (strict \<longrightarrow> addresses_unique V (as_walletDir S) (files t))"
  using assms(3)
proof (induction rule: rtranclp_induct)
  case base
  with assms(2) show ?case by (simp add: catalog_ok_halves)
next
  case (step t u)
  then have names: "names_keys V (as_walletDir S) (files t)" by blast
  from step(3) catalog_op_keeps [OF assms(1) names step(2)] show ?case by blast
qed

text \<open>
  C8: adding, renaming and archiving accounts, with any outcome and a crash at any write, keeps
  at most twenty accounts in a wallet directory and at least one of them visible.  One condition
  is on each addition: the sixteen random bytes it draws, if it comes to draw them, do not name
  something that is on the disk already (on a collision the failed addition would remove that
  account's directory).  It is a condition on the identifier this addition draws in its own state.
\<close>

theorem accounts_bounded:
  assumes "accounts_ok S (files s)" and "(account_op V S)\<^sup>*\<^sup>* s t"
  shows "accounts_ok S (files t)"
  using assms(2,1) by (induction rule: rtranclp_induct) (simp_all add: account_op_ok)

end
