(* ===== verification/AccountsSamples.thy ===== *)
theory AccountsSamples
  imports AccountsFacts KeystoreSamples
begin

text \<open>
  Closed instances: two accounts are added to an empty directory, and an account is added to one
  that holds a key.
\<close>

definition sample_accounts :: account_service where
  "sample_accounts = \<lparr> as_walletDir = ''w'', as_scryptN = 0, as_scryptP = 0 \<rparr>"

lemma sample_accounts_dir [simp]: "as_walletDir sample_accounts = ''w''" "as_scryptN sample_accounts = 0" "as_scryptP sample_accounts = 0"
  by (simp_all add: sample_accounts_def)

lemma sample_name: "accountName ''main'' = Inr ''main''"
proof -
  have r: "runes ''main'' = map (\<lambda>c. (of_char c, [c])) ''main''" by (rule runes_ascii) simp
  have "TrimSpace ''main'' = ''main''" by (rule TrimSpace_same) (simp_all add: r IsSpace_def)
  then show ?thesis by (simp add: accountName_def RuneCountInString_def r IsControl_def)
qed

text \<open>A machine whose random source counts.\<close>

definition counting_kenv :: "(address, int) kenv" where
  "counting_kenv = sample_kenv\<lparr> ke_os := sample_io\<lparr> RandRead := (\<lambda>n w. (Inr (replicate (n - 1) 0 @ [word_of_int w]), w + 1)) \<rparr> \<rparr>"

lemma counting_os [simp]:
  "SysCall (ke_os counting_kenv) op w = (Inr (), w)"
  "RandRead (ke_os counting_kenv) 16 w = (Inr (replicate 15 0 @ [word_of_int w]), w + 1)"
  by (simp_all add: counting_kenv_def sample_io_def)

lemma counting_write: "atomicWriteFile (ke_os counting_kenv) p d s = (Inr (), put_file p d s)"
  by (simp add: atomicWriteFile_def run_simps)

abbreviation first_ident :: string where
  "first_ident \<equiv> ''00000000000000000000000000000000''"

abbreviation second_ident :: string where
  "second_ident \<equiv> ''00000000000000000000000000000001''"

lemma sample_idents:
  "hex_encode (replicate 15 0 @ [0]) = first_ident" "hex_encode (replicate 15 0 @ [1]) = second_ident"
  "hex_encode (replicate 16 0) = first_ident"
  "opaqueIDPattern first_ident" "opaqueIDPattern second_ident"
  by code_simp+

definition main_doc :: node where
  "main_doc = Doc (Some (metadata_doc \<lparr> am_Name = ''main'', am_Archived = False \<rparr>))"

definition one_account :: "(string \<times> node) list" where
  "one_account = [(account_dir sample_accounts first_ident, Dir), (join_path (account_dir sample_accounts first_ident) ''account.json'', main_doc)]"

definition two_accounts :: "(string \<times> node) list" where
  "two_accounts = one_account @
     [(account_dir sample_accounts second_ident, Dir), (join_path (account_dir sample_accounts second_ident) ''account.json'', main_doc)]"

lemma one_account_listed:
  "entries ''w/accounts'' one_account = [first_ident]" "is_dir one_account ''w/accounts''"
  "is_dir one_account (account_dir sample_accounts first_ident)" "\<not> is_dir one_account (account_dir sample_accounts second_ident)"
  "map_of one_account ''w/keystore.json'' = None" "map_of one_account ''w/account.json'' = None"
  "map_of one_account ''w/accounts'' = None"
  "map_of one_account (join_path (account_dir sample_accounts first_ident) ''keystore.json'') = None"
  "map_of one_account (join_path (account_dir sample_accounts first_ident) ''account.json'') = Some main_doc"
  by (simp_all add: one_account_def account_dir_def join_path_def is_dir_def has_prefix_def entries_def entry_of_def map_filter_def)

lemma account_dir_sample: "account_dir sample_accounts i = ''w/accounts/'' @ i"
  by (simp add: account_dir_def join_path_def)

lemma first_drawn:
  assumes "files s = []" and "world s = 0"
  shows "new_ident counting_kenv sample_accounts ''main'' [] s = (Inr (''main'', first_ident), s\<lparr>world := 1\<rparr>)"
  using assms
  by (simp add: new_ident_def sample_name run_simps listAccounts_def optional_address_def KeystoreAddress_def ReadDoc_def
      ReadFile_def readAccountMetadata_def ListDir_def is_dir_def err_is_def join_path_def Let_def sample_idents del: replicate.simps)

lemma first_entry:
  fixes s :: "(int, node, key_heap) sys"
  assumes "files s = one_account"
  shows "\<exists>a. list_entry counting_kenv sample_accounts (first_ident, is_dir one_account (join_path ''w/accounts'' first_ident)) acc s = (Inr (acc @ [a]), s)"
proof -
  have d: "join_path ''w/accounts'' first_ident = account_dir sample_accounts first_ident" by (simp add: account_dir_def join_path_def)
  have k: "map_of one_account (keystorePath (NewKeystoreManager (account_dir sample_accounts first_ident) 0 0)) = None"
    using one_account_listed(8) by (simp add: keystorePath_def NewKeystoreManager_def)
  show ?thesis
    using assms one_account_listed(3,9) k sample_idents(4)
    by (simp add: list_entry_def d optional_address_def KeystoreAddress_def ReadDoc_def ReadFile_def readAccountMetadata_def err_is_def
        Let_def run_simps main_doc_def metadata_roundtrip)
qed

lemma second_drawn:
  fixes s :: "(int, node, key_heap) sys"
  assumes "files s = one_account" and "world s = 1"
  shows "new_ident counting_kenv sample_accounts ''main'' [] s = (Inr (''main'', second_ident), s\<lparr>world := 2\<rparr>)"
proof -
  obtain a where "list_entry counting_kenv sample_accounts (first_ident, is_dir one_account (join_path ''w/accounts'' first_ident))
      [\<lparr> ai_ID = [], ai_Address = [], ai_Name = named main_wallet_name \<lparr>am_Name = [], am_Archived = False\<rparr>, ai_Archived = False \<rparr>] s =
      (Inr ([\<lparr> ai_ID = [], ai_Address = [], ai_Name = named main_wallet_name \<lparr>am_Name = [], am_Archived = False\<rparr>, ai_Archived = False \<rparr>] @ [a]), s)"
    using first_entry [OF assms(1)] by blast
  then show ?thesis
    using assms one_account_listed
    by (simp add: new_ident_def sample_name run_simps listAccounts_def optional_address_def KeystoreAddress_def ReadDoc_def
      ReadFile_def readAccountMetadata_def ListDir_def err_is_def Let_def sample_idents NewKeystoreManager_def keystorePath_def join_path_def [of "''w''"] del: replicate.simps)
qed

text \<open>Making an account without a key.\<close>

lemma account_made:
  assumes "\<not> is_dir (files s) (account_dir sample_accounts i)"
    and "map_of (files s) (account_dir sample_accounts i) = None"
    and "map_of (files s) (join_path (account_dir sample_accounts i) ''account.json'') = None"
  shows "\<exists>r t. make_account counting_kenv sample_accounts i ''main'' [] s = (Inr r, t) \<and> world t = world s \<and>
    files t = files s @ [(account_dir sample_accounts i, Dir), (join_path (account_dir sample_accounts i) ''account.json'', main_doc)]"
proof -
  have up: "map_of fs q = None \<Longrightarrow> AList.update q d fs = fs @ [(q, d)]" for q d and fs :: "(string \<times> node) list"
    by (induction fs) (auto split: if_splits)
  have "account_dir sample_accounts i \<noteq> join_path (account_dir sample_accounts i) ''account.json''" by (simp add: join_path_def)
  then show ?thesis using assms
    by (simp add: make_account_def new_account_body_def MkdirAll_def run_simps counting_write put_file_def up main_doc_def)
qed

definition counting_disk :: "(int, node, key_heap) sys" where
  "counting_disk = empty_disk\<lparr>world := 0\<rparr>"

lemma two_added:
  "\<exists>t u. (account_op counting_kenv sample_accounts) counting_disk t \<and> (account_op counting_kenv sample_accounts) t u \<and> files u = two_accounts"
proof -
  have d: "files counting_disk = []" "world counting_disk = 0" by (simp_all add: counting_disk_def)
  note n1 = first_drawn [OF d]
  have u1: "draws_unused counting_kenv sample_accounts ''main'' [] counting_disk"
    unfolding draws_unused_def n1 using sample_idents(4) d by simp
  have "\<exists>r t. make_account counting_kenv sample_accounts first_ident ''main'' [] (counting_disk\<lparr>world := 1\<rparr>) = (Inr r, t) \<and>
      world t = 1 \<and> files t = one_account"
    using account_made [of "counting_disk\<lparr>world := 1\<rparr>" first_ident] d by (simp add: is_dir_def one_account_def)
  then obtain r t where t: "make_account counting_kenv sample_accounts first_ident ''main'' [] (counting_disk\<lparr>world := 1\<rparr>) = (Inr r, t)"
    "world t = 1" "files t = one_account" by blast
  have "AddAccount counting_kenv sample_accounts ''main'' [] counting_disk = (Inr r, t)"
    by (simp add: AddAccount_draws run_simps n1 t(1))
  with u1 have o1: "account_op counting_kenv sample_accounts counting_disk t" by (rule account_op.add)
  note n2 = second_drawn [OF t(3,2)]
  have none: "map_of one_account q = None" if "below (account_dir sample_accounts second_ident) q" for q
    using that unfolding below_def by (auto simp: one_account_def account_dir_def join_path_def has_prefix_def)
  have u2: "draws_unused counting_kenv sample_accounts ''main'' [] t"
    unfolding draws_unused_def n2 using sample_idents(5) none t(3) by simp
  have "\<exists>r u. make_account counting_kenv sample_accounts second_ident ''main'' [] (t\<lparr>world := 2\<rparr>) = (Inr r, u) \<and> files u = two_accounts"
    using account_made [of "t\<lparr>world := 2\<rparr>" second_ident] none [of "account_dir sample_accounts second_ident"]
      none [OF below_join] one_account_listed(4) t(3) by (auto simp: two_accounts_def below_def)
  then obtain r' u where u: "make_account counting_kenv sample_accounts second_ident ''main'' [] (t\<lparr>world := 2\<rparr>) = (Inr r', u)"
    "files u = two_accounts" by blast
  have "AddAccount counting_kenv sample_accounts ''main'' [] t = (Inr r', u)"
    by (simp add: AddAccount_draws run_simps n2 u(1))
  with u2 have "account_op counting_kenv sample_accounts t u" by (rule account_op.add)
  with o1 u(2) show ?thesis by blast
qed

lemma empty_accounts: "accounts_ok sample_accounts (files counting_disk)"
  by (simp add: counting_disk_def accounts_ok_def account_ids_def is_dir_def is_archived_def)

theorem accounts_bounded_witness:
  "\<exists>t :: (int, node, key_heap) sys. accounts_ok sample_accounts (files t) \<and>
     {first_ident, second_ident} \<subseteq> account_ids sample_accounts (files t)"
proof -
  obtain t u where r: "account_op counting_kenv sample_accounts counting_disk t" "account_op counting_kenv sample_accounts t u"
    "files u = two_accounts" using two_added by blast
  from r(1,2) have "(account_op counting_kenv sample_accounts)\<^sup>*\<^sup>* counting_disk u" by (meson rtranclp.rtrancl_into_rtrancl r_into_rtranclp)
  from accounts_bounded [OF empty_accounts this] have "accounts_ok sample_accounts (files u)" .
  moreover have "{first_ident, second_ident} \<subseteq> account_ids sample_accounts (files u)"
    using sample_idents(4,5) unfolding r(3) account_ids_def is_dir_dom
    by (auto simp: two_accounts_def one_account_def account_dir_def join_path_def)
  ultimately show ?thesis by blast
qed

theorem catalog_keeps_keys_witness:
  "\<exists>s t r (u :: (int, node, key_heap) sys). catalog_op sample_kenv sample_accounts False s t \<and>
     AddAccount sample_kenv sample_accounts ''main'' [] t = (r, u) \<and> catalog_op sample_kenv sample_accounts False t u \<and>
     holds_key sample_kenv (files u) ''w/keystore.json'' 5"
proof -
  obtain t where t: "key_op sample_kenv ''w'' empty_disk t" "holds_key sample_kenv (files t) ''w/keystore.json'' 5"
    "\<And>q. q \<noteq> ''w/keystore.json'' \<Longrightarrow> map_of (files t) q = None"
    using sample_ops by blast
  obtain r u where u: "AddAccount sample_kenv sample_accounts ''main'' [] t = (r, u)" by force
  have "draws_unused sample_kenv sample_accounts ''main'' [] t"
    unfolding draws_unused_def
  proof (intro allI impI)
    fix nm ident v
    assume "new_ident sample_kenv sample_accounts ''main'' [] t = (Inr (nm, ident), v)"
    then have "ident = hex_encode (replicate 16 0)"
      unfolding new_ident_def ok_andthen ok_seq ok_fail_if ok_leaf
      by (auto simp: on_world_def sample_io_def split: prod.splits simp del: replicate.simps)
    then have i: "ident = first_ident" by (simp only: sample_idents)
    show "opaqueIDPattern ident \<and> (\<forall>q. below (account_dir sample_accounts ident) q \<longrightarrow> map_of (files t) q = None)"
    proof -
      have "\<not> below (account_dir sample_accounts first_ident) ''w/keystore.json''"
        by (simp add: below_def account_dir_def join_path_def has_prefix_def)
      then have "map_of (files t) q = None" if "below (account_dir sample_accounts first_ident) q" for q
        using that by (intro t(3)) blast
      then show ?thesis unfolding i using sample_idents(4) by blast
    qed
  qed
  then have a: "catalog_op sample_kenv sample_accounts False t u" using u by (rule catalog_op.add) simp
  from t(1) have k: "catalog_op sample_kenv sample_accounts False empty_disk t" by (intro catalog_op.keys) simp
  from t(1) have "catalog_op sample_kenv sample_accounts True empty_disk t" by (intro catalog_op.keys) simp
  then have run: "(catalog_op sample_kenv sample_accounts True)\<^sup>*\<^sup>* empty_disk t" by (rule r_into_rtranclp)
  have e: "catalog_ok sample_kenv (as_walletDir sample_accounts) (files empty_disk)" using empty_catalog by simp
  from catalog_keeps_keys [OF sample_v3_laws e run] have ok: "catalog_ok sample_kenv (as_walletDir sample_accounts) (files t)"
    by (simp add: catalog_ok_halves)
  have "in_catalog (as_walletDir sample_accounts) ''w/keystore.json''" by (simp add: in_catalog_def join_path_def)
  with catalog_keeps_keys [OF sample_v3_laws ok r_into_rtranclp, OF a] t(2)
  have "holds_key sample_kenv (files u) ''w/keystore.json'' 5" by blast
  with k u a show ?thesis by blast
qed

end
