(* ===== verification/Fallback.thy ===== *)
theory Fallback
  imports Chain Json
begin

text \<open>
  internal/chain/fallback.go and diagnostics.go: the transport that moves a JSON-RPC request
  from one endpoint to the next.  \<open>net/http\<close> below it is a parameter: a round trip is a
  function of the request on everything that can change while it blocks, which includes the
  counters of the transport itself, since other requests run at the same time and update
  them.  What this request sends, with the answers, is recorded beside it.
\<close>

section \<open>Requests and responses\<close>

record url =
  ul_Scheme :: string
  ul_Host :: string
  ul_User :: "(string \<times> string) option"
  ul_Rest :: string

text \<open>
  The fields of an \<^verbatim>\<open>http.Request\<close> the transport sets; \<open>rq_Body n\<close> is what reading at
  most \<open>n\<close> bytes of the body gives, and \<open>rq_Timeout\<close> the seconds its context leaves.
\<close>

record request =
  rq_URL :: "url option"
  rq_Host :: string
  rq_Auth :: "(string \<times> string) option"
  rq_Header :: "(string \<times> string) list"
  rq_Body :: "nat \<Rightarrow> bytes option"
  rq_ContentLength :: int
  rq_Timeout :: "nat option"

record response =
  rs_StatusCode :: int
  rs_Body :: "nat \<Rightarrow> bytes option"

section \<open>The state of a transport\<close>

record 'n counters =
  tr_requests :: "64 word"
  tr_failures :: "64 word"
  tr_failovers :: "64 word"
  tr_lastMS :: "64 word"
  tr_active :: "32 word"
  tr_healthy :: bool
  tr_net :: 'n

record 'n transport =
  ts_shared :: "'n counters"
  ts_sent :: "(request \<times> (err + response)) list"

type_synonym ('n, 'a) tact = "('n transport, err, 'a) go"

record fallbackTransport =
  ft_chainID :: int
  ft_targets :: "url list"

text \<open>
  The base transport, the clock, the error of the context of the request being served, and
  the parsers of \<^verbatim>\<open>net/url\<close> and \<^verbatim>\<open>encoding/json\<close>.
\<close>

record 'n http =
  hp_RoundTrip :: "request \<Rightarrow> 'n counters \<Rightarrow> (err + response) \<times> 'n counters"
  hp_Now :: "'n \<Rightarrow> time"
  hp_Context :: "'n counters \<Rightarrow> err option"
  hp_ParseURL :: "string \<Rightarrow> url option"
  hp_Unmarshal :: "bytes \<Rightarrow> json option"
  hp_Dial :: "string \<Rightarrow> bool"

definition shared :: "('n counters \<Rightarrow> 'a) \<Rightarrow> ('n, 'a) tact" where
  "shared f = gets (\<lambda>s. f (ts_shared s))"

definition set_shared :: "('n counters \<Rightarrow> 'n counters) \<Rightarrow> ('n, unit) tact" where
  "set_shared f = modify (ts_shared_update f)"

definition base_round_trip :: "'n http \<Rightarrow> request \<Rightarrow> ('n, response) tact" where
  "base_round_trip H rq =
     (\<lambda>s. case hp_RoundTrip H rq (ts_shared s) of (r, c) \<Rightarrow>
        (r, \<lparr> ts_shared = c, ts_sent = ts_sent s @ [(rq, r)] \<rparr>))"

text \<open>The context is asked for its error, which is returned when there is one.\<close>

definition check_context :: "'n http \<Rightarrow> ('n, unit) tact" where
  "check_context H = andthen (shared (hp_Context H)) (\<lambda>e. case e of None \<Rightarrow> ret () | Some e \<Rightarrow> throw e)"

section \<open>\<open>(*big.Int).SetString(s, 0)\<close>\<close>

text \<open>
  A number in base 2, 8, 10 or 16 after its prefix, with underscores between its digits;
  \<open>prev\<close> is the kind of the character before, \<open>k\<close> counts the digits.
\<close>

definition digit36 :: "char \<Rightarrow> nat option" where
  "digit36 c =
     (let n = of_char c in
      if 48 \<le> n \<and> n \<le> 57 then Some (n - 48)
      else if 97 \<le> n \<and> n \<le> 122 then Some (n - 87)
      else if 65 \<le> n \<and> n \<le> 90 then Some (n - 55)
      else None)"

fun scan_digits :: "nat \<Rightarrow> char \<Rightarrow> nat \<Rightarrow> nat \<Rightarrow> string \<Rightarrow> nat option" where
  "scan_digits b prev k a [] = (if prev = CHR ''_'' \<or> k = 0 then None else Some a)"
| "scan_digits b prev k a (c # cs) =
     (if c = CHR ''_'' then (if prev = CHR ''0'' then scan_digits b CHR ''_'' k a cs else None)
      else case digit36 c of
             None \<Rightarrow> None
           | Some d \<Rightarrow> if d < b then scan_digits b CHR ''0'' (k + 1) (b * a + d) cs else None)"

definition scan_nat0 :: "string \<Rightarrow> nat option" where
  "scan_nat0 s =
     (case s of
        c # p # cs \<Rightarrow>
          if c = CHR ''0'' then
            (if p \<in> set ''bB'' then scan_digits 2 CHR ''0'' 0 0 cs
             else if p \<in> set ''oO'' then scan_digits 8 CHR ''0'' 0 0 cs
             else if p \<in> set ''xX'' then scan_digits 16 CHR ''0'' 0 0 cs
             else scan_digits 8 CHR ''0'' 0 0 (p # cs))
          else scan_digits 10 CHR ''.'' 0 0 s
      | _ \<Rightarrow> scan_digits 10 CHR ''.'' 0 0 s)"

definition set_string0 :: "string \<Rightarrow> int option" where
  "set_string0 s =
     (case s of
        [] \<Rightarrow> None
      | c # cs \<Rightarrow>
          if c = CHR ''-'' then map_option (\<lambda>n. - int n) (scan_nat0 cs)
          else if c = CHR ''+'' then map_option int (scan_nat0 cs)
          else map_option int (scan_nat0 s))"

section \<open>One endpoint\<close>

text \<open>Credentials come from the endpoint's own address, whatever the request carried.\<close>

definition aimed :: "request \<Rightarrow> url \<Rightarrow> nat \<Rightarrow> request" where
  "aimed rq u wait =
     rq\<lparr> rq_URL := Some u, rq_Host := ul_Host u, rq_Auth := ul_User u, rq_Timeout := Some wait \<rparr>"

definition probe_text :: string where
  "probe_text = ''{'' @ [CHR 0x22] @ ''jsonrpc'' @ [CHR 0x22] @ '':'' @ [CHR 0x22] @ ''2.0'' @ [CHR 0x22] @ '',''
     @ [CHR 0x22] @ ''id'' @ [CHR 0x22] @ '':1,'' @ [CHR 0x22] @ ''method'' @ [CHR 0x22] @ '':'' @ [CHR 0x22]
     @ ''eth_chainId'' @ [CHR 0x22] @ '','' @ [CHR 0x22] @ ''params'' @ [CHR 0x22] @ '':[]}''"

definition probe_request :: "request \<Rightarrow> url \<Rightarrow> request" where
  "probe_request rq u =
     (aimed rq u 4)\<lparr> rq_Header := AList.update ''X-Flowledger-Probe'' ''1'' (rq_Header rq),
       rq_Body := (\<lambda>n. Some (take n (map of_char probe_text))), rq_ContentLength := -1 \<rparr>"

definition probe_answer :: "'n http \<Rightarrow> int \<Rightarrow> response \<Rightarrow> bool" where
  "probe_answer H chain r =
     (case rs_Body r 4096 of
        None \<Rightarrow> False
      | Some data \<Rightarrow>
          if rs_StatusCode r \<noteq> 200 then False
          else case ebind (object (hp_Unmarshal H data)) (\<lambda>es. member str_field ''result'' es []) of
                 Inl _ \<Rightarrow> False
               | Inr result \<Rightarrow> set_string0 result = Some chain)"

definition probeEndpoint :: "'n http \<Rightarrow> fallbackTransport \<Rightarrow> request \<Rightarrow> url \<Rightarrow> ('n, bool) tact" where
  "probeEndpoint H T rq u =
     andthen (attempt (base_round_trip H (probe_request rq u))) (\<lambda>r.
       case r of Inl _ \<Rightarrow> ret False | Inr response \<Rightarrow> ret (probe_answer H (ft_chainID T) response))"

definition attempt_request :: "request \<Rightarrow> url \<Rightarrow> bytes \<Rightarrow> request" where
  "attempt_request rq u payload =
     (aimed rq u 8)\<lparr> rq_Body := (\<lambda>n. Some (take n payload)), rq_ContentLength := int (length payload) \<rparr>"

definition sendAttempt :: "'n http \<Rightarrow> request \<Rightarrow> url \<Rightarrow> bytes \<Rightarrow> ('n, response) tact" where
  "sendAttempt H rq u payload =
     andthen (base_round_trip H (attempt_request rq u payload)) (\<lambda>response.
       fail_if (rs_StatusCode response = 429 \<or> 500 \<le> rs_StatusCode response) ErrUnavailable (ret response))"

section \<open>RoundTrip\<close>

text \<open>
  The endpoint that answered last is used as it is while it is healthy; \<open>None\<close> when it is
  not, or has just failed, with the number of places the search then skips.
\<close>

definition healthy_attempt :: "'n http \<Rightarrow> fallbackTransport \<Rightarrow> request \<Rightarrow> bytes \<Rightarrow> ('n, nat + response) tact" where
  "healthy_attempt H T rq payload =
     andthen (shared tr_healthy) (\<lambda>healthy.
       if \<not> healthy then ret (Inl 0)
       else
         andthen (shared (\<lambda>c. unat (tr_active c) mod length (ft_targets T))) (\<lambda>activeIdx.
         seq (check_context H)
        (andthen (attempt (sendAttempt H rq (ft_targets T ! activeIdx) payload)) (\<lambda>r.
           case r of
             Inr resp \<Rightarrow> ret (Inr resp)
           | Inl _ \<Rightarrow> seq (check_context H) (seq (set_shared (tr_healthy_update (\<lambda>_. False))) (ret (Inl 1)))))))"

text \<open>What a success records: \<^verbatim>\<open>active\<close> moves unless another request moved it first.\<close>

definition record_success :: "nat \<Rightarrow> nat \<Rightarrow> ('n, unit) tact" where
  "record_success start index =
     seq (if index \<noteq> start
          then andthen (shared (\<lambda>c. tr_active c = word_of_nat start)) (\<lambda>same.
                 if same
                 then set_shared (\<lambda>c. c\<lparr> tr_active := word_of_nat index, tr_failovers := tr_failovers c + 1 \<rparr>)
                 else ret ())
          else set_shared (tr_active_update (\<lambda>_. word_of_nat index)))
         (set_shared (tr_healthy_update (\<lambda>_. True)))"

text \<open>The loop from \<open>offset\<close> on.\<close>

function search :: "'n http \<Rightarrow> fallbackTransport \<Rightarrow> request \<Rightarrow> bytes \<Rightarrow> nat \<Rightarrow> nat \<Rightarrow> nat \<Rightarrow> ('n, response) tact" where
  "search H T rq payload start skip offset =
     (if length (ft_targets T) \<le> offset then throw ErrUnavailable
      else
        let index = (start + skip + offset) mod length (ft_targets T); endpoint = ft_targets T ! index in
        seq (check_context H)
       (andthen (probeEndpoint H T rq endpoint) (\<lambda>up.
          if \<not> up then search H T rq payload start skip (offset + 1)
          else andthen (attempt (sendAttempt H rq endpoint payload)) (\<lambda>r.
                 case r of
                   Inl _ \<Rightarrow> search H T rq payload start skip (offset + 1)
                 | Inr resp \<Rightarrow> seq (record_success start index) (ret resp)))))"
  by pat_completeness auto

termination
  by (relation "measure (\<lambda>(H, T, rq, payload, start, skip, offset). length (ft_targets T) - offset)") auto

declare search.simps [simp del]

definition payload_of :: "request \<Rightarrow> err + bytes" where
  "payload_of rq =
     (case rq_Body rq (1024 * 1024 + 1) of
        None \<Rightarrow> Inl ErrUnavailable
      | Some payload \<Rightarrow> if 1024 * 1024 < length payload then Inl ErrUnavailable else Inr payload)"

definition round_trip :: "'n http \<Rightarrow> fallbackTransport \<Rightarrow> request \<Rightarrow> ('n, response) tact" where
  "round_trip H T rq =
     andthen (lift (payload_of rq)) (\<lambda>payload.
     andthen (healthy_attempt H T rq payload) (\<lambda>r.
       case r of
         Inr resp \<Rightarrow> ret resp
       | Inl skip \<Rightarrow>
           andthen (shared (\<lambda>c. unat (tr_active c))) (\<lambda>start. search H T rq payload start skip 0)))"

text \<open>The deferred function runs on every return: it stores the time taken and counts a failure.\<close>

definition RoundTrip :: "'n http \<Rightarrow> fallbackTransport \<Rightarrow> request \<Rightarrow> ('n, response) tact" where
  "RoundTrip H T rq =
     andthen (shared (\<lambda>c. hp_Now H (tr_net c))) (\<lambda>started.
     seq (set_shared (\<lambda>c. c\<lparr> tr_requests := tr_requests c + 1 \<rparr>))
    (andthen (attempt (round_trip H T rq)) (\<lambda>r.
     seq (set_shared (\<lambda>c. c\<lparr> tr_lastMS := word_of_int ((hp_Now H (tr_net c) - started) div 1000000) \<rparr>))
    (seq (if isl r then set_shared (\<lambda>c. c\<lparr> tr_failures := tr_failures c + 1 \<rparr>) else ret ())
         (lift r)))))"

section \<open>NewNetwork, Diagnostics\<close>

definition usable_url :: "'n http \<Rightarrow> string \<Rightarrow> err + url" where
  "usable_url H endpoint =
     (case hp_ParseURL H endpoint of
        None \<Rightarrow> Inl ErrUnavailable
      | Some u \<Rightarrow> if ul_Host u = [] \<or> (ul_Scheme u \<noteq> ''https'' \<and> ul_Scheme u \<noteq> ''http'')
                  then Inl ErrUnavailable else Inr u)"

definition NewNetwork :: "'n http \<Rightarrow> int \<Rightarrow> string list \<Rightarrow> err + fallbackTransport" where
  "NewNetwork H chain endpoints =
     (if chain \<notin> {SepoliaID, ArbitrumSepoliaID, BaseSepoliaID, OptimismSepoliaID, PolygonAmoyID}
      then Inl ErrNetwork
      else if endpoints = [] \<or> 4 < length endpoints then Inl ErrUnavailable
      else ebind (emap (usable_url H) endpoints) (\<lambda>targets.
             if \<not> hp_Dial H (hd endpoints) then Inl ErrUnavailable
             else Inr \<lparr> ft_chainID = chain, ft_targets = targets \<rparr>))"

definition NewFallback :: "'n http \<Rightarrow> string list \<Rightarrow> err + fallbackTransport" where
  "NewFallback H endpoints = NewNetwork H SepoliaID endpoints"

definition new_transport :: "'n \<Rightarrow> 'n transport" where
  "new_transport n =
     \<lparr> ts_shared = \<lparr> tr_requests = 0, tr_failures = 0, tr_failovers = 0, tr_lastMS = 0, tr_active = 0,
         tr_healthy = False, tr_net = n \<rparr>, ts_sent = [] \<rparr>"

record RPCDiagnostics =
  rd_Requests :: "64 word"
  rd_TransportFailures :: "64 word"
  rd_Failovers :: "64 word"
  rd_LastRequestMS :: "64 word"
  rd_ActiveEndpoint :: int
  rd_EndpointCount :: int

record Diagnostics =
  dg_ChainID :: int
  dg_Instrumented :: bool
  dg_RPC :: RPCDiagnostics

text \<open>A client without the transport reports zeros.\<close>

definition client_diagnostics :: "int \<Rightarrow> (fallbackTransport \<times> 'n counters) option \<Rightarrow> Diagnostics" where
  "client_diagnostics chain t =
     \<lparr> dg_ChainID = chain, dg_Instrumented = (t \<noteq> None),
       dg_RPC = (case t of
         None \<Rightarrow> \<lparr> rd_Requests = 0, rd_TransportFailures = 0, rd_Failovers = 0, rd_LastRequestMS = 0,
                   rd_ActiveEndpoint = 0, rd_EndpointCount = 0 \<rparr>
       | Some (T, c) \<Rightarrow> \<lparr> rd_Requests = tr_requests c, rd_TransportFailures = tr_failures c,
                   rd_Failovers = tr_failovers c, rd_LastRequestMS = tr_lastMS c,
                   rd_ActiveEndpoint = uint (tr_active c) + 1, rd_EndpointCount = int (length (ft_targets T)) \<rparr>) \<rparr>"

end
