(* ===== verification/FallbackFacts.thy ===== *)
theory FallbackFacts
  imports Fallback
begin

text \<open>
  What the transport promises: a request that some endpoint would serve is served, whatever
  the others do; and nothing is sent to an endpoint that has not just shown that it is of
  the right network, except to the one that answered last.
\<close>

section \<open>Small facts\<close>

lemma run_shared [run_simps]: "shared f s = (Inr (f (ts_shared s)), s)"
  by (simp add: shared_def gets_def)

lemma run_set_shared [run_simps]: "set_shared f s = (Inr (), ts_shared_update f s)"
  by (simp add: set_shared_def modify_def)

lemma run_base [run_simps]:
  "base_round_trip H q s = (case hp_RoundTrip H q (ts_shared s) of (r, c) \<Rightarrow>
     (r, \<lparr> ts_shared = c, ts_sent = ts_sent s @ [(q, r)] \<rparr>))"
  by (simp add: base_round_trip_def)

lemma record_success_run: "\<exists>c. record_success start index s = (Inr (), s\<lparr> ts_shared := c \<rparr>)"
  by (cases s) (auto simp: record_success_def run_simps)

lemma NewNetwork_ok:
  assumes "NewNetwork H chain endpoints = Inr T"
  shows "ft_chainID T = chain" and "length (ft_targets T) = length endpoints" and "ft_targets T \<noteq> []"
    and "length (ft_targets T) \<le> 4"
  using assms by (auto simp: NewNetwork_def ebind_eq_Inr split: if_splits dest: emap_length)

lemma offset_reaches:
  fixes a i n :: nat
  assumes "i < n"
  shows "\<exists>k<n. (a + k) mod n = i"
proof (intro exI conjI)
  let ?k = "(i + (n - a mod n)) mod n"
  show "?k < n" using assms by simp
  have "(a + ?k) mod n = (a mod n + (i + (n - a mod n))) mod n" by (simp add: mod_simps)
  also have "a mod n + (i + (n - a mod n)) = i + n" using mod_less_divisor [of n a] assms by linarith
  finally show "(a + ?k) mod n = i" using assms by simp
qed

section \<open>Availability\<close>

definition accepted :: "response \<Rightarrow> bool" where
  "accepted r \<longleftrightarrow> rs_StatusCode r \<noteq> 429 \<and> rs_StatusCode r < 500"

text \<open>Whenever it is asked, the endpoint answers the probe with the network and serves the request.\<close>

definition serves :: "'n http \<Rightarrow> fallbackTransport \<Rightarrow> request \<Rightarrow> bytes \<Rightarrow> url \<Rightarrow> bool" where
  "serves H T rq payload u \<longleftrightarrow>
     (\<forall>c. (\<exists>r. fst (hp_RoundTrip H (probe_request rq u) c) = Inr r \<and> probe_answer H (ft_chainID T) r) \<and>
          (\<exists>r. fst (hp_RoundTrip H (attempt_request rq u payload) c) = Inr r \<and> accepted r))"

definition context_lives :: "'n http \<Rightarrow> bool" where
  "context_lives H \<longleftrightarrow> (\<forall>c. hp_Context H c = None)"

lemma check_context_lives: "context_lives H \<Longrightarrow> check_context H s = (Inr (), s)"
  by (simp add: check_context_def context_lives_def run_simps)

lemma probe_serves: "serves H T rq p u \<Longrightarrow> \<exists>t. probeEndpoint H T rq u s = (Inr True, t)"
  unfolding serves_def probeEndpoint_def
  by (drule spec [where x = "ts_shared s"]) (auto simp: run_simps split: prod.split)

lemma attempt_serves: "serves H T rq p u \<Longrightarrow> \<exists>r t. sendAttempt H rq u p s = (Inr r, t)"
  unfolding serves_def sendAttempt_def
  by (drule spec [where x = "ts_shared s"]) (auto simp: run_simps accepted_def split: prod.split)

lemma probe_returns: "\<exists>b t. probeEndpoint H T rq u s = (Inr b, t)"
  by (auto simp: probeEndpoint_def run_simps split: prod.split sum.split)

lemma search_end: "length (ft_targets T) \<le> offset \<Longrightarrow> search H T rq p start skip offset = throw ErrUnavailable"
  by (simp add: search.simps)

lemma search_more:
  "offset < length (ft_targets T) \<Longrightarrow>
     search H T rq p start skip offset =
       (let index = (start + skip + offset) mod length (ft_targets T); endpoint = ft_targets T ! index in
        seq (check_context H)
       (andthen (probeEndpoint H T rq endpoint) (\<lambda>up.
          if \<not> up then search H T rq p start skip (offset + 1)
          else andthen (attempt (sendAttempt H rq endpoint p)) (\<lambda>r.
                 case r of
                   Inl _ \<Rightarrow> search H T rq p start skip (offset + 1)
                 | Inr resp \<Rightarrow> seq (record_success start index) (ret resp)))))"
  by (subst search.simps) simp

lemma search_found:
  assumes lives: "context_lives H"
    and good: "serves H T rq p (ft_targets T ! ((start + skip + good) mod length (ft_targets T)))"
    and "offset \<le> good" "good < length (ft_targets T)"
  shows "\<exists>resp t. search H T rq p start skip offset s = (Inr resp, t)"
  using assms(3)
proof (induction "good - offset" arbitrary: offset s)
  case 0
  with assms(4) have "offset = good" and more: "offset < length (ft_targets T)" by simp_all
  with good have u: "serves H T rq p (ft_targets T ! ((start + skip + offset) mod length (ft_targets T)))"
    (is "serves H T rq p ?u") by simp
  obtain t where t: "probeEndpoint H T rq ?u s = (Inr True, t)" using probe_serves [OF u] by blast
  obtain r v where v: "sendAttempt H rq ?u p t = (Inr r, v)" using attempt_serves [OF u] by blast
  obtain c where "record_success start ((start + skip + offset) mod length (ft_targets T)) v
      = (Inr (), v\<lparr> ts_shared := c \<rparr>)" using record_success_run by blast
  then show ?case by (simp add: search_more [OF more] Let_def run_simps check_context_lives [OF lives] t v)
next
  case (Suc d)
  let ?u = "ft_targets T ! ((start + skip + offset) mod length (ft_targets T))"
  from Suc assms(4) have more: "offset < length (ft_targets T)" and "offset + 1 \<le> good" "d = good - (offset + 1)" by simp_all
  note later = Suc.hyps(1) [OF \<open>d = good - (offset + 1)\<close> \<open>offset + 1 \<le> good\<close>]
  obtain b t where t: "probeEndpoint H T rq ?u s = (Inr b, t)" using probe_returns by blast
  obtain r v where v: "sendAttempt H rq ?u p t = (r, v)" by force
  show ?case
  proof (cases "b \<and> \<not> isl r")
    case True
    then obtain resp where "r = Inr resp" by (cases r) auto
    obtain c where "record_success start ((start + skip + offset) mod length (ft_targets T)) v
        = (Inr (), v\<lparr> ts_shared := c \<rparr>)" using record_success_run by blast
    with True \<open>r = Inr resp\<close> show ?thesis
      by (simp add: search_more [OF more] Let_def run_simps check_context_lives [OF lives] t v)
  next
    case False
    with later [of t] later [of v] show ?thesis
      by (cases b; cases r) (simp_all add: search_more [OF more] Let_def run_simps check_context_lives [OF lives] t v)
  qed
qed

lemma healthy_attempt_returns:
  "context_lives H \<Longrightarrow> \<exists>r t. healthy_attempt H T rq p s = (Inr r, t)"
  by (cases "tr_healthy (ts_shared s)";
      cases "sendAttempt H rq (ft_targets T ! (unat (tr_active (ts_shared s)) mod length (ft_targets T))) p s")
     (auto simp: healthy_attempt_def run_simps check_context_lives split: sum.split)

lemma round_trip_served:
  assumes "context_lives H" and "payload_of rq = Inr p" and "u \<in> set (ft_targets T)" and "serves H T rq p u"
  shows "\<exists>resp t. round_trip H T rq s = (Inr resp, t)"
proof -
  obtain r t where t: "healthy_attempt H T rq p s = (Inr r, t)" using healthy_attempt_returns [OF assms(1)] by blast
  show ?thesis
  proof (cases r)
    case (Inr resp)
    with t assms(2) show ?thesis by (simp add: round_trip_def run_simps)
  next
    case (Inl skip)
    let ?start = "unat (tr_active (ts_shared t))" let ?n = "length (ft_targets T)"
    obtain i where i: "i < ?n" "ft_targets T ! i = u" using assms(3) by (auto simp: in_set_conv_nth)
    obtain k where k: "k < ?n" "(?start + skip + k) mod ?n = i" using offset_reaches [OF i(1)] by blast
    with assms(4) i have "serves H T rq p (ft_targets T ! ((?start + skip + k) mod ?n))" by simp
    then obtain resp v where "search H T rq p ?start skip 0 t = (Inr resp, v)"
      using search_found [OF assms(1) _ le0 k(1)] by blast
    with t Inl assms(2) show ?thesis by (simp add: round_trip_def run_simps)
  qed
qed

lemma RoundTrip_result: "fst (RoundTrip H T rq s) = fst (round_trip H T rq (snd (set_shared (\<lambda>c. c\<lparr> tr_requests := tr_requests c + 1 \<rparr>) s)))"
  by (simp add: RoundTrip_def run_simps split: prod.split)

text \<open>
  C36: Liveness of the fallback.  A request whose body can be read and has at most one
  mebibyte, on a transport NewNetwork built, gets a response as long as its context lives and
  one of the endpoints answers the probe with the network's id and serves the request:
  whatever the other endpoints answer, whichever endpoint was active and in whatever health,
  and whatever other requests do to the shared counters in the meantime.
\<close>

theorem RoundTrip_available:
  assumes "NewNetwork H chain endpoints = Inr T"
    and "context_lives H"
    and "payload_of rq = Inr payload"
    and "u \<in> set (ft_targets T)" and "serves H T rq payload u"
  shows "\<exists>resp. fst (RoundTrip H T rq s) = Inr resp"
proof -
  let ?s = "snd (set_shared (\<lambda>c. c\<lparr> tr_requests := tr_requests c + 1 \<rparr>) s)"
  obtain resp t where "round_trip H T rq ?s = (Inr resp, t)" using round_trip_served [OF assms(2-5)] by blast
  then show ?thesis by (simp add: RoundTrip_result)
qed

section \<open>What is sent where\<close>

text \<open>
  The requests of one round trip, read in order: each is a probe of one of the targets or the
  payload for the target that is \<open>clear\<close>, which only a probe it answered rightly makes it.
\<close>

definition answered :: "'n http \<Rightarrow> fallbackTransport \<Rightarrow> err + response \<Rightarrow> bool" where
  "answered H T a = (case a of Inl _ \<Rightarrow> False | Inr r \<Rightarrow> probe_answer H (ft_chainID T) r)"

fun cautious :: "'n http \<Rightarrow> fallbackTransport \<Rightarrow> request \<Rightarrow> bytes \<Rightarrow> url option \<Rightarrow> (request \<times> (err + response)) list \<Rightarrow> bool" where
  "cautious H T rq p clear [] = True"
| "cautious H T rq p clear ((q, a) # rest) =
     ((\<exists>u\<in>set (ft_targets T). q = probe_request rq u \<and> cautious H T rq p (if answered H T a then Some u else None) rest) \<or>
      (\<exists>u\<in>set (ft_targets T). q = attempt_request rq u p \<and> clear = Some u \<and> cautious H T rq p None rest))"

definition conclusive :: "request \<Rightarrow> bytes \<Rightarrow> err + response \<Rightarrow> (request \<times> (err + response)) list \<Rightarrow> bool" where
  "conclusive rq p r tr =
     (case r of Inl _ \<Rightarrow> True
      | Inr resp \<Rightarrow> tr \<noteq> [] \<and> snd (last tr) = Inr resp \<and> accepted resp \<and> (\<exists>u. fst (last tr) = attempt_request rq u p))"

definition careful ::
    "'n http \<Rightarrow> fallbackTransport \<Rightarrow> request \<Rightarrow> bytes \<Rightarrow> url option \<Rightarrow> nat \<Rightarrow> 'n transport \<Rightarrow> (err + response) \<times> 'n transport \<Rightarrow> bool" where
  "careful H T rq p clear n s o' \<longleftrightarrow>
     (\<exists>tr. ts_sent (snd o') = ts_sent s @ tr \<and> cautious H T rq p clear tr \<and> length tr \<le> n \<and> conclusive rq p (fst o') tr)"

lemma careful_err: "careful H T rq p clear n s (Inl e, s\<lparr> ts_shared := c \<rparr>)"
  by (auto simp: careful_def conclusive_def)

lemma careful_err_same: "careful H T rq p clear n s (Inl e, s)"
  by (auto simp: careful_def conclusive_def)

text \<open>One request, followed by a careful rest.\<close>

lemma careful_then:
  assumes "careful H T rq p clear' n t o'"
    and "ts_sent t = ts_sent s @ [(q, a)]"
    and "\<And>rest. cautious H T rq p clear' rest \<Longrightarrow> cautious H T rq p clear ((q, a) # rest)"
  shows "careful H T rq p clear (Suc n) s o'"
proof -
  obtain tr where "ts_sent (snd o') = ts_sent t @ tr" "cautious H T rq p clear' tr" "length tr \<le> n"
      "conclusive rq p (fst o') tr"
    using assms(1) by (auto simp: careful_def)
  then have "ts_sent (snd o') = ts_sent s @ (q, a) # tr" "cautious H T rq p clear ((q, a) # tr)"
      "length ((q, a) # tr) \<le> Suc n" "conclusive rq p (fst o') ((q, a) # tr)"
    using assms(2,3) by (auto simp: conclusive_def simp del: cautious.simps split: sum.splits)
  then show ?thesis unfolding careful_def by blast
qed

lemma careful_last:
  assumes "u \<in> set (ft_targets T)" and "accepted resp"
    and "ts_sent t = ts_sent s @ [(attempt_request rq u p, Inr resp)]"
  shows "careful H T rq p (Some u) (Suc n) s (Inr resp, t)"
  unfolding careful_def using assms
  by (intro exI [of _ "[(attempt_request rq u p, Inr resp)]"]) (auto simp: conclusive_def)

lemma careful_mono: "careful H T rq p clear n s o' \<Longrightarrow> n \<le> m \<Longrightarrow> careful H T rq p clear m s o'"
  unfolding careful_def using le_trans by blast

lemma careful_clear:
  assumes "careful H T rq p None n s o'"
  shows "careful H T rq p clear n s o'"
proof -
  have "cautious H T rq p None tr \<Longrightarrow> cautious H T rq p clear tr" for tr by (cases tr) auto
  with assms show ?thesis unfolding careful_def by blast
qed

lemma careful_from: "careful H T rq p clear n s o' \<Longrightarrow> ts_sent s' = ts_sent s \<Longrightarrow> careful H T rq p clear n s' o'"
  by (simp add: careful_def)

lemma careful_to: "careful H T rq p clear n s (r, t) \<Longrightarrow> ts_sent t' = ts_sent t \<Longrightarrow> careful H T rq p clear n s (r, t')"
  by (simp add: careful_def)

lemma sendAttempt_run:
  "sendAttempt H rq u p s = (r, t) \<Longrightarrow>
     \<exists>a. ts_sent t = ts_sent s @ [(attempt_request rq u p, a)] \<and> (\<forall>resp. r = Inr resp \<longrightarrow> a = Inr resp \<and> accepted resp)"
  by (auto simp: sendAttempt_def run_simps accepted_def split: prod.splits sum.splits if_splits)

lemma probe_run:
  "probeEndpoint H T rq u s = (r, t) \<Longrightarrow>
     \<exists>a. ts_sent t = ts_sent s @ [(probe_request rq u, a)] \<and> r = Inr (answered H T a)"
  by (cases "hp_RoundTrip H (probe_request rq u) (ts_shared s)"; cases "fst (hp_RoundTrip H (probe_request rq u) (ts_shared s))")
     (auto simp: probeEndpoint_def run_simps answered_def)

lemma check_context_cases:
  obtains "check_context H s = (Inr (), s)" | e where "check_context H s = (Inl e, s)"
  by (cases "hp_Context H (ts_shared s)") (auto simp: check_context_def run_simps)

lemma search_careful:
  assumes "ft_targets T \<noteq> []"
  shows "careful H T rq p None (2 * (length (ft_targets T) - offset)) s (search H T rq p start skip offset s)"
proof (induction "length (ft_targets T) - offset" arbitrary: offset s)
  case 0
  then show ?case by (simp add: search_end run_simps careful_err_same)
next
  case (Suc d)
  then have more: "offset < length (ft_targets T)" by simp
  let ?i = "(start + skip + offset) mod length (ft_targets T)" let ?u = "ft_targets T ! ?i"
  have u: "?u \<in> set (ft_targets T)" using assms by simp
  let ?rest = "search H T rq p start skip (offset + 1)"
  have later: "careful H T rq p None (2 * d) v (?rest v)" for v
  proof -
    have d: "d = length (ft_targets T) - (offset + 1)" using Suc.hyps(2) by simp
    show ?thesis unfolding d by (rule Suc.hyps(1) [OF d])
  qed
  have n: "2 * (length (ft_targets T) - offset) = Suc (Suc (2 * d))" using Suc.hyps(2) by simp
  show ?case
  proof (cases rule: check_context_cases [of H s])
    case (2 e)
    then show ?thesis by (simp add: search_more [OF more] Let_def run_simps careful_err_same)
  next
    case 1
    obtain b t where t: "probeEndpoint H T rq ?u s = (b, t)" by force
    then obtain a where a: "ts_sent t = ts_sent s @ [(probe_request rq ?u, a)]" "b = Inr (answered H T a)"
      using probe_run by blast
    show ?thesis
    proof (cases "answered H T a")
      case False
      have "careful H T rq p None (Suc (2 * d)) s (?rest t)"
        by (rule careful_then [OF later a(1)]) (use u False in auto)
      then show ?thesis using 1 t a(2) False n
        by (simp add: search_more [OF more] Let_def run_simps careful_mono)
    next
      case True
      obtain r v where v: "sendAttempt H rq ?u p t = (r, v)" by force
      from sendAttempt_run [OF this] obtain b where b: "ts_sent v = ts_sent t @ [(attempt_request rq ?u p, b)]"
          "\<forall>resp. r = Inr resp \<longrightarrow> b = Inr resp \<and> accepted resp"
        by blast
      have "careful H T rq p (Some ?u) (Suc (2 * d)) t
          (case r of Inl _ \<Rightarrow> ?rest v | Inr resp \<Rightarrow> seq (record_success start ?i) (ret resp) v)"
      proof (cases r)
        case (Inl e)
        have "careful H T rq p (Some ?u) (Suc (2 * d)) t (?rest v)"
          by (rule careful_then [OF later b(1)]) (use u in auto)
        with Inl show ?thesis by simp
      next
        case (Inr resp)
        with b have "careful H T rq p (Some ?u) (Suc (2 * d)) t (Inr resp, v)"
          by (intro careful_last [OF u]) auto
        moreover obtain c where "record_success start ?i v = (Inr (), v\<lparr> ts_shared := c \<rparr>)"
          using record_success_run by blast
        ultimately show ?thesis using Inr by (auto simp: run_simps intro: careful_to)
      qed
      then have "careful H T rq p None (Suc (Suc (2 * d))) s
          (case r of Inl _ \<Rightarrow> ?rest v | Inr resp \<Rightarrow> seq (record_success start ?i) (ret resp) v)"
        by (rule careful_then [OF _ a(1)]) (use u True in auto)
      then show ?thesis using 1 t a(2) True n v
        by (cases r) (simp_all add: search_more [OF more] Let_def run_simps)
    qed
  qed
qed

text \<open>The target a healthy transport sends to without a probe.\<close>

definition trusted :: "fallbackTransport \<Rightarrow> 'n transport \<Rightarrow> url option" where
  "trusted T s =
     (if tr_healthy (ts_shared s) then Some (ft_targets T ! (unat (tr_active (ts_shared s)) mod length (ft_targets T)))
      else None)"

lemma round_trip_careful:
  assumes "ft_targets T \<noteq> []" and "payload_of rq = Inr p"
  shows "careful H T rq p (trusted T s) (Suc (2 * length (ft_targets T))) s (round_trip H T rq s)"
proof -
  let ?loop = "\<lambda>skip t. search H T rq p (unat (tr_active (ts_shared t))) skip 0 t"
  have loop: "careful H T rq p None (2 * length (ft_targets T)) t (?loop skip t)" for skip t
    using search_careful [OF assms(1), of H rq p 0] by simp
  have run: "round_trip H T rq s = (case healthy_attempt H T rq p s of
      (Inl e, t) \<Rightarrow> (Inl e, t) | (Inr (Inl skip), t) \<Rightarrow> ?loop skip t | (Inr (Inr resp), t) \<Rightarrow> (Inr resp, t))"
    by (simp add: round_trip_def assms(2) run_simps split: prod.split sum.split)
  show ?thesis
  proof (cases "tr_healthy (ts_shared s)")
    case False
    with loop [THEN careful_clear, THEN careful_mono] show ?thesis by (simp add: run healthy_attempt_def run_simps)
  next
    case True
    let ?u = "ft_targets T ! (unat (tr_active (ts_shared s)) mod length (ft_targets T))"
    have u: "?u \<in> set (ft_targets T)" using assms(1) by simp
    have tr: "trusted T s = Some ?u" using True by (simp add: trusted_def)
    show ?thesis
    proof (cases rule: check_context_cases [of H s])
      case (2 e)
      with True show ?thesis by (simp add: run healthy_attempt_def run_simps careful_err_same)
    next
      case 1
      obtain r t where t: "sendAttempt H rq ?u p s = (r, t)" by force
      obtain a where a: "ts_sent t = ts_sent s @ [(attempt_request rq ?u p, a)]"
          "\<forall>resp. r = Inr resp \<longrightarrow> a = Inr resp \<and> accepted resp"
        using sendAttempt_run [OF t] by blast
      show ?thesis
      proof (cases r)
        case (Inr resp)
        with a have "careful H T rq p (Some ?u) (Suc (2 * length (ft_targets T))) s (Inr resp, t)"
          by (intro careful_last [OF u]) auto
        with 1 True t Inr tr show ?thesis by (simp add: run healthy_attempt_def run_simps)
      next
        case (Inl e)
        have more: "careful H T rq p (Some ?u) (Suc (2 * length (ft_targets T))) s o'"
          if "careful H T rq p None (2 * length (ft_targets T)) t o'" for o'
          by (rule careful_then [OF that a(1)]) (use u in auto)
        let ?t = "ts_shared_update (tr_healthy_update (\<lambda>_. False)) t"
        have "careful H T rq p None (2 * length (ft_targets T)) t (?loop 1 ?t)"
          by (rule careful_from [OF loop]) simp
        with more [of "?loop 1 ?t"] more [OF careful_err_same] 1 True t Inl tr show ?thesis
          by (cases rule: check_context_cases [of H t]) (simp_all add: run healthy_attempt_def run_simps)
      qed
    qed
  qed
qed

lemma RoundTrip_careful:
  assumes "careful H T rq p (trusted T s) n s' (round_trip H T rq s')"
    and "s' = snd (set_shared (\<lambda>c. c\<lparr> tr_requests := tr_requests c + 1 \<rparr>) s)"
  shows "careful H T rq p (trusted T s) n s (RoundTrip H T rq s)"
  using assms unfolding careful_def
  by (auto simp: RoundTrip_def run_simps split: prod.splits sum.splits)

text \<open>
  C37: Where a request goes.  All that RoundTrip sends, in order, are probes of configured
  endpoints and the payload, byte for byte, to an endpoint whose probe, directly before,
  was answered with the network's chain id; without a probe it goes only to the active
  endpoint of a healthy transport.  Each request carries the credentials of the endpoint it
  goes to and no other.  At most 2 n + 1 requests are sent for n endpoints, and a response
  handed to the caller is the last one received, to the payload, and neither a 429 nor a
  server error.
\<close>

theorem RoundTrip_guarded:
  assumes "NewNetwork H chain endpoints = Inr T" and "payload_of rq = Inr payload"
    and "RoundTrip H T rq s = (r, t)"
  shows "\<exists>tr. ts_sent t = ts_sent s @ tr \<and> cautious H T rq payload (trusted T s) tr \<and>
    length tr \<le> 2 * length endpoints + 1 \<and> conclusive rq payload r tr \<and>
    (\<forall>(q, a)\<in>set tr. \<exists>u\<in>set (ft_targets T). rq_URL q = Some u \<and> rq_Auth q = ul_User u)"
proof -
  have T: "ft_targets T \<noteq> []" "length (ft_targets T) = length endpoints"
    using NewNetwork_ok [OF assms(1)] by simp_all
  let ?s = "snd (set_shared (\<lambda>c. c\<lparr> tr_requests := tr_requests c + 1 \<rparr>) s)"
  have "careful H T rq payload (trusted T ?s) (Suc (2 * length (ft_targets T))) ?s (round_trip H T rq ?s)"
    by (rule round_trip_careful [OF T(1) assms(2)])
  moreover have "trusted T ?s = trusted T s" by (simp add: trusted_def run_simps)
  ultimately have "careful H T rq payload (trusted T s) (Suc (2 * length endpoints)) s (r, t)"
    using RoundTrip_careful [of H T rq payload s "Suc (2 * length endpoints)" ?s] T(2)
    unfolding assms(3) by simp
  then obtain tr where tr: "ts_sent t = ts_sent s @ tr" "cautious H T rq payload (trusted T s) tr"
      "length tr \<le> 2 * length endpoints + 1" "conclusive rq payload r tr"
    unfolding careful_def by auto
  have "\<forall>(q, a)\<in>set tr. \<exists>u\<in>set (ft_targets T). rq_URL q = Some u \<and> rq_Auth q = ul_User u"
    if "cautious H T rq payload c tr" for c tr
    using that by (induction tr arbitrary: c)
      (fastforce simp: probe_request_def attempt_request_def aimed_def split: prod.splits)+
  with tr show ?thesis by blast
qed

section \<open>An example: the first endpoint is down\<close>

definition sample_url :: "string \<Rightarrow> url" where
  "sample_url e = \<lparr> ul_Scheme = ''https'', ul_Host = e, ul_User = Some (''key'', e), ul_Rest = ''/'' \<rparr>"

definition sample_http :: "int http" where
  "sample_http =
     \<lparr> hp_RoundTrip = (\<lambda>q c. (if rq_Host q = ''a'' then Inl (ErrExt ''refused'')
          else Inr \<lparr> rs_StatusCode = 200, rs_Body = (\<lambda>n. Some []) \<rparr>, c)),
       hp_Now = id, hp_Context = (\<lambda>c. None), hp_ParseURL = (\<lambda>e. Some (sample_url e)),
       hp_Unmarshal = (\<lambda>d. Some (JObj [(''result'', JStr ''0xaa36a7'')])), hp_Dial = (\<lambda>e. True) \<rparr>"

definition sample_rpc :: request where
  "sample_rpc =
     \<lparr> rq_URL = None, rq_Host = [], rq_Auth = Some (''key'', ''a''), rq_Header = [],
       rq_Body = (\<lambda>n. Some (take n [1, 2, 3])), rq_ContentLength = 3, rq_Timeout = None \<rparr>"

definition sample_targets :: fallbackTransport where
  "sample_targets = \<lparr> ft_chainID = 11155111, ft_targets = [sample_url ''a'', sample_url ''b''] \<rparr>"

lemma sample_network: "NewFallback sample_http [''a'', ''b''] = Inr sample_targets"
  by (simp add: NewFallback_def NewNetwork_def usable_url_def sample_http_def sample_targets_def sample_url_def
      SepoliaID_def)

lemma sample_payload: "payload_of sample_rpc = Inr [1, 2, 3]"
  by (simp add: payload_of_def sample_rpc_def)

lemma sample_chain_text: "set_string0 ''0xaa36a7'' = Some 11155111"
  by (simp add: set_string0_def scan_nat0_def digit36_def)

lemma sample_serves: "serves sample_http sample_targets sample_rpc [1, 2, 3] (sample_url ''b'')"
  by (simp add: serves_def sample_http_def probe_request_def attempt_request_def aimed_def sample_url_def
      accepted_def probe_answer_def object_def str_field_def sample_targets_def sample_chain_text)

lemma RoundTrip_available_witness:
  "\<exists>resp. fst (RoundTrip sample_http sample_targets sample_rpc (new_transport 0)) = Inr resp"
proof (rule RoundTrip_available [OF sample_network [unfolded NewFallback_def] _ sample_payload _ sample_serves])
  show "context_lives sample_http" by (simp add: context_lives_def sample_http_def)
  show "sample_url ''b'' \<in> set (ft_targets sample_targets)" by (simp add: sample_targets_def)
qed

lemma RoundTrip_guarded_witness:
  "\<exists>r t tr. RoundTrip sample_http sample_targets sample_rpc (new_transport 0) = (r, t) \<and>
     ts_sent t = tr \<and> length tr \<le> 5 \<and> conclusive sample_rpc [1, 2, 3] r tr"
proof -
  obtain r t where t: "RoundTrip sample_http sample_targets sample_rpc (new_transport 0) = (r, t)" by force
  from RoundTrip_guarded [OF sample_network [unfolded NewFallback_def] sample_payload t] t
  show ?thesis by (auto simp: new_transport_def)
qed

end
