(* ===== verification/ChainActivity.thy ===== *)
theory ChainActivity
  imports Chain
begin

text \<open>
  internal/chain/activity.go and scanner.go: what a wallet received, sent and paid, as the
  receipts of the canonical chain show it, and the discovery of the transactions that
  concern it in a range of recent blocks or in one finalized block.
\<close>

section \<open>Movements (boundary.go)\<close>

datatype movementKind = movementFee | movementSend | movementReceive

primrec movementKind_text :: "movementKind \<Rightarrow> string" where
  "movementKind_text movementFee = ''fee''"
| "movementKind_text movementSend = ''send''"
| "movementKind_text movementReceive = ''receive''"

record movementRecord =
  mr_kind :: movementKind
  mr_asset :: string
  mr_raw :: int
  mr_counterparty :: address
  mr_evidence :: string

record Movement =
  mv_Kind :: string
  mv_Asset :: string
  mv_Raw :: string
  mv_Counterparty :: string
  mv_Evidence :: string

definition movementsToAPI :: "('k, 'm) ethlib_scheme \<Rightarrow> movementRecord list \<Rightarrow> Movement list" where
  "movementsToAPI E values =
     map (\<lambda>v. \<lparr> mv_Kind = movementKind_text (mr_kind v), mv_Asset = mr_asset v, mv_Raw = int_str (mr_raw v),
                mv_Counterparty = AddressHex E (mr_counterparty v), mv_Evidence = mr_evidence v \<rparr>) values"

record activityRecord =
  ar_hash :: hash32
  ar_state :: transactionState
  ar_block :: "int option"
  ar_blockHash :: hash32
  ar_blockTime :: "time option"
  ar_checkedAt :: time
  ar_movements :: "movementRecord list"
  ar_err :: string

record Activity =
  ac_Hash :: string
  ac_State :: string
  ac_Block :: string
  ac_BlockHash :: string
  ac_BlockTime :: string
  ac_CheckedAt :: time
  ac_Movements :: "Movement list"
  ac_Error :: string

definition activityToAPI :: "('k, 'm) ethlib_scheme \<Rightarrow> activityRecord \<Rightarrow> Activity" where
  "activityToAPI E v =
     \<lparr> ac_Hash = HashHex E (ar_hash v), ac_State = transactionState_text (ar_state v),
       ac_Block = (case ar_block v of None \<Rightarrow> [] | Some b \<Rightarrow> int_str b),
       ac_BlockHash = (case ar_block v of None \<Rightarrow> [] | Some b \<Rightarrow> HashHex E (ar_blockHash v)),
       ac_BlockTime = (case ar_blockTime v of None \<Rightarrow> [] | Some t \<Rightarrow> rfc3339 t),
       ac_CheckedAt = ar_checkedAt v, ac_Movements = movementsToAPI E (ar_movements v), ac_Error = ar_err v \<rparr>"

record ScannedBlock =
  sb_Hashes :: "string list"
  sb_Tokens :: "string list"
  sb_Hash :: string

definition scannedBlockToStorage ::
    "('k, 'm) ethlib_scheme \<Rightarrow> hash32 \<Rightarrow> hash32 list \<Rightarrow> address list \<Rightarrow> ScannedBlock" where
  "scannedBlockToStorage E hash hashes tokens =
     \<lparr> sb_Hashes = map (HashHex E) hashes, sb_Tokens = map (AddressHex E) tokens, sb_Hash = HashHex E hash \<rparr>"

section \<open>The movements a receipt shows\<close>

definition SepoliaUSDC :: string where "SepoliaUSDC = ''0x1c7D4B196Cb0C7B01d743Fbc6116a902379C7238''"
definition SepoliaWETH :: string where "SepoliaWETH = ''0xfff9976782d46cc05630d1f6ebab18b2324d6b14''"

definition topic :: "('k, 'm) ethlib_scheme \<Rightarrow> string \<Rightarrow> hash32" where
  "topic E event = Keccak256 E (map of_char event)"

definition transferTopic :: "('k, 'm) ethlib_scheme \<Rightarrow> hash32" where
  "transferTopic E = topic E ''Transfer(address,address,uint256)''"
definition depositTopic :: "('k, 'm) ethlib_scheme \<Rightarrow> hash32" where
  "depositTopic E = topic E ''Deposit(address,uint256)''"
definition withdrawalTopic :: "('k, 'm) ethlib_scheme \<Rightarrow> hash32" where
  "withdrawalTopic E = topic E ''Withdrawal(address,uint256)''"
definition vaultWithdrawnTopic :: "('k, 'm) ethlib_scheme \<Rightarrow> hash32" where
  "vaultWithdrawnTopic E = topic E ''Withdrawn(address,uint256)''"
definition vaultDepositedTopic :: "('k, 'm) ethlib_scheme \<Rightarrow> hash32" where
  "vaultDepositedTopic E = topic E ''Deposited(address,uint256)''"

text \<open>
  \<^verbatim>\<open>common.BytesToHash(address.Bytes())\<close> pads with twelve zero bytes, and
  \<^verbatim>\<open>common.BytesToAddress\<close> keeps the low twenty bytes of a topic.
\<close>

definition address_topic :: "address \<Rightarrow> hash32" where
  "address_topic a = ucast a"

definition topic_address :: "hash32 \<Rightarrow> address" where
  "topic_address t = ucast t"

definition zero_padded :: "hash32 \<Rightarrow> bool" where
  "zero_padded t \<longleftrightarrow> unat t < 2 ^ 160"

text \<open>\<^verbatim>\<open>add\<close>: a movement of a positive amount, or none.\<close>

definition moved :: "movementKind \<Rightarrow> string \<Rightarrow> int \<Rightarrow> address \<Rightarrow> string \<Rightarrow> movementRecord list" where
  "moved kind asset amount other evidence =
     (if 0 < amount
      then [\<lparr> mr_kind = kind, mr_asset = asset, mr_raw = amount, mr_counterparty = other, mr_evidence = evidence \<rparr>]
      else [])"

definition log_valid :: "receipt \<Rightarrow> log \<Rightarrow> bool" where
  "log_valid r l \<longleftrightarrow>
     \<not> lg_Removed l \<and> lg_TxHash l = rc_TxHash r \<and> lg_BlockHash l = rc_BlockHash r \<and>
     (case rc_BlockNumber r of None \<Rightarrow> False | Some b \<Rightarrow> lg_BlockNumber l = word_of_int b)"

definition is_transfer :: "('k, 'm) ethlib_scheme \<Rightarrow> log \<Rightarrow> bool" where
  "is_transfer E l \<longleftrightarrow> length (lg_Topics l) = 3 \<and> lg_Topics l ! 0 = transferTopic E"

text \<open>One log with thirty-two bytes of data.\<close>

definition log_movements ::
    "('k, 'm) ethlib_scheme \<Rightarrow> address \<Rightarrow> int \<Rightarrow> log \<Rightarrow> movementRecord list" where
  "log_movements E owner chainID l =
     (if length (lg_Data l) \<noteq> 32 then []
      else
        let amount = int (be_val (lg_Data l)); evidence = ''log:'' @ dec_str (lg_Index l); topics = lg_Topics l in
        if is_transfer E l \<and> (\<not> zero_padded (topics ! 1) \<or> \<not> zero_padded (topics ! 2)) then []
        else
          (if is_transfer E l \<and> topics ! 1 = address_topic owner
           then moved movementSend (AddressHex E (lg_Address l)) amount (topic_address (topics ! 2)) evidence else []) @
          (if is_transfer E l \<and> topics ! 2 = address_topic owner
           then moved movementReceive (AddressHex E (lg_Address l)) amount (topic_address (topics ! 1)) evidence else []) @
          (if chainID = SepoliaID \<and> lg_Address l = HexToAddress E SepoliaWETH \<and> length topics = 2 \<and>
              topics ! 1 = address_topic owner
           then
             (if topics ! 0 = depositTopic E
              then moved movementReceive (AddressHex E (lg_Address l)) amount (lg_Address l) (evidence @ '':deposit'') else []) @
             (if topics ! 0 = withdrawalTopic E
              then moved movementSend (AddressHex E (lg_Address l)) amount (lg_Address l) (evidence @ '':withdraw'') @
                   moved movementReceive ''ETH'' amount (lg_Address l) (evidence @ '':withdraw ETH'') else [])
           else []))"

fun logs_movements ::
    "('k, 'm) ethlib_scheme \<Rightarrow> receipt \<Rightarrow> address \<Rightarrow> int \<Rightarrow> nat list \<Rightarrow> log option list \<Rightarrow> err + movementRecord list" where
  "logs_movements E r owner chainID seen [] = Inr []"
| "logs_movements E r owner chainID seen (None # ls) = Inl ErrUnavailable"
| "logs_movements E r owner chainID seen (Some l # ls) =
     (if \<not> log_valid r l then Inl ErrUnavailable
      else if lg_Index l \<in> set seen then Inl ErrUnavailable
      else ebind (logs_movements E r owner chainID (lg_Index l # seen) ls) (\<lambda>rest.
             Inr (log_movements E owner chainID l @ rest)))"

definition fee_text :: string where
  "fee_text = ''receipt.gasUsed '' @ [CHR 0xC3, CHR 0x97] @ '' effectiveGasPrice''"

definition receiptMovements ::
    "('k, 'm) ethlib_scheme \<Rightarrow> eth_tx \<Rightarrow> receipt \<Rightarrow> address \<Rightarrow> address \<Rightarrow> int \<Rightarrow> err + movementRecord list" where
  "receiptMovements E tx r sender owner chainID =
     (let native = (if chainID = 80002 then ''POL'' else ''ETH'');
          price = (case rc_EffectiveGasPrice r of None \<Rightarrow> 0 | Some p \<Rightarrow> p);
          fee = (if sender = owner then moved movementFee native (uint (rc_GasUsed r) * price) 0 fee_text else [])
      in if rc_Status r \<noteq> 1 then Inr fee
         else
           let target = (case tx_to tx of None \<Rightarrow> rc_ContractAddress r | Some to \<Rightarrow> to);
               sent = (if sender = owner then moved movementSend native (tx_value tx) target ''transaction.value'' else []);
               received = (if tx_to tx = Some owner then moved movementReceive native (tx_value tx) sender ''transaction.value''
                           else [])
           in ebind (logs_movements E r owner chainID [] (rc_Logs r)) (\<lambda>rest. Inr (fee @ sent @ received @ rest)))"

section \<open>Activity\<close>

text \<open>The vault of the server's configuration attests to the ether it paid out.\<close>

definition vault_log ::
    "('k, 'm) ethlib_scheme \<Rightarrow> eth_tx \<Rightarrow> address \<Rightarrow> address \<Rightarrow> log \<Rightarrow> movementRecord list \<Rightarrow> movementRecord list" where
  "vault_log E tx owner vault l moves =
     (if lg_Address l \<noteq> vault \<or> length (lg_Topics l) \<noteq> 2 \<or> lg_Topics l ! 1 \<noteq> address_topic owner \<or>
         length (lg_Data l) \<noteq> 32
      then moves
      else
        let amount = int (be_val (lg_Data l));
            paid = (if lg_Topics l ! 0 = vaultWithdrawnTopic E \<and> 0 < amount
                    then moves @ [\<lparr> mr_kind = movementReceive, mr_asset = ''ETH'', mr_raw = amount,
                           mr_counterparty = lg_Address l, mr_evidence = ''log:'' @ dec_str (lg_Index l) @ '':Withdrawn'' \<rparr>]
                    else moves)
        in if lg_Topics l ! 0 = vaultDepositedTopic E \<and> amount = tx_value tx
           then map (\<lambda>m. if mr_kind m = movementSend \<and> mr_asset m = ''ETH''
                          then m\<lparr> mr_evidence := mr_evidence m @ '' + log:'' @ dec_str (lg_Index l) @ '':Deposited'' \<rparr>
                          else m) paid
           else paid)"

definition vault_movements ::
    "('k, 'm) ethlib_scheme \<Rightarrow> int \<Rightarrow> eth_tx \<Rightarrow> receipt \<Rightarrow> address \<Rightarrow> address \<Rightarrow> address \<Rightarrow> movementRecord list \<Rightarrow> movementRecord list" where
  "vault_movements E chainID tx r sender owner vault moves =
     (if chainID = SepoliaID \<and> vault \<noteq> 0 \<and> rc_Status r = 1 \<and> sender = owner \<and> tx_to tx = Some vault
      then fold (\<lambda>l moves. case l of None \<Rightarrow> moves | Some l \<Rightarrow> vault_log E tx owner vault l moves) (rc_Logs r) moves
      else moves)"

definition op_fee_text :: string where
  "op_fee_text = ''receipt execution + L1 fee + historical operator fee''"

text \<open>The evidence of a receipt whose block is the canonical one, before the second look at the block.\<close>

definition evidence_of ::
    "('k, 'm) ethlib_scheme \<Rightarrow> 'n node \<Rightarrow> eth_tx \<Rightarrow> receipt \<Rightarrow> address \<Rightarrow> address \<Rightarrow> address \<Rightarrow> ('n, movementRecord list) cact" where
  "evidence_of E N tx r sender owner vault =
     andthen (gets ChainID) (\<lambda>chainID.
     andthen (lift (receiptMovements E tx r sender owner chainID)) (\<lambda>moves.
       let moves = vault_movements E chainID tx r sender owner vault moves in
       if sender = owner \<and> is_op_stack chainID
       then andthen (ReceiptFee E N r) (\<lambda>fee.
              ret (map (\<lambda>m. if mr_kind m = movementFee then m\<lparr> mr_raw := fee, mr_evidence := op_fee_text \<rparr> else m) moves))
       else ret moves))"

definition blank_activity :: "hash32 \<Rightarrow> transactionState \<Rightarrow> time \<Rightarrow> activityRecord" where
  "blank_activity hid state t =
     \<lparr> ar_hash = hid, ar_state = state, ar_block = None, ar_blockHash = 0, ar_blockTime = None,
       ar_checkedAt = t, ar_movements = [], ar_err = [] \<rparr>"

definition mined_activity ::
    "('k, 'm) ethlib_scheme \<Rightarrow> 'n node \<Rightarrow> eth_tx \<Rightarrow> receipt \<Rightarrow> address \<Rightarrow> address \<Rightarrow> address \<Rightarrow> bool \<Rightarrow> time \<Rightarrow> ('n, Activity) cact" where
  "mined_activity E N tx r sender owner vault related t =
     (case rc_BlockNumber r of
        None \<Rightarrow> throw ErrUnavailable
      | Some block \<Rightarrow>
          fail_if (rc_TxHash r \<noteq> tx_id E tx \<or> (case rc_EffectiveGasPrice r of None \<Rightarrow> True | Some p \<Rightarrow> p < 0) \<or> 1 < rc_Status r)
            ErrUnavailable
         (andthen (map_err rpcError (rpc (nd_Header N (Some block)))) (\<lambda>h.
            if hd_Hash h \<noteq> rc_BlockHash r
            then ret (activityToAPI E (blank_activity (tx_id E tx) transactionReorgDetected t))
            else
              let out = (blank_activity (tx_id E tx) (if rc_Status r = 1 then transactionSucceeded else transactionReverted) t)
                    \<lparr> ar_block := Some block, ar_blockHash := rc_BlockHash r, ar_blockTime := Some (seconds (hd_Time h)) \<rparr>
              in andthen (evidence_of E N tx r sender owner vault) (\<lambda>moves.
                 fail_if (\<not> related \<and> moves = []) ErrUnrelated
                (andthen (map_err rpcError (rpc (nd_Header N (Some block)))) (\<lambda>final.
                   if hd_Hash final \<noteq> rc_BlockHash r
                   then ret (activityToAPI E (out\<lparr> ar_state := transactionReorgDetected, ar_movements := [] \<rparr>))
                   else ret (activityToAPI E (out\<lparr> ar_movements := moves \<rparr>))))))))"

definition ActivityOf ::
    "('k, 'm) ethlib_scheme \<Rightarrow> 'n node \<Rightarrow> string \<Rightarrow> address \<Rightarrow> address \<Rightarrow> ('n, Activity) cact" where
  "ActivityOf E N hash owner vault =
     fail_if (\<not> hash_pattern hash) ErrHash
    (seq (checkNetwork N)
    (let hid = HexToHash E hash in
     andthen (attempt (rpc (nd_TxByHash N hid))) (\<lambda>found.
       case found of
         Inl e \<Rightarrow> if err_is e eth_not_found then throw ErrNotFound else throw (rpcError e)
       | Inr (tx, pending) \<Rightarrow>
           andthen (gets ChainID) (\<lambda>chainID.
           fail_if (tx_id E tx \<noteq> hid \<or> tx_chain tx \<noteq> chainID) ErrUnavailable
          (case TxSender E tx of
             None \<Rightarrow> throw ErrUnavailable
           | Some sender \<Rightarrow>
               let related = (sender = owner \<or> tx_to tx = Some owner) in
               andthen (rpc_now N) (\<lambda>t.
                 if pending
                 then fail_if (\<not> related) ErrUnrelated (ret (activityToAPI E (blank_activity hid transactionPending t)))
                 else andthen (attempt (rpc (nd_Receipt N hid))) (\<lambda>receipt.
                   case receipt of
                     Inl e \<Rightarrow>
                       if err_is e eth_not_found
                       then fail_if (\<not> related) ErrUnrelated
                              (ret (activityToAPI E (blank_activity hid transactionReceiptUnavailable t)))
                       else throw (rpcError e)
                   | Inr r \<Rightarrow> mined_activity E N tx r sender owner vault related t)))))))"

section \<open>DiscoverActivity\<close>

definition concerns :: "address \<Rightarrow> address \<Rightarrow> address option \<Rightarrow> bool" where
  "concerns owner sender to \<longleftrightarrow> sender = owner \<or> to = Some owner"

text \<open>The hashes one block holds, on a chain whose blocks geth cannot decode and on Sepolia.\<close>

definition block_hashes ::
    "('k, 'm) ethlib_scheme \<Rightarrow> 'n node \<Rightarrow> address \<Rightarrow> 64 word \<Rightarrow> ('n, hash32 list) cact" where
  "block_hashes E N owner n =
     andthen (gets ChainID) (\<lambda>chainID.
       if chainID \<noteq> SepoliaID
       then andthen (map_err rpcError (rpc (nd_RawBlock N n))) (\<lambda>block.
            andthen (lift (rpcBlockToDomain E block)) (\<lambda>domainBlock.
            andthen (map_err (\<lambda>_. ErrUnavailable) (rpc (nd_Header N (Some (uint n))))) (\<lambda>canonical.
            fail_if (hd_Hash canonical \<noteq> br_hash domainBlock) ErrUnavailable
           (ret (map tr_hash (filter (\<lambda>tx. concerns owner (tr_from tx) (tr_to tx)) (br_transactions domainBlock)))))))
       else andthen (map_err rpcError (rpc (nd_BlockTxs N n))) (\<lambda>txs.
            ret (map (tx_id E) (filter (\<lambda>tx. case TxSender E tx of None \<Rightarrow> False
                   | Some sender \<Rightarrow> concerns owner sender (tx_to tx)) txs))))"

text \<open>\<open>for n := from; n <= end; n += 1\<close>; the callers leave at most twenty blocks, and \<open>end\<close> is not the last \<^verbatim>\<open>uint64\<close>.\<close>

definition block_range :: "64 word \<Rightarrow> 64 word \<Rightarrow> 64 word list" where
  "block_range first stop = map (\<lambda>i. first + word_of_nat i) [0..<Suc (unat (stop - first))]"

definition token_addresses :: "('k, 'm) ethlib_scheme \<Rightarrow> int \<Rightarrow> address list \<Rightarrow> address list" where
  "token_addresses E chainID contracts =
     (let base = (if chainID \<noteq> SepoliaID then [] else [HexToAddress E SepoliaWETH, HexToAddress E SepoliaUSDC])
      in base @ dedup base (filter (\<lambda>a. a \<noteq> 0) contracts))"

definition incoming_log ::
    "('k, 'm) ethlib_scheme \<Rightarrow> address list \<Rightarrow> address \<Rightarrow> 64 word \<Rightarrow> 64 word \<Rightarrow> log \<Rightarrow> bool" where
  "incoming_log E addresses owner first stop l \<longleftrightarrow>
     lg_Address l \<in> set addresses \<and> \<not> lg_Removed l \<and> is_transfer E l \<and>
     lg_Topics l ! 2 = address_topic owner \<and> length (lg_Data l) = 32 \<and>
     first \<le> lg_BlockNumber l \<and> lg_BlockNumber l \<le> stop"

text \<open>The range that is scanned: the last twenty blocks, or at most twenty from the one asked for.\<close>

definition scan_range :: "64 word \<Rightarrow> 64 word \<Rightarrow> err + 64 word \<times> 64 word" where
  "scan_range first head =
     (let start = (if first = 0 then (if 19 < head then head - 19 else 1) else first) in
      if head < start then Inl (ErrNew ''start block beyond the head'')
      else Inr (start, if 19 < head - start then start + 19 else head))"

definition DiscoverActivity ::
    "('k, 'm) ethlib_scheme \<Rightarrow> 'n node \<Rightarrow> address \<Rightarrow> 64 word \<Rightarrow> address list \<Rightarrow> ('n, string list \<times> 64 word \<times> 64 word) cact" where
  "DiscoverActivity E N owner first contracts =
     seq (checkNetwork N)
    (andthen (map_err rpcError (rpc (nd_Header N None))) (\<lambda>head.
     andthen (lift (scan_range first (word_of_int (hd_Number head)))) (\<lambda>(start, stop).
     andthen (for_each (block_range start stop) (\<lambda>n ids.
                andthen (block_hashes E N owner n) (\<lambda>found. ret (ids @ dedup ids found))) []) (\<lambda>ids.
     andthen (gets ChainID) (\<lambda>chainID.
       let addresses = token_addresses E chainID contracts in
       fail_if (20 < length addresses) (ErrNew ''at most twenty contracts'')
      (if addresses = [] then ret (map (HashHex E) ids, start, stop)
       else andthen (map_err rpcError (rpc (nd_FilterLogs N \<lparr> fq_Addresses = addresses, fq_FromBlock = uint start,
                       fq_ToBlock = uint stop,
                       fq_Topics = [[transferTopic E], [], [address_topic owner]] \<rparr>))) (\<lambda>logs.
         let ids = ids @ dedup ids (map lg_TxHash (filter (incoming_log E addresses owner start stop) logs)) in
         fail_if (200 < length ids) (ErrNew ''too many transactions'')
        (ret (map (HashHex E) ids, start, stop)))))))))"

section \<open>One finalized block (scanner.go)\<close>

definition FinalizedNumber :: "'n node \<Rightarrow> ('n, 64 word) cact" where
  "FinalizedNumber N = andthen (HeaderByNumber N (Some (- 3))) (\<lambda>h. ret (word_of_int (hd_Number h)))"

text \<open>The receipts of a block in one call, or one by one when the node does not offer that.\<close>

definition block_receipts ::
    "'n node \<Rightarrow> 64 word \<Rightarrow> transactionReference list \<Rightarrow> ('n, receipt option list) cact" where
  "block_receipts N number txs =
     andthen (attempt (rpc (nd_BlockReceipts N number))) (\<lambda>r.
       case r of
         Inr receipts \<Rightarrow> ret receipts
       | Inl _ \<Rightarrow> for_each txs (\<lambda>tx receipts.
           andthen (map_err rpcError (rpc (nd_Receipt N (tr_hash tx)))) (\<lambda>r. ret (receipts @ [Some r]))) [])"

text \<open>The logs of one transaction: whether one of them concerns the owner, and the tokens not seen before.\<close>

fun scan_logs ::
    "('k, 'm) ethlib_scheme \<Rightarrow> address \<Rightarrow> hash32 \<Rightarrow> hash32 \<Rightarrow> 64 word \<Rightarrow> log option list \<Rightarrow> bool \<times> address list \<Rightarrow> err + bool \<times> address list" where
  "scan_logs E owner block tx number [] acc = Inr acc"
| "scan_logs E owner block tx number (None # ls) acc = Inl ErrUnavailable"
| "scan_logs E owner block tx number (Some l # ls) (related, tokens) =
     (if lg_Removed l \<or> lg_BlockHash l \<noteq> block \<or> lg_TxHash l \<noteq> tx \<or> lg_BlockNumber l \<noteq> number then Inl ErrUnavailable
      else if \<not> is_transfer E l \<or> length (lg_Data l) \<noteq> 32 \<or>
              (lg_Topics l ! 1 \<noteq> address_topic owner \<and> lg_Topics l ! 2 \<noteq> address_topic owner)
      then scan_logs E owner block tx number ls (related, tokens)
      else scan_logs E owner block tx number ls
             (True, if lg_Address l \<in> set tokens then tokens else tokens @ [lg_Address l]))"

fun scan_transactions ::
    "('k, 'm) ethlib_scheme \<Rightarrow> address \<Rightarrow> hash32 \<Rightarrow> 64 word \<Rightarrow> (transactionReference \<times> receipt option) list
      \<Rightarrow> hash32 list \<times> address list \<Rightarrow> err + hash32 list \<times> address list" where
  "scan_transactions E owner block number [] acc = Inr acc"
| "scan_transactions E owner block number ((tx, None) # rest) acc = Inl ErrUnavailable"
| "scan_transactions E owner block number ((tx, Some r) # rest) (hashes, tokens) =
     (if rc_BlockHash r \<noteq> block \<or> rc_TxHash r \<noteq> tr_hash tx \<or>
         (case rc_BlockNumber r of None \<Rightarrow> True | Some b \<Rightarrow> word_of_int b \<noteq> number)
      then Inl ErrUnavailable
      else
        let related = concerns owner (tr_from tx) (tr_to tx) in
        ebind (if rc_Status r = 1 then scan_logs E owner block (tr_hash tx) number (rc_Logs r) (related, tokens)
               else Inr (related, tokens)) (\<lambda>(related, tokens).
          scan_transactions E owner block number rest
            (if related \<and> tr_hash tx \<notin> set hashes then hashes @ [tr_hash tx] else hashes, tokens)))"

definition ScanFinalizedBlock ::
    "('k, 'm) ethlib_scheme \<Rightarrow> 'n node \<Rightarrow> 64 word \<Rightarrow> address \<Rightarrow> ('n, ScannedBlock) cact" where
  "ScanFinalizedBlock E N number owner =
     andthen (FinalizedNumber N) (\<lambda>final.
     fail_if (final < number) ErrUnavailable
    (andthen (map_err (\<lambda>_. ErrUnavailable) (rpc (nd_RawBlock N number))) (\<lambda>block.
     andthen (map_err (\<lambda>_. ErrUnavailable) (lift (rpcBlockToDomain E block))) (\<lambda>domainBlock.
     fail_if (br_hash domainBlock = 0) ErrUnavailable
    (andthen (block_receipts N number (br_transactions domainBlock)) (\<lambda>receipts.
     fail_if (length receipts \<noteq> length (br_transactions domainBlock)) ErrUnavailable
    (andthen (lift (scan_transactions E owner (br_hash domainBlock) number (zip (br_transactions domainBlock) receipts) ([], [])))
       (\<lambda>(hashes, tokens).
     andthen (map_err (\<lambda>_. ErrUnavailable) (HeaderByNumber N (Some (uint number)))) (\<lambda>h.
     fail_if (hd_Hash h \<noteq> br_hash domainBlock) ErrUnavailable
    (ret (scannedBlockToStorage E (br_hash domainBlock) hashes tokens)))))))))))"

end
