(* ===== verification/ActivityIndex.thy ===== *)
theory ActivityIndex
  imports ChainActivity Texts Storage "HOL-Library.While_Combinator"
begin

text \<open>
  internal/wallet/activity.go and activity_domain.go: the index of the transactions a wallet
  has seen, in \<^verbatim>\<open>activity.json\<close> and its archives, the copy of it in memory, and the pages
  of verified activity that are built from it.
\<close>

section \<open>Files\<close>

text \<open>What \<^verbatim>\<open>scan.json\<close> holds (scanner.go); \<^verbatim>\<open>None\<close> is a nil slice.\<close>

record scanProgressDisk =
  sd_ExplicitStart :: bool
  sd_Enabled :: bool
  sd_Start :: "64 word"
  sd_Next :: "64 word"
  sd_Finalized :: "64 word"
  sd_Tokens :: "string list option"
  sd_Error :: string
  sd_UpdatedAt :: time

text \<open>
  A file of the wallet directory as \<^verbatim>\<open>json.Unmarshal\<close> reads it: an array of strings or
  \<^verbatim>\<open>null\<close> with the size of its text, the progress of a scan, or text that is neither.
\<close>

datatype afile = Ids nat "string list option" | Progress scanProgressDisk | Junk nat

record activityIndex =
  ai_generation :: "64 word"
  ai_ids :: "string list"
  ai_seen :: "string list"

record activity_heap =
  ah_lastArchiveNano :: int
  ah_generation :: "64 word"
  ah_index :: "activityIndex option"

type_synonym ('w, 'h, 'a) aact = "('w, afile, 'h activity_heap_scheme, 'a) act"

definition maxActivityHashes :: nat where "maxActivityHashes = 1000"
definition maxActivityIndexBytes :: nat where "maxActivityIndexBytes = 128 * 1024"
definition activityActiveKeepCount :: nat where "activityActiveKeepCount = 200"

definition active_path :: string where
  "active_path = ''activity.json''"

text \<open>The checks of \<^verbatim>\<open>readActivityFile\<close> on a file that exists.\<close>

definition file_ids :: "afile \<Rightarrow> err + string list" where
  "file_ids f =
     (case f of
        Ids sz content \<Rightarrow>
          if maxActivityIndexBytes < sz then Inl (ErrNew ''activity file too large'')
          else
            let ids = (case content of None \<Rightarrow> [] | Some ids \<Rightarrow> ids) in
            if maxActivityHashes < length ids then Inl errActivityIndexFull
            else if \<not> list_all hash_pattern ids then Inl (ErrNew ''activity file hash'')
            else Inr ids
      | Progress _ \<Rightarrow> Inl (ErrNew ''activity file format'')
      | Junk sz \<Rightarrow> Inl (ErrNew (if maxActivityIndexBytes < sz then ''activity file too large''
                                  else ''activity file format'')))"

definition readActivityFile :: "'w io \<Rightarrow> string \<Rightarrow> ('w, 'h, string list) aact" where
  "readActivityFile I path =
     andthen (ReadFile I path) (\<lambda>f. case f of None \<Rightarrow> ret [] | Some f \<Rightarrow> lift (file_ids f))"

text \<open>\<^verbatim>\<open>json.Marshal\<close> of hashes: quotes around each, commas between, brackets.\<close>

definition marshal_ids :: "string list \<Rightarrow> afile" where
  "marshal_ids ids = Ids (2 + (\<Sum>i\<leftarrow>ids. length i + 2) + (length ids - 1)) (Some ids)"

text \<open>The loop of \<^verbatim>\<open>splitActivityArchiveChunks\<close>: the hashes left and the chunks made.\<close>

definition split_loop :: "string list \<Rightarrow> (string list \<times> string list list) option" where
  "split_loop hashes =
     while_option (\<lambda>(hashes, chunks). 0 < length hashes)
       (\<lambda>(hashes, chunks). let n = min (length hashes) maxActivityHashes in (drop n hashes, chunks @ [take n hashes]))
       (hashes, [])"

definition splitActivityArchiveChunks :: "string list \<Rightarrow> string list list" where
  "splitActivityArchiveChunks hashes = snd (the (split_loop hashes))"

definition is_activity_archive :: "string \<Rightarrow> bool" where
  "is_activity_archive name \<longleftrightarrow> has_prefix name ''activity-archive-'' \<and> has_suffix name ''.json''"

definition activityArchivePaths :: "'w io \<Rightarrow> ('w, 'h, string list) aact" where
  "activityArchivePaths I = andthen (ReadDir I) (\<lambda>entries. ret (filter is_activity_archive entries))"

section \<open>Names of archives\<close>

text \<open>\<^verbatim>\<open>fmt.Sscanf(name, "activity-archive-%d.json", &ts)\<close>: white space but no newline may precede the number.\<close>

definition skip_space :: "string \<Rightarrow> string" where
  "skip_space s = text_of (dropWhile (\<lambda>r. IsSpace (fst r) \<and> fst r \<noteq> 10) (runes s))"

definition scan_number :: "string \<Rightarrow> int option" where
  "scan_number s =
     (let (negative, s) = (case s of c # cs \<Rightarrow> if c = CHR ''-'' then (True, cs) else if c = CHR ''+'' then (False, cs) else (False, s)
                           | [] \<Rightarrow> (False, s));
          digits = takeWhile is_digit s;
          z = (if negative then - int (dec_val digits) else int (dec_val digits))
      in if digits = [] \<or> z < - (2 ^ 63) \<or> 2 ^ 63 \<le> z \<or> \<not> has_prefix (dropWhile is_digit s) ''.json'' then None else Some z)"

definition archive_stamp :: "string \<Rightarrow> int option" where
  "archive_stamp name =
     (if has_prefix name ''activity-archive-'' then scan_number (skip_space (drop 17 name)) else None)"

text \<open>\<^verbatim>\<open>%020d\<close>\<close>

definition pad_zero :: "nat \<Rightarrow> string \<Rightarrow> string" where
  "pad_zero n s = replicate (n - length s) (CHR ''0'') @ s"

definition padded20 :: "int \<Rightarrow> string" where
  "padded20 z = (if z < 0 then CHR ''-'' # pad_zero 19 (dec_str (nat (- z))) else pad_zero 20 (dec_str (nat z)))"

definition archive_name :: "int \<Rightarrow> string" where
  "archive_name z = ''activity-archive-'' @ padded20 z @ ''.json''"

definition after_stamps :: "string list \<Rightarrow> int \<Rightarrow> int" where
  "after_stamps existing start =
     fold (\<lambda>p n. case archive_stamp p of None \<Rightarrow> n | Some ts \<Rightarrow> if n \<le> ts then int64 (ts + 1) else n) existing start"

definition nextActivityArchiveName :: "'w io \<Rightarrow> string list \<Rightarrow> ('w, 'h, string) aact" where
  "nextActivityArchiveName I existing =
     andthen (now I) (\<lambda>t.
     andthen (get_heap ah_lastArchiveNano) (\<lambda>last_nano.
       let start = (if int64 t \<le> last_nano then int64 (last_nano + 1) else int64 t);
           n = after_stamps existing start in
       seq (set_heap (ah_lastArchiveNano_update (\<lambda>_. n))) (ret (archive_name n))))"

section \<open>The index in memory\<close>

definition activitySnapshot :: "'w io \<Rightarrow> ('w, 'h, string list \<times> string list \<times> 64 word) aact" where
  "activitySnapshot I =
     andthen (activityArchivePaths I) (\<lambda>paths.
     andthen (readActivityFile I active_path) (\<lambda>activeIDs.
     andthen (get_heap ah_generation) (\<lambda>generation.
       ret (paths, activeIDs, generation))))"

text \<open>The hashes of the archives, first occurrences only.\<close>

definition read_archives :: "'w io \<Rightarrow> string list \<Rightarrow> ('w, 'h, string list) aact" where
  "read_archives I paths =
     for_each paths (\<lambda>path all. andthen (readActivityFile I path) (\<lambda>ids. ret (all @ dedup all ids))) []"

definition cached_index :: "'h activity_heap_scheme \<Rightarrow> activityIndex option" where
  "cached_index h =
     (case ah_index h of
        None \<Rightarrow> None
      | Some ix \<Rightarrow> if ai_generation ix = ah_generation h then Some ix else None)"

text \<open>What is done after the snapshot, outside the writers' lock.\<close>

definition rebuild_index :: "'w io \<Rightarrow> string list \<times> string list \<times> 64 word \<Rightarrow> ('w, 'h, activityIndex) aact" where
  "rebuild_index I = (\<lambda>(paths, activeIDs, generation).
     andthen (read_archives I paths) (\<lambda>archived.
       let all = archived @ dedup archived activeIDs;
           index = \<lparr> ai_generation = generation, ai_ids = all, ai_seen = all \<rparr> in
       seq (set_heap (ah_index_update (\<lambda>_. Some index))) (ret index)))"

definition loadActivityIndex :: "'w io \<Rightarrow> ('w, 'h, activityIndex) aact" where
  "loadActivityIndex I =
     andthen (get_heap cached_index) (\<lambda>cached.
       case cached of
         Some ix \<Rightarrow> ret ix
       | None \<Rightarrow> andthen (activitySnapshot I) (rebuild_index I))"

definition activityHashes :: "'w io \<Rightarrow> ('w, 'h, string list) aact" where
  "activityHashes I = andthen (loadActivityIndex I) (\<lambda>index. ret (ai_ids index))"

section \<open>Adding hashes\<close>

definition write_archives :: "'w io \<Rightarrow> string list \<Rightarrow> string list list \<Rightarrow> ('w, 'h, unit) aact" where
  "write_archives I existing chunks =
     for_each chunks (\<lambda>chunk _.
       andthen (nextActivityArchiveName I existing) (\<lambda>path. atomicWriteFile I path (marshal_ids chunk))) ()"

text \<open>The writes, after the generation has been raised.\<close>

definition store_hashes :: "'w io \<Rightarrow> string list \<Rightarrow> string list \<Rightarrow> ('w, 'h, unit) aact" where
  "store_hashes I existing combined =
     (if length combined \<le> maxActivityHashes then atomicWriteFile I active_path (marshal_ids combined)
      else
        let cut = length combined - activityActiveKeepCount in
        seq (write_archives I existing (splitActivityArchiveChunks (take cut combined)))
            (atomicWriteFile I active_path (marshal_ids (drop cut combined))))"

definition addActivityHashes :: "'w io \<Rightarrow> string list \<Rightarrow> ('w, 'h, nat) aact" where
  "addActivityHashes I ids =
     andthen (lift (emap ParseTransactionHash ids)) (\<lambda>validIDs.
       if validIDs = [] then ret 0
       else
         andthen (activityArchivePaths I) (\<lambda>archivePaths.
         andthen (read_archives I archivePaths) (\<lambda>seen.
         andthen (readActivityFile I active_path) (\<lambda>activeIDs.
           let deduplicatedActive = dedup seen activeIDs;
               toAppend = dedup (deduplicatedActive @ seen) validIDs in
           if toAppend = [] then ret 0
           else
             seq (set_heap (\<lambda>h. h\<lparr> ah_generation := ah_generation h + 1 \<rparr>))
            (seq (store_hashes I archivePaths (deduplicatedActive @ toAppend))
                 (ret (length toAppend)))))))"

section \<open>Values from the chain (activity_domain.go)\<close>

datatype activityState =
    activityPending | activityReceiptUnavailable | activityReorgDetected
  | activitySucceeded | activityReverted | activityUnverified

definition activityState_of :: "string \<Rightarrow> activityState option" where
  "activityState_of s =
     (if s = ''pending'' then Some activityPending
      else if s = ''receipt_unavailable'' then Some activityReceiptUnavailable
      else if s = ''reorg_detected'' then Some activityReorgDetected
      else if s = ''succeeded'' then Some activitySucceeded
      else if s = ''reverted'' then Some activityReverted
      else if s = ''unverified'' then Some activityUnverified
      else None)"

datatype activityMovementKind = activityReceive | activitySend | activityFee

definition movementKind_of :: "string \<Rightarrow> activityMovementKind option" where
  "movementKind_of s =
     (if s = ''receive'' then Some activityReceive
      else if s = ''send'' then Some activitySend
      else if s = ''fee'' then Some activityFee
      else None)"

record activityMovement =
  am_kind :: activityMovementKind
  am_asset :: string
  am_amount :: int
  am_counterparty :: address

record walletActivity =
  wa_hash :: string
  wa_state :: activityState
  wa_movements :: "activityMovement list"

definition movement_to_domain :: "('k, 'm) ethlib_scheme \<Rightarrow> Movement \<Rightarrow> err + activityMovement" where
  "movement_to_domain E m =
     (case movementKind_of (mv_Kind m) of
        None \<Rightarrow> Inl (ErrNew ''movement kind'')
      | Some kind \<Rightarrow>
          if mv_Asset m = [] \<or> (has_prefix (mv_Asset m) ''0x'' \<and> \<not> IsHexAddress E (mv_Asset m))
          then Inl (ErrNew ''movement asset'')
          else case set_string10 (mv_Raw m) of
                 None \<Rightarrow> Inl (ErrNew ''movement amount'')
               | Some amount \<Rightarrow>
                   if amount < 0 then Inl (ErrNew ''movement amount'')
                   else if \<not> IsHexAddress E (mv_Counterparty m) then Inl (ErrNew ''movement counterparty'')
                   else Inr \<lparr> am_kind = kind, am_asset = mv_Asset m, am_amount = amount,
                              am_counterparty = HexToAddress E (mv_Counterparty m) \<rparr>)"

definition chainActivityToDomain :: "('k, 'm) ethlib_scheme \<Rightarrow> Activity option \<Rightarrow> err + walletActivity" where
  "chainActivityToDomain E value =
     (case value of
        None \<Rightarrow> Inl (ErrNew ''no activity'')
      | Some v \<Rightarrow>
          (case ParseTransactionHash (ac_Hash v) of
             Inl _ \<Rightarrow> Inl (ErrNew ''activity hash'')
           | Inr hash \<Rightarrow>
               (case activityState_of (ac_State v) of
                  None \<Rightarrow> Inl (ErrNew ''activity state'')
                | Some state \<Rightarrow>
                    ebind (emap (movement_to_domain E) (ac_Movements v)) (\<lambda>movements.
                      Inr \<lparr> wa_hash = hash, wa_state = state, wa_movements = movements \<rparr>))))"

definition settled :: "walletActivity \<Rightarrow> bool" where
  "settled a \<longleftrightarrow> wa_state a = activitySucceeded \<or> wa_state a = activityReverted"

section \<open>Operations of the service\<close>

text \<open>
  The address of the key store, the chain client and the configured vault, as operations on
  the world.
\<close>

record ('k, 'w) aenv =
  ae_os :: "'w io"
  ae_eth :: "'k ethlib"
  ae_ChainID :: int
  ae_Vault :: string
  ae_Address :: "('w, string) call"
  ae_Activity :: "string \<Rightarrow> address \<Rightarrow> address \<Rightarrow> ('w, Activity) call"
  ae_Discover :: "address \<Rightarrow> 64 word \<Rightarrow> address list \<Rightarrow> ('w, string list \<times> 64 word \<times> 64 word) call"
  ae_Finalized :: "('w, 64 word) call"
  ae_ScanBlock :: "64 word \<Rightarrow> address \<Rightarrow> ('w, ScannedBlock) call"

text \<open>The chain client of these theories.\<close>

definition client_env ::
    "'k ethlib \<Rightarrow> 'n node \<Rightarrow> 'n client io \<Rightarrow> int \<Rightarrow> string \<Rightarrow> ('n client, string) call \<Rightarrow> ('k, 'n client) aenv" where
  "client_env E N I chainID vault address =
     \<lparr> ae_os = I, ae_eth = E, ae_ChainID = chainID, ae_Vault = vault, ae_Address = address,
       ae_Activity = ActivityOf E N, ae_Discover = DiscoverActivity E N, ae_Finalized = FinalizedNumber N,
       ae_ScanBlock = ScanFinalizedBlock E N \<rparr>"

definition own_address :: "('k, 'w) aenv \<Rightarrow> ('w, 'h, address) aact" where
  "own_address V = andthen (on_world (ae_Address V)) (\<lambda>a. ret (HexToAddress (ae_eth V) a))"

definition ImportActivity :: "('k, 'w) aenv \<Rightarrow> string \<Rightarrow> ('w, 'h, Activity) aact" where
  "ImportActivity V hash =
     andthen (own_address V) (\<lambda>owner.
     andthen (on_world (ae_Activity V hash owner (HexToAddress (ae_eth V) (ae_Vault V)))) (\<lambda>result.
     andthen (lift (chainActivityToDomain (ae_eth V) (Some result))) (\<lambda>domain.
     fail_if (\<not> settled domain) (ErrNew ''no valid receipt yet'')
    (seq (addActivityHashes (ae_os V) [wa_hash domain])
         (ret result)))))"

record SyncResponse =
  sr_From :: "64 word"
  sr_To :: "64 word"
  sr_Added :: nat

definition SyncActivity :: "('k, 'w) aenv \<Rightarrow> 64 word \<Rightarrow> string list \<Rightarrow> ('w, 'h, SyncResponse) aact" where
  "SyncActivity V first contracts =
     andthen (own_address V) (\<lambda>owner.
     fail_if (20 < length contracts) (ErrNew ''at most twenty contracts'')
    (andthen (lift (emap (ValidateAddress (ae_eth V)) contracts)) (\<lambda>addresses.
     andthen (on_world (ae_Discover V owner first addresses)) (\<lambda>(ids, start, stop).
     andthen (addActivityHashes (ae_os V) ids) (\<lambda>count.
       ret \<lparr> sr_From = start, sr_To = stop, sr_Added = count \<rparr>)))))"

section \<open>Pages\<close>

record ActivityTotal =
  at_Asset :: string
  at_ReceivedRaw :: string
  at_SentRaw :: string
  at_FeeRaw :: string
  at_NetRaw :: string

record ActivityResponse =
  ap_ChainID :: int
  ap_Transactions :: "Activity list"
  ap_Totals :: "ActivityTotal list"
  ap_Page :: int
  ap_Pages :: int
  ap_TotalTransactions :: nat
  ap_Incomplete :: bool

text \<open>The hashes of the journal, oldest first, that the index does not hold.\<close>

definition journal_extra :: "string list \<Rightarrow> string list \<Rightarrow> string list" where
  "journal_extra indexed history = dedup indexed (rev history)"

definition page_count :: "nat \<Rightarrow> nat" where
  "page_count n = max 1 ((n + 19) div 20)"

text \<open>The hashes of one page, newest first.\<close>

definition page_hashes :: "string list \<Rightarrow> string list \<Rightarrow> nat \<Rightarrow> string list" where
  "page_hashes ids extra page =
     (let n = length ids + length extra; first = (page - 1) * 20 in
      map (\<lambda>i. let position = n - 1 - i in
             if position < length ids then ids ! position else extra ! (position - length ids))
        [first..<min (first + 20) n])"

text \<open>Received, sent and fees of one asset.\<close>

type_synonym sums = "(string \<times> int \<times> int \<times> int) list"

definition add_movement :: "activityMovement \<Rightarrow> sums \<Rightarrow> sums" where
  "add_movement m sums =
     (let (received, sent, fee) = (case map_of sums (am_asset m) of None \<Rightarrow> (0, 0, 0) | Some t \<Rightarrow> t) in
      AList.update (am_asset m)
        (case am_kind m of
           activityReceive \<Rightarrow> (received + am_amount m, sent, fee)
         | activitySend \<Rightarrow> (received, sent + am_amount m, fee)
         | activityFee \<Rightarrow> (received, sent, fee + am_amount m)) sums)"

fun page_sums :: "('k, 'm) ethlib_scheme \<Rightarrow> Activity list \<Rightarrow> bool \<times> sums \<Rightarrow> err + bool \<times> sums" where
  "page_sums E [] acc = Inr acc"
| "page_sums E (tx # txs) (incomplete, sums) =
     ebind (chainActivityToDomain E (Some tx)) (\<lambda>domain.
       if \<not> settled domain then page_sums E txs (True, sums)
       else page_sums E txs (incomplete, fold add_movement (wa_movements domain) sums))"

definition totals_of :: "sums \<Rightarrow> ActivityTotal list" where
  "totals_of sums =
     map (\<lambda>(asset, received, sent, fee).
            \<lparr> at_Asset = asset, at_ReceivedRaw = int_str received, at_SentRaw = int_str sent, at_FeeRaw = int_str fee,
              at_NetRaw = int_str (received - sent - fee) \<rparr>)
       (sort_key fst sums)"

definition unverified_row :: "string \<Rightarrow> err \<Rightarrow> Activity" where
  "unverified_row hash e =
     \<lparr> ac_Hash = hash, ac_State = ''unverified'', ac_Block = [], ac_BlockHash = [], ac_BlockTime = [],
       ac_CheckedAt = zero_time, ac_Movements = [], ac_Error = err_text e \<rparr>"

text \<open>The rows are fetched four at a time, each into its own place; here one after the other.\<close>

definition fetch_rows :: "('k, 'w) aenv \<Rightarrow> address \<Rightarrow> string list \<Rightarrow> ('w, 'h, Activity list) aact" where
  "fetch_rows V owner hashes =
     for_each hashes (\<lambda>hash rows.
       andthen (attempt (on_world (ae_Activity V hash owner (HexToAddress (ae_eth V) (ae_Vault V))))) (\<lambda>r.
         ret (rows @ [case r of Inl e \<Rightarrow> unverified_row hash e | Inr item \<Rightarrow> item]))) []"

definition ActivityPage :: "('k, 'w) aenv \<Rightarrow> string list \<Rightarrow> int \<Rightarrow> ('w, 'h, ActivityResponse) aact" where
  "ActivityPage V history page =
     fail_if (page < 1) (ErrNew ''page must be positive'')
    (andthen (own_address V) (\<lambda>owner.
     andthen (loadActivityIndex (ae_os V)) (\<lambda>activity.
       let extra = journal_extra (ai_seen activity) history;
           n = length (ai_ids activity) + length extra;
           pages = page_count n in
       fail_if (int pages < page) (ErrNew ''page out of range'')
      (andthen (fetch_rows V owner (page_hashes (ai_ids activity) extra (nat page))) (\<lambda>rows.
       andthen (lift (page_sums (ae_eth V) rows (False, []))) (\<lambda>(incomplete, sums).
         ret \<lparr> ap_ChainID = ae_ChainID V, ap_Transactions = rows, ap_Totals = totals_of sums, ap_Page = page,
               ap_Pages = int pages, ap_TotalTransactions = n, ap_Incomplete = incomplete \<rparr>))))))"

end
