(* ===== verification/ActivityFacts.thy ===== *)
theory ActivityFacts
  imports ActivityIndex
begin

text \<open>
  The activity index: splitting ends, names of archives are never used twice, no operation
  loses a hash wherever it stops, and the copy in memory is what the files hold.
\<close>

section \<open>Chunks\<close>


definition good_chunks :: "'a list \<Rightarrow> 'a list list \<Rightarrow> bool" where
  "good_chunks hashes chunks \<longleftrightarrow>
     concat chunks = hashes \<and> (\<forall>c\<in>set chunks. c \<noteq> [] \<and> length c \<le> maxActivityHashes) \<and>
     length chunks = (length hashes + 999) div 1000"

lemma split_loop_from:
  "\<exists>chunks. while_option (\<lambda>(hashes, chunks). 0 < length hashes)
     (\<lambda>(hashes, chunks). let n = min (length hashes) maxActivityHashes in (drop n hashes, chunks @ [take n hashes]))
     (hashes :: string list, acc) = Some ([], acc @ chunks) \<and> good_chunks hashes chunks"
proof (induction "length hashes" arbitrary: hashes acc rule: less_induct)
  case less
  show ?case
  proof (cases "hashes = []")
    case True
    then show ?thesis by (subst while_option_unfold) (simp add: good_chunks_def)
  next
    case False
    let ?n = "min (length hashes) maxActivityHashes"
    have n: "0 < ?n" "?n \<le> length hashes" "?n \<le> 1000" using False by (simp_all add: maxActivityHashes_def)
    then have "length (drop ?n hashes) < length hashes" by simp
    from less [OF this, of "acc @ [take ?n hashes]"] obtain chunks where
      run: "while_option (\<lambda>(hashes, chunks). 0 < length hashes)
         (\<lambda>(hashes, chunks). let n = min (length hashes) maxActivityHashes in (drop n hashes, chunks @ [take n hashes]))
         (drop ?n hashes, acc @ [take ?n hashes]) = Some ([], (acc @ [take ?n hashes]) @ chunks)"
      and good: "good_chunks (drop ?n hashes) chunks" by blast
    have "length hashes \<le> 1000 \<or> ?n = 1000" by (auto simp: maxActivityHashes_def)
    then have count: "(length (drop ?n hashes) + 999) div 1000 + 1 = (length hashes + 999) div 1000"
    proof
      assume "length hashes \<le> 1000"
      moreover have "1000 \<le> length hashes + 999" using False by (cases hashes) simp_all
      with \<open>length hashes \<le> 1000\<close> have "(length hashes + 999) div 1000 = 1" by linarith
      ultimately show ?thesis by (simp add: maxActivityHashes_def min_absorb1)
    next
      assume "?n = 1000"
      then have "length hashes = (length hashes - 1000) + 1000" by (simp add: maxActivityHashes_def)
      then show ?thesis using \<open>?n = 1000\<close> by (simp add: maxActivityHashes_def)
    qed
    from good n count have "good_chunks hashes (take ?n hashes # chunks)"
      by (auto simp: good_chunks_def maxActivityHashes_def)
    moreover have "while_option (\<lambda>(hashes, chunks). 0 < length hashes)
         (\<lambda>(hashes, chunks). let n = min (length hashes) maxActivityHashes in (drop n hashes, chunks @ [take n hashes]))
         (hashes, acc) = Some ([], acc @ take ?n hashes # chunks)"
      using False run by (subst while_option_unfold) (simp add: Let_def)
    ultimately show ?thesis by blast
  qed
qed

lemma split_good: "good_chunks hashes (splitActivityArchiveChunks hashes)"
  using split_loop_from [of hashes "[]"] by (auto simp: splitActivityArchiveChunks_def split_loop_def)

text \<open>
  The loop that splits the hashes into archives ends for every list, and leaves none over:
  the chunks put together are the list, none is empty or larger than an archive may be, and
  there are as few as possible.
\<close>

theorem split_terminates:
  "\<exists>chunks. split_loop hashes = Some ([], chunks) \<and> splitActivityArchiveChunks hashes = chunks \<and>
     concat chunks = hashes \<and> (\<forall>c\<in>set chunks. 0 < length c \<and> length c \<le> 1000) \<and>
     length chunks = (length hashes + 999) div 1000"
proof -
  from split_loop_from [of hashes "[]"] obtain chunks where
    "split_loop hashes = Some ([], chunks)" "good_chunks hashes chunks" by (auto simp: split_loop_def)
  then show ?thesis by (simp add: splitActivityArchiveChunks_def good_chunks_def maxActivityHashes_def)
qed

section \<open>Names of archives\<close>

lemma skip_space_digit: "(of_char c :: nat) < 0x80 \<Longrightarrow> \<not> IsSpace (of_char c) \<Longrightarrow> skip_space (c # cs) = c # cs"
  by (simp add: skip_space_def runes.simps decode_rune_def Let_def text_of_def)
    (simp flip: text_of_def)

lemma digit_code: "is_digit c \<Longrightarrow> (of_char c :: nat) \<in> {48..57}"
  by (auto simp: is_digit_def)

lemma skip_space_number:
  assumes "is_digit c \<or> c = CHR ''-''"
  shows "skip_space (c # cs) = c # cs"
  using assms digit_code [of c] by (intro skip_space_digit) (auto simp: IsSpace_def)

lemma pad_zero_digits: "list_all is_digit s \<Longrightarrow> list_all is_digit (pad_zero n s)"
proof -
  have "is_digit (CHR ''0'')" by (simp add: is_digit_def)
  moreover assume "list_all is_digit s"
  ultimately show ?thesis by (simp add: pad_zero_def list_all_replicateI)
qed

lemma dec_val_pad_zero [simp]: "dec_val (pad_zero n s) = dec_val s"
  by (simp add: pad_zero_def dec_val_append)

lemma pad_zero_nonempty: "s \<noteq> [] \<Longrightarrow> pad_zero n s \<noteq> []"
  by (simp add: pad_zero_def)

lemma takeWhile_digits:
  assumes "list_all is_digit s" and "\<not> is_digit c"
  shows "takeWhile is_digit (s @ c # cs) = s" and "dropWhile is_digit (s @ c # cs) = c # cs"
  using assms by (induction s) auto

lemma scan_number_digits:
  assumes "list_all is_digit s" and "s \<noteq> []"
  shows "int (dec_val s) < 2 ^ 63 \<Longrightarrow> scan_number (s @ ''.json'') = Some (int (dec_val s))"
    and "int (dec_val s) \<le> 2 ^ 63 \<Longrightarrow> scan_number (CHR ''-'' # s @ ''.json'') = Some (- int (dec_val s))"
proof -
  obtain c cs where s: "s = c # cs" using assms(2) by (cases s) auto
  then have c: "c \<noteq> CHR ''-''" "c \<noteq> CHR ''+''" using assms(1) by (auto simp: is_digit_def)
  have dot: "\<not> is_digit (CHR ''.'')" by (simp add: is_digit_def)
  note parts = takeWhile_digits [OF assms(1) dot]
  show "int (dec_val s) < 2 ^ 63 \<Longrightarrow> scan_number (s @ ''.json'') = Some (int (dec_val s))"
    using c parts assms(2) by (simp add: s scan_number_def Let_def has_prefix_def)
  show "int (dec_val s) \<le> 2 ^ 63 \<Longrightarrow> scan_number (CHR ''-'' # s @ ''.json'') = Some (- int (dec_val s))"
    using parts assms(2) by (simp add: scan_number_def Let_def has_prefix_def)
qed

lemma archive_stamp_name:
  assumes "- (2 ^ 63) \<le> z" and "z < 2 ^ 63"
  shows "archive_stamp (archive_name z) = Some z"
proof -
  define s where "s = (if z < 0 then pad_zero 19 (dec_str (nat (- z))) else pad_zero 20 (dec_str (nat z)))"
  have digits: "list_all is_digit s" "s \<noteq> []"
    by (simp_all add: s_def pad_zero_digits dec_str_digits pad_zero_nonempty)
  then obtain c cs where s: "s = c # cs" and c: "is_digit c" by (cases s) auto
  have val: "int (dec_val s) = \<bar>z\<bar>" by (simp add: s_def)
  have drop: "drop 17 (archive_name z) = padded20 z @ ''.json''" and prefix: "has_prefix (archive_name z) ''activity-archive-''"
    by (simp_all add: archive_name_def has_prefix_def)
  have "scan_number (skip_space (padded20 z @ ''.json'')) = Some z"
  proof (cases "z < 0")
    case True
    then have "padded20 z = CHR ''-'' # s" by (simp add: padded20_def s_def)
    then show ?thesis using True assms scan_number_digits(2) [OF digits] val by (simp add: skip_space_number)
  next
    case False
    then have "padded20 z = c # cs" by (simp add: padded20_def s_def flip: s)
    then show ?thesis using False assms scan_number_digits(1) [OF digits] val c by (simp add: skip_space_number s)
  qed
  with drop prefix show ?thesis by (simp add: archive_stamp_def)
qed

lemma archive_name_is_archive: "is_activity_archive (archive_name z)"
  by (simp add: is_activity_archive_def archive_name_def has_prefix_def has_suffix_def)

text \<open>While the stamps stay below a bound nothing wraps, and the next stamp is above all of them.\<close>

lemma after_stamps_bounds:
  assumes "\<And>p ts. p \<in> set existing \<Longrightarrow> archive_stamp p = Some ts \<Longrightarrow> ts < b" and "b < 2 ^ 63"
    and "- (2 ^ 63) \<le> start" and "start \<le> b'" and "b \<le> b'"
  shows "start \<le> after_stamps existing start \<and> after_stamps existing start \<le> b' \<and>
    (\<forall>p\<in>set existing. \<forall>ts. archive_stamp p = Some ts \<longrightarrow> ts < after_stamps existing start)"
  using assms
proof (induction existing arbitrary: start)
  case Nil
  then show ?case by (simp add: after_stamps_def)
next
  case (Cons p existing)
  let ?next = "case archive_stamp p of None \<Rightarrow> start | Some ts \<Rightarrow> if start \<le> ts then int64 (ts + 1) else start"
  have step: "after_stamps (p # existing) start = after_stamps existing ?next" by (simp add: after_stamps_def)
  have nxt: "start \<le> ?next" "?next \<le> b'" "\<forall>ts. archive_stamp p = Some ts \<longrightarrow> ts < ?next"
  proof -
    have "int64 (ts + 1) = ts + 1" if "archive_stamp p = Some ts" "start \<le> ts" for ts
      using Cons.prems(1) [of p ts] Cons.prems(2,3) that by (intro int64_id) auto
    moreover have "ts + 1 \<le> b'" if "archive_stamp p = Some ts" for ts
      using Cons.prems(1) [of p ts] Cons.prems(5) that by simp
    ultimately show "start \<le> ?next" "?next \<le> b'" "\<forall>ts. archive_stamp p = Some ts \<longrightarrow> ts < ?next"
      using Cons.prems(4) by (auto split: option.split)
  qed
  have "?next \<le> after_stamps existing ?next \<and> after_stamps existing ?next \<le> b' \<and>
      (\<forall>p\<in>set existing. \<forall>ts. archive_stamp p = Some ts \<longrightarrow> ts < after_stamps existing ?next)"
    by (rule Cons.IH) (use Cons.prems nxt in auto)
  with nxt step show ?case by fastforce
qed

section \<open>What the files hold\<close>

definition indexed :: "string \<Rightarrow> bool" where
  "indexed name \<longleftrightarrow> name = active_path \<or> is_activity_archive name"

lemma active_not_archive [simp]: "\<not> is_activity_archive active_path"
  by (simp add: is_activity_archive_def active_path_def has_prefix_def)

text \<open>The hashes that a reader of the directory finds.\<close>

definition stored_hashes :: "(string \<times> afile) list \<Rightarrow> string set" where
  "stored_hashes fs = {h. \<exists>name f ids. map_of fs name = Some f \<and> indexed name \<and> file_ids f = Inr ids \<and> h \<in> set ids}"

definition content :: "(string \<times> afile) list \<Rightarrow> string \<Rightarrow> err + string list" where
  "content fs path = (case map_of fs path of None \<Rightarrow> Inr [] | Some f \<Rightarrow> file_ids f)"

definition archives_of :: "(string \<times> afile) list \<Rightarrow> string list" where
  "archives_of fs = filter is_activity_archive (dir_names fs)"

lemma archives_of_set: "set (archives_of fs) = {p. p \<in> dom (map_of fs) \<and> is_activity_archive p}"
  by (auto simp: archives_of_def dom_map_of_conv_image_fst)

lemma stored_content: "h \<in> stored_hashes fs \<longleftrightarrow> (\<exists>p ids. indexed p \<and> content fs p = Inr ids \<and> h \<in> set ids)"
  by (auto simp: stored_hashes_def content_def split: option.splits) force+

lemma hash_list_size:
  "list_all hash_pattern ids \<Longrightarrow> (\<Sum>i\<leftarrow>ids. length i + 2) = 68 * length ids"
  by (induction ids) (auto simp: hash_pattern_def)

text \<open>What is written is read back.\<close>

lemma file_ids_marshal:
  assumes "list_all hash_pattern ids" and "length ids \<le> maxActivityHashes"
  shows "file_ids (marshal_ids ids) = Inr ids"
proof -
  have "2 + (\<Sum>i\<leftarrow>ids. length i + 2) + (length ids - 1) \<le> maxActivityIndexBytes"
    unfolding hash_list_size [OF assms(1)] using assms(2) by (simp add: maxActivityHashes_def maxActivityIndexBytes_def)
  with assms show ?thesis by (simp add: file_ids_def marshal_ids_def)
qed

lemma file_ids_hashes: "file_ids f = Inr ids \<Longrightarrow> list_all hash_pattern ids \<and> length ids \<le> maxActivityHashes"
  by (auto simp: file_ids_def Let_def split: afile.splits if_splits)

section \<open>Reading\<close>

lemma asks_read [eff_intros]: "within asks (readActivityFile I p)"
  unfolding readActivityFile_def by (intro eff_intros asks.eff_andthen asks.eff_option asks.eff_ret asks.eff_lift)

lemma asks_paths [eff_intros]: "within asks (activityArchivePaths I)"
  unfolding activityArchivePaths_def by (intro eff_intros asks.eff_andthen asks.eff_ret)

lemma asks_archives [eff_intros]: "within asks (read_archives I paths)"
  unfolding read_archives_def by (intro eff_intros asks.eff_for_each asks.eff_andthen asks.eff_ret)

lemma asks_same: "within asks m \<Longrightarrow> m s = (r, t) \<Longrightarrow> files t = files s \<and> trace t = trace s \<and> heap t = heap s"
  by (drule withinD) (auto simp: asks_def)

lemma ReadFile_value: "ReadFile I p s = (Inr x, t) \<Longrightarrow> x = map_of (files s) p"
  by (auto simp: ReadFile_def ok_simps on_world_def split: prod.splits)

lemma ReadDir_value: "ReadDir I s = (Inr x, t) \<Longrightarrow> x = dir_names (files s)"
  by (auto simp: ReadDir_def ok_simps on_world_def split: prod.splits)

lemma readActivityFile_value: "readActivityFile I p s = (Inr ids, t) \<Longrightarrow> content (files s) p = Inr ids"
proof -
  assume "readActivityFile I p s = (Inr ids, t)"
  then obtain f u where u: "ReadFile I p s = (Inr f, u)"
    and rest: "(case f of None \<Rightarrow> ret [] | Some f \<Rightarrow> lift (file_ids f)) u = (Inr ids, t)"
    by (auto simp: readActivityFile_def ok_andthen)
  from rest ReadFile_value [OF u] show ?thesis by (auto simp: content_def ok_simps split: option.splits)
qed

lemma activityArchivePaths_value: "activityArchivePaths I s = (Inr ps, t) \<Longrightarrow> ps = archives_of (files s)"
  by (auto simp: activityArchivePaths_def ok_simps archives_of_def dest!: ReadDir_value)

text \<open>The reference: what a reader of all files would list.\<close>

definition archived_ids :: "(string \<times> afile) list \<Rightarrow> string list \<Rightarrow> err + string list" where
  "archived_ids fs paths = ebind (emap (content fs) paths) (\<lambda>lists. Inr (dedup [] (concat lists)))"

lemma read_archives_from:
  "for_each paths (\<lambda>path all. andthen (readActivityFile I path) (\<lambda>ids. ret (all @ dedup all ids))) acc s = (Inr all, t) \<Longrightarrow>
     \<exists>lists. emap (content (files s)) paths = Inr lists \<and> all = acc @ dedup acc (concat lists)"
proof (induction paths arbitrary: acc s)
  case Nil
  then show ?case by (simp add: ret_def)
next
  case (Cons p paths)
  then obtain ids u where u: "readActivityFile I p s = (Inr ids, u)"
    and rest: "for_each paths (\<lambda>path all. andthen (readActivityFile I path) (\<lambda>ids. ret (all @ dedup all ids)))
        (acc @ dedup acc ids) u = (Inr all, t)"
    by (auto simp: ok_simps)
  have same: "files u = files s" using asks_same [OF asks_read u] by simp
  from Cons.IH [OF rest] same obtain lists where
    lists: "emap (content (files s)) paths = Inr lists" and all: "all = (acc @ dedup acc ids) @ dedup (acc @ dedup acc ids) (concat lists)"
    by auto
  have "dedup (acc @ dedup acc ids) (concat lists) = dedup (rev (dedup acc ids) @ acc) (concat lists)"
    by (rule dedup_cong) auto
  with all have "all = acc @ dedup acc (ids @ concat lists)" by (simp add: dedup_append)
  with lists readActivityFile_value [OF u] show ?case by simp
qed

lemma read_archives_value: "read_archives I paths s = (Inr all, t) \<Longrightarrow> archived_ids (files s) paths = Inr all"
  unfolding read_archives_def by (drule read_archives_from) (auto simp: archived_ids_def)

lemma archived_ids_set:
  assumes "archived_ids fs paths = Inr all"
  shows "distinct all" and "set all = {h. \<exists>p\<in>set paths. \<exists>ids. content fs p = Inr ids \<and> h \<in> set ids}"
    and "p \<in> set paths \<Longrightarrow> \<exists>ids. content fs p = Inr ids"
proof -
  from assms obtain lists where lists: "emap (content fs) paths = Inr lists" and all: "all = dedup [] (concat lists)"
    by (auto simp: archived_ids_def ebind_eq_Inr)
  have each: "set lists = {ids. \<exists>p\<in>set paths. content fs p = Inr ids} \<and> (\<forall>p\<in>set paths. \<exists>ids. content fs p = Inr ids)"
    using lists by (induction paths arbitrary: lists) (auto simp: ebind_eq_Inr)
  show "distinct all" by (simp add: all distinct_dedup)
  show "set all = {h. \<exists>p\<in>set paths. \<exists>ids. content fs p = Inr ids \<and> h \<in> set ids}"
    using each by (auto simp: all set_dedup)
  show "p \<in> set paths \<Longrightarrow> \<exists>ids. content fs p = Inr ids" using each by blast
qed

section \<open>Writing\<close>

definition archived_hashes :: "(string \<times> afile) list \<Rightarrow> string set" where
  "archived_hashes fs = {h. \<exists>p ids. is_activity_archive p \<and> content fs p = Inr ids \<and> h \<in> set ids}"

definition active_hashes :: "(string \<times> afile) list \<Rightarrow> string set" where
  "active_hashes fs = (case content fs active_path of Inl _ \<Rightarrow> {} | Inr ids \<Rightarrow> set ids)"

lemma stored_parts: "stored_hashes fs = archived_hashes fs \<union> active_hashes fs"
proof (intro set_eqI iffI)
  fix h
  assume "h \<in> stored_hashes fs"
  then obtain p ids where "indexed p" "content fs p = Inr ids" "h \<in> set ids" by (auto simp: stored_content)
  then show "h \<in> archived_hashes fs \<union> active_hashes fs"
    by (cases "p = active_path") (auto simp: archived_hashes_def active_hashes_def indexed_def)
next
  fix h
  assume "h \<in> archived_hashes fs \<union> active_hashes fs"
  then show "h \<in> stored_hashes fs"
    unfolding stored_content archived_hashes_def active_hashes_def indexed_def
    by (cases "content fs active_path") auto
qed

lemma content_put: "content (AList.update p f fs) q = (if q = p then file_ids f else content fs q)"
  by (simp add: content_def)

lemma archived_put_active [simp]: "archived_hashes (AList.update active_path f fs) = archived_hashes fs"
  by (auto simp: archived_hashes_def content_put) (metis active_not_archive)+

lemma active_put_active: "file_ids f = Inr ids \<Longrightarrow> active_hashes (AList.update active_path f fs) = set ids"
  by (simp add: active_hashes_def content_put)

lemma active_put_archive: "is_activity_archive p \<Longrightarrow> active_hashes (AList.update p f fs) = active_hashes fs"
  by (auto simp: active_hashes_def content_put)

lemma archived_put_new:
  assumes "is_activity_archive p" and "map_of fs p = None" and "file_ids f = Inr ids"
  shows "archived_hashes (AList.update p f fs) = archived_hashes fs \<union> set ids"
proof (intro set_eqI iffI)
  fix h
  assume "h \<in> archived_hashes (AList.update p f fs)"
  then show "h \<in> archived_hashes fs \<union> set ids"
    using assms by (auto simp: archived_hashes_def content_put split: if_splits)
next
  fix h
  assume h: "h \<in> archived_hashes fs \<union> set ids"
  have "content fs p = Inr []" using assms(2) by (simp add: content_def)
  then have "q \<noteq> p" if "content fs q = Inr l" "h \<in> set l" for q l using that by auto
  with h assms(1,3) show "h \<in> archived_hashes (AList.update p f fs)"
    unfolding archived_hashes_def by (force simp: content_put)
qed

text \<open>The clock gives an \<^verbatim>\<open>int64\<close> of nanoseconds before the year 2116, and so do the stamps in use.\<close>

definition clock_ok :: "'w io \<Rightarrow> bool" where
  "clock_ok I \<longleftrightarrow> (\<forall>w. - (2 ^ 63) \<le> fst (TimeNow I w) \<and> fst (TimeNow I w) < 2 ^ 62)"

definition stamps_ok :: "(string \<times> afile) list \<Rightarrow> 'h activity_heap_scheme \<Rightarrow> bool" where
  "stamps_ok fs h \<longleftrightarrow>
     - (2 ^ 63) \<le> ah_lastArchiveNano h \<and> ah_lastArchiveNano h < 2 ^ 62 \<and>
     (\<forall>p\<in>set (archives_of fs). \<forall>ts. archive_stamp p = Some ts \<longrightarrow> ts < 2 ^ 62)"

text \<open>What archiving has done so far: new archives, stamped up to the last stamp used.\<close>

definition grown :: "(string \<times> afile) list \<Rightarrow> int \<Rightarrow> ('w, afile, 'h activity_heap_scheme) sys \<Rightarrow> bool" where
  "grown fs b t \<longleftrightarrow>
     (\<forall>p. p \<in> dom (map_of (files t)) \<longrightarrow> p \<in> dom (map_of fs) \<or>
        (\<exists>z. archive_stamp p = Some z \<and> z \<le> ah_lastArchiveNano (heap t))) \<and>
     - (2 ^ 63) \<le> ah_lastArchiveNano (heap t) \<and> ah_lastArchiveNano (heap t) < b"

lemma wp_next_name:
  assumes "clock_ok I" and "\<And>p ts. p \<in> set (archives_of fs) \<Longrightarrow> archive_stamp p = Some ts \<Longrightarrow> ts < 2 ^ 62"
    and "grown fs b t" and "2 ^ 62 \<le> b" and "b < 2 ^ 63"
    and Q: "\<And>n w. map_of (files t) (archive_name n) = None \<Longrightarrow> archive_stamp (archive_name n) = Some n \<Longrightarrow>
      - (2 ^ 63) \<le> n \<Longrightarrow> ah_lastArchiveNano (heap t) < n \<Longrightarrow> n \<le> b \<Longrightarrow>
      Q (archive_name n) (t\<lparr> world := w, heap := (heap t)\<lparr> ah_lastArchiveNano := n \<rparr> \<rparr>)"
  shows "wp (nextActivityArchiveName I (archives_of fs)) Q E t"
proof -
  obtain x w where now: "TimeNow I (world t) = (x, w)" by force
  then have x: "- (2 ^ 63) \<le> x" "x < 2 ^ 62"
    using assms(1) unfolding clock_ok_def by (metis fst_conv)+
  let ?last = "ah_lastArchiveNano (heap t)"
  define start where "start = (if int64 x \<le> ?last then int64 (?last + 1) else int64 x)"
  let ?n = "after_stamps (archives_of fs) start"
  have last: "- (2 ^ 63) \<le> ?last" "?last < b" using assms(3) by (auto simp: grown_def)
  have "int64 x = x" using x by (intro int64_id) auto
  moreover have "int64 (?last + 1) = ?last + 1" using last assms(5) by (intro int64_id) auto
  ultimately have st: "?last < start" "- (2 ^ 63) \<le> start" "start \<le> b"
    using x last assms(4) by (auto simp: start_def)
  have n: "start \<le> ?n \<and> ?n \<le> b \<and> (\<forall>p\<in>set (archives_of fs). \<forall>ts. archive_stamp p = Some ts \<longrightarrow> ts < ?n)"
    by (rule after_stamps_bounds [where b = "2 ^ 62"]) (use assms(2,4,5) st in auto)
  have stamp: "archive_stamp (archive_name ?n) = Some ?n"
    by (rule archive_stamp_name) (use n st assms(5) in auto)
  have "map_of (files t) (archive_name ?n) = None"
  proof (rule ccontr)
    assume "map_of (files t) (archive_name ?n) \<noteq> None"
    then have "archive_name ?n \<in> dom (map_of fs) \<or> (\<exists>z. archive_stamp (archive_name ?n) = Some z \<and> z \<le> ?last)"
      using assms(3) by (auto simp: grown_def)
    with stamp n st(1) show False
      by (auto simp: archives_of_set archive_name_is_archive)
  qed
  from Q [OF this stamp, of w] n st
  have "Q (archive_name ?n) (t\<lparr> world := w, heap := (heap t)\<lparr> ah_lastArchiveNano := ?n \<rparr> \<rparr>)" by auto
  then show ?thesis
    by (cases "int64 x \<le> ?last") (simp_all add: nextActivityArchiveName_def wp_def run_simps now Let_def start_def)
qed

text \<open>A body that touches no part of the heap but the last stamp.\<close>

definition stamped_only :: "'h activity_heap_scheme \<Rightarrow> 'h activity_heap_scheme \<Rightarrow> bool" where
  "stamped_only h h' \<longleftrightarrow> (\<exists>z. h' = h\<lparr> ah_lastArchiveNano := z \<rparr>)"

lemma stamped_only_simps [simp]: "stamped_only h h" "stamped_only h (h\<lparr> ah_lastArchiveNano := z \<rparr>)"
  unfolding stamped_only_def by (auto intro: exI [of _ "ah_lastArchiveNano h"])

lemma stamped_only_trans: "stamped_only (h\<lparr> ah_lastArchiveNano := z \<rparr>) h' \<Longrightarrow> stamped_only h h'"
  by (auto simp: stamped_only_def)

lemma stamped_only_fields: "stamped_only h h' \<Longrightarrow> ah_generation h' = ah_generation h \<and> ah_index h' = ah_index h"
  by (auto simp: stamped_only_def)

text \<open>What the archives written hold, on success and on failure.\<close>

definition archived_more ::
    "('w, afile, 'h activity_heap_scheme) sys \<Rightarrow> string set \<Rightarrow> ('w, afile, 'h activity_heap_scheme) sys \<Rightarrow> bool" where
  "archived_more s new t \<longleftrightarrow>
     map_of (files s) \<subseteq>\<^sub>m map_of (files t) \<and> active_hashes (files t) = active_hashes (files s) \<and>
     archived_hashes (files s) \<subseteq> archived_hashes (files t) \<and> archived_hashes (files t) \<subseteq> archived_hashes (files s) \<union> new \<and>
     (\<forall>p. indexed p \<longrightarrow> (\<exists>ids. content (files s) p = Inr ids) \<longrightarrow> (\<exists>ids. content (files t) p = Inr ids)) \<and>
     (\<forall>p. \<not> indexed p \<longrightarrow> map_of (files t) p = map_of (files s) p) \<and>
     stamped_only (heap s) (heap t)"

lemma archived_more_refl: "archived_more s {} s"
  by (simp add: archived_more_def)

lemma archived_more_mono: "archived_more s new t \<Longrightarrow> new \<subseteq> new' \<Longrightarrow> archived_more s new' t"
  unfolding archived_more_def by blast

lemma archived_more_trans:
  assumes "archived_more s new t" and "archived_more t new' u"
  shows "archived_more s (new \<union> new') u"
proof -
  have "stamped_only (heap s) (heap u)" using assms by (auto simp: archived_more_def stamped_only_def)
  moreover have "map_of (files s) \<subseteq>\<^sub>m map_of (files u)" using assms map_le_trans unfolding archived_more_def by blast
  ultimately show ?thesis using assms unfolding archived_more_def by (simp; blast)
qed

lemma archived_more_stamp: "archived_more s {} (s\<lparr> world := w, heap := (heap s)\<lparr> ah_lastArchiveNano := n \<rparr> \<rparr>)"
  by (simp add: archived_more_def)

lemma archived_more_put:
  assumes "map_of (files s) p = None" and "is_activity_archive p" and "file_ids f = Inr ids"
  shows "archived_more s (set ids) ((put_file p f s)\<lparr> world := w \<rparr>)"
  using assms archived_put_new [OF assms(2,1,3)]
  by (auto simp: archived_more_def active_put_archive content_put map_le_def indexed_def)

lemma grown_put:
  assumes "grown fs b (s\<lparr> world := w', heap := (heap s)\<lparr> ah_lastArchiveNano := n \<rparr> \<rparr>)" and "archive_stamp p = Some n"
  shows "grown fs b ((put_file p f (s\<lparr> world := w', heap := (heap s)\<lparr> ah_lastArchiveNano := n \<rparr> \<rparr>))\<lparr> world := w \<rparr>)"
  using assms by (auto simp: grown_def)

lemma grown_stamp:
  assumes "grown fs b s" and "- (2 ^ 63) \<le> n" and "ah_lastArchiveNano (heap s) < n" and "n \<le> b"
  shows "grown fs (b + 1) (s\<lparr> world := w, heap := (heap s)\<lparr> ah_lastArchiveNano := n \<rparr> \<rparr>)"
  using assms by (fastforce simp: grown_def)

lemma wp_write_archives:
  assumes "clock_ok I" and "\<And>p ts. p \<in> set (archives_of fs) \<Longrightarrow> archive_stamp p = Some ts \<Longrightarrow> ts < 2 ^ 62"
    and "grown fs b s" and "2 ^ 62 \<le> b" and "b + int (length chunks) < 2 ^ 63"
    and "\<And>c. c \<in> set chunks \<Longrightarrow> list_all hash_pattern c \<and> length c \<le> maxActivityHashes"
  shows "wp (write_archives I (archives_of fs) chunks)
    (\<lambda>_ t. archived_more s (set (concat chunks)) t \<and> set (concat chunks) \<subseteq> archived_hashes (files t))
    (\<lambda>_ t. archived_more s (set (concat chunks)) t) s"
  using assms(3-6)
proof (induction chunks arbitrary: b s)
  case Nil
  then show ?case by (simp add: write_archives_def wp_simps archived_more_refl)
next
  case (Cons c chunks)
  let ?rest = "write_archives I (archives_of fs) chunks" and ?new = "set (concat (c # chunks))"
  have c: "file_ids (marshal_ids c) = Inr c" using Cons.prems(4) by (intro file_ids_marshal) auto
  have unfold: "write_archives I (archives_of fs) (c # chunks) =
      andthen (andthen (nextActivityArchiveName I (archives_of fs)) (\<lambda>path. atomicWriteFile I path (marshal_ids c))) (\<lambda>_. ?rest)"
    by (simp add: write_archives_def)
  show ?case unfolding unfold wp_andthen
  proof (rule wp_next_name [OF assms(1,2) Cons.prems(1,2)])
    show "b < 2 ^ 63" using Cons.prems(3) by simp
  next
    fix n w
    let ?t = "s\<lparr> world := w, heap := (heap s)\<lparr> ah_lastArchiveNano := n \<rparr> \<rparr>" and ?p = "archive_name n"
    assume free: "map_of (files s) ?p = None" and stamp: "archive_stamp ?p = Some n"
      and n: "- (2 ^ 63) \<le> n" "ah_lastArchiveNano (heap s) < n" "n \<le> b"
    have more: "archived_more s (set c) ((put_file ?p (marshal_ids c) ?t)\<lparr> world := w' \<rparr>)" for w'
      using archived_more_trans [OF archived_more_stamp archived_more_put [OF _ archive_name_is_archive c]] free by simp
    show "wp (atomicWriteFile I ?p (marshal_ids c))
        (\<lambda>_. wp ?rest (\<lambda>_ t. archived_more s ?new t \<and> ?new \<subseteq> archived_hashes (files t)) (\<lambda>_ t. archived_more s ?new t))
        (\<lambda>_ t. archived_more s ?new t) ?t"
    proof (rule wp_atomicWriteFile)
      fix w'
      let ?u = "(put_file ?p (marshal_ids c) ?t)\<lparr> world := w' \<rparr>"
      have "grown fs (b + 1) ?u" using grown_stamp [OF Cons.prems(1) n] stamp by (intro grown_put)
      then have "wp ?rest
          (\<lambda>_ t. archived_more ?u (set (concat chunks)) t \<and> set (concat chunks) \<subseteq> archived_hashes (files t))
          (\<lambda>_ t. archived_more ?u (set (concat chunks)) t) ?u"
        using Cons.prems by (intro Cons.IH [where b = "b + 1"]) auto
      moreover have post: "archived_more s ?new t" if "archived_more ?u (set (concat chunks)) t" for t
        using archived_more_trans [OF more that] by simp
      moreover have "?new \<subseteq> archived_hashes (files t)"
        if t: "archived_more ?u (set (concat chunks)) t" "set (concat chunks) \<subseteq> archived_hashes (files t)" for t
      proof -
        have "set c \<subseteq> archived_hashes (files ?u)"
          using archived_put_new [OF archive_name_is_archive free c] by simp
        also have "\<dots> \<subseteq> archived_hashes (files t)" using t(1) unfolding archived_more_def by blast
        finally show ?thesis using t(2) by simp
      qed
      ultimately show "wp ?rest (\<lambda>_ t. archived_more s ?new t \<and> ?new \<subseteq> archived_hashes (files t))
          (\<lambda>_ t. archived_more s ?new t) ?u"
        by (elim wp_mono) blast+
    next
      show "archived_more s ?new (?t\<lparr> world := w' \<rparr>)" for w'
        by (rule archived_more_mono [of _ "{}"]) (simp_all add: archived_more_def)
    next
      show "archived_more s ?new ((put_file ?p (marshal_ids c) ?t)\<lparr> world := w' \<rparr>)" for w'
        by (rule archived_more_mono [OF more]) simp
    qed
  qed
qed

text \<open>The index on disk before and after an attempt to add hashes, whatever became of it.\<close>

definition index_grows ::
    "('w, afile, 'h activity_heap_scheme) sys \<Rightarrow> string set \<Rightarrow> ('w, afile, 'h activity_heap_scheme) sys \<Rightarrow> bool" where
  "index_grows s new t \<longleftrightarrow>
     stored_hashes (files s) \<subseteq> stored_hashes (files t) \<and> stored_hashes (files t) \<subseteq> stored_hashes (files s) \<union> new \<and>
     (\<forall>p. indexed p \<longrightarrow> (\<exists>ids. content (files s) p = Inr ids) \<longrightarrow> (\<exists>ids. content (files t) p = Inr ids)) \<and>
     (\<forall>p. \<not> indexed p \<longrightarrow> map_of (files t) p = map_of (files s) p)"

lemma content_same: "map_of fs' p = map_of fs p \<Longrightarrow> content fs' p = content fs p"
  by (simp add: content_def)

lemma set_take_drop: "set (take n xs) \<union> set (drop n xs) = set xs"
  by (metis append_take_drop_id set_append)

lemma stored_put_active:
  "file_ids f = Inr ids \<Longrightarrow> stored_hashes (AList.update active_path f fs) = archived_hashes fs \<union> set ids"
  by (simp add: stored_parts active_put_active)

lemma index_grows_refl: "index_grows s new (s\<lparr> world := w \<rparr>)"
  by (auto simp: index_grows_def)

lemma archived_more_grows: "archived_more s new t \<Longrightarrow> index_grows s new t"
  unfolding archived_more_def index_grows_def stored_parts by blast

text \<open>Writing the active file after the archives.\<close>

lemma index_grows_active:
  assumes "archived_more s new t" and "file_ids f = Inr ids"
    and "stored_hashes (files s) \<subseteq> archived_hashes (files t) \<union> set ids" and "new \<union> set ids \<subseteq> all"
  shows "index_grows s all ((put_file active_path f t)\<lparr> world := w \<rparr>)"
proof -
  have "stored_hashes (AList.update active_path f (files t)) = archived_hashes (files t) \<union> set ids"
    by (rule stored_put_active [OF assms(2)])
  moreover have "archived_hashes (files t) \<subseteq> stored_hashes (files s) \<union> new"
    using assms(1) unfolding archived_more_def stored_parts by blast
  moreover have "\<forall>p. indexed p \<longrightarrow> (\<exists>ids. content (files s) p = Inr ids) \<longrightarrow>
      (\<exists>ids. content (AList.update active_path f (files t)) p = Inr ids)"
    using assms(1,2) by (auto simp: archived_more_def content_put)
  moreover have "\<forall>p. \<not> indexed p \<longrightarrow> map_of (AList.update active_path f (files t)) p = map_of (files s) p"
    using assms(1) by (auto simp: archived_more_def indexed_def)
  ultimately show ?thesis using assms(3,4) unfolding index_grows_def by auto
qed

lemma wp_store_hashes:
  assumes "clock_ok I" and ok: "stamps_ok (files s) (heap s)" and hashes: "list_all hash_pattern combined"
    and "length combined < 2 ^ 61" and old: "stored_hashes (files s) \<subseteq> archived_hashes (files s) \<union> set combined"
  shows "wp (store_hashes I (archives_of (files s)) combined)
    (\<lambda>_ t. index_grows s (set combined) t \<and> set combined \<subseteq> stored_hashes (files t) \<and> stamped_only (heap s) (heap t))
    (\<lambda>_ t. index_grows s (set combined) t \<and> stamped_only (heap s) (heap t)) s"
proof (cases "length combined \<le> maxActivityHashes")
  case True
  have f: "file_ids (marshal_ids combined) = Inr combined" by (rule file_ids_marshal [OF hashes True])
  have put: "index_grows s (set combined) ((put_file active_path (marshal_ids combined) s)\<lparr> world := w \<rparr>)" for w
    by (rule index_grows_active [OF archived_more_refl f]) (use old in auto)
  show ?thesis unfolding store_hashes_def if_P [OF True]
    by (rule wp_atomicWriteFile) (use put f in \<open>auto simp: index_grows_refl stored_put_active\<close>)
next
  case False
  let ?cut = "length combined - activityActiveKeepCount"
  let ?chunks = "splitActivityArchiveChunks (take ?cut combined)" and ?keep = "drop ?cut combined"
  have good: "good_chunks (take ?cut combined) ?chunks" by (rule split_good)
  then have chunks: "concat ?chunks = take ?cut combined" by (simp add: good_chunks_def)
  have parts: "list_all hash_pattern (take ?cut combined)" "list_all hash_pattern ?keep"
    using hashes by (auto simp: list_all_iff dest: in_set_takeD in_set_dropD)
  have "length (take ?cut combined) < 2 ^ 61" using assms(4) by simp
  moreover have "length ?chunks \<le> length (take ?cut combined)"
    using good unfolding good_chunks_def by linarith
  ultimately have "length ?chunks < 2 ^ 61" by (rule order.strict_trans1 [rotated])
  then have count: "int (length ?chunks) < 2 ^ 61" by simp
  have keep: "file_ids (marshal_ids ?keep) = Inr ?keep"
    by (rule file_ids_marshal [OF parts(2)]) (simp add: activityActiveKeepCount_def maxActivityHashes_def)
  have grown: "grown (files s) (2 ^ 62) s" using ok by (auto simp: grown_def stamps_ok_def)
  have "wp (write_archives I (archives_of (files s)) ?chunks)
    (\<lambda>_ t. archived_more s (set (concat ?chunks)) t \<and> set (concat ?chunks) \<subseteq> archived_hashes (files t))
    (\<lambda>_ t. archived_more s (set (concat ?chunks)) t) s"
  proof (rule wp_write_archives [OF assms(1) _ grown])
    show "ts < 2 ^ 62" if "p \<in> set (archives_of (files s))" "archive_stamp p = Some ts" for p ts
      using ok that by (auto simp: stamps_ok_def)
    show "2 ^ 62 + int (length ?chunks) < 2 ^ 63" using count by simp
    show "list_all hash_pattern c \<and> length c \<le> maxActivityHashes" if "c \<in> set ?chunks" for c
    proof -
      from that have "set c \<subseteq> set (concat ?chunks)" by auto
      then have "set c \<subseteq> set (take ?cut combined)" unfolding chunks .
      with parts(1) good that show ?thesis by (auto simp: list_all_iff good_chunks_def)
    qed
  qed simp
  then have first: "wp (write_archives I (archives_of (files s)) ?chunks)
    (\<lambda>_ t. archived_more s (set (take ?cut combined)) t \<and> set (take ?cut combined) \<subseteq> archived_hashes (files t))
    (\<lambda>_ t. archived_more s (set (take ?cut combined)) t) s" unfolding chunks .
  show ?thesis unfolding store_hashes_def if_not_P [OF False] Let_def wp_seq
  proof (rule wp_mono [OF first])
    fix t
    assume t: "archived_more s (set (take ?cut combined)) t \<and> set (take ?cut combined) \<subseteq> archived_hashes (files t)"
    have more: "archived_more s (set combined) t" using t archived_more_mono set_take_subset by metis
    have all: "set combined \<subseteq> archived_hashes (files t) \<union> set ?keep"
      using t set_take_drop [of ?cut combined] by blast
    moreover have "archived_hashes (files s) \<subseteq> archived_hashes (files t)" using t by (simp add: archived_more_def)
    ultimately have "stored_hashes (files s) \<subseteq> archived_hashes (files t) \<union> set ?keep" using old by blast
    then have put: "index_grows s (set combined) ((put_file active_path (marshal_ids ?keep) t)\<lparr> world := w \<rparr>)" for w
      by (rule index_grows_active [OF more keep]) (use set_drop_subset in fastforce)
    show "wp (atomicWriteFile I active_path (marshal_ids ?keep))
      (\<lambda>_ t. index_grows s (set combined) t \<and> set combined \<subseteq> stored_hashes (files t) \<and> stamped_only (heap s) (heap t))
      (\<lambda>_ t. index_grows s (set combined) t \<and> stamped_only (heap s) (heap t)) t"
    proof (rule wp_atomicWriteFile)
      have heap: "stamped_only (heap s) (heap t)" using more by (simp add: archived_more_def)
      show "index_grows s (set combined) ((put_file active_path (marshal_ids ?keep) t)\<lparr> world := w \<rparr>) \<and>
          set combined \<subseteq> stored_hashes (files ((put_file active_path (marshal_ids ?keep) t)\<lparr> world := w \<rparr>)) \<and>
          stamped_only (heap s) (heap ((put_file active_path (marshal_ids ?keep) t)\<lparr> world := w \<rparr>))" for w
        using put heap all by (simp add: stored_put_active [OF keep])
      show "index_grows s (set combined) (t\<lparr> world := w \<rparr>) \<and> stamped_only (heap s) (heap (t\<lparr> world := w \<rparr>))" for w
        using archived_more_grows [OF more] heap by (simp add: index_grows_def)
      show "index_grows s (set combined) ((put_file active_path (marshal_ids ?keep) t)\<lparr> world := w \<rparr>) \<and>
          stamped_only (heap s) (heap ((put_file active_path (marshal_ids ?keep) t)\<lparr> world := w \<rparr>))" for w
        using put heap by simp
    qed
  next
    fix t
    assume "archived_more s (set (take ?cut combined)) t"
    then have "archived_more s (set combined) t" using archived_more_mono set_take_subset by metis
    then show "index_grows s (set combined) t \<and> stamped_only (heap s) (heap t)"
      using archived_more_grows by (simp add: archived_more_def)
  qed
qed

section \<open>Adding hashes\<close>

text \<open>The generation is raised before the first write.\<close>

definition add_effect ::
    "('w, afile, 'h activity_heap_scheme) sys \<Rightarrow> string set \<Rightarrow> ('w, afile, 'h activity_heap_scheme) sys \<Rightarrow> bool" where
  "add_effect s new t \<longleftrightarrow>
     index_grows s new t \<and>
     (files t = files s \<and> heap t = heap s \<or>
      (\<exists>z. heap t = (heap s)\<lparr> ah_generation := ah_generation (heap s) + 1, ah_lastArchiveNano := z \<rparr>))"

lemma add_effect_same: "add_effect s new (s\<lparr> world := w \<rparr>)"
  by (simp add: add_effect_def index_grows_refl)

lemma emap_hashes: "emap ParseTransactionHash ids = Inr v \<Longrightarrow> v = ids \<and> list_all hash_pattern ids"
  by (induction ids arbitrary: v) (auto simp: ebind_eq_Inr ParseTransactionHash_iff)

text \<open>What the reading part of an addition has found out.\<close>

lemma combined_facts:
  assumes "archived_ids fs (archives_of fs) = Inr seen" and "content fs active_path = Inr active"
    and "list_all hash_pattern ids"
  defines "kept \<equiv> dedup seen active"
  defines "fresh \<equiv> dedup (kept @ seen) ids"
  shows "stored_hashes fs = set seen \<union> set active" and "archived_hashes fs = set seen"
    and "set (kept @ fresh) = (set active \<union> set ids) - set seen" and "set fresh = set ids - stored_hashes fs"
    and "list_all hash_pattern (kept @ fresh)" and "length (kept @ fresh) \<le> maxActivityHashes + length ids"
    and "length fresh = card (set ids - stored_hashes fs)"
proof -
  note seen = archived_ids_set [OF assms(1)]
  show arch: "archived_hashes fs = set seen"
    unfolding seen(2) archived_hashes_def archives_of_set
    by (auto simp: content_def domIff split: option.splits)
  show stored: "stored_hashes fs = set seen \<union> set active"
    by (simp add: stored_parts arch active_hashes_def assms(2))
  show "set (kept @ fresh) = (set active \<union> set ids) - set seen"
    by (auto simp: kept_def fresh_def set_dedup)
  show fresh: "set fresh = set ids - stored_hashes fs"
    by (auto simp: kept_def fresh_def set_dedup stored)
  have active: "list_all hash_pattern active \<and> length active \<le> maxActivityHashes"
    using assms(2) by (auto simp: content_def dest: file_ids_hashes split: option.splits)
  show "list_all hash_pattern (kept @ fresh)"
    using active assms(3) by (auto simp: kept_def fresh_def list_all_iff set_dedup)
  have short: "length (dedup a xs) \<le> length xs" for a xs :: "string list"
    by (induction a xs rule: dedup.induct) auto
  show "length (kept @ fresh) \<le> maxActivityHashes + length ids"
    using active short [of seen active] short [of "kept @ seen" ids] by (simp add: kept_def fresh_def)
  show "length fresh = card (set ids - stored_hashes fs)"
    by (metis distinct_card distinct_dedup fresh fresh_def)
qed

lemma wp_ret_eta: "wp (ret x) Q E = Q x"
  by (rule ext) (rule wp_ret)

lemma wp_addActivityHashes:
  assumes "clock_ok I" and "stamps_ok (files s) (heap s)" and "length ids < 2 ^ 60"
  shows "wp (addActivityHashes I ids)
    (\<lambda>n t. add_effect s (set ids) t \<and> set ids \<subseteq> stored_hashes (files t) \<and> n = card (set ids - stored_hashes (files s)))
    (\<lambda>_ t. add_effect s (set ids) t) s"
    (is "wp _ ?Q ?E s")
proof (cases "emap ParseTransactionHash ids")
  case (Inl e)
  then show ?thesis using add_effect_same [of s "set ids" "world s"] by (simp add: addActivityHashes_def wp_simps)
next
  case (Inr v)
  note v = emap_hashes [OF Inr]
  show ?thesis
  proof (cases "ids = []")
    case True
    then show ?thesis using add_effect_same [of s "{}" "world s"] by (simp add: addActivityHashes_def wp_simps)
  next
    case False
    let ?store = "\<lambda>paths seen active. let kept = dedup seen active; fresh = dedup (kept @ seen) ids in
       if fresh = [] then ret 0
       else seq (set_heap (\<lambda>h. h\<lparr> ah_generation := ah_generation h + 1 \<rparr>))
           (seq (store_hashes I paths (kept @ fresh)) (ret (length fresh)))"
    let ?reads = "andthen (activityArchivePaths I) (\<lambda>paths. andthen (read_archives I paths) (\<lambda>seen.
       andthen (readActivityFile I active_path) (\<lambda>active. ret (paths, seen, active))))"
    have run: "addActivityHashes I ids = andthen ?reads (\<lambda>(paths, seen, active). ?store paths seen active)"
      using Inr v False by (intro ext) (simp add: addActivityHashes_def run_simps Let_def split: prod.split sum.split)
    have "wp ?reads (\<lambda>x t. case x of (paths, seen, active) \<Rightarrow> wp (?store paths seen active) ?Q ?E t) ?E s"
    proof (rule wp_runI)
      fix e t
      assume "?reads s = (Inl e, t)"
      then have "asks s t" by (elim withinD [rotated]) (intro eff_intros asks.eff_andthen asks.eff_ret)
      then have "t = s\<lparr> world := world t \<rparr>" by (cases s; cases t) (simp add: asks_def)
      then show "?E e t" by (metis add_effect_same)
    next
      fix x t
      assume reads: "?reads s = (Inr x, t)"
      obtain paths seen active where x: "x = (paths, seen, active)" by (cases x)
      from reads x obtain u v where u: "activityArchivePaths I s = (Inr paths, u)"
        and v': "read_archives I paths u = (Inr seen, v)" and t: "readActivityFile I active_path v = (Inr active, t)"
        by (auto simp: ok_simps)
      note us = asks_same [OF asks_paths u] and vs = asks_same [OF asks_archives v'] and ts = asks_same [OF asks_read t]
      have paths: "paths = archives_of (files t)" using activityArchivePaths_value [OF u] us vs ts by simp
      have same: "files t = files s" "heap t = heap s" using us vs ts by simp_all
      have seen: "archived_ids (files t) (archives_of (files t)) = Inr seen"
        using read_archives_value [OF v'] us vs ts paths by simp
      have active: "content (files t) active_path = Inr active" using readActivityFile_value [OF t] ts by simp
      let ?kept = "dedup seen active" let ?fresh = "dedup (?kept @ seen) ids"
      note facts = combined_facts [OF seen active v [THEN conjunct2]]
      show "case x of (paths, seen, active) \<Rightarrow> wp (?store paths seen active) ?Q ?E t"
      proof (cases "?fresh = []")
        case True
        with facts(4) have "set ids - stored_hashes (files s) = {}" by (simp add: same)
        moreover have "add_effect s (set ids) t"
          using same by (simp add: add_effect_def index_grows_def)
        ultimately show ?thesis using True same by (simp add: x Let_def wp_simps)
      next
        case False
        let ?s = "t\<lparr> heap := (heap t)\<lparr> ah_generation := ah_generation (heap t) + 1 \<rparr> \<rparr>"
        have grows: "add_effect s (set ids) t'"
          if "index_grows ?s (set (?kept @ ?fresh)) t'" "stamped_only (heap ?s) (heap t')" for t'
        proof -
          have "index_grows s (set ids) t'"
            using that(1) facts(1,3) same unfolding index_grows_def by auto
          then show ?thesis using that(2) same by (auto simp: add_effect_def stamped_only_def)
        qed
        have all_in: "set ids \<subseteq> stored_hashes (files t')"
          if "index_grows ?s (set (?kept @ ?fresh)) t'" "set (?kept @ ?fresh) \<subseteq> stored_hashes (files t')" for t'
        proof -
          have "set seen \<subseteq> stored_hashes (files t')" using that(1) facts(1) unfolding index_grows_def by simp
          then show ?thesis using that(2) unfolding facts(3) by blast
        qed
        have first: "wp (store_hashes I (archives_of (files ?s)) (?kept @ ?fresh))
          (\<lambda>_ t'. index_grows ?s (set (?kept @ ?fresh)) t' \<and> set (?kept @ ?fresh) \<subseteq> stored_hashes (files t') \<and>
             stamped_only (heap ?s) (heap t'))
          (\<lambda>_ t'. index_grows ?s (set (?kept @ ?fresh)) t' \<and> stamped_only (heap ?s) (heap t')) ?s"
        proof (rule wp_store_hashes [OF assms(1) _ facts(5)])
          show "stamps_ok (files ?s) (heap ?s)" using assms(2) same by (simp add: stamps_ok_def)
          show "length (?kept @ ?fresh) < 2 ^ 61" using facts(6) assms(3) by (simp add: maxActivityHashes_def)
          show "stored_hashes (files ?s) \<subseteq> archived_hashes (files ?s) \<union> set (?kept @ ?fresh)"
            unfolding facts(3) using facts(1,2) by auto
        qed
        have len: "length ?fresh = card (set ids - stored_hashes (files s))" using facts(7) same by simp
        have p: "paths = archives_of (files ?s)" using paths by simp
        have "wp (store_hashes I paths (?kept @ ?fresh)) (\<lambda>_ t'. ?Q (length ?fresh) t') (\<lambda>e t'. ?E e t') ?s"
          unfolding p by (rule wp_mono [OF first]) (use grows all_in len in blast)+
        then show ?thesis using False by (simp add: x Let_def wp_simps wp_ret_eta)
      qed
    qed
    then show ?thesis unfolding run wp_andthen by (simp add: case_prod_beta')
  qed
qed

end
