(* ===== verification/ActivityRun.thy ===== *)
theory ActivityRun
  imports ActivityFacts
begin

text \<open>
  The activity index as a system of steps: writers, readers that hold no lock while they read
  the archives, other components and restarts interleave, and any system call may fail.
  Nothing stored is lost, and an index that is served is what the files hold.
\<close>

section \<open>Steps\<close>

text \<open>The index that reading every file of the directory anew would give.\<close>

definition reference_index :: "(string \<times> afile) list \<Rightarrow> err + string list" where
  "reference_index fs =
     ebind (archived_ids fs (archives_of fs)) (\<lambda>archived.
     ebind (content fs active_path) (\<lambda>active. Inr (archived @ dedup archived active)))"

text \<open>Other components write other files and other parts of the heap; the world changes as it likes.\<close>

definition unrelated ::
    "('w, afile, 'h activity_heap_scheme) sys \<Rightarrow> ('w, afile, 'h activity_heap_scheme) sys \<Rightarrow> bool" where
  "unrelated s t \<longleftrightarrow>
     archives_of (files t) = archives_of (files s) \<and>
     (\<forall>p. indexed p \<longrightarrow> map_of (files t) p = map_of (files s) p) \<and>
     activity_heap.truncate (heap t) = activity_heap.truncate (heap s)"

type_synonym ('w, 'h) activity_config =
  "('w, afile, 'h activity_heap_scheme) sys \<times> (string list \<times> string list \<times> 64 word) option"

text \<open>
  A rebuild that has taken its snapshot and not finished is the second component; one lock
  allows one at a time.  Adding is one step, under the writers' lock, as is taking a snapshot.
  The bounds say that the clock and the counters have not reached the end of their range.
\<close>

definition may_add :: "'h activity_heap_scheme \<Rightarrow> (string \<times> afile) list \<Rightarrow> string list \<Rightarrow> bool" where
  "may_add h fs ids \<longleftrightarrow> stamps_ok fs h \<and> length ids < 2 ^ 60 \<and> unat (ah_generation h) + 1 < 2 ^ 64"

inductive activity_step :: "'w io \<Rightarrow> ('w, 'h) activity_config \<Rightarrow> ('w, 'h) activity_config \<Rightarrow> bool" for I where
  Snapshot: "cached_index (heap s) = None \<Longrightarrow> activitySnapshot I s = (Inr p, t) \<Longrightarrow>
    activity_step I (s, None) (t, Some p)"
| Rebuild: "rebuild_index I p s = (r, t) \<Longrightarrow> activity_step I (s, Some p) (t, None)"
| Add: "may_add (heap s) (files s) ids \<Longrightarrow> addActivityHashes I ids s = (r, t) \<Longrightarrow> activity_step I (s, q) (t, q)"
| Other: "unrelated s t \<Longrightarrow> activity_step I (s, q) (t, q)"
| Restart: "files t = files s \<Longrightarrow> ah_index (heap t) = None \<Longrightarrow> activity_step I (s, q) (t, None)"

definition activity_run :: "'w io \<Rightarrow> ('w, 'h) activity_config \<Rightarrow> ('w, 'h) activity_config \<Rightarrow> bool" where
  "activity_run I = (activity_step I)\<^sup>*\<^sup>*"

section \<open>Nothing is lost\<close>

lemma stored_same:
  assumes "\<And>p. indexed p \<Longrightarrow> map_of fs' p = map_of fs p"
  shows "stored_hashes fs' = stored_hashes fs"
  unfolding stored_hashes_def by (intro Collect_cong ex_cong1) (auto simp: assms)

lemma add_run:
  assumes "clock_ok I" and "may_add (heap s) (files s) ids" and "addActivityHashes I ids s = (r, t)"
  shows "add_effect s (set ids) t" and "r = Inr n \<Longrightarrow> set ids \<subseteq> stored_hashes (files t)"
    and "r = Inr n \<Longrightarrow> n = card (set ids - stored_hashes (files s))"
proof -
  have wp: "wp (addActivityHashes I ids)
    (\<lambda>n t. add_effect s (set ids) t \<and> set ids \<subseteq> stored_hashes (files t) \<and> n = card (set ids - stored_hashes (files s)))
    (\<lambda>_ t. add_effect s (set ids) t) s"
    using assms(1,2) by (intro wp_addActivityHashes) (auto simp: may_add_def)
  show "add_effect s (set ids) t"
    using wp assms(3) by (cases r) (auto dest: wp_runD_ok wp_runD_err)
  show "r = Inr n \<Longrightarrow> set ids \<subseteq> stored_hashes (files t)"
    using wp assms(3) by (auto dest: wp_runD_ok)
  show "r = Inr n \<Longrightarrow> n = card (set ids - stored_hashes (files s))"
    using wp assms(3) by (auto dest: wp_runD_ok)
qed

lemma snapshot_same: "activitySnapshot I s = (r, t) \<Longrightarrow> files t = files s \<and> heap t = heap s"
proof -
  have "within asks (activitySnapshot I)"
    unfolding activitySnapshot_def by (intro eff_intros asks.eff_andthen asks.eff_ret)
  then show "activitySnapshot I s = (r, t) \<Longrightarrow> files t = files s \<and> heap t = heap s" by (auto dest: asks_same)
qed

lemma rebuild_files: "rebuild_index I p s = (r, t) \<Longrightarrow> files t = files s"
proof -
  obtain paths active g where p: "p = (paths, active, g)" by (cases p)
  have "within local_only (rebuild_index I p)"
    unfolding p rebuild_index_def prod.case Let_def
    by (intro local_only.eff_andthen local_only.eff_seq local_only.eff_ret local_set_heap asks_local asks_archives)
  then show "rebuild_index I p s = (r, t) \<Longrightarrow> files t = files s"
    by (auto dest!: withinD simp: local_only_def)
qed

lemma activity_step_keeps:
  assumes "clock_ok I" and "activity_step I c c'"
  shows "stored_hashes (files (fst c)) \<subseteq> stored_hashes (files (fst c'))"
  using assms(2)
proof cases
  case (Snapshot s p t)
  then show ?thesis by (auto dest: snapshot_same)
next
  case (Rebuild p s r t)
  then show ?thesis by (auto dest: rebuild_files)
next
  case (Add s ids r t q)
  from add_run(1) [OF assms(1) Add(3,4)] Add(1,2) show ?thesis by (simp add: add_effect_def index_grows_def)
next
  case (Other s t q)
  then show ?thesis using stored_same [of "files t" "files s"] by (auto simp: unrelated_def)
next
  case (Restart t s q)
  then show ?thesis by simp
qed

lemma activity_run_keeps:
  assumes "clock_ok I" and "activity_run I c c'"
  shows "stored_hashes (files (fst c)) \<subseteq> stored_hashes (files (fst c'))"
  using assms(2) unfolding activity_run_def
  by (induction rule: rtranclp_induct) (use activity_step_keeps [OF assms(1)] in blast)+

text \<open>
  C11: No activity hash is lost.  Whatever is added, read, compacted into archives, written by
  other components or restarted, and whichever system call fails on the way, every hash that
  the files of the index held before the run, and every hash whose addition was reported as
  done in the middle of it, is in the files after it.
\<close>

theorem activity_never_loses:
  assumes "clock_ok I"
    and "activity_run I c (s, p)" and "may_add (heap s) (files s) ids"
    and "addActivityHashes I ids s = (Inr n, t)" and "activity_run I (t, q) c'"
  shows "stored_hashes (files (fst c)) \<union> set ids \<subseteq> stored_hashes (files (fst c'))"
proof -
  have "stored_hashes (files (fst c)) \<subseteq> stored_hashes (files s)"
    using activity_run_keeps [OF assms(1,2)] by simp
  moreover have "stored_hashes (files s) \<union> set ids \<subseteq> stored_hashes (files t)"
    using add_run(1,2) [OF assms(1,3,4)] by (auto simp: add_effect_def index_grows_def)
  moreover have "stored_hashes (files t) \<subseteq> stored_hashes (files (fst c'))"
    using activity_run_keeps [OF assms(1,5)] by simp
  ultimately show ?thesis by blast
qed

section \<open>The index in memory\<close>

definition coherent :: "('w, 'h) activity_config \<Rightarrow> bool" where
  "coherent c \<longleftrightarrow>
     (let s = fst c; g = ah_generation (heap s) in
      (\<forall>ix. ah_index (heap s) = Some ix \<longrightarrow>
         unat (ai_generation ix) \<le> unat g \<and> ai_seen ix = ai_ids ix \<and>
         (ai_generation ix = g \<longrightarrow> reference_index (files s) = Inr (ai_ids ix))) \<and>
      (\<forall>paths active g'. snd c = Some (paths, active, g') \<longrightarrow>
         unat g' \<le> unat g \<and>
         (g' = g \<longrightarrow> paths = archives_of (files s) \<and> content (files s) active_path = Inr active)))"

lemma emap_cong: "(\<And>x. x \<in> set xs \<Longrightarrow> f x = g x) \<Longrightarrow> emap f xs = emap g xs"
  by (induction xs) auto

lemma reference_cong:
  assumes "archives_of fs' = archives_of fs" and "\<And>p. indexed p \<Longrightarrow> map_of fs' p = map_of fs p"
  shows "reference_index fs' = reference_index fs"
proof -
  have "content fs' p = content fs p" if "indexed p" for p using assms(2) [OF that] by (rule content_same)
  then have "emap (content fs') (archives_of fs) = emap (content fs) (archives_of fs)"
      "content fs' active_path = content fs active_path"
    by (auto simp: indexed_def archives_of_def intro!: emap_cong)
  with assms(1) show ?thesis by (simp add: reference_index_def archived_ids_def)
qed

lemma rebuild_run:
  assumes "rebuild_index I (paths, active, g) s = (r, t)"
  shows "heap t = heap s \<or>
    (\<exists>archived. archived_ids (files s) paths = Inr archived \<and>
       r = Inr \<lparr> ai_generation = g, ai_ids = archived @ dedup archived active, ai_seen = archived @ dedup archived active \<rparr> \<and>
       heap t = (heap s)\<lparr> ah_index := Some \<lparr> ai_generation = g, ai_ids = archived @ dedup archived active,
          ai_seen = archived @ dedup archived active \<rparr> \<rparr>)"
proof -
  obtain a u where u: "read_archives I paths s = (a, u)" by force
  note same = asks_same [OF asks_archives u]
  show ?thesis
  proof (cases a)
    case (Inl e)
    with assms u same show ?thesis by (auto simp: rebuild_index_def run_simps)
  next
    case (Inr archived)
    with assms u same read_archives_value [of I paths s archived u] show ?thesis
      by (auto simp: rebuild_index_def run_simps Let_def)
  qed
qed

lemma truncate_fields:
  assumes "activity_heap.truncate h' = activity_heap.truncate h"
  shows "ah_generation h' = ah_generation h" and "ah_index h' = ah_index h"
  using assms by (auto simp: activity_heap.truncate_def)

lemma unat_Suc: "unat (g :: 64 word) + 1 < 2 ^ 64 \<Longrightarrow> unat (g + 1) = unat g + 1"
  by (simp add: unat_word_ariths)

lemma activity_step_coherent:
  assumes "clock_ok I" and "activity_step I c c'" and ok: "coherent c"
  shows "coherent c'"
  using assms(2)
proof cases
  case (Snapshot s p t)
  obtain paths active g where p: "p = (paths, active, g)" by (cases p)
  from Snapshot(4) p obtain u v where u: "activityArchivePaths I s = (Inr paths, u)"
    and v: "readActivityFile I active_path u = (Inr active, v)" and g: "g = ah_generation (heap v)"
    by (auto simp: activitySnapshot_def ok_simps get_heap_def)
  note us = asks_same [OF asks_paths u] and vs = asks_same [OF asks_read v]
  have "paths = archives_of (files s)" "content (files s) active_path = Inr active" "g = ah_generation (heap s)"
    using activityArchivePaths_value [OF u] readActivityFile_value [OF v] g us vs by simp_all
  with ok Snapshot(1,2) p snapshot_same [OF Snapshot(4)] show ?thesis by (simp add: coherent_def Let_def)
next
  case (Rebuild p s r t)
  obtain paths active g where p: "p = (paths, active, g)" by (cases p)
  from ok Rebuild(1) p have pend: "unat g \<le> unat (ah_generation (heap s))"
      "g = ah_generation (heap s) \<Longrightarrow> paths = archives_of (files s) \<and> content (files s) active_path = Inr active"
    by (auto simp: coherent_def Let_def)
  from rebuild_run [OF Rebuild(3) [unfolded p]] show ?thesis
    using ok pend Rebuild(1,2) rebuild_files [OF Rebuild(3)]
    by (auto simp: coherent_def Let_def reference_index_def)
next
  case (Add s ids r t q)
  from add_run(1) [OF assms(1) Add(3,4)] consider
      "files t = files s" "heap t = heap s"
    | z where "heap t = (heap s)\<lparr> ah_generation := ah_generation (heap s) + 1, ah_lastArchiveNano := z \<rparr>"
    by (auto simp: add_effect_def)
  then show ?thesis
  proof cases
    case 1
    with ok Add(1,2) show ?thesis by (simp add: coherent_def)
  next
    case 2
    have "unat (ah_generation (heap s) + 1) = unat (ah_generation (heap s)) + 1"
      using Add(3) unfolding may_add_def by (intro unat_Suc) simp
    with 2 ok Add(1,2) show ?thesis by (fastforce simp: coherent_def Let_def)
  qed
next
  case (Other s t q)
  then have same: "archives_of (files t) = archives_of (files s)"
      "\<And>p. indexed p \<Longrightarrow> map_of (files t) p = map_of (files s) p"
      "activity_heap.truncate (heap t) = activity_heap.truncate (heap s)"
    by (simp_all add: unrelated_def)
  have "content (files t) active_path = content (files s) active_path"
    by (rule content_same) (simp add: same(2) indexed_def)
  with same(1) reference_cong [OF same(1,2)] ok Other(1,2) truncate_fields [OF same(3)]
  show ?thesis by (simp add: coherent_def)
next
  case (Restart t s q)
  then show ?thesis by (simp add: coherent_def)
qed

lemma activity_run_coherent:
  assumes "clock_ok I" and "activity_run I c c'" and "coherent c"
  shows "coherent c'"
  using assms(2,3) unfolding activity_run_def
  by (induction rule: rtranclp_induct) (use activity_step_coherent [OF assms(1)] in blast)+

lemma reference_set:
  assumes "reference_index fs = Inr ids"
  shows "distinct ids" and "set ids = stored_hashes fs"
proof -
  from assms obtain archived active where archived: "archived_ids fs (archives_of fs) = Inr archived"
    and active: "content fs active_path = Inr active" and ids: "ids = archived @ dedup archived active"
    by (auto simp: reference_index_def ebind_eq_Inr)
  show "distinct ids" using archived_ids_set(1) [OF archived] by (auto simp: ids distinct_dedup set_dedup)
  have "stored_hashes fs = set archived \<union> set active"
    by (rule combined_facts(1) [OF archived active, of "[]"]) simp
  then show "set ids = stored_hashes fs" by (auto simp: ids set_dedup)
qed

text \<open>
  C13: The index that is served is the one the files hold.  However readers, writers and
  restarts have interleaved since a start without an index, when loadActivityIndex returns
  an index, from its copy in memory or rebuilt, it lists each hash of the active file and the
  archives exactly once, in the order in which a reader of all the files would list them.
\<close>

theorem index_matches_files:
  assumes "clock_ok I" and "ah_index (heap s0) = None" and "activity_run I (s0, None) (s, q)"
    and "loadActivityIndex I s = (Inr ix, t)"
  shows "reference_index (files s) = Inr (ai_ids ix) \<and> ai_seen ix = ai_ids ix \<and>
    distinct (ai_ids ix) \<and> set (ai_ids ix) = stored_hashes (files s) \<and> files t = files s"
proof -
  have "coherent (s0, None)" using assms(2) by (simp add: coherent_def)
  with activity_run_coherent [OF assms(1,3)] have ok: "coherent (s, q)" .
  have ref: "reference_index (files s) = Inr (ai_ids ix) \<and> ai_seen ix = ai_ids ix \<and> files t = files s"
  proof (cases "cached_index (heap s)")
    case (Some ix')
    with assms(4) have "ix' = ix" "t = s" by (simp_all add: loadActivityIndex_def run_simps)
    with Some ok show ?thesis by (auto simp: coherent_def Let_def cached_index_def split: option.splits if_splits)
  next
    case None
    with assms(4) obtain p u where u: "activitySnapshot I s = (Inr p, u)" and rebuilt: "rebuild_index I p u = (Inr ix, t)"
      by (auto simp: loadActivityIndex_def run_simps split: prod.splits sum.splits)
    obtain paths active g where p: "p = (paths, active, g)" by (cases p)
    from u p obtain v where v: "activityArchivePaths I s = (Inr paths, v)"
      and w: "readActivityFile I active_path v = (Inr active, u)"
      by (auto simp: activitySnapshot_def ok_simps get_heap_def)
    have paths: "paths = archives_of (files s)" "content (files s) active_path = Inr active" "files u = files s"
      using activityArchivePaths_value [OF v] readActivityFile_value [OF w] asks_same [OF asks_paths v]
        asks_same [OF asks_read w] by simp_all
    from rebuilt p obtain archived u' where "read_archives I paths u = (Inr archived, u')"
      and "ix = \<lparr> ai_generation = g, ai_ids = archived @ dedup archived active, ai_seen = archived @ dedup archived active \<rparr>"
      by (auto simp: rebuild_index_def ok_simps Let_def)
    then show ?thesis using paths rebuild_files [OF rebuilt] by (auto simp: reference_index_def dest: read_archives_value)
  qed
  with reference_set [of "files s" "ai_ids ix"] show ?thesis by blast
qed

section \<open>The operations are steps\<close>

lemma run_refl: "activity_run I c c"
  by (simp add: activity_run_def)

lemma run_trans: "activity_run I c d \<Longrightarrow> activity_run I d e \<Longrightarrow> activity_run I c e"
  by (simp add: activity_run_def)

lemma run_step: "activity_step I c d \<Longrightarrow> activity_run I c d"
  unfolding activity_run_def by (rule r_into_rtranclp)

lemma activity_asks:
  assumes "within asks m" and "m s = (r, t)"
  shows "activity_run I (s, q) (t, q)"
  by (intro run_step activity_step.Other) (use asks_same [OF assms] in \<open>auto simp: unrelated_def\<close>)

lemma asks_own_address [eff_intros]: "within asks (own_address V)"
  unfolding own_address_def by (intro eff_intros asks.eff_andthen asks.eff_ret)

lemma asks_fetch_rows [eff_intros]: "within asks (fetch_rows V owner hashes)"
  unfolding fetch_rows_def by (intro eff_intros asks.eff_for_each asks.eff_andthen asks.eff_attempt asks.eff_ret)

text \<open>A body that asks first and then does what is a run.\<close>

lemma activity_andthen_asks:
  assumes "within asks m" and "andthen m f s = (r, t)"
    and "\<And>x u r t. m s = (Inr x, u) \<Longrightarrow> f x u = (r, t) \<Longrightarrow> activity_run I (u, q) (t, q)"
  shows "activity_run I (s, q) (t, q)"
proof -
  obtain x u where u: "m s = (x, u)" by force
  show ?thesis
  proof (cases x)
    case (Inl e)
    with assms(2) u have "m s = (Inl e, t)" by (simp add: run_simps)
    then show ?thesis by (rule activity_asks [OF assms(1)])
  next
    case (Inr y)
    with assms(2) u have "f y u = (r, t)" by (simp add: run_simps)
    with assms(3) u Inr activity_asks [OF assms(1) u] run_trans show ?thesis by blast
  qed
qed

text \<open>A run followed by a body that asks.\<close>

lemma activity_then_asks:
  assumes "\<And>r u. m s = (r, u) \<Longrightarrow> activity_run I (s, q) (u, q)" and "\<And>x. within asks (f x)" and "andthen m f s = (r, t)"
  shows "activity_run I (s, q) (t, q)"
proof -
  obtain x u where u: "m s = (x, u)" by force
  show ?thesis
  proof (cases x)
    case (Inl e)
    with assms(3) u have "t = u" by (simp add: run_simps)
    with assms(1) [OF u] show ?thesis by simp
  next
    case (Inr y)
    with assms(3) u have "f y u = (r, t)" by (simp add: run_simps)
    with assms(1) [OF u] activity_asks [OF assms(2)] run_trans show ?thesis by blast
  qed
qed

lemma loadActivityIndex_run:
  assumes "loadActivityIndex I s = (r, t)"
  shows "activity_run I (s, None) (t, None)"
proof (cases "cached_index (heap s)")
  case (Some ix)
  with assms show ?thesis by (simp add: loadActivityIndex_def run_simps run_refl)
next
  case None
  have asks: "within asks (activitySnapshot I)"
    unfolding activitySnapshot_def by (intro eff_intros asks.eff_andthen asks.eff_ret)
  obtain p u where u: "activitySnapshot I s = (p, u)" by force
  show ?thesis
  proof (cases p)
    case (Inl e)
    with assms None u have "t = u" by (simp add: loadActivityIndex_def run_simps)
    with activity_asks [OF asks u] show ?thesis by simp
  next
    case (Inr x)
    with assms None u have "rebuild_index I x u = (r, t)" by (simp add: loadActivityIndex_def run_simps)
    with None u Inr show ?thesis
      by (intro run_trans [OF run_step run_step]) (auto intro: activity_step.intros)
  qed
qed

lemma addActivityHashes_run:
  "may_add (heap s) (files s) ids \<Longrightarrow> addActivityHashes I ids s = (r, t) \<Longrightarrow> activity_run I (s, q) (t, q)"
  by (intro run_step activity_step.Add)

lemma ImportActivity_run:
  assumes ok: "may_add (heap s) (files s) [[]]" and "ImportActivity V hash s = (r, t)"
  shows "activity_run (ae_os V) (s, q) (t, q)"
proof (rule activity_andthen_asks [OF asks_own_address assms(2) [unfolded ImportActivity_def]])
  fix owner u r t
  assume u: "own_address V s = (Inr owner, u)"
    and run: "andthen (on_world (ae_Activity V hash owner (HexToAddress (ae_eth V) (ae_Vault V)))) (\<lambda>result.
     andthen (lift (chainActivityToDomain (ae_eth V) (Some result))) (\<lambda>domain.
     fail_if (\<not> settled domain) (ErrNew ''no valid receipt yet'')
    (seq (addActivityHashes (ae_os V) [wa_hash domain]) (ret result)))) u = (r, t)"
  show "activity_run (ae_os V) (u, q) (t, q)"
  proof (rule activity_andthen_asks [OF asks_on_world run])
    fix result v r t
    assume v: "on_world (ae_Activity V hash owner (HexToAddress (ae_eth V) (ae_Vault V))) u = (Inr result, v)"
      and run: "andthen (lift (chainActivityToDomain (ae_eth V) (Some result))) (\<lambda>domain.
     fail_if (\<not> settled domain) (ErrNew ''no valid receipt yet'')
    (seq (addActivityHashes (ae_os V) [wa_hash domain]) (ret result))) v = (r, t)"
    have may: "may_add (heap v) (files v) [h]" for h
      using asks_same [OF asks_on_world v] asks_same [OF asks_own_address u] ok by (simp add: may_add_def)
    show "activity_run (ae_os V) (v, q) (t, q)"
    proof (rule activity_andthen_asks [OF asks.eff_lift run])
      fix domain w r t
      assume w: "lift (chainActivityToDomain (ae_eth V) (Some result)) v = (Inr domain, w)"
        and run: "fail_if (\<not> settled domain) (ErrNew ''no valid receipt yet'')
          (seq (addActivityHashes (ae_os V) [wa_hash domain]) (ret result)) w = (r, t)"
      have w: "w = v" using w by (simp add: run_simps)
      show "activity_run (ae_os V) (w, q) (t, q)"
      proof (cases "settled domain")
        case False
        with run show ?thesis by (simp add: run_simps run_refl)
      next
        case True
        with run have run: "andthen (addActivityHashes (ae_os V) [wa_hash domain]) (\<lambda>_. ret result) w = (r, t)"
          by (simp add: fail_if_def seq_def)
        show ?thesis
          by (rule activity_then_asks [OF addActivityHashes_run asks.eff_ret run]) (use may w in simp_all)
      qed
    qed
  qed
qed

text \<open>Discovery hands over fewer hashes than memory could hold.\<close>

definition discovers_few :: "('k, 'w) aenv \<Rightarrow> bool" where
  "discovers_few V \<longleftrightarrow>
     (\<forall>owner first addresses w ids start stop w'.
        ae_Discover V owner first addresses w = (Inr (ids, start, stop), w') \<longrightarrow> length ids < 2 ^ 60)"

lemma SyncActivity_run:
  assumes ok: "may_add (heap s) (files s) []" and few: "discovers_few V" and "SyncActivity V first contracts s = (r, t)"
  shows "activity_run (ae_os V) (s, q) (t, q)"
proof (rule activity_andthen_asks [OF asks_own_address assms(3) [unfolded SyncActivity_def]])
  fix owner u r t
  let ?body = "\<lambda>addresses. andthen (on_world (ae_Discover V owner first addresses)) (\<lambda>(ids, start, stop).
     andthen (addActivityHashes (ae_os V) ids) (\<lambda>count. ret \<lparr> sr_From = start, sr_To = stop, sr_Added = count \<rparr>))"
  assume u: "own_address V s = (Inr owner, u)"
    and run: "fail_if (20 < length contracts) (ErrNew ''at most twenty contracts'')
      (andthen (lift (emap (ValidateAddress (ae_eth V)) contracts)) ?body) u = (r, t)"
  have discovered: "activity_run (ae_os V) (u, q) (t, q)" if run: "?body addresses u = (r, t)" for addresses r t
  proof (rule activity_andthen_asks [OF asks_on_world run])
    fix x v r t
    assume v: "on_world (ae_Discover V owner first addresses) u = (Inr x, v)"
      and run: "(case x of (ids, start, stop) \<Rightarrow> andthen (addActivityHashes (ae_os V) ids)
         (\<lambda>count. ret \<lparr> sr_From = start, sr_To = stop, sr_Added = count \<rparr>)) v = (r, t)"
    obtain ids start stop where x: "x = (ids, start, stop)" by (cases x)
    obtain w' where "ae_Discover V owner first addresses (world u) = (Inr (ids, start, stop), w')"
      using v unfolding x on_world_def by (auto split: prod.splits)
    then have "length ids < 2 ^ 60" using few unfolding discovers_few_def by blast
    then have may: "may_add (heap v) (files v) ids"
      using asks_same [OF asks_on_world v] asks_same [OF asks_own_address u] ok by (simp add: may_add_def)
    from run x have run: "andthen (addActivityHashes (ae_os V) ids)
        (\<lambda>count. ret \<lparr> sr_From = start, sr_To = stop, sr_Added = count \<rparr>) v = (r, t)" by simp
    show "activity_run (ae_os V) (v, q) (t, q)"
      by (rule activity_then_asks [OF addActivityHashes_run [OF may] asks.eff_ret run])
  qed
  from run show "activity_run (ae_os V) (u, q) (t, q)"
    by (cases "emap (ValidateAddress (ae_eth V)) contracts")
      (auto simp: run_fail_if run_andthen [of "lift _"] run_lift run_refl intro: discovered split: if_splits)
qed

lemma ActivityPage_run:
  assumes "ActivityPage V history page s = (r, t)"
  shows "activity_run (ae_os V) (s, None) (t, None)"
proof (cases "page < 1")
  case True
  with assms show ?thesis by (simp add: ActivityPage_def run_simps run_refl)
next
  case False
  let ?rest = "\<lambda>owner activity.
       let extra = journal_extra (ai_seen activity) history;
           n = length (ai_ids activity) + length extra;
           pages = page_count n in
       fail_if (int pages < page) (ErrNew ''page out of range'')
      (andthen (fetch_rows V owner (page_hashes (ai_ids activity) extra (nat page))) (\<lambda>rows.
       andthen (lift (page_sums (ae_eth V) rows (False, []))) (\<lambda>(incomplete, sums).
         ret \<lparr> ap_ChainID = ae_ChainID V, ap_Transactions = rows, ap_Totals = totals_of sums, ap_Page = page,
               ap_Pages = int pages, ap_TotalTransactions = n, ap_Incomplete = incomplete \<rparr>)))"
  have rest: "within asks (?rest owner activity)" for owner activity
    by (intro eff_intros asks.eff_let asks.eff_fail_if asks.eff_andthen asks.eff_lift asks.eff_prod asks.eff_ret)
  from assms False have "andthen (own_address V) (\<lambda>owner. andthen (loadActivityIndex (ae_os V)) (?rest owner)) s = (r, t)"
    by (simp add: ActivityPage_def run_fail_if)
  then show ?thesis
  proof (rule activity_andthen_asks [OF asks_own_address])
    fix owner u r t
    assume run: "andthen (loadActivityIndex (ae_os V)) (?rest owner) u = (r, t)"
    show "activity_run (ae_os V) (u, None) (t, None)"
      by (rule activity_then_asks [OF loadActivityIndex_run rest run])
  qed
qed

section \<open>Pages\<close>

lemma slice_nth: "map (\<lambda>i. xs ! i) [k..<min (k + 20) (length xs)] = take 20 (drop k xs)"
  by (rule nth_equalityI) (simp_all add: less_diff_conv add.commute [of _ k])

lemma page_hashes_slice: "page_hashes ids extra page = take 20 (drop ((page - 1) * 20) (rev (ids @ extra)))"
proof -
  let ?n = "length ids + length extra" and ?first = "(page - 1) * 20"
  define xs where "xs = rev (ids @ extra)"
  have n: "length xs = ?n" by (simp add: xs_def)
  have at: "(let position = ?n - 1 - i in if position < length ids then ids ! position else extra ! (position - length ids)) = xs ! i"
    if "i < ?n" for i
  proof -
    have "xs ! i = (ids @ extra) ! (?n - 1 - i)" using that by (simp add: xs_def rev_nth del: rev_append)
    then show ?thesis by (simp add: nth_append Let_def)
  qed
  have "page_hashes ids extra page = map (\<lambda>i. xs ! i) [?first..<min (?first + 20) ?n]"
    unfolding page_hashes_def Let_def [of "?n"] Let_def [of ?first] by (rule map_cong) (use at in auto)
  then show ?thesis unfolding n [symmetric] slice_nth by (simp only: xs_def)
qed

lemma concat_slices:
  "concat (map (\<lambda>k. take 20 (drop (k * 20) xs)) [0..<n]) = take (n * 20) xs"
proof (induction n)
  case (Suc n)
  have "take (Suc n * 20) xs = take (n * 20) xs @ take 20 (drop (n * 20) xs)"
    by (metis add.commute mult_Suc take_add)
  with Suc show ?case by simp
qed simp

lemma concat_pages:
  "concat (map (page_hashes ids extra) [1..<Suc (page_count (length ids + length extra))]) = rev (ids @ extra)"
proof -
  define xs where "xs = rev (ids @ extra)"
  let ?c = "page_count (length ids + length extra)"
  have enough: "length xs \<le> ?c * 20" unfolding page_count_def by (simp add: xs_def; linarith)
  have "page_hashes ids extra = (\<lambda>p. take 20 (drop ((p - 1) * 20) xs))"
    by (rule ext) (simp only: page_hashes_slice xs_def)
  then have "map (page_hashes ids extra) [1..<Suc ?c] = map (\<lambda>k. take 20 (drop (k * 20) xs)) [0..<?c]"
    by (intro nth_equalityI) (auto simp del: upt_Suc)
  then show ?thesis unfolding xs_def [symmetric] using enough by (simp only: concat_slices) simp
qed

lemma fetch_rows_length: "fetch_rows V owner hashes s = (Inr rows, t) \<Longrightarrow> length rows = length hashes"
proof -
  have "for_each hashes (\<lambda>hash rows.
       andthen (attempt (on_world (ae_Activity V hash owner (HexToAddress (ae_eth V) (ae_Vault V))))) (\<lambda>r.
         ret (rows @ [case r of Inl e \<Rightarrow> unverified_row hash e | Inr item \<Rightarrow> item]))) acc s = (Inr rows, t) \<Longrightarrow>
     length rows = length acc + length hashes" for acc s
    by (induction hashes arbitrary: acc s) (auto simp: ok_simps)
  then show "fetch_rows V owner hashes s = (Inr rows, t) \<Longrightarrow> length rows = length hashes"
    by (force simp: fetch_rows_def)
qed

text \<open>
  The pages show everything once.  A page that is returned is one of the pages announced;
  the rows of all of them, one after the other, are the hashes of the index followed by those
  only the journal has, the last added first; and this page has a row for each of its hashes,
  also for one whose evidence could not be fetched.
\<close>

theorem pages_partition:
  assumes "ActivityPage V history page s = (Inr a, t)"
  shows "\<exists>owner ix d e extra. own_address V s = (Inr owner, d) \<and> loadActivityIndex (ae_os V) d = (Inr ix, e) \<and> extra = journal_extra (ai_seen ix) history \<and>
    1 \<le> page \<and> page \<le> ap_Pages a \<and> ap_TotalTransactions a = length (ai_ids ix @ extra) \<and>
    concat (map (page_hashes (ai_ids ix) extra) [1..<Suc (nat (ap_Pages a))]) = rev (ai_ids ix @ extra) \<and>
    length (ap_Transactions a) = length (page_hashes (ai_ids ix) extra (nat page)) \<and> length (ap_Transactions a) \<le> 20"
proof -
  let ?extra = "\<lambda>ix. journal_extra (ai_seen ix) history"
  let ?n = "\<lambda>ix. length (ai_ids ix) + length (?extra ix)"
  from assms obtain owner d ix e rows v xc uc where page: "\<not> page < 1"
    and own: "own_address V s = (Inr owner, d)" and load: "loadActivityIndex (ae_os V) d = (Inr ix, e)"
    and page': "\<not> int (page_count (?n ix)) < page"
    and rows: "fetch_rows V owner (page_hashes (ai_ids ix) (?extra ix) (nat page)) e = (Inr rows, v)"
    and last: "(case xc of (incomplete, sums) \<Rightarrow>
         ret \<lparr> ap_ChainID = ae_ChainID V, ap_Transactions = rows, ap_Totals = totals_of sums, ap_Page = page,
               ap_Pages = int (page_count (?n ix)), ap_TotalTransactions = ?n ix, ap_Incomplete = incomplete \<rparr>) uc
      = (Inr a :: err + ActivityResponse, t)"
    unfolding ActivityPage_def Let_def by (elim exE conjE iffD1 [OF ok_fail_if, THEN conjE] iffD1 [OF ok_andthen, THEN exE])
      (rule that, assumption+)
  have a: "ap_Transactions a = rows" "ap_TotalTransactions a = ?n ix" "ap_Pages a = int (page_count (?n ix))"
    using last by (cases xc; simp add: run_ret; fastforce)+
  have "length rows = length (page_hashes (ai_ids ix) (journal_extra (ai_seen ix) history) (nat page))"
    by (rule fetch_rows_length [OF rows])
  moreover have "length (page_hashes (ai_ids ix) (journal_extra (ai_seen ix) history) (nat page)) \<le> 20"
    unfolding page_hashes_slice length_take by (rule min.cobounded2)
  ultimately have "own_address V s = (Inr owner, d) \<and> loadActivityIndex (ae_os V) d = (Inr ix, e) \<and>
    ?extra ix = journal_extra (ai_seen ix) history \<and>
    1 \<le> page \<and> page \<le> ap_Pages a \<and> ap_TotalTransactions a = length (ai_ids ix @ ?extra ix) \<and>
    concat (map (page_hashes (ai_ids ix) (?extra ix)) [1..<Suc (nat (ap_Pages a))]) = rev (ai_ids ix @ ?extra ix) \<and>
    length (ap_Transactions a) = length (page_hashes (ai_ids ix) (?extra ix) (nat page)) \<and> length (ap_Transactions a) \<le> 20"
    using own load page page' a concat_pages [of "ai_ids ix" "?extra ix"] by (simp del: upt_Suc)
  then show ?thesis by (intro exI)
qed

end
