(* ===== verification/Scanner.thy ===== *)
theory Scanner
  imports ActivityRun Journal
begin

text \<open>
  internal/wallet/scanner.go: the scan of finalized blocks.  Its progress is a file of the
  wallet directory; a scan reads it under the lock, asks the chain without the lock, and takes
  the lock again to store what it found, unless the settings have changed in the meantime.
  RunMaintenance repeats it, with a growing pause after errors.
\<close>

section \<open>Progress\<close>

record ScanProgress =
  pg_Enabled :: bool
  pg_Start :: "64 word"
  pg_Next :: "64 word"
  pg_Finalized :: "64 word"
  pg_Tokens :: "string list option"
  pg_Error :: string
  pg_UpdatedAt :: time

record scanState =
  ss_ExplicitStart :: bool
  ss_Enabled :: bool
  ss_Start :: "64 word"
  ss_Next :: "64 word"
  ss_Finalized :: "64 word"
  ss_Tokens :: "string list option"
  ss_Error :: string
  ss_UpdatedAt :: time

definition scanProgressResponse :: "scanState \<Rightarrow> ScanProgress" where
  "scanProgressResponse state =
     \<lparr> pg_Enabled = ss_Enabled state, pg_Start = ss_Start state, pg_Next = ss_Next state,
       pg_Finalized = ss_Finalized state, pg_Tokens = ss_Tokens state, pg_Error = ss_Error state,
       pg_UpdatedAt = ss_UpdatedAt state \<rparr>"

definition token_ok :: "('k, 'm) ethlib_scheme \<Rightarrow> string \<Rightarrow> bool" where
  "token_ok E token \<longleftrightarrow> IsHexAddress E token \<and> HexToAddress E token \<noteq> 0"

definition scanProgressFromDisk :: "('k, 'm) ethlib_scheme \<Rightarrow> scanProgressDisk \<Rightarrow> err + scanState" where
  "scanProgressFromDisk E stored =
     (let tokens = (case sd_Tokens stored of None \<Rightarrow> [] | Some ts \<Rightarrow> ts) in
      if 200 < length tokens then Inl (ErrNew ''too many tokens'')
      else if \<not> list_all (token_ok E) tokens then Inl (ErrNew ''invalid token address'')
      else Inr \<lparr> ss_ExplicitStart = sd_ExplicitStart stored, ss_Enabled = sd_Enabled stored, ss_Start = sd_Start stored,
                 ss_Next = sd_Next stored, ss_Finalized = sd_Finalized stored, ss_Tokens = sd_Tokens stored,
                 ss_Error = sd_Error stored, ss_UpdatedAt = sd_UpdatedAt stored \<rparr>)"

definition scanProgressToDisk :: "scanState \<Rightarrow> scanProgressDisk" where
  "scanProgressToDisk state =
     \<lparr> sd_ExplicitStart = ss_ExplicitStart state, sd_Enabled = ss_Enabled state, sd_Start = ss_Start state,
       sd_Next = ss_Next state, sd_Finalized = ss_Finalized state, sd_Tokens = ss_Tokens state,
       sd_Error = ss_Error state, sd_UpdatedAt = ss_UpdatedAt state \<rparr>"

definition no_progress :: scanState where
  "no_progress =
     \<lparr> ss_ExplicitStart = False, ss_Enabled = False, ss_Start = 0, ss_Next = 0, ss_Finalized = 0,
       ss_Tokens = Some [], ss_Error = [], ss_UpdatedAt = zero_time \<rparr>"

definition scan_path :: string where
  "scan_path = ''scan.json''"

text \<open>The struct a file is decoded into; \<^verbatim>\<open>null\<close> leaves it at its zero value.\<close>

definition progress_in :: "afile \<Rightarrow> scanProgressDisk option" where
  "progress_in f =
     (case f of
        Progress d \<Rightarrow> Some d
      | Ids _ None \<Rightarrow> Some (scanProgressToDisk (no_progress\<lparr> ss_Tokens := None \<rparr>))
      | _ \<Rightarrow> None)"

record scan_heap = activity_heap +
  sc_generation :: "64 word"
  sc_backoffUntil :: time
  sc_backoffDuration :: int
  sc_backoffInitial :: int

type_synonym ('w, 'h, 'a) scact = "('w, afile, 'h scan_heap_scheme, 'a) act"

definition scanProgress :: "('k, 'w) aenv \<Rightarrow> ('w, 'h, scanState) scact" where
  "scanProgress V =
     andthen (ReadFile (ae_os V) scan_path) (\<lambda>data.
       case data of
         None \<Rightarrow> ret no_progress
       | Some f \<Rightarrow> (case progress_in f of
                     None \<Rightarrow> throw (ErrNew ''progress file format'')
                   | Some stored \<Rightarrow> lift (scanProgressFromDisk (ae_eth V) stored)))"

definition ScanProgressOf :: "('k, 'w) aenv \<Rightarrow> ('w, 'h, ScanProgress) scact" where
  "ScanProgressOf V = andthen (scanProgress V) (\<lambda>state. ret (scanProgressResponse state))"

text \<open>Marshalling fails for a time that JSON cannot hold and for nothing else.\<close>

definition save_progress :: "('k, 'w) aenv \<Rightarrow> scanState \<Rightarrow> ('w, 'h, unit) scact" where
  "save_progress V state =
     andthen (lift (if json_time (ss_UpdatedAt state) then Inr (Progress (scanProgressToDisk state))
                    else Inl (ErrExt ''json: year outside of range'')))
       (\<lambda>data. atomicWriteFile (ae_os V) scan_path data)"

definition ConfigureScan :: "('k, 'w) aenv \<Rightarrow> bool \<Rightarrow> 64 word option \<Rightarrow> ('w, 'h, ScanProgress) scact" where
  "ConfigureScan V enabled start =
     seq (set_heap (\<lambda>h. h\<lparr> sc_generation := sc_generation h + 1, sc_backoffUntil := zero_time, sc_backoffDuration := 0 \<rparr>))
    (andthen (scanProgress V) (\<lambda>state.
       let state = (case start of None \<Rightarrow> state
                    | Some n \<Rightarrow> state\<lparr> ss_ExplicitStart := True, ss_Start := n, ss_Next := n \<rparr>);
           state = state\<lparr> ss_Enabled := enabled, ss_Error := [] \<rparr> in
       seq (save_progress V state) (ret (scanProgressResponse state))))"

section \<open>ScanOnce\<close>

text \<open>Under the lock: the progress, the address and the generation of the settings.\<close>

definition scan_begin :: "('k, 'w) aenv \<Rightarrow> ('w, 'h, (scanState \<times> address \<times> 64 word) option) scact" where
  "scan_begin V =
     andthen (scanProgress V) (\<lambda>state.
       if \<not> ss_Enabled state then ret None
       else andthen (own_address V) (\<lambda>owner.
            andthen (get_heap sc_generation) (\<lambda>generation. ret (Some (state, owner, generation)))))"

text \<open>Files without an explicit start begin with the last twenty blocks.\<close>

definition with_final :: "64 word \<Rightarrow> scanState \<Rightarrow> scanState" where
  "with_final final state =
     (let state = state\<lparr> ss_Finalized := final \<rparr> in
      if ss_Next state = 0 \<and> \<not> ss_ExplicitStart state
      then let first = (if 19 < final then final - 19 else final) in state\<lparr> ss_Next := first, ss_Start := first \<rparr>
      else state)"

text \<open>Without the lock: the finalized head and the next block, if it is final.\<close>

definition scan_fetch ::
    "('k, 'w) aenv \<Rightarrow> scanState \<Rightarrow> address \<Rightarrow> ('w, 'h, scanState \<times> (err + ScannedBlock option)) scact" where
  "scan_fetch V state owner =
     andthen (attempt (on_world (ae_Finalized V))) (\<lambda>r.
       case r of
         Inl e \<Rightarrow> ret (state, Inl e)
       | Inr final \<Rightarrow>
           let state = with_final final state in
           if ss_Next state \<le> final
           then andthen (attempt (on_world (ae_ScanBlock V (ss_Next state) owner))) (\<lambda>b.
                  ret (state, case b of Inl e \<Rightarrow> Inl e | Inr block \<Rightarrow> Inr (Some block)))
           else ret (state, Inr None))"

fun merge_tokens :: "('k, 'm) ethlib_scheme \<Rightarrow> string list \<Rightarrow> string list option \<Rightarrow> err + string list option" where
  "merge_tokens E [] tokens = Inr tokens"
| "merge_tokens E (raw # raws) tokens =
     ebind (ParseEVMAddress E raw) (\<lambda>token.
       let known = (case tokens of None \<Rightarrow> [] | Some ts \<Rightarrow> ts) in
       merge_tokens E raws (if token \<notin> set known \<and> length known < 200 then Some (known @ [token]) else tokens))"

text \<open>What the block adds, before the progress is saved: an error of the index replaces the block.\<close>

definition store_block ::
    "('k, 'w) aenv \<Rightarrow> err + ScannedBlock option \<Rightarrow> ('w, 'h, err + ScannedBlock option) scact" where
  "store_block V res =
     (case res of
        Inr (Some block) \<Rightarrow>
          andthen (attempt (addActivityHashes (ae_os V) (sb_Hashes block))) (\<lambda>r.
            ret (case r of Inl e \<Rightarrow> Inl e | Inr _ \<Rightarrow> Inr (Some block)))
      | _ \<Rightarrow> ret res)"

definition advance :: "('k, 'm) ethlib_scheme \<Rightarrow> err + ScannedBlock option \<Rightarrow> scanState \<Rightarrow> err + scanState" where
  "advance E res state =
     (case res of
        Inr (Some block) \<Rightarrow>
          ebind (merge_tokens E (sb_Tokens block) (ss_Tokens state)) (\<lambda>tokens.
            Inr (state\<lparr> ss_Tokens := tokens, ss_Next := ss_Next state + 1 \<rparr>))
      | _ \<Rightarrow> Inr state)"

text \<open>Under the lock again.\<close>

definition scan_finish ::
    "('k, 'w) aenv \<Rightarrow> 64 word \<Rightarrow> scanState \<Rightarrow> err + ScannedBlock option \<Rightarrow> ('w, 'h, unit) scact" where
  "scan_finish V generation state res =
     andthen (get_heap sc_generation) (\<lambda>current.
       if generation \<noteq> current then ret ()
       else
         andthen (store_block V res) (\<lambda>res.
         andthen (lift (advance (ae_eth V) res state)) (\<lambda>state.
         andthen (now (ae_os V)) (\<lambda>t.
           let state = state\<lparr> ss_Error := (case res of Inl e \<Rightarrow> err_text e | Inr _ \<Rightarrow> []), ss_UpdatedAt := t \<rparr> in
           seq (save_progress V state)
               (case res of Inl e \<Rightarrow> throw e | Inr _ \<Rightarrow> ret ())))))"

definition ScanOnce :: "('k, 'w) aenv \<Rightarrow> ('w, 'h, unit) scact" where
  "ScanOnce V =
     andthen (scan_begin V) (\<lambda>b.
       case b of
         None \<Rightarrow> ret ()
       | Some (state, owner, generation) \<Rightarrow>
           andthen (scan_fetch V state owner) (\<lambda>(state, res). scan_finish V generation state res))"

section \<open>Backoff and RunMaintenance\<close>

definition checkScanBackoff :: "time \<Rightarrow> ('w, 'h, 64 word \<times> bool) scact" where
  "checkScanBackoff t = get_heap (\<lambda>h. (sc_generation h, t < sc_backoffUntil h))"

definition next_backoff :: "'h scan_heap_scheme \<Rightarrow> int" where
  "next_backoff h =
     (let base = (if 0 < sc_backoffInitial h then sc_backoffInitial h else seconds 4) in
      if sc_backoffDuration h = 0 then base else min (int64 (sc_backoffDuration h * 2)) (seconds 60))"

definition recordScanError :: "64 word \<Rightarrow> err option \<Rightarrow> time \<Rightarrow> ('w, 'h, unit) scact" where
  "recordScanError generation e t =
     set_heap (\<lambda>h.
       if generation \<noteq> sc_generation h then h
       else case e of
              None \<Rightarrow> h\<lparr> sc_backoffDuration := 0, sc_backoffUntil := zero_time \<rparr>
            | Some _ \<Rightarrow> h\<lparr> sc_backoffDuration := next_backoff h, sc_backoffUntil := t + next_backoff h \<rparr>)"

text \<open>
  One tick of the loop: the key must exist, History is refreshed when its time has come, and
  a scan runs unless it is held back; the result is the time of the next History and whether
  the loop goes on.  \<open>history\<close> is the operation of the service, \<open>exists\<close> that of the key store.
\<close>

definition maintenance_tick ::
    "('k, 'w) aenv \<Rightarrow> ('w, 'h, bool) scact \<Rightarrow> ('w, 'h, 'x) scact \<Rightarrow> int \<Rightarrow> time \<Rightarrow> ('w, 'h, time \<times> bool) scact" where
  "maintenance_tick V exists history historyInterval nextHistory =
     andthen exists (\<lambda>there.
       if \<not> there then ret (nextHistory, True)
       else
         andthen (now (ae_os V)) (\<lambda>t.
         andthen (if nextHistory \<le> t
                  then andthen (attempt history) (\<lambda>_. andthen (now (ae_os V)) (\<lambda>t. ret (t + historyInterval)))
                  else ret nextHistory) (\<lambda>nextHistory.
         andthen (now (ae_os V)) (\<lambda>t.
         andthen (checkScanBackoff t) (\<lambda>(generation, skip).
           if skip then ret (nextHistory, True)
           else
             andthen (attempt (ScanOnce V)) (\<lambda>r.
             andthen (ctx_err (ae_os V)) (\<lambda>cancelled.
               if cancelled then ret (nextHistory, False)
               else andthen (now (ae_os V)) (\<lambda>t.
                    seq (recordScanError generation (case r of Inl e \<Rightarrow> Some e | Inr _ \<Rightarrow> None) t)
                        (ret (nextHistory, True))))))))))"

text \<open>The first \<open>n\<close> ticks, fewer when the context is cancelled.\<close>

primrec maintenance_ticks ::
    "nat \<Rightarrow> ('k, 'w) aenv \<Rightarrow> ('w, 'h, bool) scact \<Rightarrow> ('w, 'h, 'x) scact \<Rightarrow> int \<Rightarrow> time \<Rightarrow> ('w, 'h, unit) scact" where
  "maintenance_ticks 0 V exists history historyInterval nextHistory = ret ()"
| "maintenance_ticks (Suc n) V exists history historyInterval nextHistory =
     andthen (ctx_err (ae_os V)) (\<lambda>cancelled.
       if cancelled then ret ()
       else andthen (maintenance_tick V exists history historyInterval nextHistory) (\<lambda>(nextHistory, goes_on).
              if \<not> goes_on then ret () else maintenance_ticks n V exists history historyInterval nextHistory))"

definition RunMaintenance ::
    "nat \<Rightarrow> ('k, 'w) aenv \<Rightarrow> ('w, 'h, bool) scact \<Rightarrow> ('w, 'h, 'x) scact \<Rightarrow> int \<Rightarrow> ('w, 'h, unit) scact" where
  "RunMaintenance n V exists history configuredInterval =
     andthen (now (ae_os V)) (\<lambda>t.
       maintenance_ticks n V exists history (if 0 < configuredInterval then configuredInterval else seconds 15) t)"

end
