(* ===== verification/ScannerFacts.thy ===== *)
theory ScannerFacts
  imports Scanner
begin

text \<open>
  The scan of finalized blocks as a system of steps: its three parts, changes of the settings,
  other writers of the index, other components and restarts interleave, and any call may
  fail.  The cursor never passes a block whose transactions are not in the index, and a scan
  under way never undoes a change of the settings.
\<close>

section \<open>Saving\<close>

lemma scan_path_simps [simp]: "\<not> indexed scan_path" "scan_path \<noteq> active_path" "\<not> is_activity_archive scan_path"
  by (simp_all add: indexed_def scan_path_def active_path_def is_activity_archive_def has_prefix_def)

lemma stored_put_scan [simp]: "stored_hashes (AList.update scan_path f fs) = stored_hashes fs"
proof (rule stored_same)
  fix p
  assume "indexed p"
  then have "p \<noteq> scan_path" by auto
  then show "map_of (AList.update scan_path f fs) p = map_of fs p" by simp
qed

definition saved ::
    "scanState \<Rightarrow> ('w, afile, 'h scan_heap_scheme) sys \<Rightarrow> ('w, afile, 'h scan_heap_scheme) sys" where
  "saved state s = put_file scan_path (Progress (scanProgressToDisk state)) s"

lemma wp_save_progress:
  assumes "\<And>w. Q () ((saved state s)\<lparr> world := w \<rparr>)" and "\<And>e w. E e (s\<lparr> world := w \<rparr>)"
    and "\<And>e w. E e ((saved state s)\<lparr> world := w \<rparr>)"
  shows "wp (save_progress V state) Q E s"
proof (cases "json_time (ss_UpdatedAt state)")
  case True
  have "wp (atomicWriteFile (ae_os V) scan_path (Progress (scanProgressToDisk state))) Q E s"
    by (rule wp_atomicWriteFile) (use assms in \<open>simp_all add: saved_def\<close>)
  with True show ?thesis by (simp add: save_progress_def wp_simps)
next
  case False
  from assms(2) [of _ "world s"] have "E (ErrExt ''json: year outside of range'') s" by simp
  with False show ?thesis by (simp add: save_progress_def wp_simps)
qed

text \<open>The progress that is saved after a block, or after none.\<close>

definition follows :: "scanState \<Rightarrow> err + ScannedBlock option \<Rightarrow> scanState \<Rightarrow> bool" where
  "follows st res st' \<longleftrightarrow>
     ss_ExplicitStart st' = ss_ExplicitStart st \<and> ss_Enabled st' = ss_Enabled st \<and> ss_Start st' = ss_Start st \<and>
     ss_Next st' = (case res of Inr (Some _) \<Rightarrow> ss_Next st + 1 | _ \<Rightarrow> ss_Next st)"

lemma advance_ok: "advance E res st = Inr st' \<Longrightarrow> follows st res st'"
  by (auto simp: advance_def follows_def ebind_eq_Inr split: sum.splits option.splits)

lemma follows_fields:
  "follows st res (st'\<lparr> ss_Error := e, ss_UpdatedAt := t \<rparr>) = follows st res st'"
  by (simp add: follows_def)

definition finished ::
    "scanState \<Rightarrow> err + ScannedBlock option \<Rightarrow> ('w, afile, 'h scan_heap_scheme) sys \<Rightarrow> ('w, afile, 'h scan_heap_scheme) sys \<Rightarrow> bool" where
  "finished st res s t \<longleftrightarrow>
     (\<exists>w. t = s\<lparr> world := w \<rparr>) \<or> (\<exists>w st'. follows st res st' \<and> t = (saved st' s)\<lparr> world := w \<rparr>)"

lemma finished_same: "finished st res s (s\<lparr> world := w \<rparr>)"
  unfolding finished_def by blast

lemma finished_saved: "follows st res st' \<Longrightarrow> finished st res s ((saved st' (s\<lparr> world := w' \<rparr>))\<lparr> world := w \<rparr>)"
  unfolding finished_def by (rule disjI2, rule exI [of _ w], rule exI [of _ st']) (simp add: saved_def)

lemma wp_scan_tail:
  "wp (andthen (lift (advance (ae_eth V) res st)) (\<lambda>st.
       andthen (now (ae_os V)) (\<lambda>t.
         let st = st\<lparr> ss_Error := (case res of Inl e \<Rightarrow> err_text e | Inr _ \<Rightarrow> []), ss_UpdatedAt := t \<rparr> in
         seq (save_progress V st) (case res of Inl e \<Rightarrow> throw e | Inr _ \<Rightarrow> ret ()))))
     (\<lambda>_ t. finished st res s t) (\<lambda>_ t. finished st res s t) s"
proof (cases "advance (ae_eth V) res st")
  case (Inl e)
  then show ?thesis using finished_same [of st res s "world s"] by (simp add: wp_simps)
next
  case (Inr st1)
  have wpt: "wp (case res of Inl e \<Rightarrow> throw e | Inr _ \<Rightarrow> ret ()) (\<lambda>_ t. P t) (\<lambda>_ t. P t) u = P u" for P u
    by (cases res) (simp_all add: wp_simps)
  have "wp (now (ae_os V)) (\<lambda>t. wp (seq (save_progress V (st1\<lparr> ss_Error := e, ss_UpdatedAt := t \<rparr>))
        (case res of Inl e \<Rightarrow> throw e | Inr _ \<Rightarrow> ret ())) (\<lambda>_ t. finished st res s t) (\<lambda>_ t. finished st res s t))
      (\<lambda>_ t. finished st res s t) s" for e
  proof (rule wp_now)
    fix t w
    have "follows st res (st1\<lparr> ss_Error := e, ss_UpdatedAt := t \<rparr>)"
      using advance_ok [OF Inr] by (simp add: follows_fields)
    note fin = finished_saved [OF this]
    show "wp (seq (save_progress V (st1\<lparr> ss_Error := e, ss_UpdatedAt := t \<rparr>))
        (case res of Inl e \<Rightarrow> throw e | Inr _ \<Rightarrow> ret ())) (\<lambda>_ t. finished st res s t) (\<lambda>_ t. finished st res s t) (s\<lparr> world := w \<rparr>)"
      unfolding wp_seq wpt by (rule wp_save_progress) (simp_all add: fin finished_same)
  qed
  with Inr show ?thesis by (simp add: wp_simps Let_def)
qed

section \<open>Storing a block\<close>

lemma store_block_run:
  assumes "clock_ok (ae_os V)"
    and "\<And>b. res = Inr (Some b) \<Longrightarrow> may_add (heap s) (files s) (sb_Hashes b)"
    and "store_block V res s = (r, t)"
  shows "\<exists>res'. r = Inr res' \<and> (t = s \<or> (\<exists>new. add_effect s new t)) \<and>
    (\<forall>b. res' = Inr (Some b) \<longrightarrow> res = Inr (Some b) \<and> set (sb_Hashes b) \<subseteq> stored_hashes (files t))"
proof (cases "\<exists>b. res = Inr (Some b)")
  case False
  then have "r = Inr res \<and> t = s" using assms(3) by (auto simp: store_block_def run_simps split: sum.splits option.splits)
  with False show ?thesis by auto
next
  case True
  then obtain b where b: "res = Inr (Some b)" by blast
  obtain a u where u: "addActivityHashes (ae_os V) (sb_Hashes b) s = (a, u)" by force
  note added = add_run [OF assms(1) assms(2) [OF b] u]
  from assms(3) u b have rt: "r = Inr (case a of Inl e \<Rightarrow> Inl e | Inr _ \<Rightarrow> Inr (Some b))" "t = u"
    by (auto simp: store_block_def run_simps)
  show ?thesis
  proof (cases a)
    case (Inl e)
    with rt added(1) show ?thesis by auto
  next
    case (Inr n)
    with rt added(1) added(2) [OF Inr] b show ?thesis by auto
  qed
qed

lemma add_effect_generation: "add_effect s new t \<Longrightarrow> sc_generation (heap t) = sc_generation (heap s)"
  by (auto simp: add_effect_def)

lemma add_effect_progress: "add_effect s new t \<Longrightarrow> map_of (files t) scan_path = map_of (files s) scan_path"
  by (simp add: add_effect_def index_grows_def)

lemma add_effect_stored: "add_effect s new t \<Longrightarrow> stored_hashes (files s) \<subseteq> stored_hashes (files t)"
  by (simp add: add_effect_def index_grows_def)

text \<open>
  What the locked end of a scan does: nothing when the settings have changed; otherwise
  the index is written first, and the progress afterwards, advanced only past a block whose
  hashes are stored.
\<close>

lemma scan_finish_run:
  assumes "clock_ok (ae_os V)"
    and "\<And>b. res = Inr (Some b) \<Longrightarrow> may_add (heap s) (files s) (sb_Hashes b)"
    and "scan_finish V g st res s = (r, t)"
  shows "if g \<noteq> sc_generation (heap s) then t = s
    else \<exists>u res'. sc_generation (heap u) = sc_generation (heap s) \<and> map_of (files u) scan_path = map_of (files s) scan_path \<and>
      stored_hashes (files s) \<subseteq> stored_hashes (files u) \<and> finished st res' u t \<and>
      (\<forall>b. res' = Inr (Some b) \<longrightarrow> res = Inr (Some b) \<and> set (sb_Hashes b) \<subseteq> stored_hashes (files u))"
proof (cases "g = sc_generation (heap s)")
  case False
  with assms(3) show ?thesis by (simp add: scan_finish_def run_simps)
next
  case True
  obtain x u where u: "store_block V res s = (x, u)" by force
  from store_block_run [OF assms(1,2) u] obtain res' where x: "x = Inr res'"
    and eff: "u = s \<or> (\<exists>new. add_effect s new u)"
    and blk: "\<forall>b. res' = Inr (Some b) \<longrightarrow> res = Inr (Some b) \<and> set (sb_Hashes b) \<subseteq> stored_hashes (files u)"
    by blast
  let ?tail = "andthen (lift (advance (ae_eth V) res' st)) (\<lambda>st.
       andthen (now (ae_os V)) (\<lambda>t.
         let st = st\<lparr> ss_Error := (case res' of Inl e \<Rightarrow> err_text e | Inr _ \<Rightarrow> []), ss_UpdatedAt := t \<rparr> in
         seq (save_progress V st) (case res' of Inl e \<Rightarrow> throw e | Inr _ \<Rightarrow> ret ())))"
  have "scan_finish V g st res s = ?tail u"
    using True u x by (simp add: scan_finish_def run_get_heap run_andthen [of "get_heap _"] run_andthen [of "store_block V res"])
  with assms(3) have "?tail u = (r, t)" by simp
  with wp_scan_tail [of V res' st u] have "finished st res' u t"
    by (cases r) (auto dest: wp_runD_ok wp_runD_err)
  moreover have "sc_generation (heap u) = sc_generation (heap s)" "map_of (files u) scan_path = map_of (files s) scan_path"
      "stored_hashes (files s) \<subseteq> stored_hashes (files u)"
    using eff by (auto dest: add_effect_generation add_effect_progress add_effect_stored)
  ultimately have "\<exists>u res'. sc_generation (heap u) = sc_generation (heap s) \<and>
      map_of (files u) scan_path = map_of (files s) scan_path \<and>
      stored_hashes (files s) \<subseteq> stored_hashes (files u) \<and> finished st res' u t \<and>
      (\<forall>b. res' = Inr (Some b) \<longrightarrow> res = Inr (Some b) \<and> set (sb_Hashes b) \<subseteq> stored_hashes (files u))"
    using blk by (intro exI [of _ u] exI [of _ res']) blast
  with True show ?thesis by simp
qed

section \<open>Steps\<close>

text \<open>A scan under way: between its first and second part, or between the second and the third.\<close>

datatype scan_pending =
    Begun scanState address "64 word"
  | Fetched scanState "64 word" "err + ScannedBlock option"

type_synonym ('w, 'h) scan_config = "('w, afile, 'h scan_heap_scheme) sys \<times> scan_pending option"

definition elsewhere :: "('w, afile, 'h scan_heap_scheme) sys \<Rightarrow> ('w, afile, 'h scan_heap_scheme) sys \<Rightarrow> bool" where
  "elsewhere s t \<longleftrightarrow>
     stored_hashes (files s) \<subseteq> stored_hashes (files t) \<and> map_of (files t) scan_path = map_of (files s) scan_path \<and>
     sc_generation (heap t) = sc_generation (heap s)"

text \<open>
  \<open>Other\<close> is any step of another operation: it may add to the index, and leaves the progress
  and the generation alone.  \<open>Configure\<close> is there when \<open>c\<close> holds; the generation has not
  reached the end of its range.
\<close>

inductive scan_step :: "bool \<Rightarrow> ('k, 'w) aenv \<Rightarrow> ('w, 'h) scan_config \<Rightarrow> ('w, 'h) scan_config \<Rightarrow> bool" for c V where
  Begin: "scan_begin V s = (Inr (Some (state, owner, g)), t) \<Longrightarrow>
    scan_step c V (s, None) (t, Some (Begun state owner g))"
| Fetch: "scan_fetch V state owner s = (Inr (state', res), t) \<Longrightarrow>
    scan_step c V (s, Some (Begun state owner g)) (t, Some (Fetched state' g res))"
| Finish: "(\<And>b. res = Inr (Some b) \<Longrightarrow> may_add (heap s) (files s) (sb_Hashes b)) \<Longrightarrow>
    scan_finish V g state res s = (r, t) \<Longrightarrow> scan_step c V (s, Some (Fetched state g res)) (t, None)"
| Configure: "c \<Longrightarrow> unat (sc_generation (heap s)) + 1 < 2 ^ 64 \<Longrightarrow> ConfigureScan V enabled start s = (r, t) \<Longrightarrow>
    scan_step c V (s, q) (t, q)"
| Other: "elsewhere s t \<Longrightarrow> scan_step c V (s, q) (t, q)"
| Restart: "files t = files s \<Longrightarrow> scan_step c V (s, q) (t, None)"

inductive_cases scan_stepE: "scan_step c V x y"

definition scan_run :: "bool \<Rightarrow> ('k, 'w) aenv \<Rightarrow> ('w, 'h) scan_config \<Rightarrow> ('w, 'h) scan_config \<Rightarrow> bool" where
  "scan_run c V = (scan_step c V)\<^sup>*\<^sup>*"

text \<open>What the file of the progress says; no file is the progress of a scan that is off.\<close>

definition disk_progress :: "(string \<times> afile) list \<Rightarrow> scanProgressDisk option" where
  "disk_progress fs = (case map_of fs scan_path of None \<Rightarrow> Some (scanProgressToDisk no_progress) | Some f \<Rightarrow> progress_in f)"

lemma asks_scanProgress [eff_intros]: "within asks (scanProgress V)"
  unfolding scanProgress_def
  by (intro eff_intros asks.eff_andthen asks.eff_option asks.eff_ret asks.eff_throw asks.eff_lift)

lemma asks_scan_begin [eff_intros]: "within asks (scan_begin V)"
  unfolding scan_begin_def by (intro eff_intros asks.eff_andthen asks.eff_if asks.eff_ret)

lemma asks_scan_fetch [eff_intros]: "within asks (scan_fetch V state owner)"
  unfolding scan_fetch_def
  by (intro eff_intros asks.eff_andthen asks.eff_sum asks.eff_let asks.eff_if asks.eff_attempt asks.eff_ret)

lemma scanProgress_value:
  assumes "scanProgress V s = (Inr st, t)"
  shows "disk_progress (files s) = Some (scanProgressToDisk st)"
proof -
  from assms obtain x u where u: "ReadFile (ae_os V) scan_path s = (Inr x, u)"
    and rest: "(case x of None \<Rightarrow> ret no_progress
       | Some f \<Rightarrow> (case progress_in f of None \<Rightarrow> throw (ErrNew ''progress file format'')
                     | Some stored \<Rightarrow> lift (scanProgressFromDisk (ae_eth V) stored))) u = (Inr st, t)"
    by (auto simp: scanProgress_def ok_andthen)
  have x: "x = map_of (files s) scan_path" by (rule ReadFile_value [OF u])
  have same: "scanProgressToDisk st = d" if "scanProgressFromDisk (ae_eth V) d = Inr st" for d
    using that by (auto simp: scanProgressFromDisk_def scanProgressToDisk_def Let_def split: if_splits)
  from rest x same show ?thesis
    by (auto simp: disk_progress_def ok_simps split: option.splits)
qed

section \<open>No block is passed over\<close>

text \<open>
  The client reports at least the hashes \<open>H n\<close> whenever it reports the finalized block \<open>n\<close>:
  what a final block holds for the wallet does not change.  The address of a wallet does not
  change either.
\<close>

definition final_blocks :: "('k, 'w) aenv \<Rightarrow> address \<Rightarrow> (64 word \<Rightarrow> string set) \<Rightarrow> bool" where
  "final_blocks V owner H \<longleftrightarrow>
     (\<forall>n w b w'. ae_ScanBlock V n owner w = (Inr b, w') \<longrightarrow> H n \<subseteq> set (sb_Hashes b)) \<and>
     (\<forall>w a w'. ae_Address V w = (Inr a, w') \<longrightarrow> HexToAddress (ae_eth V) a = owner)"

definition covered :: "(64 word \<Rightarrow> string set) \<Rightarrow> (string \<times> afile) list \<Rightarrow> 64 word \<Rightarrow> 64 word \<Rightarrow> bool" where
  "covered H fs start stop \<longleftrightarrow> (\<forall>n. start \<le> n \<and> n < stop \<longrightarrow> H n \<subseteq> stored_hashes fs)"

lemma covered_mono: "covered H fs a b \<Longrightarrow> stored_hashes fs \<subseteq> stored_hashes fs' \<Longrightarrow> covered H fs' a b"
  unfolding covered_def by blast

lemma covered_empty [simp]: "covered H fs a a"
  by (simp add: covered_def) (meson leD)

lemma less_Suc_word: "(n :: 64 word) < x + 1 \<Longrightarrow> n \<le> x"
  by (metis inc_le less_imp_le linorder_not_le word_not_simps(1) word_le_less_eq)

lemma covered_next:
  assumes "covered H fs a b" and "H b \<subseteq> stored_hashes fs"
  shows "covered H fs a (b + 1)"
  unfolding covered_def
proof (intro allI impI)
  fix n
  assume n: "a \<le> n \<and> n < b + 1"
  then have "n \<le> b" by (blast dest: less_Suc_word)
  then show "H n \<subseteq> stored_hashes fs" using assms n by (cases "n = b") (auto simp: covered_def)
qed

definition scan_covered :: "(64 word \<Rightarrow> string set) \<Rightarrow> address \<Rightarrow> ('w, 'h) scan_config \<Rightarrow> bool" where
  "scan_covered H owner x \<longleftrightarrow>
     (\<forall>d. disk_progress (files (fst x)) = Some d \<longrightarrow> covered H (files (fst x)) (sd_Start d) (sd_Next d)) \<and>
     (case snd x of
        None \<Rightarrow> True
      | Some (Begun st a g) \<Rightarrow> a = owner \<and> covered H (files (fst x)) (ss_Start st) (ss_Next st)
      | Some (Fetched st g res) \<Rightarrow> covered H (files (fst x)) (ss_Start st) (ss_Next st) \<and>
          (\<forall>b. res = Inr (Some b) \<longrightarrow> H (ss_Next st) \<subseteq> set (sb_Hashes b)))"

lemma disk_progress_saved: "disk_progress (files (saved st s)) = Some (scanProgressToDisk st)"
  by (simp add: disk_progress_def saved_def progress_in_def)

lemma toDisk_fields [simp]: "sd_Start (scanProgressToDisk st) = ss_Start st" "sd_Next (scanProgressToDisk st) = ss_Next st"
  "sd_Enabled (scanProgressToDisk st) = ss_Enabled st" "sd_ExplicitStart (scanProgressToDisk st) = ss_ExplicitStart st"
  by (simp_all add: scanProgressToDisk_def)

lemma saved_files: "stored_hashes (files (saved st s)) = stored_hashes (files s)"
  by (simp add: saved_def)

lemma with_final_covered:
  "covered H fs (ss_Start st) (ss_Next st) \<Longrightarrow> covered H fs (ss_Start (with_final f st)) (ss_Next (with_final f st))"
  by (simp add: with_final_def Let_def)

lemma scan_fetch_value:
  assumes "scan_fetch V st owner s = (Inr (st', res), t)"
  shows "(st' = st \<or> (\<exists>f. st' = with_final f st)) \<and>
    (\<forall>b. res = Inr (Some b) \<longrightarrow> (\<exists>w w'. ae_ScanBlock V (ss_Next st') owner w = (Inr b, w')))"
proof -
  obtain r w where r: "ae_Finalized V (world s) = (r, w)" by force
  show ?thesis
  proof (cases r)
    case (Inl e)
    with assms r show ?thesis by (auto simp: scan_fetch_def run_simps)
  next
    case (Inr f)
    obtain b w' where b: "ae_ScanBlock V (ss_Next (with_final f st)) owner w = (b, w')" by force
    from assms r Inr b show ?thesis
      by (cases b) (auto simp: scan_fetch_def run_simps Let_def split: if_splits)
  qed
qed

lemma scan_begin_value:
  assumes "scan_begin V s = (Inr (Some (st, owner, g)), t)"
  shows "disk_progress (files s) = Some (scanProgressToDisk st)" and "g = sc_generation (heap s)"
    and "\<exists>w a w'. ae_Address V w = (Inr a, w') \<and> owner = HexToAddress (ae_eth V) a"
proof -
  from assms obtain u where u: "scanProgress V s = (Inr st, u)"
    and rest: "(if \<not> ss_Enabled st then ret None
       else andthen (own_address V) (\<lambda>owner.
            andthen (get_heap sc_generation) (\<lambda>generation. ret (Some (st, owner, generation))))) u = (Inr (Some (st, owner, g)), t)"
    by (auto simp: scan_begin_def ok_simps split: if_splits)
  show "disk_progress (files s) = Some (scanProgressToDisk st)" by (rule scanProgress_value [OF u])
  from rest obtain v where v: "own_address V u = (Inr owner, v)" and g: "g = sc_generation (heap v)"
    by (auto simp: ok_simps get_heap_def split: if_splits)
  show "g = sc_generation (heap s)"
    using g asks_same [OF asks_scanProgress u] asks_same [OF asks_own_address v] by simp
  from v show "\<exists>w a w'. ae_Address V w = (Inr a, w') \<and> owner = HexToAddress (ae_eth V) a"
    by (auto simp: own_address_def ok_simps on_world_def split: prod.splits)
qed

text \<open>A change of the settings.\<close>

definition configured :: "bool \<Rightarrow> 64 word option \<Rightarrow> scanState \<Rightarrow> scanState" where
  "configured enabled start st =
     (case start of None \<Rightarrow> st | Some n \<Rightarrow> st\<lparr> ss_ExplicitStart := True, ss_Start := n, ss_Next := n \<rparr>)
       \<lparr> ss_Enabled := enabled, ss_Error := [] \<rparr>"

lemma ConfigureScan_run:
  assumes "ConfigureScan V enabled start s = (r, t)"
  shows "sc_generation (heap t) = sc_generation (heap s) + 1"
    and "(files t = files s \<and> isl r) \<or>
      (\<exists>st. disk_progress (files s) = Some (scanProgressToDisk st) \<and> files t = files (saved (configured enabled start st) s))"
proof -
  let ?s = "s\<lparr> heap := (heap s)\<lparr> sc_generation := sc_generation (heap s) + 1, sc_backoffUntil := zero_time,
      sc_backoffDuration := 0 \<rparr> \<rparr>"
  let ?P = "\<lambda>b t. sc_generation (heap t) = sc_generation (heap s) + 1 \<and> ((files t = files s \<and> b) \<or>
      (\<exists>st. disk_progress (files s) = Some (scanProgressToDisk st) \<and> files t = files (saved (configured enabled start st) s)))"
  obtain x u where u: "scanProgress V ?s = (x, u)" by force
  note same = asks_same [OF asks_scanProgress u]
  have "?P (isl r) t"
  proof (cases x)
    case (Inl e)
    with assms u have "Inl e = r" "t = u" by (simp_all add: ConfigureScan_def run_simps)
    then have "isl r" by auto
    with \<open>t = u\<close> same show ?thesis by simp
  next
    case (Inr st)
    let ?st = "configured enabled start st"
    have disk: "disk_progress (files s) = Some (scanProgressToDisk st)"
      using scanProgress_value [of V ?s st u] u Inr by simp
    have run: "seq (save_progress V ?st) (ret (scanProgressResponse ?st)) u = (r, t)"
      using assms u Inr by (simp add: ConfigureScan_def run_set_heap run_seq [of "set_heap _"] run_andthen configured_def Let_def)
    have "wp (seq (save_progress V ?st) (ret (scanProgressResponse ?st))) (\<lambda>_ t. ?P False t) (\<lambda>_ t. ?P True t) u"
      unfolding wp_seq
      by (rule wp_save_progress) (use same disk in \<open>auto simp: wp_simps saved_def\<close>)
    with run show ?thesis by (cases r) (auto dest: wp_runD_ok wp_runD_err)
  qed
  then show "sc_generation (heap t) = sc_generation (heap s) + 1"
    and "(files t = files s \<and> isl r) \<or>
      (\<exists>st. disk_progress (files s) = Some (scanProgressToDisk st) \<and> files t = files (saved (configured enabled start st) s))"
    by simp_all
qed

lemma configured_covered:
  "covered H fs (ss_Start st) (ss_Next st) \<Longrightarrow> covered H fs (ss_Start (configured e n st)) (ss_Next (configured e n st))"
  by (cases n) (simp_all add: configured_def)

lemma disk_progress_same: "map_of fs' scan_path = map_of fs scan_path \<Longrightarrow> disk_progress fs' = disk_progress fs"
  by (simp add: disk_progress_def)

lemma scan_covered_other:
  assumes "scan_covered H owner (s, q)" and "stored_hashes (files s) \<subseteq> stored_hashes (files t)"
    and "disk_progress (files t) = disk_progress (files s)" and "q' = q \<or> q' = None"
  shows "scan_covered H owner (t, q')"
  using assms by (auto simp: scan_covered_def intro: covered_mono split: option.splits scan_pending.splits)

lemma finished_covered:
  assumes "scan_covered H owner (s, Some (Fetched st g res))"
    and u: "map_of (files u) scan_path = map_of (files s) scan_path" "stored_hashes (files s) \<subseteq> stored_hashes (files u)"
    and fin: "finished st res' u t"
    and blk: "\<forall>b. res' = Inr (Some b) \<longrightarrow> res = Inr (Some b) \<and> set (sb_Hashes b) \<subseteq> stored_hashes (files u)"
  shows "scan_covered H owner (t, None)"
proof -
  have disk: "covered H (files u) (sd_Start d) (sd_Next d)" if "disk_progress (files u) = Some d" for d
    using assms(1) that disk_progress_same [OF u(1)] covered_mono [OF _ u(2)] by (auto simp: scan_covered_def)
  have st: "covered H (files u) (ss_Start st) (ss_Next st)"
    using assms(1) covered_mono [OF _ u(2)] by (auto simp: scan_covered_def)
  from fin consider w where "t = u\<lparr> world := w \<rparr>" | w st' where "follows st res' st'" "t = (saved st' u)\<lparr> world := w \<rparr>"
    unfolding finished_def by blast
  then show ?thesis
  proof cases
    case 1
    with disk show ?thesis by (simp add: scan_covered_def)
  next
    case 2
    have "covered H (files u) (ss_Start st') (ss_Next st')"
    proof (cases "\<exists>b. res' = Inr (Some b)")
      case True
      then obtain b where b: "res' = Inr (Some b)" by blast
      with blk assms(1) have "H (ss_Next st) \<subseteq> stored_hashes (files u)" by (auto simp: scan_covered_def)
      from covered_next [OF st this] 2(1) b show ?thesis by (simp add: follows_def)
    next
      case False
      with 2(1) have "ss_Next st' = ss_Next st" "ss_Start st' = ss_Start st"
        by (auto simp: follows_def split: sum.splits option.splits)
      with st show ?thesis by simp
    qed
    then have "covered H (files (saved st' u)) (ss_Start st') (ss_Next st')" by (simp add: covered_def saved_files)
    with 2(2) show ?thesis by (simp add: scan_covered_def disk_progress_saved)
  qed
qed

lemma scan_step_covered:
  assumes clock: "clock_ok (ae_os V)" and blocks: "final_blocks V owner H"
    and "scan_step c V x y" and ok: "scan_covered H owner x"
  shows "scan_covered H owner y"
  using assms(3)
proof cases
  case (Begin s st a g t)
  note same = asks_same [OF asks_scan_begin Begin(3)]
  have "covered H (files t) (ss_Start st) (ss_Next st)"
    using ok Begin(1) scan_begin_value(1) [OF Begin(3)] same by (auto simp: scan_covered_def)
  moreover have "a = owner"
    using scan_begin_value(3) [OF Begin(3)] blocks unfolding final_blocks_def by blast
  ultimately show ?thesis using ok Begin(1,2) same by (simp add: scan_covered_def)
next
  case (Fetch st a s st' res t g)
  note same = asks_same [OF asks_scan_fetch Fetch(3)] and val = scan_fetch_value [OF Fetch(3)]
  from ok Fetch(1) have st: "a = owner" "covered H (files s) (ss_Start st) (ss_Next st)" by (simp_all add: scan_covered_def)
  from val st(2) have "covered H (files s) (ss_Start st') (ss_Next st')" by (auto simp: with_final_covered)
  moreover have "\<forall>b. res = Inr (Some b) \<longrightarrow> H (ss_Next st') \<subseteq> set (sb_Hashes b)"
    using val st(1) blocks unfolding final_blocks_def by blast
  ultimately show ?thesis using ok Fetch(1,2) same by (simp add: scan_covered_def)
next
  case (Finish res s g st r t)
  show ?thesis
  proof (cases "g = sc_generation (heap s)")
    case False
    with scan_finish_run [OF clock Finish(3,4)] have "t = s" by simp
    with scan_covered_other [of H owner s _ s None] ok Finish(1,2) show ?thesis by auto
  next
    case True
    with scan_finish_run [OF clock Finish(3,4)] obtain u res' where
      "map_of (files u) scan_path = map_of (files s) scan_path" "stored_hashes (files s) \<subseteq> stored_hashes (files u)"
      "finished st res' u t"
      "\<forall>b. res' = Inr (Some b) \<longrightarrow> res = Inr (Some b) \<and> set (sb_Hashes b) \<subseteq> stored_hashes (files u)"
      by auto
    from finished_covered [OF _ this] ok Finish(1,2) show ?thesis by simp
  qed
next
  case (Configure s enabled start r t q)
  from ConfigureScan_run(2) [OF Configure(5)] show ?thesis
  proof (elim disjE exE conjE)
    assume "files t = files s"
    then show ?thesis using scan_covered_other [of H owner s q t q] ok Configure(1,2) by simp
  next
    fix st
    assume disk: "disk_progress (files s) = Some (scanProgressToDisk st)"
      and t: "files t = files (saved (configured enabled start st) s)"
    have "covered H (files s) (ss_Start st) (ss_Next st)" using ok Configure(1) disk by (auto simp: scan_covered_def)
    from configured_covered [OF this]
    have "covered H (files t) (ss_Start (configured enabled start st)) (ss_Next (configured enabled start st))"
      by (simp add: covered_def t saved_files)
    moreover have "stored_hashes (files t) = stored_hashes (files s)" by (simp add: t saved_files)
    ultimately show ?thesis using ok Configure(1,2)
      by (auto simp: scan_covered_def t disk_progress_saved covered_def split: option.splits scan_pending.splits)
  qed
next
  case (Other s t q)
  show ?thesis unfolding Other(2)
  proof (rule scan_covered_other [of H owner s q])
    show "scan_covered H owner (s, q)" using ok Other(1) by simp
    show "stored_hashes (files s) \<subseteq> stored_hashes (files t)" using Other(3) by (simp add: elsewhere_def)
    show "disk_progress (files t) = disk_progress (files s)"
      by (rule disk_progress_same) (use Other(3) in \<open>simp add: elsewhere_def\<close>)
  qed simp
next
  case (Restart t s q)
  show ?thesis unfolding Restart(2)
    by (rule scan_covered_other [of H owner s q]) (use ok Restart(1,3) in simp_all)
qed

text \<open>
  C12: No finalized block is passed over.  As long as the client reports what a finalized block
  holds for the wallet, every such hash of every block from the start of the scan up to the
  next one to be scanned is in the index on disk: after any number of scans, settings, additions
  by other operations and restarts, interleaved in any order, and whichever call fails.
\<close>

theorem scan_covers:
  assumes "clock_ok (ae_os V)" and "final_blocks V owner H"
    and "map_of (files s0) scan_path = None" and "scan_run c V (s0, None) (s, q)"
    and "disk_progress (files s) = Some d" and "sd_Start d \<le> n" and "n < sd_Next d"
  shows "H n \<subseteq> stored_hashes (files s)"
proof -
  have "scan_covered H owner (s0, None)"
    using assms(3) by (simp add: scan_covered_def disk_progress_def no_progress_def)
  with assms(4) have "scan_covered H owner (s, q)"
    unfolding scan_run_def
    by (induction rule: rtranclp_induct) (use scan_step_covered [OF assms(1,2)] in blast)+
  with assms(5-7) show ?thesis by (simp add: scan_covered_def covered_def)
qed

section \<open>The operations as steps\<close>

lemma scan_run_step: "scan_run c V x y \<Longrightarrow> scan_step c V y z \<Longrightarrow> scan_run c V x z"
  unfolding scan_run_def by (rule rtranclp.rtrancl_into_rtrancl)

lemma scan_run_refl: "scan_run c V x x"
  by (simp add: scan_run_def)

text \<open>The operation as the code runs it is such a sequence of steps.\<close>

lemma ScanOnce_run:
  assumes "ScanOnce V s = (r, t)"
    and "\<And>n w b w' a. ae_ScanBlock V n a w = (Inr b, w') \<Longrightarrow> may_add (heap s) (files s) (sb_Hashes b)"
  shows "\<exists>q. scan_run c V (s, None) (t, q)"
proof -
  obtain x u where x: "scan_begin V s = (x, u)" by force
  note same = asks_same [OF asks_scan_begin x]
  have idle: "\<exists>q. scan_run c V (s, None) (v, q)" if "files v = files s" "heap v = heap s" for v
    using scan_run_step [OF scan_run_refl scan_step.Other [of s v c V None]] that by (auto simp: elsewhere_def)
  show ?thesis
  proof (cases "\<exists>st a g. x = Inr (Some (st, a, g))")
    case False
    with assms(1) x have "t = u" by (auto simp: ScanOnce_def run_simps split: sum.splits option.splits)
    with idle same show ?thesis by auto
  next
    case True
    then obtain st a g where x': "scan_begin V s = (Inr (Some (st, a, g)), u)" using x by blast
    obtain y v where y: "scan_fetch V st a u = (y, v)" by force
    note same' = asks_same [OF asks_scan_fetch y]
    show ?thesis
    proof (cases y)
      case (Inl e)
      with assms(1) x' y have "t = v" by (simp add: ScanOnce_def run_simps)
      with idle same same' show ?thesis by auto
    next
      case (Inr p)
      obtain st' res where p: "p = (st', res)" by force
      with assms(1) x' y Inr have fin: "scan_finish V g st' res v = (r, t)" by (simp add: ScanOnce_def run_simps)
      have y': "scan_fetch V st a u = (Inr (st', res), v)" using y Inr p by simp
      have add: "may_add (heap v) (files v) (sb_Hashes b)" if "res = Inr (Some b)" for b
        using scan_fetch_value [OF y'] that assms(2) same same' by auto
      have "scan_run c V (s, None) (t, None)"
        by (rule scan_run_step [OF scan_run_step [OF scan_run_step [OF scan_run_refl scan_step.Begin [OF x']]
              scan_step.Fetch [OF y']] scan_step.Finish [OF add fin]])
      then show ?thesis by blast
    qed
  qed
qed

lemma activity_elsewhere:
  fixes s :: "('w, afile, 'h scan_heap_scheme) sys"
  assumes "addActivityHashes I hashes s = (r, t)" and "clock_ok I" and "may_add (heap s) (files s) hashes"
  shows "elsewhere s t"
  using add_run(1) [OF assms(2,3,1)]
  by (auto simp: elsewhere_def dest: add_effect_stored add_effect_progress add_effect_generation)

section \<open>A scan never undoes the settings\<close>

definition same_settings :: "bool \<Rightarrow> 64 word option \<Rightarrow> scanProgressDisk \<Rightarrow> bool" where
  "same_settings enabled start d \<longleftrightarrow>
     sd_Enabled d = enabled \<and> (case start of None \<Rightarrow> True | Some n \<Rightarrow> sd_ExplicitStart d \<and> sd_Start d = n)"

definition settings_kept :: "bool \<Rightarrow> 64 word option \<Rightarrow> ('w, 'h) scan_config \<Rightarrow> bool" where
  "settings_kept enabled start x \<longleftrightarrow>
     (\<exists>d. disk_progress (files (fst x)) = Some d \<and> same_settings enabled start d) \<and>
     (case snd x of
        Some (Begun st a g) \<Rightarrow> g = sc_generation (heap (fst x)) \<longrightarrow> same_settings enabled start (scanProgressToDisk st)
      | Some (Fetched st g res) \<Rightarrow> g = sc_generation (heap (fst x)) \<longrightarrow> same_settings enabled start (scanProgressToDisk st)
      | None \<Rightarrow> True)"

lemma scan_finish_settings:
  assumes fin: "finished st res s t" and same: "same_settings enabled start (scanProgressToDisk st)"
    and disk: "disk_progress (files s) = Some d" "same_settings enabled start d"
  shows "\<exists>d. disk_progress (files t) = Some d \<and> same_settings enabled start d"
proof -
  from fin consider w where "t = s\<lparr> world := w \<rparr>" | w st' where "follows st res st'" "t = (saved st' s)\<lparr> world := w \<rparr>"
    unfolding finished_def by blast
  then show ?thesis
  proof cases
    case 1
    with disk show ?thesis by simp
  next
    case 2
    then have "same_settings enabled start (scanProgressToDisk st')"
      using same by (simp add: same_settings_def follows_def split: option.splits)
    with 2(2) show ?thesis by (simp add: disk_progress_saved)
  qed
qed

lemma with_final_settings:
  "same_settings enabled start (scanProgressToDisk st) \<Longrightarrow>
   same_settings enabled start (scanProgressToDisk (with_final f st))"
  by (auto simp: same_settings_def with_final_def Let_def split: option.splits)

lemma settings_other:
  assumes "settings_kept enabled start (s, q)" and "disk_progress (files t) = disk_progress (files s)"
    and "q' = q \<and> sc_generation (heap t) = sc_generation (heap s) \<or> q' = None"
  shows "settings_kept enabled start (t, q')"
  using assms by (auto simp: settings_kept_def split: option.splits scan_pending.splits)

lemma scan_step_settings:
  assumes clock: "clock_ok (ae_os V)" and "scan_step False V x y" and ok: "settings_kept enabled start x"
  shows "settings_kept enabled start y"
  using assms(2)
proof cases
  case (Begin s st a g t)
  note same = asks_same [OF asks_scan_begin Begin(3)] and val = scan_begin_value [OF Begin(3)]
  from ok Begin(1,2) same val(1) show ?thesis by (auto simp: settings_kept_def)
next
  case (Fetch st a s st' res t g)
  note same = asks_same [OF asks_scan_fetch Fetch(3)] and val = scan_fetch_value [OF Fetch(3)]
  have "same_settings enabled start (scanProgressToDisk st')" if "g = sc_generation (heap s)"
    using that ok Fetch(1) val with_final_settings by (auto simp: settings_kept_def)
  with ok Fetch(1,2) same show ?thesis by (simp add: settings_kept_def)
next
  case (Finish res s g st r t)
  show ?thesis
  proof (cases "g = sc_generation (heap s)")
    case False
    with scan_finish_run [OF clock Finish(3,4)] have "t = s" by simp
    with settings_other [of enabled start s _ s None] ok Finish(1,2) show ?thesis by auto
  next
    case True
    with scan_finish_run [OF clock Finish(3,4)] obtain u res' where
      u: "map_of (files u) scan_path = map_of (files s) scan_path" and fin: "finished st res' u t"
      by auto
    have st: "same_settings enabled start (scanProgressToDisk st)"
      using ok Finish(1) True by (simp add: settings_kept_def)
    obtain d where "disk_progress (files u) = Some d" "same_settings enabled start d"
      using ok Finish(1) disk_progress_same [OF u] by (auto simp: settings_kept_def)
    from scan_finish_settings [OF fin st this] Finish(2) show ?thesis by (simp add: settings_kept_def)
  qed
next
  case (Configure s enabled' start' r t q)
  then show ?thesis by simp
next
  case (Other s t q)
  show ?thesis unfolding Other(2)
  proof (rule settings_other [of _ _ s q])
    show "settings_kept enabled start (s, q)" using ok Other(1) by simp
    show "disk_progress (files t) = disk_progress (files s)"
      by (rule disk_progress_same) (use Other(3) in \<open>simp add: elsewhere_def\<close>)
    show "q = q \<and> sc_generation (heap t) = sc_generation (heap s) \<or> q = None"
      using Other(3) by (simp add: elsewhere_def)
  qed
next
  case (Restart t s q)
  show ?thesis unfolding Restart(2)
    by (rule settings_other [of _ _ s q]) (use ok Restart(1,3) in \<open>simp_all add: disk_progress_def\<close>)
qed

text \<open>A scan under way knows a generation that has been reached.\<close>

definition begun_before :: "('w, 'h) scan_config \<Rightarrow> bool" where
  "begun_before x \<longleftrightarrow>
     (case snd x of
        Some (Begun st a g) \<Rightarrow> g \<le> sc_generation (heap (fst x))
      | Some (Fetched st g res) \<Rightarrow> g \<le> sc_generation (heap (fst x))
      | None \<Rightarrow> True)"

lemma generation_grows: "unat (g :: 64 word) + 1 < 2 ^ 64 \<Longrightarrow> g < g + 1"
  by (simp add: word_less_nat_alt unat_word_ariths)

lemma begun_other:
  assumes "begun_before (s, q)" and "sc_generation (heap s) \<le> sc_generation (heap t) \<and> q' = q \<or> q' = None"
  shows "begun_before (t, q')"
  using assms by (auto simp: begun_before_def split: option.splits scan_pending.splits)

lemma scan_step_begun:
  assumes "scan_step c V x y" and ok: "begun_before x"
  shows "begun_before y"
  using assms(1)
proof cases
  case (Begin s st a g t)
  from Begin(2) asks_same [OF asks_scan_begin Begin(3)] scan_begin_value(2) [OF Begin(3)]
  show ?thesis by (simp add: begun_before_def)
next
  case (Fetch st a s st' res t g)
  from ok Fetch(1,2) asks_same [OF asks_scan_fetch Fetch(3)] show ?thesis by (simp add: begun_before_def)
next
  case (Configure s enabled start r t q)
  have "sc_generation (heap s) \<le> sc_generation (heap t)"
    using generation_grows [OF Configure(4)] ConfigureScan_run(1) [OF Configure(5)] by simp
  with begun_other [of s q t q] ok Configure(1,2) show ?thesis by simp
next
  case (Other s t q)
  have "sc_generation (heap s) \<le> sc_generation (heap t)" using Other(3) by (simp add: elsewhere_def)
  with begun_other [of s q t q] ok Other(1,2) show ?thesis by simp
qed (simp_all add: begun_before_def)

lemma scan_run_begun: "scan_run c V x y \<Longrightarrow> begun_before x \<Longrightarrow> begun_before y"
  unfolding scan_run_def by (induction rule: rtranclp_induct) (use scan_step_begun in blast)+

lemma ConfigureScan_ok:
  assumes "ConfigureScan V enabled start s = (Inr p, t)"
  shows "\<exists>d. disk_progress (files t) = Some d \<and> same_settings enabled start d"
proof -
  from ConfigureScan_run(2) [OF assms] obtain st where "files t = files (saved (configured enabled start st) s)" by auto
  then have "disk_progress (files t) = Some (scanProgressToDisk (configured enabled start st))"
    by (simp add: disk_progress_saved)
  moreover have "same_settings enabled start (scanProgressToDisk (configured enabled start st))"
    by (simp add: same_settings_def configured_def split: option.splits)
  ultimately show ?thesis by blast
qed

lemma configured_kept:
  assumes "begun_before (s, q)" and "unat (sc_generation (heap s)) + 1 < 2 ^ 64"
    and "ConfigureScan V enabled start s = (Inr p, t)"
  shows "settings_kept enabled start (t, q)"
proof -
  have "sc_generation (heap s) < sc_generation (heap t)"
    using generation_grows [OF assms(2)] ConfigureScan_run(1) [OF assms(3)] by simp
  with assms(1) ConfigureScan_ok [OF assms(3)] show ?thesis
    by (auto simp: begun_before_def settings_kept_def split: option.splits scan_pending.splits)
qed

text \<open>
  C14: A scan never undoes a change of the settings.  Once ConfigureScan has reported success, the
  file says so until the settings are changed again: whether the scan is on, and the start when
  one was given.  This holds for the scan that was under way when the settings changed, at
  whichever of its three parts, for every later scan, whichever call fails, and over restarts.
\<close>

theorem configuration_survives:
  assumes "clock_ok (ae_os V)" and "scan_run True V (s0, None) (s1, q1)"
    and "unat (sc_generation (heap s1)) + 1 < 2 ^ 64" and "ConfigureScan V enabled start s1 = (Inr p, s2)"
    and "scan_run False V (s2, q1) (s3, q3)"
  shows "\<exists>d. disk_progress (files s3) = Some d \<and> sd_Enabled d = enabled \<and>
    (case start of None \<Rightarrow> True | Some n \<Rightarrow> sd_ExplicitStart d \<and> sd_Start d = n)"
proof -
  have "begun_before (s0, None)" by (simp add: begun_before_def)
  from configured_kept [OF scan_run_begun [OF assms(2) this] assms(3,4)]
  have "settings_kept enabled start (s2, q1)" .
  with assms(5) have "settings_kept enabled start (s3, q3)"
    unfolding scan_run_def
    by (induction rule: rtranclp_induct) (use scan_step_settings [OF assms(1)] in blast)+
  then show ?thesis by (simp add: settings_kept_def same_settings_def)
qed

end
