(* ===== verification/ActivitySamples.thy ===== *)
theory ActivitySamples
  imports ActivityRun Records
begin

text \<open>Concrete runs of the activity index: each property applied where its hypotheses hold.\<close>

definition steady_io :: "int io" where
  "steady_io = sample_io\<lparr> TimeNow := (\<lambda>w. (seconds 1700000000, w)) \<rparr>"

definition no_activity :: "(int, afile, activity_heap) sys" where
  "no_activity = sample_sys \<lparr> ah_lastArchiveNano = 0, ah_generation = 0, ah_index = None \<rparr>"

lemma steady_clock: "clock_ok steady_io"
  by (simp add: clock_ok_def steady_io_def seconds_def)

lemma steady_calls: "SysCall steady_io op w = (Inr (), w)"
  by (simp add: steady_io_def sample_io_def)

lemma no_activity_parts: "files no_activity = []" "ah_index (heap no_activity) = None" "ah_generation (heap no_activity) = 0"
  "ah_lastArchiveNano (heap no_activity) = 0"
  by (simp_all add: no_activity_def sample_sys_def)

lemma sample_may_add: "may_add (heap no_activity) (files no_activity) [sample_hash]"
  by (simp add: may_add_def stamps_ok_def no_activity_parts archives_of_def dir_names_def)

lemma sample_added:
  "\<exists>t. addActivityHashes steady_io [sample_hash] no_activity = (Inr 1, t) \<and> ah_index (heap t) = None \<and>
     files t = [(active_path, marshal_ids [sample_hash])]"
  by (simp add: addActivityHashes_def run_simps ParseTransactionHash_def sample_hash_pattern activityArchivePaths_def
      ReadDir_def ReadFile_def read_archives_def readActivityFile_def steady_calls no_activity_parts dir_names_def
      store_hashes_def maxActivityHashes_def atomicWriteFile_def)

theorem split_terminates_witness:
  "\<exists>chunks. splitActivityArchiveChunks [''a'', ''b''] = chunks \<and> concat chunks = [''a'', ''b''] \<and> length chunks = 1"
  using split_terminates [of "[''a'', ''b'']"] by simp

theorem activity_never_loses_witness:
  "\<exists>t. sample_hash \<in> stored_hashes (files (t :: (int, afile, activity_heap) sys))"
proof -
  obtain t where "addActivityHashes steady_io [sample_hash] no_activity = (Inr 1, t)" using sample_added by blast
  from activity_never_loses [OF steady_clock run_refl sample_may_add this run_refl]
  show ?thesis by auto
qed

theorem index_matches_files_witness:
  "\<exists>ix t. set (ai_ids (ix :: activityIndex)) = stored_hashes (files (t :: (int, afile, activity_heap) sys)) \<and> distinct (ai_ids ix) \<and> ai_ids ix \<noteq> []"
proof -
  obtain t where t: "addActivityHashes steady_io [sample_hash] no_activity = (Inr 1, t)" "ah_index (heap t) = None"
      "files t = [(active_path, marshal_ids [sample_hash])]"
    using sample_added by blast
  have run: "activity_run steady_io (no_activity, None) (t, None)"
    by (rule addActivityHashes_run [OF sample_may_add t(1)])
  have some: "sample_hash \<in> stored_hashes (files t)"
    using add_run(2) [OF steady_clock sample_may_add t(1) refl] by simp
  have "file_ids (marshal_ids [sample_hash]) = Inr [sample_hash]"
    by (rule file_ids_marshal) (simp_all add: sample_hash_pattern maxActivityHashes_def)
  then have "\<exists>ix u. loadActivityIndex steady_io t = (Inr ix, u)"
    by (simp add: loadActivityIndex_def cached_index_def t(2,3) run_simps activitySnapshot_def activityArchivePaths_def
        ReadDir_def ReadFile_def steady_calls dir_names_def readActivityFile_def rebuild_index_def read_archives_def Let_def)
  then obtain ix u where "loadActivityIndex steady_io t = (Inr ix, u)" by blast
  from index_matches_files [OF steady_clock no_activity_parts(2) run this]
  have ix: "set (ai_ids ix) = stored_hashes (files t)" "distinct (ai_ids ix)" by simp_all
  with some have "ai_ids ix \<noteq> []" by auto
  with ix have "set (ai_ids ix) = stored_hashes (files t) \<and> distinct (ai_ids ix) \<and> ai_ids ix \<noteq> []" by simp
  then show ?thesis by (intro exI)
qed

definition sample_aenv :: "(address, int) aenv" where
  "sample_aenv =
     \<lparr> ae_os = steady_io, ae_eth = sample_lib, ae_ChainID = 11155111, ae_Vault = [], ae_Address = (\<lambda>w. (Inr sample_hash, w)),
       ae_Activity = (\<lambda>h o' v w. (Inl ErrNotFound, w)), ae_Discover = (\<lambda>o' f a w. (Inl ErrUnavailable, w)),
       ae_Finalized = (\<lambda>w. (Inr 90, w)), ae_ScanBlock = (\<lambda>n o' w. (Inl ErrUnavailable, w)) \<rparr>"

theorem pages_partition_witness:
  "\<exists>a t. ActivityPage sample_aenv [sample_hash] 1 no_activity = (Inr a, t) \<and>
     length (ap_Transactions a) \<le> 20 \<and> 1 \<le> ap_Pages a \<and> ap_TotalTransactions a = 1"
proof -
  have "\<exists>a t. ActivityPage sample_aenv [sample_hash] 1 no_activity = (Inr a, t) \<and> ap_TotalTransactions a = 1"
    by (simp add: ActivityPage_def own_address_def sample_aenv_def run_simps loadActivityIndex_def cached_index_def
        no_activity_parts activitySnapshot_def activityArchivePaths_def ReadDir_def ReadFile_def steady_calls dir_names_def
        readActivityFile_def rebuild_index_def read_archives_def Let_def journal_extra_def page_count_def page_hashes_def
        fetch_rows_def unverified_row_def chainActivityToDomain_def ParseTransactionHash_def sample_hash_pattern
        activityState_of_def settled_def)
  then obtain a t where a: "ActivityPage sample_aenv [sample_hash] 1 no_activity = (Inr a, t)" "ap_TotalTransactions a = 1"
    by blast
  from pages_partition [OF a(1)] a show ?thesis by auto
qed

end
