(* ===== verification/ScannerSamples.thy ===== *)
theory ScannerSamples
  imports ScannerFacts ActivitySamples
begin

text \<open>A concrete scan: the settings are changed, one finalized block is fetched and stored.\<close>

definition no_scan :: "(int, afile, scan_heap) sys" where
  "no_scan = sample_sys \<lparr> ah_lastArchiveNano = 0, ah_generation = 0, ah_index = None, sc_generation = 0,
     sc_backoffUntil = zero_time, sc_backoffDuration = 0, sc_backoffInitial = 0 \<rparr>"

definition scan_aenv :: "(address, int) aenv" where
  "scan_aenv = sample_aenv\<lparr> ae_ScanBlock := (\<lambda>n o' w. (Inr \<lparr> sb_Hashes = [sample_hash], sb_Tokens = [], sb_Hash = sample_hash \<rparr>, w)) \<rparr>"

definition scan_set :: "(int, afile, scan_heap) sys" where
  "scan_set = saved (configured True (Some 50) no_progress) (no_scan\<lparr> heap := (heap no_scan)\<lparr> sc_generation := 1 \<rparr> \<rparr>)"

lemma scan_env_parts: "ae_os scan_aenv = steady_io" "ae_eth scan_aenv = sample_lib"
  "ae_Finalized scan_aenv w = (Inr 90, w)" "ae_Address scan_aenv w = (Inr sample_hash, w)"
  "ae_ScanBlock scan_aenv n a w = (Inr \<lparr> sb_Hashes = [sample_hash], sb_Tokens = [], sb_Hash = sample_hash \<rparr>, w)"
  by (simp_all add: scan_aenv_def sample_aenv_def)

lemma scan_final_blocks: "final_blocks scan_aenv (HexToAddress sample_lib sample_hash) (\<lambda>_. {sample_hash})"
  by (simp add: final_blocks_def scan_env_parts)

lemma zero_json_time: "json_time zero_time"
  by (simp add: json_time_def zero_time_def seconds_def)

lemma steady_write: "atomicWriteFile steady_io p d s = (Inr (), put_file p d s)"
  by (simp add: atomicWriteFile_def run_simps steady_calls)

lemma steady_save: "json_time (ss_UpdatedAt st) \<Longrightarrow> save_progress scan_aenv st s = (Inr (), saved st s)"
  by (simp add: save_progress_def run_simps scan_env_parts steady_write saved_def)

lemma sample_configured: "\<exists>p. ConfigureScan scan_aenv True (Some 50) no_scan = (Inr p, scan_set)"
  by (simp add: ConfigureScan_def scanProgress_def run_simps scan_env_parts ReadFile_def steady_calls steady_save
      no_scan_def scan_set_def sample_sys_def configured_def no_progress_def zero_json_time saved_def put_file_def Let_def)


lemma scan_set_parts: "files scan_set = [(scan_path, Progress (scanProgressToDisk (configured True (Some 50) no_progress)))]"
  "heap scan_set = \<lparr> ah_lastArchiveNano = 0, ah_generation = 0, ah_index = None, sc_generation = 1,
     sc_backoffUntil = zero_time, sc_backoffDuration = 0, sc_backoffInitial = 0 \<rparr>"
  "world scan_set = seconds 1700000000"
  by (simp_all add: scan_set_def saved_def put_file_def no_scan_def sample_sys_def)

lemma sample_begun: "scan_begin scan_aenv scan_set =
    (Inr (Some (configured True (Some 50) no_progress, HexToAddress sample_lib sample_hash, 1)), scan_set)"
  by (simp add: scan_begin_def scanProgress_def own_address_def run_simps scan_env_parts ReadFile_def steady_calls
      scan_set_parts configured_def no_progress_def progress_in_def scanProgressFromDisk_def
      scanProgressToDisk_def)

definition sample_block :: ScannedBlock where
  "sample_block = \<lparr> sb_Hashes = [sample_hash], sb_Tokens = [], sb_Hash = sample_hash \<rparr>"

definition fetched_state :: scanState where
  "fetched_state = with_final 90 (configured True (Some 50) no_progress)"

lemma sample_fetched: "scan_fetch scan_aenv (configured True (Some 50) no_progress) a scan_set =
    (Inr (fetched_state, Inr (Some sample_block)), scan_set)"
  by (simp add: scan_fetch_def run_simps scan_env_parts with_final_def configured_def no_progress_def sample_block_def
      fetched_state_def Let_def)

lemma sample_scan_may_add: "may_add (heap scan_set) (files scan_set) [sample_hash]"
  by (simp add: may_add_def stamps_ok_def scan_set_parts archives_of_def dir_names_def)

lemma steady_time: "TimeNow steady_io w = (seconds 1700000000, w)"
  by (simp add: steady_io_def)

lemma fetched_parts: "ss_Start fetched_state = 50" "ss_Next fetched_state = 50" "ss_Enabled fetched_state"
  by (simp_all add: fetched_state_def with_final_def configured_def no_progress_def Let_def)

lemma seconds_json_time: "json_time (seconds 1700000000)"
  by (simp add: json_time_def seconds_def)

lemma sample_finished:
  "\<exists>t d. scan_finish scan_aenv 1 fetched_state (Inr (Some sample_block)) scan_set = (Inr (), t) \<and>
     disk_progress (files t) = Some d \<and> sd_Start d = 50 \<and> sd_Next d = 51 \<and> sd_Enabled d"
  by (simp add: scan_finish_def run_simps store_block_def addActivityHashes_def ParseTransactionHash_def sample_hash_pattern
      scan_path_simps(2) [symmetric] activityArchivePaths_def ReadDir_def ReadFile_def read_archives_def readActivityFile_def steady_calls dir_names_def
      store_hashes_def maxActivityHashes_def steady_write steady_time scan_env_parts scan_set_parts fetched_parts seconds_json_time
      sample_block_def advance_def steady_save disk_progress_saved Let_def)


lemma no_scan_parts: "files no_scan = []" "sc_generation (heap no_scan) = 0"
  by (simp_all add: no_scan_def sample_sys_def)

lemma sample_begin_step: "scan_step c scan_aenv (scan_set, None)
    (scan_set, Some (Begun (configured True (Some 50) no_progress) (HexToAddress sample_lib sample_hash) 1))"
  by (rule scan_step.Begin [OF sample_begun])

theorem scan_covers_witness:
  "\<exists>(t :: (int, afile, scan_heap) sys) d. disk_progress (files t) = Some d \<and> sd_Next d = 51 \<and>
     {sample_hash} \<subseteq> stored_hashes (files t)"
proof -
  obtain p where p: "ConfigureScan scan_aenv True (Some 50) no_scan = (Inr p, scan_set)" using sample_configured by blast
  obtain t d where t: "scan_finish scan_aenv 1 fetched_state (Inr (Some sample_block)) scan_set = (Inr (), t)"
    and d: "disk_progress (files t) = Some d" "sd_Start d = 50" "sd_Next d = 51"
    using sample_finished by blast
  have add: "may_add (heap scan_set) (files scan_set) (sb_Hashes b)" if "Inr (Some sample_block) = (Inr (Some b) :: err + _)" for b
    using that sample_scan_may_add by (auto simp: sample_block_def)
  have "scan_run True scan_aenv (no_scan, None) (scan_set, None)"
    by (rule scan_run_step [OF scan_run_refl scan_step.Configure [OF _ _ p]]) (simp_all add: no_scan_parts)
  from scan_run_step [OF scan_run_step [OF scan_run_step [OF this sample_begin_step] scan_step.Fetch [OF sample_fetched]]
      scan_step.Finish [OF add t]]
  have run: "scan_run True scan_aenv (no_scan, None) (t, None)" .
  have "clock_ok (ae_os scan_aenv)" "map_of (files no_scan) scan_path = None"
    by (simp_all add: scan_env_parts steady_clock no_scan_parts)
  from scan_covers [OF this(1) scan_final_blocks this(2) run d(1), of 50] d show ?thesis by auto
qed

theorem configuration_survives_witness:
  "\<exists>d. disk_progress (files scan_set) = Some d \<and> sd_Enabled d = True \<and> sd_ExplicitStart d \<and> sd_Start d = 50"
proof -
  obtain p where p: "ConfigureScan scan_aenv True (Some 50) no_scan = (Inr p, scan_set)" using sample_configured by blast
  have run: "scan_run False scan_aenv (scan_set, None)
      (scan_set, Some (Begun (configured True (Some 50) no_progress) (HexToAddress sample_lib sample_hash) 1))"
    by (rule scan_run_step [OF scan_run_refl sample_begin_step])
  have "clock_ok (ae_os scan_aenv)" "unat (sc_generation (heap no_scan)) + 1 < 2 ^ 64"
    by (simp_all add: scan_env_parts steady_clock no_scan_parts)
  from configuration_survives [OF this(1) scan_run_refl this(2) p run] show ?thesis by simp
qed

end
