(* ===== verification/ChainActivityFacts.thy ===== *)
theory ChainActivityFacts
  imports ChainActivity ChainFacts
begin

text \<open>The movements read from a receipt, against the balances its logs describe.\<close>

definition signed :: "movementRecord \<Rightarrow> int" where
  "signed m = (if mr_kind m = movementReceive then mr_raw m else - mr_raw m)"

definition net :: "string \<Rightarrow> movementRecord list \<Rightarrow> int" where
  "net asset ms = (\<Sum>m\<leftarrow>ms. if mr_asset m = asset then signed m else 0)"

lemma net_simps [simp]: "net a [] = 0" "net a (m # ms) = (if mr_asset m = a then signed m else 0) + net a ms"
  "net a (ms @ ms') = net a ms + net a ms'"
  by (simp_all add: net_def)

lemma net_moved [simp]:
  "0 \<le> amount \<Longrightarrow> net a (moved kind asset amount other ev) =
     (if asset = a then (if kind = movementReceive then amount else - amount) else 0)"
  by (simp add: moved_def signed_def)

lemma net_moved_other [simp]: "asset \<noteq> a \<Longrightarrow> net a (moved kind asset amount other ev) = 0"
  by (simp add: moved_def)

text \<open>
  What an event says about the balance of \<open>owner\<close>: \<open>Transfer(from, to, value)\<close> of any
  token, and on Sepolia \<open>Deposit(to, value)\<close> and \<open>Withdrawal(from, value)\<close> of the wrapped
  ether.  An address that is not twenty bytes long names nobody.
\<close>

definition party :: "address \<Rightarrow> hash32 \<Rightarrow> bool" where
  "party owner t \<longleftrightarrow> t = address_topic owner"

definition weth_event :: "('k, 'm) ethlib_scheme \<Rightarrow> int \<Rightarrow> hash32 \<Rightarrow> log \<Rightarrow> bool" where
  "weth_event E chainID event l \<longleftrightarrow>
     chainID = SepoliaID \<and> lg_Address l = HexToAddress E SepoliaWETH \<and> length (lg_Topics l) = 2 \<and> lg_Topics l ! 0 = event"

definition credits :: "('k, 'm) ethlib_scheme \<Rightarrow> address \<Rightarrow> int \<Rightarrow> log \<Rightarrow> bool" where
  "credits E owner chainID l \<longleftrightarrow>
     is_transfer E l \<and> zero_padded (lg_Topics l ! 1) \<and> party owner (lg_Topics l ! 2) \<or>
     weth_event E chainID (depositTopic E) l \<and> party owner (lg_Topics l ! 1)"

definition debits :: "('k, 'm) ethlib_scheme \<Rightarrow> address \<Rightarrow> int \<Rightarrow> log \<Rightarrow> bool" where
  "debits E owner chainID l \<longleftrightarrow>
     is_transfer E l \<and> zero_padded (lg_Topics l ! 2) \<and> party owner (lg_Topics l ! 1) \<or>
     weth_event E chainID (withdrawalTopic E) l \<and> party owner (lg_Topics l ! 1)"

definition balance_change :: "('k, 'm) ethlib_scheme \<Rightarrow> address \<Rightarrow> int \<Rightarrow> string \<Rightarrow> log \<Rightarrow> int" where
  "balance_change E owner chainID asset l =
     (if AddressHex E (lg_Address l) \<noteq> asset \<or> length (lg_Data l) \<noteq> 32 then 0
      else (if credits E owner chainID l then int (be_val (lg_Data l)) else 0) -
           (if debits E owner chainID l then int (be_val (lg_Data l)) else 0))"

lemma party_padded: "party owner t \<Longrightarrow> zero_padded t"
proof -
  have bound: "unat owner < 2 ^ 160" using unsigned_less [of owner] by simp
  have "unat (address_topic owner) < 2 ^ 160"
    unfolding address_topic_def unsigned_ucast_eq using order_le_less_trans [OF take_bit_nat_less_eq_self bound]
    by simp
  then show "party owner t \<Longrightarrow> zero_padded t" by (simp add: party_def zero_padded_def)
qed

lemma log_movements_net:
  assumes "asset \<noteq> ''ETH''"
  shows "net asset (log_movements E owner chainID l) = balance_change E owner chainID asset l"
proof (cases "length (lg_Data l) = 32")
  case False
  then show ?thesis by (simp add: log_movements_def balance_change_def)
next
  case True
  show ?thesis
  proof (cases "is_transfer E l")
    case tr: True
    then have "length (lg_Topics l) \<noteq> 2" by (simp add: is_transfer_def)
    then show ?thesis using True tr party_padded
      by (auto simp: log_movements_def balance_change_def credits_def debits_def weth_event_def party_def Let_def)
  next
    case False
    then show ?thesis using True assms
      by (auto simp: log_movements_def balance_change_def credits_def debits_def weth_event_def party_def Let_def)
  qed
qed

lemma logs_movements_net:
  "logs_movements E r owner chainID seen ls = Inr ms \<Longrightarrow> asset \<noteq> ''ETH'' \<Longrightarrow>
   net asset ms = (\<Sum>l\<leftarrow>ls. case l of None \<Rightarrow> 0 | Some l \<Rightarrow> balance_change E owner chainID asset l)"
  by (induction E r owner chainID seen ls arbitrary: ms rule: logs_movements.induct)
    (auto simp: log_movements_net ebind_eq_Inr split: if_splits)

text \<open>
  C24: The movements that are read from the receipt of a successful transaction account for each
  token exactly: for every asset other than the native one, what was received less what was
  sent is the change of the owner's balance that the events of the token's contract describe.
\<close>

theorem receiptMovements_net:
  assumes "receiptMovements E tx r sender owner chainID = Inr ms" and "rc_Status r = 1"
    and "asset \<noteq> ''ETH''" and "asset \<noteq> ''POL''"
  shows "net asset ms =
    (\<Sum>l\<leftarrow>rc_Logs r. case l of None \<Rightarrow> 0 | Some l \<Rightarrow> balance_change E owner chainID asset l)"
proof -
  from assms(1,2) obtain fee sent received rest where ms: "ms = fee @ sent @ received @ rest"
    and zero: "net asset fee = 0" "net asset sent = 0" "net asset received = 0"
    and rest: "logs_movements E r owner chainID [] (rc_Logs r) = Inr rest"
    using assms(3,4) by (auto simp: receiptMovements_def Let_def ebind_eq_Inr)
  from logs_movements_net [OF rest assms(3)] ms zero show ?thesis by simp
qed

definition sample_transfer_log :: log where
  "sample_transfer_log = \<lparr> lg_Address = 3, lg_Topics = [transferTopic sample_lib, address_topic 9, address_topic 5],
     lg_Data = replicate 31 0 @ [7], lg_BlockNumber = 80, lg_TxHash = 11, lg_BlockHash = 42, lg_Index = 0, lg_Removed = False \<rparr>"

theorem receiptMovements_net_witness:
  "\<exists>ms. receiptMovements sample_lib sample_tx ((sample_receipt 11)\<lparr> rc_Logs := [Some sample_transfer_log] \<rparr>) 5 5 11155111
      = (Inr ms :: err + movementRecord list) \<and> net (AddressHex sample_lib 3) ms = 7"
proof -
  let ?r = "(sample_receipt 11)\<lparr> rc_Logs := [Some sample_transfer_log] \<rparr>"
  have zeros: "foldl (\<lambda>a b. 256 * a + unat b) 0 (replicate n (0 :: 8 word)) = 0" for n by (induction n) simp_all
  have value_7: "be_val (replicate 31 0 @ [7]) = 7" unfolding be_val_def foldl_append zeros by simp
  have topics: "lg_Topics sample_transfer_log ! 1 = 9" "lg_Topics sample_transfer_log ! 2 = 5" "address_topic 5 = 5" "address_topic 9 = 9"
    by (simp_all add: sample_transfer_log_def address_topic_def)
  have tr: "is_transfer sample_lib sample_transfer_log" by (simp add: is_transfer_def sample_transfer_log_def)
  have "log_valid ?r sample_transfer_log" by (simp add: log_valid_def sample_receipt_def sample_transfer_log_def)
  then obtain ms where ms: "receiptMovements sample_lib sample_tx ?r 5 5 11155111 = Inr ms"
    by (simp add: receiptMovements_def Let_def sample_receipt_def)
  have asset: "AddressHex sample_lib 3 \<noteq> ''ETH''" "AddressHex sample_lib 3 \<noteq> ''POL''"
    by (simp_all add: sample_lib_def sample_eth_def sample_hex_def)
  have parts: "rc_Status ?r = 1" "rc_Logs ?r = [Some sample_transfer_log]" by (simp_all add: sample_receipt_def)
  have "balance_change sample_lib 5 11155111 (AddressHex sample_lib 3) sample_transfer_log = 7"
    using tr topics value_7
    by (simp add: balance_change_def credits_def debits_def party_def weth_event_def zero_padded_def sample_transfer_log_def)
  with receiptMovements_net [OF ms parts(1) asset] parts(2) ms show ?thesis by auto
qed

end
