(* ===== verification/UserOp.thy ===== *)
theory UserOp
  imports Json
begin

text \<open>
  internal/wallet/erc4337: types.go, encoding.go and hash.go.  The two forms of a user
  operation, what makes them valid, the conversion between them, and the hash an account signs
  for an EntryPoint of either version.  The ABI codec of go-ethereum is a parameter.
\<close>

section \<open>Errors and operations\<close>

text \<open>
  The sentinels of the package; \<open>AaRPC\<close> is an error of the bundler (code, message, data),
  \<open>AaNew\<close> an error made in place, \<open>AaExt\<close> one of a library or of the key store.
\<close>

datatype aa_err =
    ErrNilUserOp | ErrNilPackedUserOp | ErrInvalidSender | ErrNilField | ErrNegativeValue
  | ErrGasFeeInconsistent | ErrGasLimitOverflow | ErrGasFeeOverflow | ErrUint256Overflow
  | ErrInvalidPaymasterLength | ErrInvalidPackedGasLimits | ErrInvalidPackedGasFees
  | ErrInvalidHexFormat | ErrInvalidChainID | ErrInvalidEntryPoint
  | ErrInvalidExecuteVal | ErrBatchLengthMismatch | ErrEmptyBatch | ErrNilTransaction
  | ErrContractCreationTx | ErrInvalidMultiplier
  | ErrNilPrivateKey | ErrInvalidSigLen | ErrNonLowSSignature | ErrNilDecrypter
  | ErrClientNilEndpoint | ErrReceiptNotFound
  | AaRPC int string "json option"
  | AaNew string
  | AaExt string

text \<open>A \<^verbatim>\<open>*big.Int\<close> may be \<^verbatim>\<open>nil\<close>; byte slices are compared by their contents.\<close>

record UserOperation =
  uo_Sender :: address
  uo_Nonce :: "int option"
  uo_InitCode :: bytes
  uo_CallData :: bytes
  uo_CallGasLimit :: "int option"
  uo_VerificationGasLimit :: "int option"
  uo_PreVerificationGas :: "int option"
  uo_MaxFeePerGas :: "int option"
  uo_MaxPriorityFeePerGas :: "int option"
  uo_PaymasterAndData :: bytes
  uo_Signature :: bytes

text \<open>The two \<^verbatim>\<open>[32]byte\<close> fields are lists of thirty-two bytes.\<close>

record PackedUserOperation =
  po_Sender :: address
  po_Nonce :: "int option"
  po_InitCode :: bytes
  po_CallData :: bytes
  po_AccountGasLimits :: bytes
  po_PreVerificationGas :: "int option"
  po_GasFees :: bytes
  po_PaymasterAndData :: bytes
  po_Signature :: bytes

definition EntryPointV06 :: "('k, 'm) ethlib_scheme \<Rightarrow> address" where
  "EntryPointV06 E = HexToAddress E ''0x5FF137D4b0FDCD49DcA30c7CF57E578a026d2789''"

definition EntryPointV07 :: "('k, 'm) ethlib_scheme \<Rightarrow> address" where
  "EntryPointV07 E = HexToAddress E ''0x0000000071727De22E5E9d8BAf0edAc6f37da032''"

definition maxUint128 :: int where
  "maxUint128 = 2 ^ 128 - 1"

section \<open>Validation\<close>

text \<open>The value behind a pointer that has been checked.\<close>

definition big :: "int option \<Rightarrow> int" where
  "big x = (case x of None \<Rightarrow> 0 | Some n \<Rightarrow> n)"

lemma big_simps [simp]: "big (Some n) = n" "big None = 0"
  by (simp_all add: big_def)

text \<open>None of the numbers is nil, none is negative, none is longer than 256 bits.\<close>

definition check_bigs :: "int option list \<Rightarrow> aa_err + unit" where
  "check_bigs xs =
     (if None \<in> set xs then Inl ErrNilField
      else if list_ex (\<lambda>x. big x < 0) xs then Inl ErrNegativeValue
      else if list_ex (\<lambda>x. 2 ^ 256 \<le> \<bar>big x\<bar>) xs then Inl ErrUint256Overflow
      else Inr ())"

definition Validate :: "UserOperation option \<Rightarrow> aa_err + unit" where
  "Validate op =
     (case op of
        None \<Rightarrow> Inl ErrNilUserOp
      | Some op \<Rightarrow>
          if uo_Sender op = 0 then Inl ErrInvalidSender
          else ebind (check_bigs [uo_Nonce op, uo_CallGasLimit op, uo_VerificationGasLimit op,
                        uo_PreVerificationGas op, uo_MaxFeePerGas op, uo_MaxPriorityFeePerGas op]) (\<lambda>_.
                 if big (uo_MaxFeePerGas op) < big (uo_MaxPriorityFeePerGas op) then Inl ErrGasFeeInconsistent
                 else Inr ()))"

definition ValidatePacked :: "PackedUserOperation option \<Rightarrow> aa_err + unit" where
  "ValidatePacked op =
     (case op of
        None \<Rightarrow> Inl ErrNilPackedUserOp
      | Some op \<Rightarrow>
          if po_Sender op = 0 then Inl ErrInvalidSender
          else check_bigs [po_Nonce op, po_PreVerificationGas op])"

section \<open>Two numbers in thirty-two bytes\<close>

definition PackUint128Pair :: "int option \<Rightarrow> int option \<Rightarrow> aa_err + bytes" where
  "PackUint128Pair high low =
     (case (high, low) of
        (Some h, Some l) \<Rightarrow>
          if h < 0 \<or> l < 0 then Inl ErrNegativeValue
          else if maxUint128 < h \<or> maxUint128 < l then Inl ErrGasLimitOverflow
          else Inr (be_bytes 16 (nat h) @ be_bytes 16 (nat l))
      | _ \<Rightarrow> Inl ErrNilField)"

definition UnpackUint128Pair :: "bytes \<Rightarrow> int option \<times> int option" where
  "UnpackUint128Pair packed = (Some (int (be_val (take 16 packed))), Some (int (be_val (drop 16 packed))))"

definition ToPacked :: "UserOperation option \<Rightarrow> aa_err + PackedUserOperation" where
  "ToPacked op =
     ebind (Validate op) (\<lambda>_.
       case op of
         None \<Rightarrow> Inl ErrNilUserOp
       | Some op \<Rightarrow>
           if maxUint128 < big (uo_VerificationGasLimit op) \<or> maxUint128 < big (uo_CallGasLimit op)
           then Inl ErrGasLimitOverflow
           else ebind (PackUint128Pair (uo_VerificationGasLimit op) (uo_CallGasLimit op)) (\<lambda>accountGasLimits.
             if maxUint128 < big (uo_MaxPriorityFeePerGas op) \<or> maxUint128 < big (uo_MaxFeePerGas op)
             then Inl ErrGasFeeOverflow
             else ebind (PackUint128Pair (uo_MaxPriorityFeePerGas op) (uo_MaxFeePerGas op)) (\<lambda>gasFees.
               if 0 < length (uo_PaymasterAndData op) \<and> length (uo_PaymasterAndData op) < 52
               then Inl ErrInvalidPaymasterLength
               else Inr \<lparr> po_Sender = uo_Sender op, po_Nonce = uo_Nonce op, po_InitCode = uo_InitCode op,
                          po_CallData = uo_CallData op, po_AccountGasLimits = accountGasLimits,
                          po_PreVerificationGas = uo_PreVerificationGas op, po_GasFees = gasFees,
                          po_PaymasterAndData = uo_PaymasterAndData op, po_Signature = uo_Signature op \<rparr>)))"

definition Unpack :: "PackedUserOperation option \<Rightarrow> aa_err + UserOperation" where
  "Unpack op =
     ebind (ValidatePacked op) (\<lambda>_.
       case op of
         None \<Rightarrow> Inl ErrNilPackedUserOp
       | Some op \<Rightarrow>
           let (verificationGasLimit, callGasLimit) = UnpackUint128Pair (po_AccountGasLimits op);
               (maxPriorityFeePerGas, maxFeePerGas) = UnpackUint128Pair (po_GasFees op) in
           Inr \<lparr> uo_Sender = po_Sender op, uo_Nonce = po_Nonce op, uo_InitCode = po_InitCode op,
                 uo_CallData = po_CallData op, uo_CallGasLimit = callGasLimit,
                 uo_VerificationGasLimit = verificationGasLimit, uo_PreVerificationGas = po_PreVerificationGas op,
                 uo_MaxFeePerGas = maxFeePerGas, uo_MaxPriorityFeePerGas = maxPriorityFeePerGas,
                 uo_PaymasterAndData = po_PaymasterAndData op, uo_Signature = po_Signature op \<rparr>)"

section \<open>The ABI tuple\<close>

text \<open>The codec of the tuple type and the encoders of the two calls of an account.\<close>

record aa_abi =
  aa_PackTuple :: "UserOperation \<Rightarrow> aa_err + bytes"
  aa_UnpackTuple :: "bytes \<Rightarrow> aa_err + UserOperation list"
  aa_PackExecute :: "address \<Rightarrow> int \<Rightarrow> bytes \<Rightarrow> aa_err + bytes"
  aa_PackExecuteBatch :: "address list \<Rightarrow> int list \<Rightarrow> bytes list \<Rightarrow> aa_err + bytes"

definition PackUserOpTuple :: "'m aa_abi_scheme \<Rightarrow> UserOperation option \<Rightarrow> aa_err + bytes" where
  "PackUserOpTuple A op =
     (case op of
        None \<Rightarrow> Inl ErrNilUserOp
      | Some o' \<Rightarrow> ebind (Validate op) (\<lambda>_. aa_PackTuple A o'))"

definition UnpackUserOpTuple :: "'m aa_abi_scheme \<Rightarrow> bytes \<Rightarrow> aa_err + UserOperation" where
  "UnpackUserOpTuple A data =
     ebind (aa_UnpackTuple A data) (\<lambda>out.
       case out of [] \<Rightarrow> Inl (AaNew ''empty tuple'') | op # _ \<Rightarrow> Inr op)"

section \<open>Hashes\<close>

text \<open>A word of thirty-two bytes that holds an address, a number or a hash.\<close>

definition address_word :: "address \<Rightarrow> bytes" where
  "address_word a = replicate 12 0 @ be_bytes 20 (unat a)"

definition big_word :: "int option \<Rightarrow> bytes" where
  "big_word n = be_bytes 32 (nat (big n))"

definition hash_word :: "('k, 'm) ethlib_scheme \<Rightarrow> bytes \<Rightarrow> bytes" where
  "hash_word E bs = be_bytes 32 (unat (Keccak256 E bs))"

definition PackUserOp :: "('k, 'm) ethlib_scheme \<Rightarrow> UserOperation option \<Rightarrow> aa_err + bytes" where
  "PackUserOp E op =
     (case op of
        None \<Rightarrow> Inl ErrNilUserOp
      | Some o' \<Rightarrow>
          ebind (Validate op) (\<lambda>_.
            Inr (concat [address_word (uo_Sender o'), big_word (uo_Nonce o'), hash_word E (uo_InitCode o'),
                         hash_word E (uo_CallData o'), big_word (uo_CallGasLimit o'), big_word (uo_VerificationGasLimit o'),
                         big_word (uo_PreVerificationGas o'), big_word (uo_MaxFeePerGas o'),
                         big_word (uo_MaxPriorityFeePerGas o'), hash_word E (uo_PaymasterAndData o')])))"

definition PackPackedUserOp :: "('k, 'm) ethlib_scheme \<Rightarrow> PackedUserOperation option \<Rightarrow> aa_err + bytes" where
  "PackPackedUserOp E op =
     ebind (ValidatePacked op) (\<lambda>_.
       case op of
         None \<Rightarrow> Inl ErrNilPackedUserOp
       | Some op \<Rightarrow>
           Inr (concat [address_word (po_Sender op), big_word (po_Nonce op), hash_word E (po_InitCode op),
                        hash_word E (po_CallData op), po_AccountGasLimits op, big_word (po_PreVerificationGas op),
                        po_GasFees op, hash_word E (po_PaymasterAndData op)]))"

definition CalculateInnerHash :: "('k, 'm) ethlib_scheme \<Rightarrow> UserOperation option \<Rightarrow> aa_err + hash32" where
  "CalculateInnerHash E op = ebind (PackUserOp E op) (\<lambda>packed. Inr (Keccak256 E packed))"

definition CalculatePackedInnerHash :: "('k, 'm) ethlib_scheme \<Rightarrow> PackedUserOperation option \<Rightarrow> aa_err + hash32" where
  "CalculatePackedInnerHash E op = ebind (PackPackedUserOp E op) (\<lambda>packed. Inr (Keccak256 E packed))"

definition PackUserOpHashData :: "hash32 \<Rightarrow> address \<Rightarrow> int option \<Rightarrow> aa_err + bytes" where
  "PackUserOpHashData innerHash entryPoint chainID =
     (if entryPoint = 0 then Inl ErrInvalidEntryPoint
      else if chainID = None \<or> big chainID \<le> 0 then Inl ErrInvalidChainID
      else if 2 ^ 256 \<le> \<bar>big chainID\<bar> then Inl ErrUint256Overflow
      else Inr (be_bytes 32 (unat innerHash) @ address_word entryPoint @ big_word chainID))"

definition GetUserOpHashV06 ::
    "('k, 'm) ethlib_scheme \<Rightarrow> UserOperation option \<Rightarrow> address \<Rightarrow> int option \<Rightarrow> aa_err + hash32" where
  "GetUserOpHashV06 E op entryPoint chainID =
     ebind (CalculateInnerHash E op) (\<lambda>innerHash.
     ebind (PackUserOpHashData innerHash entryPoint chainID) (\<lambda>outerBytes. Inr (Keccak256 E outerBytes)))"

definition GetUserOpHashV07 ::
    "('k, 'm) ethlib_scheme \<Rightarrow> PackedUserOperation option \<Rightarrow> address \<Rightarrow> int option \<Rightarrow> aa_err + hash32" where
  "GetUserOpHashV07 E op entryPoint chainID =
     ebind (CalculatePackedInnerHash E op) (\<lambda>innerHash.
     ebind (PackUserOpHashData innerHash entryPoint chainID) (\<lambda>outerBytes. Inr (Keccak256 E outerBytes)))"

definition GetUserOpHash ::
    "('k, 'm) ethlib_scheme \<Rightarrow> UserOperation option \<Rightarrow> address \<Rightarrow> int option \<Rightarrow> aa_err + hash32" where
  "GetUserOpHash E op entryPoint chainID =
     (if op = None then Inl ErrNilUserOp
      else if entryPoint = 0 then Inl ErrInvalidEntryPoint
      else if chainID = None \<or> big chainID \<le> 0 then Inl ErrInvalidChainID
      else if entryPoint = EntryPointV07 E
      then ebind (ToPacked op) (\<lambda>packed. GetUserOpHashV07 E (Some packed) entryPoint chainID)
      else GetUserOpHashV06 E op entryPoint chainID)"

end
