(* ===== verification/UserOpFacts.thy ===== *)
theory UserOpFacts
  imports UserOp Contracts
begin

text \<open>
  The two forms of a user operation carry the same information, and the hash that is signed
  determines the operation, the EntryPoint and the chain.
\<close>

section \<open>Validation\<close>

definition in256 :: "int option \<Rightarrow> bool" where
  "in256 x \<longleftrightarrow> (\<exists>n. x = Some n \<and> 0 \<le> n \<and> n < 2 ^ 256)"

lemma in256_big: "in256 x \<longleftrightarrow> None \<noteq> x \<and> \<not> big x < 0 \<and> \<not> 2 ^ 256 \<le> \<bar>big x\<bar>"
  by (cases x) (auto simp: in256_def)

lemma check_bigs_ok: "check_bigs xs = Inr u \<longleftrightarrow> list_all in256 xs"
proof -
  have "list_all in256 xs \<longleftrightarrow>
      None \<notin> set xs \<and> \<not> list_ex (\<lambda>x. big x < 0) xs \<and> \<not> list_ex (\<lambda>x. 2 ^ 256 \<le> \<bar>big x\<bar>) xs"
    by (induction xs) (auto simp: in256_big simp del: not_None_eq)
  then show ?thesis by (simp add: check_bigs_def)
qed

lemma Validate_ok: "Validate op = Inr u \<longleftrightarrow>
    (\<exists>o'. op = Some o' \<and> uo_Sender o' \<noteq> 0 \<and>
       list_all in256 [uo_Nonce o', uo_CallGasLimit o', uo_VerificationGasLimit o', uo_PreVerificationGas o',
         uo_MaxFeePerGas o', uo_MaxPriorityFeePerGas o'] \<and>
       big (uo_MaxPriorityFeePerGas o') \<le> big (uo_MaxFeePerGas o'))"
  by (cases op) (auto simp: Validate_def ebind_eq_Inr check_bigs_ok)

lemma ValidatePacked_ok: "ValidatePacked op = Inr u \<longleftrightarrow>
    (\<exists>o'. op = Some o' \<and> po_Sender o' \<noteq> 0 \<and> in256 (po_Nonce o') \<and> in256 (po_PreVerificationGas o'))"
  by (cases op) (auto simp: ValidatePacked_def check_bigs_ok)

section \<open>Two numbers in thirty-two bytes\<close>

definition in128 :: "int option \<Rightarrow> bool" where
  "in128 x \<longleftrightarrow> (\<exists>n. x = Some n \<and> 0 \<le> n \<and> n \<le> maxUint128)"

lemma PackUint128Pair_ok:
  "PackUint128Pair high low = Inr bs \<longleftrightarrow>
     in128 high \<and> in128 low \<and> bs = be_bytes 16 (nat (big high)) @ be_bytes 16 (nat (big low))"
  by (cases high; cases low) (auto simp: PackUint128Pair_def in128_def)

lemma be_16: "in128 x \<Longrightarrow> Some (int (be_val (be_bytes 16 (nat (big x))))) = x"
proof -
  assume "in128 x"
  then obtain n where n: "x = Some n" "0 \<le> n" "n \<le> 2 ^ 128 - 1" by (auto simp: in128_def maxUint128_def)
  then have "nat n < 256 ^ 16" by (simp add: nat_less_iff)
  from be_val_be_bytes [OF this] n show ?thesis by simp
qed

lemma UnpackUint128Pair_pack:
  "PackUint128Pair high low = Inr bs \<Longrightarrow> UnpackUint128Pair bs = (high, low)"
  by (simp add: PackUint128Pair_ok UnpackUint128Pair_def be_16)

lemma PackUint128Pair_unpack:
  assumes "length bs = 32"
  shows "PackUint128Pair (fst (UnpackUint128Pair bs)) (snd (UnpackUint128Pair bs)) = Inr bs"
proof -
  have len: "length (take 16 bs) = 16" "length (drop 16 bs) = 16" using assms by simp_all
  have bound: "be_val bs' \<le> 2 ^ 128 - 1" if "length bs' = 16" for bs'
    using be_val_less [of bs'] that by simp
  have "in128 (Some (int (be_val bs')))" if "length bs' = 16" for bs'
    using bound [OF that] by (auto simp: in128_def maxUint128_def)
  then show ?thesis using len be_bytes_be_val [of "take 16 bs"] be_bytes_be_val [of "drop 16 bs"]
    by (simp add: PackUint128Pair_ok UnpackUint128Pair_def)
qed

lemma ToPacked_ok:
  "ToPacked op = Inr p \<longleftrightarrow>
     (\<exists>o'. op = Some o' \<and> Validate op = Inr () \<and>
        PackUint128Pair (uo_VerificationGasLimit o') (uo_CallGasLimit o') = Inr (po_AccountGasLimits p) \<and>
        PackUint128Pair (uo_MaxPriorityFeePerGas o') (uo_MaxFeePerGas o') = Inr (po_GasFees p) \<and>
        (uo_PaymasterAndData o' = [] \<or> 52 \<le> length (uo_PaymasterAndData o')) \<and>
        po_Sender p = uo_Sender o' \<and> po_Nonce p = uo_Nonce o' \<and> po_InitCode p = uo_InitCode o' \<and>
        po_CallData p = uo_CallData o' \<and> po_PreVerificationGas p = uo_PreVerificationGas o' \<and>
        po_PaymasterAndData p = uo_PaymasterAndData o' \<and> po_Signature p = uo_Signature o')"
  (is "?l \<longleftrightarrow> ?r")
proof
  assume ?l
  then show ?r by (cases op) (auto simp: ToPacked_def ebind_eq_Inr split: if_splits)
next
  assume ?r
  then obtain o' where o: "op = Some o'" "Validate op = Inr ()"
    "PackUint128Pair (uo_VerificationGasLimit o') (uo_CallGasLimit o') = Inr (po_AccountGasLimits p)"
    "PackUint128Pair (uo_MaxPriorityFeePerGas o') (uo_MaxFeePerGas o') = Inr (po_GasFees p)"
    and rest: "uo_PaymasterAndData o' = [] \<or> 52 \<le> length (uo_PaymasterAndData o')"
      "po_Sender p = uo_Sender o'" "po_Nonce p = uo_Nonce o'" "po_InitCode p = uo_InitCode o'"
      "po_CallData p = uo_CallData o'" "po_PreVerificationGas p = uo_PreVerificationGas o'"
      "po_PaymasterAndData p = uo_PaymasterAndData o'" "po_Signature p = uo_Signature o'"
    by blast
  have "\<not> maxUint128 < big (uo_VerificationGasLimit o')" "\<not> maxUint128 < big (uo_CallGasLimit o')"
      "\<not> maxUint128 < big (uo_MaxPriorityFeePerGas o')" "\<not> maxUint128 < big (uo_MaxFeePerGas o')"
    using o(3,4) by (auto simp: PackUint128Pair_ok in128_def)
  with o rest show ?l by (auto simp: ToPacked_def)
qed

text \<open>
  The packed form of a user operation of EntryPoint 0.7 unpacks to the operation it was made
  from, every number and byte string unchanged; and a packed operation that unpacks to a valid
  one within the limits is the packed form of what it unpacks to.
\<close>

theorem packed_round_trip:
  "(ToPacked (Some op) = Inr p \<longrightarrow> Unpack (Some p) = Inr op) \<and>
   (Unpack (Some q) = Inr op \<and> length (po_AccountGasLimits q) = 32 \<and> length (po_GasFees q) = 32 \<and>
    Validate (Some op) = Inr () \<and> (po_PaymasterAndData q = [] \<or> 52 \<le> length (po_PaymasterAndData q)) \<longrightarrow>
      ToPacked (Some op) = Inr q)"
proof (intro conjI impI)
  assume "ToPacked (Some op) = Inr p"
  then show "Unpack (Some p) = Inr op"
    by (auto simp: ToPacked_ok Validate_ok Unpack_def ebind_eq_Inr ValidatePacked_ok dest!: UnpackUint128Pair_pack)
next
  assume "Unpack (Some q) = Inr op \<and> length (po_AccountGasLimits q) = 32 \<and> length (po_GasFees q) = 32 \<and>
    Validate (Some op) = Inr () \<and> (po_PaymasterAndData q = [] \<or> 52 \<le> length (po_PaymasterAndData q))"
  then show "ToPacked (Some op) = Inr q"
    using PackUint128Pair_unpack [of "po_AccountGasLimits q"] PackUint128Pair_unpack [of "po_GasFees q"]
    by (auto simp: ToPacked_ok Unpack_def ebind_eq_Inr split: prod.splits)
qed

section \<open>What the hash binds\<close>

lemma words_inj:
  assumes "concat xs = concat ys" and "length xs = length ys"
    and "list_all (\<lambda>x. length x = 32) xs" and "list_all (\<lambda>x. length x = 32) ys"
  shows "xs = ys"
  by (rule concat_injective [OF assms(1,2)]) (use assms(3,4) in \<open>fastforce simp: list_all_iff dest: set_zip_leftD set_zip_rightD\<close>)

lemma length_words [simp]: "length (address_word a) = 32" "length (big_word n) = 32" "length (hash_word E bs) = 32"
  by (simp_all add: address_word_def big_word_def hash_word_def)

lemma address_word_inj: "address_word a = address_word b \<longleftrightarrow> a = b"
proof -
  have "unat c < 256 ^ 20" for c :: address using unsigned_less [of c] by simp
  then show ?thesis by (simp add: address_word_def be_bytes_inj word_unat_eq_iff)
qed

lemma hash32_word_inj: "be_bytes 32 (unat (h :: hash32)) = be_bytes 32 (unat h') \<longleftrightarrow> h = h'"
proof -
  have "unat c < 256 ^ 32" for c :: hash32 using unsigned_less [of c] by simp
  then show ?thesis by (simp add: be_bytes_inj word_unat_eq_iff)
qed

lemma hash_word_inj: "hash_word E a = hash_word E b \<longleftrightarrow> Keccak256 E a = Keccak256 E b"
  by (simp add: hash_word_def hash32_word_inj)

lemma big_word_inj: "in256 a \<Longrightarrow> in256 b \<Longrightarrow> big_word a = big_word b \<longleftrightarrow> a = b"
  by (auto simp: in256_def big_word_def be_bytes_inj nat_less_iff)

text \<open>The bytes whose hash the hash of an operation is made from, and everything that is hashed on the way.\<close>

definition inner_bytes :: "('k, 'm) ethlib_scheme \<Rightarrow> UserOperation \<Rightarrow> address \<Rightarrow> aa_err + bytes" where
  "inner_bytes E op entryPoint =
     (if entryPoint = EntryPointV07 E then ebind (ToPacked (Some op)) (\<lambda>p. PackPackedUserOp E (Some p))
      else PackUserOp E (Some op))"

definition hashed :: "('k, 'm) ethlib_scheme \<Rightarrow> UserOperation \<Rightarrow> address \<Rightarrow> int option \<Rightarrow> bytes set" where
  "hashed E op entryPoint chainID =
     {uo_InitCode op, uo_CallData op, uo_PaymasterAndData op} \<union>
     {b. inner_bytes E op entryPoint = Inr b} \<union>
     {b. \<exists>i. inner_bytes E op entryPoint = Inr i \<and> PackUserOpHashData (Keccak256 E i) entryPoint chainID = Inr b}"

lemma GetUserOpHash_inner:
  assumes "GetUserOpHash E (Some op) entryPoint chainID = Inr h"
  shows "\<exists>i out. inner_bytes E op entryPoint = Inr i \<and>
    PackUserOpHashData (Keccak256 E i) entryPoint chainID = Inr out \<and> h = Keccak256 E out"
  using assms
  by (auto simp: GetUserOpHash_def GetUserOpHashV06_def GetUserOpHashV07_def CalculateInnerHash_def
      CalculatePackedInnerHash_def inner_bytes_def ebind_eq_Inr split: if_splits)

lemma outer_inj:
  assumes "PackUserOpHashData i e c = Inr out" and "PackUserOpHashData i' e' c' = Inr out"
  shows "i = i' \<and> e = e' \<and> c = c'"
proof -
  from assms have c: "in256 c" "in256 c'"
    by (auto simp: PackUserOpHashData_def in256_def split: if_splits)
  from assms have bytes: "concat [be_bytes 32 (unat i), address_word e, big_word c] = out"
      "concat [be_bytes 32 (unat i'), address_word e', big_word c'] = out"
    by (simp_all add: PackUserOpHashData_def split: if_splits)
  have "[be_bytes 32 (unat i), address_word e, big_word c] = [be_bytes 32 (unat i'), address_word e', big_word c']"
    by (rule words_inj) (use bytes in simp_all)
  then show ?thesis using c by (simp add: hash32_word_inj address_word_inj big_word_inj)
qed

definition unsigned_op :: "UserOperation \<Rightarrow> UserOperation" where
  "unsigned_op op = op\<lparr> uo_Signature := [] \<rparr>"

lemma inner_inj_v06:
  assumes "PackUserOp E (Some op) = Inr i" and "PackUserOp E (Some op') = Inr i"
    and keccak: "inj_on (Keccak256 E) H"
    and "{uo_InitCode op, uo_CallData op, uo_PaymasterAndData op} \<subseteq> H"
      "{uo_InitCode op', uo_CallData op', uo_PaymasterAndData op'} \<subseteq> H"
  shows "unsigned_op op = unsigned_op op'"
proof -
  let ?words = "\<lambda>o'. [address_word (uo_Sender o'), big_word (uo_Nonce o'), hash_word E (uo_InitCode o'),
      hash_word E (uo_CallData o'), big_word (uo_CallGasLimit o'), big_word (uo_VerificationGasLimit o'),
      big_word (uo_PreVerificationGas o'), big_word (uo_MaxFeePerGas o'),
      big_word (uo_MaxPriorityFeePerGas o'), hash_word E (uo_PaymasterAndData o')]"
  from assms(1,2) have valid: "Validate (Some op) = Inr ()" "Validate (Some op') = Inr ()"
    and bytes: "concat (?words op) = i" "concat (?words op') = i"
    by (auto simp: PackUserOp_def ebind_eq_Inr)
  have "?words op = ?words op'"
    by (rule words_inj) (use bytes in simp_all)
  then show ?thesis using valid assms(4,5)
    by (intro UserOperation.equality)
      (auto simp: unsigned_op_def Validate_ok address_word_inj big_word_inj hash_word_inj inj_on_eq_iff [OF keccak])
qed

lemma inner_inj_v07:
  assumes "ToPacked (Some op) = Inr p" "PackPackedUserOp E (Some p) = Inr i"
    and "ToPacked (Some op') = Inr p'" "PackPackedUserOp E (Some p') = Inr i"
    and keccak: "inj_on (Keccak256 E) H"
    and "{uo_InitCode op, uo_CallData op, uo_PaymasterAndData op} \<subseteq> H"
      "{uo_InitCode op', uo_CallData op', uo_PaymasterAndData op'} \<subseteq> H"
  shows "unsigned_op op = unsigned_op op'"
proof -
  let ?words = "\<lambda>p. [address_word (po_Sender p), big_word (po_Nonce p), hash_word E (po_InitCode p),
      hash_word E (po_CallData p), po_AccountGasLimits p, big_word (po_PreVerificationGas p),
      po_GasFees p, hash_word E (po_PaymasterAndData p)]"
  from assms(1,3) have len: "length (po_AccountGasLimits p) = 32" "length (po_GasFees p) = 32"
      "length (po_AccountGasLimits p') = 32" "length (po_GasFees p') = 32"
    by (auto simp: ToPacked_ok PackUint128Pair_ok)
  from assms(1) have o: "Validate (Some op) = Inr ()" "po_Sender p = uo_Sender op" "po_Nonce p = uo_Nonce op"
      "po_InitCode p = uo_InitCode op" "po_CallData p = uo_CallData op" "po_PaymasterAndData p = uo_PaymasterAndData op"
      "po_PreVerificationGas p = uo_PreVerificationGas op"
    and limits: "UnpackUint128Pair (po_AccountGasLimits p) = (uo_VerificationGasLimit op, uo_CallGasLimit op)"
      "UnpackUint128Pair (po_GasFees p) = (uo_MaxPriorityFeePerGas op, uo_MaxFeePerGas op)"
    by (auto simp: ToPacked_ok UnpackUint128Pair_pack)
  from assms(3) have o': "Validate (Some op') = Inr ()" "po_Sender p' = uo_Sender op'" "po_Nonce p' = uo_Nonce op'"
      "po_InitCode p' = uo_InitCode op'" "po_CallData p' = uo_CallData op'" "po_PaymasterAndData p' = uo_PaymasterAndData op'"
      "po_PreVerificationGas p' = uo_PreVerificationGas op'"
    and limits': "UnpackUint128Pair (po_AccountGasLimits p') = (uo_VerificationGasLimit op', uo_CallGasLimit op')"
      "UnpackUint128Pair (po_GasFees p') = (uo_MaxPriorityFeePerGas op', uo_MaxFeePerGas op')"
    by (auto simp: ToPacked_ok UnpackUint128Pair_pack)
  from assms(2,4) have bytes: "concat (?words p) = i" "concat (?words p') = i"
    by (auto simp: PackPackedUserOp_def ebind_eq_Inr)
  have words: "?words p = ?words p'"
    by (rule words_inj) (use bytes len in simp_all)
  then have "uo_VerificationGasLimit op = uo_VerificationGasLimit op'" "uo_CallGasLimit op = uo_CallGasLimit op'"
      "uo_MaxPriorityFeePerGas op = uo_MaxPriorityFeePerGas op'" "uo_MaxFeePerGas op = uo_MaxFeePerGas op'"
    using limits limits' by simp_all
  then show ?thesis using words o o' assms(6,7)
    by (intro UserOperation.equality)
      (auto simp: unsigned_op_def Validate_ok address_word_inj big_word_inj hash_word_inj inj_on_eq_iff [OF keccak])
qed

text \<open>
  C15: The hash that an account signs determines what it signs: two operations with one hash, be
  it of EntryPoint 0.6 or 0.7, are for the same EntryPoint on the same chain and agree in every
  field but the signature, provided no two different byte strings hashed on the way collide.
\<close>

theorem userOpHash_binds:
  assumes "GetUserOpHash E (Some op) entryPoint chainID = Inr h"
    and "GetUserOpHash E (Some op') entryPoint' chainID' = Inr h"
    and "inj_on (Keccak256 E) (hashed E op entryPoint chainID \<union> hashed E op' entryPoint' chainID')"
  shows "entryPoint = entryPoint' \<and> chainID = chainID' \<and> op\<lparr> uo_Signature := [] \<rparr> = op'\<lparr> uo_Signature := [] \<rparr>"
proof -
  let ?H = "hashed E op entryPoint chainID \<union> hashed E op' entryPoint' chainID'"
  obtain i out where i: "inner_bytes E op entryPoint = Inr i"
      "PackUserOpHashData (Keccak256 E i) entryPoint chainID = Inr out" "h = Keccak256 E out"
    using GetUserOpHash_inner [OF assms(1)] by blast
  obtain i' out' where i': "inner_bytes E op' entryPoint' = Inr i'"
      "PackUserOpHashData (Keccak256 E i') entryPoint' chainID' = Inr out'" "h = Keccak256 E out'"
    using GetUserOpHash_inner [OF assms(2)] by blast
  have "{i, out, i', out'} \<subseteq> ?H" using i i' by (auto simp: hashed_def)
  then have out: "out = out'" using i(3) i'(3) inj_onD [OF assms(3), of out out'] by simp
  from outer_inj [OF i(2) i'(2) [folded out]] have same: "Keccak256 E i = Keccak256 E i'" "entryPoint = entryPoint'"
      "chainID = chainID'" by simp_all
  have "i = i'" using same(1) \<open>{i, out, i', out'} \<subseteq> ?H\<close> inj_onD [OF assms(3), of i i'] by simp
  have sub: "{uo_InitCode op, uo_CallData op, uo_PaymasterAndData op} \<subseteq> ?H"
      "{uo_InitCode op', uo_CallData op', uo_PaymasterAndData op'} \<subseteq> ?H"
    by (auto simp: hashed_def)
  have "unsigned_op op = unsigned_op op'"
  proof (cases "entryPoint = EntryPointV07 E")
    case True
    with i(1) i'(1) same(2) \<open>i = i'\<close> obtain p p' where "ToPacked (Some op) = Inr p" "PackPackedUserOp E (Some p) = Inr i"
        "ToPacked (Some op') = Inr p'" "PackPackedUserOp E (Some p') = Inr i"
      by (auto simp: inner_bytes_def ebind_eq_Inr)
    from inner_inj_v07 [OF this assms(3) sub] show ?thesis .
  next
    case False
    with i(1) i'(1) same(2) \<open>i = i'\<close> have "PackUserOp E (Some op) = Inr i" "PackUserOp E (Some op') = Inr i"
      by (simp_all add: inner_bytes_def)
    from inner_inj_v06 [OF this assms(3) sub] show ?thesis .
  qed
  with same show ?thesis by (simp add: unsigned_op_def)
qed

end
