(* ===== verification/UserOpBuilder.thy ===== *)
theory UserOpBuilder
  imports UserOpFacts Decimal
begin

text \<open>
  internal/wallet/erc4337/builder.go: assembling a user operation.  A builder is changed and
  handed back by each method; a method that fails hands back an error and changes nothing.
\<close>

record Builder =
  bd_entryPoint :: address
  bd_chainID :: "int option"
  bd_op :: UserOperation

definition NewBuilder :: "address \<Rightarrow> int option \<Rightarrow> Builder" where
  "NewBuilder entryPoint chainID =
     \<lparr> bd_entryPoint = entryPoint, bd_chainID = chainID,
       bd_op = \<lparr> uo_Sender = 0, uo_Nonce = Some 0, uo_InitCode = [], uo_CallData = [], uo_CallGasLimit = Some 0,
         uo_VerificationGasLimit = Some 0, uo_PreVerificationGas = Some 0, uo_MaxFeePerGas = Some 0,
         uo_MaxPriorityFeePerGas = Some 0, uo_PaymasterAndData = [], uo_Signature = [] \<rparr> \<rparr>"

definition on_op :: "(UserOperation \<Rightarrow> UserOperation) \<Rightarrow> Builder \<Rightarrow> Builder" where
  "on_op f b = b\<lparr> bd_op := f (bd_op b) \<rparr>"

text \<open>A \<^verbatim>\<open>nil\<close> number leaves the field as it was.\<close>

definition or_old :: "int option \<Rightarrow> int option \<Rightarrow> int option" where
  "or_old x old = (case x of None \<Rightarrow> old | Some n \<Rightarrow> Some n)"

definition SetSender :: "address \<Rightarrow> Builder \<Rightarrow> Builder" where
  "SetSender sender = on_op (\<lambda>o'. o'\<lparr> uo_Sender := sender \<rparr>)"

definition SetNonce :: "int option \<Rightarrow> Builder \<Rightarrow> Builder" where
  "SetNonce nonce = on_op (\<lambda>o'. o'\<lparr> uo_Nonce := or_old nonce (uo_Nonce o') \<rparr>)"

definition SetInitCode :: "bytes \<Rightarrow> Builder \<Rightarrow> Builder" where
  "SetInitCode initCode = on_op (\<lambda>o'. o'\<lparr> uo_InitCode := initCode \<rparr>)"

definition SetCallData :: "bytes \<Rightarrow> Builder \<Rightarrow> Builder" where
  "SetCallData callData = on_op (\<lambda>o'. o'\<lparr> uo_CallData := callData \<rparr>)"

definition SetPaymasterAndData :: "bytes \<Rightarrow> Builder \<Rightarrow> Builder" where
  "SetPaymasterAndData paymasterAndData = on_op (\<lambda>o'. o'\<lparr> uo_PaymasterAndData := paymasterAndData \<rparr>)"

definition SetSignature :: "bytes \<Rightarrow> Builder \<Rightarrow> Builder" where
  "SetSignature sig = on_op (\<lambda>o'. o'\<lparr> uo_Signature := sig \<rparr>)"

definition SetGasLimits :: "int option \<Rightarrow> int option \<Rightarrow> int option \<Rightarrow> Builder \<Rightarrow> Builder" where
  "SetGasLimits callGasLimit verificationGasLimit preVerificationGas =
     on_op (\<lambda>o'. o'\<lparr> uo_CallGasLimit := or_old callGasLimit (uo_CallGasLimit o'),
       uo_VerificationGasLimit := or_old verificationGasLimit (uo_VerificationGasLimit o'),
       uo_PreVerificationGas := or_old preVerificationGas (uo_PreVerificationGas o') \<rparr>)"

definition SetGasFees :: "int option \<Rightarrow> int option \<Rightarrow> Builder \<Rightarrow> Builder" where
  "SetGasFees maxFeePerGas maxPriorityFeePerGas =
     on_op (\<lambda>o'. o'\<lparr> uo_MaxFeePerGas := or_old maxFeePerGas (uo_MaxFeePerGas o'),
       uo_MaxPriorityFeePerGas := or_old maxPriorityFeePerGas (uo_MaxPriorityFeePerGas o') \<rparr>)"

section \<open>Calls\<close>

definition executeMethodID :: "('k, 'm) ethlib_scheme \<Rightarrow> bytes" where
  "executeMethodID E = take 4 (hash_word E (map of_char ''execute(address,uint256,bytes)''))"

definition executeBatchMethodID :: "('k, 'm) ethlib_scheme \<Rightarrow> bytes" where
  "executeBatchMethodID E = take 4 (hash_word E (map of_char ''executeBatch(address[],uint256[],bytes[])''))"

definition SetExecuteCallData ::
    "('k, 'm) ethlib_scheme \<Rightarrow> 'n aa_abi_scheme \<Rightarrow> address \<Rightarrow> int option \<Rightarrow> bytes \<Rightarrow> Builder \<Rightarrow> aa_err + Builder" where
  "SetExecuteCallData E A target val data b =
     (if big val < 0 then Inl ErrInvalidExecuteVal
      else ebind (aa_PackExecute A target (big val) data) (\<lambda>callArgs.
             Inr (on_op (\<lambda>o'. o'\<lparr> uo_CallData := executeMethodID E @ callArgs \<rparr>) b)))"

definition SetExecuteBatchCallData ::
    "('k, 'm) ethlib_scheme \<Rightarrow> 'n aa_abi_scheme \<Rightarrow> address list \<Rightarrow> int option list \<Rightarrow> bytes list \<Rightarrow> Builder
      \<Rightarrow> aa_err + Builder" where
  "SetExecuteBatchCallData E A targets vals datas b =
     (if targets = [] then Inl ErrEmptyBatch
      else if length targets \<noteq> length vals \<or> length targets \<noteq> length datas then Inl ErrBatchLengthMismatch
      else if list_ex (\<lambda>v. big v < 0) vals then Inl ErrInvalidExecuteVal
      else ebind (aa_PackExecuteBatch A targets (map big vals) datas) (\<lambda>callArgs.
             Inr (on_op (\<lambda>o'. o'\<lparr> uo_CallData := executeBatchMethodID E @ callArgs \<rparr>) b)))"

text \<open>
  The fee of a transaction that is not a dynamic-fee one is its gas price; \<open>tx_fee\<close> is the
  fee cap of either, which is the gas price of the others.
\<close>

definition SetTransaction ::
    "('k, 'm) ethlib_scheme \<Rightarrow> 'n aa_abi_scheme \<Rightarrow> eth_tx option \<Rightarrow> Builder \<Rightarrow> aa_err + Builder" where
  "SetTransaction E A tx b =
     (case tx of
        None \<Rightarrow> Inl ErrNilTransaction
      | Some tx \<Rightarrow>
         (case tx_to tx of
            None \<Rightarrow> Inl ErrContractCreationTx
          | Some to \<Rightarrow>
              ebind (SetExecuteCallData E A to (Some (tx_value tx)) (tx_data tx) b) (\<lambda>b.
                let b = (if 0 < tx_gas tx then on_op (\<lambda>o'. o'\<lparr> uo_CallGasLimit := Some (uint (tx_gas tx)) \<rparr>) b else b);
                    b = (if tx_type tx = 2 then SetGasFees (Some (tx_fee tx)) (Some (tx_tip tx)) b
                         else if 0 < tx_fee tx then SetGasFees (Some (tx_fee tx)) (Some (tx_fee tx)) b
                         else b);
                    b = (if 0 < tx_nonce tx \<and> (uo_Nonce (bd_op b) = None \<or> big (uo_Nonce (bd_op b)) = 0)
                         then on_op (\<lambda>o'. o'\<lparr> uo_Nonce := Some (uint (tx_nonce tx)) \<rparr>) b else b)
                in Inr b)))"

section \<open>Fees\<close>

definition DefaultPriorityFeePerGas :: int where
  "DefaultPriorityFeePerGas = 1000000000"

definition CalculateEIP1559Fees :: "int option \<Rightarrow> int option \<Rightarrow> int \<Rightarrow> aa_err + int \<times> int" where
  "CalculateEIP1559Fees baseFee priorityFee multiplier =
     (if multiplier \<le> 0 then Inl ErrInvalidMultiplier
      else
        let feeBase = (if 0 < big baseFee then big baseFee else 0);
            tip = (if 0 < big priorityFee then big priorityFee else DefaultPriorityFeePerGas);
            bufferBaseFee = feeBase * multiplier
        in Inr (bufferBaseFee + tip, tip))"

definition EstimateGasFees :: "int option \<Rightarrow> int option \<Rightarrow> Builder \<Rightarrow> Builder" where
  "EstimateGasFees baseFee priorityFee b =
     (case CalculateEIP1559Fees baseFee priorityFee 2 of
        Inl _ \<Rightarrow> b
      | Inr (maxFee, tip) \<Rightarrow> SetGasFees (Some maxFee) (Some tip) b)"

definition DefaultPreVerificationGasOverhead :: int where
  "DefaultPreVerificationGasOverhead = 21000"

text \<open>The low thirty-two bytes of a positive number, zero for any other.\<close>

definition bigIntTo32Bytes :: "int option \<Rightarrow> bytes" where
  "bigIntTo32Bytes x = (if big x \<le> 0 then replicate 32 0 else be_bytes 32 (nat (big x)))"

text \<open>Four gas for a zero byte and sixteen for any other; the count is an \<^verbatim>\<open>int64\<close>.\<close>

definition byte_cost :: "bytes \<Rightarrow> int" where
  "byte_cost bs = 4 * int (length (filter (\<lambda>b. b = 0) bs)) + 16 * int (length (filter (\<lambda>b. b \<noteq> 0) bs))"

definition data_cost :: "UserOperation \<Rightarrow> int" where
  "data_cost op =
     byte_cost (be_bytes 20 (unat (uo_Sender op))) +
     sum_list (map (\<lambda>x. byte_cost (bigIntTo32Bytes x))
       [uo_Nonce op, uo_CallGasLimit op, uo_VerificationGasLimit op, uo_PreVerificationGas op,
        uo_MaxFeePerGas op, uo_MaxPriorityFeePerGas op]) +
     (if uo_Signature op \<noteq> [] then byte_cost (uo_Signature op) else 65 * 16) +
     byte_cost (uo_CallData op) + byte_cost (uo_InitCode op) + byte_cost (uo_PaymasterAndData op)"

definition EstimatePreVerificationGas :: "int option \<Rightarrow> Builder \<Rightarrow> int \<times> Builder" where
  "EstimatePreVerificationGas overhead b =
     (let base = (case overhead of None \<Rightarrow> DefaultPreVerificationGasOverhead | Some n \<Rightarrow> n);
          calcOnce = (\<lambda>b. base + int64 (data_cost (bd_op b)));
          firstEst = calcOnce b;
          b = on_op (\<lambda>o'. o'\<lparr> uo_PreVerificationGas := Some firstEst \<rparr>) b;
          finalEst = calcOnce b
      in (finalEst, on_op (\<lambda>o'. o'\<lparr> uo_PreVerificationGas := Some finalEst \<rparr>) b))"

definition CalcPreVerificationGas :: "UserOperation option \<Rightarrow> int option \<Rightarrow> int" where
  "CalcPreVerificationGas op overhead =
     (case op of
        None \<Rightarrow> 0
      | Some op \<Rightarrow> fst (EstimatePreVerificationGas overhead \<lparr> bd_entryPoint = 0, bd_chainID = None, bd_op = op \<rparr>))"

section \<open>The result\<close>

definition Build :: "Builder \<Rightarrow> aa_err + UserOperation" where
  "Build b =
     (if uo_Sender (bd_op b) = 0 then Inl ErrInvalidSender
      else if bd_entryPoint b = 0 then Inl ErrInvalidEntryPoint
      else if bd_chainID b = None \<or> big (bd_chainID b) \<le> 0 then Inl ErrInvalidChainID
      else ebind (Validate (Some (bd_op b))) (\<lambda>_. Inr (bd_op b)))"

section \<open>How good the estimate is\<close>

lemma byte_cost_bounds: "4 * int (length bs) \<le> byte_cost bs" "byte_cost bs \<le> 16 * int (length bs)"
  using sum_length_filter_compl [of "\<lambda>b. b = 0" bs] by (simp_all add: byte_cost_def)

lemma length_bigIntTo32Bytes [simp]: "length (bigIntTo32Bytes x) = 32"
  by (simp add: bigIntTo32Bytes_def)

definition op_length :: "UserOperation \<Rightarrow> nat" where
  "op_length op = length (uo_Signature op) + length (uo_CallData op) + length (uo_InitCode op) + length (uo_PaymasterAndData op)"

text \<open>What an operation costs apart from the word of its own preVerificationGas.\<close>

definition other_cost :: "UserOperation \<Rightarrow> int" where
  "other_cost op = data_cost op - byte_cost (bigIntTo32Bytes (uo_PreVerificationGas op))"

lemma other_cost_update [simp]: "other_cost (op\<lparr> uo_PreVerificationGas := x \<rparr>) = other_cost op"
  by (simp add: other_cost_def data_cost_def)

lemma data_cost_split: "data_cost op = other_cost op + byte_cost (bigIntTo32Bytes (uo_PreVerificationGas op))"
  by (simp add: other_cost_def)

lemma other_cost_bounds: "0 \<le> other_cost op" "other_cost op \<le> 16 * int (op_length op) + 4096"
proof -
  note b = byte_cost_bounds
  show "0 \<le> other_cost op"
    using b(1) [of "be_bytes 20 (unat (uo_Sender op))"] b(1) [of "bigIntTo32Bytes (uo_Nonce op)"]
      b(1) [of "bigIntTo32Bytes (uo_CallGasLimit op)"] b(1) [of "bigIntTo32Bytes (uo_VerificationGasLimit op)"]
      b(1) [of "bigIntTo32Bytes (uo_MaxFeePerGas op)"] b(1) [of "bigIntTo32Bytes (uo_MaxPriorityFeePerGas op)"]
      b(1) [of "uo_Signature op"] b(1) [of "uo_CallData op"] b(1) [of "uo_InitCode op"] b(1) [of "uo_PaymasterAndData op"]
    by (simp add: other_cost_def data_cost_def)
  show "other_cost op \<le> 16 * int (op_length op) + 4096"
    using b(2) [of "be_bytes 20 (unat (uo_Sender op))"] b(2) [of "bigIntTo32Bytes (uo_Nonce op)"]
      b(2) [of "bigIntTo32Bytes (uo_CallGasLimit op)"] b(2) [of "bigIntTo32Bytes (uo_VerificationGasLimit op)"]
      b(2) [of "bigIntTo32Bytes (uo_MaxFeePerGas op)"] b(2) [of "bigIntTo32Bytes (uo_MaxPriorityFeePerGas op)"]
      b(2) [of "uo_Signature op"] b(2) [of "uo_CallData op"] b(2) [of "uo_InitCode op"] b(2) [of "uo_PaymasterAndData op"]
    by (simp add: other_cost_def data_cost_def op_length_def)
qed

lemma word_cost: "128 \<le> byte_cost (bigIntTo32Bytes x)" "byte_cost (bigIntTo32Bytes x) \<le> 512"
  using byte_cost_bounds [of "bigIntTo32Bytes x"] by simp_all

lemma data_cost_int64:
  assumes "op_length op < 2 ^ 58"
  shows "int64 (data_cost op) = data_cost op"
proof (rule int64_id)
  have "int (op_length op) < 2 ^ 58" using assms by simp
  then show "- (2 ^ 63) \<le> data_cost op" "data_cost op < 2 ^ 63"
    using other_cost_bounds [of op] word_cost [of "uo_PreVerificationGas op"] data_cost_split [of op] by simp_all
qed

lemma op_length_update [simp]: "op_length (op\<lparr> uo_PreVerificationGas := x \<rparr>) = op_length op"
  by (simp add: op_length_def)

text \<open>
  The estimate of preVerificationGas is written into the operation, which is otherwise left as
  it was, and differs from what the finished operation costs, overhead included, by at most
  384 gas: the second pass has counted the bytes of the first estimate, not its own.
\<close>

theorem estimate_close:
  assumes "op_length (bd_op b) < 2 ^ 58"
    and "EstimatePreVerificationGas overhead b = (est, b')"
  shows "b' = b\<lparr> bd_op := (bd_op b)\<lparr> uo_PreVerificationGas := Some est \<rparr> \<rparr> \<and>
    \<bar>est - ((case overhead of None \<Rightarrow> 21000 | Some n \<Rightarrow> n) + data_cost (bd_op b'))\<bar> \<le> 384"
proof -
  define base where "base = (case overhead of None \<Rightarrow> DefaultPreVerificationGasOverhead | Some n \<Rightarrow> n)"
  let ?first = "base + int64 (data_cost (bd_op b))"
  let ?second = "(bd_op b)\<lparr> uo_PreVerificationGas := Some ?first \<rparr>"
  from assms(2) have est: "est = base + int64 (data_cost ?second)"
    and b': "b' = b\<lparr> bd_op := (bd_op b)\<lparr> uo_PreVerificationGas := Some est \<rparr> \<rparr>"
    by (auto simp: EstimatePreVerificationGas_def base_def on_op_def Let_def)
  have "int64 (data_cost ?second) = data_cost ?second" by (rule data_cost_int64) (use assms(1) in simp)
  then have "est - (base + data_cost (bd_op b')) =
      byte_cost (bigIntTo32Bytes (Some ?first)) - byte_cost (bigIntTo32Bytes (Some est))"
    using est b' by (simp add: data_cost_split)
  then have "\<bar>est - (base + data_cost (bd_op b'))\<bar> \<le> 384"
    using word_cost [of "Some ?first"] word_cost [of "Some est"] by simp
  moreover have "base = (case overhead of None \<Rightarrow> 21000 | Some n \<Rightarrow> n)"
    by (cases overhead) (simp_all add: base_def DefaultPreVerificationGasOverhead_def)
  ultimately show ?thesis using b' by simp
qed

text \<open>
  The second pass does not always converge: an operation whose estimate is twelve gas
  below its cost.
\<close>

definition short_builder :: Builder where
  "short_builder = SetSender 1 (NewBuilder 1 (Some 1))"

lemma be_bytes_numeral: "be_bytes (numeral k) v = be_bytes (pred_numeral k) (v div 256) @ [word_of_nat (v mod 256)]"
  unfolding numeral_eq_Suc [of k] by (rule be_bytes.simps(2))

lemma short_costs: "byte_cost (be_bytes 20 1) = 92" "byte_cost (bigIntTo32Bytes (Some 22016)) = 140"
  "byte_cost (bigIntTo32Bytes (Some 22028)) = 152" "byte_cost (bigIntTo32Bytes (Some 0)) = 128"
  by (simp_all add: byte_cost_def bigIntTo32Bytes_def be_bytes_numeral)

lemma estimate_falls_short:
  "EstimatePreVerificationGas (Some 20116) short_builder =
     (22028, short_builder\<lparr> bd_op := (bd_op short_builder)\<lparr> uo_PreVerificationGas := Some 22028 \<rparr> \<rparr>) \<and>
   20116 + data_cost ((bd_op short_builder)\<lparr> uo_PreVerificationGas := Some 22028 \<rparr>) = 22040"
proof -
  have cost: "data_cost ((bd_op short_builder)\<lparr> uo_PreVerificationGas := Some n \<rparr>) = 1772 + byte_cost (bigIntTo32Bytes (Some n))" for n
    using short_costs(1,4) by (simp add: data_cost_def short_builder_def SetSender_def on_op_def NewBuilder_def byte_cost_def)
  have first: "data_cost (bd_op short_builder) = 1900"
    using cost [of 0] short_costs(4) by (simp add: short_builder_def SetSender_def on_op_def NewBuilder_def)
  have "data_cost ((bd_op short_builder)\<lparr> uo_PreVerificationGas := Some 22016 \<rparr>) = 1912" using cost short_costs by simp
  with first show ?thesis
    using cost short_costs by (simp add: EstimatePreVerificationGas_def on_op_def int64_id)
qed

end
