(* ===== verification/UserOpSigner.thy ===== *)
theory UserOpSigner
  imports UserOpBuilder
begin

text \<open>
  internal/wallet/erc4337/signer.go, and BuildAndSign of builder.go: signing a user operation
  with a key in memory or with a key that is decrypted for one signature and wiped.  The
  elliptic-curve functions of go-ethereum and the key store behind the decrypter interface are
  parameters.
\<close>

section \<open>Keys and signatures\<close>

record ('k, 'p) curve =
  cv_Sign :: "hash32 \<Rightarrow> 'k \<Rightarrow> aa_err + bytes"
  cv_SigToPub :: "hash32 \<Rightarrow> bytes \<Rightarrow> aa_err + 'p"
  cv_Public :: "'k \<Rightarrow> 'p"
  cv_PubkeyToAddress :: "'p \<Rightarrow> address"
  cv_N :: nat

definition secp256k1HalfN :: "('k, 'p) curve \<Rightarrow> nat" where
  "secp256k1HalfN C = cv_N C div 2"

definition key_address :: "('k, 'p) curve \<Rightarrow> 'k \<Rightarrow> address" where
  "key_address C k = cv_PubkeyToAddress C (cv_Public C k)"

text \<open>The recovery byte is raised to 27 or 28, which a contract expects.\<close>

definition with_v27 :: "bytes \<Rightarrow> aa_err + bytes" where
  "with_v27 sig =
     (if length sig \<noteq> 65 then Inl ErrInvalidSigLen
      else Inr (if sig ! 64 < 27 then sig[64 := sig ! 64 + 27] else sig))"

definition EthSignedMessageHash :: "('e, 'm) ethlib_scheme \<Rightarrow> hash32 \<Rightarrow> hash32" where
  "EthSignedMessageHash E h =
     Keccak256 E (map of_char ([CHR 0x19] @ ''Ethereum Signed Message:'' @ [CHR 0x0A] @ ''32'') @ be_bytes 32 (unat h))"

definition VerifySignature :: "('k, 'p) curve \<Rightarrow> hash32 \<Rightarrow> bytes \<Rightarrow> address \<Rightarrow> aa_err + bool" where
  "VerifySignature C h signature expectedAddress =
     (if length signature \<noteq> 65 then Inl ErrInvalidSigLen
      else if secp256k1HalfN C < be_val (take 32 (drop 32 signature)) then Inl ErrNonLowSSignature
      else if signature ! 64 \<noteq> 27 \<and> signature ! 64 \<noteq> 28 then Inl (AaNew ''invalid V'')
      else ebind (cv_SigToPub C h (signature[64 := signature ! 64 - 27])) (\<lambda>pubKey.
             Inr (cv_PubkeyToAddress C pubKey = expectedAddress)))"

section \<open>A key in memory\<close>

text \<open>\<open>None\<close> is a pointer that is nil or a key without its number.\<close>

record 'k PrivateKeySigner =
  pk_privKey :: "'k option"
  pk_address :: address

definition NewPrivateKeySigner :: "('k, 'p) curve \<Rightarrow> 'k option \<Rightarrow> aa_err + 'k PrivateKeySigner" where
  "NewPrivateKeySigner C privKey =
     (case privKey of
        None \<Rightarrow> Inl ErrNilPrivateKey
      | Some k \<Rightarrow> Inr \<lparr> pk_privKey = Some k, pk_address = key_address C k \<rparr>)"

type_synonym ('k, 'a) pkact = "('k PrivateKeySigner, aa_err, 'a) go"

definition SignHash :: "('k, 'p) curve \<Rightarrow> hash32 \<Rightarrow> ('k, bytes) pkact" where
  "SignHash C h =
     andthen (gets pk_privKey) (\<lambda>k.
       case k of
         None \<Rightarrow> throw ErrNilPrivateKey
       | Some k \<Rightarrow> andthen (lift (cv_Sign C h k)) (\<lambda>sig. lift (with_v27 sig)))"

definition Wipe :: "('k, unit) pkact" where
  "Wipe = modify (\<lambda>s. s\<lparr> pk_privKey := None \<rparr>)"

section \<open>A key from the key store\<close>

text \<open>
  The decrypter, which works on \<open>'w\<close>; \<open>kr_live\<close> are the private keys that have been
  decrypted and not been wiped.
\<close>

record ('w, 'k) decrypter =
  dc_Address :: "'w \<Rightarrow> (aa_err + string) \<times> 'w"
  dc_DecryptKey :: "string \<Rightarrow> 'w \<Rightarrow> (aa_err + 'k option) \<times> 'w"

record ('w, 'k) keyring =
  kr_world :: 'w
  kr_live :: "'k list"

type_synonym ('w, 'k, 'a) kract = "(('w, 'k) keyring, aa_err, 'a) go"

record ('w, 'k) KeystoreSigner =
  kp_decrypter :: "('w, 'k) decrypter"
  kp_password :: string
  kp_address :: address

definition NewKeystoreSigner ::
    "('e, 'm) ethlib_scheme \<Rightarrow> ('w, 'k) decrypter option \<Rightarrow> string \<Rightarrow> ('w, 'k, ('w, 'k) KeystoreSigner) kract" where
  "NewKeystoreSigner E D password =
     (case D of
        None \<Rightarrow> throw ErrNilDecrypter
      | Some D \<Rightarrow> (\<lambda>s. case dc_Address D (kr_world s) of
            (Inl e, w) \<Rightarrow> (Inl e, s\<lparr> kr_world := w \<rparr>)
          | (Inr addrHex, w) \<Rightarrow>
              (Inr \<lparr> kp_decrypter = D, kp_password = password, kp_address = HexToAddress E addrHex \<rparr>, s\<lparr> kr_world := w \<rparr>)))"

definition decrypt_key :: "('w, 'k) KeystoreSigner \<Rightarrow> ('w, 'k, 'k option) kract" where
  "decrypt_key S =
     (\<lambda>s. case dc_DecryptKey (kp_decrypter S) (kp_password S) (kr_world s) of
        (Inl e, w) \<Rightarrow> (Inl e, s\<lparr> kr_world := w \<rparr>)
      | (Inr None, w) \<Rightarrow> (Inr None, s\<lparr> kr_world := w \<rparr>)
      | (Inr (Some k), w) \<Rightarrow> (Inr (Some k), \<lparr> kr_world = w, kr_live = k # kr_live s \<rparr>))"

definition wipePrivateKey :: "'k \<Rightarrow> ('w, 'k) keyring \<Rightarrow> ('w, 'k) keyring" where
  "wipePrivateKey k s = s\<lparr> kr_live := remove1 k (kr_live s) \<rparr>"

text \<open>\<^verbatim>\<open>defer\<close>: whatever the body returns, \<open>f\<close> runs after it.\<close>

definition deferred :: "('s \<Rightarrow> 's) \<Rightarrow> ('s, 'e, 'a) go \<Rightarrow> ('s, 'e, 'a) go" where
  "deferred f m = (\<lambda>s. case m s of (r, t) \<Rightarrow> (r, f t))"

definition KeystoreSignHash :: "('k, 'p) curve \<Rightarrow> ('w, 'k) KeystoreSigner \<Rightarrow> hash32 \<Rightarrow> ('w, 'k, bytes) kract" where
  "KeystoreSignHash C S h =
     andthen (decrypt_key S) (\<lambda>key.
       case key of
         None \<Rightarrow> throw ErrNilPrivateKey
       | Some k \<Rightarrow>
           deferred (wipePrivateKey k)
             (fail_if (key_address C k \<noteq> kp_address S) (AaNew ''another address'')
               (andthen (lift (cv_Sign C h k)) (\<lambda>sig. lift (with_v27 sig)))))"

section \<open>Signing an operation\<close>

text \<open>
  Both signers hash the operation and sign the hash; \<open>sign\<close> is their SignHash.  Wrapping an
  error keeps what errors.Is finds in it.
\<close>

definition SignUserOp ::
    "('e, 'm) ethlib_scheme \<Rightarrow> (hash32 \<Rightarrow> ('s, aa_err, bytes) go) \<Rightarrow> UserOperation option \<Rightarrow> address \<Rightarrow> int option
      \<Rightarrow> ('s, aa_err, bytes) go" where
  "SignUserOp E sign op entryPoint chainID = andthen (lift (GetUserOpHash E op entryPoint chainID)) sign"

definition SignUserOpWithEthPrefix ::
    "('e, 'm) ethlib_scheme \<Rightarrow> (hash32 \<Rightarrow> ('s, aa_err, bytes) go) option \<Rightarrow> UserOperation option \<Rightarrow> address \<Rightarrow> int option
      \<Rightarrow> ('s, aa_err, bytes) go" where
  "SignUserOpWithEthPrefix E signer op entryPoint chainID =
     (case signer of
        None \<Rightarrow> throw (AaNew ''no signer'')
      | Some sign \<Rightarrow> andthen (lift (GetUserOpHash E op entryPoint chainID)) (\<lambda>h. sign (EthSignedMessageHash E h)))"

definition BuildAndSign ::
    "('e, 'm) ethlib_scheme \<Rightarrow> (hash32 \<Rightarrow> ('s, aa_err, bytes) go) option \<Rightarrow> Builder \<Rightarrow> ('s, aa_err, UserOperation \<times> Builder) go" where
  "BuildAndSign E signer b =
     (case signer of
        None \<Rightarrow> throw (AaNew ''no signer'')
      | Some sign \<Rightarrow>
          andthen (lift (Build b)) (\<lambda>op.
          andthen (SignUserOp E sign (Some op) (bd_entryPoint b) (bd_chainID b)) (\<lambda>sig.
            ret (op\<lparr> uo_Signature := sig \<rparr>, SetSignature sig b))))"

lemma Validate_signature [simp]: "Validate (Some (op\<lparr> uo_Signature := sig \<rparr>)) = Validate (Some op)"
  by (simp add: Validate_def)

lemma ToPacked_signature:
  "ToPacked (Some (op\<lparr> uo_Signature := sig \<rparr>)) =
     (case ToPacked (Some op) of Inl e \<Rightarrow> Inl e | Inr p \<Rightarrow> Inr (p\<lparr> po_Signature := sig \<rparr>))"
  by (auto simp: ToPacked_def Validate_def ebind_def split: sum.splits)

lemma hash_ignores_signature:
  "GetUserOpHash E (Some (op\<lparr> uo_Signature := sig \<rparr>)) entryPoint chainID = GetUserOpHash E (Some op) entryPoint chainID"
  by (auto simp: GetUserOpHash_def GetUserOpHashV06_def GetUserOpHashV07_def CalculateInnerHash_def ToPacked_signature
      CalculatePackedInnerHash_def PackUserOp_def PackPackedUserOp_def Validate_def ValidatePacked_def ebind_def
      split: sum.splits)

section \<open>What a signer promises\<close>

text \<open>
  What crypto.Sign documents: 65 bytes with a low S and a recovery byte of 0 or 1, from which
  the public key of the signing key is recovered.
\<close>

definition sign_laws :: "('k, 'p) curve \<Rightarrow> bool" where
  "sign_laws C \<longleftrightarrow>
     (\<forall>h k sig. cv_Sign C h k = Inr sig \<longrightarrow>
        length sig = 65 \<and> sig ! 64 \<in> {0, 1} \<and> be_val (take 32 (drop 32 sig)) \<le> secp256k1HalfN C \<and>
        cv_SigToPub C h sig = Inr (cv_Public C k))"

lemma with_v27_verifies:
  assumes "sign_laws C" and "cv_Sign C h k = Inr sig" and "with_v27 sig = Inr out"
  shows "VerifySignature C h out (key_address C k) = Inr True"
proof -
  from assms(1,2) have sig: "length sig = 65" "sig ! 64 = 0 \<or> sig ! 64 = 1"
      "be_val (take 32 (drop 32 sig)) \<le> secp256k1HalfN C" "cv_SigToPub C h sig = Inr (cv_Public C k)"
    by (auto simp: sign_laws_def)
  with assms(3) have out: "out = sig[64 := sig ! 64 + 27]" by (auto simp: with_v27_def)
  have "take 32 (drop 32 out) = take 32 (drop 32 sig)" by (simp add: out drop_update_swap)
  moreover have "out[64 := out ! 64 - 27] = sig" "out ! 64 = 27 \<or> out ! 64 = 28" "length out = 65"
    using sig(1,2) by (auto simp: out)
  ultimately show ?thesis using sig by (auto simp: VerifySignature_def key_address_def)
qed

locale signer =
  fixes C :: "('k, 'p) curve"
    and addr :: "'s \<Rightarrow> address"
    and ready :: "'s \<Rightarrow> bool"
    and sign :: "hash32 \<Rightarrow> ('s, aa_err, bytes) go"
  assumes signs: "sign_laws C \<Longrightarrow> ready s \<Longrightarrow> sign h s = (Inr sig, t) \<Longrightarrow> VerifySignature C h sig (addr s) = Inr True"
begin

lemma user_op_signed:
  assumes "sign_laws C" and "ready s" and "SignUserOp E sign op entryPoint chainID s = (Inr sig, t)"
  shows "\<exists>h. GetUserOpHash E op entryPoint chainID = Inr h \<and> VerifySignature C h sig (addr s) = Inr True"
  using assms signs by (auto simp: SignUserOp_def ok_simps)

lemma built_and_signed:
  assumes "sign_laws C" and "ready s" and "BuildAndSign E (Some sign) b s = (Inr (op, b'), t)"
  shows "\<exists>h sig. Build b = Inr (bd_op b) \<and> op = (bd_op b)\<lparr> uo_Signature := sig \<rparr> \<and> bd_op b' = op \<and>
    GetUserOpHash E (Some (bd_op b)) (bd_entryPoint b) (bd_chainID b) = Inr h \<and>
    VerifySignature C h (uo_Signature op) (addr s) = Inr True"
proof -
  from assms(3) obtain o' sig where built: "Build b = Inr o'"
    and run: "SignUserOp E sign (Some o') (bd_entryPoint b) (bd_chainID b) s = (Inr sig, t)"
    and op: "op = o'\<lparr> uo_Signature := sig \<rparr>" "b' = SetSignature sig b"
    by (auto simp: BuildAndSign_def ok_simps)
  from built have "o' = bd_op b" by (auto simp: Build_def ebind_eq_Inr split: if_splits)
  with user_op_signed [OF assms(1,2) run] built op show ?thesis
    by (auto simp: SetSignature_def on_op_def)
qed

end

lemma SignHash_signs:
  assumes "sign_laws C" and "\<forall>k. pk_privKey s = Some k \<longrightarrow> pk_address s = key_address C k" and "SignHash C h s = (Inr sig, t)"
  shows "VerifySignature C h sig (pk_address s) = Inr True"
  using assms by (auto simp: SignHash_def ok_simps dest: with_v27_verifies [OF assms(1)])

interpretation pks: signer C pk_address "\<lambda>s. \<forall>k. pk_privKey s = Some k \<longrightarrow> pk_address s = key_address C k" "SignHash C" for C
  by unfold_locales (rule SignHash_signs)

lemma decrypt_key_live:
  assumes "decrypt_key S s = (r, t)"
  shows "kr_live t = (case r of Inr (Some k) \<Rightarrow> k # kr_live s | _ \<Rightarrow> kr_live s)"
  using assms by (auto simp: decrypt_key_def split: prod.splits sum.splits option.splits)

lemma KeystoreSignHash_run:
  assumes "KeystoreSignHash C S h s = (r, t)"
  shows "kr_live t = kr_live s"
    and "r = Inr sig \<Longrightarrow> \<exists>k out. key_address C k = kp_address S \<and> cv_Sign C h k = Inr out \<and> with_v27 out = Inr sig"
proof -
  obtain x u where x: "decrypt_key S s = (x, u)" by force
  note live = decrypt_key_live [OF x]
  have "kr_live t = kr_live s \<and>
      (\<forall>sig. r = Inr sig \<longrightarrow> (\<exists>k out. key_address C k = kp_address S \<and> cv_Sign C h k = Inr out \<and> with_v27 out = Inr sig))"
    using assms x live
    by (cases x)
      (auto simp: KeystoreSignHash_def run_simps deferred_def wipePrivateKey_def split: option.splits if_splits sum.splits)
  then show "kr_live t = kr_live s"
    and "r = Inr sig \<Longrightarrow> \<exists>k out. key_address C k = kp_address S \<and> cv_Sign C h k = Inr out \<and> with_v27 out = Inr sig"
    by blast+
qed

lemma KeystoreSignHash_signs:
  assumes "sign_laws C" and "KeystoreSignHash C S h s = (Inr sig, t)"
  shows "VerifySignature C h sig (kp_address S) = Inr True"
  using KeystoreSignHash_run(2) [OF assms(2) refl] with_v27_verifies [OF assms(1)] by metis

interpretation kss: signer C "\<lambda>_. kp_address S" "\<lambda>_. True" "KeystoreSignHash C S" for C S
  by unfold_locales (rule KeystoreSignHash_signs)

section \<open>Operations signed by the key store\<close>

text \<open>
  C16: A user operation that BuildAndSign returns with a signer of the key store is the operation
  of the builder, valid, with a signature over the hash of what is returned that verifies for
  the address of the key store, and the builder holds it too.  On every path, failures
  included, the signer leaves no more decrypted keys in memory than it found.
\<close>

theorem keystore_signed:
  assumes "sign_laws C" and "BuildAndSign E (Some (KeystoreSignHash C S)) b s = (r, t)"
  shows "kr_live t = kr_live s \<and>
    (\<forall>op b'. r = Inr (op, b') \<longrightarrow>
      Validate (Some op) = Inr () \<and> op\<lparr> uo_Signature := uo_Signature (bd_op b) \<rparr> = bd_op b \<and> bd_op b' = op \<and>
      (\<exists>h. GetUserOpHash E (Some op) (bd_entryPoint b) (bd_chainID b) = Inr h \<and>
           VerifySignature C h (uo_Signature op) (kp_address S) = Inr True))"
proof (intro conjI allI impI)
  show "kr_live t = kr_live s"
    using assms(2)
    by (auto simp: BuildAndSign_def SignUserOp_def run_simps split: sum.splits prod.splits dest: KeystoreSignHash_run(1))
next
  fix op b'
  assume "r = Inr (op, b')"
  with kss.built_and_signed [OF assms(1) TrueI, of E S b s op b' t] assms(2)
  obtain h sig where built: "Build b = Inr (bd_op b)" and op: "op = (bd_op b)\<lparr> uo_Signature := sig \<rparr>" "bd_op b' = op"
    and h: "GetUserOpHash E (Some (bd_op b)) (bd_entryPoint b) (bd_chainID b) = Inr h"
    and ver: "VerifySignature C h (uo_Signature op) (kp_address S) = Inr True"
    by auto
  from built have "Validate (Some (bd_op b)) = Inr ()" by (auto simp: Build_def ebind_eq_Inr split: if_splits)
  then show "Validate (Some op) = Inr ()" by (simp add: op(1))
  show "op\<lparr> uo_Signature := uo_Signature (bd_op b) \<rparr> = bd_op b" by (simp add: op(1))
  show "bd_op b' = op" by (rule op(2))
  have "GetUserOpHash E (Some op) (bd_entryPoint b) (bd_chainID b) = Inr h" using h by (simp add: op(1) hash_ignores_signature)
  with ver show "\<exists>h. GetUserOpHash E (Some op) (bd_entryPoint b) (bd_chainID b) = Inr h \<and>
      VerifySignature C h (uo_Signature op) (kp_address S) = Inr True"
    by blast
qed

end
