(* ===== verification/UserOpWire.thy ===== *)
theory UserOpWire
  imports UserOpFacts Json
begin

text \<open>
  internal/wallet/erc4337/wire.go and the JSON methods of types.go: a user operation as the
  strings a bundler exchanges, in either form, and back.  The hexadecimal codec of go-ethereum
  is a parameter; \<open>hexutil_laws\<close> states what its documentation promises.
\<close>

section \<open>Hexadecimal strings\<close>

record hexutil =
  hx_EncodeBig :: "int \<Rightarrow> string"
  hx_DecodeBig :: "string \<Rightarrow> aa_err + int"
  hx_Encode :: "bytes \<Rightarrow> string"
  hx_Decode :: "string \<Rightarrow> aa_err + bytes"
  hx_AddressText :: "string \<Rightarrow> aa_err + address"

definition encodeBigHex :: "'m hexutil_scheme \<Rightarrow> int option \<Rightarrow> string" where
  "encodeBigHex X b = (case b of None \<Rightarrow> ''0x0'' | Some n \<Rightarrow> hx_EncodeBig X n)"

definition lower_x :: "string \<Rightarrow> string" where
  "lower_x s = (if has_prefix s ''0X'' then ''0x'' @ drop 2 s else s)"

definition decodeBigHex :: "'m hexutil_scheme \<Rightarrow> string \<Rightarrow> aa_err + int" where
  "decodeBigHex X s = (if s \<in> {[], ''0x'', ''0X''} then Inr 0 else hx_DecodeBig X (lower_x s))"

definition decodeBytesHex :: "'m hexutil_scheme \<Rightarrow> string \<Rightarrow> aa_err + bytes" where
  "decodeBytesHex X s = (if s \<in> {[], ''0x'', ''0X''} then Inr [] else hx_Decode X (lower_x s))"

definition decodeRPCAddress :: "'m hexutil_scheme \<Rightarrow> string \<Rightarrow> aa_err + address" where
  "decodeRPCAddress X s = (if s = [] then Inr 0 else hx_AddressText X s)"

definition decodeRPCBytes32 :: "'m hexutil_scheme \<Rightarrow> string \<Rightarrow> aa_err \<Rightarrow> aa_err + bytes" where
  "decodeRPCBytes32 X s invalid =
     (if s \<in> {[], ''0x'', ''0X''} then Inr (replicate 32 0)
      else case decodeBytesHex X s of
             Inl _ \<Rightarrow> Inl invalid
           | Inr raw \<Rightarrow> if length raw \<noteq> 32 then Inl invalid else Inr raw)"

section \<open>The strings of an operation\<close>

record userOperationRPC =
  ur_Sender :: string
  ur_Nonce :: string
  ur_InitCode :: string
  ur_CallData :: string
  ur_CallGasLimit :: string
  ur_VerificationGasLimit :: string
  ur_PreVerificationGas :: string
  ur_MaxFeePerGas :: string
  ur_MaxPriorityFeePerGas :: string
  ur_PaymasterAndData :: string
  ur_Signature :: string

record packedUserOperationRPC =
  pr_Sender :: string
  pr_Nonce :: string
  pr_InitCode :: string
  pr_CallData :: string
  pr_AccountGasLimits :: string
  pr_PreVerificationGas :: string
  pr_GasFees :: string
  pr_PaymasterAndData :: string
  pr_Signature :: string

definition userOperationToRPC :: "'m hexutil_scheme \<Rightarrow> UserOperation \<Rightarrow> userOperationRPC" where
  "userOperationToRPC X op =
     \<lparr> ur_Sender = hx_Encode X (be_bytes 20 (unat (uo_Sender op))), ur_Nonce = encodeBigHex X (uo_Nonce op),
       ur_InitCode = hx_Encode X (uo_InitCode op), ur_CallData = hx_Encode X (uo_CallData op),
       ur_CallGasLimit = encodeBigHex X (uo_CallGasLimit op),
       ur_VerificationGasLimit = encodeBigHex X (uo_VerificationGasLimit op),
       ur_PreVerificationGas = encodeBigHex X (uo_PreVerificationGas op),
       ur_MaxFeePerGas = encodeBigHex X (uo_MaxFeePerGas op),
       ur_MaxPriorityFeePerGas = encodeBigHex X (uo_MaxPriorityFeePerGas op),
       ur_PaymasterAndData = hx_Encode X (uo_PaymasterAndData op), ur_Signature = hx_Encode X (uo_Signature op) \<rparr>"

definition packedUserOperationToRPC :: "'m hexutil_scheme \<Rightarrow> PackedUserOperation \<Rightarrow> packedUserOperationRPC" where
  "packedUserOperationToRPC X op =
     \<lparr> pr_Sender = hx_Encode X (be_bytes 20 (unat (po_Sender op))), pr_Nonce = encodeBigHex X (po_Nonce op),
       pr_InitCode = hx_Encode X (po_InitCode op), pr_CallData = hx_Encode X (po_CallData op),
       pr_AccountGasLimits = ''0x'' @ hex_encode (po_AccountGasLimits op),
       pr_PreVerificationGas = encodeBigHex X (po_PreVerificationGas op),
       pr_GasFees = ''0x'' @ hex_encode (po_GasFees op),
       pr_PaymasterAndData = hx_Encode X (po_PaymasterAndData op), pr_Signature = hx_Encode X (po_Signature op) \<rparr>"

definition userOperationRPCToDomain :: "'m hexutil_scheme \<Rightarrow> userOperationRPC \<Rightarrow> aa_err + UserOperation" where
  "userOperationRPCToDomain X wire =
     ebind (decodeRPCAddress X (ur_Sender wire)) (\<lambda>sender.
     ebind (decodeBigHex X (ur_Nonce wire)) (\<lambda>nonce.
     ebind (decodeBytesHex X (ur_InitCode wire)) (\<lambda>initCode.
     ebind (decodeBytesHex X (ur_CallData wire)) (\<lambda>callData.
     ebind (decodeBigHex X (ur_CallGasLimit wire)) (\<lambda>callGasLimit.
     ebind (decodeBigHex X (ur_VerificationGasLimit wire)) (\<lambda>verificationGasLimit.
     ebind (decodeBigHex X (ur_PreVerificationGas wire)) (\<lambda>preVerificationGas.
     ebind (decodeBigHex X (ur_MaxFeePerGas wire)) (\<lambda>maxFeePerGas.
     ebind (decodeBigHex X (ur_MaxPriorityFeePerGas wire)) (\<lambda>maxPriorityFeePerGas.
     ebind (decodeBytesHex X (ur_PaymasterAndData wire)) (\<lambda>paymasterAndData.
     ebind (decodeBytesHex X (ur_Signature wire)) (\<lambda>signature.
       Inr \<lparr> uo_Sender = sender, uo_Nonce = Some nonce, uo_InitCode = initCode, uo_CallData = callData,
             uo_CallGasLimit = Some callGasLimit, uo_VerificationGasLimit = Some verificationGasLimit,
             uo_PreVerificationGas = Some preVerificationGas, uo_MaxFeePerGas = Some maxFeePerGas,
             uo_MaxPriorityFeePerGas = Some maxPriorityFeePerGas, uo_PaymasterAndData = paymasterAndData,
             uo_Signature = signature \<rparr>)))))))))))"

definition packedUserOperationRPCToDomain ::
    "'m hexutil_scheme \<Rightarrow> packedUserOperationRPC \<Rightarrow> aa_err + PackedUserOperation" where
  "packedUserOperationRPCToDomain X wire =
     ebind (decodeRPCAddress X (pr_Sender wire)) (\<lambda>sender.
     ebind (decodeBigHex X (pr_Nonce wire)) (\<lambda>nonce.
     ebind (decodeBytesHex X (pr_InitCode wire)) (\<lambda>initCode.
     ebind (decodeBytesHex X (pr_CallData wire)) (\<lambda>callData.
     ebind (decodeRPCBytes32 X (pr_AccountGasLimits wire) ErrInvalidPackedGasLimits) (\<lambda>accountGasLimits.
     ebind (decodeBigHex X (pr_PreVerificationGas wire)) (\<lambda>preVerificationGas.
     ebind (decodeRPCBytes32 X (pr_GasFees wire) ErrInvalidPackedGasFees) (\<lambda>gasFees.
     ebind (decodeBytesHex X (pr_PaymasterAndData wire)) (\<lambda>paymasterAndData.
     ebind (decodeBytesHex X (pr_Signature wire)) (\<lambda>signature.
       Inr \<lparr> po_Sender = sender, po_Nonce = Some nonce, po_InitCode = initCode, po_CallData = callData,
             po_AccountGasLimits = accountGasLimits, po_PreVerificationGas = Some preVerificationGas,
             po_GasFees = gasFees, po_PaymasterAndData = paymasterAndData, po_Signature = signature \<rparr>)))))))))"

section \<open>JSON\<close>

definition json_of :: "(string \<times> string) list \<Rightarrow> json" where
  "json_of ms = JObj (map (\<lambda>(k, v). (k, JStr v)) ms)"

definition MarshalJSON :: "'m hexutil_scheme \<Rightarrow> UserOperation option \<Rightarrow> json" where
  "MarshalJSON X op =
     (case op of
        None \<Rightarrow> JNull
      | Some op \<Rightarrow>
          let r = userOperationToRPC X op in
          json_of [(''sender'', ur_Sender r), (''nonce'', ur_Nonce r), (''initCode'', ur_InitCode r),
            (''callData'', ur_CallData r), (''callGasLimit'', ur_CallGasLimit r),
            (''verificationGasLimit'', ur_VerificationGasLimit r), (''preVerificationGas'', ur_PreVerificationGas r),
            (''maxFeePerGas'', ur_MaxFeePerGas r), (''maxPriorityFeePerGas'', ur_MaxPriorityFeePerGas r),
            (''paymasterAndData'', ur_PaymasterAndData r), (''signature'', ur_Signature r)])"

definition MarshalPackedJSON :: "'m hexutil_scheme \<Rightarrow> PackedUserOperation option \<Rightarrow> json" where
  "MarshalPackedJSON X op =
     (case op of
        None \<Rightarrow> JNull
      | Some op \<Rightarrow>
          let r = packedUserOperationToRPC X op in
          json_of [(''sender'', pr_Sender r), (''nonce'', pr_Nonce r), (''initCode'', pr_InitCode r),
            (''callData'', pr_CallData r), (''accountGasLimits'', pr_AccountGasLimits r),
            (''preVerificationGas'', pr_PreVerificationGas r), (''gasFees'', pr_GasFees r),
            (''paymasterAndData'', pr_PaymasterAndData r), (''signature'', pr_Signature r)])"

text \<open>Decoding into a struct of strings, with the errors of the package.\<close>

definition aa_json :: "err + 'a \<Rightarrow> aa_err + 'a" where
  "aa_json r = (case r of Inl _ \<Rightarrow> Inl (AaExt ''json'') | Inr x \<Rightarrow> Inr x)"

definition str_member :: "(string \<times> json) list \<Rightarrow> string \<Rightarrow> aa_err + string" where
  "str_member es k = aa_json (member str_field k es [])"

definition userOperationRPC_of :: "(string \<times> json) list \<Rightarrow> aa_err + userOperationRPC" where
  "userOperationRPC_of es =
     ebind (str_member es ''sender'') (\<lambda>sender.
     ebind (str_member es ''nonce'') (\<lambda>nonce.
     ebind (str_member es ''initCode'') (\<lambda>initCode.
     ebind (str_member es ''callData'') (\<lambda>callData.
     ebind (str_member es ''callGasLimit'') (\<lambda>callGasLimit.
     ebind (str_member es ''verificationGasLimit'') (\<lambda>verificationGasLimit.
     ebind (str_member es ''preVerificationGas'') (\<lambda>preVerificationGas.
     ebind (str_member es ''maxFeePerGas'') (\<lambda>maxFeePerGas.
     ebind (str_member es ''maxPriorityFeePerGas'') (\<lambda>maxPriorityFeePerGas.
     ebind (str_member es ''paymasterAndData'') (\<lambda>paymasterAndData.
     ebind (str_member es ''signature'') (\<lambda>signature.
       Inr \<lparr> ur_Sender = sender, ur_Nonce = nonce, ur_InitCode = initCode, ur_CallData = callData,
             ur_CallGasLimit = callGasLimit, ur_VerificationGasLimit = verificationGasLimit,
             ur_PreVerificationGas = preVerificationGas, ur_MaxFeePerGas = maxFeePerGas,
             ur_MaxPriorityFeePerGas = maxPriorityFeePerGas, ur_PaymasterAndData = paymasterAndData,
             ur_Signature = signature \<rparr>)))))))))))"

definition packedUserOperationRPC_of :: "(string \<times> json) list \<Rightarrow> aa_err + packedUserOperationRPC" where
  "packedUserOperationRPC_of es =
     ebind (str_member es ''sender'') (\<lambda>sender.
     ebind (str_member es ''nonce'') (\<lambda>nonce.
     ebind (str_member es ''initCode'') (\<lambda>initCode.
     ebind (str_member es ''callData'') (\<lambda>callData.
     ebind (str_member es ''accountGasLimits'') (\<lambda>accountGasLimits.
     ebind (str_member es ''preVerificationGas'') (\<lambda>preVerificationGas.
     ebind (str_member es ''gasFees'') (\<lambda>gasFees.
     ebind (str_member es ''paymasterAndData'') (\<lambda>paymasterAndData.
     ebind (str_member es ''signature'') (\<lambda>signature.
       Inr \<lparr> pr_Sender = sender, pr_Nonce = nonce, pr_InitCode = initCode, pr_CallData = callData,
             pr_AccountGasLimits = accountGasLimits, pr_PreVerificationGas = preVerificationGas,
             pr_GasFees = gasFees, pr_PaymasterAndData = paymasterAndData, pr_Signature = signature \<rparr>)))))))))"

text \<open>
  A \<^verbatim>\<open>map[string]json.RawMessage\<close> keeps the last member of exactly this name: a sender
  that is there must not be the empty string.
\<close>

definition rejectExplicitEmptySender :: "'m hexutil_scheme \<Rightarrow> (string \<times> json) list \<Rightarrow> aa_err + unit" where
  "rejectExplicitEmptySender X es =
     (case map_of (rev es) ''sender'' of
        None \<Rightarrow> Inr ()
      | Some JNull \<Rightarrow> Inr ()
      | Some (JStr s) \<Rightarrow> if s = [] then ebind (hx_AddressText X []) (\<lambda>_. Inr ()) else Inr ()
      | Some _ \<Rightarrow> Inl (AaExt ''json''))"

definition UnmarshalJSON :: "'m hexutil_scheme \<Rightarrow> json option \<Rightarrow> aa_err + UserOperation" where
  "UnmarshalJSON X input =
     ebind (aa_json (object input)) (\<lambda>es.
     ebind (userOperationRPC_of es) (\<lambda>wire.
     ebind (rejectExplicitEmptySender X es) (\<lambda>_. userOperationRPCToDomain X wire)))"

definition UnmarshalPackedJSON :: "'m hexutil_scheme \<Rightarrow> json option \<Rightarrow> aa_err + PackedUserOperation" where
  "UnmarshalPackedJSON X input =
     ebind (aa_json (object input)) (\<lambda>es.
     ebind (packedUserOperationRPC_of es) (\<lambda>wire.
     ebind (rejectExplicitEmptySender X es) (\<lambda>_. packedUserOperationRPCToDomain X wire)))"

section \<open>Round trips\<close>

text \<open>
  What hexutil documents: numbers of at most 256 bits and byte strings come back, byte
  strings are written as two digits per byte after \<^verbatim>\<open>0x\<close>, numbers with at least one digit;
  an address is read from its twenty bytes.
\<close>

definition hexutil_laws :: "'m hexutil_scheme \<Rightarrow> bool" where
  "hexutil_laws X \<longleftrightarrow>
     (\<forall>n. 0 \<le> n \<and> n < 2 ^ 256 \<longrightarrow>
        (\<exists>c cs. hx_EncodeBig X n = ''0x'' @ c # cs) \<and> hx_DecodeBig X (hx_EncodeBig X n) = Inr n) \<and>
     (\<forall>bs. hx_Encode X bs = ''0x'' @ hex_encode bs) \<and>
     (\<forall>bs. bs \<noteq> [] \<longrightarrow> hx_Decode X (''0x'' @ hex_encode bs) = Inr bs) \<and>
     (\<forall>a. hx_AddressText X (''0x'' @ hex_encode (be_bytes 20 (unat a))) = Inr a)"

lemma has_prefix_0x [simp]: "\<not> has_prefix (''0x'' @ s) ''0X''" "lower_x (''0x'' @ s) = ''0x'' @ s"
  by (simp_all add: has_prefix_def lower_x_def)

lemma hex_encode_empty: "hex_encode bs = [] \<longleftrightarrow> bs = []"
  by (metis length_0_conv length_hex_encode mult_eq_0_iff zero_neq_numeral)

lemma decodeBigHex_encode:
  assumes "hexutil_laws X" and "in256 n"
  shows "decodeBigHex X (encodeBigHex X n) = Inr (big n)"
proof -
  from assms(2) obtain m where m: "n = Some m" "0 \<le> m" "m < 2 ^ 256" by (auto simp: in256_def)
  with assms(1) obtain c cs where "hx_EncodeBig X m = ''0x'' @ c # cs" "hx_DecodeBig X (''0x'' @ c # cs) = Inr m"
    by (metis hexutil_laws_def)
  with m show ?thesis by (simp add: encodeBigHex_def decodeBigHex_def has_prefix_def lower_x_def)
qed

lemma Some_big: "in256 n \<Longrightarrow> Some (big n) = n"
  by (auto simp: in256_def)

lemma decodeBytesHex_encode:
  assumes "hexutil_laws X"
  shows "decodeBytesHex X (hx_Encode X bs) = Inr bs"
proof (cases "bs = []")
  case True
  with assms show ?thesis by (simp add: hexutil_laws_def decodeBytesHex_def hex_encode_def)
next
  case False
  with assms have "hx_Decode X (''0x'' @ hex_encode bs) = Inr bs" "hx_Encode X bs = ''0x'' @ hex_encode bs"
    by (simp_all add: hexutil_laws_def)
  moreover have "hex_encode bs \<noteq> []" using False by (simp add: hex_encode_empty)
  ultimately show ?thesis by (simp add: decodeBytesHex_def has_prefix_def lower_x_def)
qed

lemma decodeRPCAddress_encode:
  assumes "hexutil_laws X"
  shows "hx_Encode X (be_bytes 20 (unat a)) \<noteq> []" "decodeRPCAddress X (hx_Encode X (be_bytes 20 (unat a))) = Inr a"
  using assms by (simp_all add: hexutil_laws_def decodeRPCAddress_def)

lemma decodeRPCBytes32_encode:
  assumes "hexutil_laws X" and "length bs = 32"
  shows "decodeRPCBytes32 X (''0x'' @ hex_encode bs) invalid = Inr bs"
proof -
  from assms have "hx_Encode X bs = ''0x'' @ hex_encode bs" by (simp add: hexutil_laws_def)
  with decodeBytesHex_encode [OF assms(1), of bs] have "decodeBytesHex X (''0x'' @ hex_encode bs) = Inr bs" by simp
  moreover have "hex_encode bs \<noteq> []" using assms(2) by (auto simp: hex_encode_empty)
  ultimately show ?thesis using assms(2) by (simp add: decodeRPCBytes32_def)
qed

text \<open>
  C22: What is written for a bundler is read back unchanged, in both forms of an operation: every
  number below two to the 256, every byte string and the sender.
\<close>

theorem wire_round_trip:
  assumes "hexutil_laws X"
    and "list_all in256 [uo_Nonce op, uo_CallGasLimit op, uo_VerificationGasLimit op, uo_PreVerificationGas op,
      uo_MaxFeePerGas op, uo_MaxPriorityFeePerGas op]"
    and "list_all in256 [po_Nonce p, po_PreVerificationGas p]"
    and "length (po_AccountGasLimits p) = 32" and "length (po_GasFees p) = 32"
  shows "UnmarshalJSON X (Some (MarshalJSON X (Some op))) = Inr op \<and>
    UnmarshalPackedJSON X (Some (MarshalPackedJSON X (Some p))) = Inr p"
proof
  note codec = decodeBigHex_encode [OF assms(1)] decodeBytesHex_encode [OF assms(1)] decodeRPCAddress_encode [OF assms(1)]
    decodeRPCBytes32_encode [OF assms(1), simplified]
  note keys = MarshalJSON_def MarshalPackedJSON_def json_of_def object_def aa_json_def str_member_def str_field_def
    equal_fold_def to_lower_def lower_char_def rejectExplicitEmptySender_def Let_def
  have "userOperationRPCToDomain X (userOperationToRPC X op) = Inr op"
    using assms(2) by (simp add: userOperationRPCToDomain_def userOperationToRPC_def codec Some_big)
  moreover have "ur_Sender (userOperationToRPC X op) \<noteq> []"
    by (simp add: userOperationToRPC_def codec)
  ultimately show "UnmarshalJSON X (Some (MarshalJSON X (Some op))) = Inr op"
    by (cases "userOperationToRPC X op") (simp add: UnmarshalJSON_def userOperationRPC_of_def keys)
  have "packedUserOperationRPCToDomain X (packedUserOperationToRPC X p) = Inr p"
    using assms(3-5) by (simp add: packedUserOperationRPCToDomain_def packedUserOperationToRPC_def codec Some_big)
  moreover have "pr_Sender (packedUserOperationToRPC X p) \<noteq> []"
    by (simp add: packedUserOperationToRPC_def codec)
  ultimately show "UnmarshalPackedJSON X (Some (MarshalPackedJSON X (Some p))) = Inr p"
    by (cases "packedUserOperationToRPC X p") (simp add: UnmarshalPackedJSON_def packedUserOperationRPC_of_def keys)
qed

end
