(* ===== verification/Bundler.thy ===== *)
theory Bundler
  imports UserOpWire Texts
begin

text \<open>
  internal/wallet/erc4337/client.go and rpc_types.go: the JSON-RPC client of a bundler.
  \<^verbatim>\<open>net/http\<close>, the JSON parser and the text decoders of go-ethereum are parameters; what
  was posted, with the answers, is recorded beside the state.
\<close>

section \<open>Messages\<close>

definition ErrCodeValidationFailed :: int where "ErrCodeValidationFailed = - 32500"
definition ErrCodePaymasterDepositTooLow :: int where "ErrCodePaymasterDepositTooLow = - 32501"
definition ErrCodePaymasterRateLimited :: int where "ErrCodePaymasterRateLimited = - 32502"
definition ErrCodeExecutionReverted :: int where "ErrCodeExecutionReverted = - 32503"
definition ErrCodeAlreadyKnown :: int where "ErrCodeAlreadyKnown = - 32504"
definition ErrCodeUnderpriced :: int where "ErrCodeUnderpriced = - 32505"
definition ErrCodeRuleViolation :: int where "ErrCodeRuleViolation = - 32506"
definition ErrCodeSignatureExpired :: int where "ErrCodeSignatureExpired = - 32507"
definition ErrCodeInvalidParams :: int where "ErrCodeInvalidParams = - 32602"

record JSONRPCRequest =
  jq_JSONRPC :: string
  jq_ID :: "64 word"
  jq_Method :: string
  jq_Params :: "json list"

record JSONRPCError =
  je_Code :: int
  je_Message :: string
  je_Data :: "json option"

text \<open>An absent \<^verbatim>\<open>json.RawMessage\<close> is empty; one that is \<^verbatim>\<open>null\<close> is the text null.\<close>

record rpcResponse =
  jp_JSONRPC :: string
  jp_ID :: "json option"
  jp_Result :: "json option"
  jp_Error :: "JSONRPCError option"

definition raw_field :: "json option field" where
  "raw_field v old = Inr (Some v)"

definition rpc_error_of :: "(string \<times> json) list \<Rightarrow> JSONRPCError \<Rightarrow> err + JSONRPCError" where
  "rpc_error_of es old =
     ebind (member int_field ''code'' es (je_Code old)) (\<lambda>code.
     ebind (member str_field ''message'' es (je_Message old)) (\<lambda>message.
     ebind (member raw_field ''data'' es (je_Data old)) (\<lambda>data.
       Inr \<lparr> je_Code = code, je_Message = message, je_Data = data \<rparr>)))"

definition error_field :: "JSONRPCError option field" where
  "error_field v old =
     (case v of
        JNull \<Rightarrow> Inr None
      | JObj es \<Rightarrow>
          ebind (rpc_error_of es (case old of None \<Rightarrow> \<lparr> je_Code = 0, je_Message = [], je_Data = None \<rparr> | Some e \<Rightarrow> e))
            (\<lambda>e. Inr (Some e))
      | _ \<Rightarrow> bad_json)"

definition rpcResponse_of :: "json option \<Rightarrow> err + rpcResponse" where
  "rpcResponse_of body =
     ebind (object body) (\<lambda>es.
     ebind (member str_field ''jsonrpc'' es []) (\<lambda>version.
     ebind (member raw_field ''id'' es None) (\<lambda>ident.
     ebind (member raw_field ''result'' es None) (\<lambda>result.
     ebind (member error_field ''error'' es None) (\<lambda>e.
       Inr \<lparr> jp_JSONRPC = version, jp_ID = ident, jp_Result = result, jp_Error = e \<rparr>)))))"

text \<open>The code of the EntryPoint in an error message: the first word that starts with \<^verbatim>\<open>AA\<close>.\<close>

definition ParseAAErrorCode :: "string \<Rightarrow> string" where
  "ParseAAErrorCode errMsg =
     (case List.find (\<lambda>p. has_prefix p ''AA'' \<and> 4 \<le> length p) (Fields errMsg) of
        None \<Rightarrow> [] | Some p \<Rightarrow> take 4 p)"

section \<open>The client\<close>

record 'w bundler =
  bn_nextID :: "64 word"
  bn_world :: 'w
  bn_sent :: "(JSONRPCRequest \<times> (aa_err + int \<times> (nat \<Rightarrow> bytes option))) list"

type_synonym ('w, 'a) bact = "('w bundler, aa_err, 'a) go"

text \<open>
  \<open>bl_Post\<close> is the round trip: the status and what reading at most so many bytes of the body
  gives.  \<open>bl_Wait\<close> waits for the ticker and gives the error of the context when that ends
  first.
\<close>

record 'w bundler_lib =
  bl_Endpoint :: string
  bl_Post :: "string \<Rightarrow> JSONRPCRequest \<Rightarrow> 'w \<Rightarrow> (aa_err + int \<times> (nat \<Rightarrow> bytes option)) \<times> 'w"
  bl_Unmarshal :: "bytes \<Rightarrow> json option"
  bl_Wait :: "'w \<Rightarrow> aa_err option \<times> 'w"
  bl_BigText :: "string \<Rightarrow> aa_err + int"
  bl_HashText :: "string \<Rightarrow> aa_err + hash32"
  bl_Receipt :: "json \<Rightarrow> aa_err + receipt option"
  bl_Logs :: "json \<Rightarrow> aa_err + log option list"

definition NewClient :: "string \<Rightarrow> 'w \<Rightarrow> aa_err + 'w bundler" where
  "NewClient endpoint w =
     (if endpoint = [] then Inl ErrClientNilEndpoint
      else Inr \<lparr> bn_nextID = 0, bn_world = w, bn_sent = [] \<rparr>)"

definition maxBundlerResponseBytes :: nat where
  "maxBundlerResponseBytes = 2097152"

definition post :: "'w bundler_lib \<Rightarrow> JSONRPCRequest \<Rightarrow> ('w, int \<times> (nat \<Rightarrow> bytes option)) bact" where
  "post L rq =
     (\<lambda>s. case bl_Post L (bl_Endpoint L) rq (bn_world s) of (r, w) \<Rightarrow>
        (r, s\<lparr> bn_world := w, bn_sent := bn_sent s @ [(rq, r)] \<rparr>))"

text \<open>What is made of an answer: exactly one of a result and an error, with the identifier of the request.\<close>

definition accept :: "'w bundler_lib \<Rightarrow> 64 word \<Rightarrow> int \<times> (nat \<Rightarrow> bytes option) \<Rightarrow> aa_err + json" where
  "accept L reqID answer =
     (if fst answer \<noteq> 200 then Inl (AaNew ''HTTP status'')
      else
        case snd answer (maxBundlerResponseBytes + 1) of
          None \<Rightarrow> Inl (AaExt ''read'')
        | Some body \<Rightarrow>
            if maxBundlerResponseBytes < length body then Inl (AaNew ''response too long'')
            else ebind (aa_json (rpcResponse_of (bl_Unmarshal L body))) (\<lambda>r.
              if jp_JSONRPC r \<noteq> ''2.0'' \<or>
                 (case jp_ID r of None \<Rightarrow> True
                  | Some v \<Rightarrow> (case uint64_field v 0 of Inl _ \<Rightarrow> True | Inr i \<Rightarrow> i \<noteq> reqID)) \<or>
                 ((jp_Result r \<noteq> None) = (jp_Error r \<noteq> None))
              then Inl (AaNew ''invalid response'')
              else case (jp_Error r, jp_Result r) of
                     (Some e, _) \<Rightarrow> Inl (AaRPC (je_Code e) (je_Message e) (je_Data e))
                   | (None, Some v) \<Rightarrow> Inr v
                   | (None, None) \<Rightarrow> Inl (AaNew ''invalid response'')))"

definition rpc_call :: "'w bundler_lib \<Rightarrow> string \<Rightarrow> json list \<Rightarrow> (json \<Rightarrow> aa_err + 'a) \<Rightarrow> ('w, 'a) bact" where
  "rpc_call L method params result =
     seq (modify (\<lambda>s. s\<lparr> bn_nextID := bn_nextID s + 1 \<rparr>))
    (andthen (gets bn_nextID) (\<lambda>reqID.
     andthen (post L \<lparr> jq_JSONRPC = ''2.0'', jq_ID = reqID, jq_Method = method, jq_Params = params \<rparr>) (\<lambda>answer.
     andthen (lift (accept L reqID answer)) (\<lambda>v. lift (result v)))))"

section \<open>Operations\<close>

definition hash_of_text :: "'m hexutil_scheme \<Rightarrow> string \<Rightarrow> aa_err + hash32" where
  "hash_of_text X hashHex =
     (case hx_Decode X hashHex of
        Inl _ \<Rightarrow> Inl (AaNew ''invalid userOpHash'')
      | Inr bs \<Rightarrow> if length bs \<noteq> 32 then Inl (AaNew ''invalid userOpHash'') else Inr (word_of_nat (be_val bs)))"

definition SendUserOperation ::
    "('e, 'm) ethlib_scheme \<Rightarrow> 'n hexutil_scheme \<Rightarrow> 'w bundler_lib \<Rightarrow> UserOperation option \<Rightarrow> address \<Rightarrow> ('w, hash32) bact" where
  "SendUserOperation E X L op entryPoint =
     fail_if (op = None) ErrNilUserOp
    (fail_if (entryPoint = 0) ErrInvalidEntryPoint
    (andthen (rpc_call L ''eth_sendUserOperation'' [MarshalJSON X op, JStr (AddressHex E entryPoint)]
       (\<lambda>v. aa_json (str_field v []))) (\<lambda>hashHex. lift (hash_of_text X hashHex))))"

record GasEstimate =
  ge_PreVerificationGas :: int
  ge_VerificationGasLimit :: int
  ge_CallGasLimit :: int

text \<open>A \<^verbatim>\<open>hexutil.Big\<close> is a string, and so are a hash and an address; \<^verbatim>\<open>null\<close> is not.\<close>

definition text_field :: "(string \<Rightarrow> aa_err + 'a) \<Rightarrow> 'a field" where
  "text_field f v old = (case v of JStr s \<Rightarrow> (case f s of Inl _ \<Rightarrow> bad_json | Inr x \<Rightarrow> Inr x) | _ \<Rightarrow> bad_json)"

definition GasEstimate_of :: "'w bundler_lib \<Rightarrow> json \<Rightarrow> aa_err + GasEstimate" where
  "GasEstimate_of L v =
     aa_json (ebind (object (Some v)) (\<lambda>es.
       ebind (member (text_field (bl_BigText L)) ''preVerificationGas'' es 0) (\<lambda>p.
       ebind (member (text_field (bl_BigText L)) ''verificationGasLimit'' es 0) (\<lambda>g.
       ebind (member (text_field (bl_BigText L)) ''callGasLimit'' es 0) (\<lambda>c.
         Inr \<lparr> ge_PreVerificationGas = p, ge_VerificationGasLimit = g, ge_CallGasLimit = c \<rparr>)))))"

definition EstimateUserOperationGas ::
    "('e, 'm) ethlib_scheme \<Rightarrow> 'n hexutil_scheme \<Rightarrow> 'w bundler_lib \<Rightarrow> UserOperation option \<Rightarrow> address
      \<Rightarrow> ('w, GasEstimate) bact" where
  "EstimateUserOperationGas E X L op entryPoint =
     fail_if (op = None) ErrNilUserOp
    (fail_if (entryPoint = 0) ErrInvalidEntryPoint
    (rpc_call L ''eth_estimateUserOperationGas'' [MarshalJSON X op, JStr (AddressHex E entryPoint)] (GasEstimate_of L)))"

record UserOperationReceipt =
  ux_UserOpHash :: hash32
  ux_EntryPoint :: address
  ux_Sender :: address
  ux_Nonce :: int
  ux_Paymaster :: address
  ux_ActualGasCost :: int
  ux_ActualGasUsed :: int
  ux_Success :: bool
  ux_Reason :: string
  ux_Receipt :: "receipt option"
  ux_Logs :: "log option list"

definition lib_field :: "(json \<Rightarrow> aa_err + 'a) \<Rightarrow> 'a field" where
  "lib_field f v old = (case f v of Inl _ \<Rightarrow> bad_json | Inr x \<Rightarrow> Inr x)"

definition UserOperationReceipt_of ::
    "'n hexutil_scheme \<Rightarrow> 'w bundler_lib \<Rightarrow> json \<Rightarrow> aa_err + UserOperationReceipt" where
  "UserOperationReceipt_of X L v =
     aa_json (ebind (object (Some v)) (\<lambda>es.
       ebind (member (text_field (bl_HashText L)) ''userOpHash'' es 0) (\<lambda>h.
       ebind (member (text_field (hx_AddressText X)) ''entryPoint'' es 0) (\<lambda>entryPoint.
       ebind (member (text_field (hx_AddressText X)) ''sender'' es 0) (\<lambda>sender.
       ebind (member (text_field (bl_BigText L)) ''nonce'' es 0) (\<lambda>nonce.
       ebind (member (text_field (hx_AddressText X)) ''paymaster'' es 0) (\<lambda>paymaster.
       ebind (member (text_field (bl_BigText L)) ''actualGasCost'' es 0) (\<lambda>cost.
       ebind (member (text_field (bl_BigText L)) ''actualGasUsed'' es 0) (\<lambda>used.
       ebind (member bool_field ''success'' es False) (\<lambda>success.
       ebind (member str_field ''reason'' es []) (\<lambda>reason.
       ebind (member (lib_field (bl_Receipt L)) ''receipt'' es None) (\<lambda>receipt.
       ebind (member (lib_field (bl_Logs L)) ''logs'' es []) (\<lambda>logs.
         Inr \<lparr> ux_UserOpHash = h, ux_EntryPoint = entryPoint, ux_Sender = sender, ux_Nonce = nonce,
               ux_Paymaster = paymaster, ux_ActualGasCost = cost, ux_ActualGasUsed = used, ux_Success = success,
               ux_Reason = reason, ux_Receipt = receipt, ux_Logs = logs \<rparr>)))))))))))))"

definition GetUserOperationReceipt ::
    "('e, 'm) ethlib_scheme \<Rightarrow> 'n hexutil_scheme \<Rightarrow> 'w bundler_lib \<Rightarrow> hash32 \<Rightarrow> ('w, UserOperationReceipt) bact" where
  "GetUserOperationReceipt E X L h =
     andthen (rpc_call L ''eth_getUserOperationReceipt'' [JStr (HashHex E h)] Inr) (\<lambda>raw.
       if raw = JNull then throw ErrReceiptNotFound else lift (UserOperationReceipt_of X L raw))"

text \<open>
  The loop that polls for a receipt, for at most \<open>n\<close> rounds: \<open>None\<close> is a loop that is still
  waiting after them.
\<close>

definition wait_tick :: "'w bundler_lib \<Rightarrow> ('w, unit) bact" where
  "wait_tick L =
     (\<lambda>s. case bl_Wait L (bn_world s) of
        (None, w) \<Rightarrow> (Inr (), s\<lparr> bn_world := w \<rparr>)
      | (Some e, w) \<Rightarrow> (Inl e, s\<lparr> bn_world := w \<rparr>))"

primrec WaitForUserOperationReceipt ::
    "nat \<Rightarrow> ('e, 'm) ethlib_scheme \<Rightarrow> 'n hexutil_scheme \<Rightarrow> 'w bundler_lib \<Rightarrow> hash32
      \<Rightarrow> ('w, UserOperationReceipt option) bact" where
  "WaitForUserOperationReceipt 0 E X L h = ret None"
| "WaitForUserOperationReceipt (Suc n) E X L h =
     andthen (attempt (GetUserOperationReceipt E X L h)) (\<lambda>r.
       case r of
         Inr receipt \<Rightarrow> ret (Some receipt)
       | Inl e \<Rightarrow> if e \<noteq> ErrReceiptNotFound then throw e
                  else seq (wait_tick L) (WaitForUserOperationReceipt n E X L h))"

end
