(* ===== verification/BundlerFacts.thy ===== *)
theory BundlerFacts
  imports Bundler
begin

text \<open>
  An answer of the bundler is used only for the request it was given to, and waiting for a
  receipt ends with the context.
\<close>

section \<open>Identifiers\<close>

definition ids_of :: "'w bundler \<Rightarrow> 64 word list" where
  "ids_of s = map (\<lambda>m. jq_ID (fst m)) (bn_sent s)"

text \<open>The requests have been numbered from one.\<close>

definition numbered :: "'w bundler \<Rightarrow> bool" where
  "numbered s \<longleftrightarrow> bn_nextID s = word_of_nat (length (bn_sent s)) \<and>
     ids_of s = map (\<lambda>i. word_of_nat (Suc i)) [0..<length (bn_sent s)]"

definition posted :: "'w bundler_lib \<Rightarrow> string \<Rightarrow> json list \<Rightarrow> 'w bundler \<Rightarrow> (aa_err + int \<times> (nat \<Rightarrow> bytes option)) \<Rightarrow> 'w bundler \<Rightarrow> bool" where
  "posted L method params s answer t \<longleftrightarrow>
     (let rq = \<lparr> jq_JSONRPC = ''2.0'', jq_ID = bn_nextID s + 1, jq_Method = method, jq_Params = params \<rparr> in
      fst (bl_Post L (bl_Endpoint L) rq (bn_world s)) = answer \<and>
      t = \<lparr> bn_nextID = bn_nextID s + 1, bn_world = snd (bl_Post L (bl_Endpoint L) rq (bn_world s)),
            bn_sent = bn_sent s @ [(rq, answer)] \<rparr>)"

lemma rpc_call_run:
  assumes "rpc_call L method params f s = (r, t)"
  shows "\<exists>answer. posted L method params s answer t \<and>
    r = ebind answer (\<lambda>a. ebind (accept L (bn_nextID s + 1) a) f)"
proof -
  let ?rq = "\<lparr> jq_JSONRPC = ''2.0'', jq_ID = bn_nextID s + 1, jq_Method = method, jq_Params = params \<rparr>"
  obtain answer w where w: "bl_Post L (bl_Endpoint L) ?rq (bn_world s) = (answer, w)" by force
  have "r = ebind answer (\<lambda>a. ebind (accept L (bn_nextID s + 1) a) f) \<and> posted L method params s answer t"
    using assms w by (auto simp: rpc_call_def run_simps post_def posted_def ebind_def split: sum.splits)
  then show ?thesis by blast
qed

lemma posted_numbered:
  assumes "numbered s" and "posted L method params s answer t"
  shows "numbered t"
  using assms by (auto simp: numbered_def posted_def ids_of_def Let_def)

lemma new_id:
  assumes "numbered s" and "Suc (length (bn_sent s)) < 2 ^ 64"
  shows "bn_nextID s + 1 \<notin> set (ids_of s)"
proof
  assume "bn_nextID s + 1 \<in> set (ids_of s)"
  then obtain i where i: "i < length (bn_sent s)" "word_of_nat (Suc (length (bn_sent s))) = (word_of_nat (Suc i) :: 64 word)"
    using assms(1) by (auto simp: numbered_def)
  then have "unat (word_of_nat (Suc (length (bn_sent s))) :: 64 word) = unat (word_of_nat (Suc i) :: 64 word)" by simp
  with i(1) assms(2) show False by (simp only: unat_of_nat) simp
qed

lemma accept_ok:
  assumes "accept L i answer = Inr v"
  shows "fst answer = 200 \<and>
    (\<exists>body r ident. snd answer 2097153 = Some body \<and> length body \<le> 2097152 \<and>
       rpcResponse_of (bl_Unmarshal L body) = Inr r \<and> jp_JSONRPC r = ''2.0'' \<and> jp_Error r = None \<and> jp_Result r = Some v \<and>
       jp_ID r = Some ident \<and> uint64_field ident 0 = Inr i)"
proof -
  from assms obtain body r where "fst answer = 200" "snd answer 2097153 = Some body" "length body \<le> 2097152"
      "rpcResponse_of (bl_Unmarshal L body) = Inr r"
    and r: "(if jp_JSONRPC r \<noteq> ''2.0'' \<or>
                 (case jp_ID r of None \<Rightarrow> True
                  | Some v \<Rightarrow> (case uint64_field v 0 of Inl _ \<Rightarrow> True | Inr i' \<Rightarrow> i' \<noteq> i)) \<or>
                 ((jp_Result r \<noteq> None) = (jp_Error r \<noteq> None))
              then Inl (AaNew ''invalid response'')
              else case (jp_Error r, jp_Result r) of
                     (Some e, _) \<Rightarrow> Inl (AaRPC (je_Code e) (je_Message e) (je_Data e))
                   | (None, Some v) \<Rightarrow> Inr v
                   | (None, None) \<Rightarrow> Inl (AaNew ''invalid response'')) = Inr v"
    by (auto simp: accept_def maxBundlerResponseBytes_def ebind_eq_Inr aa_json_def split: if_splits option.splits sum.splits)
  moreover from r have "jp_JSONRPC r = ''2.0'' \<and> jp_Error r = None \<and> jp_Result r = Some v \<and>
      (\<exists>ident. jp_ID r = Some ident \<and> uint64_field ident 0 = Inr i)"
    by (auto split: if_splits option.splits sum.splits)
  ultimately show ?thesis by blast
qed

text \<open>
  C17: A user operation counts as sent only on an answer to this very request: one request was
  posted, with the operation and the EntryPoint, under an identifier no earlier request had;
  the answer came with status 200 and at most 2 MiB, repeats the identifier, carries no error,
  and its result is the hash of thirty-two bytes that is handed out.
\<close>

theorem send_answered:
  assumes "numbered s" and "Suc (length (bn_sent s)) < 2 ^ 64"
    and "SendUserOperation E X L op entryPoint s = (Inr h, t)"
  shows "numbered t \<and> (\<exists>o' rq answer body r ident answered bs.
    op = Some o' \<and> entryPoint \<noteq> 0 \<and> bn_sent t = bn_sent s @ [(rq, Inr answer)] \<and>
    jq_Method rq = ''eth_sendUserOperation'' \<and> jq_Params rq = [MarshalJSON X op, JStr (AddressHex E entryPoint)] \<and>
    jq_ID rq \<notin> set (ids_of s) \<and>
    fst answer = 200 \<and> snd answer 2097153 = Some body \<and> length body \<le> 2097152 \<and>
    rpcResponse_of (bl_Unmarshal L body) = Inr r \<and> jp_Error r = None \<and>
    jp_ID r = Some ident \<and> uint64_field ident 0 = Inr (jq_ID rq) \<and>
    (\<exists>v. jp_Result r = Some v \<and> str_field v [] = Inr answered) \<and>
    hx_Decode X answered = Inr bs \<and> length bs = 32 \<and> h = word_of_nat (be_val bs))"
proof -
  from assms(3) obtain answered where op: "op \<noteq> None" "entryPoint \<noteq> 0"
    and c: "rpc_call L ''eth_sendUserOperation'' [MarshalJSON X op, JStr (AddressHex E entryPoint)]
       (\<lambda>v. aa_json (str_field v [])) s = (Inr answered, t)"
    and h: "hash_of_text X answered = Inr h"
    by (auto simp: SendUserOperation_def ok_simps)
  from rpc_call_run [OF c] obtain ans
    where sent: "posted L ''eth_sendUserOperation'' [MarshalJSON X op, JStr (AddressHex E entryPoint)] s ans t"
      and "ebind ans (\<lambda>a. ebind (accept L (bn_nextID s + 1) a) (\<lambda>v. aa_json (str_field v []))) = Inr answered"
    by (auto dest: sym)
  then obtain a v where "ans = Inr a" and v: "accept L (bn_nextID s + 1) a = Inr v" "aa_json (str_field v []) = Inr answered"
    by (auto simp: ebind_eq_Inr)
  note post = sent [unfolded \<open>ans = Inr a\<close>]
  from v(2) have answered: "str_field v [] = Inr answered" by (auto simp: aa_json_def split: sum.splits)
  from h obtain bs where bs: "hx_Decode X answered = Inr bs" "length bs = 32" "h = word_of_nat (be_val bs)"
    by (auto simp: hash_of_text_def split: sum.splits if_splits)
  from op(1) obtain o' where o': "op = Some o'" by blast
  from accept_ok [OF v(1)] obtain body r ident where ok: "fst a = 200" "snd a 2097153 = Some body" "length body \<le> 2097152"
      "rpcResponse_of (bl_Unmarshal L body) = Inr r" "jp_Error r = None" "jp_Result r = Some v"
      "jp_ID r = Some ident" "uint64_field ident 0 = Inr (bn_nextID s + 1)"
    by blast
  let ?rq = "\<lparr> jq_JSONRPC = ''2.0'', jq_ID = bn_nextID s + 1, jq_Method = ''eth_sendUserOperation'',
      jq_Params = [MarshalJSON X op, JStr (AddressHex E entryPoint)] \<rparr>"
  have sent: "bn_sent t = bn_sent s @ [(?rq, Inr a)]" using post by (auto simp: posted_def Let_def)
  show ?thesis
    by (intro conjI posted_numbered [OF assms(1) post] exI [of _ o'] exI [of _ ?rq] exI [of _ a] exI [of _ body]
        exI [of _ r] exI [of _ ident] exI [of _ answered] exI [of _ bs] exI [of _ v])
      (use o' op sent ok answered bs new_id [OF assms(1,2)] in simp_all)
qed

section \<open>Waiting\<close>

lemma receipt_run_world:
  assumes "\<And>u rq w r w'. bl_Post L u rq w = (r, w') \<Longrightarrow> m w' \<le> m w"
    and "GetUserOperationReceipt E X L h s = (r, t)"
  shows "m (bn_world t) \<le> (m (bn_world s) :: nat)"
proof -
  obtain x u where c: "rpc_call L ''eth_getUserOperationReceipt'' [JStr (HashHex E h)] Inr s = (x, u)" by force
  from assms(2) c have "t = u"
    by (auto simp: GetUserOperationReceipt_def run_simps split: sum.splits if_splits)
  moreover from rpc_call_run [OF c] have "\<exists>rq. bn_world u = snd (bl_Post L (bl_Endpoint L) rq (bn_world s))"
    by (auto simp: posted_def Let_def)
  ultimately show ?thesis using assms(1) by (metis prod.collapse)
qed

text \<open>
  C23: Waiting for a receipt ends.  When every tick brings the context nearer to its deadline,
  which \<open>m\<close> measures, and no request puts it off, the loop returns after at most as many rounds
  as the deadline is away: a receipt that the bundler has just given, or an error, never the
  news that the receipt is still missing.
\<close>

theorem wait_ends:
  assumes "\<And>w w'. bl_Wait L w = (None, w') \<Longrightarrow> m w' < m w"
    and "\<And>u rq w r w'. bl_Post L u rq w = (r, w') \<Longrightarrow> m w' \<le> m w"
    and "\<And>w e w'. bl_Wait L w = (Some e, w') \<Longrightarrow> e \<noteq> ErrReceiptNotFound"
    and "m (bn_world s) < (n :: nat)"
  shows "\<exists>r t. WaitForUserOperationReceipt n E X L h s = (r, t) \<and> r \<noteq> Inr None \<and> r \<noteq> Inl ErrReceiptNotFound \<and>
    (\<forall>receipt. r = Inr (Some receipt) \<longrightarrow> (\<exists>u. GetUserOperationReceipt E X L h u = (Inr receipt, t)))"
  using assms(4)
proof (induction n arbitrary: s)
  case (Suc n)
  obtain x u where x: "GetUserOperationReceipt E X L h s = (x, u)" by force
  have le: "m (bn_world u) \<le> m (bn_world s)" by (rule receipt_run_world [OF assms(2) x])
  show ?case
  proof (cases "x = Inl ErrReceiptNotFound")
    case False
    with x show ?thesis by (cases x) (auto simp: run_simps)
  next
    case True
    obtain y w where w: "bl_Wait L (bn_world u) = (y, w)" by force
    show ?thesis
    proof (cases y)
      case (Some e)
      with x w True assms(3) show ?thesis by (auto simp: run_simps wait_tick_def)
    next
      case None
      let ?s = "u\<lparr> bn_world := w \<rparr>"
      have "m (bn_world ?s) < n" using assms(1) [of "bn_world u" w] w None le Suc.prems by simp
      from Suc.IH [OF this] show ?thesis using x w True None by (simp add: run_simps wait_tick_def)
    qed
  qed
qed simp

end
