(* ===== verification/UserOpSamples.thy ===== *)
theory UserOpSamples
  imports UserOpSigner BundlerFacts ChainFacts
begin

text \<open>Concrete user operations: each property applied where its hypotheses hold.\<close>

definition sample_userop :: UserOperation where
  "sample_userop =
     \<lparr> uo_Sender = 1, uo_Nonce = Some 7, uo_InitCode = [1], uo_CallData = [2], uo_CallGasLimit = Some 100,
       uo_VerificationGasLimit = Some 200, uo_PreVerificationGas = Some 300, uo_MaxFeePerGas = Some 30,
       uo_MaxPriorityFeePerGas = Some 2, uo_PaymasterAndData = [], uo_Signature = [] \<rparr>"

lemma sample_userop_valid: "Validate (Some sample_userop) = Inr ()"
  by (simp add: Validate_def sample_userop_def check_bigs_def)

definition sample_packed :: PackedUserOperation where
  "sample_packed =
     \<lparr> po_Sender = 1, po_Nonce = Some 7, po_InitCode = [1], po_CallData = [2],
       po_AccountGasLimits = be_bytes 16 200 @ be_bytes 16 100, po_PreVerificationGas = Some 300,
       po_GasFees = be_bytes 16 2 @ be_bytes 16 30, po_PaymasterAndData = [], po_Signature = [] \<rparr>"

lemma sample_userop_packed: "ToPacked (Some sample_userop) = Inr sample_packed"
  by (simp add: ToPacked_ok sample_userop_valid PackUint128Pair_ok in128_def maxUint128_def)
    (simp add: sample_userop_def sample_packed_def)

theorem packed_round_trip_witness: "Unpack (Some sample_packed) = Inr sample_userop"
  using packed_round_trip [of sample_userop sample_packed sample_packed] sample_userop_packed by blast

definition short_hash :: "bytes \<Rightarrow> hash32" where
  "short_hash bs = (case bs of [] \<Rightarrow> 0 | [b] \<Rightarrow> 1 + ucast b | _ \<Rightarrow> word_of_nat (256 * length bs))"

definition aa_lib :: "address ethlib" where
  "aa_lib = sample_lib\<lparr> Keccak256 := short_hash, HexToAddress := (\<lambda>_. 9) \<rparr>"

lemma short_hash_long: "1 < length bs \<Longrightarrow> short_hash bs = word_of_nat (256 * length bs)"
  by (auto simp: short_hash_def split: list.split)

lemma aa_lib_parts: "Keccak256 aa_lib = short_hash" "EntryPointV07 aa_lib = 9" "HexToAddress aa_lib s = 9"
  by (simp_all add: aa_lib_def EntryPointV07_def)

lemma length_PackUserOp: "PackUserOp E op = Inr bs \<Longrightarrow> length bs = 320"
  by (auto simp: PackUserOp_def ebind_eq_Inr split: option.splits)

lemma length_outer: "PackUserOpHashData i e c = Inr bs \<Longrightarrow> length bs = 96"
  by (auto simp: PackUserOpHashData_def split: if_splits)

lemma aa_no_collision:
  assumes "uo_InitCode op = [1]" and "uo_CallData op = [2]" and "uo_PaymasterAndData op = []"
  shows "inj_on short_hash (hashed aa_lib op 1 c)"
proof -
  have short: "short_hash [] = 0" "short_hash [1] = 2" "short_hash [2] = 3" by (simp_all add: short_hash_def)
  have long: "short_hash bs = 81920" if "length bs = 320" for bs using short_hash_long [of bs] that by simp
  have out: "short_hash bs = 24576" if "length bs = 96" for bs using short_hash_long [of bs] that by simp
  have cases: "b \<in> {[], [1], [2]} \<or> inner_bytes aa_lib op 1 = Inr b \<and> short_hash b = 81920 \<or>
      (\<exists>i. inner_bytes aa_lib op 1 = Inr i \<and> PackUserOpHashData (short_hash i) 1 c = Inr b) \<and> short_hash b = 24576"
    if "b \<in> hashed aa_lib op 1 c" for b
  proof -
    have inner: "short_hash b = 81920" if "inner_bytes aa_lib op 1 = Inr b" for b
      by (rule long, rule length_PackUserOp) (use that in \<open>simp add: inner_bytes_def aa_lib_parts\<close>)
    have outer: "short_hash b = 24576" if "PackUserOpHashData i 1 c = Inr b" for i b
      by (rule out, rule length_outer) (rule that)
    from that consider "b \<in> {[], [1], [2]}" | "inner_bytes aa_lib op 1 = Inr b"
      | i where "inner_bytes aa_lib op 1 = Inr i" "PackUserOpHashData (short_hash i) 1 c = Inr b"
      using assms by (auto simp: hashed_def aa_lib_parts)
    then show ?thesis by cases (use inner outer in blast)+
  qed
  show ?thesis
  proof (rule inj_onI)
    fix a b
    assume "a \<in> hashed aa_lib op 1 c" "b \<in> hashed aa_lib op 1 c" "short_hash a = short_hash b"
    with cases [of a] cases [of b] short show "a = b" by auto
  qed
qed

lemma sample_userop_hash: "\<exists>h. GetUserOpHash aa_lib (Some sample_userop) 1 (Some 5) = Inr h"
  using sample_userop_valid
  by (simp add: GetUserOpHash_def GetUserOpHashV06_def CalculateInnerHash_def PackUserOp_def PackUserOpHashData_def aa_lib_parts)

theorem userOpHash_binds_witness:
  "\<exists>h. GetUserOpHash aa_lib (Some sample_userop) 1 (Some 5) = Inr h \<and>
     GetUserOpHash aa_lib (Some (sample_userop\<lparr> uo_Signature := [3] \<rparr>)) 1 (Some 5) = Inr h \<and>
     sample_userop\<lparr> uo_Signature := [] \<rparr> = (sample_userop\<lparr> uo_Signature := [3] \<rparr>)\<lparr> uo_Signature := [] \<rparr>"
proof -
  obtain h where h: "GetUserOpHash aa_lib (Some sample_userop) 1 (Some 5) = Inr h" using sample_userop_hash by blast
  then have h': "GetUserOpHash aa_lib (Some (sample_userop\<lparr> uo_Signature := [3] \<rparr>)) 1 (Some 5) = Inr h"
    by (simp add: hash_ignores_signature)
  have "hashed aa_lib (sample_userop\<lparr> uo_Signature := [3] \<rparr>) 1 (Some 5) = hashed aa_lib sample_userop 1 (Some 5)"
    by (simp add: hashed_def inner_bytes_def aa_lib_parts PackUserOp_def)
  moreover have "inj_on (Keccak256 aa_lib) (hashed aa_lib sample_userop 1 (Some 5))"
    unfolding aa_lib_parts by (rule aa_no_collision) (simp_all add: sample_userop_def)
  ultimately have "inj_on (Keccak256 aa_lib) (hashed aa_lib sample_userop 1 (Some 5) \<union>
      hashed aa_lib (sample_userop\<lparr> uo_Signature := [3] \<rparr>) 1 (Some 5))" by simp
  from userOpHash_binds [OF h h' this] h h' show ?thesis by blast
qed

section \<open>Wire\<close>

definition sample_hexutil :: hexutil where
  "sample_hexutil =
     \<lparr> hx_EncodeBig = (\<lambda>n. ''0x'' @ hex_encode (be_bytes 32 (nat n))),
       hx_DecodeBig = (\<lambda>s. case hex_decode (drop 2 s) of None \<Rightarrow> Inl ErrInvalidHexFormat | Some bs \<Rightarrow> Inr (int (be_val bs))),
       hx_Encode = (\<lambda>bs. ''0x'' @ hex_encode bs),
       hx_Decode = (\<lambda>s. case hex_decode (drop 2 s) of None \<Rightarrow> Inl ErrInvalidHexFormat | Some bs \<Rightarrow> Inr bs),
       hx_AddressText = (\<lambda>s. case hex_decode (drop 2 s) of None \<Rightarrow> Inl ErrInvalidHexFormat
          | Some bs \<Rightarrow> Inr (word_of_nat (be_val bs))) \<rparr>"

lemma sample_hexutil_laws: "hexutil_laws sample_hexutil"
proof -
  have 1: "int (be_val (be_bytes 32 (nat n))) = n" if "0 \<le> n" "n < 2 ^ 256" for n
    using that be_val_be_bytes [of "nat n" 32] by (simp add: nat_less_iff)
  have 2: "word_of_nat (be_val (be_bytes 20 (unat a))) = a" for a :: address
  proof -
    have "unat a < 2 ^ 160" using unsigned_less [of a] by simp
    then have "unat a < 256 ^ 20" by simp
    then show ?thesis by (simp add: be_val_be_bytes)
  qed
  have 3: "\<exists>c cs. hex_encode (be_bytes 32 v) = c # cs" for v
    by (metis hex_encode_empty length_be_bytes list.exhaust list.size(3) zero_neq_numeral)
  show ?thesis using 1 2 3 by (simp add: hexutil_laws_def sample_hexutil_def)
qed

theorem wire_round_trip_witness:
  "UnmarshalJSON sample_hexutil (Some (MarshalJSON sample_hexutil (Some sample_userop))) = Inr sample_userop \<and>
   UnmarshalPackedJSON sample_hexutil (Some (MarshalPackedJSON sample_hexutil (Some sample_packed))) = Inr sample_packed"
  by (rule wire_round_trip [OF sample_hexutil_laws]) (simp_all add: sample_userop_def sample_packed_def in256_def)

section \<open>Builder and signer\<close>

theorem estimate_close_witness:
  "\<exists>b'. EstimatePreVerificationGas (Some 20116) short_builder = (22028, b') \<and>
     \<bar>22028 - (20116 + data_cost (bd_op b'))\<bar> \<le> 384"
proof -
  obtain b' where b': "EstimatePreVerificationGas (Some 20116) short_builder = (22028, b')"
    using estimate_falls_short by blast
  have "op_length (bd_op short_builder) < 2 ^ 58"
    by (simp add: op_length_def short_builder_def SetSender_def on_op_def NewBuilder_def)
  note close = conjunct2 [OF estimate_close [OF this b']]
  have "\<bar>22028 - (20116 + data_cost (bd_op b'))\<bar> \<le> 384" using close by simp
  with b' show ?thesis by blast
qed

definition sample_curve :: "(address, address) curve" where
  "sample_curve =
     \<lparr> cv_Sign = (\<lambda>h k. Inr (be_bytes 32 (unat k) @ replicate 32 0 @ [1])),
       cv_SigToPub = (\<lambda>h sig. Inr (word_of_nat (be_val (take 32 sig)))), cv_Public = (\<lambda>k. k),
       cv_PubkeyToAddress = (\<lambda>p. p), cv_N = 100 \<rparr>"

lemma sample_curve_laws: "sign_laws sample_curve"
proof -
  have zeros: "be_val (replicate n 0) = 0" for n
    by (induction n) (simp_all add: replicate_append_same [symmetric] del: replicate_append_same)
  have "word_of_nat (be_val (be_bytes 32 (unat k))) = k" for k :: address
  proof -
    have "unat k < 2 ^ 160" using unsigned_less [of k] by simp
    then have "unat k < 256 ^ 32" by simp
    then show ?thesis by (simp add: be_val_be_bytes)
  qed
  then show ?thesis by (simp add: sign_laws_def sample_curve_def zeros nth_append)
qed

definition sample_store_signer :: "(nat, address) KeystoreSigner" where
  "sample_store_signer =
     \<lparr> kp_decrypter = \<lparr> dc_Address = (\<lambda>w. (Inr [], w)), dc_DecryptKey = (\<lambda>p w. (Inr (Some 5), Suc w)) \<rparr>,
       kp_password = ''pw'', kp_address = 5 \<rparr>"

definition op_builder :: Builder where
  "op_builder = \<lparr> bd_entryPoint = 1, bd_chainID = Some 5, bd_op = sample_userop \<rparr>"

theorem keystore_signed_witness:
  "\<exists>op b' t. BuildAndSign aa_lib (Some (KeystoreSignHash sample_curve sample_store_signer)) op_builder
       \<lparr> kr_world = 0, kr_live = [] \<rparr> = (Inr (op, b'), t) \<and> kr_live t = [] \<and> bd_op b' = op"
proof -
  obtain h where h: "GetUserOpHash aa_lib (Some sample_userop) 1 (Some 5) = Inr h" using sample_userop_hash by blast
  have build: "Build op_builder = Inr sample_userop"
    using sample_userop_valid by (simp add: Build_def op_builder_def) (simp add: sample_userop_def)
  have "\<exists>op b' t. BuildAndSign aa_lib (Some (KeystoreSignHash sample_curve sample_store_signer)) op_builder
       \<lparr> kr_world = 0, kr_live = [] \<rparr> = (Inr (op, b'), t)"
    using h build
    by (simp add: BuildAndSign_def SignUserOp_def KeystoreSignHash_def decrypt_key_def run_simps deferred_def
        sample_store_signer_def sample_curve_def key_address_def with_v27_def op_builder_def)
  then obtain op b' t where run: "BuildAndSign aa_lib (Some (KeystoreSignHash sample_curve sample_store_signer)) op_builder
       \<lparr> kr_world = 0, kr_live = [] \<rparr> = (Inr (op, b'), t)" by blast
  from keystore_signed [OF sample_curve_laws run] run show ?thesis by auto
qed

section \<open>Bundler\<close>

definition sample_bundler :: "nat bundler_lib" where
  "sample_bundler =
     \<lparr> bl_Endpoint = ''http'', bl_Post = (\<lambda>u rq w. (Inr (200, \<lambda>n. Some [1]), w)),
       bl_Unmarshal = (\<lambda>bs. Some (JObj [(''jsonrpc'', JStr ''2.0''), (''id'', JInt 1),
          (''result'', JStr (''0x'' @ hex_encode (be_bytes 32 7)))])),
       bl_Wait = (\<lambda>w. if w = 0 then (Some (AaExt ''deadline''), 0) else (None, w - 1)),
       bl_BigText = (\<lambda>s. Inr 0), bl_HashText = (\<lambda>s. Inr 0), bl_Receipt = (\<lambda>v. Inr None), bl_Logs = (\<lambda>v. Inr []) \<rparr>"

definition new_bundler :: "nat bundler" where
  "new_bundler = \<lparr> bn_nextID = 0, bn_world = 3, bn_sent = [] \<rparr>"

lemma sample_answered:
  "\<exists>t. SendUserOperation aa_lib sample_hexutil sample_bundler (Some sample_userop) 1 new_bundler = (Inr 7, t)"
  by (simp add: SendUserOperation_def rpc_call_def post_def run_simps new_bundler_def sample_bundler_def accept_def
      maxBundlerResponseBytes_def rpcResponse_of_def object_def equal_fold_def to_lower_def lower_char_def str_field_def
      raw_field_def error_field_def uint64_field_def aa_json_def hash_of_text_def sample_hexutil_def be_val_be_bytes)

theorem send_answered_witness:
  "\<exists>t :: nat bundler. numbered t \<and> length (bn_sent t) = 1"
proof -
  obtain t where t: "SendUserOperation aa_lib sample_hexutil sample_bundler (Some sample_userop) 1 new_bundler = (Inr 7, t)"
    using sample_answered by blast
  have "numbered new_bundler" "Suc (length (bn_sent new_bundler)) < 2 ^ 64"
    by (simp_all add: numbered_def ids_of_def new_bundler_def)
  from send_answered [OF this t] show ?thesis by (auto simp: new_bundler_def)
qed

theorem wait_ends_witness:
  "\<exists>r t. WaitForUserOperationReceipt 4 aa_lib sample_hexutil sample_bundler 7 new_bundler = (r, t) \<and> r \<noteq> Inr None"
proof -
  have "m' < m" if "bl_Wait sample_bundler m = (None, m')" for m m'
    using that by (auto simp: sample_bundler_def split: if_splits)
  moreover have "w' \<le> w" if "bl_Post sample_bundler u rq w = (r, w')" for u rq w r w'
    using that by (simp add: sample_bundler_def)
  moreover have "e \<noteq> ErrReceiptNotFound" if "bl_Wait sample_bundler w = (Some e, w')" for w e w'
    using that by (auto simp: sample_bundler_def split: if_splits)
  moreover have "(\<lambda>w. w) (bn_world new_bundler) < 4" by (simp add: new_bundler_def)
  ultimately show ?thesis
    using wait_ends [of sample_bundler "\<lambda>w. w" new_bundler 4 aa_lib sample_hexutil 7] by blast
qed

end
