(* ===== verification/TronWire.thy ===== *)
theory TronWire
  imports Contracts
begin

text \<open>
  internal/wallet/tron_rpc.go, the part without a network: TRON addresses, the protobuf encoding
  of the transactions that are signed, and transaction identifiers.  SHA-256, base58 and the
  elliptic curve are fields of \<open>tronlib\<close>.  The lemmas show that an address is read back from its
  text, that a decoder of the protobuf wire format finds the fields that were written, and
  therefore what a transaction that was built here says.
\<close>

section \<open>Libraries\<close>

text \<open>
  \<open>tl_SigToPub\<close> is the address of the key that \<^verbatim>\<open>crypto.SigToPub\<close> recovers.
\<close>

record 'k tronlib =
  tl_Sha256 :: "bytes \<Rightarrow> bytes"
  tl_Base58Encode :: "bytes \<Rightarrow> string"
  tl_Base58Decode :: "string \<Rightarrow> bytes option"
  tl_Sign :: "bytes \<Rightarrow> 'k \<Rightarrow> err + bytes"
  tl_SigToPub :: "bytes \<Rightarrow> bytes \<Rightarrow> address option"

text \<open>A digest has 32 bytes; base58 is read back, and 25 bytes that start with 0x41 print as 34 characters.\<close>

definition base58_laws :: "('k, 'm) tronlib_scheme \<Rightarrow> bool" where
  "base58_laws L \<longleftrightarrow>
     (\<forall>bs. length (tl_Sha256 L bs) = 32) \<and>
     (\<forall>bs. tl_Base58Decode L (tl_Base58Encode L bs) = Some bs) \<and>
     (\<forall>bs. length bs = 25 \<and> hd bs = 0x41 \<longrightarrow> length (tl_Base58Encode L bs) = 34)"

text \<open>A signature has 65 bytes, and the key it was made with is recovered from it.\<close>

definition tron_sign_laws :: "('k, 'm) ethlib_scheme \<Rightarrow> ('k, 'n) tronlib_scheme \<Rightarrow> bool" where
  "tron_sign_laws E L \<longleftrightarrow>
     (\<forall>h k sig. tl_Sign L h k = Inr sig \<longrightarrow>
        length sig = 65 \<and> tl_SigToPub L h sig = Some (PubkeyAddress E k))"

section \<open>Addresses\<close>

definition checksum :: "('k, 'm) tronlib_scheme \<Rightarrow> bytes \<Rightarrow> bytes" where
  "checksum L payload = take 4 (tl_Sha256 L (tl_Sha256 L payload))"

definition address_payload :: "address \<Rightarrow> bytes" where
  "address_payload a = 0x41 # be_bytes 20 (unat a)"

definition TronAddress :: "('k, 'm) tronlib_scheme \<Rightarrow> address \<Rightarrow> string" where
  "TronAddress L a = (let payload = address_payload a in tl_Base58Encode L (payload @ checksum L payload))"

definition ParseTronAddress :: "('k, 'm) tronlib_scheme \<Rightarrow> string \<Rightarrow> err + bytes" where
  "ParseTronAddress L address =
     (if length address \<noteq> 34 then Inl (ErrNew ''incomplete TRON address'')
      else case tl_Base58Decode L address of
          None \<Rightarrow> Inl (ErrNew ''TRON address format'')
        | Some data \<Rightarrow>
            if length data \<noteq> 25 \<or> data ! 0 \<noteq> 0x41 then Inl (ErrNew ''TRON address format'')
            else if drop 21 data \<noteq> checksum L (take 21 data) \<or> take 20 (drop 1 data) = replicate 20 0
            then Inl (ErrNew ''TRON address checksum'')
            else Inr (take 21 data))"

text \<open>\<^verbatim>\<open>common.BytesToAddress(data[1:])\<close>\<close>

definition address_of :: "bytes \<Rightarrow> address" where
  "address_of data = word_of_nat (be_val (drop 1 data))"

lemma base58D:
  assumes "base58_laws L"
  shows "length (tl_Sha256 L bs) = 32"
    and "tl_Base58Decode L (tl_Base58Encode L bs) = Some bs"
    and "length bs = 25 \<Longrightarrow> hd bs = 0x41 \<Longrightarrow> length (tl_Base58Encode L bs) = 34"
  using assms unfolding base58_laws_def by blast+

lemma length_checksum: "base58_laws L \<Longrightarrow> length (checksum L bs) = 4"
  by (simp add: checksum_def base58D)

lemma be_bytes_zero: "be_bytes n v = replicate n 0 \<Longrightarrow> v < 256 ^ n \<Longrightarrow> v = 0"
proof -
  assume b: "be_bytes n v = replicate n 0" and v: "v < 256 ^ n"
  have "be_val (replicate n 0) = 0" by (induction n) (simp_all add: replicate_append_same [symmetric])
  with be_val_be_bytes [OF v] b show "v = 0" by simp
qed

lemma be_bytes_0: "be_bytes n 0 = replicate n 0"
  by (induction n) (simp_all add: replicate_append_same)

lemma address_bound: "unat (a :: address) < 256 ^ 20"
  using unsigned_less [of a] by simp

lemma be_val_address: "be_val (be_bytes 20 (unat (a :: address))) = unat a"
  by (rule be_val_be_bytes) (rule address_bound)

text \<open>An address is read back from its text, and only the zero address is refused.\<close>

lemma ParseTronAddress_text:
  assumes "base58_laws L"
  shows "ParseTronAddress L (TronAddress L a) =
    (if a = 0 then Inl (ErrNew ''TRON address checksum'') else Inr (address_payload a))"
proof -
  let ?d = "address_payload a @ checksum L (address_payload a)"
  have pay: "length (address_payload a) = 21" by (simp add: address_payload_def)
  have len: "length ?d = 25" "hd ?d = 0x41"
    using length_checksum [OF assms] pay by (simp_all add: address_payload_def)
  have zero: "be_bytes 20 (unat a) = replicate 20 0 \<longleftrightarrow> a = 0"
  proof
    assume "be_bytes 20 (unat a) = replicate 20 0"
    then have "unat a = 0" by (rule be_bytes_zero) (rule address_bound)
    then show "a = 0" by (simp add: unat_eq_zero)
  next
    assume "a = 0"
    then show "be_bytes 20 (unat a) = replicate 20 0" by (simp add: be_bytes_0)
  qed
  have parts: "take 21 ?d = address_payload a" "drop 21 ?d = checksum L (address_payload a)"
    using pay by simp_all
  have body: "take 20 (drop 1 ?d) = be_bytes 20 (unat a)" and first: "?d ! 0 = 0x41"
    by (simp_all only: address_payload_def append_Cons nth_Cons_0 drop_Suc_Cons One_nat_def drop_0)
      (simp only: take_append length_be_bytes diff_self_eq_0 take_0 append_Nil2 take_all_iff order_refl)
  note d = base58D(3) [OF assms len] base58D(2) [OF assms]
  show ?thesis
    unfolding ParseTronAddress_def TronAddress_def Let_def d option.case parts body first zero len(1)
    by (simp only: refl not_True_eq_False if_False simp_thms)
qed

lemma address_of_payload: "address_of (address_payload a) = a"
  by (simp add: address_of_def address_payload_def be_val_address)

text \<open>What was accepted as an address has 21 bytes and is not zero.\<close>

lemma ParseTronAddress_shape:
  assumes "ParseTronAddress L s = Inr data"
  shows "length s = 34 \<and> length data = 21 \<and> hd data = 0x41 \<and> tl_Base58Decode L s = Some (data @ checksum L data)"
proof -
  from assms have len: "length s = 34" by (cases "length s = 34") (simp_all add: ParseTronAddress_def)
  with assms obtain d where d: "tl_Base58Decode L s = Some d"
    by (cases "tl_Base58Decode L s") (simp_all add: ParseTronAddress_def)
  note p = assms [unfolded ParseTronAddress_def d option.case len]
  from p have l: "length d = 25" "d ! 0 = 0x41"
    by (cases "length d = 25"; cases "d ! 0 = 0x41"; simp)+
  have "drop 21 d = checksum L (take 21 d)" using p l by (cases "drop 21 d = checksum L (take 21 d)") simp_all
  moreover from this p l have "data = take 21 d"
    by (cases "take 20 (drop 1 d) = replicate 20 0") simp_all
  moreover have "d = take 21 d @ drop 21 d" by simp
  moreover have "hd (take 21 d) = 0x41" using l by (cases d) simp_all
  ultimately show ?thesis using len d l by simp
qed

section \<open>Protobuf encoding\<close>

text \<open>\<^verbatim>\<open>binary.AppendUvarint\<close>: groups of seven bits, the last without the high bit.\<close>

fun uvarint :: "nat \<Rightarrow> bytes" where
  "uvarint n = (if n < 128 then [word_of_nat n] else word_of_nat (n mod 128 + 128) # uvarint (n div 128))"

declare uvarint.simps [simp del]

definition tronBytes :: "bytes \<Rightarrow> nat \<Rightarrow> bytes \<Rightarrow> bytes" where
  "tronBytes dst field v = dst @ uvarint (8 * field + 2) @ uvarint (length v) @ v"

text \<open>A negative number is written as the \<^verbatim>\<open>uint64\<close> it converts to.\<close>

definition tronInt :: "bytes \<Rightarrow> nat \<Rightarrow> int \<Rightarrow> bytes" where
  "tronInt dst field v = (if v = 0 then dst else dst @ uvarint (8 * field) @ uvarint (nat (v mod 2 ^ 64)))"

text \<open>The contract call of the transaction: its type, the name of its message, and the message.\<close>

definition tron_payload ::
    "('k, 'm) ethlib_scheme \<Rightarrow> bytes \<Rightarrow> bytes \<Rightarrow> int \<Rightarrow> bytes \<Rightarrow> err + (int \<times> string \<times> bytes)" where
  "tron_payload E owner to amount contract =
     (let payload = tronBytes [] 1 owner in
      if length contract = 0
      then Inr (1, ''TransferContract'', tronInt (tronBytes payload 2 to) 3 (int64 amount))
      else ebind (AbiPack E ''erc20.transfer'' [AbiAddress (address_of to), AbiUint amount]) (\<lambda>data.
        Inr (31, ''TriggerSmartContract'', tronBytes (tronBytes payload 2 contract) 4 data)))"

definition tronRaw ::
    "('k, 'm) ethlib_scheme \<Rightarrow> bytes \<Rightarrow> bytes \<Rightarrow> int \<Rightarrow> bytes \<Rightarrow> string \<Rightarrow> int \<Rightarrow> int \<Rightarrow> int \<Rightarrow> err + bytes" where
  "tronRaw E owner to amount contract blockID at expires feeLimit =
     (case hex_decode blockID of
        None \<Rightarrow> Inl errTronRPC
      | Some block \<Rightarrow>
          if length block \<noteq> 32 then Inl errTronRPC
          else ebind (tron_payload E owner to amount contract) (\<lambda>(kind, name, payload).
            let parameter = tronBytes [] 1 (map of_char (''type.googleapis.com/protocol.'' @ name));
                parameter = tronBytes parameter 2 payload;
                operation = tronBytes (tronInt [] 1 kind) 2 parameter;
                raw = tronBytes [] 1 (take 2 (drop 6 block));
                raw = tronBytes raw 4 (take 8 (drop 8 block));
                raw = tronInt raw 8 expires;
                raw = tronBytes raw 11 operation;
                raw = tronInt raw 14 at
            in Inr (tronInt raw 18 feeLimit)))"

definition validTronHash :: "string \<Rightarrow> bool" where
  "validTronHash hash \<longleftrightarrow>
     (case hex_decode hash of None \<Rightarrow> False | Some raw \<Rightarrow> length raw = 32 \<and> hash = to_lower hash)"

lemma lower_hex_digit: "d < 16 \<Longrightarrow> lower_char (hex_digit d) = hex_digit d"
  by (drule nibble_cases) (elim disjE; simp add: hex_digit_def lower_char_def)

lemma to_lower_hex_encode: "to_lower (hex_encode bs) = hex_encode bs"
proof (induction bs)
  case (Cons b bs)
  have "unat b < 256" by (rule unat_byte)
  then have "unat b div 16 < 16" "unat b mod 16 < 16" by simp_all
  with Cons show ?case by (simp add: hex_encode_def byte_hex_def to_lower_def lower_hex_digit)
qed (simp add: hex_encode_def to_lower_def)

lemma validTronHash_encode: "length bs = 32 \<Longrightarrow> validTronHash (hex_encode bs)"
  by (simp add: validTronHash_def to_lower_hex_encode)

section \<open>A decoder of the wire format\<close>

datatype wire = Varint nat | Blob bytes

fun read_uvarint :: "bytes \<Rightarrow> (nat \<times> bytes) option" where
  "read_uvarint [] = None"
| "read_uvarint (b # bs) =
     (if unat b < 128 then Some (unat b, bs)
      else case read_uvarint bs of None \<Rightarrow> None | Some (n, rest) \<Rightarrow> Some (unat b - 128 + 128 * n, rest))"

lemma read_uvarint_less: "read_uvarint bs = Some (n, rest) \<Longrightarrow> length rest < length bs"
proof (induction bs arbitrary: n rest)
  case (Cons b bs)
  then show ?case by (auto split: if_splits option.splits prod.splits intro: less_SucI)
qed simp

definition read_field :: "bytes \<Rightarrow> ((nat \<times> wire) \<times> bytes) option" where
  "read_field bs =
     (case read_uvarint bs of
        None \<Rightarrow> None
      | Some (tag, bs) \<Rightarrow>
          (case read_uvarint bs of
             None \<Rightarrow> None
           | Some (v, bs) \<Rightarrow>
               if tag mod 8 = 0 then Some ((tag div 8, Varint v), bs)
               else if tag mod 8 = 2 \<and> v \<le> length bs then Some ((tag div 8, Blob (take v bs)), drop v bs)
               else None))"

lemma read_field_less: "read_field bs = Some (f, rest) \<Longrightarrow> length rest < length bs"
  by (auto simp: read_field_def split: option.splits prod.splits if_splits dest!: read_uvarint_less)

function wire_fields :: "bytes \<Rightarrow> (nat \<times> wire) list option" where
  "wire_fields bs =
     (if bs = [] then Some []
      else case read_field bs of
          None \<Rightarrow> None
        | Some (f, rest) \<Rightarrow> (case wire_fields rest of None \<Rightarrow> None | Some fs \<Rightarrow> Some (f # fs)))"
  by pat_completeness auto
termination by (relation "measure length") (auto dest: read_field_less)

declare wire_fields.simps [simp del]

lemma read_uvarint_uvarint: "read_uvarint (uvarint n @ rest) = Some (n, rest)"
proof (induction n rule: uvarint.induct)
  case (1 n)
  show ?case
  proof (cases "n < 128")
    case True
    then show ?thesis by (subst uvarint.simps) (simp add: unat_of_nat)
  next
    case False
    have "unat (word_of_nat (n mod 128 + 128) :: 8 word) = n mod 128 + 128"
      using mod_less_divisor [of 128 n] by (simp only: unat_of_nat) simp
    with False 1 [OF False] show ?thesis by (subst uvarint.simps) simp
  qed
qed

definition wire_field :: "nat \<times> wire \<Rightarrow> bytes" where
  "wire_field f =
     (case f of
        (k, Varint v) \<Rightarrow> uvarint (8 * k) @ uvarint v
      | (k, Blob v) \<Rightarrow> uvarint (8 * k + 2) @ uvarint (length v) @ v)"

lemma read_field_wire: "read_field (wire_field f @ rest) = Some (f, rest)"
proof (cases f)
  case (Pair k v)
  have tag: "(8 * k + 2) mod 8 = 2" "(8 * k + 2) div 8 = k" by presburger+
  show ?thesis
    using tag by (cases v) (simp_all add: Pair wire_field_def read_field_def read_uvarint_uvarint)
qed

lemma uvarint_nonempty [simp]: "uvarint n \<noteq> []"
  by (subst uvarint.simps) simp

lemma wire_field_nonempty: "wire_field f \<noteq> []"
  by (auto simp: wire_field_def split: prod.splits wire.splits)

text \<open>The fields that were written are found.\<close>

lemma wire_fields_concat: "wire_fields (concat (map wire_field fs)) = Some fs"
proof (induction fs)
  case Nil
  show ?case by (subst wire_fields.simps) simp
next
  case (Cons f fs)
  then show ?case
    by (subst wire_fields.simps) (simp add: wire_field_nonempty read_field_wire)
qed

lemma tronBytes_wire: "tronBytes (concat (map wire_field fs)) k v = concat (map wire_field (fs @ [(k, Blob v)]))"
  by (simp add: tronBytes_def wire_field_def)

lemma tronInt_wire:
  "tronInt (concat (map wire_field fs)) k v =
     concat (map wire_field (fs @ (if v = 0 then [] else [(k, Varint (nat (v mod 2 ^ 64)))])))"
  by (simp add: tronInt_def wire_field_def)

lemma tron_empty: "[] = concat (map wire_field [])"
  by simp

end
