(* ===== verification/Crosschain.thy ===== *)
theory Crosschain
  imports TronWire
begin

text \<open>
  internal/wallet/crosschain_journal.go, and the TRON records of internal/wallet/tron.go: the
  states of a transfer on another chain, the record in memory, on disk and in a response, and the
  conversions between them.  A state is a text in all three; only reading it from disk compares
  it with the known ones.
\<close>

definition parseCrosschainState :: "string \<Rightarrow> err + string" where
  "parseCrosschainState v =
     (if v \<in> {''broadcast_unknown'', ''submitted'', ''processed'', ''confirmed'', ''finalized'', ''execution_failed'',
              ''expired_unconfirmed'', ''reverted''}
      then Inr v else Inl (ErrNew ''crosschain state''))"

section \<open>TRON records\<close>

record tronDiskRecord =
  td_Reused :: bool
  td_Signature :: string
  td_QuoteID :: string
  td_From :: string
  td_To :: string
  td_Contract :: string
  td_Symbol :: string
  td_Amount :: string
  td_State :: string
  td_Finalized :: bool
  td_FeeTRX :: string
  td_ExpiryCheckedBlock :: string
  td_ExpiryCheckedAt :: int
  td_Result :: string
  td_CreatedAt :: time
  td_Expires :: time
  td_Raw :: string
  td_Signed :: string

record tronJournalRecord =
  tr_Reused :: bool
  tr_Signature :: string
  tr_QuoteID :: string
  tr_From :: string
  tr_To :: string
  tr_Contract :: string
  tr_Symbol :: string
  tr_Amount :: string
  tr_State :: string
  tr_Finalized :: bool
  tr_FeeTRX :: string
  tr_ExpiryCheckedBlock :: string
  tr_ExpiryCheckedAt :: int
  tr_Result :: string
  tr_CreatedAt :: time
  tr_Expires :: time
  tr_Raw :: string
  tr_Signed :: string

record TronRecord =
  rr_Reused :: bool
  rr_Signature :: string
  rr_QuoteID :: string
  rr_From :: string
  rr_To :: string
  rr_Contract :: string
  rr_Symbol :: string
  rr_Amount :: string
  rr_State :: string
  rr_Finalized :: bool
  rr_FeeTRX :: string
  rr_ExpiryCheckedBlock :: string
  rr_ExpiryCheckedAt :: int
  rr_Result :: string
  rr_CreatedAt :: time
  rr_Expires :: time

text \<open>The addresses of a record are read one after another; the empty text is none.\<close>

primrec check_addresses :: "('k, 'm) tronlib_scheme \<Rightarrow> string list \<Rightarrow> err + unit" where
  "check_addresses L [] = Inr ()"
| "check_addresses L (a # as) =
     (if a \<noteq> [] then ebind (ParseTronAddress L a) (\<lambda>_. check_addresses L as) else check_addresses L as)"

definition tronRecordFromDisk :: "('k, 'm) tronlib_scheme \<Rightarrow> tronDiskRecord \<Rightarrow> err + tronJournalRecord" where
  "tronRecordFromDisk L stored =
     ebind (parseCrosschainState (td_State stored)) (\<lambda>state.
     ebind (ParseLegacyQuoteID (td_QuoteID stored)) (\<lambda>quoteID.
       if \<not> validTronHash (td_Signature stored) then Inl (ErrNew ''TRON transaction id'')
       else ebind (check_addresses L [td_From stored, td_To stored, td_Contract stored]) (\<lambda>_.
         Inr \<lparr> tr_Reused = td_Reused stored, tr_Signature = td_Signature stored, tr_QuoteID = quoteID,
               tr_From = td_From stored, tr_To = td_To stored, tr_Contract = td_Contract stored,
               tr_Symbol = td_Symbol stored, tr_Amount = td_Amount stored, tr_State = state,
               tr_Finalized = td_Finalized stored, tr_FeeTRX = td_FeeTRX stored,
               tr_ExpiryCheckedBlock = td_ExpiryCheckedBlock stored, tr_ExpiryCheckedAt = td_ExpiryCheckedAt stored,
               tr_Result = td_Result stored, tr_CreatedAt = td_CreatedAt stored, tr_Expires = td_Expires stored,
               tr_Raw = td_Raw stored, tr_Signed = td_Signed stored \<rparr>)))"

definition tronRecordToDisk :: "tronJournalRecord \<Rightarrow> tronDiskRecord" where
  "tronRecordToDisk r =
     \<lparr> td_Reused = tr_Reused r, td_Signature = tr_Signature r, td_QuoteID = tr_QuoteID r, td_From = tr_From r,
       td_To = tr_To r, td_Contract = tr_Contract r, td_Symbol = tr_Symbol r, td_Amount = tr_Amount r,
       td_State = tr_State r, td_Finalized = tr_Finalized r, td_FeeTRX = tr_FeeTRX r,
       td_ExpiryCheckedBlock = tr_ExpiryCheckedBlock r, td_ExpiryCheckedAt = tr_ExpiryCheckedAt r,
       td_Result = tr_Result r, td_CreatedAt = tr_CreatedAt r, td_Expires = tr_Expires r, td_Raw = tr_Raw r,
       td_Signed = tr_Signed r \<rparr>"

definition tronRecordResponse :: "tronJournalRecord \<Rightarrow> TronRecord" where
  "tronRecordResponse r =
     \<lparr> rr_Reused = tr_Reused r, rr_Signature = tr_Signature r, rr_QuoteID = tr_QuoteID r, rr_From = tr_From r,
       rr_To = tr_To r, rr_Contract = tr_Contract r, rr_Symbol = tr_Symbol r, rr_Amount = tr_Amount r,
       rr_State = tr_State r, rr_Finalized = tr_Finalized r, rr_FeeTRX = tr_FeeTRX r,
       rr_ExpiryCheckedBlock = tr_ExpiryCheckedBlock r, rr_ExpiryCheckedAt = tr_ExpiryCheckedAt r,
       rr_Result = tr_Result r, rr_CreatedAt = tr_CreatedAt r, rr_Expires = tr_Expires r \<rparr>"

text \<open>What makes a record readable, and then it is read as it was.\<close>

definition tron_optional :: "('k, 'm) tronlib_scheme \<Rightarrow> string \<Rightarrow> bool" where
  "tron_optional L a \<longleftrightarrow> a = [] \<or> (\<exists>d. ParseTronAddress L a = Inr d)"

definition readable :: "('k, 'm) tronlib_scheme \<Rightarrow> tronJournalRecord \<Rightarrow> bool" where
  "readable L r \<longleftrightarrow>
     parseCrosschainState (tr_State r) = Inr (tr_State r) \<and> ParseLegacyQuoteID (tr_QuoteID r) = Inr (tr_QuoteID r) \<and>
     validTronHash (tr_Signature r) \<and> list_all (tron_optional L) [tr_From r, tr_To r, tr_Contract r]"

lemma check_addresses_ok: "check_addresses L as = Inr () \<longleftrightarrow> list_all (tron_optional L) as"
proof (induction as)
  case (Cons a as)
  then show ?case by (cases "ParseTronAddress L a") (auto simp: tron_optional_def)
qed simp

lemma tronRecordFromDisk_readable: "readable L r \<Longrightarrow> tronRecordFromDisk L (tronRecordToDisk r) = Inr r"
  using check_addresses_ok [of L "[tr_From r, tr_To r, tr_Contract r]"]
  by (simp add: readable_def tronRecordFromDisk_def tronRecordToDisk_def)

lemma parseCrosschainState_same: "parseCrosschainState v = Inr w \<Longrightarrow> w = v"
  by (auto simp: parseCrosschainState_def split: if_splits)

lemma tronRecordFromDisk_ok:
  assumes "tronRecordFromDisk L d = Inr r"
  shows "readable L r \<and> d = tronRecordToDisk r"
proof -
  from assms have c: "check_addresses L [td_From d, td_To d, td_Contract d] = Inr ()"
    unfolding tronRecordFromDisk_def by (auto simp: ebind_eq_Inr simp del: check_addresses.simps split: if_splits)
  from assms show ?thesis
    using c [unfolded check_addresses_ok] parseCrosschainState_same [of "td_State d"]
    unfolding tronRecordFromDisk_def readable_def tronRecordToDisk_def
    by (auto simp: ebind_eq_Inr ParseLegacyQuoteID_iff simp del: check_addresses.simps split: if_splits)
qed

end
