(* ===== verification/Tron.thy ===== *)
theory Tron
  imports Crosschain Journal Keystore
begin

text \<open>
  internal/wallet/tron.go, and the part of tron_rpc.go that asks the node: the service that
  quotes, signs, stores and broadcasts TRON transfers.  Every exported method runs under the
  mutex of the service and is one body here.  The key file is reached through \<open>key_api\<close>, as in
  the Ethereum service; the five methods that only use the key manager stand at the end, over the
  manager itself.
\<close>

section \<open>State and environment\<close>

record TronQuote =
  tq_ID :: string
  tq_From :: string
  tq_To :: string
  tq_Contract :: string
  tq_Symbol :: string
  tq_Amount :: string
  tq_AmountRaw :: string
  tq_Decimals :: int
  tq_FeeTRX :: string
  tq_FeeLimitTRX :: string
  tq_Energy :: int
  tq_Bandwidth :: int
  tq_Expires :: time
  tq_raw :: bytes
  tq_required :: int
  tq_units :: int

record tron_heap =
  th_quotes :: "(string \<times> TronQuote) list"
  th_records :: "tronJournalRecord list"
  th_fault :: bool
  th_historyNext :: nat

text \<open>The directory holds one file: the records it stores, or a text that does not decode to records.\<close>

type_synonym tron_file = "tronDiskRecord list option"
type_synonym ('w, 'h, 'a) tract = "('w, tron_file, 'h tron_heap_scheme, 'a) act"

text \<open>
  \<open>te_Post\<close> is a round trip to the node: the path and the body of the request give a status and
  what reading at most so many bytes of the answer gives.
\<close>

record ('k, 'w) tron_env =
  te_eth :: "'k ethlib"
  te_os :: "'w io"
  te_lib :: "'k tronlib"
  te_keys :: "('k, 'w) key_api"
  te_Post :: "string \<Rightarrow> json \<Rightarrow> 'w \<Rightarrow> (err + int \<times> (nat \<Rightarrow> bytes option)) \<times> 'w"
  te_Unmarshal :: "bytes \<Rightarrow> json option"
  te_NewID :: "'w \<Rightarrow> string \<times> 'w"

section \<open>Asking the node (tron_rpc.go)\<close>

definition TronShastaGenesis :: string where
  "TronShastaGenesis = ''0000000000000000de1aa88295e1fcf982742f773e0419c5a9c134c994a9059e''"

definition response_limit :: nat where
  "response_limit = 2 * 1024 * 1024"

definition tron_output :: "json option \<Rightarrow> (json option \<Rightarrow> err + 'a) \<Rightarrow> err + 'a" where
  "tron_output d output =
     (case ebind (object d) (\<lambda>es. member str_field ''Error'' es []) of
        Inl _ \<Rightarrow> Inl errTronRPC
      | Inr failure \<Rightarrow>
          if failure \<noteq> [] then Inl errTronRPC
          else case output d of Inl _ \<Rightarrow> Inl errTronRPC | Inr x \<Rightarrow> Inr x)"

definition tron_call ::
    "('k, 'w) tron_env \<Rightarrow> string \<Rightarrow> json \<Rightarrow> (json option \<Rightarrow> err + 'a) \<Rightarrow> ('w, 'f, 'h, 'a) act" where
  "tron_call V path body output =
     andthen (map_err (\<lambda>_. errTronRPC) (on_world (te_Post V path body))) (\<lambda>(status, reader).
       case reader (response_limit + 1) of
         None \<Rightarrow> throw errTronRPC
       | Some data \<Rightarrow>
           fail_if (status \<noteq> 200 \<or> response_limit < length data) errTronRPC
          (lift (tron_output (te_Unmarshal V data) output)))"

definition block_id :: "json option \<Rightarrow> err + string" where
  "block_id d = ebind (object d) (\<lambda>es. member str_field ''blockID'' es [])"

definition tron_check :: "('k, 'w) tron_env \<Rightarrow> ('w, 'f, 'h, unit) act" where
  "tron_check V =
     andthen (tron_call V ''/wallet/getblockbynum'' (JObj [(''num'', JInt 0)]) block_id) (\<lambda>genesis.
       fail_if (genesis \<noteq> TronShastaGenesis) (ErrNew ''RPC is not TRON Shasta'') (ret ()))"

record tronAccount =
  ta_Address :: string
  ta_Balance :: int

definition account_body :: "string \<Rightarrow> json" where
  "account_body address = JObj [(''address'', JStr address), (''visible'', JBool True)]"

definition account_output :: "json option \<Rightarrow> err + tronAccount" where
  "account_output d =
     ebind (object d) (\<lambda>es.
     ebind (member str_field ''address'' es []) (\<lambda>address.
     ebind (member int_field ''balance'' es 0) (\<lambda>balance.
       Inr \<lparr> ta_Address = address, ta_Balance = balance \<rparr>)))"

definition tron_account :: "('k, 'w) tron_env \<Rightarrow> string \<Rightarrow> ('w, 'f, 'h, tronAccount) act" where
  "tron_account V address =
     andthen (lift (ParseTronAddress (te_lib V) address)) (\<lambda>_.
     andthen (tron_call V ''/wallet/getaccount'' (account_body address) account_output) (\<lambda>result.
       fail_if (ta_Balance result < 0) errTronRPC (ret result)))"

record TronBalance =
  tb_Address :: string
  tb_TRX :: string
  tb_Active :: bool
  tb_Bandwidth :: int
  tb_Energy :: int

text \<open>The resources of an account: limit and use of bandwidth, free bandwidth and energy.\<close>

definition resources_output :: "json option \<Rightarrow> err + (int \<times> int) \<times> (int \<times> int) \<times> (int \<times> int)" where
  "resources_output d =
     ebind (object d) (\<lambda>es.
     ebind (member int_field ''NetLimit'' es 0) (\<lambda>netLimit.
     ebind (member int_field ''NetUsed'' es 0) (\<lambda>netUsed.
     ebind (member int_field ''FreeNetLimit'' es 0) (\<lambda>freeLimit.
     ebind (member int_field ''FreeNetUsed'' es 0) (\<lambda>freeUsed.
     ebind (member int_field ''EnergyLimit'' es 0) (\<lambda>energyLimit.
     ebind (member int_field ''EnergyUsed'' es 0) (\<lambda>energyUsed.
       Inr ((netLimit, netUsed), (freeLimit, freeUsed), (energyLimit, energyUsed)))))))))"

definition TronServiceBalance :: "('k, 'w) tron_env \<Rightarrow> string \<Rightarrow> ('w, 'f, 'h, TronBalance) act" where
  "TronServiceBalance V address =
     seq (tron_check V)
    (andthen (tron_account V address) (\<lambda>account.
     andthen (tron_call V ''/wallet/getaccountresource'' (account_body address) resources_output)
       (\<lambda>((netLimit, netUsed), (freeLimit, freeUsed), (energyLimit, energyUsed)).
       ret \<lparr> tb_Address = address, tb_TRX = units_text (ta_Balance account) 6, tb_Active = (ta_Address account \<noteq> []),
             tb_Bandwidth = int64 (max 0 (int64 (netLimit - netUsed)) + max 0 (int64 (freeLimit - freeUsed))),
             tb_Energy = max 0 (int64 (energyLimit - energyUsed)) \<rparr>)))"

definition method_sig :: "string \<Rightarrow> string" where
  "method_sig method =
     (if method = ''transfer'' then ''transfer(address,uint256)''
      else if method = ''balanceOf'' then ''balanceOf(address)''
      else if method = ''decimals'' then ''decimals()''
      else if method = ''symbol'' then ''symbol()'' else [])"

text \<open>The result of a simulated call: did it succeed, the returned words, the energy.\<close>

definition constant_output :: "json option \<Rightarrow> err + bool \<times> string list \<times> int" where
  "constant_output d =
     ebind (object d) (\<lambda>es.
     ebind (ebind (members ''result'' es) (\<lambda>rs. member bool_field ''result'' rs False)) (\<lambda>ok.
     ebind (member strs_field ''constant_result'' es []) (\<lambda>results.
     ebind (member int_field ''energy_used'' es 0) (\<lambda>energy.
       Inr (ok, results, energy)))))"

definition tron_constant ::
    "('k, 'w) tron_env \<Rightarrow> string \<Rightarrow> string \<Rightarrow> string \<Rightarrow> abi_value list \<Rightarrow> ('w, 'f, 'h, bytes \<times> int) act" where
  "tron_constant V owner contract method args =
     andthen (lift (ParseTronAddress (te_lib V) contract)) (\<lambda>_.
     andthen (lift (AbiPack (te_eth V) (''erc20.'' @ method) args)) (\<lambda>data.
     andthen (map_err (\<lambda>_. ErrSimulationFailed)
       (tron_call V ''/wallet/triggerconstantcontract''
         (JObj [(''owner_address'', JStr owner), (''contract_address'', JStr contract),
                (''function_selector'', JStr (method_sig method)), (''parameter'', JStr (hex_encode (drop 4 data))),
                (''visible'', JBool True)]) constant_output)) (\<lambda>(ok, results, energy).
       case results of
         [r] \<Rightarrow> fail_if (\<not> ok) ErrSimulationFailed
           (case hex_decode r of None \<Rightarrow> throw ErrSimulationFailed | Some raw \<Rightarrow> ret (raw, energy))
       | _ \<Rightarrow> throw ErrSimulationFailed)))"

record TronToken =
  tt_Contract :: string
  tt_Symbol :: string
  tt_Decimals :: int
  tt_Balance :: string
  tt_Raw :: int

text \<open>One result of the declared type; the decoder gives no other.\<close>

definition abi_one :: "('k, 'm) ethlib_scheme \<Rightarrow> string \<Rightarrow> bytes \<Rightarrow> err + abi_value" where
  "abi_one E method raw = (case AbiUnpack E method raw of Inr [v] \<Rightarrow> Inr v | _ \<Rightarrow> Inl ErrSimulationFailed)"

definition tron_token :: "('k, 'w) tron_env \<Rightarrow> string \<Rightarrow> string \<Rightarrow> ('w, 'f, 'h, TronToken) act" where
  "tron_token V owner contract =
     andthen (lift (ParseTronAddress (te_lib V) owner)) (\<lambda>a.
     andthen (tron_constant V owner contract ''symbol'' []) (\<lambda>(raw, _).
     andthen (lift (abi_one (te_eth V) ''erc20.symbol'' raw)) (\<lambda>v.
     andthen (lift (case v of AbiString s \<Rightarrow> Inr s | _ \<Rightarrow> Inl (ErrExt ''interface conversion''))) (\<lambda>symbol.
     fail_if (length symbol = 0 \<or> 32 < length symbol) ErrSymbolTooLong
    (andthen (tron_constant V owner contract ''decimals'' []) (\<lambda>(raw, _).
     andthen (lift (abi_one (te_eth V) ''erc20.decimals'' raw)) (\<lambda>v.
     andthen (lift (case v of AbiUint n \<Rightarrow> Inr n | _ \<Rightarrow> Inl (ErrExt ''interface conversion''))) (\<lambda>decimals.
     fail_if (36 < decimals) ErrDecimalsTooLarge
    (andthen (tron_constant V owner contract ''balanceOf'' [AbiAddress (address_of a)]) (\<lambda>(raw, _).
     andthen (lift (abi_one (te_eth V) ''erc20.balanceOf'' raw)) (\<lambda>v.
     andthen (lift (case v of AbiUint n \<Rightarrow> Inr n | _ \<Rightarrow> Inl (ErrExt ''interface conversion''))) (\<lambda>balance.
       ret \<lparr> tt_Contract = contract, tt_Symbol = symbol, tt_Decimals = decimals,
             tt_Balance = units_text balance decimals, tt_Raw = balance \<rparr>))))))))))))"

definition TronServiceToken :: "('k, 'w) tron_env \<Rightarrow> string \<Rightarrow> string \<Rightarrow> ('w, 'f, 'h, TronToken) act" where
  "TronServiceToken V owner contract = seq (tron_check V) (tron_token V owner contract)"

text \<open>\<^verbatim>\<open>UnpackIntoInterface(&ok, "transfer", raw)\<close>\<close>

definition transfer_ok :: "('k, 'm) ethlib_scheme \<Rightarrow> bytes \<Rightarrow> bool option" where
  "transfer_ok E raw = (case AbiUnpack E ''erc20.transfer'' raw of Inr [AbiBool b] \<Rightarrow> Some b | _ \<Rightarrow> None)"

section \<open>The journal\<close>

definition tronJournal :: string where
  "tronJournal = ''transactions.json''"

text \<open>\<^verbatim>\<open>parsed_url\<close> is what \<^verbatim>\<open>url.Parse\<close> finds in the endpoint.\<close>

record parsed_url =
  pu_Scheme :: string
  pu_Host :: string
  pu_User :: bool
  pu_RawQuery :: string
  pu_Fragment :: string

definition tron_signed :: "bytes \<Rightarrow> bytes \<Rightarrow> bytes" where
  "tron_signed raw sig = tronBytes (tronBytes [] 1 raw) 2 sig"

text \<open>The checks on a record that was read: its bytes hash to its identifier and are signed by its sender.\<close>

definition tron_loaded :: "('k, 'm) tronlib_scheme \<Rightarrow> tronDiskRecord \<Rightarrow> err + tronJournalRecord" where
  "tron_loaded L disk =
     ebind (tronRecordFromDisk L disk) (\<lambda>r.
       case (hex_decode (tr_Raw r), hex_decode (tr_Signed r)) of
         (Some raw, Some whole) \<Rightarrow>
           let hash = tl_Sha256 L raw; prefix = tronBytes [] 1 raw in
           (if hex_encode hash \<noteq> tr_Signature r \<or> length whole \<noteq> length prefix + 67
           then Inl (ErrNew ''TRON journal transaction damaged'')
           else let signature = drop (length whole - 65) whole in
             (case tl_SigToPub L hash signature of
               None \<Rightarrow> Inl (ErrNew ''TRON journal signature'')
             | Some address \<Rightarrow>
                 if TronAddress L address \<noteq> tr_From r \<or> hex_encode (tronBytes prefix 2 signature) \<noteq> tr_Signed r
                 then Inl (ErrNew ''TRON journal signature'') else Inr r))
       | _ \<Rightarrow> Inl (ErrNew ''TRON journal transaction damaged''))"

definition tron_url_ok :: "parsed_url option \<Rightarrow> bool" where
  "tron_url_ok u =
     (case u of None \<Rightarrow> False
      | Some u \<Rightarrow> pu_Host u \<noteq> [] \<and> \<not> pu_User u \<and> (pu_Scheme u = ''https'' \<or> pu_Scheme u = ''http'') \<and>
                  pu_RawQuery u = [] \<and> pu_Fragment u = [])"

definition NewTronService :: "('k, 'w) tron_env \<Rightarrow> parsed_url option \<Rightarrow> ('w, 'h, unit) tract" where
  "NewTronService V u =
     fail_if (\<not> tron_url_ok u) (ErrNew ''TRON RPC URL'')
    (seq (on_world (SysCall (te_os V) ''mkdir''))
    (seq (on_world (SysCall (te_os V) ''open''))
    (seq (on_world (SysCall (te_os V) ''flock''))
    (andthen (ReadFile (te_os V) tronJournal) (\<lambda>data.
     andthen (lift (case data of
         None \<Rightarrow> Inr []
       | Some None \<Rightarrow> Inl (ErrNew ''TRON journal unreadable'')
       | Some (Some stored) \<Rightarrow>
           if 1000 < length stored then Inl (ErrNew ''TRON journal unreadable'') else Inr stored)) (\<lambda>stored.
     andthen (lift (emap (tron_loaded (te_lib V)) stored)) (\<lambda>records.
       set_heap (\<lambda>h. h\<lparr> th_quotes := [], th_records := records, th_fault := False, th_historyNext := 0 \<rparr>))))))))"

definition tron_pending :: "tronJournalRecord list \<Rightarrow> bool" where
  "tron_pending rs \<longleftrightarrow> list_ex (\<lambda>r. \<not> tr_Finalized r \<and> tr_State r \<noteq> ''expired_unconfirmed'') rs"

text \<open>\<^verbatim>\<open>json.Marshal\<close> refuses a time outside the years 0 to 9999.\<close>

definition marshal_tron :: "tronJournalRecord list \<Rightarrow> err + tron_file" where
  "marshal_tron rs =
     (if list_all (\<lambda>r. json_time (tr_CreatedAt r) \<and> json_time (tr_Expires r)) rs
      then Inr (Some (map tronRecordToDisk rs)) else Inl (ErrExt ''json: year outside of range''))"

definition tron_save :: "('k, 'w) tron_env \<Rightarrow> tronJournalRecord list \<Rightarrow> ('w, 'h, unit) tract" where
  "tron_save V rs =
     andthen (attempt (andthen (lift (marshal_tron rs)) (atomicWriteFile (te_os V) tronJournal))) (\<lambda>r.
       case r of
         Inl e \<Rightarrow> seq (set_heap (th_fault_update (\<lambda>_. True))) (throw e)
       | Inr _ \<Rightarrow> set_heap (th_records_update (\<lambda>_. rs)))"

end
