(* ===== verification/TronService.thy ===== *)
theory TronService
  imports Tron
begin

text \<open>
  internal/wallet/tron.go, the operations: quoting a transfer, signing and sending it, sending the
  stored bytes again, and refreshing the history from the solidified chain.
\<close>

section \<open>Quoting\<close>

text \<open>An array of (key, value) structs; a key that is listed twice has its last value.\<close>

definition parameter_of :: "json \<Rightarrow> err + string \<times> int" where
  "parameter_of v =
     ebind (object (Some v)) (\<lambda>es.
     ebind (member str_field ''Key'' es []) (\<lambda>key.
     ebind (member int_field ''Value'' es 0) (\<lambda>val. Inr (key, val))))"

definition parameters_field :: "(string \<times> int) list field" where
  "parameters_field v old =
     (case v of JNull \<Rightarrow> Inr [] | JArr vs \<Rightarrow> emap parameter_of vs | _ \<Rightarrow> bad_json)"

definition parameters_output :: "json option \<Rightarrow> err + (string \<times> int) list" where
  "parameters_output d = ebind (object d) (\<lambda>es. member parameters_field ''chainParameter'' es [])"

definition cost_of :: "(string \<times> int) list \<Rightarrow> string \<Rightarrow> int" where
  "cost_of ps name = (case map_of (rev ps) name of None \<Rightarrow> 0 | Some v \<Rightarrow> v)"

definition cost_names :: "string list" where
  "cost_names = [''getTransactionFee'', ''getEnergyFee'', ''getCreateNewAccountFeeInSystemContract'', ''getCreateAccountFee'']"

definition costs_ok :: "(string \<times> int) list \<Rightarrow> bool" where
  "costs_ok ps \<longleftrightarrow> list_all (\<lambda>name. 0 < cost_of ps name \<and> cost_of ps name \<le> 100000000) cost_names"

text \<open>The identifier and the time of a block.\<close>

definition block_output :: "json option \<Rightarrow> err + string \<times> int" where
  "block_output d =
     ebind (object d) (\<lambda>es.
     ebind (member str_field ''blockID'' es []) (\<lambda>ident.
     ebind (ebind (members ''block_header'' es) (members ''raw_data'')) (\<lambda>rs.
     ebind (member int_field ''timestamp'' rs 0) (\<lambda>timestamp. Inr (ident, timestamp)))))"

definition unix_milli :: "time \<Rightarrow> int" where
  "unix_milli t = t div 1000000"

text \<open>The token of the quote, none for TRX; the amount in units with its texts.\<close>

definition quote_token ::
    "('k, 'w) tron_env \<Rightarrow> string \<Rightarrow> string \<Rightarrow> ('w, 'f, 'h, bytes \<times> TronToken option) act" where
  "quote_token V from contract =
     (if contract = [] then ret ([], None)
      else andthen (lift (ParseTronAddress (te_lib V) contract)) (\<lambda>contractBytes.
           andthen (tron_token V from contract) (\<lambda>token. ret (contractBytes, Some token))))"

definition quote_units :: "TronToken option \<Rightarrow> string \<Rightarrow> string \<Rightarrow> err + int \<times> string \<times> string" where
  "quote_units token amount amountRaw =
     (case token of
        None \<Rightarrow> ebind (ParseUnits amount 6) (\<lambda>units. Inr (units, amount, []))
      | Some t \<Rightarrow> ebind (ParseRawTokenAmount amountRaw) (\<lambda>units. Inr (units, units_text units (tt_Decimals t), int_str units)))"

text \<open>
  What the transfer costs beside bandwidth: the amount that leaves the account in TRX, the price
  of activating the recipient, the energy and the limit of its fee.
\<close>

definition transfer_costs ::
    "('k, 'w) tron_env \<Rightarrow> (string \<times> int) list \<Rightarrow> string \<Rightarrow> string \<Rightarrow> bytes \<Rightarrow> string \<Rightarrow> TronToken option \<Rightarrow> int
       \<Rightarrow> ('w, 'f, 'h, int \<times> int \<times> int \<times> int) act" where
  "transfer_costs V costs from to toBytes contract token units =
     (case token of
        None \<Rightarrow>
          fail_if (units < - (2 ^ 63) \<or> 2 ^ 63 \<le> units) (ErrNew ''TRX amount out of range'')
         (andthen (tron_account V to) (\<lambda>recipient.
            ret (units,
                 if ta_Address recipient = []
                 then int64 (cost_of costs ''getCreateNewAccountFeeInSystemContract'' + cost_of costs ''getCreateAccountFee'')
                 else 0, 0, 0)))
      | Some t \<Rightarrow>
          fail_if (tt_Raw t < units) ErrInsufficientFunds
         (andthen (tron_constant V from contract ''transfer'' [AbiAddress (address_of toBytes), AbiUint units])
            (\<lambda>(raw, energy).
            fail_if (transfer_ok (te_eth V) raw \<noteq> Some True \<or> energy \<le> 0 \<or> 10000000 < energy) ErrSimulationFailed
           (let feeLimit = int64 (energy * cost_of costs ''getEnergyFee'' * 2) in
            fail_if (100000000 < feeLimit) (ErrNew ''energy reserve above the limit'')
           (ret (0, 0, energy, feeLimit))))))"

definition bandwidth_of :: "bytes \<Rightarrow> int" where
  "bandwidth_of raw = int (length (tron_signed raw (replicate 65 0)) + 64)"

text \<open>Unexpired quotes stay; every quote is compared with a clock reading of its own.\<close>

definition drop_expired ::
    "('w, 'm) io_scheme \<Rightarrow> (string \<times> TronQuote) list \<Rightarrow> ('w, 'f, 'h, (string \<times> TronQuote) list) act" where
  "drop_expired I qs =
     for_each qs (\<lambda>x kept. andthen (now I) (\<lambda>t. ret (if tq_Expires (snd x) < t then kept else kept @ [x]))) []"

definition store_quote :: "('k, 'w) tron_env \<Rightarrow> TronQuote \<Rightarrow> ('w, 'h, unit) tract" where
  "store_quote V q =
     andthen (get_heap th_quotes) (\<lambda>qs.
     andthen (drop_expired (te_os V) qs) (\<lambda>kept.
     seq (set_heap (th_quotes_update (\<lambda>_. kept)))
    (fail_if (256 \<le> length kept) ErrQuoteStorageFull
    (set_heap (th_quotes_update (AList.update (tq_ID q) q))))))"

definition tron_from :: "('k, 'w) tron_env \<Rightarrow> string \<Rightarrow> string" where
  "tron_from V owner = TronAddress (te_lib V) (HexToAddress (te_eth V) owner)"

text \<open>
  The quote, once the node and the accounts have been checked: identifier and expiry, token and
  amount, costs, the bytes to sign, and the cover by the balance.
\<close>

definition build_quote ::
    "('k, 'w) tron_env \<Rightarrow> (string \<times> int) list \<Rightarrow> tronAccount \<Rightarrow> string \<Rightarrow> string \<Rightarrow> bytes \<Rightarrow> string \<Rightarrow> string \<Rightarrow> string
       \<Rightarrow> ('w, 'f, 'h, TronQuote) act" where
  "build_quote V costs account from to toBytes amount contract amountRaw =
     andthen (on_world (\<lambda>w. case te_NewID V w of (i, w') \<Rightarrow> (Inr i, w'))) (\<lambda>ident.
     andthen (now (te_os V)) (\<lambda>t.
     let expires = t + seconds 60 in
     andthen (quote_token V from contract) (\<lambda>(contractBytes, token).
     andthen (lift (quote_units token amount amountRaw)) (\<lambda>(units, amount, rawText).
     fail_if (units \<le> 0) (ErrNew ''amount must be positive'')
    (andthen (transfer_costs V costs from to toBytes contract token units) (\<lambda>(v, activation, energy, feeLimit).
     andthen (tron_call V ''/wallet/getnowblock'' (JObj []) block_output) (\<lambda>(blockID, timestamp).
     andthen (now (te_os V)) (\<lambda>t.
     let ms = unix_milli t in
     fail_if (timestamp < ms - 120000 \<or> ms + 30000 < timestamp) (ErrNew ''block time not fresh'')
    (andthen (lift (tronRaw (te_eth V) (case ParseTronAddress (te_lib V) from of Inr b \<Rightarrow> b | Inl _ \<Rightarrow> []) toBytes units
                contractBytes blockID ms (unix_milli expires) feeLimit)) (\<lambda>raw.
     let bandwidth = bandwidth_of raw;
         reserve = int64 (bandwidth * cost_of costs ''getTransactionFee'' + activation + feeLimit) in
     fail_if (ta_Balance account < v \<or> int64 (ta_Balance account - v) < reserve) ErrInsufficientFunds
    (ret \<lparr> tq_ID = ident, tq_From = from, tq_To = to, tq_Contract = contract,
           tq_Symbol = (case token of None \<Rightarrow> ''TRX'' | Some k \<Rightarrow> tt_Symbol k), tq_Amount = amount, tq_AmountRaw = rawText,
           tq_Decimals = (case token of None \<Rightarrow> 6 | Some k \<Rightarrow> tt_Decimals k), tq_FeeTRX = units_text reserve 6,
           tq_FeeLimitTRX = units_text feeLimit 6, tq_Energy = energy, tq_Bandwidth = bandwidth, tq_Expires = expires,
           tq_raw = raw, tq_required = int64 (v + reserve), tq_units = units \<rparr>)))))))))))"

definition TronQuoteCall ::
    "('k, 'w) tron_env \<Rightarrow> string \<Rightarrow> string \<Rightarrow> string \<Rightarrow> string \<Rightarrow> ('w, 'h, TronQuote) tract" where
  "TronQuoteCall V to amount contract amountRaw =
     andthen (get_heap (\<lambda>h. (th_fault h, th_records h))) (\<lambda>(fault, records).
     fail_if fault (ErrNew ''TRON storage fault'')
    (fail_if (tron_pending records) ErrTxInFlight
    (fail_if (1000 \<le> length records) ErrJournalFull
    (andthen (lift (ParseTronAddress (te_lib V) to)) (\<lambda>toBytes.
     andthen (ask (ka_Address (te_keys V))) (\<lambda>owner.
     let from = tron_from V owner in
     fail_if (contract = [] \<and> to = from) (ErrNew ''TRX to oneself'')
    (seq (tron_check V)
    (andthen (tron_account V from) (\<lambda>account.
     fail_if (ta_Address account = []) (ErrNew ''account not active'')
    (andthen (tron_call V ''/wallet/getchainparameters'' (JObj []) parameters_output) (\<lambda>costs.
     fail_if (\<not> costs_ok costs) (ErrNew ''TRON fee parameters'')
    (andthen (build_quote V costs account from to toBytes amount contract amountRaw) (\<lambda>q.
     seq (store_quote V q) (ret q))))))))))))))"

section \<open>Sending\<close>

text \<open>The answer to a broadcast: accepted, and the identifier the node gives it.\<close>

definition broadcast_output :: "json option \<Rightarrow> err + bool \<times> string" where
  "broadcast_output d =
     ebind (object d) (\<lambda>es.
     ebind (member bool_field ''Result'' es False) (\<lambda>accepted.
     ebind (member str_field ''Code'' es []) (\<lambda>_.
     ebind (member str_field ''txid'' es []) (\<lambda>txid. Inr (accepted, txid)))))"

text \<open>
  The bytes leave the process when they are posted (\<open>SentRaw\<close>).  The result is the response and
  the error the Go method returns with it.
\<close>

definition tron_broadcast :: "('k, 'w) tron_env \<Rightarrow> nat \<Rightarrow> ('w, 'h, TronRecord option \<times> err option) tract" where
  "tron_broadcast V i =
     andthen (get_heap th_records) (\<lambda>records.
     let r = records ! i in
     andthen (attempt (tron_check V)) (\<lambda>checked.
     case checked of
       Inl e \<Rightarrow> ret (Some (tronRecordResponse r), Some e)
     | Inr _ \<Rightarrow>
         andthen (now (te_os V)) (\<lambda>t.
         fail_if (tr_Expires r < t) (ErrNew ''transaction expired'')
        (seq (emit (SentRaw (tr_Signed r)))
        (andthen (attempt (tron_call V ''/wallet/broadcasthex'' (JObj [(''transaction'', JStr (tr_Signed r))]) broadcast_output))
          (\<lambda>answer.
          let accepted = (case answer of Inl _ \<Rightarrow> False | Inr (ok, txid) \<Rightarrow> ok \<and> (txid = [] \<or> txid = tr_Signature r));
              r' = r\<lparr> tr_State := (if accepted then ''submitted'' else ''broadcast_unknown'') \<rparr> in
          seq (tron_save V (records[i := r']))
              (ret (Some (tronRecordResponse r'), None))))))))"

text \<open>The token of a quote is looked at again: same decimals and symbol, balance, and the simulated transfer.\<close>

definition recheck_token :: "('k, 'w) tron_env \<Rightarrow> TronQuote \<Rightarrow> ('w, 'f, 'h, unit) act" where
  "recheck_token V q =
     (if tq_Contract q = [] then ret ()
      else
        andthen (tron_token V (tq_From q) (tq_Contract q)) (\<lambda>token.
        fail_if (tt_Decimals token \<noteq> tq_Decimals q \<or> tt_Symbol token \<noteq> tq_Symbol q \<or> tt_Raw token < tq_units q)
          ErrInsufficientFunds
       (let to = (case ParseTronAddress (te_lib V) (tq_To q) of Inr b \<Rightarrow> b | Inl _ \<Rightarrow> []) in
        andthen (map_err (\<lambda>_. ErrSimulationFailed)
          (tron_constant V (tq_From q) (tq_Contract q) ''transfer'' [AbiAddress (address_of to), AbiUint (tq_units q)]))
          (\<lambda>(raw, energy).
          fail_if (transfer_ok (te_eth V) raw \<noteq> Some True \<or> energy \<le> 0 \<or> int64 (tq_Energy q * 2) < energy)
            ErrSimulationFailed (ret ())))))"

definition signed_record :: "TronQuote \<Rightarrow> string \<Rightarrow> bytes \<Rightarrow> bytes \<Rightarrow> time \<Rightarrow> tronJournalRecord" where
  "signed_record q quoteID hash sig t =
     \<lparr> tr_Reused = False, tr_Signature = hex_encode hash, tr_QuoteID = quoteID, tr_From = tq_From q, tr_To = tq_To q,
       tr_Contract = tq_Contract q, tr_Symbol = tq_Symbol q, tr_Amount = tq_Amount q, tr_State = ''broadcast_unknown'',
       tr_Finalized = False, tr_FeeTRX = [], tr_ExpiryCheckedBlock = [], tr_ExpiryCheckedAt = 0, tr_Result = [],
       tr_CreatedAt = t, tr_Expires = tq_Expires q, tr_Raw = hex_encode (tq_raw q),
       tr_Signed = hex_encode (tron_signed (tq_raw q) sig) \<rparr>"

text \<open>From the key to the stored record.\<close>

definition sign_and_store :: "('k, 'w) tron_env \<Rightarrow> TronQuote \<Rightarrow> string \<Rightarrow> string \<Rightarrow> ('w, 'h, unit) tract" where
  "sign_and_store V q quoteID password =
     andthen (ask (ka_DecryptKey (te_keys V) password)) (\<lambda>key.
     fail_if (TronAddress (te_lib V) (PubkeyAddress (te_eth V) key) \<noteq> tq_From q) (ErrNew ''signing account differs'')
    (andthen (now (te_os V)) (\<lambda>t.
     fail_if (tq_Expires q < t) ErrQuoteExpired
    (andthen (ctx_err (te_os V)) (\<lambda>ended.
     fail_if ended ErrQuoteExpired
    (let hash = tl_Sha256 (te_lib V) (tq_raw q) in
     andthen (lift (tl_Sign (te_lib V) hash key)) (\<lambda>sig.
     andthen (now (te_os V)) (\<lambda>t.
     andthen (get_heap th_records) (\<lambda>records.
     seq (tron_save V (records @ [signed_record q quoteID hash sig t]))
         (set_heap (th_quotes_update (AList.delete quoteID))))))))))))"

definition TronSend ::
    "('k, 'w) tron_env \<Rightarrow> string \<Rightarrow> string \<Rightarrow> ('w, 'h, TronRecord option \<times> err option) tract" where
  "TronSend V ident password =
     andthen (map_err (\<lambda>_. ErrQuoteNotFound) (lift (ParseLegacyQuoteID ident))) (\<lambda>quoteID.
     andthen (get_heap (\<lambda>h. (th_records h, th_fault h, th_quotes h))) (\<lambda>(records, fault, quotes).
     case List.find (\<lambda>r. tr_QuoteID r = quoteID) records of
       Some r \<Rightarrow> ret (Some (tronRecordResponse r), None)
     | None \<Rightarrow>
         fail_if fault (ErrNew ''TRON storage fault'')
        (fail_if (tron_pending records) ErrTxInFlight
        (fail_if (1000 \<le> length records) ErrJournalFull
        (case map_of quotes quoteID of
           None \<Rightarrow> throw ErrQuoteNotFound
         | Some q \<Rightarrow>
             andthen (now (te_os V)) (\<lambda>t.
             fail_if (tq_Expires q < t) ErrQuoteExpired
            (seq (tron_check V)
            (andthen (tron_account V (tq_From q)) (\<lambda>account.
             fail_if (ta_Balance account < tq_required q) ErrInsufficientFunds
            (seq (recheck_token V q)
            (seq (sign_and_store V q quoteID password)
            (andthen (get_heap (\<lambda>h. length (th_records h))) (\<lambda>n.
             tron_broadcast V (n - 1))))))))))))))"

text \<open>The first record with the identifier, and where it is.\<close>

definition record_index :: "tronJournalRecord list \<Rightarrow> string \<Rightarrow> nat option" where
  "record_index rs ident = first_index (\<lambda>r. tr_Signature r = ident) rs"

definition TronRetry :: "('k, 'w) tron_env \<Rightarrow> string \<Rightarrow> ('w, 'h, TronRecord option \<times> err option) tract" where
  "TronRetry V hash =
     fail_if (\<not> validTronHash hash) (ErrNew ''TRON transaction id'')
    (andthen (get_heap (\<lambda>h. (th_fault h, th_records h))) (\<lambda>(fault, records).
     fail_if fault (ErrNew ''TRON storage fault'')
    (case record_index records hash of
       None \<Rightarrow> throw (ErrNew ''no such transaction'')
     | Some i \<Rightarrow>
         if tr_Finalized (records ! i) \<or> tr_State (records ! i) = ''expired_unconfirmed''
         then ret (Some (tronRecordResponse (records ! i)), None) else tron_broadcast V i)))"

section \<open>History\<close>

record tron_info =
  ti_ID :: string
  ti_Fee :: int
  ti_Block :: int
  ti_Result :: string
  ti_ContractResult :: "string list"
  ti_Receipt :: string

definition info_output :: "json option \<Rightarrow> err + tron_info" where
  "info_output d =
     ebind (object d) (\<lambda>es.
     ebind (member str_field ''ID'' es []) (\<lambda>ident.
     ebind (member int_field ''Fee'' es 0) (\<lambda>fee.
     ebind (member int_field ''blockNumber'' es 0) (\<lambda>block.
     ebind (member str_field ''Result'' es []) (\<lambda>res.
     ebind (member strs_field ''contractResult'' es []) (\<lambda>cr.
     ebind (ebind (members ''Receipt'' es) (\<lambda>rs. member str_field ''Result'' rs [])) (\<lambda>receipt.
       Inr \<lparr> ti_ID = ident, ti_Fee = fee, ti_Block = block, ti_Result = res, ti_ContractResult = cr, ti_Receipt = receipt \<rparr>)))))))"

text \<open>The solidified block a record past its expiry is compared with; zero values for any other.\<close>

definition solid_block :: "('k, 'w) tron_env \<Rightarrow> tronJournalRecord \<Rightarrow> ('w, 'f, 'h, string \<times> int) act" where
  "solid_block V r =
     andthen (now (te_os V)) (\<lambda>t.
       if tr_Expires r < t \<and> tr_Expires r \<noteq> zero_time
       then andthen (tron_call V ''/walletsolidity/getnowblock'' (JObj []) block_output) (\<lambda>(ident, timestamp).
            fail_if (\<not> validTronHash ident \<or> timestamp \<le> 0) errTronRPC
           (andthen (now (te_os V)) (\<lambda>t.
            fail_if (unix_milli (t + seconds 30) < timestamp) errTronRPC (ret (ident, timestamp)))))
       else ret ([], 0))"

text \<open>No receipt: expired when the chain's own time is past the expiry.\<close>

definition expire_record :: "string \<times> int \<Rightarrow> tronJournalRecord \<Rightarrow> tronJournalRecord" where
  "expire_record solid r =
     (if unix_milli (tr_Expires r) < snd solid \<and> tr_Expires r \<noteq> zero_time
      then r\<lparr> tr_State := ''expired_unconfirmed'', tr_ExpiryCheckedBlock := fst solid, tr_ExpiryCheckedAt := snd solid \<rparr>
      else r)"

text \<open>A receipt: the outcome of the execution, of the token's own result for a token transfer, and the fee.\<close>

definition settled_state :: "tron_info \<Rightarrow> string \<times> string" where
  "settled_state info =
     (if ti_Result info = ''FAILED'' \<or> ti_Receipt info \<noteq> [] \<and> ti_Receipt info \<noteq> ''SUCCESS''
      then (''execution_failed'', if ti_Receipt info = [] then ti_Result info else ti_Receipt info)
      else (''finalized'', ti_Receipt info))"

definition token_result :: "('k, 'm) ethlib_scheme \<Rightarrow> tron_info \<Rightarrow> err + bool" where
  "token_result E info =
     (case ti_ContractResult info of
        [c] \<Rightarrow>
          (case hex_decode c of
             None \<Rightarrow> Inl errTronRPC
           | Some raw \<Rightarrow> (case transfer_ok E raw of None \<Rightarrow> Inl errTronRPC | Some ok \<Rightarrow> Inr ok))
      | _ \<Rightarrow> Inl errTronRPC)"

definition settle_record :: "('k, 'm) ethlib_scheme \<Rightarrow> tron_info \<Rightarrow> tronJournalRecord \<Rightarrow> err + tronJournalRecord" where
  "settle_record E info r =
     (case settled_state info of (state, outcome) \<Rightarrow>
        ebind (if tr_Contract r \<noteq> [] \<and> state = ''finalized''
               then ebind (token_result E info) (\<lambda>ok.
                 Inr (if ok then (state, outcome) else (''execution_failed'', ''TRC20_RETURNED_FALSE'')))
               else Inr (state, outcome)) (\<lambda>(state, outcome).
          Inr (r\<lparr> tr_Finalized := True, tr_State := state, tr_Result := outcome, tr_FeeTRX := units_text (ti_Fee info) 6 \<rparr>)))"

definition refreshRecord :: "('k, 'w) tron_env \<Rightarrow> tronJournalRecord \<Rightarrow> ('w, 'f, 'h, tronJournalRecord) act" where
  "refreshRecord V r =
     andthen (solid_block V r) (\<lambda>solid.
     andthen (tron_call V ''/walletsolidity/gettransactioninfobyid'' (JObj [(''value'', JStr (tr_Signature r))]) info_output)
       (\<lambda>info.
       if ti_ID info = [] then ret (expire_record solid r)
       else fail_if (ti_ID info \<noteq> tr_Signature r \<or> ti_Block info \<le> 0 \<or> ti_Fee info < 0) errTronRPC
           (lift (settle_record (te_eth V) info r))))"

text \<open>
  One turn of the loop: the records so far, the first error, and whether the loop was left.  The
  turn a record had is remembered before it is asked for.
\<close>

definition history_turn ::
    "('k, 'w) tron_env \<Rightarrow> nat \<Rightarrow> nat \<Rightarrow> tronJournalRecord list \<times> err option \<times> bool
       \<Rightarrow> ('w, 'h, tronJournalRecord list \<times> err option \<times> bool) tract" where
  "history_turn V start offset acc =
     (case acc of (nxt, failed, left) \<Rightarrow>
        let i = (start + offset) mod length nxt in
        if left \<or> tr_Finalized (nxt ! i) then ret (nxt, failed, left)
        else andthen (ctx_err (te_os V)) (\<lambda>ended.
          if ended then ret (nxt, Some errTronRPC, True)
          else
            seq (set_heap (th_historyNext_update (\<lambda>_. (i + 1) mod length nxt)))
           (andthen (attempt (refreshRecord V (nxt ! i))) (\<lambda>r.
              case r of
                Inl e \<Rightarrow> ret (nxt, (case failed of None \<Rightarrow> Some e | Some _ \<Rightarrow> failed), False)
              | Inr r' \<Rightarrow> ret (nxt[i := r'], failed, False)))))"

definition last_twenty :: "'a list \<Rightarrow> 'a list" where
  "last_twenty xs = drop (length xs - 20) xs"

definition TronHistory :: "('k, 'w) tron_env \<Rightarrow> ('w, 'h, TronRecord list) tract" where
  "TronHistory V =
     seq (tron_check V)
    (andthen (get_heap (\<lambda>h. (th_records h, th_historyNext h))) (\<lambda>(records, start).
     andthen (for_each [0..<length records] (history_turn V start) (records, None, False)) (\<lambda>(nxt, failed, _).
     seq (if records \<noteq> nxt then tron_save V nxt else ret ())
    (case failed of
       Some e \<Rightarrow> throw e
     | None \<Rightarrow> andthen (get_heap th_records) (\<lambda>rs. ret (map tronRecordResponse (last_twenty rs)))))))"

section \<open>The key of the service\<close>

text \<open>The manager of the directory, with the coin type of TRON.\<close>

definition tron_manager :: "string \<Rightarrow> int \<Rightarrow> KeystoreManager" where
  "tron_manager dir n = (NewKeystoreManager dir n 1)\<lparr> km_coinType := 195 \<rparr>"

record TronStatus =
  ts_Exists :: bool
  ts_Network :: string
  ts_Address :: string

definition TronServiceStatus ::
    "('k, 'w) kenv \<Rightarrow> 'k tronlib \<Rightarrow> KeystoreManager \<Rightarrow> ('w, 'h, TronStatus) kact" where
  "TronServiceStatus V L K =
     andthen (attempt (KeystoreAddress V K)) (\<lambda>r.
       case r of
         Inr a \<Rightarrow> ret \<lparr> ts_Exists = True, ts_Network = ''TRON Shasta'', ts_Address = TronAddress L (HexToAddress (ke_eth V) a) \<rparr>
       | Inl e \<Rightarrow> if err_is e ErrWalletNotFound
                  then ret \<lparr> ts_Exists = False, ts_Network = ''TRON Shasta'', ts_Address = [] \<rparr> else throw e)"

record TronCreateResponse =
  tc_Address :: string
  tc_Mnemonic :: string

definition TronServiceCreate ::
    "('k, 'w) kenv \<Rightarrow> 'k tronlib \<Rightarrow> KeystoreManager \<Rightarrow> string \<Rightarrow> string \<Rightarrow> ('w, 'h, TronCreateResponse) kact" where
  "TronServiceCreate V L K mnemonic password =
     (if TrimSpace mnemonic = []
      then andthen (Create V K password) (\<lambda>r.
           ret \<lparr> tc_Address = TronAddress L (HexToAddress (ke_eth V) (cr_Address r)), tc_Mnemonic = cr_Mnemonic r \<rparr>)
      else andthen (Import V K mnemonic password) (\<lambda>a.
           ret \<lparr> tc_Address = TronAddress L (HexToAddress (ke_eth V) a), tc_Mnemonic = [] \<rparr>))"

definition TronServiceBackup :: "('k, 'w) kenv \<Rightarrow> KeystoreManager \<Rightarrow> string \<Rightarrow> ('w, 'h, json option) kact" where
  "TronServiceBackup V K password = Backup V K password"

definition TronServiceRestoreBackup ::
    "('k, 'w) kenv \<Rightarrow> KeystoreManager \<Rightarrow> nat \<Rightarrow> json \<Rightarrow> string \<Rightarrow> string \<Rightarrow> ('w, 'h, unit) kact" where
  "TronServiceRestoreBackup V K len raw password newPassword =
     seq (ImportKeystore V K len raw password newPassword) (ret ())"

definition TronServiceChangePassword :: "('k, 'w) kenv \<Rightarrow> KeystoreManager \<Rightarrow> string \<Rightarrow> string \<Rightarrow> ('w, 'h, unit) kact" where
  "TronServiceChangePassword V K password newPassword = ChangePassword V K password newPassword"

end
