(* ===== verification/Outbox.thy ===== *)
theory Outbox
  imports Storage
begin

text \<open>
  What every journal of signed transactions promises: bytes leave the process only after a file
  holds them.  The relation compares two states by the effects between them, whatever the files
  of the component hold; \<open>present\<close> says that a directory holds the bytes that are sent.
\<close>

primrec replayed :: "(string \<times> 'f) list \<Rightarrow> 'f event list \<Rightarrow> (string \<times> 'f) list" where
  "replayed fs [] = fs"
| "replayed fs (e # es) = replayed (case e of Renamed p d \<Rightarrow> AList.update p d fs | SentRaw _ \<Rightarrow> fs) es"

definition logged_first ::
    "((string \<times> 'f) list \<Rightarrow> string \<Rightarrow> bool) \<Rightarrow> ('w, 'f, 'h) sys \<Rightarrow> ('w, 'f, 'h) sys \<Rightarrow> bool" where
  "logged_first present s t \<longleftrightarrow>
     (\<exists>es. trace t = trace s @ es \<and> files t = replayed (files s) es \<and>
        (\<forall>before x after. es = before @ SentRaw x # after \<longrightarrow> present (replayed (files s) before) x))"

lemma replayed_append: "replayed fs (es @ es') = replayed (replayed fs es) es'"
  by (induction es arbitrary: fs) simp_all

lemma logged_refl: "logged_first P s s"
  by (simp add: logged_first_def)

lemma logged_trans:
  assumes "logged_first P s t" and "logged_first P t u"
  shows "logged_first P s u"
proof -
  from assms obtain es es' where es: "trace t = trace s @ es" "files t = replayed (files s) es"
    "\<And>b x a. es = b @ SentRaw x # a \<Longrightarrow> P (replayed (files s) b) x"
    and es': "trace u = trace t @ es'" "files u = replayed (files t) es'"
    "\<And>b x a. es' = b @ SentRaw x # a \<Longrightarrow> P (replayed (files t) b) x"
    by (auto simp: logged_first_def)
  have "P (replayed (files s) b) x" if split: "es @ es' = b @ SentRaw x # a" for b x a
  proof -
    from split consider c where "es = b @ SentRaw x # c" | c where "b = es @ c" "es' = c @ SentRaw x # a"
      by (fastforce simp: append_eq_append_conv2 append_eq_Cons_conv)
    then show ?thesis using es(2,3) es'(3) by cases (auto simp: replayed_append)
  qed
  with es(1,2) es'(1,2) show ?thesis
    unfolding logged_first_def by (intro exI [of _ "es @ es'"]) (simp add: replayed_append)
qed

interpretation logged_first: effect "logged_first P" for P :: "(string \<times> 'f) list \<Rightarrow> string \<Rightarrow> bool"
  by unfold_locales (rule logged_refl, rule logged_trans)

lemma logged_local: "files t = files s \<Longrightarrow> trace t = trace s \<Longrightarrow> logged_first P s t"
  by (simp add: logged_first_def)

lemma logged_put: "files t = AList.update p d (files s) \<Longrightarrow> trace t = trace s @ [Renamed p d] \<Longrightarrow> logged_first P s t"
  unfolding logged_first_def by (rule exI [of _ "[Renamed p d]"]) (simp add: Cons_eq_append_conv)

lemma logged_sent: "files t = files s \<Longrightarrow> trace t = trace s @ [SentRaw x] \<Longrightarrow> P (files s) x \<Longrightarrow> logged_first P s t"
  unfolding logged_first_def by (rule exI [of _ "[SentRaw x]"]) (auto simp: Cons_eq_append_conv)

text \<open>Each broadcast in the trace of a run came after the write of what it sent.\<close>

lemma logged_firstD:
  assumes "logged_first P s t" and "trace s = []" and "trace t = before @ SentRaw x # after"
  shows "P (replayed (files s) before) x"
  using assms by (auto simp: logged_first_def)

text \<open>A loop that keeps \<open>P\<close> at each turn, and its first error.\<close>

lemma wp_for_each:
  assumes "P a s" and "\<And>x a s. x \<in> set xs \<Longrightarrow> P a s \<Longrightarrow> wp (f x a) P E s"
  shows "wp (for_each xs f a) P E s"
  using assms
proof (induction xs arbitrary: a s)
  case (Cons x xs)
  have "wp (f x a) P E s" using Cons.prems by simp
  then have "wp (f x a) (\<lambda>b. wp (for_each xs f b) P E) E s"
    by (rule wp_mono) (use Cons in auto)
  then show ?case by (simp add: wp_simps)
qed (simp add: wp_simps)

end
