(* ===== verification/TronFacts.thy ===== *)
theory TronFacts
  imports TronService Outbox
begin

text \<open>
  The invariant of a TRON service and its preservation by every operation, restarts and failed
  writes among them: each record can be read back and carries a signature of its sender over its
  bytes, at most one transfer is in flight, and without a storage fault the file is the memory.
  With it: nothing is broadcast that is not in the file, and a restart accepts what was written.
\<close>

section \<open>Records\<close>

definition sound :: "('k, 'm) tronlib_scheme \<Rightarrow> tronJournalRecord \<Rightarrow> bool" where
  "sound L r \<longleftrightarrow> tron_loaded L (tronRecordToDisk r) = Inr r"

definition in_flight :: "tronJournalRecord \<Rightarrow> bool" where
  "in_flight r \<longleftrightarrow> \<not> tr_Finalized r \<and> tr_State r \<noteq> ''expired_unconfirmed''"

definition records_ok :: "('k, 'm) tronlib_scheme \<Rightarrow> tronJournalRecord list \<Rightarrow> bool" where
  "records_ok L rs \<longleftrightarrow> list_all (sound L) rs \<and> length rs \<le> 1000 \<and> length (filter in_flight rs) \<le> 1"

lemma tron_pending_iff: "tron_pending rs \<longleftrightarrow> filter in_flight rs \<noteq> []"
  by (auto simp: tron_pending_def in_flight_def list_ex_iff filter_empty_conv)

text \<open>What the check of a stored record looks at.\<close>

definition signed_ok :: "('k, 'm) tronlib_scheme \<Rightarrow> tronJournalRecord \<Rightarrow> bool" where
  "signed_ok L r \<longleftrightarrow>
     (\<exists>raw sig a. tr_Raw r = hex_encode raw \<and> tr_Signed r = hex_encode (tron_signed raw sig) \<and> length sig = 65 \<and>
        tr_Signature r = hex_encode (tl_Sha256 L raw) \<and> tl_SigToPub L (tl_Sha256 L raw) sig = Some a \<and>
        tr_From r = TronAddress L a)"

lemma length_tronBytes_65: "length sig = 65 \<Longrightarrow> tronBytes p 2 sig = p @ [18, 65] @ sig"
  by (simp add: tronBytes_def) (simp add: uvarint.simps)

lemma sound_signed: "readable L r \<Longrightarrow> signed_ok L r \<Longrightarrow> sound L r"
  unfolding sound_def tron_loaded_def
  by (auto simp: signed_ok_def tronRecordFromDisk_readable tron_signed_def length_tronBytes_65)

lemma tron_loaded_record: "tron_loaded L d = Inr r \<Longrightarrow> tronRecordFromDisk L d = Inr r"
  unfolding tron_loaded_def Let_def by (auto simp: ebind_eq_Inr split: option.splits if_splits)

lemma sound_readable: "sound L r \<Longrightarrow> readable L r"
  unfolding sound_def by (auto dest!: tron_loaded_record tronRecordFromDisk_ok)

text \<open>A change of what was observed leaves a record sound.\<close>

definition same_signed :: "tronJournalRecord \<Rightarrow> tronJournalRecord \<Rightarrow> bool" where
  "same_signed r r' \<longleftrightarrow>
     tr_Signature r' = tr_Signature r \<and> tr_QuoteID r' = tr_QuoteID r \<and> tr_From r' = tr_From r \<and> tr_To r' = tr_To r \<and>
     tr_Contract r' = tr_Contract r \<and> tr_Raw r' = tr_Raw r \<and> tr_Signed r' = tr_Signed r"

definition known_state :: "tronJournalRecord \<Rightarrow> bool" where
  "known_state r \<longleftrightarrow> parseCrosschainState (tr_State r) = Inr (tr_State r)"

lemma sound_observed:
  assumes "sound L r" and "same_signed r r'" and "known_state r'"
  shows "sound L r'"
proof -
  from sound_readable [OF assms(1)] have "readable L r'"
    using assms(2,3) by (simp add: readable_def same_signed_def known_state_def)
  then have d: "tronRecordFromDisk L (tronRecordToDisk r') = Inr r'" by (rule tronRecordFromDisk_readable)
  from tronRecordFromDisk_readable [OF sound_readable [OF assms(1)]] assms(1,2) show ?thesis
    unfolding sound_def tron_loaded_def d same_signed_def
    by (auto split: option.splits if_splits simp: Let_def)
qed

lemma records_ok_update:
  assumes "records_ok L rs" and "i < length rs" and "sound L r'" and "in_flight r' \<Longrightarrow> in_flight (rs ! i)"
  shows "records_ok L (rs[i := r'])"
proof -
  have "length (filter in_flight (rs[i := r'])) \<le> length (filter in_flight rs)"
    using assms(2,4) by (induction rs arbitrary: i) (auto split: nat.split simp: less_Suc_eq_0_disj)
  with assms(1,3) show ?thesis
    by (auto simp: records_ok_def list_all_iff dest: set_update_subset_insert [THEN subsetD])
qed

section \<open>The invariant\<close>

definition quote_ok :: "('k, 'm) tronlib_scheme \<Rightarrow> TronQuote \<Rightarrow> bool" where
  "quote_ok L q \<longleftrightarrow> tron_optional L (tq_From q) \<and> tron_optional L (tq_To q) \<and> tron_optional L (tq_Contract q)"

definition tron_file_ok :: "('k, 'm) tronlib_scheme \<Rightarrow> (string \<times> tron_file) list \<Rightarrow> bool" where
  "tron_file_ok L fs \<longleftrightarrow>
     (case map_of fs tronJournal of None \<Rightarrow> True
      | Some f \<Rightarrow> \<exists>rs. f = Some (map tronRecordToDisk rs) \<and> records_ok L rs)"

definition on_file :: "(string \<times> tron_file) list \<Rightarrow> tronJournalRecord list \<Rightarrow> bool" where
  "on_file fs rs \<longleftrightarrow>
     (case map_of fs tronJournal of None \<Rightarrow> rs = [] | Some f \<Rightarrow> f = Some (map tronRecordToDisk rs))"

definition tron_inv :: "('k, 'w) tron_env \<Rightarrow> ('w, tron_file, 'h tron_heap_scheme) sys \<Rightarrow> bool" where
  "tron_inv V s \<longleftrightarrow>
     records_ok (te_lib V) (th_records (heap s)) \<and> (\<forall>(i, q) \<in> set (th_quotes (heap s)). quote_ok (te_lib V) q) \<and>
     tron_file_ok (te_lib V) (files s) \<and> (\<not> th_fault (heap s) \<longrightarrow> on_file (files s) (th_records (heap s)))"

text \<open>The file holds the signed bytes that are sent.\<close>

definition tron_present :: "(string \<times> tron_file) list \<Rightarrow> string \<Rightarrow> bool" where
  "tron_present fs x \<longleftrightarrow> (\<exists>ds d. map_of fs tronJournal = Some (Some ds) \<and> d \<in> set ds \<and> td_Signed d = x)"

definition tron_next ::
    "('k, 'w) tron_env \<Rightarrow> ('w, tron_file, 'h tron_heap_scheme) sys \<Rightarrow> ('w, tron_file, 'h tron_heap_scheme) sys \<Rightarrow> bool" where
  "tron_next V s t \<longleftrightarrow> (tron_inv V s \<longrightarrow> tron_inv V t \<and> logged_first tron_present s t)"

interpretation tron_next: effect "tron_next V" for V :: "('k, 'w) tron_env"
  by unfold_locales (auto simp: tron_next_def intro: logged_refl logged_trans)

lemma tron_inv_heap:
  assumes "tron_inv V s" and "files t = files s" and "th_records (heap t) = th_records (heap s)"
    and "th_fault (heap t) = th_fault (heap s)" and "set (th_quotes (heap t)) \<subseteq> set (th_quotes (heap s))"
  shows "tron_inv V t"
  using assms by (auto simp: tron_inv_def)

lemma tron_asks: "within asks m \<Longrightarrow> within (tron_next V) m"
  by (erule within_weaken) (auto simp: asks_def tron_next_def intro: tron_inv_heap logged_local)

lemma tron_inv_world [simp]: "tron_inv V (s\<lparr>world := w\<rparr>) = tron_inv V s"
  by (simp add: tron_inv_def)

lemma logged_world [simp]: "logged_first P s (t\<lparr>world := w\<rparr>) = logged_first P s t"
  by (simp add: logged_first_def)

section \<open>Writing the journal\<close>

lemma tron_save_wp:
  assumes "tron_inv V s" and "records_ok (te_lib V) rs"
    and "\<And>t. tron_inv V t \<Longrightarrow> logged_first tron_present s t \<Longrightarrow> th_records (heap t) = rs \<Longrightarrow>
      map_of (files t) tronJournal = Some (Some (map tronRecordToDisk rs)) \<Longrightarrow> th_quotes (heap t) = th_quotes (heap s) \<Longrightarrow>
      th_fault (heap t) = th_fault (heap s) \<Longrightarrow> Q () t"
    and "\<And>e t. tron_inv V t \<Longrightarrow> logged_first tron_present s t \<Longrightarrow> E e t"
  shows "wp (tron_save V rs) Q E s"
proof -
  let ?d = "Some (map tronRecordToDisk rs)"
  have inv: "records_ok (te_lib V) (th_records (heap s))" "\<forall>(i, q) \<in> set (th_quotes (heap s)). quote_ok (te_lib V) q"
    "tron_file_ok (te_lib V) (files s)"
    using assms(1) by (simp_all add: tron_inv_def)
  have new: "tron_file_ok (te_lib V) (AList.update tronJournal ?d (files s))"
    "on_file (AList.update tronJournal ?d (files s)) rs"
    using assms(2) by (auto simp: tron_file_ok_def on_file_def)
  have bad: "E e t" if "th_records (heap t) = th_records (heap s)" "th_quotes (heap t) = th_quotes (heap s)"
      "th_fault (heap t)" "files t = files s \<and> trace t = trace s \<or>
        files t = AList.update tronJournal ?d (files s) \<and> trace t = trace s @ [Renamed tronJournal ?d]" for e t
  proof (rule assms(4))
    show "tron_inv V t" using that inv new(1) by (auto simp: tron_inv_def)
    show "logged_first tron_present s t" using that(4) by (auto intro: logged_local logged_put)
  qed
  show ?thesis
    unfolding tron_save_def
    apply (simp add: wp_simps split: sum.split)
    apply (intro conjI allI impI)
     apply (rule bad; simp)
    apply (rule wp_atomicWriteFile)
      apply (simp_all add: wp_simps)
      apply (rule assms(3))
    subgoal using assms(1,2) new by (auto simp: tron_inv_def marshal_tron_def split: if_splits)
    subgoal by (auto intro!: logged_put [of _ tronJournal "?d"] simp: marshal_tron_def split: if_splits)
    subgoal by simp
    subgoal by (auto simp: marshal_tron_def split: if_splits)
    subgoal by simp
    subgoal by simp
    subgoal by (rule bad) simp_all
    subgoal by (rule bad) (auto simp: marshal_tron_def split: if_splits)
    done
qed

section \<open>Questions\<close>

lemma asks_tron_call [eff_intros]: "within asks (tron_call V path body output)"
  unfolding tron_call_def by (intro eff_intros)

lemma asks_tron_check [eff_intros]: "within asks (tron_check V)"
  unfolding tron_check_def by (intro eff_intros)

lemma asks_tron_account [eff_intros]: "within asks (tron_account V a)"
  unfolding tron_account_def by (intro eff_intros)

lemma asks_list_case:
  "within asks m \<Longrightarrow> (\<And>x. within asks (f x)) \<Longrightarrow> within asks (case xs of [x] \<Rightarrow> f x | _ \<Rightarrow> m)"
  by (cases xs; cases "tl xs") simp_all

lemma asks_tron_constant [eff_intros]: "within asks (tron_constant V owner contract method args)"
  unfolding tron_constant_def by (intro eff_intros asks_list_case)

lemma asks_tron_token [eff_intros]: "within asks (tron_token V owner contract)"
  unfolding tron_token_def by (intro eff_intros)

lemma asks_quote_token [eff_intros]: "within asks (quote_token V from contract)"
  unfolding quote_token_def by (intro eff_intros)

lemma asks_transfer_costs [eff_intros]: "within asks (transfer_costs V cs from to b contract token units)"
  unfolding transfer_costs_def by (intro eff_intros)

lemma asks_build_quote [eff_intros]: "within asks (build_quote V cs acc from to b amount contract raw)"
  unfolding build_quote_def by (intro eff_intros)

lemma asks_recheck_token [eff_intros]: "within asks (recheck_token V q)"
  unfolding recheck_token_def by (intro eff_intros)

lemma asks_solid_block [eff_intros]: "within asks (solid_block V r)"
  unfolding solid_block_def by (intro eff_intros)

lemma asks_refreshRecord [eff_intros]: "within asks (refreshRecord V r)"
  unfolding refreshRecord_def by (intro eff_intros)

lemma asks_drop_expired [eff_intros]: "within asks (drop_expired I qs)"
  unfolding drop_expired_def by (intro eff_intros)

lemma asks_run_wp:
  assumes "within asks m" and "\<And>x w. m s = (Inr x, s\<lparr>world := w\<rparr>) \<Longrightarrow> Q x (s\<lparr>world := w\<rparr>)"
    and "\<And>e w. E e (s\<lparr>world := w\<rparr>)"
  shows "wp m Q E s"
proof (rule wp_runI)
  have w: "t = s\<lparr>world := world t\<rparr>" if "m s = (r, t)" for r t
    using withinD [OF assms(1) that] by (cases s; cases t) (simp add: asks_def)
  show "Q x t" if "m s = (Inr x, t)" for x t using assms(2) [of x "world t"] w [OF that] that by simp
  show "E e t" if "m s = (Inl e, t)" for e t using assms(3) w [OF that] by metis
qed

text \<open>What a clean-up keeps was there before.\<close>

lemma for_each_keeps:
  assumes "\<And>x a y t s. f x a s = (Inr y, t) \<Longrightarrow> set y \<subseteq> insert x (set a)"
  shows "for_each xs f a s = (Inr y, t) \<Longrightarrow> set y \<subseteq> set xs \<union> set a"
proof (induction xs arbitrary: a s)
  case (Cons x xs)
  then obtain b u where b: "f x a s = (Inr b, u)" and rest: "for_each xs f b u = (Inr y, t)"
    by (auto simp: ok_andthen)
  from Cons.IH [OF rest] assms [OF b] show ?case by auto
qed (simp add: ok_simps)

lemma drop_expired_keeps: "drop_expired I qs s = (Inr kept, t) \<Longrightarrow> set kept \<subseteq> set qs"
  unfolding drop_expired_def
  by (drule for_each_keeps [rotated]) (auto simp: ok_simps split: prod.splits if_splits)

lemma build_quote_ok:
  assumes "build_quote V cs acc from to b amount contract raw s = (Inr q, t)"
  shows "tq_From q = from \<and> tq_To q = to \<and> tq_Contract q = contract \<and> tron_optional (te_lib V) contract"
  using assms unfolding build_quote_def quote_token_def Let_def
  by (auto simp: ok_simps tron_optional_def split: if_splits)

section \<open>Every operation keeps the invariant\<close>

abbreviation next_wp ::
    "('k, 'w) tron_env \<Rightarrow> ('w, 'h, 'a) tract \<Rightarrow> ('w, tron_file, 'h tron_heap_scheme) sys \<Rightarrow> bool" where
  "next_wp V m s \<equiv> wp m (\<lambda>_ t. tron_inv V t \<and> logged_first tron_present s t) (\<lambda>_ t. tron_inv V t \<and> logged_first tron_present s t) s"

lemma wp_next:
  fixes m :: "('w, 'h, 'a) tract"
  assumes "\<And>s. tron_inv V s \<Longrightarrow> next_wp V m s"
  shows "within (tron_next V) m"
  unfolding within_def tron_next_def
proof (intro allI impI)
  fix s :: "('w, tron_file, 'h tron_heap_scheme) sys"
  assume "tron_inv V s"
  then have "next_wp V m s" by (rule assms)
  then show "tron_inv V (snd (m s)) \<and> logged_first tron_present s (snd (m s))"
    by (cases "m s"; cases "fst (m s)") (simp_all add: wp_def)
qed

lemma set_alist_update: "set (AList.update k v al) \<subseteq> insert (k, v) (set al)"
  by (induction al) auto

lemma store_quote_next:
  assumes "tron_inv V s" and "quote_ok (te_lib V) q"
  shows "next_wp V (store_quote V q) s"
  unfolding store_quote_def
  apply (simp add: wp_simps)
  apply (rule asks_run_wp [OF asks_drop_expired])
   apply (drule drop_expired_keeps)
  using assms apply (auto simp: wp_simps tron_inv_def intro!: logged_local dest: set_alist_update [THEN subsetD])
  done

lemma logged_world_from [simp]: "logged_first P (s\<lparr>world := w\<rparr>) t = logged_first P s t"
  by (simp add: logged_first_def)

lemma TronQuoteCall_next:
  assumes "tron_inv V s"
  shows "next_wp V (TronQuoteCall V to amount contract raw) s"
proof -
  note ok = assms logged_refl
  have to: "tron_optional (te_lib V) to" if "ParseTronAddress (te_lib V) to = Inr b" for b
    using that by (auto simp: tron_optional_def)
  have from_ok: "tron_optional (te_lib V) a" if "tron_account V a s' = (Inr acc, t')" for a acc s' t'
    using that by (auto simp: tron_account_def ok_simps tron_optional_def)
  show ?thesis
    unfolding TronQuoteCall_def Let_def
    apply (simp add: wp_simps ok split: sum.split)
    apply (intro impI allI)
    apply (rule asks_run_wp [OF asks_ask]; simp add: ok wp_simps)
    apply (intro impI)
    apply (rule asks_run_wp [OF asks_tron_check]; simp add: ok wp_simps)
    apply (rule asks_run_wp [OF asks_tron_account]; simp add: ok wp_simps)
    apply (intro impI)
    apply (rule asks_run_wp [OF asks_tron_call]; simp add: ok wp_simps)
    apply (intro impI)
    apply (rule asks_run_wp [OF asks_build_quote]; simp add: ok wp_simps)
    apply (drule build_quote_ok)
    apply (rule wp_mono [OF store_quote_next])
       apply (simp add: ok)
    subgoal using to from_ok by (auto simp: quote_ok_def)
     apply (simp add: wp_simps)
    apply (simp add: wp_simps)
    done
qed

lemma known_broadcast: "known_state (r\<lparr>tr_State := ''submitted''\<rparr>)" "known_state (r\<lparr>tr_State := ''broadcast_unknown''\<rparr>)"
  by (simp_all add: known_state_def parseCrosschainState_def)

lemma tron_broadcast_next:
  assumes "tron_inv V s" and "i < length (th_records (heap s))" and "in_flight (th_records (heap s) ! i)"
    and "map_of (files s) tronJournal = Some (Some (map tronRecordToDisk (th_records (heap s))))"
  shows "next_wp V (tron_broadcast V i) s"
proof -
  let ?rs = "th_records (heap s)" and ?r = "th_records (heap s) ! i"
  have rs: "records_ok (te_lib V) ?rs" using assms(1) by (simp add: tron_inv_def)
  with assms(2) have sound: "sound (te_lib V) ?r" by (simp add: records_ok_def list_all_length)
  have upd: "records_ok (te_lib V) (?rs[i := ?r\<lparr>tr_State := st\<rparr>])" if "st = ''submitted'' \<or> st = ''broadcast_unknown''" for st
  proof (rule records_ok_update [OF rs assms(2)])
    show "sound (te_lib V) (?r\<lparr>tr_State := st\<rparr>)"
      by (rule sound_observed [OF sound]) (use that known_broadcast in \<open>auto simp: same_signed_def\<close>)
  qed (rule assms(3))
  have present: "tron_present (files s) (tr_Signed ?r)"
    using assms(2,4) by (auto simp: tron_present_def tronRecordToDisk_def intro!: bexI [of _ ?r])
  note ok = assms(1) logged_refl
  let ?u = "\<lambda>w. s\<lparr>trace := trace s @ [SentRaw (tr_Signed ?r)], world := w\<rparr>"
  have sent: "logged_first tron_present s (?u w)" for w
    by (rule logged_sent [where x = "tr_Signed ?r"]) (simp_all add: present)
  have inv: "tron_inv V (?u w)" for w
    using assms(1) by (simp add: tron_inv_def)
  let ?N = "\<lambda>t. tron_inv V t \<and> logged_first tron_present s t"
  have save: "wp (tron_save V (?rs[i := ?r\<lparr>tr_State := st\<rparr>])) (\<lambda>_. wp (ret x) (\<lambda>_. ?N) (\<lambda>_. ?N)) (\<lambda>_. ?N) (?u w)"
    if "st = ''submitted'' \<or> st = ''broadcast_unknown''" for st w and x :: "TronRecord option \<times> err option"
    by (rule tron_save_wp [OF inv upd [OF that]]) (auto simp: wp_simps intro: logged_trans [OF sent])
  show ?thesis
    unfolding tron_broadcast_def Let_def
    apply (simp add: wp_simps)
    apply (rule asks_run_wp [OF asks_tron_check]; simp add: ok wp_simps)
    apply (rule asks_run_wp [OF asks_now]; simp add: ok wp_simps)
    apply (intro impI)
    apply (rule asks_run_wp [OF asks_tron_call]; simp add: wp_simps)
     apply (auto split: prod.split intro: save)
    done
qed

section \<open>Signing\<close>

lemma signed_record_sound:
  assumes "base58_laws L" and "tron_sign_laws E L" and "quote_ok L q" and "ParseLegacyQuoteID quoteID = Inr quoteID"
    and "tl_Sign L (tl_Sha256 L (tq_raw q)) key = Inr sig" and "TronAddress L (PubkeyAddress E key) = tq_From q"
  shows "sound L (signed_record q quoteID (tl_Sha256 L (tq_raw q)) sig t)"
proof -
  let ?r = "signed_record q quoteID (tl_Sha256 L (tq_raw q)) sig t"
  from assms(2,5) have sig: "length sig = 65" "tl_SigToPub L (tl_Sha256 L (tq_raw q)) sig = Some (PubkeyAddress E key)"
    unfolding tron_sign_laws_def by blast+
  have "validTronHash (hex_encode (tl_Sha256 L (tq_raw q)))"
    by (rule validTronHash_encode) (simp add: base58D [OF assms(1)])
  with assms(3,4) have "readable L ?r"
    by (simp add: readable_def signed_record_def quote_ok_def parseCrosschainState_def)
  moreover have "signed_ok L ?r"
    unfolding signed_ok_def using sig assms(6)
    by (intro exI [of _ "tq_raw q"] exI [of _ sig] exI [of _ "PubkeyAddress E key"]) (simp add: signed_record_def)
  ultimately show ?thesis by (rule sound_signed)
qed

lemma signed_record_flight: "in_flight (signed_record q quoteID h sig t)"
  by (simp add: in_flight_def signed_record_def)

definition ready :: "('w, tron_file, 'h tron_heap_scheme) sys \<Rightarrow> bool" where
  "ready s \<longleftrightarrow> th_records (heap s) \<noteq> [] \<and> in_flight (last (th_records (heap s))) \<and>
     map_of (files s) tronJournal = Some (Some (map tronRecordToDisk (th_records (heap s))))"

lemma logged_heap [simp]: "logged_first P s (t\<lparr>heap := h\<rparr>) = logged_first P s t"
  by (simp add: logged_first_def)

lemma tron_quote_removed:
  "tron_inv V t \<Longrightarrow> tron_inv V (t\<lparr>heap := th_quotes_update (AList.delete quoteID) (heap t)\<rparr>)"
  by (erule tron_inv_heap) (auto simp: AList.delete_eq)

lemma sign_and_store_wp:
  assumes "tron_inv V s" and "base58_laws (te_lib V)" and "tron_sign_laws (te_eth V) (te_lib V)" and "quote_ok (te_lib V) q"
    and "ParseLegacyQuoteID quoteID = Inr quoteID" and "\<not> tron_pending (th_records (heap s))"
    and "length (th_records (heap s)) < 1000"
  shows "wp (sign_and_store V q quoteID password) (\<lambda>_ t. tron_inv V t \<and> logged_first tron_present s t \<and> ready t)
    (\<lambda>_ t. tron_inv V t \<and> logged_first tron_present s t) s"
proof -
  note ok = assms(1) logged_refl
  have new: "records_ok (te_lib V) (th_records (heap s) @ [r])" if "sound (te_lib V) r" for r
    using assms(1,6,7) that by (auto simp: records_ok_def tron_inv_def tron_pending_iff)
  show ?thesis
    unfolding sign_and_store_def Let_def
    apply (simp add: wp_simps)
    apply (rule asks_run_wp [OF asks_ask]; simp add: ok wp_simps)
    apply (intro impI)
    apply (rule asks_run_wp [OF asks_now]; simp add: ok wp_simps)
    apply (intro impI)
    apply (rule asks_run_wp [OF asks_ctx_err]; simp add: ok wp_simps split: sum.split)
    apply (intro impI allI)
    apply (rule asks_run_wp [OF asks_now]; simp add: ok wp_simps)
    apply (rule tron_save_wp)
       apply (simp add: ok)
      apply (rule new)
      apply (rule signed_record_sound [OF assms(2,3,4,5)]; assumption)
     apply (simp_all add: wp_simps ready_def signed_record_flight tron_quote_removed)
    done
qed


lemma ready_broadcast:
  assumes "tron_inv V t" and "logged_first tron_present s t" and "ready t"
  shows "wp (tron_broadcast V (length (th_records (heap t)) - Suc 0))
    (\<lambda>_ u. tron_inv V u \<and> logged_first tron_present s u) (\<lambda>_ u. tron_inv V u \<and> logged_first tron_present s u) t"
proof -
  have "next_wp V (tron_broadcast V (length (th_records (heap t)) - Suc 0)) t"
    using assms(3) by (intro tron_broadcast_next [OF assms(1)]) (auto simp: ready_def last_conv_nth)
  then show ?thesis by (rule wp_mono) (auto intro: logged_trans [OF assms(2)])
qed

lemma TronSend_next:
  assumes "tron_inv V s" and "base58_laws (te_lib V)" and "tron_sign_laws (te_eth V) (te_lib V)"
  shows "next_wp V (TronSend V ident password) s"
proof -
  note ok = assms(1) logged_refl
  have q: "quote_ok (te_lib V) q" if "map_of (th_quotes (heap s)) i = Some q" for i q
    using map_of_SomeD [OF that] assms(1) by (auto simp: tron_inv_def)
  show ?thesis
    unfolding TronSend_def
    apply (simp add: wp_simps ok split: sum.split option.split)
    apply (intro impI allI)
    apply (rule asks_run_wp [OF asks_now]; simp add: ok wp_simps)
    apply (intro impI)
    apply (rule asks_run_wp [OF asks_tron_check]; simp add: ok wp_simps)
    apply (rule asks_run_wp [OF asks_tron_account]; simp add: ok wp_simps)
    apply (intro impI)
    apply (rule asks_run_wp [OF asks_recheck_token]; simp add: ok wp_simps)
    apply (rule wp_mono [OF sign_and_store_wp])
             apply (simp_all add: ok assms q wp_simps ParseLegacyQuoteID_iff ready_broadcast)
    done
qed

lemma record_index_some:
  assumes "record_index rs ident = Some i"
  shows "i < length rs \<and> tr_Signature (rs ! i) = ident"
  using assms by (simp add: record_index_def first_index_Some)

lemma TronRetry_next:
  assumes "tron_inv V s"
  shows "next_wp V (TronRetry V hash) s"
proof -
  note ok = assms logged_refl
  have stored: "map_of (files s) tronJournal = Some (Some (map tronRecordToDisk (th_records (heap s))))"
    if "\<not> th_fault (heap s)" "th_records (heap s) \<noteq> []"
    using assms that by (auto simp: tron_inv_def on_file_def split: option.splits)
  show ?thesis
    unfolding TronRetry_def
    apply (simp add: wp_simps ok split: option.split)
    apply (intro impI allI conjI)
    subgoal for i
      by (rule tron_broadcast_next [OF assms]) (auto dest: record_index_some simp: in_flight_def intro!: stored)
    done
qed

section \<open>History and restart\<close>

text \<open>A refreshed record has the same signed bytes, a state that can be read back, and is in flight only if it was.\<close>

lemma settled_state_known: "settled_state info = (st, x) \<Longrightarrow> parseCrosschainState st = Inr st"
  by (auto simp: settled_state_def parseCrosschainState_def split: if_splits)

lemma settle_record_ok:
  assumes "settle_record E info r = Inr r'"
  shows "same_signed r r' \<and> known_state r' \<and> \<not> in_flight r'"
proof -
  obtain st x where st: "settled_state info = (st, x)" by fastforce
  have failed: "parseCrosschainState ''execution_failed'' = Inr ''execution_failed''" by (simp add: parseCrosschainState_def)
  from assms obtain st' x' where "r' = r\<lparr> tr_Finalized := True, tr_State := st', tr_Result := x', tr_FeeTRX := units_text (ti_Fee info) 6 \<rparr>"
    "st' = st \<or> st' = ''execution_failed''"
    unfolding settle_record_def st by (auto simp: ebind_eq_Inr split: if_splits)
  with settled_state_known [OF st] failed show ?thesis
    by (auto simp: same_signed_def known_state_def in_flight_def)
qed

lemma refreshRecord_ok:
  assumes "refreshRecord V r s = (Inr r', t)"
  shows "same_signed r r' \<and> (known_state r \<longrightarrow> known_state r') \<and> (in_flight r' \<longrightarrow> in_flight r)"
proof -
  have "r' = expire_record b r" if "r' = expire_record b r" for b using that .
  moreover have "same_signed r (expire_record b r) \<and> (known_state r \<longrightarrow> known_state (expire_record b r)) \<and>
      (in_flight (expire_record b r) \<longrightarrow> in_flight r)" for b
    by (simp add: expire_record_def same_signed_def known_state_def in_flight_def parseCrosschainState_def)
  ultimately show ?thesis
    using assms by (auto simp: refreshRecord_def ok_simps dest!: settle_record_ok split: if_splits)
qed

lemma sound_known: "sound L r \<Longrightarrow> known_state r"
  using sound_readable [of L r] by (simp add: readable_def known_state_def)

lemma records_ok_refreshed:
  assumes "records_ok L rs" and "i < length rs" and "refreshRecord V (rs ! i) s = (Inr r', t)"
  shows "records_ok L (rs[i := r'])"
proof (rule records_ok_update [OF assms(1,2)])
  from assms(1,2) have "sound L (rs ! i)" by (simp add: records_ok_def list_all_length)
  then show "sound L r'"
    using refreshRecord_ok [OF assms(3)] by (auto intro: sound_observed dest: sound_known)
  show "in_flight r' \<Longrightarrow> in_flight (rs ! i)" using refreshRecord_ok [OF assms(3)] by simp
qed

lemma tron_inv_next: "tron_inv V s \<Longrightarrow> tron_inv V (s\<lparr>heap := th_historyNext_update f (heap s)\<rparr>)"
  by (erule tron_inv_heap) simp_all

lemma history_turn_wp:
  assumes "records_ok (te_lib V) (fst acc)" and "tron_inv V t" and "logged_first tron_present s t" and "offset < length (fst acc)"
  shows "wp (history_turn V start offset acc)
    (\<lambda>acc' u. records_ok (te_lib V) (fst acc') \<and> length (fst acc') = length (fst acc) \<and> tron_inv V u \<and> logged_first tron_present s u)
    (\<lambda>_ u. tron_inv V u \<and> logged_first tron_present s u) t"
proof -
  obtain nxt failed left where acc: "acc = (nxt, failed, left)" by (cases acc) auto
  with assms(4) have i: "(start + offset) mod length nxt < length nxt" by (cases nxt) simp_all
  show ?thesis
    unfolding history_turn_def acc Let_def prod.case
    using assms acc
    apply (simp add: wp_simps)
    apply (intro impI)
    apply (rule asks_run_wp [OF asks_ctx_err]; simp add: wp_simps)
    apply (intro impI)
    apply (rule asks_run_wp [OF asks_refreshRecord])
      apply (simp_all add: wp_simps tron_inv_next records_ok_refreshed i)
    done
qed

lemma history_tail:
  assumes "tron_inv V t" and "logged_first tron_present s t" and "records_ok (te_lib V) nxt"
  shows "wp (seq (if c then tron_save V nxt else ret ())
      (case failed of Some e \<Rightarrow> throw e
       | None \<Rightarrow> andthen (get_heap th_records) (\<lambda>rs. ret (map tronRecordResponse (last_twenty rs)))))
    (\<lambda>_ u. tron_inv V u \<and> logged_first tron_present s u) (\<lambda>_ u. tron_inv V u \<and> logged_first tron_present s u) t"
proof -
  have "wp (tron_save V nxt) (\<lambda>_ u. tron_inv V u \<and> logged_first tron_present s u)
      (\<lambda>_ u. tron_inv V u \<and> logged_first tron_present s u) t"
    by (rule tron_save_wp [OF assms(1,3)]) (auto intro: logged_trans [OF assms(2)])
  then have "wp (tron_save V nxt) (\<lambda>_. wp (case failed of Some e \<Rightarrow> throw e
       | None \<Rightarrow> andthen (get_heap th_records) (\<lambda>rs. ret (map tronRecordResponse (last_twenty rs))))
       (\<lambda>_ u. tron_inv V u \<and> logged_first tron_present s u) (\<lambda>_ u. tron_inv V u \<and> logged_first tron_present s u))
      (\<lambda>_ u. tron_inv V u \<and> logged_first tron_present s u) t"
    by (rule wp_mono) (cases failed; simp add: wp_simps)+
  then show ?thesis
    using assms(1,2) by (cases failed; cases c) (simp_all add: wp_simps)
qed

lemma TronHistory_next:
  assumes "tron_inv V s"
  shows "next_wp V (TronHistory V) s"
proof -
  note ok = assms logged_refl
  have rs: "records_ok (te_lib V) (th_records (heap s))" using assms by (simp add: tron_inv_def)
  let ?n = "length (th_records (heap s))"
  have loop: "wp (for_each [0..<?n] (history_turn V start) (th_records (heap s), None, False))
      (\<lambda>acc u. records_ok (te_lib V) (fst acc) \<and> length (fst acc) = ?n \<and> tron_inv V u \<and> logged_first tron_present s u)
      (\<lambda>_ u. tron_inv V u \<and> logged_first tron_present s u) (s\<lparr>world := w\<rparr>)" for start w
    by (rule wp_for_each) (use history_turn_wp in \<open>auto simp: rs ok intro!: wp_mono [OF history_turn_wp]\<close>)
  show ?thesis
    unfolding TronHistory_def
    apply (simp add: wp_simps)
    apply (rule asks_run_wp [OF asks_tron_check]; simp add: ok wp_simps)
    apply (rule wp_mono [OF loop])
     apply (case_tac x)
     apply (simp only: prod.case)
     apply (rule history_tail; simp)
    apply simp
    done
qed

lemma NewTronService_wp:
  assumes "tron_inv V s" and "tron_url_ok u"
  shows "wp (NewTronService V u)
    (\<lambda>_ t. tron_inv V t \<and> logged_first tron_present s t \<and> on_file (files s) (th_records (heap t)) \<and> \<not> th_fault (heap t))
    (\<lambda>e t. io_error (te_os V) e \<and> tron_inv V t \<and> logged_first tron_present s t) s"
proof -
  note ok = assms(1) logged_refl
  have load: "emap (tron_loaded (te_lib V)) (map tronRecordToDisk rs) = Inr rs" if "records_ok (te_lib V) rs" for rs
    using that emap_map [of rs "tron_loaded (te_lib V)" tronRecordToDisk id] by (auto simp: records_ok_def list_all_iff sound_def)
  have f: "tron_file_ok (te_lib V) (files s)" using assms(1) by (simp add: tron_inv_def)
  let ?t = "\<lambda>w rs. s\<lparr>world := w, heap := (heap s)\<lparr> th_quotes := [], th_records := rs, th_fault := False, th_historyNext := 0 \<rparr>\<rparr>"
  have "tron_inv V (?t w rs)" if "records_ok (te_lib V) rs" "on_file (files s) rs" for w rs
    using f that by (simp add: tron_inv_def)
  moreover have "logged_first tron_present s (?t w rs)" for w rs by (rule logged_local) simp_all
  moreover have "map_of (files s) tronJournal = None \<Longrightarrow> on_file (files s) []" by (simp add: on_file_def)
  moreover have "\<exists>rs. d = Some (map tronRecordToDisk rs) \<and> records_ok (te_lib V) rs \<and> on_file (files s) rs"
    if "map_of (files s) tronJournal = Some d" for d
    using f that by (auto simp: tron_file_ok_def on_file_def)
  moreover have "records_ok (te_lib V) []" by (simp add: records_ok_def)
  ultimately show ?thesis
    unfolding NewTronService_def
    using assms
    apply (simp add: wp_simps)
    apply (rule wp_SysCall; simp add: wp_simps)
    apply (rule wp_SysCall; simp add: wp_simps)
    apply (rule wp_SysCall; simp add: wp_simps)
    apply (rule wp_ReadFile_io; simp add: wp_simps)
    apply (cases "map_of (files s) tronJournal")
     apply (simp add: wp_simps)
    apply (fastforce simp: wp_simps load records_ok_def)
    done
qed

section \<open>Runs\<close>

text \<open>
  A step is one operation with any outcome, a restart, or anything else that leaves the service
  and its directory alone, such as an operation on the key or a question to the node.
\<close>

inductive tron_op ::
    "('k, 'w) tron_env \<Rightarrow> ('w, tron_file, 'h tron_heap_scheme) sys \<Rightarrow> ('w, tron_file, 'h tron_heap_scheme) sys \<Rightarrow> bool"
  for V :: "('k, 'w) tron_env"
  where
    restart: "NewTronService V u s = (r, t) \<Longrightarrow> tron_op V s t"
  | quote: "TronQuoteCall V to amount contract raw s = (r, t) \<Longrightarrow> tron_op V s t"
  | send: "TronSend V ident password s = (r, t) \<Longrightarrow> tron_op V s t"
  | retry: "TronRetry V hash s = (r, t) \<Longrightarrow> tron_op V s t"
  | history: "TronHistory V s = (r, t) \<Longrightarrow> tron_op V s t"
  | elsewhere: "asks s t \<Longrightarrow> tron_op V s t"

definition tron_start :: "('w, tron_file, 'h tron_heap_scheme) sys \<Rightarrow> bool" where
  "tron_start s \<longleftrightarrow> map_of (files s) tronJournal = None \<and> trace s = [] \<and> th_records (heap s) = [] \<and> th_quotes (heap s) = []"

lemma tron_start_inv: "tron_start s \<Longrightarrow> tron_inv V s"
  by (simp add: tron_start_def tron_inv_def records_ok_def tron_file_ok_def on_file_def)

lemma new_next: "tron_inv V s \<Longrightarrow> next_wp V (NewTronService V u) s"
proof (cases "tron_url_ok u")
  case True
  assume "tron_inv V s"
  from NewTronService_wp [OF this True] show ?thesis by (rule wp_mono) simp_all
next
  case False
  then show "tron_inv V s \<Longrightarrow> next_wp V (NewTronService V u) s"
    by (simp add: NewTronService_def wp_simps logged_refl)
qed

lemma tron_op_next:
  assumes "tron_op V s t" and "base58_laws (te_lib V)" and "tron_sign_laws (te_eth V) (te_lib V)"
  shows "tron_next V s t"
  using assms(1)
proof cases
  case (restart u r)
  from wp_next [OF new_next] restart show ?thesis by (rule withinD)
next
  case (quote to amount contract raw r)
  from wp_next [OF TronQuoteCall_next] quote show ?thesis by (rule withinD)
next
  case (send ident password r)
  from wp_next [OF TronSend_next [OF _ assms(2,3)]] send show ?thesis by (rule withinD)
next
  case (retry hash r)
  from wp_next [OF TronRetry_next] retry show ?thesis by (rule withinD)
next
  case (history r)
  from wp_next [OF TronHistory_next] history show ?thesis by (rule withinD)
next
  case elsewhere
  then show ?thesis by (auto simp: asks_def tron_next_def intro: tron_inv_heap logged_local)
qed

lemma tron_run_next:
  assumes "(tron_op V)\<^sup>*\<^sup>* s t" and "base58_laws (te_lib V)" and "tron_sign_laws (te_eth V) (te_lib V)"
  shows "tron_next V s t"
  using assms(1)
  by (induction rule: rtranclp_induct) (blast intro: tron_next.refl_effect tron_next.trans_effect tron_op_next [OF _ assms(2,3)])+

lemma tron_run:
  assumes "(tron_op V)\<^sup>*\<^sup>* s t" and "base58_laws (te_lib V)" and "tron_sign_laws (te_eth V) (te_lib V)" and "tron_start s"
  shows "tron_inv V t \<and> logged_first tron_present s t"
  using tron_run_next [OF assms(1,2,3)] tron_start_inv [OF assms(4), of V] by (simp add: tron_next_def)

text \<open>
  C18: Whatever operations, failed writes and restarts a TRON service goes through, signed bytes leave
  the process only after the transaction file of the directory holds a record of those bytes.
\<close>

theorem tron_recorded_first:
  assumes "base58_laws (te_lib V)" and "tron_sign_laws (te_eth V) (te_lib V)" and "tron_start s"
    and "(tron_op V)\<^sup>*\<^sup>* s t" and "trace t = before @ SentRaw x # after"
  shows "tron_present (replayed (files s) before) x"
  using tron_run [OF assms(4,1,2,3)] assms(3,5) by (auto simp: tron_start_def intro: logged_firstD)

lemma tron_one_in_flight:
  assumes "base58_laws (te_lib V)" and "tron_sign_laws (te_eth V) (te_lib V)" and "tron_start s" and "(tron_op V)\<^sup>*\<^sup>* s t"
  shows "length (filter in_flight (th_records (heap t))) \<le> 1"
  using tron_run [OF assms(4,1,2,3)] by (simp add: tron_inv_def records_ok_def)

text \<open>A record whose bytes hash to its identifier and are signed by its sender.\<close>

definition verified :: "('k, 'm) tronlib_scheme \<Rightarrow> tronJournalRecord \<Rightarrow> bool" where
  "verified L r \<longleftrightarrow>
     (\<exists>raw sig a. hex_decode (tr_Raw r) = Some raw \<and> tr_Signed r = hex_encode (tron_signed raw sig) \<and> length sig = 65 \<and>
        tr_Signature r = hex_encode (tl_Sha256 L raw) \<and> tl_SigToPub L (tl_Sha256 L raw) sig = Some a \<and>
        tr_From r = TronAddress L a)"

lemma loaded_verified:
  assumes "tron_loaded L d = Inr r"
  shows "d = tronRecordToDisk r \<and> verified L r"
proof -
  from tronRecordFromDisk_ok [OF tron_loaded_record [OF assms]] have d: "d = tronRecordToDisk r" by blast
  from assms tron_loaded_record [OF assms] obtain raw whole where
    dec: "hex_decode (tr_Raw r) = Some raw"
    and hash: "hex_encode (tl_Sha256 L raw) = tr_Signature r" "length whole = length (tronBytes [] 1 raw) + 67"
    and rest: "(case tl_SigToPub L (tl_Sha256 L raw) (drop (length whole - 65) whole) of
        None \<Rightarrow> Inl (ErrNew ''TRON journal signature'')
      | Some address \<Rightarrow>
          if TronAddress L address \<noteq> tr_From r \<or>
            hex_encode (tronBytes (tronBytes [] 1 raw) 2 (drop (length whole - 65) whole)) \<noteq> tr_Signed r
          then Inl (ErrNew ''TRON journal signature'') else Inr r) = Inr r"
    unfolding tron_loaded_def Let_def by (auto simp: ebind_eq_Inr split: option.splits if_splits)
  from rest obtain a where "tl_SigToPub L (tl_Sha256 L raw) (drop (length whole - 65) whole) = Some a"
    "TronAddress L a = tr_From r" "hex_encode (tron_signed raw (drop (length whole - 65) whole)) = tr_Signed r"
    by (auto simp: tron_signed_def split: option.splits if_splits)
  moreover have "length (drop (length whole - 65) whole) = 65" using hash(2) by simp
  ultimately have "verified L r" using dec hash(1) unfolding verified_def by metis
  with d show ?thesis ..
qed

lemma loaded_all:
  "emap (tron_loaded L) ds = Inr rs \<Longrightarrow> ds = map tronRecordToDisk rs \<and> list_all (verified L) rs"
  by (induction ds arbitrary: rs) (auto simp: ebind_eq_Inr dest: loaded_verified)

lemma NewTronService_loads:
  assumes "NewTronService V u t = (Inr (), t')"
  shows "on_file (files t) (th_records (heap t')) \<and> list_all (verified (te_lib V)) (th_records (heap t'))"
proof -
  have io: "\<And>f s x u. on_world f s = (Inr x, u) \<Longrightarrow> files u = files s" by (auto simp: on_world_def split: prod.splits)
  from assms obtain data stored rs where "data = map_of (files t) tronJournal"
    "(case data of None \<Rightarrow> Inr [] | Some None \<Rightarrow> Inl (ErrNew ''TRON journal unreadable'')
      | Some (Some stored) \<Rightarrow> if 1000 < length stored then Inl (ErrNew ''TRON journal unreadable'') else Inr stored) = Inr stored"
    "emap (tron_loaded (te_lib V)) stored = Inr rs" "th_records (heap t') = rs"
    unfolding NewTronService_def ReadFile_def by (auto simp: ok_simps set_heap_def dest!: io)
  with loaded_all [of "te_lib V" stored rs] show ?thesis
    by (auto simp: on_file_def split: option.splits if_splits)
qed

text \<open>
  C19: A restart takes only what the transaction file says, and only records whose identifier is the
  digest of their bytes and whose signature is recovered to their sender, whatever the file holds.
  At any point of a run it reads the file without complaint: it fails only on an error of the
  operating system, and when no write has failed it finds the records that were in memory.
\<close>

theorem tron_restart_accepts:
  assumes "tron_url_ok u" and "NewTronService V u t = (r, t')"
  shows "(r = Inr () \<longrightarrow> on_file (files t) (th_records (heap t')) \<and> list_all (verified (te_lib V)) (th_records (heap t'))) \<and>
    (base58_laws (te_lib V) \<and> tron_sign_laws (te_eth V) (te_lib V) \<and> tron_start s \<and> (tron_op V)\<^sup>*\<^sup>* s t \<longrightarrow>
      (case r of
         Inl e \<Rightarrow> io_error (te_os V) e
       | Inr _ \<Rightarrow> \<not> th_fault (heap t) \<longrightarrow>
           map tronRecordToDisk (th_records (heap t')) = map tronRecordToDisk (th_records (heap t))))"
proof (intro conjI impI)
  show "on_file (files t) (th_records (heap t'))" "list_all (verified (te_lib V)) (th_records (heap t'))" if "r = Inr ()"
    using NewTronService_loads [of V u t t'] assms(2) that by simp_all
  assume run: "base58_laws (te_lib V) \<and> tron_sign_laws (te_eth V) (te_lib V) \<and> tron_start s \<and> (tron_op V)\<^sup>*\<^sup>* s t"
  then have inv: "tron_inv V t" using tron_run [of V s t] by blast
  note w = NewTronService_wp [OF inv assms(1)]
  show "case r of Inl e \<Rightarrow> io_error (te_os V) e
    | Inr _ \<Rightarrow> \<not> th_fault (heap t) \<longrightarrow>
        map tronRecordToDisk (th_records (heap t')) = map tronRecordToDisk (th_records (heap t))"
  proof (cases r)
    case (Inl e)
    with wp_runD_err [OF w, of e t'] assms(2) show ?thesis by simp
  next
    case (Inr x)
    with wp_runD_ok [OF w, of x t'] assms(2) have o: "on_file (files t) (th_records (heap t'))" by simp
    with inv Inr show ?thesis by (auto simp: tron_inv_def on_file_def split: option.splits)
  qed
qed

end
