(* ===== verification/TronQuoteFacts.thy ===== *)
theory TronQuoteFacts
  imports TronFacts
begin

text \<open>
  What a TRON quote guarantees: the bytes to be signed, read by a decoder of the wire format, are
  the transfer that was quoted; and what it requires is covered by the balance, with no wrap-around
  of the 64-bit sums.
\<close>

section \<open>What the bytes say\<close>

definition blob :: "nat \<Rightarrow> (nat \<times> wire) list \<Rightarrow> bytes option" where
  "blob k fs = (case map_of (rev fs) k of Some (Blob b) \<Rightarrow> Some b | _ \<Rightarrow> None)"

definition varint :: "nat \<Rightarrow> (nat \<times> wire) list \<Rightarrow> nat" where
  "varint k fs = (case map_of (rev fs) k of Some (Varint n) \<Rightarrow> n | _ \<Rightarrow> 0)"

text \<open>
  The transaction a node sees: the contract type, the owner, the recipient or the token contract,
  the amount, the call data, the expiration and the fee limit.  A field that is left out is zero.
\<close>

record tron_order =
  or_kind :: nat
  or_owner :: "bytes option"
  or_target :: "bytes option"
  or_amount :: nat
  or_data :: "bytes option"
  or_expires :: nat
  or_fee_limit :: nat

definition tron_order_of :: "bytes \<Rightarrow> tron_order option" where
  "tron_order_of raw =
     Option.bind (wire_fields raw) (\<lambda>fs.
     Option.bind (Option.bind (blob 11 fs) wire_fields) (\<lambda>operation.
     Option.bind (Option.bind (blob 2 operation) wire_fields) (\<lambda>parameter.
     Option.bind (Option.bind (blob 2 parameter) wire_fields) (\<lambda>c.
       Some \<lparr> or_kind = varint 1 operation, or_owner = blob 1 c, or_target = blob 2 c, or_amount = varint 3 c,
              or_data = blob 4 c, or_expires = varint 8 fs, or_fee_limit = varint 18 fs \<rparr>))))"

definition int_fields :: "nat \<Rightarrow> int \<Rightarrow> (nat \<times> wire) list" where
  "int_fields k v = (if v = 0 then [] else [(k, Varint (nat (v mod 2 ^ 64)))])"

abbreviation written :: "(nat \<times> wire) list \<Rightarrow> bytes" where
  "written fs \<equiv> concat (map wire_field fs)"

lemma tronInt_fields: "tronInt (written fs) k v = written (fs @ int_fields k v)"
  unfolding int_fields_def by (rule tronInt_wire)

lemma tronBytes_nil: "tronBytes [] k v = written [(k, Blob v)]"
  using tronBytes_wire [of "[]" k v] by simp

lemma tronInt_nil: "tronInt [] k v = written (int_fields k v)"
  using tronInt_fields [of "[]" k v] by simp

definition operation_fields :: "int \<Rightarrow> string \<Rightarrow> bytes \<Rightarrow> (nat \<times> wire) list" where
  "operation_fields kind name payload =
     int_fields 1 kind @
     [(2, Blob (written [(1, Blob (map of_char (''type.googleapis.com/protocol.'' @ name))), (2, Blob payload)]))]"

lemma tronRaw_fields:
  assumes "tronRaw E owner to amount contract blockID at expires feeLimit = Inr raw"
  obtains b h kind name payload where "tron_payload E owner to amount contract = Inr (kind, name, payload)"
    and "raw = written ([(1, Blob b), (4, Blob h)] @ int_fields 8 expires @
      [(11, Blob (written (operation_fields kind name payload)))] @ int_fields 14 at @ int_fields 18 feeLimit)"
  using assms unfolding tronRaw_def Let_def
  by (auto simp: ebind_eq_Inr tronBytes_nil tronInt_nil tronBytes_wire tronInt_fields operation_fields_def
      simp del: concat.simps map_append list.map split: option.splits if_splits prod.splits)

lemma lookup_int_fields: "map_of (rev (int_fields k v)) j = (if j = k \<and> v \<noteq> 0 then Some (Varint (nat (v mod 2 ^ 64))) else None)"
  by (simp add: int_fields_def)

lemma small_mod: "0 \<le> (v :: int) \<Longrightarrow> v < 2 ^ 63 \<Longrightarrow> v mod 2 ^ 64 = v"
  by simp

lemma tronRaw_order:
  assumes "tronRaw E owner to amount contract blockID at expires feeLimit = Inr raw"
    and "0 \<le> expires" "expires < 2 ^ 63" "0 \<le> feeLimit" "feeLimit < 2 ^ 63"
    and pay: "tron_payload E owner to amount contract = Inr (kind, name, written c)" and "0 < kind" "kind < 100"
  shows "tron_order_of raw = Some \<lparr> or_kind = nat kind, or_owner = blob 1 c, or_target = blob 2 c, or_amount = varint 3 c,
       or_data = blob 4 c, or_expires = nat expires, or_fee_limit = nat feeLimit \<rparr>"
proof -
  from tronRaw_fields [OF assms(1)] pay obtain b h where
    raw: "raw = written ([(1, Blob b), (4, Blob h)] @ int_fields 8 expires @
      [(11, Blob (written (operation_fields kind name (written c))))] @ int_fields 14 at @ int_fields 18 feeLimit)"
    (is "raw = written ?fs")
    by (metis Inr_inject prod.inject)
  have parts: "blob 11 ?fs = Some (written (operation_fields kind name (written c)))"
    "varint 8 ?fs = nat expires" "varint 18 ?fs = nat feeLimit"
    using assms(2-5) by (simp_all add: blob_def varint_def lookup_int_fields small_mod map_add_def del: concat.simps)
  have op: "blob 2 (operation_fields kind name (written c)) =
      Some (written [(1, Blob (map of_char (''type.googleapis.com/protocol.'' @ name))), (2, Blob (written c))])"
    "varint 1 (operation_fields kind name (written c)) = nat kind"
    using assms(7,8)
    by (simp_all add: operation_fields_def blob_def varint_def lookup_int_fields map_add_def del: concat.simps map_append)
  have par: "blob 2 [(1, Blob x), (2, Blob y)] = Some y" for x y by (simp add: blob_def)
  show ?thesis
    unfolding tron_order_of_def raw wire_fields_concat bind.bind_lunit parts op par ..
qed

text \<open>The message of a TRX transfer and of a token transfer.\<close>

lemma tron_payload_trx:
  "tron_payload E owner to amount [] = Inr (1, ''TransferContract'',
     written ([(1, Blob owner), (2, Blob to)] @ int_fields 3 (int64 amount)))"
  unfolding tron_payload_def Let_def tronBytes_nil tronBytes_wire tronInt_fields by simp

lemma tron_payload_token:
  assumes "contract \<noteq> []" and "AbiPack E ''erc20.transfer'' [AbiAddress (address_of to), AbiUint amount] = Inr data"
  shows "tron_payload E owner to amount contract = Inr (31, ''TriggerSmartContract'',
     written [(1, Blob owner), (2, Blob contract), (4, Blob data)])"
  using assms(1) unfolding tron_payload_def Let_def tronBytes_nil tronBytes_wire assms(2) by simp

text \<open>A node reads back the transfer that was encoded.\<close>

lemma tronRaw_says:
  assumes "tronRaw E owner to amount contract blockID at expires feeLimit = Inr raw"
    and "0 \<le> expires" "expires < 2 ^ 63" "0 \<le> feeLimit" "feeLimit < 2 ^ 63" "0 < amount"
    and "contract = [] \<longrightarrow> amount < 2 ^ 63"
  shows "if contract = []
    then tron_order_of raw = Some \<lparr> or_kind = 1, or_owner = Some owner, or_target = Some to, or_amount = nat amount,
           or_data = None, or_expires = nat expires, or_fee_limit = nat feeLimit \<rparr>
    else \<exists>data. AbiPack E ''erc20.transfer'' [AbiAddress (address_of to), AbiUint amount] = Inr data \<and>
         tron_order_of raw = Some \<lparr> or_kind = 31, or_owner = Some owner, or_target = Some contract, or_amount = 0,
           or_data = Some data, or_expires = nat expires, or_fee_limit = nat feeLimit \<rparr>"
proof (cases "contract = []")
  case True
  have a: "int64 amount = amount" using assms(6,7) True by (simp add: int64_id)
  let ?c = "[(1, Blob owner), (2, Blob to)] @ int_fields 3 amount"
  have c: "blob 1 ?c = Some owner" "blob 2 ?c = Some to" "varint 3 ?c = nat amount" "blob 4 ?c = None"
    using assms(6,7) True by (simp_all add: blob_def varint_def lookup_int_fields small_mod map_add_def)
  from tronRaw_order [OF assms(1-5) tron_payload_trx [of E owner to amount, folded True, unfolded a]] True
  show ?thesis unfolding c by simp
next
  case False
  from assms(1) obtain data where d: "AbiPack E ''erc20.transfer'' [AbiAddress (address_of to), AbiUint amount] = Inr data"
    unfolding tronRaw_def tron_payload_def using False by (auto simp: ebind_eq_Inr split: option.splits if_splits)
  let ?c = "[(1, Blob owner), (2, Blob contract), (4, Blob data)]"
  have c: "blob 1 ?c = Some owner" "blob 2 ?c = Some contract" "varint 3 ?c = 0" "blob 4 ?c = Some data"
    by (simp_all add: blob_def varint_def)
  from tronRaw_order [OF assms(1-5) tron_payload_token [OF False d]] False d show ?thesis unfolding c by simp
qed

section \<open>How long the bytes are\<close>

lemma length_uvarint: "n < 128 ^ k \<Longrightarrow> 0 < k \<Longrightarrow> length (uvarint n) \<le> k"
proof (induction n arbitrary: k rule: uvarint.induct)
  case (1 n)
  show ?case
  proof (cases "n < 128")
    case True
    with 1(3) show ?thesis by (subst uvarint.simps) simp
  next
    case False
    then obtain j where k: "k = Suc j" and j: "0 < j"
      using 1(2,3) by (cases k; cases "k - 1") auto
    with 1(2) have "n div 128 < 128 ^ j" by (simp add: less_mult_imp_div_less mult.commute)
    with 1(1) [OF False] j have "length (uvarint (n div 128)) \<le> j" by blast
    with False k show ?thesis by (subst uvarint.simps) simp
  qed
qed

lemma length_tronBytes: "k < 100 \<Longrightarrow> length v < 16384 \<Longrightarrow> length (tronBytes dst k v) \<le> length dst + length v + 4"
  using length_uvarint [of "8 * k + 2" 2] length_uvarint [of "length v" 2] by (simp add: tronBytes_def power2_eq_square)

lemma length_tronInt: "k < 100 \<Longrightarrow> length (tronInt dst k v) \<le> length dst + 12"
proof -
  assume k: "k < 100"
  have "v mod 2 ^ 64 < 2 ^ 64" by simp
  then have "nat (v mod 2 ^ 64) < 128 ^ 10" by (simp add: nat_less_iff)
  with k length_uvarint [of "8 * k" 2] length_uvarint [of "nat (v mod 2 ^ 64)" 10] show ?thesis
    by (simp add: tronInt_def power2_eq_square)
qed

definition short_calls :: "('k, 'm) ethlib_scheme \<Rightarrow> bool" where
  "short_calls E \<longleftrightarrow> (\<forall>vs data. AbiPack E ''erc20.transfer'' vs = Inr data \<longrightarrow> length data \<le> 1000)"

lemma length_payload:
  assumes "tron_payload E owner to amount contract = Inr (kind, name, payload)" and "short_calls E"
    and "length owner \<le> 21" "length to \<le> 21" "length contract \<le> 21"
  shows "length payload \<le> 1058 \<and> length name \<le> 20"
proof -
  have o: "length (tronBytes [] 1 owner) \<le> 25" using length_tronBytes [of 1 owner "[]"] assms(3) by simp
  have trx: "length (tronInt (tronBytes (tronBytes [] 1 owner) 2 to) 3 v) \<le> 62" for v
    using o length_tronBytes [of 2 to "tronBytes [] 1 owner"] length_tronInt [of 3 "tronBytes (tronBytes [] 1 owner) 2 to" v] assms(4)
    by simp
  have tok: "length (tronBytes (tronBytes (tronBytes [] 1 owner) 2 contract) 4 data) \<le> 1058" if "length data \<le> 1000" for data
    using o length_tronBytes [of 2 contract "tronBytes [] 1 owner"] that assms(5)
      length_tronBytes [of 4 data "tronBytes (tronBytes [] 1 owner) 2 contract"] by simp
  have short: "length data \<le> 1000" if "AbiPack E ''erc20.transfer'' vs = Inr data" for vs data
    using assms(2) that by (simp add: short_calls_def)
  show ?thesis
  proof (cases "contract = []")
    case True
    with assms(1) trx [of "int64 amount"] show ?thesis unfolding tron_payload_def Let_def by auto
  next
    case False
    with assms(1) tok short show ?thesis unfolding tron_payload_def Let_def by (auto simp: ebind_eq_Inr)
  qed
qed

lemma length_tronRaw:
  assumes "tronRaw E owner to amount contract blockID at expires feeLimit = Inr raw" and "short_calls E"
    and "length owner \<le> 21" "length to \<le> 21" "length contract \<le> 21"
  shows "length raw \<le> 1300"
proof -
  from assms(1) obtain block kind name payload where p: "tron_payload E owner to amount contract = Inr (kind, name, payload)"
    and raw: "raw = tronInt (tronInt (tronBytes (tronInt (tronBytes (tronBytes [] 1 (take 2 (drop 6 block))) 4 (take 8 (drop 8 block)))
      8 expires) 11 (tronBytes (tronInt [] 1 kind) 2 (tronBytes (tronBytes [] 1 (map of_char (''type.googleapis.com/protocol.'' @ name)))
      2 payload))) 14 at) 18 feeLimit" (is "_ = tronInt (tronInt (tronBytes (tronInt ?a 8 expires) 11 ?op) 14 at) 18 feeLimit")
    unfolding tronRaw_def Let_def by (auto simp: ebind_eq_Inr split: option.splits if_splits prod.splits)
  note len = length_payload [OF p assms(2-5)]
  have two: "length (take 2 (drop 6 block)) \<le> 2" and eight: "length (take 8 (drop 8 block)) \<le> 8" by simp_all
  have "length (tronBytes [] 1 (take 2 (drop 6 block))) \<le> 6"
    using length_tronBytes [of 1 "take 2 (drop 6 block)" "[]"] two by (simp del: length_take length_drop)
  then have a: "length ?a \<le> 18"
    using length_tronBytes [of 4 "take 8 (drop 8 block)" "tronBytes [] 1 (take 2 (drop 6 block))"] eight by (simp del: length_take length_drop)
  let ?n = "map of_char (''type.googleapis.com/protocol.'' @ name) :: bytes"
  have n: "length ?n \<le> 60" using len by simp
  then have "length (tronBytes [] 1 ?n) \<le> 64" using length_tronBytes [of 1 ?n "[]"] by simp
  then have par: "length (tronBytes (tronBytes [] 1 ?n) 2 payload) \<le> 1126"
    using length_tronBytes [of 2 payload "tronBytes [] 1 ?n"] len by simp
  have op: "length ?op \<le> 1142"
    using length_tronBytes [of 2 "tronBytes (tronBytes [] 1 ?n) 2 payload" "tronInt [] 1 kind"] par length_tronInt [of 1 "[]" kind] by simp
  let ?b = "tronInt ?a 8 expires"
  have b: "length ?b \<le> 30" using a length_tronInt [of 8 ?a expires] by simp
  have "length (tronBytes ?b 11 ?op) \<le> 1176" using b op length_tronBytes [of 11 ?op ?b] by simp
  then show ?thesis
    unfolding raw using length_tronInt [of 14 "tronBytes ?b 11 ?op" at] length_tronInt [of 18 "tronInt (tronBytes ?b 11 ?op) 14 at" feeLimit]
    by simp
qed

lemma bandwidth_bound: "length raw \<le> 1300 \<Longrightarrow> 0 < bandwidth_of raw \<and> bandwidth_of raw \<le> 2000"
  using length_tronBytes [of 1 raw "[]"] length_tronBytes [of 2 "replicate 65 0" "tronBytes [] 1 raw"]
  by (simp add: bandwidth_of_def tron_signed_def)

section \<open>What a quote requires\<close>

text \<open>A field keeps what its reader keeps.\<close>

lemma member_keeps:
  assumes "member f k es old = Inr x" and "P old" and "\<And>v a b. P a \<Longrightarrow> f v a = Inr b \<Longrightarrow> P b"
  shows "P x"
  using assms(1,2)
proof (induction es arbitrary: old)
  case (Cons e es)
  then show ?case using assms(3) by (cases e) (auto split: if_splits sum.splits)
qed simp

lemma int_field_range: "\<And>a. - (2 ^ 63) \<le> a \<and> a < 2 ^ 63 \<Longrightarrow> int_field v a = Inr b \<Longrightarrow> - (2 ^ 63) \<le> b \<and> b < 2 ^ 63"
  by (auto simp: int_field_def bad_json_def split: json.splits if_splits)

lemma tron_output_ok: "tron_output d output = Inr x \<Longrightarrow> output d = Inr x"
  by (auto simp: tron_output_def split: sum.splits if_splits)

lemma tron_call_ok: "tron_call V path body output s = (Inr x, t) \<Longrightarrow> \<exists>d. output d = Inr x"
  by (auto simp: tron_call_def ok_simps dest: tron_output_ok)

lemma tron_account_range:
  assumes "tron_account V a s = (Inr acc, t)"
  shows "(\<exists>b. ParseTronAddress (te_lib V) a = Inr b) \<and> 0 \<le> ta_Balance acc \<and> ta_Balance acc < 2 ^ 63"
proof -
  from assms obtain b d where b: "ParseTronAddress (te_lib V) a = Inr b" "account_output d = Inr acc" "0 \<le> ta_Balance acc"
    unfolding tron_account_def by (auto simp: ok_simps dest!: tron_call_ok)
  from b(2) obtain es where "member int_field ''balance'' es 0 = Inr (ta_Balance acc)"
    by (auto simp: account_output_def ebind_eq_Inr)
  then have "- (2 ^ 63) \<le> ta_Balance acc \<and> ta_Balance acc < 2 ^ 63"
    by (rule member_keeps) (simp, rule int_field_range)
  with b show ?thesis by blast
qed

text \<open>The parts of a quote, each begun where the one before ended.\<close>

definition quote_started :: "('k, 'w) tron_env \<Rightarrow> ('w, 'f, 'h, int) act" where
  "quote_started V = seq (on_world (\<lambda>w. case te_NewID V w of (i, w') \<Rightarrow> (Inr i, w'))) (now (te_os V))"

lemma quote_startedI:
  "on_world (\<lambda>w. case te_NewID V w of (i, w') \<Rightarrow> (Inr i, w')) s = (Inr x, u) \<Longrightarrow> now (te_os V) u = (Inr y, v) \<Longrightarrow>
    quote_started V s = (Inr y, v)"
  by (auto simp: quote_started_def ok_simps)

lemma build_quote_parts:
  fixes s :: "('w, 'f, 'h) sys"
  assumes "build_quote V costs account from to toBytes amount contract rawAmount s = (Inr q, t)"
  obtains cb token units am rt v activation energy feeLimit blockID ms tm and s1 s2 s4 :: "('w, 'f, 'h) sys" where
    "quote_started V s = (Inr tm, s1)" "quote_token V from contract s1 = (Inr (cb, token), s2)"
    "quote_units token amount rawAmount = Inr (units, am, rt)" "0 < units"
    "transfer_costs V costs from to toBytes contract token units s2 = (Inr (v, activation, energy, feeLimit), s4)"
    "tronRaw (te_eth V) (case ParseTronAddress (te_lib V) from of Inr b \<Rightarrow> b | Inl _ \<Rightarrow> []) toBytes units cb blockID ms
       (unix_milli (tq_Expires q)) feeLimit = Inr (tq_raw q)"
    "v \<le> ta_Balance account"
    "int64 (bandwidth_of (tq_raw q) * cost_of costs ''getTransactionFee'' + activation + feeLimit) \<le> int64 (ta_Balance account - v)"
    "tq_required q = int64 (v + int64 (bandwidth_of (tq_raw q) * cost_of costs ''getTransactionFee'' + activation + feeLimit))"
    "tq_units q = units" "tq_From q = from" "tq_To q = to" "tq_Contract q = contract" "tq_Amount q = am" "tq_AmountRaw q = rt"
    "tq_Decimals q = (case token of None \<Rightarrow> 6 | Some k \<Rightarrow> tt_Decimals k)" "tq_Energy q = energy"
    "tq_FeeTRX q = units_text (int64 (bandwidth_of (tq_raw q) * cost_of costs ''getTransactionFee'' + activation + feeLimit)) 6"
    "tq_FeeLimitTRX q = units_text feeLimit 6"
proof -
  show thesis
    using assms unfolding build_quote_def Let_def ok_simps
    apply (elim exE conjE)
    apply (simp only: prod.case ok_simps split: prod.splits)
    apply (rule that, erule (1) quote_startedI)
                     apply assumption
                    apply assumption
                   apply (simp only: not_le)
                  apply assumption
                 apply (simp only: TronQuote.select_convs)
                apply simp_all
    done
qed

lemma transfer_costs_TRX:
  assumes "transfer_costs V costs from to toBytes contract None units s = (Inr (v, activation, energy, feeLimit), t)"
  shows "v = units" and "units < 2 ^ 63" and "feeLimit = 0" and "energy = 0"
    and "\<exists>rcp. tron_account V to s = (Inr rcp, t) \<and>
      activation = (if ta_Address rcp = [] then int64 (cost_of costs ''getCreateNewAccountFeeInSystemContract'' + cost_of costs ''getCreateAccountFee'') else 0)"
proof -
  from assms have "v = units \<and> units < 2 ^ 63 \<and> feeLimit = 0 \<and> energy = 0 \<and> (\<exists>rcp. tron_account V to s = (Inr rcp, t) \<and>
      activation = (if ta_Address rcp = [] then int64 (cost_of costs ''getCreateNewAccountFeeInSystemContract'' + cost_of costs ''getCreateAccountFee'') else 0))"
    unfolding transfer_costs_def option.case ok_simps by (elim conjE exE) (simp only: prod.inject simp_thms not_le not_less de_Morgan_disj, blast)
  then show "v = units" and "units < 2 ^ 63" and "feeLimit = 0" and "energy = 0"
    and "\<exists>rcp. tron_account V to s = (Inr rcp, t) \<and>
      activation = (if ta_Address rcp = [] then int64 (cost_of costs ''getCreateNewAccountFeeInSystemContract'' + cost_of costs ''getCreateAccountFee'') else 0)"
    by blast+
qed

lemma transfer_costs_token:
  assumes "transfer_costs V costs from to toBytes contract (Some k) units s = (Inr (v, activation, energy, feeLimit), t)"
  shows "0 < energy" and "energy \<le> 10000000" and "v = 0" and "activation = 0"
    and "feeLimit = int64 (energy * cost_of costs ''getEnergyFee'' * 2)" and "feeLimit \<le> 100000000"
    and "\<exists>raw. tron_constant V from contract ''transfer'' [AbiAddress (address_of toBytes), AbiUint units] s = (Inr (raw, energy), t) \<and>
      transfer_ok (te_eth V) raw = Some True"
  using assms by (auto simp: transfer_costs_def ok_simps Let_def split: if_splits)

lemma transfer_costs_range:
  fixes s :: "('w, 'f, 'h) sys"
  assumes "transfer_costs V costs from to toBytes contract token units s = (Inr (v, activation, energy, feeLimit), t)"
    and "costs_ok costs" and "0 < units"
  shows "(token = None \<longrightarrow> v = units \<and> units < 2 ^ 63) \<and> (token \<noteq> None \<longrightarrow> v = 0) \<and> 0 \<le> v"
    and "token = None \<Longrightarrow> feeLimit = 0 \<and> energy = 0 \<and> (\<exists>rcp. tron_account V to s = (Inr rcp, t) \<and>
         activation = (if ta_Address rcp = [] then cost_of costs ''getCreateNewAccountFeeInSystemContract'' + cost_of costs ''getCreateAccountFee'' else 0))"
    and "token \<noteq> None \<Longrightarrow> activation = 0 \<and> feeLimit = 2 * energy * cost_of costs ''getEnergyFee''"
    and "0 \<le> activation" and "activation \<le> 200000000" and "0 \<le> feeLimit" and "feeLimit \<le> 100000000"
proof -
  have c: "0 < cost_of costs n" "cost_of costs n \<le> 100000000" if "n \<in> set cost_names" for n
    using assms(2) that by (simp_all add: costs_ok_def list_all_iff)
  note c' = c [of "''getCreateNewAccountFeeInSystemContract''"] c [of "''getCreateAccountFee''"]
  have create: "int64 (cost_of costs ''getCreateNewAccountFeeInSystemContract'' + cost_of costs ''getCreateAccountFee'') =
      cost_of costs ''getCreateNewAccountFeeInSystemContract'' + cost_of costs ''getCreateAccountFee''"
    using c' by (intro int64_id) (simp_all add: cost_names_def)
  have trx: "v = units \<and> units < 2 ^ 63 \<and> feeLimit = 0 \<and> energy = 0 \<and> 0 \<le> activation \<and> activation \<le> 200000000 \<and>
      (\<exists>rcp. tron_account V to s = (Inr rcp, t) \<and>
         activation = (if ta_Address rcp = [] then cost_of costs ''getCreateNewAccountFeeInSystemContract'' + cost_of costs ''getCreateAccountFee'' else 0))"
    if n: "token = None"
    using transfer_costs_TRX [OF assms(1) [unfolded n]] c' unfolding create by (auto simp: cost_names_def)
  have tok: "v = 0 \<and> activation = 0 \<and> feeLimit = 2 * energy * cost_of costs ''getEnergyFee'' \<and> 0 \<le> feeLimit \<and> feeLimit \<le> 100000000"
    if "token = Some k" for k
  proof -
    note e = transfer_costs_token [OF assms(1) [unfolded that]]
    have price: "0 < cost_of costs ''getEnergyFee''" "cost_of costs ''getEnergyFee'' \<le> 100000000"
      using c by (simp_all add: cost_names_def)
    have "energy * cost_of costs ''getEnergyFee'' \<le> 10000000 * 100000000"
      using e(1,2) price by (intro mult_mono) simp_all
    moreover have "0 \<le> energy * cost_of costs ''getEnergyFee''" using e(1) price by simp
    ultimately have "int64 (energy * cost_of costs ''getEnergyFee'' * 2) = energy * cost_of costs ''getEnergyFee'' * 2"
      by (intro int64_id) simp_all
    with e(1-6) price show ?thesis by simp
  qed
  show "(token = None \<longrightarrow> v = units \<and> units < 2 ^ 63) \<and> (token \<noteq> None \<longrightarrow> v = 0) \<and> 0 \<le> v"
    using trx tok assms(3) by (cases token) auto
  show "token = None \<Longrightarrow> feeLimit = 0 \<and> energy = 0 \<and> (\<exists>rcp. tron_account V to s = (Inr rcp, t) \<and>
         activation = (if ta_Address rcp = [] then cost_of costs ''getCreateNewAccountFeeInSystemContract'' + cost_of costs ''getCreateAccountFee'' else 0))"
    using trx by blast
  show "token \<noteq> None \<Longrightarrow> activation = 0 \<and> feeLimit = 2 * energy * cost_of costs ''getEnergyFee''"
    and "0 \<le> activation" and "activation \<le> 200000000" and "0 \<le> feeLimit" and "feeLimit \<le> 100000000"
    using trx tok by (cases token; auto)+
qed

lemma TronQuoteCall_parts:
  fixes s :: "('w, tron_file, 'h tron_heap_scheme) sys"
  assumes "TronQuoteCall V to amount contract rawAmount s = (Inr q, t)"
  obtains toBytes account costs owner and s1 s2 s3 s4 :: "('w, tron_file, 'h tron_heap_scheme) sys" where
    "ParseTronAddress (te_lib V) to = Inr toBytes" "andthen (ask (ka_Address (te_keys V))) (\<lambda>owner. seq (tron_check V) (ret owner)) s = (Inr owner, s1)"
    "tron_account V (tron_from V owner) s1 = (Inr account, s2)" "costs_ok costs"
    "build_quote V costs account (tron_from V owner) to toBytes amount contract rawAmount s3 = (Inr q, s4)"
    "tron_call V ''/wallet/getchainparameters'' (JObj []) parameters_output s2 = (Inr costs, s3)"
proof -
  show thesis
    using assms unfolding TronQuoteCall_def Let_def ok_simps
    apply (elim exE conjE)
    apply (simp only: prod.case ok_simps split: prod.splits)
    apply (simp only: run_get_heap prod.inject sum.inject)
    apply (elim conjE)
    apply (rule that)
         apply assumption
        apply (auto simp: ok_simps)[1]
       apply assumption
      apply (drule notnotD, assumption)
     apply simp
    apply assumption
    done
qed

lemma quote_token_ok:
  assumes "quote_token V from contract s = (Inr (cb, token), t)"
  shows "(contract = [] \<longrightarrow> cb = [] \<and> token = None) \<and>
    (contract \<noteq> [] \<longrightarrow> token \<noteq> None \<and> ParseTronAddress (te_lib V) contract = Inr cb \<and> cb \<noteq> [])"
  using assms by (auto simp: quote_token_def ok_simps split: if_splits dest: ParseTronAddress_shape)

text \<open>
  C21: What a TRON quote requires is exactly what it spends at most, as integers without wrap-around:
  for TRX the amount itself, and always the bandwidth of the very bytes to sign at the price of the
  node, the activation of a recipient the node has shown not to be active, and for a token twice the
  energy of the node's simulation of this transfer, at the price of the node.  The balance the node
  gave for the quoting account covers it, and the fee and its limit that are shown are these.  The
  answers of the node are those of this call: the states of the equations follow each other.
\<close>

theorem tron_quote_covered:
  fixes s :: "('w, tron_file, 'h tron_heap_scheme) sys"
  assumes "short_calls (te_eth V)" and "TronQuoteCall V to amount contract rawAmount s = (Inr q, t)"
  shows "\<exists>owner account costs tm recipient activation energyFee reserve (s1 :: ('w, tron_file, 'h tron_heap_scheme) sys) s2 s3 s4.
    andthen (ask (ka_Address (te_keys V))) (\<lambda>owner. seq (tron_check V) (ret owner)) s = (Inr owner, s1) \<and>
    tq_From q = tron_from V owner \<and> ParseTronAddress (te_lib V) to = Inr recipient \<and>
    tron_account V (tq_From q) s1 = (Inr account, s2) \<and>
    tron_call V ''/wallet/getchainparameters'' (JObj []) parameters_output s2 = (Inr costs, s3) \<and>
    quote_started V s3 = (Inr tm, s4) \<and>
    (if contract = []
     then energyFee = 0 \<and> (\<exists>rcp (u :: ('w, tron_file, 'h tron_heap_scheme) sys). tron_account V to s4 = (Inr rcp, u) \<and>
       activation = (if ta_Address rcp = [] then cost_of costs ''getCreateNewAccountFeeInSystemContract'' + cost_of costs ''getCreateAccountFee'' else 0))
     else activation = 0 \<and> energyFee = 2 * tq_Energy q * cost_of costs ''getEnergyFee'' \<and>
       (\<exists>token raw (u :: ('w, tron_file, 'h tron_heap_scheme) sys) u'. tron_token V (tq_From q) contract s4 = (Inr token, u) \<and>
         tron_constant V (tq_From q) contract ''transfer'' [AbiAddress (address_of recipient), AbiUint (tq_units q)] u =
           (Inr (raw, tq_Energy q), u') \<and> transfer_ok (te_eth V) raw = Some True)) \<and>
    reserve = bandwidth_of (tq_raw q) * cost_of costs ''getTransactionFee'' + activation + energyFee \<and>
    tq_required q = (if contract = [] then tq_units q else 0) + reserve \<and>
    0 < tq_units q \<and> 0 < reserve \<and> tq_required q \<le> ta_Balance account \<and>
    tq_FeeTRX q = units_text reserve 6 \<and> tq_FeeLimitTRX q = units_text energyFee 6"
proof -
  obtain toBytes account costs owner and s1 s2 s3 s4 :: "('w, tron_file, 'h tron_heap_scheme) sys" where
    p0: "andthen (ask (ka_Address (te_keys V))) (\<lambda>owner. seq (tron_check V) (ret owner)) s = (Inr owner, s1)" and
    p: "ParseTronAddress (te_lib V) to = Inr toBytes" "tron_account V (tron_from V owner) s1 = (Inr account, s2)" "costs_ok costs"
    "build_quote V costs account (tron_from V owner) to toBytes amount contract rawAmount s3 = (Inr q, s4)"
    "tron_call V ''/wallet/getchainparameters'' (JObj []) parameters_output s2 = (Inr costs, s3)"
    by (rule TronQuoteCall_parts [OF assms(2)])
  define sender where "sender = tron_from V owner"
  note p = p [folded sender_def]
  obtain cb token units am rt v activation energy feeLimit blockID ms tm and r1 r2 r4 :: "('w, tron_file, 'h tron_heap_scheme) sys" where
    b0: "quote_started V s3 = (Inr tm, r1)" and
    b: "quote_token V sender contract r1 = (Inr (cb, token), r2)" "0 < units"
    "transfer_costs V costs sender to toBytes contract token units r2 = (Inr (v, activation, energy, feeLimit), r4)"
    "tronRaw (te_eth V) (case ParseTronAddress (te_lib V) sender of Inr b \<Rightarrow> b | Inl _ \<Rightarrow> []) toBytes units cb blockID ms
       (unix_milli (tq_Expires q)) feeLimit = Inr (tq_raw q)"
    "v \<le> ta_Balance account"
    "int64 (bandwidth_of (tq_raw q) * cost_of costs ''getTransactionFee'' + activation + feeLimit) \<le> int64 (ta_Balance account - v)"
    "tq_required q = int64 (v + int64 (bandwidth_of (tq_raw q) * cost_of costs ''getTransactionFee'' + activation + feeLimit))"
    "tq_units q = units" "tq_From q = sender" "tq_Energy q = energy"
    "tq_FeeTRX q = units_text (int64 (bandwidth_of (tq_raw q) * cost_of costs ''getTransactionFee'' + activation + feeLimit)) 6"
    "tq_FeeLimitTRX q = units_text feeLimit 6"
    by (rule build_quote_parts [OF p(4)]) blast
  note token = quote_token_ok [OF b(1)]
  note range = transfer_costs_range [OF b(3) p(3) b(2)]
  note bal = tron_account_range [OF p(2)]
  from bal obtain ob where ob: "ParseTronAddress (te_lib V) sender = Inr ob" by blast
  have "length (tq_raw q) \<le> 1300"
  proof (rule length_tronRaw [OF b(4) assms(1)])
    show "length toBytes \<le> 21" using ParseTronAddress_shape [OF p(1)] by simp
    show "length (case ParseTronAddress (te_lib V) sender of Inr b \<Rightarrow> b | Inl _ \<Rightarrow> []) \<le> 21"
      using ParseTronAddress_shape [OF ob] ob by simp
    show "length cb \<le> 21" using token ParseTronAddress_shape [of "te_lib V" contract cb] by (cases "contract = []") simp_all
  qed
  then have w: "0 < bandwidth_of (tq_raw q)" "bandwidth_of (tq_raw q) \<le> 2000" using bandwidth_bound by blast+
  have price: "0 < cost_of costs ''getTransactionFee''" "cost_of costs ''getTransactionFee'' \<le> 100000000"
    using p(3) by (simp_all add: costs_ok_def cost_names_def)
  let ?b = "bandwidth_of (tq_raw q) * cost_of costs ''getTransactionFee''"
  let ?r = "?b + activation + feeLimit"
  have burn: "0 < ?b" "?b \<le> 2000 * 100000000" using w price by (simp, intro mult_mono) simp_all
  have r: "int64 ?r = ?r" using burn range(4-7) by (intro int64_id) simp_all
  have d: "int64 (ta_Balance account - v) = ta_Balance account - v" using bal range(1) b(5) by (intro int64_id) simp_all
  from b(6) r d have le: "?r \<le> ta_Balance account - v" by simp
  have "int64 (v + ?r) = v + ?r" using burn range(1,4,6) bal le by (intro int64_id) simp_all
  with b(7) r have q: "tq_required q = v + ?r" by simp
  have v: "v = (if contract = [] then tq_units q else 0)" using range(1) token b(8) by auto
  let ?P = "if contract = []
     then feeLimit = 0 \<and> (\<exists>rcp (u :: ('w, tron_file, 'h tron_heap_scheme) sys). tron_account V to r1 = (Inr rcp, u) \<and>
       activation = (if ta_Address rcp = [] then cost_of costs ''getCreateNewAccountFeeInSystemContract'' + cost_of costs ''getCreateAccountFee'' else 0))
     else activation = 0 \<and> feeLimit = 2 * tq_Energy q * cost_of costs ''getEnergyFee'' \<and>
       (\<exists>token raw (u :: ('w, tron_file, 'h tron_heap_scheme) sys) u'. tron_token V (tq_From q) contract r1 = (Inr token, u) \<and>
         tron_constant V (tq_From q) contract ''transfer'' [AbiAddress (address_of toBytes), AbiUint (tq_units q)] u =
           (Inr (raw, tq_Energy q), u') \<and> transfer_ok (te_eth V) raw = Some True)"
  have parts: ?P
  proof (cases "contract = []")
    case True
    with b(1) have "r2 = r1" "token = None" by (simp_all add: quote_token_def ok_simps)
    with True range(2) show ?thesis by auto
  next
    case False
    with b(1) token obtain k where k: "token = Some k" "tron_token V sender contract r1 = (Inr k, r2)"
      by (auto simp: quote_token_def ok_simps)
    from transfer_costs_token(7) [OF b(3) [unfolded k(1)]] obtain raw where
      "tron_constant V sender contract ''transfer'' [AbiAddress (address_of toBytes), AbiUint units] r2 = (Inr (raw, energy), r4)"
      "transfer_ok (te_eth V) raw = Some True" by blast
    with k range(3) False b(8-10) show ?thesis by auto
  qed
  have "0 < ?r" using burn range(4,6) by simp
  then have pos: "0 < reserve" if "reserve = ?r" for reserve using that by simp
  have sender: "tq_From q = tron_from V owner" "tron_account V (tq_From q) s1 = (Inr account, s2)"
    using p(2) b(9) by (simp_all add: sender_def)
  have units: "0 < tq_units q" using b(2,8) by simp
  have covered: "tq_required q = (if contract = [] then tq_units q else 0) + ?r" "tq_required q \<le> ta_Balance account"
    using q v le by simp_all
  have shown: "tq_FeeTRX q = units_text ?r 6" using b(11) r by simp
  show ?thesis
    by (intro exI conjI, rule p0, rule sender(1), rule p(1), rule sender(2), rule p(5), rule b0, rule parts, rule refl,
        rule covered(1), rule units, rule pos, rule refl, rule covered(2), rule shown, rule b(12))
qed

text \<open>
  C20: The bytes a TRON quote asks to sign, decoded by a reader of the protobuf format, are the
  transfer that was asked for and is shown: from the quoting account to the recipient asked for; for
  TRX the amount whose decimal text was given, for a token the call that transfers the given units of
  that token, which are shown with the token's decimals; until the expiry of the quote, with the
  limit of the fee that is shown, at most 100 TRX.
\<close>

theorem tron_quote_says:
  fixes s :: "('w, tron_file, 'h tron_heap_scheme) sys"
  assumes "TronQuoteCall V to amount contract rawAmount s = (Inr q, t)"
    and "0 \<le> tq_Expires q" and "unix_milli (tq_Expires q) < 2 ^ 63"
  shows "\<exists>owner recipient feeLimit. ParseTronAddress (te_lib V) (tq_From q) = Inr owner \<and>
    ParseTronAddress (te_lib V) to = Inr recipient \<and> tq_To q = to \<and> tq_Contract q = contract \<and> 0 < tq_units q \<and>
    tq_FeeLimitTRX q = units_text feeLimit 6 \<and> 0 \<le> feeLimit \<and> feeLimit \<le> 100000000 \<and>
    (if contract = []
     then ParseUnits amount 6 = Inr (tq_units q) \<and> tq_Amount q = amount \<and> feeLimit = 0 \<and>
       tron_order_of (tq_raw q) = Some \<lparr> or_kind = 1, or_owner = Some owner, or_target = Some recipient,
            or_amount = nat (tq_units q), or_data = None, or_expires = nat (unix_milli (tq_Expires q)), or_fee_limit = 0 \<rparr>
     else ParseRawTokenAmount rawAmount = Inr (tq_units q) \<and> tq_AmountRaw q = int_str (tq_units q) \<and>
       tq_Amount q = units_text (tq_units q) (tq_Decimals q) \<and>
       (\<exists>target data. ParseTronAddress (te_lib V) contract = Inr target \<and>
         AbiPack (te_eth V) ''erc20.transfer'' [AbiAddress (address_of recipient), AbiUint (tq_units q)] = Inr data \<and>
         tron_order_of (tq_raw q) = Some \<lparr> or_kind = 31, or_owner = Some owner, or_target = Some target, or_amount = 0,
            or_data = Some data, or_expires = nat (unix_milli (tq_Expires q)), or_fee_limit = nat feeLimit \<rparr>))"
proof -
  obtain toBytes account costs sender and s1 s2 s3 s4 :: "('w, tron_file, 'h tron_heap_scheme) sys" where
    p: "ParseTronAddress (te_lib V) to = Inr toBytes" "tron_account V sender s1 = (Inr account, s2)" "costs_ok costs"
    "build_quote V costs account sender to toBytes amount contract rawAmount s3 = (Inr q, s4)"
    by (rule TronQuoteCall_parts [OF assms(1)]) blast
  obtain cb token units am rt v activation energy feeLimit blockID ms and r1 r2 r4 :: "('w, tron_file, 'h tron_heap_scheme) sys" where
    b: "quote_token V sender contract r1 = (Inr (cb, token), r2)" "0 < units"
    "transfer_costs V costs sender to toBytes contract token units r2 = (Inr (v, activation, energy, feeLimit), r4)"
    "tronRaw (te_eth V) (case ParseTronAddress (te_lib V) sender of Inr b \<Rightarrow> b | Inl _ \<Rightarrow> []) toBytes units cb blockID ms
       (unix_milli (tq_Expires q)) feeLimit = Inr (tq_raw q)"
    "tq_units q = units" "tq_From q = sender"
    "quote_units token amount rawAmount = Inr (units, am, rt)"
    "tq_To q = to" "tq_Contract q = contract" "tq_Amount q = am" "tq_AmountRaw q = rt"
    "tq_Decimals q = (case token of None \<Rightarrow> 6 | Some k \<Rightarrow> tt_Decimals k)" "tq_FeeLimitTRX q = units_text feeLimit 6"
    by (rule build_quote_parts [OF p(4)]) blast
  note token = quote_token_ok [OF b(1)]
  note range = transfer_costs_range [OF b(3) p(3) b(2)]
  from tron_account_range [OF p(2)] obtain ob where ob: "ParseTronAddress (te_lib V) sender = Inr ob" by blast
  have e: "0 \<le> unix_milli (tq_Expires q)" using assms(2) by (simp add: unix_milli_def)
  have f: "0 \<le> feeLimit" "feeLimit < 2 ^ 63" using range(6,7) by simp_all
  have small: "cb = [] \<longrightarrow> units < 2 ^ 63" using token range(1) by auto
  note says = tronRaw_says [OF b(4) e assms(3) f b(2) small]
  have rest: "tq_To q = to" "tq_Contract q = contract" "0 < tq_units q" "tq_FeeLimitTRX q = units_text feeLimit 6"
    "0 \<le> feeLimit" "feeLimit \<le> 100000000" using b f range(7) by simp_all
  show ?thesis
  proof (cases "contract = []")
    case True
    with token have t: "cb = []" "token = None" by simp_all
    moreover from t range(2) have "feeLimit = 0" by simp
    moreover from t b(7,5,10) have "ParseUnits amount 6 = Inr (tq_units q)" "tq_Amount q = amount"
      by (auto simp: quote_units_def ebind_eq_Inr)
    ultimately show ?thesis using says True ob p(1) b(5,6) rest
      by (intro exI [of _ ob] exI [of _ toBytes] exI [of _ feeLimit]) simp
  next
    case False
    with token have cb: "cb \<noteq> []" "ParseTronAddress (te_lib V) contract = Inr cb" and "token \<noteq> None" by simp_all
    then obtain k where k: "token = Some k" by blast
    with b(5,7,10,11,12) have am: "ParseRawTokenAmount rawAmount = Inr (tq_units q)" "tq_AmountRaw q = int_str (tq_units q)"
      "tq_Amount q = units_text (tq_units q) (tq_Decimals q)"
      by (auto simp: quote_units_def ebind_eq_Inr)
    from cb says ob False obtain data where
      "AbiPack (te_eth V) ''erc20.transfer'' [AbiAddress (address_of toBytes), AbiUint units] = Inr data"
      "tron_order_of (tq_raw q) = Some \<lparr> or_kind = 31, or_owner = Some ob, or_target = Some cb, or_amount = 0,
         or_data = Some data, or_expires = nat (unix_milli (tq_Expires q)), or_fee_limit = nat feeLimit \<rparr>" by auto
    then show ?thesis using cb ob p(1) b(5,6) False am rest
      by (intro exI [of _ ob] exI [of _ toBytes] exI [of _ feeLimit]) simp
  qed
qed

end
