(* ===== verification/TronSamples.thy ===== *)
theory TronSamples
  imports TronQuoteFacts
begin

text \<open>Concrete TRON services: each property applied where its hypotheses hold.\<close>

section \<open>A library and a node\<close>

definition byte_char :: "8 word \<Rightarrow> char" where
  "byte_char b = char_of (unat b)"

definition char_byte :: "char \<Rightarrow> 8 word" where
  "char_byte c = word_of_nat (of_char c)"

lemma char_byte_char: "char_byte (byte_char b) = b"
  using unat_byte [of b] by (simp add: char_byte_def byte_char_def)

definition tron_encode :: "bytes \<Rightarrow> string" where
  "tron_encode bs = (if length bs = 25 then replicate 9 (CHR ''A'') @ map byte_char bs else CHR ''B'' # map byte_char bs)"

definition tron_decode :: "string \<Rightarrow> bytes option" where
  "tron_decode s =
     (case s of [] \<Rightarrow> None | c # cs \<Rightarrow> Some (map char_byte (if c = CHR ''A'' then drop 8 cs else cs)))"

definition sample_tronlib :: "address tronlib" where
  "sample_tronlib = \<lparr> tl_Sha256 = (\<lambda>bs. replicate 32 7), tl_Base58Encode = tron_encode, tl_Base58Decode = tron_decode,
     tl_Sign = (\<lambda>h k. Inr (be_bytes 20 (unat k) @ replicate 45 0)),
     tl_SigToPub = (\<lambda>h sig. Some (word_of_nat (be_val (take 20 sig)))) \<rparr>"

lemma tron_decode_encode: "tron_decode (tron_encode bs) = Some bs"
proof -
  have nine: "replicate 9 c @ cs = c # replicate 8 c @ cs" for c :: char and cs
    using replicate_Suc [of 8 c] by simp
  have "drop 8 (replicate 8 c @ cs) = cs" for c :: char and cs by simp
  then show ?thesis
    unfolding tron_encode_def tron_decode_def by (simp only: nine list.case if_split) (simp add: comp_def char_byte_char)
qed

lemma sample_base58: "base58_laws sample_tronlib"
  unfolding base58_laws_def
  by (simp add: sample_tronlib_def tron_decode_encode) (simp add: tron_encode_def)

definition tron_eth :: "address ethlib" where
  "tron_eth = sample_lib\<lparr> AbiPack := (\<lambda>m vs. Inr (replicate 68 1)), AbiUnpack := sample_unpack \<rparr>"

lemma sample_tron_sign: "tron_sign_laws tron_eth sample_tronlib"
  by (simp add: tron_sign_laws_def sample_tronlib_def tron_eth_def sample_lib_def sample_eth_def be_val_address)

lemma sample_short: "short_calls tron_eth"
  by (auto simp: short_calls_def tron_eth_def)

text \<open>The node: one answer per path, the bytes stand for the documents.\<close>

definition tron_answers :: "(string \<times> json) list" where
  "tron_answers =
     [(''/wallet/getblockbynum'', JObj [(''blockID'', JStr TronShastaGenesis)]),
      (''/wallet/getaccount'', JObj [(''address'', JStr ''T''), (''balance'', JInt 900000000)]),
      (''/wallet/getchainparameters'', JObj [(''chainParameter'', JArr
         (map (\<lambda>n. JObj [(''key'', JStr n), (''value'', JInt 1000)]) cost_names))]),
      (''/wallet/getnowblock'', JObj [(''blockID'', JStr TronShastaGenesis), (''block_header'',
         JObj [(''raw_data'', JObj [(''timestamp'', JInt 1700000000000)])])]),
      (''/wallet/broadcasthex'', JObj [(''result'', JBool True)])]"

definition tron_post :: "string \<Rightarrow> json \<Rightarrow> int \<Rightarrow> (err + int \<times> (nat \<Rightarrow> bytes option)) \<times> int" where
  "tron_post path body w =
     (case first_index (\<lambda>a. fst a = path) tron_answers of
        None \<Rightarrow> (Inl (ErrExt ''no answer''), w)
      | Some i \<Rightarrow> (Inr (200, \<lambda>n. Some [word_of_nat i]), w))"

definition tron_unmarshal :: "bytes \<Rightarrow> json option" where
  "tron_unmarshal bs = (case bs of [b] \<Rightarrow> Some (snd (tron_answers ! unat b)) | _ \<Rightarrow> None)"

definition sample_tron :: "(address, int) tron_env" where
  "sample_tron =
     \<lparr> te_eth = tron_eth, te_os = sample_io, te_lib = sample_tronlib, te_keys = sample_keys, te_Post = tron_post,
       te_Unmarshal = tron_unmarshal, te_NewID = (\<lambda>w. (''quote-1'', w)) \<rparr>"

definition tron_empty_heap :: tron_heap where
  "tron_empty_heap = \<lparr> th_quotes = [], th_records = [], th_fault = False, th_historyNext = 0 \<rparr>"

definition tron_fresh :: "(int, tron_file, tron_heap) sys" where
  "tron_fresh = sample_sys tron_empty_heap"

definition tron_recipient :: string where
  "tron_recipient = TronAddress sample_tronlib 9"

lemma tron_parts [simp]:
  "te_eth sample_tron = tron_eth" "te_os sample_tron = sample_io" "te_lib sample_tron = sample_tronlib"
  "te_keys sample_tron = sample_keys" "te_NewID sample_tron = (\<lambda>w. (''quote-1'', w))"
  by (simp_all add: sample_tron_def)

lemma tron_sample_call:
  assumes "first_index (\<lambda>a. fst a = path) tron_answers = Some i" and "i < 256"
  shows "tron_call sample_tron path body output s = (tron_output (Some (snd (tron_answers ! i))) output, s)"
proof -
  have "unat (word_of_nat i :: 8 word) = i" using assms(2) by (simp add: unat_of_nat)
  then show ?thesis
    using assms(1) by (simp add: tron_call_def run_simps sample_tron_def tron_post_def tron_unmarshal_def response_limit_def split: prod.split)
qed

lemma call_answers:
  "tron_call sample_tron ''/wallet/getblockbynum'' body block_id s = (Inr TronShastaGenesis, s)"
  "tron_call sample_tron ''/wallet/getaccount'' body account_output s = (Inr \<lparr> ta_Address = ''T'', ta_Balance = 900000000 \<rparr>, s)"
  "tron_call sample_tron ''/wallet/getnowblock'' body block_output s = (Inr (TronShastaGenesis, 1700000000000), s)"
  "tron_call sample_tron ''/wallet/broadcasthex'' body broadcast_output s = (Inr (True, []), s)"
  "tron_call sample_tron ''/wallet/getchainparameters'' body parameters_output s = (Inr (map (\<lambda>n. (n, 1000)) cost_names), s)"
proof -
  have f: "equal_fold ''Key'' ''Value'' = False" "equal_fold ''key'' ''Key''" "equal_fold ''value'' ''Value''" by code_simp+
  show "tron_call sample_tron ''/wallet/getblockbynum'' body block_id s = (Inr TronShastaGenesis, s)"
    by (subst tron_sample_call [where i = 0]) (simp_all add: tron_answers_def, code_simp)
  show "tron_call sample_tron ''/wallet/getaccount'' body account_output s = (Inr \<lparr> ta_Address = ''T'', ta_Balance = 900000000 \<rparr>, s)"
    by (subst tron_sample_call [where i = 1]) (simp_all add: tron_answers_def, code_simp)
  show "tron_call sample_tron ''/wallet/getchainparameters'' body parameters_output s = (Inr (map (\<lambda>n. (n, 1000)) cost_names), s)"
    by (subst tron_sample_call [where i = 2]) (simp_all add: tron_answers_def, code_simp)
  show "tron_call sample_tron ''/wallet/getnowblock'' body block_output s = (Inr (TronShastaGenesis, 1700000000000), s)"
    by (subst tron_sample_call [where i = 3]) (simp_all add: tron_answers_def, code_simp)
  show "tron_call sample_tron ''/wallet/broadcasthex'' body broadcast_output s = (Inr (True, []), s)"
    by (subst tron_sample_call [where i = 4]) (simp_all add: tron_answers_def, code_simp)
qed

section \<open>A transfer\<close>

definition tron_sender :: string where
  "tron_sender = TronAddress sample_tronlib 5"

lemma sender_text [simp]: "ParseTronAddress sample_tronlib tron_sender = Inr (address_payload 5)"
  by (simp add: tron_sender_def ParseTronAddress_text [OF sample_base58])

lemma recipient_text [simp]: "ParseTronAddress sample_tronlib tron_recipient = Inr (address_payload 9)"
  by (simp add: tron_recipient_def ParseTronAddress_text [OF sample_base58])

lemma address_payload_inj: "address_payload a = address_payload b \<longleftrightarrow> a = b"
  by (metis address_of_payload)

lemma other_address: "tron_recipient \<noteq> tron_sender"
proof
  assume "tron_recipient = tron_sender"
  then have "address_payload 9 = address_payload 5" using recipient_text sender_text by (metis Inr_inject)
  then show False by (simp add: address_payload_inj)
qed

lemma sample_owner: "tron_from sample_tron (AddressHex sample_lib 5) = tron_sender"
proof -
  have "HexToAddress tron_eth (AddressHex sample_lib 5) = 5"
    using eth_hexD(1) [OF sample_lib_hex, of 5] by (simp add: tron_eth_def)
  then show ?thesis by (simp add: tron_from_def tron_sender_def)
qed

lemma sample_checked: "tron_check sample_tron s = (Inr (), s)"
  by (simp add: tron_check_def run_simps call_answers)

lemma sample_account:
  "ParseTronAddress sample_tronlib a = Inr b \<Longrightarrow>
    tron_account sample_tron a s = (Inr \<lparr> ta_Address = ''T'', ta_Balance = 900000000 \<rparr>, s)"
  by (simp add: tron_account_def run_simps call_answers)

definition tron_sample_raw :: bytes where
  "tron_sample_raw = (case tronRaw tron_eth (address_payload 5) (address_payload 9) 1250000 [] TronShastaGenesis
     1700000000000 1700000060000 0 of Inr r \<Rightarrow> r | Inl _ \<Rightarrow> [])"

lemma tron_sample_raw_ok:
  "tronRaw tron_eth (address_payload 5) (address_payload 9) 1250000 [] TronShastaGenesis 1700000000000 1700000060000 0 = Inr tron_sample_raw"
proof -
  have "map_option length (hex_decode TronShastaGenesis) = Some 32" by code_simp
  then show ?thesis by (auto simp: tron_sample_raw_def tronRaw_def tron_payload_def)
qed

lemma sample_bandwidth: "0 < bandwidth_of tron_sample_raw \<and> bandwidth_of tron_sample_raw \<le> 2000"
  by (rule bandwidth_bound, rule length_tronRaw [OF tron_sample_raw_ok sample_short]) (simp_all add: address_payload_def)

definition sample_required :: int where
  "sample_required = 1250000 + bandwidth_of tron_sample_raw * 1000"

definition sample_tron_quote :: TronQuote where
  "sample_tron_quote =
     \<lparr> tq_ID = ''quote-1'', tq_From = tron_sender, tq_To = tron_recipient, tq_Contract = [], tq_Symbol = ''TRX'',
       tq_Amount = ''1.25'', tq_AmountRaw = [], tq_Decimals = 6, tq_FeeTRX = units_text (bandwidth_of tron_sample_raw * 1000) 6,
       tq_FeeLimitTRX = units_text 0 6, tq_Energy = 0, tq_Bandwidth = bandwidth_of tron_sample_raw,
       tq_Expires = seconds 1700000060, tq_raw = tron_sample_raw, tq_required = sample_required, tq_units = 1250000 \<rparr>"

definition tron_quoted :: "(int, tron_file, tron_heap) sys" where
  "tron_quoted = tron_fresh\<lparr> world := seconds 1700000000 + 2,
     heap := tron_empty_heap\<lparr> th_quotes := [(''quote-1'', sample_tron_quote)] \<rparr> \<rparr>"

lemma sample_price: "cost_of (map (\<lambda>n. (n, 1000)) cost_names) ''getTransactionFee'' = 1000"
  by (simp add: cost_of_def cost_names_def)

lemma sample_built:
  "build_quote sample_tron (map (\<lambda>n. (n, 1000)) cost_names) \<lparr> ta_Address = ''T'', ta_Balance = 900000000 \<rparr> tron_sender
     tron_recipient (address_payload 9) ''1.25'' [] [] tron_fresh =
   (Inr sample_tron_quote, tron_fresh\<lparr>world := seconds 1700000000 + 2\<rparr>)"
proof -
  have ids: "int64 (bandwidth_of tron_sample_raw * 1000) = bandwidth_of tron_sample_raw * 1000" "int64 898750000 = 898750000"
    "int64 (1250000 + bandwidth_of tron_sample_raw * 1000) = 1250000 + bandwidth_of tron_sample_raw * 1000"
    using sample_bandwidth by (simp_all add: int64_id)
  show ?thesis
    using sample_bandwidth
    by (simp add: build_quote_def run_simps quote_token_def quote_units_def ParseUnits_1_25 transfer_costs_def sample_account
        call_answers sample_price ids tron_sample_raw_ok tron_fresh_def sample_sys_def sample_io_def unix_milli_def
        seconds_def Let_def sample_tron_quote_def sample_required_def)
qed

lemma tron_sample_quoted: "TronQuoteCall sample_tron tron_recipient ''1.25'' [] [] tron_fresh = (Inr sample_tron_quote, tron_quoted)"
proof -
  have "ka_Address sample_keys w = (Inr (AddressHex sample_lib 5), w)" for w by (simp add: sample_keys_def)
  moreover have "costs_ok (map (\<lambda>n. (n, 1000)) cost_names)" by (simp add: costs_ok_def cost_of_def cost_names_def)
  moreover have "th_fault (heap tron_fresh) = False" "th_records (heap tron_fresh) = []" "th_quotes (heap tron_fresh) = []"
    by (simp_all add: tron_fresh_def sample_sys_def tron_empty_heap_def)
  moreover have "tron_fresh\<lparr>world := world tron_fresh\<rparr> = tron_fresh" by simp
  moreover have "tq_ID sample_tron_quote = ''quote-1''" by (simp add: sample_tron_quote_def)
  moreover have "heap tron_fresh = tron_empty_heap" by (simp add: tron_fresh_def sample_sys_def)
  ultimately show ?thesis
    by (simp add: TronQuoteCall_def run_simps run_ask tron_pending_def Let_def sample_owner other_address sample_checked
        sample_account call_answers sample_built store_quote_def drop_expired_def tron_quoted_def tron_empty_heap_def)
qed

definition sample_tron_record :: tronJournalRecord where
  "sample_tron_record =
     signed_record sample_tron_quote ''quote-1'' (replicate 32 7) (be_bytes 20 5 @ replicate 45 0) (seconds 1700000000 + 4)"

definition tron_disk :: "string \<Rightarrow> tron_file" where
  "tron_disk st = Some [tronRecordToDisk (sample_tron_record\<lparr>tr_State := st\<rparr>)]"

definition tron_sent :: "(int, tron_file, tron_heap) sys" where
  "tron_sent =
     \<lparr> world = seconds 1700000000 + 6, files = [(tronJournal, tron_disk ''submitted'')],
       trace = [Renamed tronJournal (tron_disk ''broadcast_unknown''), SentRaw (tr_Signed sample_tron_record),
                Renamed tronJournal (tron_disk ''submitted'')],
       heap = tron_empty_heap\<lparr> th_records := [sample_tron_record\<lparr>tr_State := ''submitted''\<rparr>] \<rparr> \<rparr>"

lemma sample_times: "marshal_tron [sample_tron_record] = Inr (tron_disk ''broadcast_unknown'')"
  "marshal_tron [sample_tron_record\<lparr>tr_State := ''submitted''\<rparr>] = Inr (tron_disk ''submitted'')"
  by (simp_all add: marshal_tron_def tron_disk_def json_time_def sample_tron_record_def signed_record_def
      sample_tron_quote_def seconds_def)

lemma steady: "SysCall sample_io op w = (Inr (), w)" "TimeNow sample_io w = (w, w + 1)" "CtxErr sample_io w = (False, w)"
  by (simp_all add: sample_io_def)

lemma tron_sample_write: "atomicWriteFile sample_io p d s = (Inr (), put_file p d s)"
  by (simp add: atomicWriteFile_def run_simps steady)

definition tron_stored :: "(int, tron_file, tron_heap) sys" where
  "tron_stored =
     \<lparr> world = seconds 1700000000 + 5, files = [(tronJournal, tron_disk ''broadcast_unknown'')],
       trace = [Renamed tronJournal (tron_disk ''broadcast_unknown'')],
       heap = tron_empty_heap\<lparr> th_records := [sample_tron_record] \<rparr> \<rparr>"

lemma sample_expiry [simp]: "tq_Expires sample_tron_quote = seconds 1700000060" "tr_Expires sample_tron_record = seconds 1700000060"
  by (simp_all add: sample_tron_quote_def sample_tron_record_def signed_record_def)

lemma tron_in_time: "\<not> seconds 1700000060 < seconds 1700000000 + 2" "\<not> seconds 1700000060 < seconds 1700000000 + 3"
  "\<not> seconds 1700000060 < seconds 1700000000 + 5"
  by (simp_all add: seconds_def)

lemma tron_quoted_parts: "world tron_quoted = seconds 1700000000 + 2"
  "heap tron_quoted = tron_empty_heap\<lparr> th_quotes := [(''quote-1'', sample_tron_quote)] \<rparr>"
  "files tron_quoted = []" "trace tron_quoted = []"
  by (simp_all add: tron_quoted_def tron_fresh_def sample_sys_def)

lemma sample_signed_record: "signed_record sample_tron_quote ''quote-1'' (replicate 32 7) (be_bytes 20 5 @ replicate 45 0) (4 + seconds 1700000000) =
    sample_tron_record"
  unfolding sample_tron_record_def by (simp only: add.commute [of 4])

lemma sample_stored:
  "sign_and_store sample_tron sample_tron_quote ''quote-1'' [] (tron_quoted\<lparr>world := seconds 1700000000 + 3\<rparr>) = (Inr (), tron_stored)"
proof -
  have key: "ka_DecryptKey sample_keys p w = (Inr 5, w)" for p w by (simp add: sample_keys_def)
  have own: "TronAddress sample_tronlib (PubkeyAddress tron_eth 5) = tq_From sample_tron_quote"
    by (simp add: tron_sender_def tron_eth_def sample_lib_def sample_eth_def sample_tron_quote_def)
  have lib: "tl_Sha256 sample_tronlib bs = replicate 32 7" "tl_Sign sample_tronlib h 5 = Inr (be_bytes 20 5 @ replicate 45 0)" for bs h
    by (simp_all add: sample_tronlib_def)
  have save: "tron_save sample_tron [sample_tron_record] s =
      (Inr (), (put_file tronJournal (tron_disk ''broadcast_unknown'') s)\<lparr>heap := (heap s)\<lparr>th_records := [sample_tron_record]\<rparr>\<rparr>)" for s
    by (simp add: tron_save_def run_simps sample_times tron_sample_write)
  show ?thesis
    by (simp add: sign_and_store_def run_simps run_ask key own lib steady tron_in_time tron_quoted_parts tron_empty_heap_def Let_def
        sample_signed_record save)
      (simp add: tron_stored_def put_file_def tron_quoted_parts tron_empty_heap_def tron_quoted_def tron_fresh_def sample_sys_def)
qed

lemma sample_broadcast: "\<exists>r. tron_broadcast sample_tron 0 tron_stored = (Inr r, tron_sent)"
proof -
  have save: "tron_save sample_tron [sample_tron_record\<lparr>tr_State := ''submitted''\<rparr>] s =
      (Inr (), (put_file tronJournal (tron_disk ''submitted'') s)\<lparr>heap := (heap s)\<lparr>th_records := [sample_tron_record\<lparr>tr_State := ''submitted''\<rparr>]\<rparr>\<rparr>)" for s
    by (simp add: tron_save_def run_simps sample_times tron_sample_write)
  show ?thesis
    by (simp add: tron_broadcast_def run_simps tron_stored_def tron_empty_heap_def sample_checked steady tron_in_time call_answers Let_def save)
      (simp add: tron_sent_def put_file_def tron_empty_heap_def)
qed

lemma sample_sent_tron: "\<exists>r. TronSend sample_tron ''quote-1'' [] tron_quoted = (Inr r, tron_sent)"
proof -
  have q: "tq_Contract sample_tron_quote = []" "tq_From sample_tron_quote = tron_sender" "\<not> 900000000 < tq_required sample_tron_quote"
    using sample_bandwidth by (simp_all add: sample_tron_quote_def sample_required_def)
  obtain r where b: "tron_broadcast sample_tron 0 tron_stored = (Inr r, tron_sent)" using sample_broadcast ..
  have n: "length (th_records (heap tron_stored)) = 1" by (simp add: tron_stored_def)
  have next3: "1 + (seconds 1700000000 + 2) = seconds 1700000000 + 3" "seconds 1700000000 + 2 + 1 = seconds 1700000000 + 3" by simp_all
  show ?thesis
    by (simp add: TronSend_def run_simps ParseLegacyQuoteID_def tron_quoted_parts tron_empty_heap_def tron_pending_def steady q
        tron_in_time sample_checked sample_account recheck_token_def next3 sample_stored n b)
qed

section \<open>Witnesses\<close>

lemma tron_sample_start: "tron_start tron_fresh"
  by (simp add: tron_start_def tron_fresh_def sample_sys_def tron_empty_heap_def)

lemma tron_sample_run: "(tron_op sample_tron)\<^sup>*\<^sup>* tron_fresh tron_sent"
proof -
  have "tron_op sample_tron tron_fresh tron_quoted" by (rule tron_op.quote) (rule tron_sample_quoted)
  moreover from sample_sent_tron obtain r where "TronSend sample_tron ''quote-1'' [] tron_quoted = (Inr r, tron_sent)" ..
  then have "tron_op sample_tron tron_quoted tron_sent" by (rule tron_op.send)
  ultimately show ?thesis by auto
qed

theorem tron_recorded_first_witness:
  "\<exists>before after. trace tron_sent = before @ SentRaw (tr_Signed sample_tron_record) # after \<and>
    tron_present (replayed [] before) (tr_Signed sample_tron_record)"
proof -
  have t: "trace tron_sent = [Renamed tronJournal (tron_disk ''broadcast_unknown'')] @ SentRaw (tr_Signed sample_tron_record) #
      [Renamed tronJournal (tron_disk ''submitted'')]"
    by (simp add: tron_sent_def)
  have "tron_present (replayed (files tron_fresh) [Renamed tronJournal (tron_disk ''broadcast_unknown'')]) (tr_Signed sample_tron_record)"
    by (rule tron_recorded_first [OF _ _ tron_sample_start tron_sample_run t]) (simp_all add: sample_base58 sample_tron_sign)
  moreover have "files tron_fresh = []" by (simp add: tron_fresh_def sample_sys_def)
  ultimately show ?thesis
    using t by (intro exI [of _ "[Renamed tronJournal (tron_disk ''broadcast_unknown'')]"] exI [of _ "[Renamed tronJournal (tron_disk ''submitted'')]"]) simp
qed

definition tron_endpoint :: parsed_url where
  "tron_endpoint = \<lparr> pu_Scheme = ''https'', pu_Host = ''node'', pu_User = False, pu_RawQuery = [], pu_Fragment = [] \<rparr>"

theorem tron_restart_accepts_witness:
  "\<exists>t'. NewTronService sample_tron (Some tron_endpoint) tron_sent = (Inr (), t') \<and>
    on_file (files tron_sent) (th_records (heap t')) \<and> list_all (verified sample_tronlib) (th_records (heap t'))"
proof -
  obtain r t' where run: "NewTronService sample_tron (Some tron_endpoint) tron_sent = (r, t')" by force
  have ok: "tron_url_ok (Some tron_endpoint)" by (simp add: tron_url_ok_def tron_endpoint_def)
  have no: "\<not> io_error sample_io e" for e by (simp add: io_error_def steady)
  note loads = tron_restart_accepts [OF ok run, of tron_fresh]
  from loads no sample_base58 sample_tron_sign tron_sample_start tron_sample_run have "isl r = False" by (cases r) auto
  then obtain u where u: "r = Inr u" by (cases r) auto
  with loads have "on_file (files tron_sent) (th_records (heap t'))" "list_all (verified sample_tronlib) (th_records (heap t'))"
    by (auto simp: sample_tron_def)
  with run u show ?thesis by auto
qed

theorem tron_quote_covered_witness:
  "\<exists>account reserve (s1 :: (int, tron_file, tron_heap) sys) s2. tron_account sample_tron tron_sender s1 = (Inr account, s2) \<and>
    tq_required sample_tron_quote = 1250000 + reserve \<and> bandwidth_of (tq_raw sample_tron_quote) * 1000 \<le> reserve \<and>
    tq_required sample_tron_quote \<le> ta_Balance account"
proof -
  have q: "tq_From sample_tron_quote = tron_sender" "tq_units sample_tron_quote = 1250000"
    by (simp_all add: sample_tron_quote_def)
  have short: "short_calls (te_eth sample_tron)" using sample_short by simp
  obtain owner account costs tm recipient activation energyFee reserve and s1 s2 s3 s4 :: "(int, tron_file, tron_heap) sys" where
    f: "tron_account sample_tron tron_sender s1 = (Inr account, s2)"
      "tron_call sample_tron ''/wallet/getchainparameters'' (JObj []) parameters_output s2 = (Inr costs, s3)"
      "energyFee = 0" "\<exists>rcp (u :: (int, tron_file, tron_heap) sys). tron_account sample_tron tron_recipient s4 = (Inr rcp, u) \<and>
        activation = (if ta_Address rcp = [] then cost_of costs ''getCreateNewAccountFeeInSystemContract'' + cost_of costs ''getCreateAccountFee'' else 0)"
      "reserve = bandwidth_of (tq_raw sample_tron_quote) * cost_of costs ''getTransactionFee'' + activation + energyFee"
      "tq_required sample_tron_quote = 1250000 + reserve" "tq_required sample_tron_quote \<le> ta_Balance account"
    using tron_quote_covered [OF _ tron_sample_quoted, unfolded q simp_thms if_True, OF short]
    by (elim exE conjE) (rule that, assumption+, intro exI conjI, assumption+)
  from f(2) have costs: "costs = map (\<lambda>n. (n, 1000)) cost_names" by (simp add: call_answers)
  have "0 \<le> activation" using f(4) unfolding costs by (auto simp: cost_of_def cost_names_def)
  with f show ?thesis unfolding costs sample_price
    by (intro exI [of _ account] exI [of _ reserve] exI [of _ s1] exI [of _ s2]) simp
qed

theorem tron_quote_says_witness:
  "ParseUnits ''1.25'' 6 = Inr 1250000 \<and> tron_order_of tron_sample_raw =
     Some \<lparr> or_kind = 1, or_owner = Some (address_payload 5), or_target = Some (address_payload 9),
       or_amount = 1250000, or_data = None, or_expires = 1700000060000, or_fee_limit = 0 \<rparr>"
  using tron_quote_says [OF tron_sample_quoted] by (simp add: seconds_def unix_milli_def) (simp add: sample_tron_quote_def)

end
