(* ===== verification/Spec2Isabelle.thy ===== *)
theory Spec2Isabelle
  imports JournalDisk ChainFacts ServiceSamples KeystoreSamples AccountsSamples FallbackFacts ScannerSamples ChainActivityFacts UserOpSamples TronSamples
begin

text \<open>
  Testnet Wallet Lab.
\<close>

end
